(* ===== verification/Prelude.thy ===== *)
theory Prelude
  imports Complex_Main "HOL-Library.AList" "HOL-Library.Multiset"
begin

text \<open>
  Shared vocabulary of the development: optional object members, results that may be an
  exception, the array and \<open>Map\<close> operations of the language that the modelled code uses, the
  theorem collections the component proofs draw on, and the interface of fresh-name search.

  Conventions. A TypeScript member \<open>x?: T | null\<close> is a \<open>T field\<close>: absent (or \<open>undefined\<close>), \<open>null\<close>,
  or a value. A function that may throw returns \<open>js_error + 'a\<close>. A mutator that either returns
  its own argument (the same reference) or a new object returns \<open>'a option\<close>: \<open>None\<close> is \<open>return
  product\<close>, so that the reference comparisons of the callers are kept.
\<close>

named_theorems op_defs \<open>definitions of the operations of a component\<close>
named_theorems field_simps_js \<open>laws of optional members\<close>

section \<open>Optional members and exceptions\<close>

datatype 'a field = Undef | Null | Val 'a

text \<open>How a call ends without a value: an exception, a loop that runs for ever (\<open>NoReturn\<close>), or a cast
  (\<open>x as T\<close>) of a value outside \<open>T\<close>, where the run leaves the types the model has (\<open>IllTyped\<close>). Only
  exceptions are caught by \<open>try\<close>.\<close>

datatype js_error = Error string | RangeError string | TypeError string | SyntaxError | NoReturn | IllTyped

type_synonym 'a result = "js_error + 'a"

definition result_bind :: "'a result \<Rightarrow> ('a \<Rightarrow> 'b result) \<Rightarrow> 'b result" where
  "result_bind r f = (case r of Inl e \<Rightarrow> Inl e | Inr x \<Rightarrow> f x)"

text \<open>\<open>xs.map(f)\<close> with an \<open>f\<close> that may throw: the first exception wins.\<close>

fun map_result :: "('a \<Rightarrow> 'b result) \<Rightarrow> 'a list \<Rightarrow> 'b list result" where
  "map_result f [] = Inr []"
| "map_result f (x # xs) = result_bind (f x) (\<lambda>y. result_bind (map_result f xs) (\<lambda>ys. Inr (y # ys)))"

primrec nullish :: "'a field \<Rightarrow> bool" where
  "nullish Undef = True"
| "nullish Null = True"
| "nullish (Val _) = False"

primrec coalesce :: "'a field \<Rightarrow> 'a \<Rightarrow> 'a" where
  "coalesce Undef d = d"
| "coalesce Null d = d"
| "coalesce (Val x) d = x"

definition coalesce_field :: "'a field \<Rightarrow> 'a field \<Rightarrow> 'a field" where
  "coalesce_field f g = (if nullish f then g else f)"

primrec field_opt :: "'a field \<Rightarrow> 'a option" where
  "field_opt Undef = None"
| "field_opt Null = None"
| "field_opt (Val x) = Some x"

primrec opt_null :: "'a option \<Rightarrow> 'a field" where
  "opt_null None = Null"
| "opt_null (Some x) = Val x"

text \<open>One member of an object spread \<open>{...a, ...b}\<close>.\<close>

definition spread :: "'a field \<Rightarrow> 'a field \<Rightarrow> 'a field" where
  "spread a b = (if b = Undef then a else b)"

text \<open>Truthiness of a string member: absent, \<open>null\<close> and the empty string are falsy.\<close>

definition truthy_str :: "string field \<Rightarrow> bool" where
  "truthy_str f = (case f of Val s \<Rightarrow> s \<noteq> [] | _ \<Rightarrow> False)"

lemma result_bind_simps [simp]: "result_bind (Inl e) f = Inl e" "result_bind (Inr x) f = f x"
  by (simp_all add: result_bind_def)

lemma result_bind_Inr: "result_bind r f = Inr y \<longleftrightarrow> (\<exists>x. r = Inr x \<and> f x = Inr y)"
  by (cases r) simp_all

lemma map_result_Inr:
  "map_result f xs = Inr ys \<longleftrightarrow> length ys = length xs \<and> (\<forall>i < length xs. f (xs ! i) = Inr (ys ! i))"
proof (induction xs arbitrary: ys)
  case (Cons x xs)
  show ?case
  proof (cases ys)
    case Nil
    then show ?thesis by (simp add: result_bind_Inr)
  next
    case ys: (Cons y ys')
    have "map_result f (x # xs) = Inr ys \<longleftrightarrow> f x = Inr y \<and> map_result f xs = Inr ys'"
      by (auto simp: result_bind_Inr ys)
    also have "\<dots> \<longleftrightarrow> length ys = length (x # xs) \<and> (\<forall>i < length (x # xs). f ((x # xs) ! i) = Inr (ys ! i))"
      unfolding Cons.IH by (auto simp: ys less_Suc_eq_0_disj)
    finally show ?thesis .
  qed
qed auto

lemma map_result_map:
  assumes "map_result f xs = Inr ys" "\<And>x y. x \<in> set xs \<Longrightarrow> f x = Inr y \<Longrightarrow> g y = h x"
  shows "map g ys = map h xs"
  using assms by (auto simp: map_result_Inr intro!: nth_equalityI)

lemma nullish_iff_field_opt: "nullish f \<longleftrightarrow> field_opt f = None"
  by (cases f) simp_all

lemma coalesce_opt_null [simp]: "coalesce (opt_null x) d = (case x of None \<Rightarrow> d | Some y \<Rightarrow> y)"
  by (cases x) simp_all

lemma spread_Undef [simp]: "spread a Undef = a"
  by (simp add: spread_def)

lemma spread_Val [simp]: "spread a (Val x) = Val x"
  by (simp add: spread_def)

lemma spread_Null [simp]: "spread a Null = Null"
  by (simp add: spread_def)

lemma spread_assoc: "spread (spread a b) c = spread a (spread b c)"
  by (simp add: spread_def)

section \<open>Arrays\<close>

definition nth_opt :: "'a list \<Rightarrow> nat \<Rightarrow> 'a option" where
  "nth_opt xs i = (if i < length xs then Some (xs ! i) else None)"

definition last_opt :: "'a list \<Rightarrow> 'a option" where
  "last_opt xs = (if xs = [] then None else Some (last xs))"

definition first_opt :: "'a list \<Rightarrow> 'a option" where
  "first_opt xs = (case xs of [] \<Rightarrow> None | x # _ \<Rightarrow> Some x)"

text \<open>\<open>findIndex\<close>: \<open>None\<close> is the source's \<open>-1\<close>.\<close>

fun findIndex :: "('a \<Rightarrow> bool) \<Rightarrow> 'a list \<Rightarrow> nat option" where
  "findIndex P [] = None"
| "findIndex P (x # xs) = (if P x then Some 0 else map_option Suc (findIndex P xs))"

definition splice :: "nat \<Rightarrow> nat \<Rightarrow> 'a list \<Rightarrow> 'a list \<Rightarrow> 'a list" where
  "splice start del_count new xs = take start xs @ new @ drop (start + del_count) xs"

text \<open>\<open>xs.entries()\<close>: the elements with their positions, from a start offset.\<close>

fun entries_from :: "nat \<Rightarrow> 'a list \<Rightarrow> (nat \<times> 'a) list" where
  "entries_from i [] = []"
| "entries_from i (x # xs) = (i, x) # entries_from (Suc i) xs"

abbreviation entries :: "'a list \<Rightarrow> (nat \<times> 'a) list" where
  "entries xs \<equiv> entries_from 0 xs"

lemma nth_opt_Some: "nth_opt xs i = Some x \<longleftrightarrow> i < length xs \<and> xs ! i = x"
  by (auto simp: nth_opt_def)

lemma nth_opt_None: "nth_opt xs i = None \<longleftrightarrow> length xs \<le> i"
  by (auto simp: nth_opt_def)

lemma nth_opt_map [simp]: "nth_opt (map f xs) i = map_option f (nth_opt xs i)"
  by (simp add: nth_opt_def)

lemma last_opt_None [simp]: "last_opt xs = None \<longleftrightarrow> xs = []"
  by (simp add: last_opt_def)

lemma last_opt_Some: "last_opt xs = Some x \<Longrightarrow> x \<in> set xs"
  by (auto simp: last_opt_def split: if_splits)

lemma first_opt_None [simp]: "first_opt xs = None \<longleftrightarrow> xs = []"
  by (auto simp: first_opt_def split: list.splits)

lemma first_opt_Some: "first_opt xs = Some x \<Longrightarrow> x \<in> set xs"
  by (auto simp: first_opt_def split: list.splits)

lemma findIndex_None: "findIndex P xs = None \<longleftrightarrow> (\<forall>x \<in> set xs. \<not> P x)"
  by (induction xs) auto

lemma findIndex_Some:
  "findIndex P xs = Some i \<Longrightarrow> i < length xs \<and> P (xs ! i) \<and> (\<forall>j < i. \<not> P (xs ! j))"
proof (induction xs arbitrary: i)
  case (Cons x xs)
  show ?case
  proof (cases "P x")
    case False
    with Cons.prems obtain k where k: "findIndex P xs = Some k" "i = Suc k" by auto
    with Cons.IH [OF k(1)] False show ?thesis by (auto simp: less_Suc_eq_0_disj)
  qed (use Cons.prems in auto)
qed simp

lemma find_Some_mem: "List.find P xs = Some x \<Longrightarrow> x \<in> set xs \<and> P x"
  by (auto simp: find_Some_iff)

lemma find_distinct_key:
  "distinct (map f xs) \<Longrightarrow> x \<in> set xs \<Longrightarrow> List.find (\<lambda>y. f y = f x) xs = Some x"
  by (induction xs) (auto simp: image_iff)

lemma set_splice_insert: "set (splice i 0 new xs) = set new \<union> set xs"
proof -
  have "set xs = set (take i xs) \<union> set (drop i xs)"
    by (metis append_take_drop_id set_append)
  then show ?thesis by (auto simp: splice_def)
qed

lemma mset_splice_insert: "mset (splice i 0 new xs) = mset new + mset xs"
proof -
  have "mset xs = mset (take i xs) + mset (drop i xs)"
    by (metis append_take_drop_id mset_append)
  then show ?thesis by (simp add: splice_def)
qed

lemma length_splice_insert: "length (splice i 0 new xs) = length new + length xs"
  by (simp add: splice_def)

lemma map_splice: "map f (splice i n new xs) = splice i n (map f new) (map f xs)"
  by (simp add: splice_def take_map drop_map)

lemma entries_from_nth:
  "entries_from k xs = map (\<lambda>i. (k + i, xs ! i)) [0..<length xs]"
proof (induction xs arbitrary: k)
  case (Cons x xs)
  have "[0..<length (x # xs)] = 0 # map Suc [0..<length xs]"
    by (simp add: map_Suc_upt upt_conv_Cons del: upt_Suc)
  then show ?case using Cons.IH [of "Suc k"] by (simp add: comp_def)
qed simp

lemma length_entries [simp]: "length (entries_from k xs) = length xs"
  by (simp add: entries_from_nth)

lemma map_snd_entries [simp]: "map snd (entries_from k xs) = xs"
  by (induction xs arbitrary: k) simp_all

lemma map_fst_entries: "map fst (entries_from k xs) = [k..<k + length xs]"
  by (induction xs arbitrary: k) (simp_all add: upt_conv_Cons del: upt_Suc)

lemma mem_entries: "(i, x) \<in> set (entries xs) \<longleftrightarrow> i < length xs \<and> xs ! i = x"
  by (auto simp: entries_from_nth)

lemma entries_append: "entries_from k (xs @ ys) = entries_from k xs @ entries_from (k + length xs) ys"
  by (induction xs arbitrary: k) simp_all

section \<open>The language's \<open>Map\<close>\<close>

text \<open>
  A \<open>Map\<close> is an association list in insertion order: \<open>set\<close> is \<^const>\<open>AList.update\<close> (an existing
  key keeps its place), \<open>get\<close> is \<^const>\<open>map_of\<close>. \<open>new Map(pairs)\<close> sets the pairs in turn, so
  the last pair of a key wins.
\<close>

definition map_new :: "('k \<times> 'v) list \<Rightarrow> ('k \<times> 'v) list" where
  "map_new ps = fold (\<lambda>(k, v) m. AList.update k v m) ps []"

definition map_values :: "('k \<times> 'v) list \<Rightarrow> 'v list" where
  "map_values m = map snd m"

definition map_keys :: "('k \<times> 'v) list \<Rightarrow> 'k list" where
  "map_keys m = map fst m"

lemma map_of_fold_update:
  "map_of (fold (\<lambda>(k, v) m. AList.update k v m) ps m) = map_of m ++ map_of (rev ps)"
proof (induction ps arbitrary: m)
  case (Cons p ps)
  obtain k v where p: "p = (k, v)" by (cases p)
  show ?case by (simp add: Cons.IH p update_conv' map_add_def fun_eq_iff split: option.splits)
qed (simp add: map_add_def)

lemma map_of_map_new: "map_of (map_new ps) = map_of (rev ps)"
  by (simp add: map_new_def map_of_fold_update)

lemma distinct_keys_map_new: "distinct (map fst (map_new ps))"
proof -
  have "distinct (map fst m) \<Longrightarrow> distinct (map fst (fold (\<lambda>(k, v) m. AList.update k v m) ps m))" for m
    by (induction ps arbitrary: m) (auto simp: distinct_update)
  then show ?thesis by (simp add: map_new_def)
qed

lemma map_of_rev_distinct: "distinct (map fst ps) \<Longrightarrow> map_of (rev ps) = map_of ps"
  by (rule map_of_inject_set [THEN iffD2]) (auto simp: rev_map [symmetric])

lemma map_of_by_id:
  "distinct (map f xs) \<Longrightarrow> map_of (map_new (map (\<lambda>x. (f x, x)) xs)) k = List.find (\<lambda>x. f x = k) xs"
proof -
  assume d: "distinct (map f xs)"
  then have "map_of (map_new (map (\<lambda>x. (f x, x)) xs)) k = map_of (map (\<lambda>x. (f x, x)) xs) k"
    by (simp add: map_of_map_new map_of_rev_distinct comp_def)
  also have "\<dots> = List.find (\<lambda>x. f x = k) xs"
    by (induction xs) auto
  finally show ?thesis .
qed

lemma map_of_by_id_dom:
  "(map_of (map_new (map (\<lambda>x. (f x, x)) xs)) k = None) \<longleftrightarrow> k \<notin> f ` set xs"
  by (auto simp: map_of_map_new map_of_eq_None_iff image_iff)

lemma map_of_by_id_Some:
  "map_of (map_new (map (\<lambda>x. (f x, x)) xs)) k = Some y \<Longrightarrow> y \<in> set xs \<and> f y = k"
  by (auto simp: map_of_map_new dest!: map_of_SomeD)

text \<open>\<open>s.startsWith(pre)\<close>.\<close>

definition startsWith :: "string \<Rightarrow> string \<Rightarrow> bool" where
  "startsWith s pre \<longleftrightarrow> take (length pre) s = pre"

text \<open>Names joined by a character that the first one does not hold.\<close>

lemma separated: "d \<notin> set a \<union> set a' \<Longrightarrow> a @ d # b = a' @ d # b' \<longleftrightarrow> a = a' \<and> b = b'"
proof (induction a arbitrary: a')
  case Nil
  then show ?case by (cases a') auto
next
  case (Cons c a)
  then show ?case by (cases a') auto
qed

lemma colon_split: "CHR '':'' \<notin> set a \<Longrightarrow> CHR '':'' \<notin> set b \<Longrightarrow> a @ '':'' @ x = b @ '':'' @ y \<Longrightarrow> a = b \<and> x = y"
  using separated [of "CHR '':''" a b x y] by simp

end
