(* ===== verification/JsNumber.thy ===== *)
theory JsNumber
  imports Prelude
begin

text \<open>
  The \<open>Number\<close> type of the language, as the modelled code uses it: IEEE binary64 values with
  round-to-nearest-even after every operation, \<open>NaN\<close> and the infinities, the conversion of a
  string (\<open>Number(s)\<close>), of a number to a fixed count of decimals (\<open>x.toFixed(f)\<close>) and to its
  shortest decimal (\<open>String(x)\<close>), and the \<open>Math\<close> functions. A finite value is the exact rational
  it denotes. The sign of zero is not represented: no modelled operation observes it.
  Strings are lists of code units below 256.
\<close>

section \<open>Integer logarithms of positive rationals\<close>

function ilog_up :: "nat \<Rightarrow> rat \<Rightarrow> nat" where
  "ilog_up b x = (if 2 \<le> b \<and> of_nat b \<le> x then Suc (ilog_up b (x / of_nat b)) else 0)"
  by pat_completeness auto

lemma ilog_up_decr:
  fixes x :: rat
  assumes "2 \<le> b" "of_nat b \<le> x"
  shows "nat \<lfloor>x / of_nat b\<rfloor> < nat \<lfloor>x\<rfloor>"
proof -
  have b: "(2::rat) \<le> of_nat b" using assms(1) by simp
  with assms(2) have x: "2 \<le> x" by linarith
  have "x / of_nat b \<le> x / 2" using b x by (intro divide_left_mono) auto
  then have "\<lfloor>x / of_nat b\<rfloor> \<le> \<lfloor>x / 2\<rfloor>" by (rule floor_mono)
  moreover have "\<lfloor>x / 2\<rfloor> < \<lfloor>x\<rfloor>" using x by linarith
  ultimately show ?thesis using x by linarith
qed

termination ilog_up
  by (relation "measure (\<lambda>(b, x). nat \<lfloor>x\<rfloor>)") (use ilog_up_decr in auto)

function ilog_down :: "nat \<Rightarrow> rat \<Rightarrow> nat" where
  "ilog_down b x = (if 2 \<le> b \<and> 0 < x \<and> x < 1 then Suc (ilog_down b (x * of_nat b)) else 0)"
  by pat_completeness auto

lemma ilog_down_decr:
  fixes x :: rat
  assumes "2 \<le> b" "0 < x" "x < 1"
  shows "nat \<lfloor>1 / (x * of_nat b)\<rfloor> < nat \<lfloor>1 / x\<rfloor>"
proof -
  have b: "(2::rat) \<le> of_nat b" using assms(1) by simp
  have y: "1 < 1 / x" using assms by simp
  have "1 / (x * of_nat b) = (1 / x) / of_nat b" by simp
  also have "\<dots> \<le> (1 / x) / 2" using b y assms(2) by (intro divide_left_mono) auto
  finally have "\<lfloor>1 / (x * of_nat b)\<rfloor> \<le> \<lfloor>(1 / x) / 2\<rfloor>" by (rule floor_mono)
  moreover have "z / 2 < of_int \<lfloor>z\<rfloor>" if "1 < z" for z :: rat
    using that floor_correct [of z] le_floor_iff [of 1 z] by linarith
  from this [OF y] have "\<lfloor>(1 / x) / 2\<rfloor> < \<lfloor>1 / x\<rfloor>"
    by (simp only: floor_less_iff)
  moreover have "1 \<le> \<lfloor>1 / x\<rfloor>" using y le_floor_iff [of 1 "1 / x"] by simp
  ultimately show ?thesis by simp
qed

termination ilog_down
  by (relation "measure (\<lambda>(b, x). nat \<lfloor>1 / x\<rfloor>)") (use ilog_down_decr in auto)

declare ilog_up.simps [simp del] ilog_down.simps [simp del]

text \<open>\<open>flog b x\<close> is the integer \<open>e\<close> with \<open>b ^ e \<le> x < b ^ (e + 1)\<close>.\<close>

definition flog :: "nat \<Rightarrow> rat \<Rightarrow> int" where
  "flog b x = (if 1 \<le> x then int (ilog_up b x) else - int (ilog_down b x))"

lemma ilog_up_spec:
  "2 \<le> b \<Longrightarrow> 1 \<le> x \<Longrightarrow> of_nat b ^ ilog_up b x \<le> x \<and> x < of_nat b ^ Suc (ilog_up b x)"
proof (induction b x rule: ilog_up.induct)
  case (1 b x)
  have b0: "(0::rat) < of_nat b" using "1.prems" by simp
  show ?case
  proof (cases "of_nat b \<le> x")
    case True
    with b0 have "1 \<le> x / of_nat b" by (simp add: le_divide_eq)
    with "1.IH" "1.prems" True
    have "of_nat b ^ ilog_up b (x / of_nat b) \<le> x / of_nat b"
      "x / of_nat b < of_nat b ^ Suc (ilog_up b (x / of_nat b))" by simp_all
    with b0 True "1.prems" show ?thesis
      by (simp add: ilog_up.simps [of b x] le_divide_eq divide_less_eq mult.commute)
  next
    case False
    with "1.prems" show ?thesis by (simp add: ilog_up.simps [of b x])
  qed
qed

lemma ilog_down_spec:
  "2 \<le> b \<Longrightarrow> 0 < x \<Longrightarrow> x < 1 \<Longrightarrow>
   1 \<le> x * of_nat b ^ ilog_down b x \<and> x * of_nat b ^ ilog_down b x < of_nat b"
proof (induction b x rule: ilog_down.induct)
  case (1 b x)
  have b0: "(0::rat) < of_nat b" "(1::rat) < of_nat b" using "1.prems" by simp_all
  show ?case
  proof (cases "x * of_nat b < 1")
    case True
    with "1.prems" "1.IH" b0 show ?thesis
      by (simp add: ilog_down.simps [of b x] mult.assoc)
  next
    case False
    with "1.prems" b0 have "ilog_down b (x * of_nat b) = 0"
      by (simp add: ilog_down.simps [of b "x * of_nat b"])
    with "1.prems" False b0 show ?thesis
      by (simp add: ilog_down.simps [of b x])
  qed
qed

lemma flog_spec:
  assumes "2 \<le> b" "0 < x"
  shows "of_nat b powi flog b x \<le> x \<and> x < of_nat b powi (flog b x + 1)"
proof (cases "1 \<le> x")
  case True
  with ilog_up_spec [OF assms(1) True] show ?thesis
    by (simp add: flog_def power_int_def nat_add_distrib)
next
  case False
  have b0: "(0::rat) < of_nat b" using assms by simp
  let ?k = "ilog_down b x"
  have s: "1 \<le> x * of_nat b ^ ?k" "x * of_nat b ^ ?k < of_nat b"
    using ilog_down_spec [OF assms] False by simp_all
  have p: "(of_nat b :: rat) powi (- int ?k) = 1 / of_nat b ^ ?k"
    by (simp add: power_int_minus divide_inverse)
  have q: "(of_nat b :: rat) powi (- int ?k + 1) = of_nat b / of_nat b ^ ?k"
    using b0 power_int_diff [of "of_nat b :: rat" 1 "int ?k"] by simp
  from s b0 have "1 / of_nat b ^ ?k \<le> x" "x < of_nat b / of_nat b ^ ?k"
    by (simp_all add: divide_le_eq less_divide_eq)
  with False p q show ?thesis by (simp add: flog_def)
qed

lemma power_int_strict_increasing_lemma:
  assumes "(2::rat) powi i < 2 powi j"
  shows "i < j"
proof (rule ccontr)
  assume "\<not> i < j"
  then have "(2::rat) powi j \<le> 2 powi i" by (intro power_int_increasing) auto
  with assms show False by simp
qed

section \<open>Rounding to binary64\<close>

definition round_half_even :: "rat \<Rightarrow> int" where
  "round_half_even q =
     (let f = \<lfloor>q\<rfloor>; r = q - of_int f
      in if r < 1 / 2 then f else if 1 / 2 < r then f + 1 else if even f then f else f + 1)"

definition ulp_exp :: "rat \<Rightarrow> int" where
  "ulp_exp x = max (flog 2 \<bar>x\<bar> - 52) (- 1074)"

definition fl :: "rat \<Rightarrow> rat" where
  "fl x = (if x = 0 then 0
           else of_int (round_half_even (x / 2 powi ulp_exp x)) * 2 powi ulp_exp x)"

datatype jsnum = NaN | PInf | NInf | Fin rat

text \<open>The overflow threshold and half of the smallest subnormal number.\<close>

definition huge :: rat where
  "huge = 2 ^ 1024"

definition tiny :: rat where
  "tiny = 2 powi (- 1075)"

definition rnd :: "rat \<Rightarrow> jsnum" where
  "rnd x = (let y = fl x in if huge \<le> y then PInf else if y \<le> - huge then NInf else Fin y)"

lemma round_half_even_err: "\<bar>of_int (round_half_even q) - q\<bar> \<le> 1 / 2"
proof -
  have "of_int \<lfloor>q\<rfloor> \<le> q" "q < of_int \<lfloor>q\<rfloor> + 1" by linarith+
  then show ?thesis unfolding round_half_even_def Let_def by (auto simp: abs_le_iff)
qed

lemma round_half_even_int [simp]: "round_half_even (of_int k) = k"
  by (simp add: round_half_even_def)

lemma fl_zero [simp]: "fl 0 = 0"
  by (simp add: fl_def)

lemma fl_err_ulp: "\<bar>fl x - x\<bar> \<le> 2 powi ulp_exp x / 2"
proof (cases "x = 0")
  case True
  then show ?thesis by simp
next
  case False
  let ?u = "(2::rat) powi ulp_exp x"
  have u: "0 < ?u" by simp
  have "fl x - x = (of_int (round_half_even (x / ?u)) - x / ?u) * ?u"
    using False u by (simp add: fl_def left_diff_distrib)
  then have "\<bar>fl x - x\<bar> = \<bar>of_int (round_half_even (x / ?u)) - x / ?u\<bar> * ?u"
    using u by (simp add: abs_mult)
  also have "\<dots> \<le> 1 / 2 * ?u"
    using round_half_even_err u by (intro mult_right_mono) auto
  finally show ?thesis by simp
qed

lemma tiny_bounds: "0 < tiny" "tiny \<le> 1 / 2 ^ 100"
proof -
  show "0 < tiny" by (simp only: tiny_def zero_less_power_int zero_less_numeral)
  have "(2::rat) powi (- 1075) \<le> 2 powi (- 100)"
    by (rule power_int_increasing) simp_all
  also have "(2::rat) powi (- 100) = 1 / 2 ^ 100"
    using power_int_minus [of "2::rat" 100]
    by (simp only: power_int_numeral divide_inverse mult_1_left)
  finally show "tiny \<le> 1 / 2 ^ 100" by (simp only: tiny_def)
qed

lemma huge_ge: "2 ^ 100 \<le> huge"
  unfolding huge_def by (rule power_increasing) simp_all

lemma fl_err: "\<bar>fl x - x\<bar> \<le> \<bar>x\<bar> / 2 ^ 53 + tiny"
proof (cases "x = 0")
  case True
  then show ?thesis using tiny_bounds(1) by simp
next
  case False
  then have lo: "2 powi flog 2 \<bar>x\<bar> \<le> \<bar>x\<bar>" using flog_spec [of 2 "\<bar>x\<bar>"] by simp
  have t: "(2::rat) powi (- 1074) = 2 * tiny"
  proof -
    have "(2::rat) powi (1 + (- 1075)) = 2 powi 1 * 2 powi (- 1075)"
      by (rule power_int_add) simp
    moreover have "(1 + (- 1075)) = (- 1074 :: int)" by simp
    ultimately show ?thesis by (simp only: tiny_def power_int_1_right)
  qed
  have "(2::rat) powi ulp_exp x \<le> 2 powi (flog 2 \<bar>x\<bar> - 52) + 2 powi (- 1074)"
    by (simp only: ulp_exp_def max_def zero_le_power_int) simp
  also have "(2::rat) powi (flog 2 \<bar>x\<bar> - 52) = 2 powi flog 2 \<bar>x\<bar> / 2 ^ 52"
    by (simp add: power_int_diff)
  also have "\<dots> \<le> \<bar>x\<bar> / 2 ^ 52"
    using lo by (simp add: divide_right_mono)
  finally have "2 powi ulp_exp x / 2 \<le> \<bar>x\<bar> / 2 ^ 53 + tiny" using t by simp
  with fl_err_ulp [of x] show ?thesis by linarith
qed

text \<open>Numbers with at most 53 significant bits are exact.\<close>

lemma fl_dyadic_lt:
  assumes k: "\<bar>k\<bar> < 2 ^ 53" and j: "- 1074 \<le> j"
  shows "fl (of_int k * 2 powi j) = of_int k * 2 powi j"
proof (cases "k = 0")
  case True
  then show ?thesis by simp
next
  case False
  let ?x = "of_int k * 2 powi j :: rat"
  have x0: "?x \<noteq> 0" using False by simp
  then have lo: "2 powi flog 2 \<bar>?x\<bar> \<le> \<bar>?x\<bar>" using flog_spec [of 2 "\<bar>?x\<bar>"] by simp
  have "of_int \<bar>k\<bar> < (of_int (2 ^ 53) :: rat)" using k by (simp only: of_int_less_iff)
  then have "\<bar>?x\<bar> < 2 powi (53 + j)" by (simp add: abs_mult power_int_add)
  with lo have "(2::rat) powi flog 2 \<bar>?x\<bar> < 2 powi (53 + j)" by linarith
  then have "flog 2 \<bar>?x\<bar> < 53 + j" by (rule power_int_strict_increasing_lemma)
  with j have le: "ulp_exp ?x \<le> j" by (simp add: ulp_exp_def)
  have "?x / 2 powi ulp_exp ?x = of_int k * 2 powi (j - ulp_exp ?x)"
    by (simp add: power_int_diff)
  also have "\<dots> = of_int (k * 2 ^ nat (j - ulp_exp ?x))"
    using le by (simp add: power_int_def)
  finally have "of_int (round_half_even (?x / 2 powi ulp_exp ?x)) = ?x / 2 powi ulp_exp ?x"
    by (metis round_half_even_int)
  then show ?thesis using x0 by (simp add: fl_def)
qed

lemma fl_dyadic:
  assumes "\<bar>k\<bar> \<le> 2 ^ 53" "- 1074 \<le> j"
  shows "fl (of_int k * 2 powi j) = of_int k * 2 powi j"
proof (cases "\<bar>k\<bar> = 2 ^ 53")
  case True
  then have "k = 2 * 2 ^ 52 \<or> k = 2 * - (2 ^ 52)" by (cases "0 \<le> k") auto
  then obtain m where m: "k = 2 * m" "\<bar>m\<bar> = 2 ^ 52" by force
  have eq: "of_int k * 2 powi j = of_int m * (2::rat) powi (j + 1)"
    by (simp add: m power_int_add)
  show ?thesis unfolding eq using m assms by (intro fl_dyadic_lt) auto
next
  case False
  with assms show ?thesis by (intro fl_dyadic_lt) auto
qed

lemma fl_int_exact: "\<bar>k\<bar> \<le> 2 ^ 53 \<Longrightarrow> fl (of_int k) = of_int k"
  using fl_dyadic [of k 0] by simp

section \<open>Arithmetic, comparisons and \<open>Math\<close>\<close>

fun js_neg :: "jsnum \<Rightarrow> jsnum" where
  "js_neg NaN = NaN"
| "js_neg PInf = NInf"
| "js_neg NInf = PInf"
| "js_neg (Fin x) = Fin (- x)"

fun js_add :: "jsnum \<Rightarrow> jsnum \<Rightarrow> jsnum" where
  "js_add (Fin x) (Fin y) = rnd (x + y)"
| "js_add NaN _ = NaN"
| "js_add _ NaN = NaN"
| "js_add PInf NInf = NaN"
| "js_add NInf PInf = NaN"
| "js_add PInf _ = PInf"
| "js_add NInf _ = NInf"
| "js_add _ y = y"

definition js_sub :: "jsnum \<Rightarrow> jsnum \<Rightarrow> jsnum" where
  "js_sub x y = js_add x (js_neg y)"

definition inf_of_sign :: "rat \<Rightarrow> jsnum" where
  "inf_of_sign s = (if 0 < s then PInf else if s < 0 then NInf else NaN)"

primrec js_sign :: "jsnum \<Rightarrow> rat" where
  "js_sign NaN = 0"
| "js_sign PInf = 1"
| "js_sign NInf = - 1"
| "js_sign (Fin x) = sgn x"

fun js_mul :: "jsnum \<Rightarrow> jsnum \<Rightarrow> jsnum" where
  "js_mul (Fin x) (Fin y) = rnd (x * y)"
| "js_mul x y = inf_of_sign (js_sign x * js_sign y)"

text \<open>A zero divisor is positive zero.\<close>

fun js_div :: "jsnum \<Rightarrow> jsnum \<Rightarrow> jsnum" where
  "js_div (Fin x) (Fin y) = (if y = 0 then inf_of_sign x else rnd (x / y))"
| "js_div NaN _ = NaN"
| "js_div _ NaN = NaN"
| "js_div (Fin x) _ = Fin 0"
| "js_div x (Fin y) = (if y < 0 then js_neg x else x)"
| "js_div _ _ = NaN"

fun js_lt :: "jsnum \<Rightarrow> jsnum \<Rightarrow> bool" where
  "js_lt (Fin x) (Fin y) = (x < y)"
| "js_lt NaN _ = False"
| "js_lt _ NaN = False"
| "js_lt NInf y = (y \<noteq> NInf)"
| "js_lt x PInf = (x \<noteq> PInf)"
| "js_lt _ _ = False"

definition js_eq :: "jsnum \<Rightarrow> jsnum \<Rightarrow> bool" where
  "js_eq x y = (x = y \<and> x \<noteq> NaN)"

definition js_le :: "jsnum \<Rightarrow> jsnum \<Rightarrow> bool" where
  "js_le x y = (js_lt x y \<or> js_eq x y)"

definition js_max :: "jsnum \<Rightarrow> jsnum \<Rightarrow> jsnum" where
  "js_max x y = (if x = NaN \<or> y = NaN then NaN else if js_lt x y then y else x)"

definition js_min :: "jsnum \<Rightarrow> jsnum \<Rightarrow> jsnum" where
  "js_min x y = (if x = NaN \<or> y = NaN then NaN else if js_lt y x then y else x)"

text \<open>\<open>Math.max(...xs)\<close> and \<open>Math.min(...xs)\<close>.\<close>

definition js_Max :: "jsnum list \<Rightarrow> jsnum" where
  "js_Max xs = foldl js_max NInf xs"

definition js_Min :: "jsnum list \<Rightarrow> jsnum" where
  "js_Min xs = foldl js_min PInf xs"

primrec isFinite :: "jsnum \<Rightarrow> bool" where
  "isFinite NaN = False"
| "isFinite PInf = False"
| "isFinite NInf = False"
| "isFinite (Fin _) = True"

primrec js_lift :: "(rat \<Rightarrow> rat) \<Rightarrow> jsnum \<Rightarrow> jsnum" where
  "js_lift f NaN = NaN"
| "js_lift f PInf = PInf"
| "js_lift f NInf = NInf"
| "js_lift f (Fin x) = Fin (f x)"

definition js_floor :: "jsnum \<Rightarrow> jsnum" where
  "js_floor = js_lift (\<lambda>x. of_int \<lfloor>x\<rfloor>)"

text \<open>\<open>Math.round\<close>: to the nearest integer, ties towards plus infinity.\<close>

definition js_round :: "jsnum \<Rightarrow> jsnum" where
  "js_round = js_lift (\<lambda>x. of_int \<lfloor>x + 1 / 2\<rfloor>)"

definition js_trunc :: "jsnum \<Rightarrow> jsnum" where
  "js_trunc = js_lift (\<lambda>x. if x < 0 then - of_int \<lfloor>- x\<rfloor> else of_int \<lfloor>x\<rfloor>)"

definition js_abs :: "jsnum \<Rightarrow> jsnum" where
  "js_abs x = (if x = NInf then PInf else js_lift abs x)"

text \<open>\<open>x || y\<close> on numbers: zero and \<open>NaN\<close> are falsy.\<close>

definition js_or :: "jsnum \<Rightarrow> jsnum \<Rightarrow> jsnum" where
  "js_or x y = (if x = NaN \<or> x = Fin 0 then y else x)"

text \<open>
  \<open>Math.hypot\<close> is implementation-approximated by the language standard; the model takes the
  correctly rounded value of the exact square root.
\<close>

function isqrt :: "int \<Rightarrow> int" where
  "isqrt n = (if n \<le> 0 then 0
     else let r = 2 * isqrt (n div 4) in if (r + 1) ^ 2 \<le> n then r + 1 else r)"
  by pat_completeness auto

termination
  by (relation "measure nat") auto

declare isqrt.simps [simp del]

definition sqrt_rnd :: "rat \<Rightarrow> jsnum" where
  "sqrt_rnd x =
     (if x \<le> 0 then Fin 0
      else let k = nat (max 0 (60 - flog 2 x)); y = x * 4 ^ k; s = isqrt \<lfloor>y\<rfloor>
           in if of_int s ^ 2 = y then rnd (of_int s / 2 ^ k)
              else rnd (of_int (2 * s + 1) / 2 ^ Suc k))"

fun js_hypot :: "jsnum \<Rightarrow> jsnum \<Rightarrow> jsnum" where
  "js_hypot (Fin x) (Fin y) = sqrt_rnd (x * x + y * y)"
| "js_hypot x y = (if x \<in> {PInf, NInf} \<or> y \<in> {PInf, NInf} then PInf else NaN)"

lemma isqrt_spec: "0 \<le> n \<Longrightarrow> 0 \<le> isqrt n \<and> (isqrt n) ^ 2 \<le> n \<and> n < (isqrt n + 1) ^ 2"
proof (induction n rule: isqrt.induct)
  case (1 n)
  show ?case
  proof (cases "n = 0")
    case True
    then show ?thesis by (simp add: isqrt.simps)
  next
    case False
    with "1.prems" have n: "\<not> n \<le> 0" by simp
    define q where "q = isqrt (n div 4)"
    have IH: "0 \<le> q" "q ^ 2 \<le> n div 4" "n div 4 < (q + 1) ^ 2"
      using "1.IH" [OF n] n by (simp_all add: q_def)
    have "4 * q ^ 2 \<le> n" "n < 4 * (q + 1) ^ 2" using IH by linarith+
    then have "(2 * q) ^ 2 \<le> n" "n < (2 * q + 1 + 1) ^ 2"
      by (simp_all add: power2_eq_square algebra_simps)
    then show ?thesis using n IH(1)
      by (simp add: isqrt.simps [of n] Let_def flip: q_def)
  qed
qed

lemma rnd_exact:
  assumes "fl x = x" "\<bar>x\<bar> < huge"
  shows "rnd x = Fin x"
  using assms by (auto simp: rnd_def Let_def)

lemma rnd_zero [simp]: "rnd 0 = Fin 0"
  using huge_ge by (intro rnd_exact) auto

lemma rnd_int:
  assumes "\<bar>k\<bar> \<le> 2 ^ 53"
  shows "rnd (of_int k) = Fin (of_int k)"
proof (rule rnd_exact [OF fl_int_exact [OF assms]])
  have "\<bar>of_int k :: rat\<bar> \<le> of_int (2 ^ 53)" using assms by (simp flip: of_int_abs)
  then show "\<bar>of_int k\<bar> < huge" using huge_ge by simp
qed

lemma rnd_dyadic:
  assumes "\<bar>k\<bar> \<le> 2 ^ 53" "n \<le> 1074"
  shows "rnd (of_int k / 2 ^ n) = Fin (of_int k / 2 ^ n)"
proof (rule rnd_exact)
  have eq: "of_int k / 2 ^ n = of_int k * (2::rat) powi (- int n)"
    by (simp add: power_int_minus divide_inverse)
  show "fl (of_int k / 2 ^ n) = of_int k / 2 ^ n"
    unfolding eq using assms by (intro fl_dyadic) auto
  have "\<bar>of_int k / 2 ^ n\<bar> \<le> \<bar>of_int k :: rat\<bar>"
    by (simp add: abs_divide divide_le_eq mult_left_le one_le_power mult_le_cancel_left1)
  also have "\<dots> \<le> of_int (2 ^ 53)" using assms(1) by (simp flip: of_int_abs)
  finally show "\<bar>of_int k / 2 ^ n\<bar> < huge" using huge_ge by simp
qed

text \<open>Below the overflow threshold a rounded value is finite and close to the exact one.\<close>

lemma rnd_finite:
  assumes "\<bar>x\<bar> \<le> 2 ^ 60"
  shows "rnd x = Fin (fl x)"
proof -
  have "\<bar>fl x - x\<bar> \<le> 2 ^ 60 / 2 ^ 53 + 1"
    using fl_err [of x] assms tiny_bounds(2) by (simp add: field_simps)
  then have "\<bar>fl x\<bar> < 2 ^ 100" using assms by simp
  then show ?thesis using huge_ge by (auto simp: rnd_def Let_def)
qed

end
