(* ===== verification/JsText.thy ===== *)
theory JsText
  imports JsNumber
begin

text \<open>
  Text and numbers: trimming, decimal digits, \<open>Number(s)\<close>, \<open>x.toFixed(f)\<close>, \<open>String(x)\<close>, and the
  decimal round trips the editing components rely on.
\<close>

section \<open>Characters and digits\<close>

definition digit_chars :: string where
  "digit_chars = ''0123456789''"

definition is_digit :: "char \<Rightarrow> bool" where
  "is_digit c = (c \<in> set digit_chars)"

definition digit_char :: "nat \<Rightarrow> char" where
  "digit_char d = digit_chars ! d"

definition digit_val :: "char \<Rightarrow> nat" where
  "digit_val c = (case findIndex ((=) c) digit_chars of Some i \<Rightarrow> i | None \<Rightarrow> 0)"

text \<open>White space and line terminators among the code units below 256.\<close>

definition is_space :: "char \<Rightarrow> bool" where
  "is_space c = (of_char c \<in> {9, 10, 11, 12, 13, 32, 160 :: nat})"

definition trim :: "string \<Rightarrow> string" where
  "trim s = rev (dropWhile is_space (rev (dropWhile is_space s)))"

text \<open>The decimal text of a non-negative integer, and the integer of a text of digits.\<close>

function dec_str :: "int \<Rightarrow> string" where
  "dec_str n = (if n < 10 then [digit_char (nat n)] else dec_str (n div 10) @ [digit_char (nat (n mod 10))])"
  by pat_completeness auto

termination
  by (relation "measure nat") auto

declare dec_str.simps [simp del]

abbreviation nat_str :: "nat \<Rightarrow> string" where
  "nat_str n \<equiv> dec_str (int n)"

definition int_str :: "int \<Rightarrow> string" where
  "int_str i = (if i < 0 then ''-'' else []) @ dec_str \<bar>i\<bar>"

definition digits_val :: "string \<Rightarrow> int" where
  "digits_val s = foldl (\<lambda>a c. 10 * a + int (digit_val c)) 0 s"

definition padStart :: "nat \<Rightarrow> char \<Rightarrow> string \<Rightarrow> string" where
  "padStart n c s = replicate (n - length s) c @ s"

definition padEnd :: "nat \<Rightarrow> char \<Rightarrow> string \<Rightarrow> string" where
  "padEnd n c s = s @ replicate (n - length s) c"

lemma digit_chars_length [simp]: "length digit_chars = 10"
  by (simp add: digit_chars_def)

lemma distinct_digit_chars: "distinct digit_chars"
  by (simp add: digit_chars_def)

lemma is_digit_digit_char [simp]: "d < 10 \<Longrightarrow> is_digit (digit_char d)"
  by (simp add: is_digit_def digit_char_def)

lemma findIndex_nth:
  "distinct xs \<Longrightarrow> i < length xs \<Longrightarrow> findIndex ((=) (xs ! i)) xs = Some i"
proof (induction xs arbitrary: i)
  case (Cons x xs)
  then show ?case by (cases i) auto
qed simp

lemma digit_val_digit_char [simp]: "d < 10 \<Longrightarrow> digit_val (digit_char d) = d"
  by (simp add: digit_val_def digit_char_def findIndex_nth distinct_digit_chars)

lemma is_digit_val: "is_digit c \<Longrightarrow> digit_val c < 10 \<and> digit_char (digit_val c) = c"
proof -
  assume "is_digit c"
  then obtain i where i: "i < 10" "c = digit_chars ! i"
    by (auto simp: is_digit_def in_set_conv_nth)
  then have "c = digit_char i" by (simp add: digit_char_def)
  with i(1) show ?thesis by (simp only: digit_val_digit_char)
qed

lemma digit_not_special:
  "is_digit c \<Longrightarrow> c \<noteq> CHR ''.'' \<and> c \<noteq> CHR ''-'' \<and> c \<noteq> CHR ''+'' \<and> c \<noteq> CHR '','' \<and> c \<noteq> CHR ''x''
     \<and> c \<noteq> CHR ''X'' \<and> c \<noteq> CHR ''o'' \<and> c \<noteq> CHR ''O'' \<and> c \<noteq> CHR ''b'' \<and> c \<noteq> CHR ''B'' \<and> c \<noteq> CHR ''I''"
  by (auto simp: is_digit_def digit_chars_def)

lemma digit_not_space: "is_digit c \<Longrightarrow> \<not> is_space c"
  by (auto simp: is_digit_def digit_chars_def is_space_def)

lemma point_facts [simp]:
  "\<not> is_digit CHR ''.''" "\<not> is_space CHR ''.''" "\<not> is_digit CHR ''-''" "\<not> is_space CHR ''-''"
  "\<not> is_digit CHR ''+''" "\<not> is_digit CHR ''e''" "\<not> is_digit CHR ''E''" "\<not> is_digit CHR '',''"
  by (simp_all add: is_digit_def digit_chars_def is_space_def)

lemma dec_str_digits: "\<forall>c \<in> set (dec_str n). is_digit c"
proof (induction n rule: dec_str.induct)
  case (1 n)
  then show ?case by (subst dec_str.simps) auto
qed

lemma dec_str_nonempty [simp]: "dec_str n \<noteq> []"
  by (subst dec_str.simps) simp

lemma digits_val_snoc: "digits_val (s @ [c]) = 10 * digits_val s + int (digit_val c)"
  by (simp add: digits_val_def)

lemma digits_val_Nil [simp]: "digits_val [] = 0"
  by (simp add: digits_val_def)

lemma digits_val_dec_str [simp]: "0 \<le> n \<Longrightarrow> digits_val (dec_str n) = n"
proof (induction n rule: dec_str.induct)
  case (1 n)
  show ?case
  proof (cases "n < 10")
    case True
    with "1.prems" show ?thesis
      using digits_val_snoc [of "[]" "digit_char (nat n)"] by (simp add: dec_str.simps [of n])
  next
    case False
    with "1" show ?thesis by (simp add: dec_str.simps [of n] digits_val_snoc)
  qed
qed

lemma dec_str_inj: "0 \<le> m \<Longrightarrow> 0 \<le> n \<Longrightarrow> dec_str m = dec_str n \<longleftrightarrow> m = n"
  by (metis digits_val_dec_str)

lemma digits_val_append: "digits_val (s @ t) = digits_val s * 10 ^ length t + digits_val t"
proof (induction t rule: rev_induct)
  case (snoc c t)
  then show ?case
    by (simp add: digits_val_snoc algebra_simps flip: append_assoc)
qed simp

lemma digit_val_zero [simp]: "digit_val CHR ''0'' = 0"
  by (simp add: digit_val_def digit_chars_def)

lemma digits_val_zeros [simp]: "digits_val (replicate k CHR ''0'') = 0"
  by (induction k) (simp_all add: digits_val_def)

lemma digits_val_nonneg: "0 \<le> digits_val s"
  by (induction s rule: rev_induct) (simp_all add: digits_val_snoc)

lemma digits_val_bound: "\<forall>c \<in> set s. is_digit c \<Longrightarrow> digits_val s < 10 ^ length s"
proof (induction s rule: rev_induct)
  case (snoc c s)
  then have "digits_val s < 10 ^ length s" "digit_val c < 10" by (simp_all add: is_digit_val)
  then show ?case by (simp add: digits_val_snoc)
qed simp

lemma dec_str_length: "0 < k \<Longrightarrow> n < 10 ^ k \<Longrightarrow> length (dec_str n) \<le> k"
proof (induction n arbitrary: k rule: dec_str.induct)
  case (1 n)
  show ?case
  proof (cases "n < 10")
    case True
    with "1.prems" show ?thesis by (simp add: dec_str.simps)
  next
    case False
    with "1.prems" obtain j where j: "k = Suc j" "0 < j"
      by (cases k; cases "k = 1") (auto simp: gr0_conv_Suc)
    with "1.prems" have "n div 10 < 10 ^ j" by simp
    with "1.IH" [OF False] j have "length (dec_str (n div 10)) \<le> j" by simp
    with False j show ?thesis by (simp add: dec_str.simps [of n])
  qed
qed

lemma zero_is_digit [simp]: "is_digit CHR ''0''"
  by (simp add: is_digit_def digit_chars_def)

lemma padStart_digits:
  "\<forall>c \<in> set s. is_digit c \<Longrightarrow> \<forall>c \<in> set (padStart k CHR ''0'' s). is_digit c"
  by (auto simp: padStart_def)

lemma digits_val_padStart [simp]: "digits_val (padStart k CHR ''0'' s) = digits_val s"
  by (simp add: padStart_def digits_val_append)

lemma length_padStart [simp]: "length (padStart k c s) = max k (length s)"
  by (simp add: padStart_def)

lemma dropWhile_hd: "s \<noteq> [] \<Longrightarrow> \<not> P (hd s) \<Longrightarrow> dropWhile P s = s"
  by (cases s) auto

lemma trim_no_space:
  assumes "s \<noteq> []" "\<not> is_space (hd s)" "\<not> is_space (last s)"
  shows "trim s = s"
  using assms by (simp add: trim_def dropWhile_hd hd_rev)

section \<open>\<open>x.toFixed(f)\<close>\<close>

text \<open>The decimal text of \<open>n / 10 ^ f\<close> with exactly \<open>f\<close> decimals.\<close>

definition fixed_str :: "nat \<Rightarrow> int \<Rightarrow> string" where
  "fixed_str f n =
     (if f = 0 then dec_str n
      else dec_str (n div 10 ^ f) @ ''.'' @ padStart f CHR ''0'' (dec_str (n mod 10 ^ f)))"

text \<open>
  \<open>String(x)\<close>: the shortest digits that round to \<open>x\<close>, closest to \<open>x\<close> among the shortest, laid out
  by the standard's rules.
\<close>

fun shortest_digits :: "nat \<Rightarrow> nat \<Rightarrow> rat \<Rightarrow> int \<Rightarrow> nat \<times> int" where
  "shortest_digits 0 k x n = (k, \<lfloor>x * 10 powi (int k - n) + 1 / 2\<rfloor>)"
| "shortest_digits (Suc fuel) k x n =
     (let q = x * 10 powi (int k - n); lo = \<lfloor>q\<rfloor>; hi = lo + 1;
          ok = (\<lambda>s. 0 < s \<and> s < 10 ^ k \<and> rnd (of_int s * 10 powi (n - int k)) = Fin x)
      in if ok lo \<and> (\<not> ok hi \<or> q - of_int lo \<le> of_int hi - q) then (k, lo)
         else if ok hi then (k, hi)
         else shortest_digits fuel (Suc k) x n)"

definition pos_str :: "rat \<Rightarrow> string" where
  "pos_str x =
     (let n = flog 10 x + 1; ks = shortest_digits 17 1 x n; k = fst ks; ds = dec_str (snd ks)
      in if int k \<le> n \<and> n \<le> 21 then ds @ replicate (nat n - k) CHR ''0''
         else if 0 < n \<and> n \<le> 21 then take (nat n) ds @ ''.'' @ drop (nat n) ds
         else if - 6 < n \<and> n \<le> 0 then ''0.'' @ replicate (nat (- n)) CHR ''0'' @ ds
         else take 1 ds @ (if k = 1 then [] else ''.'' @ drop 1 ds) @ ''e''
                @ (if 0 \<le> n - 1 then ''+'' else ''-'') @ dec_str \<bar>n - 1\<bar>)"

fun num_str :: "jsnum \<Rightarrow> string" where
  "num_str NaN = ''NaN''"
| "num_str PInf = ''Infinity''"
| "num_str NInf = ''-Infinity''"
| "num_str (Fin x) = (if x = 0 then ''0'' else (if x < 0 then ''-'' else []) @ pos_str \<bar>x\<bar>)"

fun toFixed :: "nat \<Rightarrow> jsnum \<Rightarrow> string" where
  "toFixed f (Fin x) =
     (if 10 ^ 21 \<le> \<bar>x\<bar> then num_str (Fin x)
      else (if x < 0 then ''-'' else []) @ fixed_str f \<lfloor>\<bar>x\<bar> * 10 ^ f + 1 / 2\<rfloor>)"
| "toFixed f x = num_str x"

section \<open>\<open>Number(s)\<close>\<close>

definition radix_val :: "nat \<Rightarrow> string \<Rightarrow> int option" where
  "radix_val b s =
     (let v = (\<lambda>c. findIndex (\<lambda>(lo, up). c = lo \<or> c = up)
                     (zip ''0123456789abcdef'' ''0123456789ABCDEF''))
      in if s \<noteq> [] \<and> list_all (\<lambda>c. case v c of Some d \<Rightarrow> d < b | None \<Rightarrow> False) s
         then Some (foldl (\<lambda>a c. int b * a + (case v c of Some d \<Rightarrow> int d | None \<Rightarrow> 0)) 0 s) else None)"

definition exp_part :: "string \<Rightarrow> int option" where
  "exp_part s =
     (case s of [] \<Rightarrow> Some 0
      | c # r \<Rightarrow>
          if c = CHR ''e'' \<or> c = CHR ''E'' then
            (let neg = (r \<noteq> [] \<and> hd r = CHR ''-'');
                 ds = (if r \<noteq> [] \<and> (hd r = CHR ''-'' \<or> hd r = CHR ''+'') then tl r else r)
             in if ds \<noteq> [] \<and> list_all is_digit ds
                then Some (if neg then - digits_val ds else digits_val ds) else None)
          else None)"

definition unsigned_num :: "string \<Rightarrow> jsnum" where
  "unsigned_num s =
     (if s = ''Infinity'' then PInf
      else let ip = takeWhile is_digit s; r = dropWhile is_digit s;
               dot = (r \<noteq> [] \<and> hd r = CHR ''.'');
               fp = (if dot then takeWhile is_digit (tl r) else []);
               rest = (if dot then dropWhile is_digit (tl r) else r)
           in if ip = [] \<and> fp = [] then NaN
              else case exp_part rest of None \<Rightarrow> NaN
                | Some e \<Rightarrow> rnd (of_int (digits_val (ip @ fp)) * 10 powi (e - int (length fp))))"

definition str_num :: "string \<Rightarrow> jsnum" where
  "str_num s =
     (let t = trim s
      in if t = [] then Fin 0
         else if 2 \<le> length t \<and> hd t = CHR ''0'' \<and> t ! 1 \<in> set ''xXoObB'' then
           (case radix_val (if t ! 1 \<in> set ''xX'' then 16 else if t ! 1 \<in> set ''oO'' then 8 else 2)
                           (drop 2 t)
            of Some n \<Rightarrow> rnd (of_int n) | None \<Rightarrow> NaN)
         else if hd t = CHR ''-'' then js_neg (unsigned_num (tl t))
         else if hd t = CHR ''+'' then unsigned_num (tl t)
         else unsigned_num t)"

text \<open>\<open>Number(x)\<close> of an optional member.\<close>

primrec field_num :: "string field \<Rightarrow> jsnum" where
  "field_num Undef = NaN"
| "field_num Null = Fin 0"
| "field_num (Val s) = str_num s"

section \<open>Decimal round trips\<close>

lemma fixed_str_digits_hd: "is_digit (hd (fixed_str f n)) \<and> fixed_str f n \<noteq> []"
proof -
  have "is_digit (hd (dec_str m))" for m
    using dec_str_digits [of m] hd_in_set [OF dec_str_nonempty] by blast
  then show ?thesis by (simp add: fixed_str_def)
qed

lemma fixed_str_last: "is_digit (last (fixed_str f n))"
proof -
  have "is_digit (last (dec_str m))" for m
    using dec_str_digits [of m] last_in_set [OF dec_str_nonempty] by blast
  then show ?thesis by (simp add: fixed_str_def padStart_def)
qed

lemma trim_fixed_str [simp]: "trim (fixed_str f n) = fixed_str f n"
  using fixed_str_digits_hd fixed_str_last by (intro trim_no_space) (auto simp: digit_not_space)

lemma takeWhile_digits: "\<forall>c \<in> set s. is_digit c \<Longrightarrow> takeWhile is_digit (s @ CHR ''.'' # t) = s"
  by (simp add: takeWhile_append)

lemma dropWhile_digits: "\<forall>c \<in> set s. is_digit c \<Longrightarrow> dropWhile is_digit (s @ CHR ''.'' # t) = CHR ''.'' # t"
  by (simp add: dropWhile_append)

lemma unsigned_fixed_str: "0 \<le> n \<Longrightarrow> unsigned_num (fixed_str f n) = rnd (of_int n / 10 ^ f)"
proof -
  assume n: "0 \<le> n"
  have ninf: "fixed_str f n \<noteq> ''Infinity''"
    using fixed_str_digits_hd [of f n] by (auto simp: is_digit_def digit_chars_def)
  show ?thesis
  proof (cases "f = 0")
    case True
    have tw: "takeWhile is_digit (dec_str n) = dec_str n" "dropWhile is_digit (dec_str n) = []"
      using dec_str_digits by simp_all
    show ?thesis
      using True ninf n by (simp add: unsigned_num_def fixed_str_def exp_part_def Let_def tw)
  next
    case False
    let ?ip = "dec_str (n div 10 ^ f)" and ?fp = "padStart f CHR ''0'' (dec_str (n mod 10 ^ f))"
    have s: "fixed_str f n = ?ip @ CHR ''.'' # ?fp" using False by (simp add: fixed_str_def)
    have ip: "\<forall>c \<in> set ?ip. is_digit c" by (rule dec_str_digits)
    have fp: "\<forall>c \<in> set ?fp. is_digit c" by (rule padStart_digits [OF dec_str_digits])
    have tw: "takeWhile is_digit ?fp = ?fp" "dropWhile is_digit ?fp = []" using fp by simp_all
    have len: "length ?fp = f"
      using dec_str_length [of f "n mod 10 ^ f"] False by simp
    have val: "digits_val (?ip @ ?fp) = n"
      using len n pos_imp_zdiv_nonneg_iff [of "10 ^ f" n] div_mult_mod_eq [of n "10 ^ f"]
      by (simp add: digits_val_append)
    have "unsigned_num (fixed_str f n) = rnd (of_int n * 10 powi (0 - int f))"
      using ninf unfolding s unsigned_num_def
      by (simp add: takeWhile_digits [OF ip] dropWhile_digits [OF ip] tw val len exp_part_def Let_def
          del: digits_val_padStart length_padStart)
    also have "\<dots> = rnd (of_int n / 10 ^ f)"
      by (simp add: power_int_minus divide_inverse)
    finally show ?thesis .
  qed
qed

lemma fixed_str_second:
  "2 \<le> length (fixed_str f n) \<Longrightarrow> fixed_str f n ! 1 \<notin> set ''xXoObB''"
proof -
  assume l: "2 \<le> length (fixed_str f n)"
  have "\<forall>c \<in> set (fixed_str f n). is_digit c \<or> c = CHR ''.''"
    using dec_str_digits padStart_digits [OF dec_str_digits] by (auto simp: fixed_str_def)
  then have "is_digit (fixed_str f n ! 1) \<or> fixed_str f n ! 1 = CHR ''.''"
    using l nth_mem [of 1 "fixed_str f n"] by simp
  then show ?thesis by (auto simp: is_digit_def digit_chars_def)
qed

lemma str_num_fixed_str: "0 \<le> n \<Longrightarrow> str_num (fixed_str f n) = rnd (of_int n / 10 ^ f)"
proof -
  assume n: "0 \<le> n"
  have "is_digit (hd (fixed_str f n))" "fixed_str f n \<noteq> []" using fixed_str_digits_hd by simp_all
  then have "hd (fixed_str f n) \<noteq> CHR ''-''" "hd (fixed_str f n) \<noteq> CHR ''+''"
    by (auto simp: digit_not_special)
  then show ?thesis
    using n fixed_str_second [of f n] \<open>fixed_str f n \<noteq> []\<close>
    by (auto simp: str_num_def Let_def unsigned_fixed_str)
qed

lemma str_num_dec_str: "0 \<le> n \<Longrightarrow> str_num (dec_str n) = rnd (of_int n)"
  using str_num_fixed_str [of n 0] by (simp add: fixed_str_def)

text \<open>
  A value within half a unit of the last kept decimal prints as the intended decimal: rounding
  noise of binary arithmetic does not survive \<open>toFixed\<close>.
\<close>

lemma toFixed_near:
  assumes "\<bar>x - of_int n / 10 ^ f\<bar> < 1 / (2 * 10 ^ f)" "x < 10 ^ 21" "0 \<le> x"
  shows "toFixed f (Fin x) = fixed_str f n"
proof -
  have "\<bar>x * 10 ^ f - of_int n\<bar> < 1 / 2"
    using assms(1) by (simp add: field_simps abs_less_iff)
  then have "of_int n \<le> x * 10 ^ f + 1 / 2" "x * 10 ^ f + 1 / 2 < of_int n + 1"
    unfolding abs_less_iff by linarith+
  then have "\<lfloor>x * 10 ^ f + 1 / 2\<rfloor> = n"
    by (simp add: floor_unique)
  then show ?thesis using assms(2,3) by simp
qed

text \<open>A decimal of at most fifteen digits survives the trip through the number type.\<close>

lemma fl_nonneg: "0 \<le> x \<Longrightarrow> 0 \<le> fl x"
proof -
  assume x: "0 \<le> x"
  have "0 \<le> round_half_even q" if "0 \<le> q" for q
    using that by (auto simp: round_half_even_def Let_def)
  with x show ?thesis by (simp add: fl_def)
qed

lemma toFixed_str_num:
  assumes "0 \<le> n" "n \<le> 10 ^ 15" "f \<le> 2"
  shows "toFixed f (str_num (fixed_str f n)) = fixed_str f n"
proof -
  let ?x = "of_int n / 10 ^ f :: rat"
  have f: "f = 0 \<or> f = 1 \<or> f = 2" using assms(3) by auto
  have "(of_int n :: rat) \<le> of_int (10 ^ 15)" using assms(2) by (simp only: of_int_le_iff)
  then have n: "(of_int n :: rat) \<le> 10 ^ 15" by simp
  have x: "0 \<le> ?x" "?x \<le> 10 ^ 15" using f n assms(1) by auto
  then have r: "rnd ?x = Fin (fl ?x)" by (intro rnd_finite) simp
  have "\<bar>fl ?x - ?x\<bar> \<le> 10 ^ 15 / 10 ^ f / 2 ^ 53 + tiny"
    using fl_err [of ?x] x n by (simp add: field_simps)
  then have e: "\<bar>fl ?x - ?x\<bar> < 1 / (2 * 10 ^ f)"
    using f tiny_bounds(2) by auto
  have "fl ?x < 10 ^ 21" using e x f by (auto simp: abs_less_iff)
  with e show ?thesis
    by (simp only: str_num_fixed_str [OF assms(1)] r) (rule toFixed_near, use fl_nonneg x in auto)
qed

end
