(* ===== verification/Snapping.thy ===== *)
theory Snapping
  imports JsText
begin

text \<open>
  \<open>features/canvas/snapping.ts\<close>: exact decimal candidates for outer dimensions. A candidate is a
  rational of two big integers; dimensions are counted in hundredths of a millimetre.
\<close>

section \<open>Decimal literals\<close>

text \<open>The match of \<open>/^([+-]?)(\d+)(?:\.(\d*))?$/\<close>: sign, whole digits, optional fraction digits.\<close>

definition re_decimal :: "string \<Rightarrow> (char option \<times> string \<times> string option) option" where
  "re_decimal s =
     (let sg = (if s \<noteq> [] \<and> (hd s = CHR ''+'' \<or> hd s = CHR ''-'') then Some (hd s) else None);
          r = (if sg = None then s else tl s);
          w = takeWhile is_digit r; q = dropWhile is_digit r
      in if w = [] then None
         else case q of [] \<Rightarrow> Some (sg, w, None)
           | c # f \<Rightarrow> if c = CHR ''.'' \<and> list_all is_digit f then Some (sg, w, Some f) else None)"

record Rational =
  numerator :: int
  denominator :: int

definition rat_val :: "Rational \<Rightarrow> rat" where
  "rat_val q = of_int (numerator q) / of_int (denominator q)"

definition powerOfTen :: "nat \<Rightarrow> int" where
  "powerOfTen e = 10 ^ e"

definition parseDecimal :: "string \<Rightarrow> Rational result" where
  "parseDecimal value =
     (case re_decimal (trim value) of
        None \<Rightarrow> Inl (Error ''Decimal presentation value is invalid'')
      | Some (sg, whole, fr) \<Rightarrow>
          (let fraction = (case fr of None \<Rightarrow> [] | Some f \<Rightarrow> f);
               sign = (if sg = Some CHR ''-'' then - 1 else 1);
               den = powerOfTen (length fraction)
           in Inr \<lparr>numerator = sign * (digits_val whole * den + digits_val fraction), denominator = den\<rparr>))"

definition absolute :: "int \<Rightarrow> int" where
  "absolute v = (if v < 0 then - v else v)"

definition roundHalfUpToCentiMultiple :: "Rational \<Rightarrow> int \<Rightarrow> int" where
  "roundHalfUpToCentiMultiple v incrementCenti =
     (let sign = (if numerator v < 0 then - 1 else 1);
          scaled = absolute (numerator v) * 100;
          divisor = denominator v * incrementCenti;
          quotient = scaled div divisor;
          remainder = scaled mod divisor;
          q = (if remainder * 2 \<ge> divisor then quotient + 1 else quotient)
      in sign * q * incrementCenti)"

definition formatCentiMm :: "int \<Rightarrow> string" where
  "formatCentiMm v =
     (let a = absolute v
      in (if v < 0 then ''-'' else []) @ dec_str (a div 100) @ ''.'' @ padStart 2 CHR ''0'' (dec_str (a mod 100)))"

definition SNAP_RADIUS_PX :: int where
  "SNAP_RADIUS_PX = 12"

definition withinScreenRadius :: "Rational \<Rightarrow> int \<Rightarrow> Rational \<Rightarrow> bool result" where
  "withinScreenRadius candidate targetCenti pixelsPerMm =
     (if numerator pixelsPerMm \<le> 0 then Inl (Error ''Viewport scale must be positive'')
      else let differenceNumerator =
                 absolute (numerator candidate * 100 - targetCenti * denominator candidate);
               differenceDenominator = denominator candidate * 100;
               screenNumerator = differenceNumerator * numerator pixelsPerMm;
               screenDenominator = differenceDenominator * denominator pixelsPerMm
           in Inr (screenNumerator \<le> SNAP_RADIUS_PX * screenDenominator))"

definition MAX_DIMENSION_CENTI_MM :: int where
  "MAX_DIMENSION_CENTI_MM = 9999999999"

text \<open>\<open>/^\+?(\d+)(?:\.(\d{0,2}))?$/\<close> is the decimal match without a minus sign and with at most two
  fraction digits.\<close>

definition normalizeDimensionCandidate :: "string \<Rightarrow> string option" where
  "normalizeDimensionCandidate value =
     (case re_decimal (trim value) of
        None \<Rightarrow> None
      | Some (sg, whole, fr) \<Rightarrow>
          (let f = (case fr of None \<Rightarrow> [] | Some f \<Rightarrow> f)
           in if sg = Some CHR ''-'' \<or> 2 < length f then None
              else let fraction = padEnd 2 CHR ''0'' f;
                       centiMm = digits_val whole * 100 + digits_val fraction
                   in if centiMm < 1 \<or> MAX_DIMENSION_CENTI_MM < centiMm then None
                      else Some (formatCentiMm centiMm)))"

datatype SnapMode = Snap50mm | Snap10mm | Snap001mm

record SnapResult =
  valueMm :: string
  mode :: SnapMode
  showGuide :: bool

definition snapOuterDimension :: "string \<Rightarrow> string \<Rightarrow> bool \<Rightarrow> SnapResult result" where
  "snapOuterDimension candidateMm pixelsPerMm snapEnabled =
     (case parseDecimal candidateMm of Inl e \<Rightarrow> Inl e
      | Inr candidate \<Rightarrow>
          if \<not> snapEnabled then
            Inr \<lparr>valueMm = formatCentiMm (roundHalfUpToCentiMultiple candidate 1),
                 mode = Snap001mm, showGuide = False\<rparr>
          else let nearestFifty = roundHalfUpToCentiMultiple candidate 5000
            in case parseDecimal pixelsPerMm of Inl e \<Rightarrow> Inl e
               | Inr ppm \<Rightarrow>
                   (case withinScreenRadius candidate nearestFifty ppm of Inl e \<Rightarrow> Inl e
                    | Inr True \<Rightarrow> Inr \<lparr>valueMm = formatCentiMm nearestFifty, mode = Snap50mm, showGuide = True\<rparr>
                    | Inr False \<Rightarrow>
                        Inr \<lparr>valueMm = formatCentiMm (roundHalfUpToCentiMultiple candidate 1000),
                             mode = Snap10mm, showGuide = False\<rparr>))"

definition presentationNumberToDecimal :: "jsnum \<Rightarrow> string result" where
  "presentationNumberToDecimal value =
     (if \<not> isFinite value then Inl (Error ''Pointer coordinate must be finite'')
      else Inr (toFixed 6 value))"

section \<open>Correctness\<close>

lemma absolute_abs: "absolute v = \<bar>v\<bar>"
  by (simp add: absolute_def)

lemma formatCentiMm_fixed: "0 \<le> v \<Longrightarrow> formatCentiMm v = fixed_str 2 v"
  by (simp add: formatCentiMm_def fixed_str_def absolute_def)

lemma re_decimal_fixed_str:
  assumes "0 \<le> n" "0 < f"
  shows "re_decimal (fixed_str f n) =
    Some (None, dec_str (n div 10 ^ f), Some (padStart f CHR ''0'' (dec_str (n mod 10 ^ f))))"
proof -
  let ?ip = "dec_str (n div 10 ^ f)" and ?fp = "padStart f CHR ''0'' (dec_str (n mod 10 ^ f))"
  have s: "fixed_str f n = ?ip @ CHR ''.'' # ?fp" using assms(2) by (simp add: fixed_str_def)
  have ip: "\<forall>c \<in> set ?ip. is_digit c" by (rule dec_str_digits)
  have fp: "list_all is_digit ?fp" using padStart_digits [OF dec_str_digits] by (simp add: list_all_iff)
  have h: "hd (fixed_str f n) \<noteq> CHR ''+''" "hd (fixed_str f n) \<noteq> CHR ''-''"
    using fixed_str_digits_hd [of f n] by (auto simp: digit_not_special)
  show ?thesis
    using h fp unfolding re_decimal_def s
    by (simp add: Let_def takeWhile_digits [OF ip] dropWhile_digits [OF ip])
qed

lemma length_padStart_mod:
  "0 < f \<Longrightarrow> 0 \<le> n \<Longrightarrow> length (padStart f CHR ''0'' (dec_str (n mod 10 ^ f))) = f"
  using dec_str_length [of f "n mod 10 ^ f"] by simp

lemma digits_div_mod:
  assumes "0 \<le> n"
  shows "digits_val (dec_str (n div 10 ^ f)) * 10 ^ f + digits_val (dec_str (n mod 10 ^ f)) = n"
  using assms pos_imp_zdiv_nonneg_iff [of "10 ^ f" n] by (simp add: div_mult_mod_eq)

lemma parseDecimal_fixed_str:
  assumes "0 \<le> n" "0 < f"
  shows "parseDecimal (fixed_str f n) = Inr \<lparr>numerator = n, denominator = 10 ^ f\<rparr>"
  using digits_div_mod [OF assms(1), of f] length_padStart_mod [OF assms(2,1)]
  by (simp add: parseDecimal_def re_decimal_fixed_str [OF assms] powerOfTen_def Let_def
      del: length_padStart)

lemma roundHalfUp_spec:
  assumes "0 < denominator v" "0 < i"
  shows "2 * \<bar>of_int (roundHalfUpToCentiMultiple v i) - 100 * rat_val v\<bar> \<le> of_int i"
    and "i dvd roundHalfUpToCentiMultiple v i"
proof -
  define a where "a = absolute (numerator v) * 100"
  define d where "d = denominator v * i"
  define q where "q = (if a mod d * 2 \<ge> d then a div d + 1 else a div d)"
  define s :: int where "s = (if numerator v < 0 then - 1 else 1)"
  have r: "roundHalfUpToCentiMultiple v i = s * q * i"
    by (simp add: roundHalfUpToCentiMultiple_def Let_def a_def d_def q_def s_def)
  then show "i dvd roundHalfUpToCentiMultiple v i" by simp
  have d: "0 < d" using assms by (simp add: d_def)
  have "2 * \<bar>q * d - a\<bar> \<le> d"
  proof -
    have m: "a = a div d * d + a mod d" "0 \<le> a mod d" "a mod d < d" using d by simp_all
    show ?thesis
    proof (cases "a mod d * 2 \<ge> d")
      case True
      then have "q * d - a = d - a mod d" using m(1) by (simp add: q_def algebra_simps)
      with True m show ?thesis by simp
    next
      case False
      then have "q = a div d" by (simp add: q_def)
      then have "q * d - a = - (a mod d)" by (simp only:) (use m(1) in linarith)
      with False m show ?thesis by simp
    qed
  qed
  then have "of_int (2 * \<bar>q * d - a\<bar>) \<le> (of_int d :: rat)" by (simp only: of_int_le_iff)
  then have b: "2 * \<bar>of_int q * of_int d - of_int a\<bar> \<le> (of_int d :: rat)" by simp
  have den: "0 < (of_int (denominator v) :: rat)" using assms by simp
  have num: "of_int (numerator v) * 100 = of_int s * (of_int a :: rat)"
    by (simp add: a_def s_def absolute_def)
  have "of_int (roundHalfUpToCentiMultiple v i) - 100 * rat_val v
      = of_int s * (of_int q * of_int d - of_int a) / of_int (denominator v)"
    using den num by (simp add: r rat_val_def d_def field_simps)
  then have "\<bar>of_int (roundHalfUpToCentiMultiple v i) - 100 * rat_val v\<bar>
      = \<bar>of_int q * of_int d - of_int a\<bar> / of_int (denominator v)"
    using den by (simp add: abs_mult abs_divide s_def)
  also have "2 * \<dots> \<le> of_int d / of_int (denominator v)"
    using b den by (simp add: divide_right_mono)
  also have "\<dots> = of_int i" using den by (simp add: d_def)
  finally show "2 * \<bar>of_int (roundHalfUpToCentiMultiple v i) - 100 * rat_val v\<bar> \<le> of_int i" by simp
qed

text \<open>The grid a snap result lies on, in hundredths of a millimetre.\<close>

fun snap_step :: "SnapMode \<Rightarrow> int" where
  "snap_step Snap50mm = 5000"
| "snap_step Snap10mm = 1000"
| "snap_step Snap001mm = 1"

lemma formatCentiMm_signed:
  "formatCentiMm v = (if v < 0 then ''-'' else []) @ fixed_str 2 \<bar>v\<bar>"
  by (simp add: formatCentiMm_def fixed_str_def absolute_def Let_def)

lemma parseDecimal_den: "parseDecimal s = Inr q \<Longrightarrow> 0 < denominator q"
  by (auto simp: parseDecimal_def powerOfTen_def Let_def split: option.splits)

lemma re_decimal_minus:
  "s \<noteq> [] \<Longrightarrow> is_digit (hd s) \<Longrightarrow> re_decimal (CHR ''-'' # s) =
     map_option (\<lambda>(sg, w, f). (Some CHR ''-'', w, f)) (re_decimal s)"
  by (cases s) (auto simp: re_decimal_def Let_def digit_not_special split: list.splits
      simp del: dropWhile_eq_Nil_conv)

lemma fixed_str_nonempty: "fixed_str f n \<noteq> []"
  by (simp add: fixed_str_def dec_str_nonempty)

lemma trim_minus: "trim (CHR ''-'' # fixed_str f n) = CHR ''-'' # fixed_str f n"
proof (rule trim_no_space)
  show "\<not> is_space (hd (CHR ''-'' # fixed_str f n))" by (simp add: is_space_def)
  show "\<not> is_space (last (CHR ''-'' # fixed_str f n))"
    using fixed_str_last [of f n] by (simp add: fixed_str_nonempty digit_not_space)
qed simp

lemma parseDecimal_formatCentiMm:
  "parseDecimal (formatCentiMm v) = Inr \<lparr>numerator = v, denominator = 100\<rparr>"
proof (cases "v < 0")
  case True
  then have n: "0 \<le> - v" by simp
  have m: "- (- v div 100 * 100) - - v mod 100 = v"
    using div_mult_mod_eq [of "- v" 100] by linarith
  show ?thesis
    using length_padStart_mod [OF _ n, of 2] True
    by (simp add: m formatCentiMm_signed parseDecimal_def trim_minus re_decimal_minus fixed_str_nonempty
        fixed_str_digits_hd re_decimal_fixed_str [OF n] powerOfTen_def Let_def del: length_padStart)
next
  case False
  then show ?thesis using parseDecimal_fixed_str [of v 2] by (simp add: formatCentiMm_fixed)
qed

lemma withinScreenRadius_spec:
  assumes "0 < denominator c" "0 < denominator p" "withinScreenRadius c t p = Inr b"
  shows "0 < rat_val p \<and> (b \<longleftrightarrow> \<bar>rat_val c - of_int t / 100\<bar> * rat_val p \<le> of_int SNAP_RADIUS_PX)"
proof -
  let ?n = "\<bar>numerator c * 100 - t * denominator c\<bar>"
  have p: "0 < numerator p" using assms(3) by (auto simp: withinScreenRadius_def split: if_splits)
  have b: "b \<longleftrightarrow> ?n * numerator p \<le> SNAP_RADIUS_PX * (denominator c * 100 * denominator p)"
    using assms(3) p by (auto simp: withinScreenRadius_def absolute_abs Let_def)
  have dc: "(0::rat) < of_int (denominator c)" and dp: "(0::rat) < of_int (denominator p)"
    using assms by simp_all
  have "rat_val c - of_int t / 100 = of_int (numerator c * 100 - t * denominator c) / (of_int (denominator c) * 100)"
    using dc by (simp add: rat_val_def field_simps)
  then have "\<bar>rat_val c - of_int t / 100\<bar> = of_int ?n / (of_int (denominator c) * 100)"
    using dc by (simp add: abs_divide abs_mult)
  then have e: "\<bar>rat_val c - of_int t / 100\<bar> * rat_val p
      = of_int (?n * numerator p) / of_int (denominator c * 100 * denominator p)"
    by (simp add: rat_val_def)
  have "(of_int (?n * numerator p) / of_int (denominator c * 100 * denominator p) \<le> (of_int SNAP_RADIUS_PX :: rat))
      \<longleftrightarrow> of_int (?n * numerator p) \<le> (of_int (SNAP_RADIUS_PX * (denominator c * 100 * denominator p)) :: rat)"
    using dc dp by (simp add: pos_divide_le_eq)
  also have "\<dots> \<longleftrightarrow> b" by (simp only: of_int_le_iff b)
  finally show ?thesis using e p dp by (simp add: rat_val_def)
qed

text \<open>
  C22. The snapped dimension: whatever the input texts, when a snap result is produced its text reads
  back as a whole number of the mode's steps (50 mm, 10 mm or 0.01 mm), lies within half a step of
  the candidate, the guide is shown exactly for the 50 mm snap, disabling snapping is exactly the
  0.01 mm mode, and the 50 mm grid is chosen exactly when it is within the screen radius.
\<close>

theorem snapOuterDimension_spec:
  assumes "snapOuterDimension c p en = Inr r"
  shows "\<exists>q n. parseDecimal c = Inr q \<and> parseDecimal (valueMm r) = Inr \<lparr>numerator = n, denominator = 100\<rparr>
    \<and> snap_step (mode r) dvd n
    \<and> 2 * \<bar>of_int n - 100 * rat_val q\<bar> \<le> of_int (snap_step (mode r))
    \<and> showGuide r = (mode r = Snap50mm)
    \<and> (mode r = Snap001mm \<longleftrightarrow> \<not> en)
    \<and> (en \<longrightarrow> (\<exists>ppm. parseDecimal p = Inr ppm \<and> 0 < rat_val ppm
         \<and> (mode r = Snap50mm \<longleftrightarrow> \<bar>rat_val q - of_int (roundHalfUpToCentiMultiple q 5000) / 100\<bar> * rat_val ppm \<le> 12)))"
proof -
  obtain q where q: "parseDecimal c = Inr q" using assms by (auto simp: snapOuterDimension_def split: sum.splits)
  note d = parseDecimal_den [OF q]
  show ?thesis
  proof (cases en)
    case False
    then have "r = \<lparr>valueMm = formatCentiMm (roundHalfUpToCentiMultiple q 1), mode = Snap001mm, showGuide = False\<rparr>"
      using assms q by (simp add: snapOuterDimension_def)
    then show ?thesis
      using False q roundHalfUp_spec(1) [OF d, of 1] by (simp add: parseDecimal_formatCentiMm)
  next
    case True
    obtain ppm b where p: "parseDecimal p = Inr ppm"
      and b: "withinScreenRadius q (roundHalfUpToCentiMultiple q 5000) ppm = Inr b"
      using assms q True by (auto simp: snapOuterDimension_def Let_def split: sum.splits)
    note w = withinScreenRadius_spec [OF d parseDecimal_den [OF p] b]
    show ?thesis
    proof (cases b)
      case True
      then have "r = \<lparr>valueMm = formatCentiMm (roundHalfUpToCentiMultiple q 5000), mode = Snap50mm, showGuide = True\<rparr>"
        using assms q p b \<open>en\<close> by (simp add: snapOuterDimension_def)
      then show ?thesis
        using True q p w \<open>en\<close> roundHalfUp_spec [OF d, of 5000]
        by (simp add: parseDecimal_formatCentiMm SNAP_RADIUS_PX_def)
    next
      case False
      then have "r = \<lparr>valueMm = formatCentiMm (roundHalfUpToCentiMultiple q 1000), mode = Snap10mm, showGuide = False\<rparr>"
        using assms q p b \<open>en\<close> by (simp add: snapOuterDimension_def)
      then show ?thesis
        using False q p w \<open>en\<close> roundHalfUp_spec [OF d, of 1000]
        by (simp add: parseDecimal_formatCentiMm SNAP_RADIUS_PX_def)
    qed
  qed
qed

lemma snap_example:
  "snapOuterDimension ''1012'' ''0.5'' True = Inr \<lparr>valueMm = ''1000.00'', mode = Snap50mm, showGuide = True\<rparr>"
  by code_simp

theorem snapOuterDimension_witness:
  "\<exists>q n. parseDecimal ''1012'' = Inr q \<and> parseDecimal ''1000.00'' = Inr \<lparr>numerator = n, denominator = 100\<rparr>
    \<and> 5000 dvd n \<and> 2 * \<bar>of_int n - 100 * rat_val q\<bar> \<le> 5000"
  using snapOuterDimension_spec [OF snap_example] by auto

lemma digits_val_padEnd2:
  "length f \<le> 2 \<Longrightarrow> digits_val (padEnd 2 CHR ''0'' f) * 10 ^ length f = digits_val f * 100"
  using power_add [of "10::int" "2 - length f" "length f"] by (simp add: padEnd_def digits_val_append)

text \<open>
  A typed dimension that normalises: the accepted text is a positive number of hundredths up to
  99 999 999.99 mm, the normal form denotes exactly the value that was typed, and normalising is
  idempotent.
\<close>

lemma normalizeDimensionCandidate_exact:
  assumes "normalizeDimensionCandidate s = Some t"
  shows "\<exists>q n. parseDecimal s = Inr q \<and> parseDecimal t = Inr \<lparr>numerator = n, denominator = 100\<rparr>
    \<and> 100 * rat_val q = of_int n \<and> 1 \<le> n \<and> n \<le> 9999999999
    \<and> normalizeDimensionCandidate t = Some t"
proof -
  from assms obtain sg whole fr where re: "re_decimal (trim s) = Some (sg, whole, fr)"
    by (auto simp: normalizeDimensionCandidate_def split: option.splits)
  define f where "f = (case fr of None \<Rightarrow> [] | Some f \<Rightarrow> f)"
  define n where "n = digits_val whole * 100 + digits_val (padEnd 2 CHR ''0'' f)"
  have a: "sg \<noteq> Some CHR ''-''" "length f \<le> 2" "1 \<le> n" "n \<le> 9999999999" "t = formatCentiMm n"
    using assms re by (auto simp: normalizeDimensionCandidate_def Let_def f_def n_def
        MAX_DIMENSION_CENTI_MM_def split: if_splits)
  let ?q = "\<lparr>numerator = digits_val whole * 10 ^ length f + digits_val f, denominator = 10 ^ length f\<rparr>"
  have q: "parseDecimal s = Inr ?q"
    using re a(1) by (simp add: parseDecimal_def powerOfTen_def f_def [symmetric] Let_def)
  have "n * 10 ^ length f = 100 * (digits_val whole * 10 ^ length f + digits_val f)"
    using digits_val_padEnd2 [OF a(2)] by (simp add: n_def algebra_simps)
  then have "100 * (of_int (digits_val whole * 10 ^ length f + digits_val f) :: rat) = of_int n * 10 ^ length f"
    by (metis (no_types, lifting) of_int_mult of_int_numeral of_int_power)
  then have v: "100 * rat_val ?q = of_int n" by (simp add: rat_val_def field_simps)
  have "normalizeDimensionCandidate t = Some t"
    using a(3,4) re_decimal_fixed_str [of n 2] length_padStart_mod [of 2 n]
      digits_div_mod [of n 2]
    unfolding a(5) normalizeDimensionCandidate_def
    by (simp add: formatCentiMm_fixed Let_def MAX_DIMENSION_CENTI_MM_def padEnd_def del: length_padStart)
  then show ?thesis using q v a parseDecimal_formatCentiMm [of n] by auto
qed

lemma normalizeDimensionCandidate_witness:
  "\<exists>q n. parseDecimal '' +1200.5'' = Inr q \<and> parseDecimal ''1200.50'' = Inr \<lparr>numerator = n, denominator = 100\<rparr>
    \<and> 100 * rat_val q = of_int n \<and> 1 \<le> n"
proof -
  have "normalizeDimensionCandidate '' +1200.5'' = Some ''1200.50''" by code_simp
  from normalizeDimensionCandidate_exact [OF this] show ?thesis by auto
qed

end
