(* ===== verification/Intent.thy ===== *)
theory Intent
  imports Snapping
begin

text \<open>
  \<open>features/canvas/intentEditing.ts\<close>: the intent tree of one module (root, splits, bays) and its edits.
  The types \<open>PhysicalOpening\<close> and \<open>HingedLayout\<close> are those of \<open>features/canvas/physicalOpenings.ts\<close>.
  An \<open>IntentNode\<close> is a node record with its optional \<open>children\<close> array; a member patch
  \<open>Partial<IntentNode>\<close> is the record of the optional members alone (no caller patches \<open>children\<close>).
  Glass and hardware payloads, which the edits only carry along, are JSON values.
\<close>

section \<open>Data\<close>

datatype json = JNull | JBool bool | JNum jsnum | JStr string | JArr "json list" | JObj "(string \<times> json) list"

datatype Opening = O_FIXED | O_TURN_LEFT | O_TURN_RIGHT | O_TILT_TURN_LEFT | O_TILT_TURN_RIGHT
  | O_SLIDING_2L | O_SLIDING_3L | O_SLIDING_4L | O_SLIDING | O_AWNING | O_DOOR_ENTRY | O_DOOR_DOUBLE

definition OPENINGS :: "Opening list" where
  "OPENINGS = [O_FIXED, O_TURN_LEFT, O_TURN_RIGHT, O_TILT_TURN_LEFT, O_TILT_TURN_RIGHT,
     O_SLIDING_2L, O_SLIDING_3L, O_SLIDING_4L, O_SLIDING, O_AWNING, O_DOOR_ENTRY, O_DOOR_DOUBLE]"

datatype PanelKind = P_MOVING | P_FIXED

datatype side = S_LEFT | S_RIGHT

record SlidingPanel =
  slot :: string
  panel_kind :: PanelKind
  track :: "nat option"
  travel :: "side field"

record SlidingLayout =
  tracks :: nat
  panels :: "SlidingPanel list"

datatype Movement = M_FIXED | M_TURN | M_TILT | M_TILT_TURN | M_TOP_HUNG | M_BOTTOM_HUNG | M_SLIDE
  | M_LIFT_SLIDE | M_PARALLEL_SLIDE | M_FOLD | M_PIVOT_V | M_PIVOT_H | M_VERTICAL_SLIDE

datatype HingeSide = H_LEFT | H_RIGHT | H_TOP | H_BOTTOM | H_NONE

datatype Direction = INWARD | OUTWARD

datatype LeafRole = SINGLE | ACTIVE | PASSIVE

record PhysicalOpening =
  movement :: Movement
  hinge_side :: HingeSide
  direction :: Direction
  leaf_role :: LeafRole
  fixed_in_sash :: bool

record HingedLeaf =
  leaf_slot :: side
  leaf_opening :: PhysicalOpening
  leaf_hardware_set_sku :: "string field"

record HingedLayout =
  leaves :: "HingedLeaf list"

datatype OpeningUse = U_WINDOW | U_DOOR

datatype NodeType = ROOT | SPLIT_V | SPLIT_H | BAY

record ExtraContext =
  opening_width_mm :: "string field"
  opening_height_mm :: "string field"

record NodeFields =
  extras :: "json list field"
  extra_context :: "ExtraContext field"
  width_mm :: "string field"
  height_mm :: "string field"
  split_offset_mm :: "string field"
  mullion_profile_sku :: "string field"
  opening_type :: "Opening field"
  node_opening :: "PhysicalOpening field"
  opening_use :: "OpeningUse field"
  opening_recipe_code :: "string field"
  hinged_layout :: "HingedLayout field"
  sliding_layout :: "SlidingLayout field"
  glass_thickness_mm :: "string field"
  glass_spec :: "string field"
  glass_article_sku :: "string field"
  glass_product :: "json field"
  glass_processing :: "json field"
  sill_height_mm :: "string field"
  is_sidelight :: "bool field"
  panel_article_sku :: "string field"
  hardware_set_sku :: "string field"
  hardware_selection :: "json field"
  handle_height_mm :: "string field"
  door_handedness :: "side field"

record NodeData = NodeFields +
  node_id :: string
  node_type :: NodeType

datatype IntentNode = Node (dat: NodeData) (children: "IntentNode list option")

abbreviation nid :: "IntentNode \<Rightarrow> string" where
  "nid n \<equiv> node_id (dat n)"

abbreviation ntype :: "IntentNode \<Rightarrow> NodeType" where
  "ntype n \<equiv> node_type (dat n)"

text \<open>\<open>node.children ?? []\<close>.\<close>

definition kids :: "IntentNode \<Rightarrow> IntentNode list" where
  "kids n = (case children n of None \<Rightarrow> [] | Some xs \<Rightarrow> xs)"

lemma kids_Node [simp]: "kids (Node d cs) = (case cs of None \<Rightarrow> [] | Some xs \<Rightarrow> xs)"
  by (simp add: kids_def)

lemma size_kids: "c \<in> set (kids n) \<Longrightarrow> size c < size n"
proof (cases n)
  case (Node d cs)
  assume "c \<in> set (kids n)"
  then obtain xs where "cs = Some xs" "c \<in> set xs" using Node by (cases cs) auto
  then show ?thesis using Node size_list_estimation' [of c xs "size c" size] by simp
qed

text \<open>The object with no optional member.\<close>

definition no_fields :: NodeFields where
  "no_fields = \<lparr>extras = Undef, extra_context = Undef, width_mm = Undef, height_mm = Undef,
     split_offset_mm = Undef, mullion_profile_sku = Undef, opening_type = Undef, node_opening = Undef,
     opening_use = Undef, opening_recipe_code = Undef, hinged_layout = Undef, sliding_layout = Undef,
     glass_thickness_mm = Undef, glass_spec = Undef, glass_article_sku = Undef, glass_product = Undef,
     glass_processing = Undef, sill_height_mm = Undef, is_sidelight = Undef, panel_article_sku = Undef,
     hardware_set_sku = Undef, hardware_selection = Undef, handle_height_mm = Undef,
     door_handedness = Undef\<rparr>"

definition new_node :: "string \<Rightarrow> NodeType \<Rightarrow> NodeData" where
  "new_node i ty = NodeFields.extend no_fields (NodeData.fields i ty)"

text \<open>The object spread \<open>{...d, ...p}\<close> on the optional members.\<close>

definition patch_fields :: "NodeData \<Rightarrow> NodeFields \<Rightarrow> NodeData" where
  "patch_fields d p = d\<lparr>extras := spread (extras d) (extras p),
     extra_context := spread (extra_context d) (extra_context p),
     width_mm := spread (width_mm d) (width_mm p),
     height_mm := spread (height_mm d) (height_mm p),
     split_offset_mm := spread (split_offset_mm d) (split_offset_mm p),
     mullion_profile_sku := spread (mullion_profile_sku d) (mullion_profile_sku p),
     opening_type := spread (opening_type d) (opening_type p),
     node_opening := spread (node_opening d) (node_opening p),
     opening_use := spread (opening_use d) (opening_use p),
     opening_recipe_code := spread (opening_recipe_code d) (opening_recipe_code p),
     hinged_layout := spread (hinged_layout d) (hinged_layout p),
     sliding_layout := spread (sliding_layout d) (sliding_layout p),
     glass_thickness_mm := spread (glass_thickness_mm d) (glass_thickness_mm p),
     glass_spec := spread (glass_spec d) (glass_spec p),
     glass_article_sku := spread (glass_article_sku d) (glass_article_sku p),
     glass_product := spread (glass_product d) (glass_product p),
     glass_processing := spread (glass_processing d) (glass_processing p),
     sill_height_mm := spread (sill_height_mm d) (sill_height_mm p),
     is_sidelight := spread (is_sidelight d) (is_sidelight p),
     panel_article_sku := spread (panel_article_sku d) (panel_article_sku p),
     hardware_set_sku := spread (hardware_set_sku d) (hardware_set_sku p),
     hardware_selection := spread (hardware_selection d) (hardware_selection p),
     handle_height_mm := spread (handle_height_mm d) (handle_height_mm p),
     door_handedness := spread (door_handedness d) (door_handedness p)\<rparr>"

section \<open>Sliding topology\<close>

definition slidingTravel :: "SlidingPanel \<Rightarrow> nat \<Rightarrow> nat \<Rightarrow> side option" where
  "slidingTravel panel index cnt =
     (if panel_kind panel = P_FIXED then None
      else Some (coalesce (travel panel) (if index * 2 < cnt then S_RIGHT else S_LEFT)))"

definition declareSlidingTravel :: "SlidingLayout \<Rightarrow> SlidingLayout" where
  "declareSlidingTravel layout = layout\<lparr>panels :=
     map (\<lambda>(i, p). p\<lparr>travel := opt_null (slidingTravel p i (length (panels layout)))\<rparr>) (entries (panels layout))\<rparr>"

definition moving :: "string \<Rightarrow> nat \<Rightarrow> SlidingPanel" where
  "moving s t = \<lparr>slot = s, panel_kind = P_MOVING, track = Some t, travel = Undef\<rparr>"

fun SLIDING_PRESETS :: "Opening \<Rightarrow> SlidingLayout option" where
  "SLIDING_PRESETS O_SLIDING_2L = Some \<lparr>tracks = 2, panels = [moving ''S1'' 0, moving ''S2'' 1]\<rparr>"
| "SLIDING_PRESETS O_SLIDING_3L = Some \<lparr>tracks = 2,
     panels = [moving ''S1'' 0, moving ''S2'' 1, moving ''S3'' 0]\<rparr>"
| "SLIDING_PRESETS O_SLIDING_4L = Some \<lparr>tracks = 2,
     panels = [moving ''S1'' 0, moving ''S2'' 1, moving ''S3'' 0, moving ''S4'' 1]\<rparr>"
| "SLIDING_PRESETS _ = None"

definition isSlidingOpening :: "Opening field \<Rightarrow> bool" where
  "isSlidingOpening o' = (case field_opt o' of None \<Rightarrow> False
     | Some x \<Rightarrow> x \<in> {O_SLIDING_2L, O_SLIDING_3L, O_SLIDING_4L, O_SLIDING})"

definition resolvedSlidingLayout :: "IntentNode \<Rightarrow> SlidingLayout option" where
  "resolvedSlidingLayout node =
     (case sliding_layout (dat node) of Val l \<Rightarrow> Some l
      | _ \<Rightarrow> (case opening_type (dat node) of Val x \<Rightarrow> SLIDING_PRESETS x | _ \<Rightarrow> None))"

section \<open>Walking the tree\<close>

function visit :: "IntentNode \<Rightarrow> IntentNode list \<times> string list \<Rightarrow> (IntentNode list \<times> string list) result"
  and visit_all :: "IntentNode list \<Rightarrow> IntentNode list \<times> string list \<Rightarrow> (IntentNode list \<times> string list) result"
where
  "visit node st =
     (let (nodes, ids) = st
      in if nid node = [] \<or> nid node \<in> set ids then Inl (Error ''invalid_node_identity'')
         else visit_all (kids node) (nodes @ [node], ids @ [nid node]))"
| "visit_all [] st = Inr st"
| "visit_all (child # rest) st =
     (case visit child st of Inl e \<Rightarrow> Inl e | Inr st' \<Rightarrow> visit_all rest st')"
  by pat_completeness auto
termination
proof (relation "measure (\<lambda>x. case x of Inl (n, _) \<Rightarrow> 2 * size n | Inr (ns, _) \<Rightarrow> 2 * size_list size ns + 1)")
  fix node :: IntentNode and st x y
  have "2 * size_list size (kids node) + 1 < 2 * size node"
    by (cases node) (auto split: option.split)
  then show "(Inr (kids node, x @ [node], y @ [nid node]), Inl (node, st)) \<in>
      measure (\<lambda>x. case x of Inl (n, _) \<Rightarrow> 2 * size n | Inr (ns, _) \<Rightarrow> 2 * size_list size ns + 1)"
    by simp
qed auto

definition walkIntent :: "IntentNode \<Rightarrow> IntentNode list result" where
  "walkIntent tree = (case visit tree ([], []) of Inl e \<Rightarrow> Inl e | Inr (nodes, _) \<Rightarrow> Inr nodes)"

definition intentBays :: "IntentNode \<Rightarrow> IntentNode list result" where
  "intentBays tree = (case walkIntent tree of Inl e \<Rightarrow> Inl e | Inr ns \<Rightarrow> Inr (filter (\<lambda>n. ntype n = BAY) ns))"

definition topIntent :: "IntentNode \<Rightarrow> IntentNode result" where
  "topIntent tree =
     (if ntype tree \<noteq> ROOT then Inr tree
      else case children tree of Some [c] \<Rightarrow> Inr c | _ \<Rightarrow> Inl (Error ''invalid_root''))"

definition findNode :: "IntentNode \<Rightarrow> string \<Rightarrow> IntentNode option result" where
  "findNode tree i = (case walkIntent tree of Inl e \<Rightarrow> Inl e
     | Inr ns \<Rightarrow> Inr (List.find (\<lambda>n. nid n = i) ns))"

definition selectedBay :: "IntentNode \<Rightarrow> string \<Rightarrow> IntentNode result" where
  "selectedBay tree i =
     (case walkIntent tree of Inl e \<Rightarrow> Inl e
      | Inr ns \<Rightarrow> (case List.find (\<lambda>n. nid n = i) ns of
           None \<Rightarrow> Inl (Error ''bay_unavailable'')
         | Some n \<Rightarrow> if ntype n \<noteq> BAY then Inl (Error ''bay_unavailable'') else Inr n))"

section \<open>Edits\<close>

text \<open>\<open>s.replace(",", ".")\<close> replaces the first comma.\<close>

fun replace_first :: "char \<Rightarrow> char \<Rightarrow> string \<Rightarrow> string" where
  "replace_first a b [] = []"
| "replace_first a b (c # cs) = (if c = a then b # cs else c # replace_first a b cs)"

definition exactMm :: "string \<Rightarrow> string result" where
  "exactMm value = (case normalizeDimensionCandidate (replace_first CHR '','' CHR ''.'' (trim value)) of
     None \<Rightarrow> Inl (Error ''invalid_dimension'') | Some s \<Rightarrow> Inr s)"

definition omit_dims :: "NodeData \<Rightarrow> NodeData" where
  "omit_dims d = d\<lparr>width_mm := Undef, height_mm := Undef\<rparr>"

definition omitDimensions :: "IntentNode \<Rightarrow> IntentNode" where
  "omitDimensions node = Node (omit_dims (dat node)) (children node)"

definition requestTree :: "IntentNode \<Rightarrow> IntentNode result" where
  "requestTree tree =
     (case walkIntent tree of Inl e \<Rightarrow> Inl e
      | Inr _ \<Rightarrow>
         (let root = omitDimensions tree
          in if ntype root \<noteq> ROOT then Inr root
             else case topIntent tree of Inl e \<Rightarrow> Inl e
               | Inr tp \<Rightarrow> Inr (Node (dat root) (Some [omitDimensions tp]))))"

text \<open>When no child changed the source keeps the old object: an equal value.\<close>

fun replaceNode :: "IntentNode \<Rightarrow> string \<Rightarrow> IntentNode \<Rightarrow> IntentNode" where
  "replaceNode (Node d cs) i replacement =
     (if node_id d = i then replacement
      else case cs of None \<Rightarrow> Node d cs
        | Some xs \<Rightarrow> if xs = [] then Node d cs
            else Node d (Some (map (\<lambda>child. replaceNode child i replacement) xs)))"

definition clear_opening :: "Opening \<Rightarrow> NodeData \<Rightarrow> NodeData" where
  "clear_opening o' d = d\<lparr>opening_type := Val o', node_opening := Null, opening_use := Null,
     opening_recipe_code := Null, hinged_layout := Null\<rparr>"

definition changeOpening :: "IntentNode \<Rightarrow> string \<Rightarrow> Opening \<Rightarrow> IntentNode result" where
  "changeOpening tree bayId o' =
     (case selectedBay tree bayId of Inl e \<Rightarrow> Inl e
      | Inr bay \<Rightarrow>
         if o' \<notin> set OPENINGS then Inl (Error ''unsupported_opening'')
         else case (if o' = O_DOOR_ENTRY then map_sum id (\<lambda>t. nid t \<noteq> bayId) (topIntent tree) else Inr False) of
             Inl e \<Rightarrow> Inl e
           | Inr True \<Rightarrow> Inl (Error ''door_requires_top_bay'')
           | Inr False \<Rightarrow>
               (let d = clear_opening o' (dat bay);
                    d' = (if o' = O_DOOR_ENTRY
                          then d\<lparr>door_handedness := Val (coalesce (door_handedness (dat bay)) S_LEFT)\<rparr>
                          else d\<lparr>door_handedness := Undef\<rparr>)
                in requestTree (replaceNode tree bayId (Node d' (children bay)))))"

fun MIRRORED_OPENING :: "Opening \<Rightarrow> Opening option" where
  "MIRRORED_OPENING O_TURN_LEFT = Some O_TURN_RIGHT"
| "MIRRORED_OPENING O_TURN_RIGHT = Some O_TURN_LEFT"
| "MIRRORED_OPENING O_TILT_TURN_LEFT = Some O_TILT_TURN_RIGHT"
| "MIRRORED_OPENING O_TILT_TURN_RIGHT = Some O_TILT_TURN_LEFT"
| "MIRRORED_OPENING _ = None"

record Division =
  div_type :: NodeType
  offsetMm :: string
  mullionSku :: string

record SplitIds =
  id_split :: string
  id_secondBay :: string

text \<open>The two halves of a split bay: the first keeps the identity and drops a declared layout, the
  second mirrors the leaf on a vertical split.\<close>

definition split_first :: "NodeData \<Rightarrow> NodeData" where
  "split_first bay =
     (let first = omit_dims bay
      in case sliding_layout first of
           Val _ \<Rightarrow> first\<lparr>sliding_layout := Undef,
              opening_type := (if opening_type first = Val O_SLIDING then Val O_SLIDING_2L else opening_type first)\<rparr>
         | _ \<Rightarrow> first)"

definition split_second :: "NodeType \<Rightarrow> string \<Rightarrow> NodeData \<Rightarrow> NodeData" where
  "split_second ty secondBay first =
     (let s0 = first\<lparr>node_id := secondBay\<rparr>;
          s1 = (case opening_type s0 of
                  Val x \<Rightarrow> if ty = SPLIT_V
                    then s0\<lparr>opening_type := Val (case MIRRORED_OPENING x of None \<Rightarrow> x | Some y \<Rightarrow> y)\<rparr> else s0
                | _ \<Rightarrow> s0)
      in case node_opening s1 of
           Val p \<Rightarrow>
             if ty = SPLIT_V \<and> nullish (hinged_layout s1) \<and> hinge_side p \<in> {H_LEFT, H_RIGHT}
             then s1\<lparr>node_opening := Val (p\<lparr>hinge_side := (if hinge_side p = H_LEFT then H_RIGHT else H_LEFT)\<rparr>)\<rparr>
             else s1
         | _ \<Rightarrow> s1)"

definition splitBay :: "IntentNode \<Rightarrow> string \<Rightarrow> Division \<Rightarrow> SplitIds \<Rightarrow> IntentNode result" where
  "splitBay tree bayId dv ids =
     (case selectedBay tree bayId of Inl e \<Rightarrow> Inl e
      | Inr bay \<Rightarrow>
         if opening_type (dat bay) = Val O_DOOR_ENTRY then Inl (Error ''door_requires_top_bay'')
         else if div_type dv \<notin> {SPLIT_V, SPLIT_H} \<or> trim (mullionSku dv) = []
         then Inl (Error ''invalid_division'')
         else case walkIntent tree of Inl e \<Rightarrow> Inl e
         | Inr ns \<Rightarrow>
            (let existing = map nid ns
             in if id_split ids = [] \<or> id_secondBay ids = [] \<or> id_split ids = id_secondBay ids
                  \<or> id_split ids \<in> set existing \<or> id_secondBay ids \<in> set existing
                then Inl (Error ''invalid_node_identity'')
                else case exactMm (offsetMm dv) of Inl e \<Rightarrow> Inl e
                | Inr off \<Rightarrow>
                   (let first = split_first (dat bay);
                        second = split_second (div_type dv) (id_secondBay ids) first;
                        replacement = Node ((new_node (id_split ids) (div_type dv))
                            \<lparr>split_offset_mm := Val off, mullion_profile_sku := Val (mullionSku dv)\<rparr>)
                          (Some [Node first (children bay), Node second (children bay)])
                    in requestTree (replaceNode tree bayId replacement))))"

definition is_split :: "IntentNode \<Rightarrow> bool" where
  "is_split n \<longleftrightarrow> ntype n = SPLIT_H \<or> ntype n = SPLIT_V"

definition moveDivision :: "IntentNode \<Rightarrow> string \<Rightarrow> string \<Rightarrow> IntentNode result" where
  "moveDivision tree divisionId offset =
     (case walkIntent tree of Inl e \<Rightarrow> Inl e
      | Inr ns \<Rightarrow> (case List.find (\<lambda>n. nid n = divisionId) ns of
          None \<Rightarrow> Inl (Error ''division_unavailable'')
        | Some node \<Rightarrow>
            if \<not> is_split node then Inl (Error ''division_unavailable'')
            else case exactMm offset of Inl e \<Rightarrow> Inl e
              | Inr off \<Rightarrow> requestTree (replaceNode tree divisionId
                    (Node ((dat node)\<lparr>split_offset_mm := Val off\<rparr>) (children node)))))"

definition removeDivision :: "IntentNode \<Rightarrow> string \<Rightarrow> string option \<Rightarrow> IntentNode result" where
  "removeDivision tree divisionId keepChildId =
     (case findNode tree divisionId of Inl e \<Rightarrow> Inl e
      | Inr None \<Rightarrow> Inl (Error ''division_unavailable'')
      | Inr (Some node) \<Rightarrow>
          if \<not> is_split node then Inl (Error ''division_unavailable'')
          else (let cs = kids node
                in if length cs \<noteq> 2 \<or> list_ex (\<lambda>c. ntype c \<noteq> BAY) cs then Inl (Error ''division_nested'')
                   else let merged = (case List.find (\<lambda>c. Some (nid c) = keepChildId) cs of
                               Some c \<Rightarrow> c | None \<Rightarrow> cs ! 0)
                        in requestTree (replaceNode tree divisionId merged)))"

function parent_walk :: "string \<Rightarrow> IntentNode \<Rightarrow> IntentNode option"
  and parent_walk_all :: "string \<Rightarrow> IntentNode list \<Rightarrow> IntentNode option"
where
  "parent_walk bayId node =
     (if list_ex (\<lambda>c. nid c = bayId) (kids node) then Some node else parent_walk_all bayId (kids node))"
| "parent_walk_all bayId [] = None"
| "parent_walk_all bayId (child # rest) =
     (case parent_walk bayId child of Some f \<Rightarrow> Some f | None \<Rightarrow> parent_walk_all bayId rest)"
  by pat_completeness auto
termination
proof (relation "measure (\<lambda>x. case x of Inl (_, n) \<Rightarrow> 2 * size n | Inr (_, ns) \<Rightarrow> 2 * size_list size ns + 1)")
  fix node :: IntentNode and b :: string
  have "2 * size_list size (kids node) + 1 < 2 * size node"
    by (cases node) (auto split: option.split)
  then show "(Inr (b, kids node), Inl (b, node)) \<in>
      measure (\<lambda>x. case x of Inl (_, n) \<Rightarrow> 2 * size n | Inr (_, ns) \<Rightarrow> 2 * size_list size ns + 1)"
    by simp
qed auto

definition parentSplitOf :: "IntentNode \<Rightarrow> string \<Rightarrow> IntentNode option" where
  "parentSplitOf tree bayId =
     (case parent_walk bayId tree of None \<Rightarrow> None
      | Some parent \<Rightarrow> if \<not> is_split parent then None
          else if list_all (\<lambda>c. ntype c = BAY) (kids parent) then Some parent else None)"

text \<open>\<open>node[key] ?? null\<close>.\<close>

definition or_null :: "'a field \<Rightarrow> 'a field" where
  "or_null f = (if nullish f then Null else f)"

definition baySpec :: "IntentNode \<Rightarrow> NodeFields" where
  "baySpec node = (let d = dat node in no_fields\<lparr>
     opening_type := or_null (opening_type d), node_opening := or_null (node_opening d),
     opening_use := or_null (opening_use d), opening_recipe_code := or_null (opening_recipe_code d),
     hinged_layout := or_null (hinged_layout d), sliding_layout := or_null (sliding_layout d),
     glass_thickness_mm := or_null (glass_thickness_mm d), glass_spec := or_null (glass_spec d),
     glass_article_sku := or_null (glass_article_sku d), glass_product := or_null (glass_product d),
     glass_processing := or_null (glass_processing d), sill_height_mm := or_null (sill_height_mm d),
     is_sidelight := Val (coalesce (is_sidelight d) False),
     panel_article_sku := or_null (panel_article_sku d), hardware_set_sku := or_null (hardware_set_sku d),
     hardware_selection := or_null (hardware_selection d), handle_height_mm := or_null (handle_height_mm d),
     door_handedness := or_null (door_handedness d)\<rparr>)"

definition delete_opening_spec :: "NodeFields \<Rightarrow> NodeFields" where
  "delete_opening_spec spec = spec\<lparr>opening_type := Undef, node_opening := Undef, opening_use := Undef,
     opening_recipe_code := Undef, hinged_layout := Undef, door_handedness := Undef,
     sliding_layout := Undef\<rparr>"

definition applyBaySpec :: "IntentNode \<Rightarrow> string \<Rightarrow> string \<Rightarrow> IntentNode result" where
  "applyBaySpec tree sourceBayId targetBayId =
     (case selectedBay tree sourceBayId of Inl e \<Rightarrow> Inl e
      | Inr source \<Rightarrow> (case selectedBay tree targetBayId of Inl e \<Rightarrow> Inl e
        | Inr target \<Rightarrow>
           (let spec = (if \<not> nullish (opening_type (dat target)) \<or> \<not> nullish (node_opening (dat target))
                        then delete_opening_spec (baySpec source) else baySpec source)
            in requestTree (replaceNode tree targetBayId
                 (Node ((patch_fields (dat target) spec)\<lparr>node_id := nid target, node_type := BAY\<rparr>)
                    (children target))))))"

definition updateBay :: "IntentNode \<Rightarrow> string \<Rightarrow> NodeFields \<Rightarrow> IntentNode result" where
  "updateBay tree bayId patch =
     (case selectedBay tree bayId of Inl e \<Rightarrow> Inl e
      | Inr bay \<Rightarrow> requestTree (replaceNode tree bayId
          (Node ((patch_fields (dat bay) patch)\<lparr>node_id := nid bay, node_type := ntype bay\<rparr>) (children bay))))"

definition singleBayTemplate :: "IntentNode \<Rightarrow> string \<Rightarrow> Opening \<Rightarrow> IntentNode result" where
  "singleBayTemplate tree bayId o' =
     (if o' \<notin> set OPENINGS then Inl (Error ''unsupported_opening'')
      else case selectedBay tree bayId of Inl e \<Rightarrow> Inl e
        | Inr b \<Rightarrow> (let bay = omitDimensions b
            in Inr (Node ((clear_opening o' (dat bay))\<lparr>sliding_layout := Null, hardware_set_sku := Null,
                 hardware_selection := Null\<rparr>) (children bay))))"

section \<open>The nodes of a tree, in order\<close>

function preorder :: "IntentNode \<Rightarrow> IntentNode list" where
  "preorder n = n # concat (map preorder (kids n))"
  by pat_completeness auto
termination by (relation "measure size") (auto dest: size_kids)

declare preorder.simps [simp del]

definition datas :: "IntentNode \<Rightarrow> NodeData list" where
  "datas n = map dat (preorder n)"

definition tree_ids :: "IntentNode \<Rightarrow> string list" where
  "tree_ids n = map node_id (datas n)"

definition wf_ids :: "IntentNode \<Rightarrow> bool" where
  "wf_ids n \<longleftrightarrow> distinct (tree_ids n) \<and> [] \<notin> set (tree_ids n)"

lemma datas_unfold: "datas n = dat n # concat (map datas (kids n))"
  by (simp add: datas_def [abs_def] preorder.simps [of n] map_concat comp_def)

lemma tree_ids_unfold: "tree_ids n = nid n # concat (map tree_ids (kids n))"
  by (simp add: tree_ids_def [abs_def] datas_unfold [of n] map_concat comp_def)

lemma tree_ids_preorder: "tree_ids n = map nid (preorder n)"
  by (simp add: tree_ids_def datas_def)

lemma preorder_self: "n \<in> set (preorder n)"
  by (simp add: preorder.simps [of n])

lemma visit_spec:
  "distinct (snd st) \<Longrightarrow>
     visit n st = (if distinct (snd st @ tree_ids n) \<and> [] \<notin> set (tree_ids n)
       then Inr (fst st @ preorder n, snd st @ tree_ids n) else Inl (Error ''invalid_node_identity''))"
  "distinct (snd st) \<Longrightarrow>
     visit_all ns st = (if distinct (snd st @ concat (map tree_ids ns)) \<and> [] \<notin> set (concat (map tree_ids ns))
       then Inr (fst st @ concat (map preorder ns), snd st @ concat (map tree_ids ns))
       else Inl (Error ''invalid_node_identity''))"
proof (induction n st and ns st rule: visit_visit_all.induct)
  case (1 node st)
  obtain nodes ids where st: "st = (nodes, ids)" by (cases st)
  show ?case
  proof (cases "nid node = [] \<or> nid node \<in> set ids")
    case True
    then show ?thesis by (auto simp: st tree_ids_unfold [of node])
  next
    case False
    then have d: "distinct (snd (nodes @ [node], ids @ [nid node]))" using 1(2) st by simp
    show ?thesis
      using False 1(1) [OF st [symmetric] refl False d]
      by (auto simp: st tree_ids_unfold [of node] preorder.simps [of node])
  qed
next
  case (3 child rest st)
  show ?case
  proof (cases "distinct (snd st @ tree_ids child) \<and> [] \<notin> set (tree_ids child)")
    case True
    then have v: "visit child st = Inr (fst st @ preorder child, snd st @ tree_ids child)"
      using 3(1) [OF 3(3)] by simp
    show ?thesis using v True 3(2) [OF v] by simp
  next
    case False
    then have "visit child st = Inl (Error ''invalid_node_identity'')" using 3(1) [OF 3(3)] by simp
    then show ?thesis using False by auto
  qed
qed simp

lemma walkIntent_eq:
  "walkIntent t = (if wf_ids t then Inr (preorder t) else Inl (Error ''invalid_node_identity''))"
  using visit_spec(1) [of "([], [])" t] by (simp add: walkIntent_def wf_ids_def del: visit.simps)

lemma find_preorder:
  assumes "wf_ids t" "n \<in> set (preorder t)"
  shows "List.find (\<lambda>m. nid m = nid n) (preorder t) = Some n"
  using assms find_distinct_key [of nid "preorder t" n] by (simp add: wf_ids_def tree_ids_preorder)

lemma findNode_eq: "wf_ids t \<Longrightarrow> findNode t i = Inr (List.find (\<lambda>m. nid m = i) (preorder t))"
  by (simp add: findNode_def walkIntent_eq)

lemma selectedBay_Inr:
  "selectedBay t i = Inr n \<longleftrightarrow> wf_ids t \<and> n \<in> set (preorder t) \<and> nid n = i \<and> ntype n = BAY"
  by (auto simp: selectedBay_def walkIntent_eq find_preorder split: option.splits dest: find_Some_mem)

section \<open>What a replacement changes\<close>

lemma replaceNode_map:
  "replaceNode (Node d cs) i r = (if node_id d = i then r
     else Node d (map_option (map (\<lambda>c. replaceNode c i r)) cs))"
  by (simp split: option.split)

declare replaceNode.simps [simp del]

lemma replaceNode_other: "i \<notin> set (tree_ids t) \<Longrightarrow> replaceNode t i r = t"
proof (induction t i r rule: replaceNode.induct)
  case (1 d cs i r)
  have "cs = Some xs \<Longrightarrow> map (\<lambda>c. replaceNode c i r) xs = xs" for xs
    using 1 by (intro map_idI) (force simp: tree_ids_unfold [of "Node d _"])
  then show ?case using 1(2) by (cases cs) (auto simp: replaceNode_map tree_ids_unfold [of "Node d _"])
qed

lemma datas_replaceNode:
  assumes "distinct (tree_ids t)" "n \<in> set (preorder t)"
  shows "\<exists>pre post. datas t = pre @ datas n @ post \<and>
    (\<forall>r. datas (replaceNode t (nid n) r) = pre @ datas r @ post)"
  using assms
proof (induction t rule: preorder.induct)
  case (1 t)
  show ?case
  proof (cases "nid t = nid n")
    case True
    then have "nid n \<notin> set (concat (map tree_ids (kids t)))"
      using 1(2) by (simp add: tree_ids_unfold [of t])
    then have "n = t"
      using 1(3) by (auto simp: preorder.simps [of t] tree_ids_preorder)
    then show ?thesis
      by (intro exI [of _ "[]"]) (cases t, simp add: replaceNode_map)
  next
    case False
    then obtain c where c: "c \<in> set (kids t)" "n \<in> set (preorder c)"
      using 1(3) by (auto simp: preorder.simps [of t])
    obtain d cs where t: "t = Node d cs" by (cases t)
    obtain xs where xs: "cs = Some xs" "kids t = xs" using c t by (cases cs) auto
    obtain ys zs where yz: "xs = ys @ c # zs" using c(1) xs by (auto dest: split_list)
    have dist: "distinct (concat (map tree_ids xs))" using 1(2) xs by (simp add: tree_ids_unfold [of t])
    have ni: "nid n \<in> set (tree_ids c)" using c(2) by (auto simp: tree_ids_preorder)
    have keep: "replaceNode y (nid n) r = y" if "y \<in> set ys \<or> y \<in> set zs" for y r
      using that dist ni by (intro replaceNode_other) (auto simp: yz)
    have "distinct (tree_ids c)" using dist by (simp add: yz)
    from 1(1) [OF c(1) this c(2)] obtain pre post where
      p: "datas c = pre @ datas n @ post" "\<forall>r. datas (replaceNode c (nid n) r) = pre @ datas r @ post"
      by blast
    have "replaceNode t (nid n) r = Node d (Some (ys @ replaceNode c (nid n) r # zs))" for r
      using False keep by (simp add: t xs yz replaceNode_map map_idI)
    then show ?thesis using p
      by (intro exI [of _ "d # concat (map datas ys) @ pre"] exI [of _ "post @ concat (map datas zs)"])
        (simp add: datas_unfold [of t] datas_unfold [of "Node d _"] t xs yz)
  qed
qed

lemma datas_omitDimensions: "map omit_dims (datas (omitDimensions n)) = map omit_dims (datas n)"
  by (cases n) (simp add: omitDimensions_def omit_dims_def datas_unfold [of "Node _ _"])

lemma requestTree_cases:
  assumes "requestTree t = Inr t'"
  obtains "wf_ids t" "ntype t \<noteq> ROOT" "t' = omitDimensions t"
  | c where "wf_ids t" "ntype t = ROOT" "children t = Some [c]"
      "t' = Node (omit_dims (dat t)) (Some [omitDimensions c])"
  using assms
  by (auto simp: requestTree_def walkIntent_eq topIntent_def Let_def omitDimensions_def [of t] omit_dims_def [of "dat t"]
      split: if_splits option.splits list.splits)

lemma requestTree_Inr:
  assumes "requestTree t = Inr t'"
  shows "wf_ids t" "map omit_dims (datas t') = map omit_dims (datas t)" "ntype t' = ntype t" "nid t' = nid t"
proof -
  have "wf_ids t \<and> map omit_dims (datas t') = map omit_dims (datas t) \<and> ntype t' = ntype t \<and> nid t' = nid t"
    using assms
  proof (cases rule: requestTree_cases)
    case 1
    then show ?thesis by (simp add: datas_omitDimensions) (simp add: omitDimensions_def omit_dims_def)
  next
    case (2 c)
    then have "kids t = [c]" by (simp add: kids_def)
    then show ?thesis using 2
      by (simp add: datas_unfold [of t] datas_unfold [of "Node (omit_dims (dat t)) (Some [omitDimensions c])"]
          datas_omitDimensions) (simp add: omit_dims_def)
  qed
  then show "wf_ids t" "map omit_dims (datas t') = map omit_dims (datas t)" "ntype t' = ntype t" "nid t' = nid t"
    by simp_all
qed

lemma omit_dims_keeps [simp]:
  "node_id (omit_dims d) = node_id d" "node_type (omit_dims d) = node_type d" "omit_dims (omit_dims d) = omit_dims d"
  by (simp_all add: omit_dims_def)

lemma map_omit_dims_id: "map omit_dims xs = map omit_dims ys \<Longrightarrow> map node_id xs = map node_id ys"
  by (drule arg_cong [of _ _ "map node_id"]) (simp add: comp_def)

lemma requestTree_ids: "requestTree t = Inr t' \<Longrightarrow> tree_ids t' = tree_ids t \<and> wf_ids t'"
  using requestTree_Inr [of t t'] map_omit_dims_id [of "datas t'" "datas t"]
  by (simp add: tree_ids_def wf_ids_def)

section \<open>Edits of one node\<close>

text \<open>
  The contract shared by the edits that rewrite the members of one existing node: the edit is a
  replacement of the addressed node, with its children kept, followed by the request
  normalisation. Its clients' consequence: the nodes of the result are those of the input, in the
  same order, with that one node's data rewritten (nominal dimensions aside).
\<close>

definition set_data :: "string \<Rightarrow> (NodeData \<Rightarrow> NodeData) \<Rightarrow> NodeData list \<Rightarrow> NodeData list" where
  "set_data i f ds = map (\<lambda>d. omit_dims (if node_id d = i then f d else d)) ds"

lemma datas_replace_data:
  assumes "distinct (tree_ids t)" "n \<in> set (preorder t)"
  shows "datas (replaceNode t (nid n) (Node d' (children n)))
    = map (\<lambda>d. if node_id d = nid n then d' else d) (datas t)"
proof -
  obtain pre post where p: "datas t = pre @ datas n @ post"
    "datas (replaceNode t (nid n) (Node d' (children n))) = pre @ datas (Node d' (children n)) @ post"
    using datas_replaceNode [OF assms] by blast
  have n: "datas n = dat n # concat (map datas (kids n))" "datas (Node d' (children n)) = d' # concat (map datas (kids n))"
    by (simp_all add: datas_unfold [of n] datas_unfold [of "Node d' _"] kids_def)
  have "node_id x \<noteq> nid n" if "x \<in> set pre \<union> set (concat (map datas (kids n))) \<union> set post" for x
    using that assms(1) by (fastforce simp: tree_ids_def p n image_iff)
  then have keep: "map (\<lambda>d. if node_id d = nid n then d' else d) xs = xs"
    if "set xs \<subseteq> set pre \<union> set (concat (map datas (kids n))) \<union> set post" for xs
    using that by (intro map_idI) (simp add: subset_iff)
  show ?thesis
    using keep [of pre] keep [of post] keep [of "concat (map datas (kids n))"] by (simp add: p n sup.coboundedI1)
qed

locale node_edit =
  fixes edit :: "IntentNode \<Rightarrow> 'a \<Rightarrow> IntentNode result"
    and target :: "'a \<Rightarrow> string"
    and new_data :: "IntentNode \<Rightarrow> 'a \<Rightarrow> NodeData \<Rightarrow> NodeData"
  assumes edit_replaces: "edit t a = Inr t' \<Longrightarrow> wf_ids t \<and> (\<exists>n \<in> set (preorder t). nid n = target a \<and>
      requestTree (replaceNode t (target a) (Node (new_data t a (dat n)) (children n))) = Inr t')"
    and new_data_id: "node_id (new_data t a d) = node_id d"
begin

lemma edit_datas:
  assumes "edit t a = Inr t'"
  shows "map omit_dims (datas t') = set_data (target a) (new_data t a) (datas t)"
proof -
  obtain n where w: "wf_ids t" and n: "n \<in> set (preorder t)" "nid n = target a"
    "requestTree (replaceNode t (nid n) (Node (new_data t a (dat n)) (children n))) = Inr t'"
    using edit_replaces [OF assms] by auto
  have d: "distinct (tree_ids t)" using w by (simp add: wf_ids_def)
  have "d = dat n" if "d \<in> set (datas t)" "node_id d = nid n" for d
    using that n(1) d by (auto simp: tree_ids_def datas_def inj_on_def distinct_map)
  then have "map (\<lambda>d. if node_id d = nid n then new_data t a (dat n) else d) (datas t)
      = map (\<lambda>d. if node_id d = target a then new_data t a d else d) (datas t)"
    using n(2) by (intro map_cong) auto
  then show ?thesis
    using requestTree_Inr(2) [OF n(3)] datas_replace_data [OF d n(1)] by (simp add: set_data_def comp_def)
qed

lemma edit_ids: "edit t a = Inr t' \<Longrightarrow> tree_ids t' = tree_ids t \<and> wf_ids t'"
proof -
  assume e: "edit t a = Inr t'"
  have "map node_id (map omit_dims (datas t')) = map node_id (set_data (target a) (new_data t a) (datas t))"
    by (simp only: edit_datas [OF e])
  then have "tree_ids t' = tree_ids t"
    by (simp add: tree_ids_def set_data_def comp_def new_data_id if_distrib cong: if_cong)
  with edit_replaces [OF e] show ?thesis by (auto simp: wf_ids_def)
qed

lemma edit_Inr:
  assumes "edit t a = Inr t'"
  shows "tree_ids t' = tree_ids t \<and> wf_ids t' \<and> target a \<in> set (tree_ids t)
    \<and> map omit_dims (datas t') = set_data (target a) (new_data t a) (datas t)"
proof -
  have "target a \<in> nid ` set (preorder t)" using edit_replaces [OF assms] by (auto intro: rev_image_eqI)
  then show ?thesis using edit_datas [OF assms] edit_ids [OF assms] by (simp add: tree_ids_preorder)
qed

end

lemma patch_fields_id [simp]: "node_id (patch_fields d p) = node_id d" "node_type (patch_fields d p) = node_type d"
  by (simp_all add: patch_fields_def)

lemma patch_fields_same:
  "node_type d = ty \<Longrightarrow> (patch_fields d p)\<lparr>node_id := node_id d, node_type := ty\<rparr> = patch_fields d p"
  by (cases d) (simp add: patch_fields_def)

interpretation update_bay: node_edit "\<lambda>t (b, p). updateBay t b p" fst "\<lambda>t (b, p) d. patch_fields d p"
proof
  fix t t' and a :: "string \<times> NodeFields"
  assume "(\<lambda>(b, p). updateBay t b p) a = Inr t'"
  then show "wf_ids t \<and> (\<exists>n \<in> set (preorder t). nid n = fst a \<and>
      requestTree (replaceNode t (fst a) (Node ((\<lambda>(b, p) d. patch_fields d p) a (dat n)) (children n))) = Inr t')"
    by (cases a) (auto simp: updateBay_def selectedBay_Inr patch_fields_same split: sum.splits)
qed auto

definition opened :: "Opening \<Rightarrow> NodeData \<Rightarrow> NodeData" where
  "opened o' d = (clear_opening o' d)\<lparr>door_handedness :=
     (if o' = O_DOOR_ENTRY then Val (coalesce (door_handedness d) S_LEFT) else Undef)\<rparr>"

interpretation change_opening: node_edit "\<lambda>t (b, o'). changeOpening t b o'" fst "\<lambda>t (b, o') d. opened o' d"
proof
  fix t t' and a :: "string \<times> Opening"
  assume "(\<lambda>(b, p). changeOpening t b p) a = Inr t'"
  then show "wf_ids t \<and> (\<exists>n \<in> set (preorder t). nid n = fst a \<and>
      requestTree (replaceNode t (fst a) (Node ((\<lambda>(b, o') d. opened o' d) a (dat n)) (children n))) = Inr t')"
    by (cases a) (auto simp: changeOpening_def selectedBay_Inr opened_def Let_def split: sum.splits if_splits bool.splits)
qed (auto simp: opened_def clear_opening_def)

definition moved :: "string \<Rightarrow> NodeData \<Rightarrow> NodeData" where
  "moved offset d = (case exactMm offset of Inr off \<Rightarrow> d\<lparr>split_offset_mm := Val off\<rparr> | Inl _ \<Rightarrow> d)"

interpretation move_division: node_edit "\<lambda>t (b, o'). moveDivision t b o'" fst "\<lambda>t (b, o') d. moved o' d"
proof
  fix t t' and a :: "string \<times> string"
  assume "(\<lambda>(b, p). moveDivision t b p) a = Inr t'"
  then show "wf_ids t \<and> (\<exists>n \<in> set (preorder t). nid n = fst a \<and>
      requestTree (replaceNode t (fst a) (Node ((\<lambda>(b, o') d. moved o' d) a (dat n)) (children n))) = Inr t')"
    by (cases a) (auto simp: moveDivision_def walkIntent_eq moved_def
        split: sum.splits if_splits option.splits dest!: find_Some_mem)
qed (auto simp: moved_def split: sum.splits)

definition pasted :: "IntentNode \<Rightarrow> string \<Rightarrow> NodeData \<Rightarrow> NodeData" where
  "pasted t src d = (case selectedBay t src of Inl _ \<Rightarrow> d
     | Inr source \<Rightarrow> patch_fields d (if nullish (opening_type d) \<and> nullish (node_opening d)
         then baySpec source else delete_opening_spec (baySpec source)))"

interpretation apply_bay_spec: node_edit "\<lambda>t (s, b). applyBaySpec t s b" snd "\<lambda>t (s, b) d. pasted t s d"
proof
  fix t t' and a :: "string \<times> string"
  assume e: "(\<lambda>(s, b). applyBaySpec t s b) a = Inr t'"
  obtain s b where a: "a = (s, b)" by (cases a)
  obtain source tg where st: "selectedBay t s = Inr source" "selectedBay t b = Inr tg"
    using e by (auto simp: a applyBaySpec_def split: sum.splits)
  have same: "(patch_fields (dat tg) q)\<lparr>node_id := nid tg, node_type := BAY\<rparr> = patch_fields (dat tg) q" for q
    using st(2) by (simp add: selectedBay_Inr patch_fields_same)
  show "wf_ids t \<and> (\<exists>n \<in> set (preorder t). nid n = snd a \<and>
      requestTree (replaceNode t (snd a) (Node ((\<lambda>(s, b) d. pasted t s d) a (dat n)) (children n))) = Inr t')"
    using e st by (auto simp: a applyBaySpec_def selectedBay_Inr [of t b] pasted_def same Let_def split: if_splits intro!: bexI [of _ tg])
qed (auto simp: pasted_def split: sum.splits)

section \<open>Correctness of the tree edits\<close>

text \<open>
  Walking a tree returns every node once, parents before children and siblings in order, exactly
  when all identities are non-empty and distinct; otherwise it raises \<open>invalid_node_identity\<close>.
\<close>

theorem walkIntent_spec:
  "walkIntent t = (if distinct (map nid (preorder t)) \<and> [] \<notin> set (map nid (preorder t))
     then Inr (preorder t) else Inl (Error ''invalid_node_identity''))"
  by (simp add: walkIntent_eq wf_ids_def tree_ids_preorder)

lemma requestTree_total:
  "wf_ids t \<Longrightarrow> (ntype t = ROOT \<Longrightarrow> \<exists>c. children t = Some [c]) \<Longrightarrow> \<exists>t'. requestTree t = Inr t'"
  by (auto simp: requestTree_def walkIntent_eq topIntent_def Let_def)

lemma replaceNode_root:
  assumes "wf_ids t" "n \<in> set (preorder t)" "nid n = i" "node_id d = i" "node_type d = ntype n"
  shows "ntype (replaceNode t i (Node d (children n))) = ntype t"
    and "map_option length (children (replaceNode t i (Node d (children n)))) = map_option length (children t)"
    and "wf_ids (replaceNode t i (Node d (children n)))"
proof -
  obtain td cs where t: "t = Node td cs" by (cases t)
  have e: "n = t" if "nid t = i"
    using assms find_preorder [of t n] find_preorder [of t t] that by (simp add: preorder_self)
  then show "ntype (replaceNode t i (Node d (children n))) = ntype t"
    and "map_option length (children (replaceNode t i (Node d (children n)))) = map_option length (children t)"
    using assms(5) by (auto simp: t replaceNode_map option.map_comp comp_def)
  have "tree_ids (replaceNode t i (Node d (children n))) = tree_ids t"
    using datas_replace_data [of t n d] assms(1-4)
    by (simp add: tree_ids_def wf_ids_def comp_def)
  then show "wf_ids (replaceNode t i (Node d (children n)))" using assms(1) by (simp add: wf_ids_def)
qed

lemma updateBay_total:
  "(\<exists>t'. updateBay t b p = Inr t') \<longleftrightarrow>
     wf_ids t \<and> (\<exists>n \<in> set (preorder t). nid n = b \<and> ntype n = BAY) \<and>
     (ntype t = ROOT \<longrightarrow> map_option length (children t) = Some 1)"
proof (cases "selectedBay t b")
  case (Inl e)
  then have "\<not> (wf_ids t \<and> n \<in> set (preorder t) \<and> nid n = b \<and> ntype n = BAY)" for n
    using selectedBay_Inr [of t b n] by simp
  then show ?thesis using Inl by (auto simp: updateBay_def)
next
  case (Inr n)
  have one: "map_option length c = Some 1 \<longleftrightarrow> (\<exists>x. c = Some [x])" for c :: "IntentNode list option"
    by (cases c) (auto simp: length_Suc_conv)
  from Inr have n: "wf_ids t" "n \<in> set (preorder t)" "nid n = b" "ntype n = BAY" by (auto simp: selectedBay_Inr)
  let ?t = "replaceNode t b (Node (patch_fields (dat n) p) (children n))"
  note r = replaceNode_root [OF n(1-3), of "patch_fields (dat n) p", simplified, OF n(3)]
  have u: "updateBay t b p = requestTree ?t"
    using Inr by (simp add: updateBay_def n patch_fields_same [OF n(4), of p, unfolded n(3)])
  have "(\<exists>t'. requestTree ?t = Inr t') \<longleftrightarrow> (ntype t = ROOT \<longrightarrow> map_option length (children t) = Some 1)"
    using requestTree_total [OF r(3)] r(1,2) one
    by (metis requestTree_cases)
  then show ?thesis using u n by auto
qed

text \<open>
  Patching a bay. The edit succeeds exactly when the tree is well-identified, the identity names a
  bay and a root has its single child; then the result has the same nodes in the same order with
  only the addressed bay's members spread with the patch (nominal dimensions of the envelope
  aside, which the request normalisation drops).
\<close>

theorem updateBay_spec:
  "((\<exists>t'. updateBay t b p = Inr t') \<longleftrightarrow>
     wf_ids t \<and> (\<exists>n \<in> set (preorder t). nid n = b \<and> ntype n = BAY) \<and>
     (ntype t = ROOT \<longrightarrow> map_option length (children t) = Some 1)) \<and>
   (\<forall>t'. updateBay t b p = Inr t' \<longrightarrow> wf_ids t' \<and> tree_ids t' = tree_ids t \<and>
     map omit_dims (datas t') = set_data b (\<lambda>d. patch_fields d p) (datas t))"
  using updateBay_total [of t b p] update_bay.edit_Inr [of t "(b, p)"] by simp

text \<open>A small tree for the witnesses: a root over a vertical split of two bays.\<close>

definition sample_bay :: "string \<Rightarrow> Opening \<Rightarrow> IntentNode" where
  "sample_bay i o' = Node ((new_node i BAY)\<lparr>opening_type := Val o', glass_spec := Val ''4-16-4''\<rparr>) None"

definition sample_tree :: IntentNode where
  "sample_tree = Node (new_node ''root'' ROOT) (Some [
     Node ((new_node ''s1'' SPLIT_V)\<lparr>split_offset_mm := Val ''600.00'', mullion_profile_sku := Val ''T-82''\<rparr>)
       (Some [sample_bay ''b1'' O_TURN_LEFT, sample_bay ''b2'' O_FIXED])])"

lemmas sample_defs = sample_tree_def sample_bay_def new_node_def no_fields_def NodeFields.defs NodeData.defs

lemma preorder_Node:
  "preorder (Node d None) = [Node d None]"
  "preorder (Node d (Some xs)) = Node d (Some xs) # concat (map preorder xs)"
  by (simp_all add: preorder.simps [of "Node d _"])

lemma sample_wf: "wf_ids sample_tree"
  by (simp add: wf_ids_def tree_ids_preorder sample_defs preorder_Node)

theorem updateBay_witness:
  "\<exists>t'. updateBay sample_tree ''b2'' (no_fields\<lparr>glass_spec := Val ''6-12-6''\<rparr>) = Inr t' \<and> wf_ids t'
     \<and> tree_ids t' = [''root'', ''s1'', ''b1'', ''b2'']"
proof -
  let ?p = "no_fields\<lparr>glass_spec := Val ''6-12-6''\<rparr>"
  have "\<exists>n \<in> set (preorder sample_tree). nid n = ''b2'' \<and> ntype n = BAY"
    "ntype sample_tree = ROOT \<longrightarrow> map_option length (children sample_tree) = Some 1"
    "tree_ids sample_tree = [''root'', ''s1'', ''b1'', ''b2'']"
    by (simp_all add: tree_ids_preorder sample_defs preorder_Node)
  then show ?thesis using updateBay_spec [of sample_tree "''b2''" ?p] sample_wf by auto
qed

text \<open>
  Changing the opening of a bay: the legacy opening is set, the physical opening, use, recipe and
  hinged layout are cleared, an entry door keeps or defaults (left) its handedness and every other
  opening drops it; no other node changes. An entry door is refused below the top bay.
\<close>

lemma changeOpening_spec:
  "(\<forall>t'. changeOpening t b o' = Inr t' \<longrightarrow> wf_ids t' \<and> tree_ids t' = tree_ids t \<and>
      map omit_dims (datas t') = set_data b (\<lambda>d. d\<lparr>opening_type := Val o', node_opening := Null, opening_use := Null,
        opening_recipe_code := Null, hinged_layout := Null,
        door_handedness := (if o' = O_DOOR_ENTRY then Val (coalesce (door_handedness d) S_LEFT) else Undef)\<rparr>) (datas t)) \<and>
   (selectedBay t b = Inr n \<and> topIntent t = Inr top' \<and> nid top' \<noteq> b \<longrightarrow>
      changeOpening t b O_DOOR_ENTRY = Inl (Error ''door_requires_top_bay''))"
  using change_opening.edit_Inr [of t "(b, o')"]
  by (auto simp: opened_def [abs_def] clear_opening_def) (simp add: changeOpening_def OPENINGS_def)

lemma sample_bays:
  "selectedBay sample_tree ''b1'' = Inr (sample_bay ''b1'' O_TURN_LEFT)"
  "topIntent sample_tree = Inr (the_elem (set (kids sample_tree)))"
  using sample_wf by (simp_all add: selectedBay_Inr) (simp_all add: sample_defs preorder_Node topIntent_def)

lemma changeOpening_witness:
  "changeOpening sample_tree ''b1'' O_DOOR_ENTRY = Inl (Error ''door_requires_top_bay'')"
proof -
  have "nid (the_elem (set (kids sample_tree))) \<noteq> ''b1''" by (simp add: sample_defs)
  with sample_bays show ?thesis
    using changeOpening_spec [of sample_tree "''b1''" O_DOOR_ENTRY "sample_bay ''b1'' O_TURN_LEFT"
        "the_elem (set (kids sample_tree))"] by blast
qed

text \<open>The nodes that take the place of a split bay.\<close>

definition split_data :: "Division \<Rightarrow> SplitIds \<Rightarrow> string \<Rightarrow> NodeData" where
  "split_data dv ids off = (new_node (id_split ids) (div_type dv))
     \<lparr>split_offset_mm := Val off, mullion_profile_sku := Val (mullionSku dv)\<rparr>"

definition split_nodes :: "Division \<Rightarrow> SplitIds \<Rightarrow> string \<Rightarrow> NodeData \<Rightarrow> NodeData list" where
  "split_nodes dv ids off d = [split_data dv ids off, split_first d,
     split_second (div_type dv) (id_secondBay ids) (split_first d)]"

lemma split_ids [simp]:
  "node_id (split_data dv ids off) = id_split ids" "node_type (split_data dv ids off) = div_type dv"
  "node_id (split_first d) = node_id d" "node_type (split_first d) = node_type d"
  "node_id (split_second ty i d) = i" "node_type (split_second ty i d) = node_type d"
  by (simp_all add: split_data_def new_node_def NodeFields.defs NodeData.defs split_first_def
      split_second_def omit_dims_def Let_def split: field.splits)

lemma splitBay_Inr:
  assumes "splitBay t b dv ids = Inr t'"
  obtains bay off where "selectedBay t b = Inr bay" "exactMm (offsetMm dv) = Inr off"
    "div_type dv = SPLIT_V \<or> div_type dv = SPLIT_H" "opening_type (dat bay) \<noteq> Val O_DOOR_ENTRY"
    "id_split ids \<notin> set (tree_ids t)" "id_secondBay ids \<notin> set (tree_ids t)" "id_split ids \<noteq> id_secondBay ids"
    "requestTree (replaceNode t b (Node (split_data dv ids off)
       (Some [Node (split_first (dat bay)) (children bay),
              Node (split_second (div_type dv) (id_secondBay ids) (split_first (dat bay))) (children bay)]))) = Inr t'"
  using assms that
  by (auto simp: splitBay_def walkIntent_eq Let_def split_data_def tree_ids_preorder split: sum.splits if_splits)

lemma concat_singletons: "\<forall>x \<in> set xs. g x = [x] \<Longrightarrow> concat (map g xs) = xs"
  by (induction xs) auto

lemma datas_replace_unique:
  assumes "wf_ids t" "n \<in> set (preorder t)" "kids n = []"
  shows "datas (replaceNode t (nid n) r) = concat (map (\<lambda>d. if node_id d = nid n then datas r else [d]) (datas t))"
proof -
  obtain pre post where p: "datas t = pre @ datas n @ post"
    "datas (replaceNode t (nid n) r) = pre @ datas r @ post"
    using datas_replaceNode [OF _ assms(2)] assms(1) by (auto simp: wf_ids_def)
  have n: "datas n = [dat n]" by (simp add: datas_unfold [of n] assms(3))
  have "nid n \<notin> node_id ` set pre \<union> node_id ` set post"
    using assms(1) by (auto simp: wf_ids_def tree_ids_def p n)
  then have "concat (map (\<lambda>d. if node_id d = nid n then datas r else [d]) pre) = pre"
    "concat (map (\<lambda>d. if node_id d = nid n then datas r else [d]) post) = post"
    by (auto simp: image_iff intro!: concat_singletons)
  then show ?thesis by (simp add: p n)
qed

lemma splitBay_leaf:
  assumes "splitBay t b dv ids = Inr t'" "selectedBay t b = Inr bay"
  shows "kids bay = []"
proof (rule ccontr)
  assume ne: "kids bay \<noteq> []"
  obtain off where r: "requestTree (replaceNode t b (Node (split_data dv ids off)
       (Some [Node (split_first (dat bay)) (children bay),
              Node (split_second (div_type dv) (id_secondBay ids) (split_first (dat bay))) (children bay)]))) = Inr t'"
    (is "requestTree (replaceNode t b ?r) = _")
    using splitBay_Inr [OF assms(1)] assms(2) by (metis Inr_inject)
  have b: "wf_ids t" "bay \<in> set (preorder t)" "nid bay = b" using assms(2) by (auto simp: selectedBay_Inr)
  obtain pre post where "datas (replaceNode t b ?r) = pre @ datas ?r @ post"
    using datas_replaceNode [OF _ b(2)] b by (auto simp: wf_ids_def)
  moreover have "distinct (map node_id (datas (replaceNode t b ?r)))"
    using requestTree_Inr(1) [OF r] by (simp add: wf_ids_def tree_ids_def)
  ultimately have d: "distinct (map node_id (datas ?r))" by simp
  obtain c cs where "kids bay = c # cs" using ne by (cases "kids bay") auto
  then obtain rest where "children bay = Some (c # cs)" by (auto simp: kids_def split: option.splits)
  then show False
    using d by (simp add: datas_unfold [of "Node _ _"] datas_unfold [of c])
qed

lemma splitBay_nodes:
  assumes "splitBay t b dv ids = Inr t'"
  shows "\<exists>off. exactMm (offsetMm dv) = Inr off \<and> wf_ids t' \<and>
    map omit_dims (datas t') =
      map omit_dims (concat (map (\<lambda>d. if node_id d = b then split_nodes dv ids off d else [d]) (datas t))) \<and>
    tree_ids t' = concat (map (\<lambda>i. if i = b then [id_split ids, b, id_secondBay ids] else [i]) (tree_ids t))"
proof -
  obtain bay off where bay: "selectedBay t b = Inr bay" and off: "exactMm (offsetMm dv) = Inr off"
    and r: "requestTree (replaceNode t b (Node (split_data dv ids off)
       (Some [Node (split_first (dat bay)) (children bay),
              Node (split_second (div_type dv) (id_secondBay ids) (split_first (dat bay))) (children bay)]))) = Inr t'"
    (is "requestTree (replaceNode t b ?r) = _")
    using splitBay_Inr [OF assms] by metis
  have k: "kids bay = []" by (rule splitBay_leaf [OF assms bay])
  have b: "wf_ids t" "bay \<in> set (preorder t)" "nid bay = b" using bay by (auto simp: selectedBay_Inr)
  have dr: "datas ?r = split_nodes dv ids off (dat bay)"
    using k by (simp add: datas_unfold [of "Node _ _"] split_nodes_def kids_def split: option.splits)
  have same: "d = dat bay" if "d \<in> set (datas t)" "node_id d = b" for d
    using that b by (auto simp: wf_ids_def tree_ids_def datas_def inj_on_def distinct_map)
  have "datas (replaceNode t b ?r) = concat (map (\<lambda>d. if node_id d = b then datas ?r else [d]) (datas t))"
    using datas_replace_unique [OF b(1,2) k] b(3) by simp
  also have "\<dots> = concat (map (\<lambda>d. if node_id d = b then split_nodes dv ids off d else [d]) (datas t))"
    by (rule arg_cong [of _ _ concat], rule map_cong) (auto simp: dr dest: same)
  finally have e: "datas (replaceNode t b ?r) = \<dots>" .
  have "tree_ids (replaceNode t b ?r) = concat (map (\<lambda>i. if i = b then [id_split ids, b, id_secondBay ids] else [i]) (tree_ids t))"
    unfolding tree_ids_def e by (simp add: map_concat comp_def split_nodes_def if_distrib cong: if_cong)
  then show ?thesis
    using requestTree_ids [OF r] requestTree_Inr(2) [OF r] off by (simp add: e)
qed

text \<open>
  Splitting a bay: the result is well identified, and its nodes are those of the input in order,
  with the bay replaced by the new division, the bay itself (dimensions and any stale layout
  dropped) and the new second bay; nothing else in the tree changes.
\<close>

theorem splitBay_spec:
  assumes "splitBay t b dv ids = Inr t'"
  shows "\<exists>off. exactMm (offsetMm dv) = Inr off \<and> wf_ids t' \<and>
    map omit_dims (datas t') =
      map omit_dims (concat (map (\<lambda>d. if node_id d = b then split_nodes dv ids off d else [d]) (datas t))) \<and>
    tree_ids t' = concat (map (\<lambda>i. if i = b then [id_split ids, b, id_secondBay ids] else [i]) (tree_ids t))"
  by (rule splitBay_nodes [OF assms])

lemma sample_split:
  "splitBay sample_tree ''b1'' \<lparr>div_type = SPLIT_V, offsetMm = ''300,5'', mullionSku = ''T-82''\<rparr>
     \<lparr>id_split = ''s2'', id_secondBay = ''b3''\<rparr> \<noteq> Inl e"
proof -
  have "exactMm ''300,5'' = Inr ''300.50''" by code_simp
  moreover have "trim ''T-82'' \<noteq> []" by code_simp
  ultimately show ?thesis
    using sample_bays(1) sample_wf
    by (simp add: splitBay_def walkIntent_eq requestTree_def Let_def)
      (simp add: wf_ids_def tree_ids_preorder sample_defs preorder_Node replaceNode_map split_first_def split_second_def
        omit_dims_def topIntent_def)
qed

theorem splitBay_witness:
  "\<exists>t'. splitBay sample_tree ''b1'' \<lparr>div_type = SPLIT_V, offsetMm = ''300,5'', mullionSku = ''T-82''\<rparr>
     \<lparr>id_split = ''s2'', id_secondBay = ''b3''\<rparr> = Inr t' \<and> tree_ids t' = [''root'', ''s1'', ''s2'', ''b1'', ''b3'', ''b2'']"
proof -
  obtain t' where t: "splitBay sample_tree ''b1'' \<lparr>div_type = SPLIT_V, offsetMm = ''300,5'', mullionSku = ''T-82''\<rparr>
     \<lparr>id_split = ''s2'', id_secondBay = ''b3''\<rparr> = Inr t'"
    using sample_split by (metis sum.exhaust)
  have "tree_ids sample_tree = [''root'', ''s1'', ''b1'', ''b2'']"
    by (simp add: tree_ids_preorder sample_defs preorder_Node)
  with splitBay_spec [OF t] t show ?thesis by auto
qed

section \<open>Splitting and merging back\<close>

text \<open>What the request normalisation does to a tree it accepts.\<close>

definition strip :: "IntentNode \<Rightarrow> IntentNode" where
  "strip t = (if ntype t \<noteq> ROOT then omitDimensions t
     else Node (omit_dims (dat t)) (map_option (map omitDimensions) (children t)))"

definition root_ok :: "IntentNode \<Rightarrow> bool" where
  "root_ok t \<longleftrightarrow> (ntype t = ROOT \<longrightarrow> map_option length (children t) = Some 1)"

lemma requestTree_eq:
  "requestTree t = (if wf_ids t then if root_ok t then Inr (strip t) else Inl (Error ''invalid_root'')
     else Inl (Error ''invalid_node_identity''))"
  by (auto simp: requestTree_def walkIntent_eq topIntent_def root_ok_def strip_def Let_def
      omitDimensions_def [of t] length_Suc_conv split: option.splits list.splits)

lemma omitDimensions_idem [simp]: "omitDimensions (omitDimensions n) = omitDimensions n"
  by (simp add: omitDimensions_def)

lemma nid_omitDimensions [simp]: "nid (omitDimensions n) = nid n" "ntype (omitDimensions n) = ntype n"
  "children (omitDimensions n) = children n"
  by (simp_all add: omitDimensions_def)

lemma strip_keeps [simp]: "nid (strip t) = nid t" "ntype (strip t) = ntype t"
  "map_option length (children (strip t)) = map_option length (children t)"
  by (auto simp: strip_def option.map_comp comp_def)

lemma replaceNode_omit: "omitDimensions (replaceNode (omitDimensions t) i r) = omitDimensions (replaceNode t i r)"
  by (cases t) (simp add: omitDimensions_def replaceNode_map)

lemma replaceNode_omit_ids:
  "replaceNode (omitDimensions t) i r = (if nid t = i then r else omitDimensions (replaceNode t i r))"
  by (cases t) (simp add: omitDimensions_def replaceNode_map)

lemma strip_replaceNode_strip: "strip (replaceNode (strip t) i r) = strip (replaceNode t i r)"
  by (cases t)
    (auto simp: strip_def replaceNode_map replaceNode_omit option.map_comp comp_def omitDimensions_def [of "Node _ _"])

lemma datas_strip: "map omit_dims (datas (strip t)) = map omit_dims (datas t)"
  by (cases t) (auto simp: strip_def datas_omitDimensions datas_unfold [of "Node _ _"] map_concat comp_def split: option.splits)

lemma mem_preorder_replaceNode: "n \<in> set (preorder t) \<Longrightarrow> r \<in> set (preorder (replaceNode t (nid n) r))"
proof (induction t rule: preorder.induct)
  case (1 t)
  obtain d cs where t: "t = Node d cs" by (cases t)
  show ?case
  proof (cases "nid t = nid n")
    case True
    then show ?thesis by (simp add: t replaceNode_map preorder_self)
  next
    case False
    then obtain c where c: "c \<in> set (kids t)" "n \<in> set (preorder c)" using 1(2) by (auto simp: preorder.simps [of t])
    then obtain xs where "cs = Some xs" "c \<in> set xs" by (cases cs) (auto simp: t)
    with 1(1) [OF c] False show ?thesis by (auto simp: t replaceNode_map preorder_Node)
  qed
qed

lemma replaceNode_twice:
  "nid r \<notin> set (tree_ids t) \<Longrightarrow> replaceNode (replaceNode t b r) (nid r) r' = replaceNode t b r'"
proof (induction t rule: preorder.induct)
  case (1 t)
  obtain d cs where t: "t = Node d cs" by (cases t)
  have "node_id d \<noteq> nid r" using 1(2) by (auto simp: tree_ids_unfold [of "Node _ _"] t)
  moreover have "replaceNode (replaceNode c b r) (nid r) r' = replaceNode c b r'" if "c \<in> set (kids t)" for c
    using 1 that by (auto simp: tree_ids_unfold [of t])
  ultimately show ?case
    by (cases r; cases cs) (auto simp: t replaceNode_map)
qed

lemma mem_preorder_strip:
  assumes "x \<in> set (preorder t)" "ntype x \<noteq> ROOT"
  shows "x \<in> set (preorder (strip t)) \<or> omitDimensions x \<in> set (preorder (strip t))"
proof (cases "x = t")
  case True
  then show ?thesis using assms(2) preorder_self [of "omitDimensions t"] by (simp add: strip_def)
next
  case False
  then obtain c where c: "c \<in> set (kids t)" "x \<in> set (preorder c)"
    using assms(1) by (auto simp: preorder.simps [of t])
  have o: "preorder (omitDimensions n) = omitDimensions n # concat (map preorder (kids n))" for n
    by (simp add: preorder.simps [of "omitDimensions n"] kids_def)
  show ?thesis
  proof (cases "ntype t = ROOT")
    case True
    then have "kids (strip t) = map omitDimensions (kids t)"
      by (auto simp: strip_def kids_def split: option.splits)
    moreover have "x = c \<or> x \<in> set (concat (map preorder (kids c)))" using c(2) by (simp add: preorder.simps [of c])
    ultimately show ?thesis using c(1) by (auto simp: preorder.simps [of "strip t"] o)
  next
    case False
    then show ?thesis using c by (auto simp: strip_def o)
  qed
qed

lemma requestTree_replace_strip: "requestTree (replaceNode (strip t) i r) = requestTree (replaceNode t i r)"
proof -
  have s: "strip (replaceNode (strip t) i r) = strip (replaceNode t i r)" by (rule strip_replaceNode_strip)
  have "tree_ids (replaceNode (strip t) i r) = tree_ids (replaceNode t i r)"
    unfolding tree_ids_def by (rule map_omit_dims_id) (metis datas_strip s)
  then have "wf_ids (replaceNode (strip t) i r) = wf_ids (replaceNode t i r)" by (simp add: wf_ids_def)
  moreover have "root_ok (replaceNode (strip t) i r) = root_ok (replaceNode t i r)"
    using arg_cong [OF s, of ntype] arg_cong [OF s, of "\<lambda>x. map_option length (children x)"]
    by (simp add: root_ok_def)
  ultimately show ?thesis by (simp add: requestTree_eq s)
qed

lemma preorder_inj:
  "distinct (tree_ids t) \<Longrightarrow> m \<in> set (preorder t) \<Longrightarrow> n \<in> set (preorder t) \<Longrightarrow> nid m = nid n \<Longrightarrow> m = n"
  by (auto simp: tree_ids_preorder distinct_map inj_on_def)

lemma replaceNode_id:
  assumes "distinct (tree_ids t)" "n \<in> set (preorder t)"
  shows "replaceNode t (nid n) n = t"
  using assms
proof (induction t rule: preorder.induct)
  case (1 t)
  obtain d cs where t: "t = Node d cs" by (cases t)
  have child: "replaceNode c (nid n) n = c" if c: "c \<in> set (kids t)" for c
  proof (cases "nid n \<in> set (tree_ids c)")
    case True
    then obtain m where m: "m \<in> set (preorder c)" "nid m = nid n" by (auto simp: tree_ids_preorder)
    then have "m \<in> set (preorder t)" using c by (auto simp: preorder.simps [of t])
    then have "n \<in> set (preorder c)" using preorder_inj [OF 1(2) _ 1(3)] m by blast
    moreover have "distinct (tree_ids c)" using 1(2) c by (auto simp: tree_ids_unfold [of t] distinct_concat_iff)
    ultimately show ?thesis using 1(1) [OF c] by blast
  qed (rule replaceNode_other)
  have "n = t" if "nid t = nid n" using preorder_inj [OF 1(2) 1(3) preorder_self] that by simp
  then show ?case using child by (cases cs) (auto simp: t replaceNode_map map_idI)
qed

lemma split_then_remove:
  assumes "splitBay t b dv ids = Inr t'" "selectedBay t b = Inr bay"
  shows "removeDivision t' (id_split ids) None =
      requestTree (replaceNode t b (Node (split_first (dat bay)) (children bay))) \<and>
    (split_first (dat bay) = dat bay \<longrightarrow> removeDivision t' (id_split ids) None = requestTree t)"
proof -
  obtain off where sp: "div_type dv = SPLIT_V \<or> div_type dv = SPLIT_H"
    and fresh: "id_split ids \<notin> set (tree_ids t)"
    and r: "requestTree (replaceNode t b (Node (split_data dv ids off)
       (Some [Node (split_first (dat bay)) (children bay),
              Node (split_second (div_type dv) (id_secondBay ids) (split_first (dat bay))) (children bay)]))) = Inr t'"
    (is "requestTree (replaceNode t b ?r) = _")
    using splitBay_Inr [OF assms(1)] assms(2) by (metis Inr_inject)
  have b: "wf_ids t" "bay \<in> set (preorder t)" "nid bay = b" "ntype bay = BAY" using assms(2) by (auto simp: selectedBay_Inr)
  have t': "t' = strip (replaceNode t b ?r)" using r by (simp add: requestTree_eq split: if_splits)
  have od: "omit_dims (split_data dv ids off) = split_data dv ids off"
    by (simp add: split_data_def omit_dims_def new_node_def no_fields_def NodeFields.defs)
  have "?r \<in> set (preorder (replaceNode t b ?r))" using mem_preorder_replaceNode [OF b(2)] b(3) by simp
  from mem_preorder_strip [OF this] have "?r \<in> set (preorder t')"
    using sp od by (auto simp: t' omitDimensions_def)
  then have f: "findNode t' (id_split ids) = Inr (Some ?r)"
    using requestTree_ids [OF r] find_preorder [of t' ?r] by (simp add: findNode_eq)
  have "removeDivision t' (id_split ids) None =
      requestTree (replaceNode t' (id_split ids) (Node (split_first (dat bay)) (children bay)))"
    using f sp b(4) by (auto simp: removeDivision_def is_split_def)
  also have "\<dots> = requestTree (replaceNode (replaceNode t b ?r) (id_split ids) (Node (split_first (dat bay)) (children bay)))"
    unfolding t' by (rule requestTree_replace_strip)
  also have "\<dots> = requestTree (replaceNode t b (Node (split_first (dat bay)) (children bay)))"
    using replaceNode_twice [of ?r t b] fresh by simp
  finally have main: "removeDivision t' (id_split ids) None = \<dots>" .
  have "Node (dat bay) (children bay) = bay" by simp
  then show ?thesis using main replaceNode_id [OF _ b(2)] b(1,3) by (simp add: wf_ids_def)
qed

lemma root_ok_replace:
  assumes "wf_ids t" "bay \<in> set (preorder t)" "nid bay = b" "ntype bay = BAY" "root_ok (replaceNode t b r)"
  shows "root_ok t"
proof (cases "nid t = b")
  case True
  then have "t = bay" using preorder_inj [OF _ preorder_self assms(2)] assms(1,3) by (simp add: wf_ids_def)
  then show ?thesis using assms(4) by (simp add: root_ok_def)
next
  case False
  then show ?thesis using assms(5) by (cases t) (auto simp: root_ok_def replaceNode_map option.map_comp comp_def)
qed

lemma split_first_members:
  "split_first d = (case sliding_layout d of
     Val _ \<Rightarrow> d\<lparr>width_mm := Undef, height_mm := Undef, sliding_layout := Undef,
       opening_type := (if opening_type d = Val O_SLIDING then Val O_SLIDING_2L else opening_type d)\<rparr>
   | _ \<Rightarrow> d\<lparr>width_mm := Undef, height_mm := Undef\<rparr>)"
  by (cases "sliding_layout d") (simp_all add: split_first_def omit_dims_def Let_def)

text \<open>
  C10. Removing a division right after making it always succeeds and gives back the tree with the bay that was divided, every member of
  the bay as it was, except that its width and height go and that a declared sliding layout goes too, with an opening \<open>SLIDING\<close>
  becoming the two-leaf one. So a bay that declared no dimensions and no layout is back exactly, in the normalised tree.
\<close>

theorem splitBay_removeDivision:
  assumes "splitBay t b dv ids = Inr t'" "selectedBay t b = Inr bay"
  shows "\<exists>t''. removeDivision t' (id_split ids) None = Inr t'' \<and>
    requestTree (replaceNode t b (Node
      (case sliding_layout (dat bay) of
         Val _ \<Rightarrow> (dat bay)\<lparr>width_mm := Undef, height_mm := Undef, sliding_layout := Undef,
           opening_type := (if opening_type (dat bay) = Val O_SLIDING then Val O_SLIDING_2L else opening_type (dat bay))\<rparr>
       | _ \<Rightarrow> (dat bay)\<lparr>width_mm := Undef, height_mm := Undef\<rparr>)
      (children bay))) = Inr t'' \<and>
    (width_mm (dat bay) = Undef \<and> height_mm (dat bay) = Undef \<and> (\<forall>l. sliding_layout (dat bay) \<noteq> Val l) \<longrightarrow> requestTree t = Inr t'')"
proof -
  have b: "wf_ids t" "bay \<in> set (preorder t)" "nid bay = b" "ntype bay = BAY" using assms(2) by (auto simp: selectedBay_Inr)
  let ?d = "split_first (dat bay)"
  obtain off where "requestTree (replaceNode t b (Node (split_data dv ids off)
       (Some [Node ?d (children bay), Node (split_second (div_type dv) (id_secondBay ids) ?d) (children bay)]))) = Inr t'"
    using splitBay_Inr [OF assms(1)] assms(2) by (metis Inr_inject)
  then have "root_ok t" using root_ok_replace [OF b] by (simp add: requestTree_eq split: if_splits)
  moreover have "node_id ?d = b" "node_type ?d = ntype bay" using b(3) by (simp_all add: split_first_def omit_dims_def Let_def split: field.split)
  note replaceNode_root [OF b(1,2,3) this]
  ultimately obtain t'' where "requestTree (replaceNode t b (Node ?d (children bay))) = Inr t''"
    by (simp add: requestTree_eq root_ok_def)
  moreover have "?d = dat bay" if "width_mm (dat bay) = Undef \<and> height_mm (dat bay) = Undef \<and> (\<forall>l. sliding_layout (dat bay) \<noteq> Val l)"
    using that by (cases "sliding_layout (dat bay)") (simp_all add: split_first_members)
  ultimately show ?thesis using split_then_remove [OF assms] unfolding split_first_members by auto
qed

theorem splitBay_removeDivision_witness:
  "\<exists>t'. splitBay sample_tree ''b1'' \<lparr>div_type = SPLIT_V, offsetMm = ''300,5'', mullionSku = ''T-82''\<rparr>
     \<lparr>id_split = ''s2'', id_secondBay = ''b3''\<rparr> = Inr t' \<and> removeDivision t' ''s2'' None = Inr sample_tree"
proof -
  obtain t' where t: "splitBay sample_tree ''b1'' \<lparr>div_type = SPLIT_V, offsetMm = ''300,5'', mullionSku = ''T-82''\<rparr>
     \<lparr>id_split = ''s2'', id_secondBay = ''b3''\<rparr> = Inr t'"
    using sample_split by (metis sum.exhaust)
  have "width_mm (dat (sample_bay ''b1'' O_TURN_LEFT)) = Undef" "height_mm (dat (sample_bay ''b1'' O_TURN_LEFT)) = Undef"
    "sliding_layout (dat (sample_bay ''b1'' O_TURN_LEFT)) = Undef"
    by (simp_all add: sample_defs)
  moreover have "requestTree sample_tree = Inr sample_tree"
    using sample_wf by (simp add: requestTree_eq)
      (simp add: root_ok_def strip_def sample_defs omitDimensions_def omit_dims_def)
  ultimately show ?thesis using splitBay_removeDivision [OF t sample_bays(1)] t by auto
qed

lemma spread_or_null [simp]: "spread a (or_null b) = or_null b"
  by (cases b) (simp_all add: or_null_def)

lemma pasted_members:
  assumes "selectedBay t src = Inr source"
  shows "nullish (opening_type d) \<and> nullish (node_opening d) \<Longrightarrow>
      opening_type (pasted t src d) = or_null (opening_type (dat source)) \<and>
      node_opening (pasted t src d) = or_null (node_opening (dat source))"
    and "\<not> (nullish (opening_type d) \<and> nullish (node_opening d)) \<Longrightarrow>
      opening_type (pasted t src d) = opening_type d \<and> node_opening (pasted t src d) = node_opening d \<and>
      door_handedness (pasted t src d) = door_handedness d \<and> sliding_layout (pasted t src d) = sliding_layout d"
    and "glass_spec (pasted t src d) = or_null (glass_spec (dat source))"
    and "glass_product (pasted t src d) = or_null (glass_product (dat source))"
    and "hardware_set_sku (pasted t src d) = or_null (hardware_set_sku (dat source))"
  using assms by (auto simp: pasted_def patch_fields_def baySpec_def delete_opening_spec_def no_fields_def Let_def)

text \<open>
  Pasting a bay's specification: only the target changes, it keeps its identity and type, and a
  target that already declares an opening keeps every opening member while the infill and
  hardware members follow the source, with undeclared source members clearing the target's.
\<close>

lemma applyBaySpec_spec:
  assumes "applyBaySpec t src tgt = Inr t'"
  shows "\<exists>source target. selectedBay t src = Inr source \<and> selectedBay t tgt = Inr target \<and>
    wf_ids t' \<and> tree_ids t' = tree_ids t \<and>
    (\<forall>d \<in> set (datas t). node_id d \<noteq> tgt \<longrightarrow> omit_dims d \<in> omit_dims ` set (datas t')) \<and>
    (\<exists>d \<in> set (datas t'). node_id d = tgt \<and> node_type d = BAY \<and>
       (if nullish (opening_type (dat target)) \<and> nullish (node_opening (dat target))
        then opening_type d = or_null (opening_type (dat source)) \<and> node_opening d = or_null (node_opening (dat source))
        else opening_type d = opening_type (dat target) \<and> node_opening d = node_opening (dat target)
          \<and> door_handedness d = door_handedness (dat target) \<and> sliding_layout d = sliding_layout (dat target)) \<and>
       glass_spec d = or_null (glass_spec (dat source)) \<and> glass_product d = or_null (glass_product (dat source)) \<and>
       hardware_set_sku d = or_null (hardware_set_sku (dat source)))"
proof -
  obtain source target where st: "selectedBay t src = Inr source" "selectedBay t tgt = Inr target"
    using assms by (auto simp: applyBaySpec_def split: sum.splits)
  note e = apply_bay_spec.edit_Inr [of t "(src, tgt)" t', simplified, OF assms]
  have tg: "dat target \<in> set (datas t)" "nid target = tgt" "ntype target = BAY"
    using st(2) by (auto simp: selectedBay_Inr datas_def)
  have "omit_dims ` set (datas t') = set (set_data tgt (pasted t src) (datas t))"
    using e by (metis set_map)
  then have im: "omit_dims ` set (datas t') = (\<lambda>d. omit_dims (if node_id d = tgt then pasted t src d else d)) ` set (datas t)"
    by (simp add: set_data_def)
  have "omit_dims (pasted t src (dat target)) \<in> omit_dims ` set (datas t')"
    unfolding im using tg by (intro image_eqI [OF _ tg(1)]) simp
  then obtain d where d: "d \<in> set (datas t')" "omit_dims d = omit_dims (pasted t src (dat target))" by auto
  have f: "f d = f (pasted t src (dat target))" if "\<And>x. f (omit_dims x) = f x" for f :: "NodeData \<Rightarrow> 'b"
    using that [of d] that [of "pasted t src (dat target)"] d(2) by simp
  have "\<forall>x \<in> set (datas t). node_id x \<noteq> tgt \<longrightarrow> omit_dims x \<in> omit_dims ` set (datas t')"
    unfolding im by auto
  moreover have "node_id d = tgt" "node_type d = BAY"
    using f [of node_id] f [of node_type] tg by (simp_all add: pasted_def st)
  moreover have "opening_type d = opening_type (pasted t src (dat target))"
    "node_opening d = node_opening (pasted t src (dat target))"
    "door_handedness d = door_handedness (pasted t src (dat target))"
    "sliding_layout d = sliding_layout (pasted t src (dat target))"
    "glass_spec d = glass_spec (pasted t src (dat target))"
    "glass_product d = glass_product (pasted t src (dat target))"
    "hardware_set_sku d = hardware_set_sku (pasted t src (dat target))"
    by (rule f, simp add: omit_dims_def)+
  ultimately show ?thesis
    using st e d(1) pasted_members [OF st(1), of "dat target"]
    by (intro exI [of _ source] exI [of _ target] conjI bexI [of _ d]) simp_all
qed

lemma applyBaySpec_witness:
  "\<exists>t'. applyBaySpec sample_tree ''b1'' ''b2'' = Inr t' \<and> wf_ids t' \<and> tree_ids t' = tree_ids sample_tree"
proof -
  have b: "selectedBay sample_tree ''b2'' = Inr (sample_bay ''b2'' O_FIXED)"
    using sample_wf by (simp add: selectedBay_Inr) (simp add: sample_defs preorder_Node)
  have "\<exists>t'. applyBaySpec sample_tree ''b1'' ''b2'' = Inr t'"
    using sample_wf by (simp add: applyBaySpec_def sample_bays b requestTree_eq Let_def)
      (simp add: sample_defs wf_ids_def tree_ids_preorder preorder_Node replaceNode_map root_ok_def)
  then show ?thesis using applyBaySpec_spec by blast
qed

end
