(* ===== verification/AssemblyGraph.thy ===== *)
theory AssemblyGraph
  imports Intent
begin

text \<open>
  The product model of \<open>features/canvas/productEditing.ts\<close> (types) and the structural-edit layer
  \<open>features/canvas/assemblyGraph.ts\<close>: resolution of couplings, the coupling graph, the union-find of
  its components, the link guard and the three graph edits. The constant \<open>version\<close> tag and the
  \<open>assembly\<close> nesting of \<open>ProductJson\<close> are flattened into one record.
\<close>

section \<open>Data\<close>

datatype GraphEdge = E_left | E_right | E_top | E_bottom

datatype CouplingKind = INLINE | STACKED | TEE | CORNER

record CouplingJson =
  c_id :: string
  angle_deg :: string
  coupler_profile_sku :: "string option"
  kind :: "CouplingKind option"
  c_modules :: "(string \<times> string) option"
  c_edges :: "(GraphEdge \<times> GraphEdge) option"

record ContourVertex =
  x_mm :: string
  y_mm :: string

record ContourJson =
  vertices :: "ContourVertex list"
  bulges :: "string option list"

datatype SupportKind = CHANNEL | CLAMPS

record FramelessSupportJson =
  support_kind :: SupportKind
  support_edge :: GraphEdge
  article_sku :: string
  support_qty :: nat

datatype FittingKind = PATCH_FITTING | CLAMP | HINGE | LOCK | CONNECTOR | SEAL | SUPPORT

record FramelessFittingJson =
  fitting_kind :: FittingKind
  fitting_sku :: string
  fitting_qty :: nat

record FramelessSpecJson =
  supports :: "FramelessSupportJson list"
  fittings :: "FramelessFittingJson list"
  exposed_edges :: "GraphEdge list option"

record ProductModuleJson =
  m_id :: string
  m_width_mm :: string
  m_height_mm :: string
  tree :: IntentNode
  contour :: "ContourJson option"
  frameless :: "FramelessSpecJson option"

record ProductJson =
  modules :: "ProductModuleJson list"
  couplings :: "CouplingJson list"

abbreviation module_ids :: "ProductJson \<Rightarrow> string list" where
  "module_ids p \<equiv> map m_id (modules p)"

abbreviation coupling_ids :: "ProductJson \<Rightarrow> string list" where
  "coupling_ids p \<equiv> map c_id (couplings p)"

text \<open>\<open>modules.find((item) => item.id === moduleId)\<close>.\<close>

definition find_module :: "ProductJson \<Rightarrow> string \<Rightarrow> ProductModuleJson option" where
  "find_module p i = List.find (\<lambda>m. m_id m = i) (modules p)"

text \<open>\<open>new Map(modules.map((module) => [module.id, module])).get(id)\<close>.\<close>

definition byId :: "ProductModuleJson list \<Rightarrow> string \<Rightarrow> ProductModuleJson option" where
  "byId ms i = map_of (map_new (map (\<lambda>m. (m_id m, m)) ms)) i"

text \<open>\<open>new Map(modules.map((module, index) => [module.id, index])).get(id) ?? -1\<close>.\<close>

definition order_of :: "ProductModuleJson list \<Rightarrow> string \<Rightarrow> int" where
  "order_of ms i = (case map_of (map_new (map (\<lambda>(k, m). (m_id m, k)) (entries ms))) i of
     None \<Rightarrow> - 1 | Some k \<Rightarrow> int k)"

section \<open>Resolution of couplings\<close>

record ResolvedCoupling =
  r_coupling :: CouplingJson
  r_index :: nat
  r_pair :: "string \<times> string"
  r_edges :: "GraphEdge \<times> GraphEdge"
  r_kind :: CouplingKind

definition POSITIONAL_EDGES :: "GraphEdge \<times> GraphEdge" where
  "POSITIONAL_EDGES = (E_right, E_left)"

definition positional_pair :: "ProductModuleJson list \<Rightarrow> nat \<Rightarrow> (string \<times> string) option" where
  "positional_pair ms index =
     (case (nth_opt ms index, nth_opt ms (index + 1)) of
        (Some a, Some b) \<Rightarrow> Some (m_id a, m_id b) | _ \<Rightarrow> None)"

definition resolve_one :: "ProductModuleJson list \<Rightarrow> nat \<Rightarrow> CouplingJson \<Rightarrow> ResolvedCoupling option" where
  "resolve_one ms index c =
     (case (case c_modules c of Some pr \<Rightarrow> Some pr | None \<Rightarrow> positional_pair ms index) of
        None \<Rightarrow> None
      | Some pr \<Rightarrow> Some \<lparr>r_coupling = c, r_index = index, r_pair = pr,
          r_edges = (case c_edges c of Some es \<Rightarrow> es
            | None \<Rightarrow> if kind c = Some INLINE \<or> kind c = None then POSITIONAL_EDGES else (E_top, E_bottom)),
          r_kind = (case kind c of Some k \<Rightarrow> k | None \<Rightarrow> INLINE)\<rparr>)"

definition resolveCouplings :: "ProductJson \<Rightarrow> ResolvedCoupling list" where
  "resolveCouplings p = List.map_filter (\<lambda>(i, c). resolve_one (modules p) i c) (entries (couplings p))"

definition incidentCouplings :: "ProductJson \<Rightarrow> string \<Rightarrow> ResolvedCoupling list" where
  "incidentCouplings p i = filter (\<lambda>r. fst (r_pair r) = i \<or> snd (r_pair r) = i) (resolveCouplings p)"

definition incidentEdge :: "ResolvedCoupling \<Rightarrow> string \<Rightarrow> GraphEdge option" where
  "incidentEdge r i =
     (if fst (r_pair r) = i then Some (fst (r_edges r))
      else if snd (r_pair r) = i then Some (snd (r_edges r)) else None)"

definition usedEdges :: "ProductJson \<Rightarrow> string \<Rightarrow> GraphEdge set" where
  "usedEdges p i = set (List.map_filter (\<lambda>r. incidentEdge r i) (incidentCouplings p i))"

section \<open>Connected components\<close>

text \<open>\<open>find\<close> of \<open>connectedComponents\<close>, threading the \<open>parent\<close> map; \<open>None\<close> is a run that does not return.\<close>

partial_function (option) uf_find ::
  "(string \<times> string) list \<Rightarrow> string \<Rightarrow> ((string \<times> string) list \<times> string) option" where
  "uf_find parent i =
     (let root = (case map_of parent i of None \<Rightarrow> i | Some q \<Rightarrow> q)
      in if root \<noteq> i then
           Option.bind (uf_find parent root) (\<lambda>(parent', r). Some (AList.update i r parent', r))
         else Some (parent, root))"

definition uf_union :: "(string \<times> string) list \<Rightarrow> string \<times> string \<Rightarrow> (string \<times> string) list option" where
  "uf_union parent pr =
     Option.bind (uf_find parent (fst pr)) (\<lambda>(parent1, ra).
     Option.bind (uf_find parent1 (snd pr)) (\<lambda>(parent2, rb).
       Some (if ra \<noteq> rb then AList.update ra rb parent2 else parent2)))"

fun uf_unions :: "(string \<times> string) list \<Rightarrow> (string \<times> string) list \<Rightarrow> (string \<times> string) list option" where
  "uf_unions parent [] = Some parent"
| "uf_unions parent (pr # prs) = Option.bind (uf_union parent pr) (\<lambda>parent'. uf_unions parent' prs)"

fun by_root :: "(string \<times> string) list \<Rightarrow> (string \<times> string list) list \<Rightarrow> string list \<Rightarrow> (string \<times> string list) list option" where
  "by_root parent byRoot [] = Some byRoot"
| "by_root parent byRoot (i # ids) =
     Option.bind (uf_find parent i) (\<lambda>(parent', root).
       by_root parent' (AList.update root ((case map_of byRoot root of None \<Rightarrow> [] | Some l \<Rightarrow> l) @ [i]) byRoot) ids)"

definition connectedComponents :: "ProductJson \<Rightarrow> string list list option" where
  "connectedComponents p =
     Option.bind (uf_unions [] (map r_pair (resolveCouplings p))) (\<lambda>parent.
       map_option map_values (by_root parent [] (module_ids p)))"

text \<open>A run of \<open>connectedComponents\<close> always returns (see \<open>GraphFacts\<close>), so the \<open>None\<close> case is never taken.\<close>

definition wouldCloseCycle :: "ProductJson \<Rightarrow> string \<Rightarrow> string \<Rightarrow> bool" where
  "wouldCloseCycle p a b =
     (case connectedComponents p of None \<Rightarrow> False
      | Some comps \<Rightarrow> list_ex (\<lambda>component. a \<in> set component \<and> b \<in> set component) comps)"

definition alreadyJoined :: "ProductJson \<Rightarrow> string \<Rightarrow> string \<Rightarrow> bool" where
  "alreadyJoined p a b = list_ex (\<lambda>r. r_pair r = (a, b) \<or> r_pair r = (b, a)) (resolveCouplings p)"

fun kindEdges :: "CouplingKind \<Rightarrow> GraphEdge set" where
  "kindEdges INLINE = {E_left, E_right}"
| "kindEdges CORNER = {E_left, E_right, E_top, E_bottom}"
| "kindEdges _ = {E_top, E_bottom}"

definition isStackedMember :: "ProductJson \<Rightarrow> string \<Rightarrow> bool" where
  "isStackedMember p i =
     list_ex (\<lambda>r. r_kind r = STACKED \<and> incidentEdge r i = Some E_bottom) (incidentCouplings p i)"

definition chainEndCandidates :: "ProductJson \<Rightarrow> GraphEdge \<Rightarrow> ProductModuleJson list" where
  "chainEndCandidates p sd = filter (\<lambda>m. sd \<notin> usedEdges p (m_id m)) (modules p)"

definition chainEnd :: "ProductJson \<Rightarrow> GraphEdge \<Rightarrow> ProductModuleJson option" where
  "chainEnd p sd =
     (let candidates = chainEndCandidates p sd;
          roots = filter (\<lambda>m. \<not> isStackedMember p (m_id m)) candidates;
          preferred = (if length roots > 0 then roots else candidates)
      in if sd = E_right then last_opt preferred else first_opt preferred)"

section \<open>Graph edits\<close>

definition modulesOrdered :: "ProductJson \<Rightarrow> string \<Rightarrow> string \<Rightarrow> string \<times> string" where
  "modulesOrdered p a b = (if order_of (modules p) a \<le> order_of (modules p) b then (a, b) else (b, a))"

definition shaped :: "ProductModuleJson \<Rightarrow> bool" where
  "shaped m \<longleftrightarrow> contour m \<noteq> None \<or> frameless m \<noteq> None"

definition canLink :: "ProductJson \<Rightarrow> string \<Rightarrow> GraphEdge \<Rightarrow> string \<Rightarrow> GraphEdge \<Rightarrow> CouplingKind \<Rightarrow> bool" where
  "canLink p a aEdge b bEdge k =
     (if a = b then False
      else case (byId (modules p) a, byId (modules p) b) of
        (Some modA, Some modB) \<Rightarrow>
          if aEdge \<notin> kindEdges k \<or> bEdge \<notin> kindEdges k then False
          else if shaped modA \<or> shaped modB then False
          else if aEdge \<in> usedEdges p a \<or> bEdge \<in> usedEdges p b then False
          else if alreadyJoined p a b then False
          else if wouldCloseCycle p a b then False
          else True
      | _ \<Rightarrow> False)"

text \<open>The first free index of \<open>while (used.has(`${base}${index}`)) index += 1\<close>.\<close>

lemma nat_str_inj: "base @ nat_str i = base @ nat_str j \<Longrightarrow> i = j"
  using dec_str_inj by force

lemma finite_used_indices: "finite {j. base @ nat_str j \<in> set used}"
proof (rule finite_imageD [of "\<lambda>j. base @ nat_str j"])
  show "finite ((\<lambda>j. base @ nat_str j) ` {j. base @ nat_str j \<in> set used})"
    by (rule finite_subset [of _ "set used"]) auto
  show "inj_on (\<lambda>j. base @ nat_str j) {j. base @ nat_str j \<in> set used}"
    using nat_str_inj by (auto intro: inj_onI)
qed

function fresh_index :: "string \<Rightarrow> string list \<Rightarrow> nat \<Rightarrow> nat" where
  "fresh_index base used index =
     (if base @ nat_str index \<in> set used then fresh_index base used (index + 1) else index)"
  by pat_completeness auto
termination
proof (relation "measure (\<lambda>(base, used, index). card {j. index \<le> j \<and> base @ nat_str j \<in> set used})")
  fix base used and index :: nat
  assume u: "base @ nat_str index \<in> set used"
  have fin: "finite {j. index \<le> j \<and> base @ nat_str j \<in> set used}"
    by (rule finite_subset [OF _ finite_used_indices [of base used]]) auto
  have "{j. index + 1 \<le> j \<and> base @ nat_str j \<in> set used} \<subset> {j. index \<le> j \<and> base @ nat_str j \<in> set used}"
  proof
    show "{j. index + 1 \<le> j \<and> base @ nat_str j \<in> set used} \<noteq> {j. index \<le> j \<and> base @ nat_str j \<in> set used}"
      using u by (auto simp: set_eq_iff intro!: exI [of _ index])
  qed auto
  then show "((base, used, index + 1), base, used, index) \<in>
      measure (\<lambda>(base, used, index). card {j. index \<le> j \<and> base @ nat_str j \<in> set used})"
    using psubset_card_mono [OF fin] by simp
qed simp

declare fresh_index.simps [simp del]

definition fresh_name :: "string \<Rightarrow> string list \<Rightarrow> nat \<Rightarrow> string" where
  "fresh_name base used start = base @ nat_str (fresh_index base used start)"

record LinkOptions =
  opt_id :: "string option"
  opt_angleDeg :: "string option"
  opt_couplerSku :: "string field"

definition no_options :: LinkOptions where
  "no_options = \<lparr>opt_id = None, opt_angleDeg = None, opt_couplerSku = Undef\<rparr>"

definition linkModules :: "ProductJson \<Rightarrow> string \<Rightarrow> GraphEdge \<Rightarrow> string \<Rightarrow> GraphEdge \<Rightarrow> CouplingKind \<Rightarrow>
    LinkOptions \<Rightarrow> ProductJson option" where
  "linkModules p a aEdge b bEdge k opts =
     (if \<not> canLink p a aEdge b bEdge k then None
      else let (first, second) = modulesOrdered p a b;
               coupling = \<lparr>
                 c_id = (case opt_id opts of Some i \<Rightarrow> i
                   | None \<Rightarrow> fresh_name ''c'' (coupling_ids p) (length (couplings p) + 1)),
                 angle_deg = (case opt_angleDeg opts of Some d \<Rightarrow> d | None \<Rightarrow> ''0.0''),
                 coupler_profile_sku = field_opt (opt_couplerSku opts),
                 kind = Some k,
                 c_modules = Some (first, second),
                 c_edges = Some (if first = a then aEdge else bEdge, if first = a then bEdge else aEdge)\<rparr>
           in Some (p\<lparr>couplings := couplings p @ [coupling]\<rparr>))"

definition moveModule :: "ProductJson \<Rightarrow> string \<Rightarrow> jsnum \<Rightarrow> ProductJson option" where
  "moveModule p moduleId toIndex =
     (case findIndex (\<lambda>m. m_id m = moduleId) (modules p) of
        None \<Rightarrow> None
      | Some from' \<Rightarrow>
          (let to' = js_trunc toIndex
           in if js_eq to' (Fin (of_nat from')) \<or> js_lt to' (Fin 0)
                \<or> js_le (Fin (of_nat (length (modules p)))) to' then None
              else let moved = modules p ! from';
                       next' = Prelude.splice from' 1 [] (modules p);
                       position = (case to' of Fin q \<Rightarrow> nat \<lfloor>q\<rfloor> | _ \<Rightarrow> 0)
                   in Some (p\<lparr>modules := Prelude.splice position 0 [moved] next'\<rparr>)))"

definition unlinkCoupling :: "ProductJson \<Rightarrow> string \<Rightarrow> ProductJson option" where
  "unlinkCoupling p couplingId =
     (if \<not> list_ex (\<lambda>c. c_id c = couplingId) (couplings p) then None
      else Some (p\<lparr>couplings := filter (\<lambda>c. c_id c \<noteq> couplingId) (couplings p)\<rparr>))"

end
