(* ===== verification/GraphFacts.thy ===== *)
theory GraphFacts
  imports AssemblyGraph
begin

text \<open>
  Facts about the coupling graph. The union-find of \<open>connectedComponents\<close> always returns and its
  components are the classes of the connectivity relation; the structural invariant of an assembly
  (\<open>wf_product\<close>) and the laws every coupling set obeys when couplings are added, removed or
  materialised.
\<close>

section \<open>Connectivity\<close>

definition conn :: "(string \<times> string) set \<Rightarrow> (string \<times> string) set" where
  "conn E = (E \<union> E\<inverse>)\<^sup>*"

lemma conn_refl [simp]: "(x, x) \<in> conn E"
  by (simp add: conn_def)

lemma conn_edge: "(a, b) \<in> E \<Longrightarrow> (a, b) \<in> conn E"
  by (auto simp: conn_def)

lemma conn_trans: "(x, y) \<in> conn E \<Longrightarrow> (y, z) \<in> conn E \<Longrightarrow> (x, z) \<in> conn E"
  unfolding conn_def by (rule rtrancl_trans)

lemma conn_sym: "(x, y) \<in> conn E \<Longrightarrow> (y, x) \<in> conn E"
proof -
  have "sym (conn E)" unfolding conn_def by (rule sym_rtrancl) (auto simp: sym_def)
  then show "(x, y) \<in> conn E \<Longrightarrow> (y, x) \<in> conn E" by (rule symD)
qed

lemma conn_mono: "E \<subseteq> F \<Longrightarrow> conn E \<subseteq> conn F"
  unfolding conn_def by (rule rtrancl_mono) auto

lemma conn_insert:
  "(x, y) \<in> conn (insert (a, b) E) \<longleftrightarrow>
     (x, y) \<in> conn E \<or> (x, a) \<in> conn E \<and> (b, y) \<in> conn E \<or> (x, b) \<in> conn E \<and> (a, y) \<in> conn E"
  (is "?L \<longleftrightarrow> ?R x y")
proof
  assume ?L
  then show "?R x y"
    unfolding conn_def [of "insert (a, b) E"]
  proof (induction rule: rtrancl_induct)
    case (step y z)
    then have "(y, z) \<in> conn E \<or> (y, z) = (a, b) \<or> (y, z) = (b, a)"
      by (auto intro: conn_edge conn_sym)
    with step.IH show ?case by (auto intro: conn_trans)
  qed simp
next
  have m: "conn E \<subseteq> conn (insert (a, b) E)" by (rule conn_mono) auto
  have ab: "(a, b) \<in> conn (insert (a, b) E)" by (auto intro: conn_edge)
  assume "?R x y"
  then show ?L using m ab conn_sym [OF ab] by (blast intro: conn_trans)
qed

lemma conn_empty [simp]: "(x, y) \<in> conn {} \<longleftrightarrow> x = y"
  by (simp add: conn_def)

lemma conn_fresh:
  assumes "(x, y) \<in> conn E" "x \<noteq> y" shows "x \<in> fst ` E \<union> snd ` E"
  using assms unfolding conn_def by (induction rule: converse_rtrancl_induct) force+

section \<open>The union-find\<close>

text \<open>\<open>rep parent x r\<close>: following the parent entries from \<open>x\<close> ends in the root \<open>r\<close>.\<close>

inductive rep :: "(string \<rightharpoonup> string) \<Rightarrow> string \<Rightarrow> string \<Rightarrow> bool" for m where
  root: "m x = None \<or> m x = Some x \<Longrightarrow> rep m x x"
| link: "m x = Some y \<Longrightarrow> y \<noteq> x \<Longrightarrow> rep m y r \<Longrightarrow> rep m x r"

inductive_simps rep_root_simp: "rep m x x"

lemma rep_fun: "rep m x r \<Longrightarrow> rep m x s \<Longrightarrow> r = s"
proof (induction arbitrary: s rule: rep.induct)
  case (root x)
  from root(2) show ?case by cases (use root in auto)
next
  case (link x y r)
  have "rep m y s" using link.prems link.hyps(1,2) by (cases rule: rep.cases) simp_all
  then show ?case by (rule link.IH)
qed

lemma root_eq: "rep m x a \<Longrightarrow> rep m y b \<Longrightarrow> (\<exists>r. rep m x r \<and> rep m y r) \<longleftrightarrow> a = b"
  using rep_fun by blast

lemma rep_root: "rep m x r \<Longrightarrow> m r = None \<or> m r = Some r"
  by (induction rule: rep.induct) auto

definition forest :: "(string \<rightharpoonup> string) \<Rightarrow> bool" where
  "forest m \<longleftrightarrow> (\<forall>x. \<exists>r. rep m x r)"

lemma rep_compress_imp:
  assumes "rep m x r" "rep m y s"
  shows "rep (m(x \<mapsto> r)) y s"
  using assms(2)
proof (induction rule: rep.induct)
  case (root z)
  show ?case
  proof (cases "z = x")
    case True
    then have "r = z" using rep_fun [OF assms(1)] rep.root [of m z] root by simp
    then show ?thesis using True by (auto intro: rep.root)
  qed (use root in \<open>auto intro: rep.root\<close>)
next
  case (link z y s)
  show ?case
  proof (cases "z = x")
    case True
    have "rep m x s" using link True by (auto intro: rep.link)
    then have rs: "r = s" using assms(1) rep_fun by blast
    have root: "rep (m(x \<mapsto> r)) r r"
      using rep_root [OF assms(1)] by (intro rep.root) auto
    show ?thesis
    proof (cases "r = x")
      case False
      have "rep (m(x \<mapsto> r)) z s"
      proof (rule rep.link)
        show "(m(x \<mapsto> r)) z = Some r" using True by simp
        show "r \<noteq> z" using False True by simp
        show "rep (m(x \<mapsto> r)) r s" using root rs by (simp only:)
      qed
      then show ?thesis .
    qed (use True rs root in \<open>simp only:\<close>)
  qed (use link in \<open>auto intro: rep.link\<close>)
qed

lemma rep_compress:
  assumes "forest m" "rep m x r"
  shows "rep (m(x \<mapsto> r)) y s \<longleftrightarrow> rep m y s"
  using assms rep_compress_imp [OF assms(2)] rep_fun unfolding forest_def by metis

lemma uf_find_rep:
  assumes "forest (map_of parent)" "rep (map_of parent) x r"
  shows "\<exists>parent'. uf_find parent x = Some (parent', r) \<and> (\<forall>y s. rep (map_of parent') y s \<longleftrightarrow> rep (map_of parent) y s)"
  using assms(2)
proof (induction rule: rep.induct)
  case (root x)
  then show ?case by (subst uf_find.simps) (auto simp: Let_def)
next
  case (link x y r)
  then obtain p' where p: "uf_find parent y = Some (p', r)"
    and same: "\<And>y s. rep (map_of p') y s \<longleftrightarrow> rep (map_of parent) y s" by blast
  have f: "forest (map_of p')" using assms(1) same by (simp add: forest_def)
  have "rep (map_of p') x r" using link same by (auto intro: rep.link)
  then have "rep (map_of (AList.update x r p')) z s \<longleftrightarrow> rep (map_of parent) z s" for z s
    using rep_compress [OF f] same by (simp add: update_conv')
  moreover have "uf_find parent x = Some (AList.update x r p', r)"
    using link p by (subst uf_find.simps) (simp add: Let_def)
  ultimately show ?case by blast
qed

lemma rep_union:
  assumes "rep m a ra" "rep m b rb" "ra \<noteq> rb" "rep m y s"
  shows "rep (m(ra \<mapsto> rb)) y (if s = ra then rb else s)"
  using assms(4)
proof (induction rule: rep.induct)
  have rb: "rep (m(ra \<mapsto> rb)) rb rb" using rep_root [OF assms(2)] assms(3) by (intro rep.root) auto
  case (root x)
  show ?case
  proof (cases "x = ra")
    case True
    have "rep (m(ra \<mapsto> rb)) x rb"
    proof (rule rep.link)
      show "(m(ra \<mapsto> rb)) x = Some rb" "rb \<noteq> x" using True assms(3) by simp_all
    qed (rule rb)
    then show ?thesis using True by (simp only: if_True refl)
  qed (use root in \<open>auto intro: rep.root\<close>)
next
  case (link x y r)
  have "x \<noteq> ra" using link(1,2) rep_root [OF assms(1)] by auto
  then show ?case using link by (auto intro: rep.link)
qed

lemma uf_union_rep:
  assumes "forest (map_of parent)"
  shows "\<exists>parent'. uf_union parent (a, b) = Some parent' \<and> forest (map_of parent') \<and>
    (\<forall>x y. (\<exists>r. rep (map_of parent') x r \<and> rep (map_of parent') y r) \<longleftrightarrow>
      (let same = (\<lambda>x y. \<exists>r. rep (map_of parent) x r \<and> rep (map_of parent) y r)
       in same x y \<or> same x a \<and> same b y \<or> same x b \<and> same a y))"
proof -
  obtain ra rb where r: "rep (map_of parent) a ra" "rep (map_of parent) b rb"
    using assms unfolding forest_def by metis
  obtain p1 where p1: "uf_find parent a = Some (p1, ra)"
    and s1: "\<And>y s. rep (map_of p1) y s \<longleftrightarrow> rep (map_of parent) y s" using uf_find_rep [OF assms r(1)] by blast
  have f1: "forest (map_of p1)" using assms s1 by (simp add: forest_def)
  obtain p2 where p2: "uf_find p1 b = Some (p2, rb)"
    and s2: "\<And>y s. rep (map_of p2) y s \<longleftrightarrow> rep (map_of parent) y s"
    using uf_find_rep [OF f1, of b rb] r s1 by blast
  have f2: "forest (map_of p2)" using assms s2 by (simp add: forest_def)
  have ex: "\<exists>s. rep (map_of parent) y s" for y using assms by (simp add: forest_def)
  have sm: "(\<exists>r. rep (map_of parent) x r \<and> rep (map_of parent) y r) \<longleftrightarrow> sx = sy"
    if "rep (map_of parent) x sx" "rep (map_of parent) y sy" for x y sx sy
    using root_eq [OF that] .
  have expand: "(let same = (\<lambda>x y. \<exists>r. rep (map_of parent) x r \<and> rep (map_of parent) y r)
       in same x y \<or> same x a \<and> same b y \<or> same x b \<and> same a y) \<longleftrightarrow>
      sx = sy \<or> sx = ra \<and> rb = sy \<or> sx = rb \<and> ra = sy"
    if s: "rep (map_of parent) x sx" "rep (map_of parent) y sy" for x y sx sy
    unfolding Let_def sm [OF s] sm [OF s(1) r(1)] sm [OF s(1) r(2)] sm [OF r(1) s(2)] sm [OF r(2) s(2)] ..
  show ?thesis
  proof (cases "ra = rb")
    case True
    have u: "uf_union parent (a, b) = Some p2" using True by (simp add: uf_union_def p1 p2)
    have "(\<exists>r. rep (map_of p2) x r \<and> rep (map_of p2) y r) \<longleftrightarrow>
      (let same = (\<lambda>x y. \<exists>r. rep (map_of parent) x r \<and> rep (map_of parent) y r)
       in same x y \<or> same x a \<and> same b y \<or> same x b \<and> same a y)" for x y
    proof -
      obtain sx sy where s: "rep (map_of parent) x sx" "rep (map_of parent) y sy" using ex by metis
      show ?thesis unfolding expand [OF s] s2 sm [OF s] using True by auto
    qed
    then show ?thesis using u f2 by blast
  next
    case False
    let ?m = "(map_of p2)(ra \<mapsto> rb)"
    have u: "uf_union parent (a, b) = Some (AList.update ra rb p2)" using False by (simp add: uf_union_def p1 p2)
    have fwd: "rep ?m y (if s = ra then rb else s)" if "rep (map_of parent) y s" for y s
      using rep_union [of "map_of p2" a ra b rb y s] r s2 False that by blast
    have f: "forest ?m" using fwd ex unfolding forest_def by blast
    have eq: "(\<exists>r. rep ?m x r \<and> rep ?m y r) \<longleftrightarrow> (if sx = ra then rb else sx) = (if sy = ra then rb else sy)"
      if "rep (map_of parent) x sx" "rep (map_of parent) y sy" for x y sx sy
      using root_eq [OF fwd [OF that(1)] fwd [OF that(2)]] .
    have "(\<exists>r. rep ?m x r \<and> rep ?m y r) \<longleftrightarrow>
      (let same = (\<lambda>x y. \<exists>r. rep (map_of parent) x r \<and> rep (map_of parent) y r)
       in same x y \<or> same x a \<and> same b y \<or> same x b \<and> same a y)" for x y
    proof -
      obtain sx sy where s: "rep (map_of parent) x sx" "rep (map_of parent) y sy" using ex by metis
      show ?thesis unfolding expand [OF s] eq [OF s] using False by auto
    qed
    then show ?thesis using u f unfolding update_conv' [symmetric] by blast
  qed
qed

definition same_root :: "(string \<times> string) list \<Rightarrow> string \<Rightarrow> string \<Rightarrow> bool" where
  "same_root parent x y \<longleftrightarrow> (\<exists>r. rep (map_of parent) x r \<and> rep (map_of parent) y r)"

lemma uf_unions_conn:
  assumes "forest (map_of parent)" "\<And>x y. same_root parent x y \<longleftrightarrow> (x, y) \<in> conn E"
  shows "\<exists>parent'. uf_unions parent prs = Some parent' \<and> forest (map_of parent') \<and>
    (\<forall>x y. same_root parent' x y \<longleftrightarrow> (x, y) \<in> conn (E \<union> set prs))"
  using assms
proof (induction prs arbitrary: parent E)
  case (Cons pr prs)
  obtain a b where pr: "pr = (a, b)" by (cases pr)
  obtain p' where u: "uf_union parent (a, b) = Some p'" "forest (map_of p')"
    and s: "\<And>x y. same_root p' x y \<longleftrightarrow> same_root parent x y \<or> same_root parent x a \<and> same_root parent b y
       \<or> same_root parent x b \<and> same_root parent a y"
    using uf_union_rep [OF Cons.prems(1), of a b] unfolding same_root_def Let_def by blast
  have "same_root p' x y \<longleftrightarrow> (x, y) \<in> conn (insert (a, b) E)" for x y
    unfolding s Cons.prems(2) conn_insert ..
  from Cons.IH [OF u(2) this] show ?case by (simp add: pr u(1))
qed auto

lemma forest_empty: "forest (map_of [])" "same_root [] x y \<longleftrightarrow> (x, y) \<in> conn {}"
proof -
  have "rep (map_of []) z r \<longleftrightarrow> z = r" for z r
    by (auto intro: rep.root elim: rep.cases)
  then show "forest (map_of [])" "same_root [] x y \<longleftrightarrow> (x, y) \<in> conn {}"
    by (auto simp: forest_def same_root_def)
qed

definition grouped :: "(string \<rightharpoonup> string) \<Rightarrow> (string \<times> string list) list \<Rightarrow> string list \<Rightarrow> bool" where
  "grouped m acc ids \<longleftrightarrow> distinct (map fst acc) \<and>
     (\<forall>k. map_of acc k = (if \<exists>x \<in> set ids. rep m x k then Some (filter (\<lambda>x. rep m x k) ids) else None))"

lemma grouped_snoc:
  assumes "grouped m acc ids" "rep m i rt"
  shows "grouped m (AList.update rt ((case map_of acc rt of None \<Rightarrow> [] | Some l \<Rightarrow> l) @ [i]) acc) (ids @ [i])"
proof -
  have r: "rep m i k \<longleftrightarrow> k = rt" for k using assms(2) rep_fun by blast
  have none: "filter (\<lambda>x. rep m x rt) ids = []" if "\<not> (\<exists>x \<in> set ids. rep m x rt)"
    using that by (auto simp: filter_empty_conv)
  show ?thesis
    using assms(1) none unfolding grouped_def
    by (auto simp: update_conv' r distinct_update split: if_splits)
qed

lemma by_root_grouped:
  assumes "forest (map_of parent)" "\<And>x r. rep (map_of parent) x r \<longleftrightarrow> rep m x r" "grouped m acc done'"
  shows "\<exists>acc'. by_root parent acc ids = Some acc' \<and> grouped m acc' (done' @ ids)"
  using assms
proof (induction ids arbitrary: parent acc done')
  case (Cons i ids)
  obtain rt where root: "rep (map_of parent) i rt" using Cons.prems(1) by (auto simp: forest_def)
  obtain p' where p': "uf_find parent i = Some (p', rt)"
    and s: "\<And>y s. rep (map_of p') y s \<longleftrightarrow> rep (map_of parent) y s"
    using uf_find_rep [OF Cons.prems(1) root] by blast
  have f: "forest (map_of p')" using Cons.prems(1) s by (simp add: forest_def)
  have "\<And>x r. rep (map_of p') x r \<longleftrightarrow> rep m x r" by (simp only: s Cons.prems(2))
  from Cons.IH [OF f this grouped_snoc [OF Cons.prems(3)], of i rt] root Cons.prems(2) p'
  show ?case by simp
qed auto

definition graph :: "ProductJson \<Rightarrow> (string \<times> string) set" where
  "graph p = set (map r_pair (resolveCouplings p))"

lemma connectedComponents_groups:
  "\<exists>m acc. connectedComponents p = Some (map_values acc) \<and> grouped m acc (module_ids p) \<and> forest m \<and>
     (\<forall>x y. (\<exists>r. rep m x r \<and> rep m y r) \<longleftrightarrow> (x, y) \<in> conn (graph p))"
proof -
  obtain par where u: "uf_unions [] (map r_pair (resolveCouplings p)) = Some par" "forest (map_of par)"
    and s: "\<And>x y. same_root par x y \<longleftrightarrow> (x, y) \<in> conn (graph p)"
    using uf_unions_conn [OF forest_empty, of "map r_pair (resolveCouplings p)"] by (auto simp: graph_def)
  have "grouped (map_of par) [] []" by (simp add: grouped_def)
  from by_root_grouped [OF u(2) refl this, of "module_ids p"] obtain acc where
    "by_root par [] (module_ids p) = Some acc" "grouped (map_of par) acc (module_ids p)" by auto
  then show ?thesis using u s unfolding same_root_def
    by (intro exI [of _ "map_of par"] exI [of _ acc]) (simp add: connectedComponents_def)
qed

lemma connectedComponents_classes:
  "\<exists>comps. connectedComponents p = Some comps \<and> distinct comps \<and>
     set comps = (\<lambda>x. filter (\<lambda>y. (x, y) \<in> conn (graph p)) (module_ids p)) ` set (module_ids p)"
proof -
  obtain m acc where c: "connectedComponents p = Some (map_values acc)" and g: "grouped m acc (module_ids p)"
    and f: "forest m" and s: "\<And>x y. (\<exists>r. rep m x r \<and> rep m y r) \<longleftrightarrow> (x, y) \<in> conn (graph p)"
    using connectedComponents_groups [of p] by blast
  have d: "distinct (map fst acc)"
    and mo: "\<And>k. map_of acc k = (if \<exists>x \<in> set (module_ids p). rep m x k then Some (filter (\<lambda>x. rep m x k) (module_ids p)) else None)"
    using g unfolding grouped_def by blast+
  have mem: "(k, l) \<in> set acc \<longleftrightarrow> (\<exists>x \<in> set (module_ids p). rep m x k) \<and> l = filter (\<lambda>x. rep m x k) (module_ids p)" for k l
    unfolding map_of_eq_Some_iff [OF d, symmetric] mo by auto
  have cls: "filter (\<lambda>y. rep m y k) (module_ids p) = filter (\<lambda>y. (x, y) \<in> conn (graph p)) (module_ids p)" if "rep m x k" for x k
  proof -
    have "rep m y k \<longleftrightarrow> (x, y) \<in> conn (graph p)" for y
      unfolding s [symmetric] using that rep_fun by blast
    then show ?thesis by simp
  qed
  have "set (map_values acc) = (\<lambda>x. filter (\<lambda>y. (x, y) \<in> conn (graph p)) (module_ids p)) ` set (module_ids p)"
  proof (intro equalityI subsetI)
    fix l assume "l \<in> set (map_values acc)"
    then obtain k where "(k, l) \<in> set acc" by (auto simp: map_values_def)
    then show "l \<in> (\<lambda>x. filter (\<lambda>y. (x, y) \<in> conn (graph p)) (module_ids p)) ` set (module_ids p)"
      using cls by (auto simp only: mem)
  next
    fix l assume "l \<in> (\<lambda>x. filter (\<lambda>y. (x, y) \<in> conn (graph p)) (module_ids p)) ` set (module_ids p)"
    then obtain x where x: "x \<in> set (module_ids p)" "l = filter (\<lambda>y. (x, y) \<in> conn (graph p)) (module_ids p)" by blast
    obtain k where k: "rep m x k" using f by (auto simp: forest_def)
    then have "(k, l) \<in> set acc" unfolding mem using x cls [OF k] by auto
    then show "l \<in> set (map_values acc)" by (force simp: map_values_def)
  qed
  moreover have "distinct (map_values acc)"
  proof -
    have "k = k'" if kl: "(k, l) \<in> set acc" "(k', l) \<in> set acc" for k k' l
    proof -
      obtain x where x: "x \<in> set (module_ids p)" "rep m x k" using kl(1) unfolding mem by blast
      then have "x \<in> set l" using kl(1) unfolding mem by auto
      then have "rep m x k'" using kl(2) unfolding mem by auto
      then show ?thesis using x rep_fun by blast
    qed
    then have "inj_on snd (set acc)" by (auto intro!: inj_onI)
    then show ?thesis using d by (simp add: map_values_def distinct_map)
  qed
  ultimately show ?thesis using c by blast
qed

lemma wouldCloseCycle_iff:
  "wouldCloseCycle p a b \<longleftrightarrow> a \<in> set (module_ids p) \<and> b \<in> set (module_ids p) \<and> (a, b) \<in> conn (graph p)"
proof -
  obtain comps where c: "connectedComponents p = Some comps"
    "set comps = (\<lambda>x. filter (\<lambda>y. (x, y) \<in> conn (graph p)) (module_ids p)) ` set (module_ids p)"
    using connectedComponents_classes [of p] by blast
  have "wouldCloseCycle p a b \<longleftrightarrow> (\<exists>x \<in> set (module_ids p). a \<in> set (module_ids p) \<and> (x, a) \<in> conn (graph p)
      \<and> b \<in> set (module_ids p) \<and> (x, b) \<in> conn (graph p))"
    by (simp add: wouldCloseCycle_def c list_ex_iff)
  also have "\<dots> \<longleftrightarrow> a \<in> set (module_ids p) \<and> b \<in> set (module_ids p) \<and> (a, b) \<in> conn (graph p)"
    using conn_trans conn_sym conn_refl by metis
  finally show ?thesis .
qed

text \<open>
  C7. The components of an assembly: the union-find always returns, each component lists the module
  ids of one connectivity class of the coupling graph in declaration order, every module is in
  one, and no class is listed twice.
\<close>

theorem connectedComponents_spec:
  "\<exists>comps. connectedComponents p = Some comps \<and> distinct comps \<and>
     set comps = (\<lambda>x. filter (\<lambda>y. (x, y) \<in> conn (graph p)) (module_ids p)) ` set (module_ids p)"
  by (rule connectedComponents_classes)

section \<open>The joints of an assembly\<close>

text \<open>
  The abstract view of an assembly: the module ids in declaration order and its joints, each with
  its identity, angle, coupler, endpoints, joined sides and kind, however the coupling spells them.
\<close>

record Joint =
  j_id :: string
  j_angle :: string
  j_sku :: "string option"
  j_pair :: "string \<times> string"
  j_edges :: "GraphEdge \<times> GraphEdge"
  j_kind :: CouplingKind

definition joint :: "ResolvedCoupling \<Rightarrow> Joint" where
  "joint r = \<lparr>j_id = c_id (r_coupling r), j_angle = angle_deg (r_coupling r),
     j_sku = coupler_profile_sku (r_coupling r), j_pair = r_pair r, j_edges = r_edges r, j_kind = r_kind r\<rparr>"

definition joints :: "ProductJson \<Rightarrow> Joint list" where
  "joints p = map joint (resolveCouplings p)"

text \<open>The module sides a joint claims.\<close>

definition claims :: "Joint \<Rightarrow> (string \<times> GraphEdge) list" where
  "claims j = [(fst (j_pair j), fst (j_edges j)), (snd (j_pair j), snd (j_edges j))]"

definition ring_free :: "(string \<times> string) multiset \<Rightarrow> bool" where
  "ring_free E \<longleftrightarrow> (\<forall>e \<in># E. e \<notin> conn (set_mset (E - {#e#})))"

text \<open>
  The invariant of an assembly graph: identities are distinct, joints end in declared modules, no
  module side carries two joints, and no joint closes a ring.
\<close>

definition wf_graph :: "string list \<Rightarrow> Joint list \<Rightarrow> bool" where
  "wf_graph ids js \<longleftrightarrow> distinct ids \<and> distinct (map j_id js) \<and>
     (\<forall>j \<in> set js. fst (j_pair j) \<in> set ids \<and> snd (j_pair j) \<in> set ids) \<and>
     distinct (concat (map claims js)) \<and> ring_free (mset (map j_pair js))"

definition wf_product :: "ProductJson \<Rightarrow> bool" where
  "wf_product p \<longleftrightarrow> modules p \<noteq> [] \<and> length (resolveCouplings p) = length (couplings p) \<and>
     wf_graph (module_ids p) (joints p)"

subsection \<open>Laws of the invariant\<close>

lemma distinct_mset: "mset xs = mset ys \<Longrightarrow> distinct xs = distinct ys"
  by (metis distinct_count_atmost_1 mset_eq_setD)

lemma wf_graph_perm:
  assumes "mset ids = mset ids'" "mset js = mset js'"
  shows "wf_graph ids js = wf_graph ids' js'"
proof -
  have "mset (map j_id js) = mset (map j_id js')" "mset (map j_pair js) = mset (map j_pair js')"
    using assms(2) by simp_all
  moreover have "mset (concat (map claims js)) = mset (concat (map claims js'))"
    using assms(2) by (simp add: mset_concat flip: sum_mset_sum_list)
  ultimately show ?thesis
    unfolding wf_graph_def using assms distinct_mset mset_eq_setD by metis
qed

lemma ring_free_subset:
  assumes "ring_free E" "F \<subseteq># E" shows "ring_free F"
  unfolding ring_free_def
proof (intro ballI notI)
  fix e assume e: "e \<in># F" "e \<in> conn (set_mset (F - {#e#}))"
  have "F - {#e#} \<subseteq># E - {#e#}" using assms(2) by (auto simp: subseteq_mset_def intro: diff_le_mono)
  then have "set_mset (F - {#e#}) \<subseteq> set_mset (E - {#e#})" by (rule set_mset_mono)
  then have "e \<in> conn (set_mset (E - {#e#}))" using e(2) conn_mono by blast
  then show False using assms e(1) by (auto simp: ring_free_def dest: mset_subset_eqD)
qed

lemma ring_free_add:
  assumes "ring_free E" "(a, b) \<notin> conn (set_mset E)" shows "ring_free (add_mset (a, b) E)"
  unfolding ring_free_def
proof (intro ballI notI)
  fix e assume e: "e \<in># add_mset (a, b) E" and c: "e \<in> conn (set_mset (add_mset (a, b) E - {#e#}))"
  show False
  proof (cases "e = (a, b)")
    case True then show ?thesis using c assms(2) by simp
  next
    case False
    then have eE: "e \<in># E" using e by simp
    obtain x y where xy: "e = (x, y)" by (cases e)
    have no: "(x, y) \<notin> conn (set_mset (E - {#e#}))" using assms(1) eE xy by (auto simp: ring_free_def)
    have "add_mset (a, b) E - {#e#} = add_mset (a, b) (E - {#e#})" using False eE by (simp add: add_mset_commute)
    then have "(x, y) \<in> conn (insert (a, b) (set_mset (E - {#e#})))" using c xy by simp
    then have "(x, a) \<in> conn (set_mset (E - {#e#})) \<and> (b, y) \<in> conn (set_mset (E - {#e#}))
        \<or> (x, b) \<in> conn (set_mset (E - {#e#})) \<and> (a, y) \<in> conn (set_mset (E - {#e#}))"
      using no by (simp add: conn_insert)
    moreover have m: "conn (set_mset (E - {#e#})) \<subseteq> conn (set_mset E)" by (rule conn_mono) (auto dest: in_diffD)
    moreover have c: "(x, y) \<in> conn (set_mset E)" using eE xy conn_edge by simp
    ultimately consider "(x, a) \<in> conn (set_mset E)" "(b, y) \<in> conn (set_mset E)"
      | "(x, b) \<in> conn (set_mset E)" "(a, y) \<in> conn (set_mset E)" by blast
    then have "(a, b) \<in> conn (set_mset E)"
    proof cases
      case 1
      then show ?thesis using conn_trans [OF conn_sym [OF 1(1)] conn_trans [OF c conn_sym [OF 1(2)]]] by simp
    next
      case 2
      then show ?thesis using conn_trans [OF 2(2) conn_trans [OF conn_sym [OF c] 2(1)]] by simp
    qed
    then show False using assms(2) by simp
  qed
qed

lemma wf_graph_add_node: "wf_graph ids js \<Longrightarrow> n \<notin> set ids \<Longrightarrow> wf_graph (n # ids) js"
  by (auto simp: wf_graph_def)

lemma wf_graph_add_joint:
  assumes "wf_graph ids js" "j_id j \<notin> j_id ` set js" "fst (j_pair j) \<in> set ids" "snd (j_pair j) \<in> set ids"
    "\<forall>c \<in> set (claims j). \<forall>k \<in> set js. c \<notin> set (claims k)"
    "j_pair j \<notin> conn (set (map j_pair js))"
  shows "wf_graph ids (j # js)"
proof -
  have ne: "fst (j_pair j) \<noteq> snd (j_pair j)" using assms(6) conn_refl by (metis prod.collapse)
  have "distinct (claims j)" using ne by (simp add: claims_def)
  moreover have "ring_free (mset (map j_pair (j # js)))"
    using assms(1,6) ring_free_add [of "mset (map j_pair js)" "fst (j_pair j)" "snd (j_pair j)"]
    by (simp add: wf_graph_def)
  ultimately show ?thesis using assms by (auto simp: wf_graph_def)
qed

lemma wf_graph_remove:
  assumes "wf_graph ids js" "mset js' \<subseteq># mset js"
  shows "wf_graph ids js'"
proof -
  obtain rest where m: "mset js = mset (js' @ rest)"
    using assms(2) by (metis ex_mset mset_append subset_mset.le_iff_add)
  then have "wf_graph ids (js' @ rest)" using assms(1) wf_graph_perm by blast
  then show ?thesis using ring_free_subset [of "mset (map j_pair (js' @ rest))" "mset (map j_pair js')"]
    by (auto simp: wf_graph_def)
qed

lemma wf_graph_remove_node:
  assumes "wf_graph ids js" "\<forall>j \<in> set js. fst (j_pair j) \<noteq> n \<and> snd (j_pair j) \<noteq> n"
  shows "wf_graph (filter (\<lambda>i. i \<noteq> n) ids) js"
  using assms by (auto simp: wf_graph_def)

section \<open>Fresh names\<close>

lemma fresh_index_spec:
  "base @ nat_str (fresh_index base used start) \<notin> set used \<and> start \<le> fresh_index base used start \<and>
     (\<forall>j. start \<le> j \<and> j < fresh_index base used start \<longrightarrow> base @ nat_str j \<in> set used)"
proof (induction base used start rule: fresh_index.induct)
  case (1 base used index)
  show ?case
  proof (cases "base @ nat_str index \<in> set used")
    case True
    have "base @ nat_str j \<in> set used" if "index \<le> j" "j < fresh_index base used (index + 1)" for j
      using that 1 [OF True] True by (cases "j = index") auto
    then show ?thesis using 1 [OF True] True by (auto simp: fresh_index.simps [of base used index])
  qed (auto simp: fresh_index.simps [of base used index])
qed

lemma fresh_name_fresh: "fresh_name base used start \<notin> set used"
  using fresh_index_spec by (simp add: fresh_name_def)

section \<open>Resolution and explicit couplings\<close>

definition explicit :: "CouplingJson \<Rightarrow> bool" where
  "explicit c \<longleftrightarrow> c_modules c \<noteq> None"

text \<open>The joint an explicit coupling spells, whatever the module list.\<close>

definition explicit_joint :: "CouplingJson \<Rightarrow> Joint" where
  "explicit_joint c = joint (the (resolve_one [] 0 c))"

lemma resolve_one_explicit:
  "explicit c \<Longrightarrow> map_option joint (resolve_one ms i c) = Some (explicit_joint c)"
  by (auto simp: explicit_def explicit_joint_def resolve_one_def joint_def)

lemma explicit_joint_simps:
  "c_modules c = Some pr \<Longrightarrow> c_edges c = Some es \<Longrightarrow> kind c = Some k \<Longrightarrow>
     explicit_joint c = \<lparr>j_id = c_id c, j_angle = angle_deg c, j_sku = coupler_profile_sku c,
       j_pair = pr, j_edges = es, j_kind = k\<rparr>"
  by (simp add: explicit_joint_def resolve_one_def joint_def)

lemma resolve_one_joint:
  "resolve_one ms i c = Some r \<Longrightarrow> r_coupling r = c \<and> r_index r = i \<and> j_id (joint r) = c_id c"
  by (auto simp: resolve_one_def joint_def split: option.splits)

lemma map_map_filter: "map g (List.map_filter f xs) = List.map_filter (\<lambda>x. map_option g (f x)) xs"
  by (induction xs) (auto simp: map_filter_simps split: option.splits)

lemma map_filter_append: "List.map_filter f (xs @ ys) = List.map_filter f xs @ List.map_filter f ys"
  by (induction xs) (auto simp: map_filter_simps split: option.splits)

lemma map_filter_all: "(\<And>x. x \<in> set xs \<Longrightarrow> f x = Some (g x)) \<Longrightarrow> List.map_filter f xs = map g xs"
  by (induction xs) (auto simp: map_filter_simps)

lemma length_map_filter_le: "length (List.map_filter f xs) \<le> length xs"
  by (induction xs) (auto simp: map_filter_simps split: option.splits)

lemma map_filter_total:
  "length (List.map_filter f xs) = length xs \<longleftrightarrow> (\<forall>x \<in> set xs. f x \<noteq> None)"
proof (induction xs)
  case (Cons x xs)
  then show ?case using length_map_filter_le [of f xs] by (cases "f x") (auto simp: map_filter_simps)
qed (simp add: map_filter_simps)

lemma joints_explicit:
  assumes "\<forall>c \<in> set (couplings p). explicit c"
  shows "joints p = map explicit_joint (couplings p)"
    and "length (resolveCouplings p) = length (couplings p)"
proof -
  have "List.map_filter (\<lambda>x. map_option joint ((\<lambda>(i, c). resolve_one (modules p) i c) x)) (entries (couplings p))
      = map (\<lambda>x. explicit_joint (snd x)) (entries (couplings p))"
    using assms resolve_one_explicit by (intro map_filter_all) (auto simp: mem_entries)
  also have "\<dots> = map explicit_joint (map snd (entries (couplings p)))" by (simp only: map_map comp_def)
  finally show "joints p = map explicit_joint (couplings p)"
    by (simp only: joints_def resolveCouplings_def map_map_filter map_snd_entries)
  then show "length (resolveCouplings p) = length (couplings p)"
    by (metis joints_def length_map)
qed

lemma joints_snoc:
  assumes "explicit c"
  shows "joints (p\<lparr>couplings := couplings p @ [c]\<rparr>) = joints p @ [explicit_joint c]"
  using resolve_one_explicit [OF assms, of "modules p" "length (couplings p)"]
  unfolding joints_def resolveCouplings_def map_map_filter
  by (auto simp: entries_append map_filter_append map_filter_simps split: option.splits)

lemma graph_joints: "graph p = set (map j_pair (joints p))"
  by (auto simp: graph_def joints_def joint_def)

lemma wf_no_self: "wf_graph ids js \<Longrightarrow> j \<in> set js \<Longrightarrow> fst (j_pair j) \<noteq> snd (j_pair j)"
  by (auto simp: wf_graph_def ring_free_def) (metis conn_refl prod.collapse)

lemma usedEdges_claims:
  assumes "wf_graph ids (joints p)"
  shows "e \<in> usedEdges p i \<longleftrightarrow> (\<exists>j \<in> set (joints p). (i, e) \<in> set (claims j))"
proof -
  have ns: "fst (r_pair r) \<noteq> snd (r_pair r)" if "r \<in> set (resolveCouplings p)" for r
    using wf_no_self [OF assms, of "joint r"] that by (auto simp: joints_def joint_def)
  have "e \<in> usedEdges p i \<longleftrightarrow> (\<exists>r \<in> set (incidentCouplings p i). incidentEdge r i = Some e)"
    by (auto simp: usedEdges_def map_filter_def image_iff intro: bexI [rotated])
  also have "\<dots> \<longleftrightarrow> (\<exists>r \<in> set (resolveCouplings p). incidentEdge r i = Some e)"
    by (auto simp: incidentCouplings_def incidentEdge_def split: if_splits)
  also have "\<dots> \<longleftrightarrow> (\<exists>r \<in> set (resolveCouplings p). (i, e) \<in> set (claims (joint r)))"
    using ns by (intro bex_cong refl) (auto simp: incidentEdge_def claims_def joint_def)
  finally show ?thesis by (simp add: joints_def)
qed

section \<open>Linking modules\<close>

lemma byId_None: "byId ms i = None \<longleftrightarrow> i \<notin> m_id ` set ms"
  unfolding byId_def by (rule map_of_by_id_dom)

lemma byId_Some: "byId ms i = Some m \<Longrightarrow> m \<in> set ms \<and> m_id m = i"
  unfolding byId_def by (rule map_of_by_id_Some)

lemma alreadyJoined_iff: "alreadyJoined p a b \<longleftrightarrow> (a, b) \<in> graph p \<or> (b, a) \<in> graph p"
  by (auto simp: alreadyJoined_def list_ex_iff graph_def) (metis image_eqI)+

text \<open>The link guard on a well-formed assembly, in terms of the graph.\<close>

lemma canLink_iff:
  assumes "wf_graph (module_ids p) (joints p)"
  shows "canLink p a ae b be k \<longleftrightarrow>
    (\<exists>ma mb. byId (modules p) a = Some ma \<and> byId (modules p) b = Some mb \<and> \<not> shaped ma \<and> \<not> shaped mb) \<and>
    ae \<in> kindEdges k \<and> be \<in> kindEdges k \<and>
    (\<forall>j \<in> set (joints p). (a, ae) \<notin> set (claims j) \<and> (b, be) \<notin> set (claims j)) \<and>
    (a, b) \<notin> conn (graph p)"
proof -
  have ids: "a \<in> set (module_ids p) \<and> b \<in> set (module_ids p)" if "byId (modules p) a = Some ma" "byId (modules p) b = Some mb" for ma mb
    using that byId_Some [of "modules p" a] byId_Some [of "modules p" b] by auto
  have joined: "(a, b) \<notin> conn (graph p) \<Longrightarrow> \<not> alreadyJoined p a b"
    by (auto simp: alreadyJoined_iff dest: conn_edge conn_sym)
  have self: "(a, b) \<notin> conn (graph p) \<Longrightarrow> a \<noteq> b" by auto
  show ?thesis
    using ids joined self unfolding canLink_def wouldCloseCycle_iff usedEdges_claims [OF assms]
    by (auto split: option.splits)
qed

lemma linkModules_Some:
  assumes "linkModules p a ae b be k opts = Some p'"
  obtains c where "p' = p\<lparr>couplings := couplings p @ [c]\<rparr>" "canLink p a ae b be k"
    "c_id c = (case opt_id opts of Some i \<Rightarrow> i | None \<Rightarrow> fresh_name ''c'' (coupling_ids p) (length (couplings p) + 1))"
    "c_modules c = Some (modulesOrdered p a b)" "kind c = Some k" "a \<noteq> b"
    "c_edges c = Some (if modulesOrdered p a b = (a, b) then (ae, be) else (be, ae))"
proof -
  have cl: "canLink p a ae b be k" using assms by (auto simp: linkModules_def split: if_splits)
  then have ne: "a \<noteq> b" by (auto simp: canLink_def)
  show thesis
    using assms cl ne that unfolding linkModules_def
    by (auto simp: Let_def modulesOrdered_def split: if_splits)
qed

lemma linkModules_joint:
  assumes "linkModules p a ae b be k opts = Some p'"
  obtains j where "modules p' = modules p" "joints p' = joints p @ [j]" "j_kind j = k"
    "j_id j = (case opt_id opts of Some i \<Rightarrow> i | None \<Rightarrow> fresh_name ''c'' (coupling_ids p) (length (couplings p) + 1))"
    "j_pair j = (a, b) \<or> j_pair j = (b, a)" "set (claims j) = {(a, ae), (b, be)}"
    "length (couplings p') = Suc (length (couplings p))"
proof -
  obtain c where c: "p' = p\<lparr>couplings := couplings p @ [c]\<rparr>"
    "c_id c = (case opt_id opts of Some i \<Rightarrow> i | None \<Rightarrow> fresh_name ''c'' (coupling_ids p) (length (couplings p) + 1))"
    "c_modules c = Some (modulesOrdered p a b)" "kind c = Some k" "a \<noteq> b"
    "c_edges c = Some (if modulesOrdered p a b = (a, b) then (ae, be) else (be, ae))"
    using linkModules_Some [OF assms] by metis
  have e: "explicit c" using c by (simp add: explicit_def)
  note j = explicit_joint_simps [OF c(3,6,4)]
  have o: "modulesOrdered p a b = (a, b) \<or> modulesOrdered p a b = (b, a)" by (simp add: modulesOrdered_def)
  show thesis
  proof (rule that [of "explicit_joint c"])
    show "set (claims (explicit_joint c)) = {(a, ae), (b, be)}" using o c(5) by (auto simp: j claims_def)
  qed (use c o joints_snoc [OF e] in \<open>auto simp: j\<close>)
qed

lemma wf_product_joint_ids:
  "length (resolveCouplings p) = length (couplings p) \<Longrightarrow> map j_id (joints p) = coupling_ids p"
proof -
  assume "length (resolveCouplings p) = length (couplings p)"
  then have "\<forall>x \<in> set (entries (couplings p)). (\<lambda>(i, c). resolve_one (modules p) i c) x \<noteq> None"
    unfolding resolveCouplings_def using map_filter_total [of "\<lambda>(i, c). resolve_one (modules p) i c" "entries (couplings p)"]
    by (simp add: resolveCouplings_def)
  then have "List.map_filter (\<lambda>x. map_option (\<lambda>r. j_id (joint r)) ((\<lambda>(i, c). resolve_one (modules p) i c) x)) (entries (couplings p))
      = map (\<lambda>x. c_id (snd x)) (entries (couplings p))"
    by (intro map_filter_all) (auto simp: Ball_def, metis resolve_one_joint)
  also have "\<dots> = map c_id (map snd (entries (couplings p)))" by (simp only: map_map comp_def)
  finally show ?thesis
    by (simp only: joints_def resolveCouplings_def map_map_filter map_snd_entries option.map_comp comp_def)
qed

lemma linkModules_wf:
  assumes "wf_product p" "linkModules p a ae b be k opts = Some p'" "opt_id opts \<in> insert None (Some ` (- set (coupling_ids p)))"
  shows "wf_product p'"
proof -
  from assms(2) obtain j where j: "modules p' = modules p" "joints p' = joints p @ [j]" "j_kind j = k"
    "j_id j = (case opt_id opts of Some i \<Rightarrow> i | None \<Rightarrow> fresh_name ''c'' (coupling_ids p) (length (couplings p) + 1))"
    "j_pair j = (a, b) \<or> j_pair j = (b, a)" "set (claims j) = {(a, ae), (b, be)}"
    "length (couplings p') = Suc (length (couplings p))"
    by (rule linkModules_joint)
  have w: "wf_graph (module_ids p) (joints p)" and len: "length (resolveCouplings p) = length (couplings p)"
    using assms(1) by (simp_all add: wf_product_def)
  have g: "canLink p a ae b be k" using assms(2) by (auto simp: linkModules_def split: if_splits)
  note g = g [unfolded canLink_iff [OF w]]
  have ids: "a \<in> set (module_ids p)" "b \<in> set (module_ids p)" using g byId_Some by fastforce+
  have "wf_graph (module_ids p) (j # joints p)"
  proof (rule wf_graph_add_joint [OF w])
    have "j_id j \<notin> set (coupling_ids p)"
      using assms(3) j(4) fresh_name_fresh [of "''c''" "coupling_ids p" "length (couplings p) + 1"]
      by (cases "opt_id opts") auto
    then show "j_id j \<notin> j_id ` set (joints p)" using wf_product_joint_ids [OF len] by (metis set_map)
    show "j_pair j \<notin> conn (set (map j_pair (joints p)))"
      using g j(5) by (auto simp: graph_joints dest: conn_sym)
  qed (use j ids g in auto)
  then have "wf_graph (module_ids p') (joints p')"
    using wf_graph_perm [of "module_ids p'" "module_ids p" "joints p'" "j # joints p"] j by simp
  moreover have "length (resolveCouplings p') = length (couplings p')"
    using j len by (metis joints_def length_append_singleton length_map)
  ultimately show ?thesis using assms(1) j by (simp add: wf_product_def)
qed

end
