(* ===== verification/ProductModel.thy ===== *)
theory ProductModel
  imports GraphFacts
begin

text \<open>
  \<open>features/canvas/productEditing.ts\<close>, first part: the module and product makers, the stack
  resolution and front-elevation layout, contour scaling, the fresh ids and the helpers the
  structural edits share.
\<close>

section \<open>Makers\<close>

definition vertex :: "string \<Rightarrow> string \<Rightarrow> ContourVertex" where
  "vertex x y = \<lparr>x_mm = x, y_mm = y\<rparr>"

definition makeTrapezoidModule ::
  "string \<Rightarrow> string \<Rightarrow> string \<Rightarrow> jsnum \<Rightarrow> jsnum \<Rightarrow> IntentNode \<Rightarrow> ProductModuleJson" where
  "makeTrapezoidModule i widthMm heightMm offsetLeftMm offsetRightMm t =
     (let w = str_num widthMm; h = str_num heightMm
      in \<lparr>m_id = i, m_width_mm = widthMm, m_height_mm = heightMm, tree = t,
          contour = Some \<lparr>
            vertices = [vertex ''0'' ''0'', vertex (toFixed 2 w) ''0'',
              vertex (toFixed 2 (js_sub w offsetRightMm)) (toFixed 2 h),
              vertex (toFixed 2 offsetLeftMm) (toFixed 2 h)],
            bulges = [None, None, None, None]\<rparr>,
          frameless = None\<rparr>)"

definition makeArchModule :: "string \<Rightarrow> string \<Rightarrow> string \<Rightarrow> jsnum \<Rightarrow> IntentNode \<Rightarrow> ProductModuleJson" where
  "makeArchModule i widthMm heightMm riseMm t =
     (let w = str_num widthMm; h = str_num heightMm
      in \<lparr>m_id = i, m_width_mm = widthMm, m_height_mm = heightMm, tree = t,
          contour = Some \<lparr>
            vertices = [vertex ''0'' ''0'', vertex (toFixed 2 w) ''0'',
              vertex (toFixed 2 w) (toFixed 2 h), vertex ''0'' (toFixed 2 h)],
            bulges = [None, None, Some (toFixed 2 riseMm), None]\<rparr>,
          frameless = None\<rparr>)"

definition makeFramelessModule :: "string \<Rightarrow> string \<Rightarrow> string \<Rightarrow> IntentNode \<Rightarrow> ProductModuleJson" where
  "makeFramelessModule i widthMm heightMm t =
     \<lparr>m_id = i, m_width_mm = widthMm, m_height_mm = heightMm, tree = t, contour = None,
      frameless = Some \<lparr>
        supports = [\<lparr>support_kind = CHANNEL, support_edge = E_bottom, article_sku = [], support_qty = 1\<rparr>],
        fittings = [], exposed_edges = None\<rparr>\<rparr>"

definition makeBayTree :: "string \<Rightarrow> Opening \<Rightarrow> string \<Rightarrow> string \<Rightarrow> string option \<Rightarrow> IntentNode" where
  "makeBayTree i o' glassThicknessMm glassSpec glassArticleSku =
     Node ((new_node i BAY)\<lparr>opening_type := Val o', glass_thickness_mm := Val glassThicknessMm,
       glass_spec := Val glassSpec, glass_article_sku := opt_null glassArticleSku\<rparr>) None"

record BowOptions =
  moduleCount :: nat
  widthMm :: jsnum
  heightMm :: jsnum
  angleDeg :: jsnum
  bow_opening :: "Opening option"
  bow_glassThicknessMm :: "string option"
  bow_glassSpec :: "string option"
  bow_glassArticleSku :: "string field"

fun bow_loop :: "BowOptions \<Rightarrow> jsnum \<Rightarrow> nat list \<Rightarrow> jsnum \<Rightarrow> ProductModuleJson list \<Rightarrow> CouplingJson list \<Rightarrow>
    ProductModuleJson list \<times> CouplingJson list" where
  "bow_loop opts share [] remaining ms cs = (ms, cs)"
| "bow_loop opts share (index # rest) remaining ms cs =
     (let width = (if index = moduleCount opts then remaining else share);
          module = \<lparr>m_id = ''m'' @ nat_str index, m_width_mm = toFixed 2 width,
            m_height_mm = toFixed 2 (heightMm opts),
            tree = makeBayTree (''m'' @ nat_str index)
              (case bow_opening opts of None \<Rightarrow> O_FIXED | Some x \<Rightarrow> x)
              (case bow_glassThicknessMm opts of None \<Rightarrow> ''4.00'' | Some x \<Rightarrow> x)
              (case bow_glassSpec opts of None \<Rightarrow> ''4'' | Some x \<Rightarrow> x)
              (field_opt (bow_glassArticleSku opts)),
            contour = None, frameless = None\<rparr>;
          cs' = (if index > 1 then cs @ [\<lparr>c_id = ''c'' @ nat_str (index - 1),
              angle_deg = toFixed 1 (angleDeg opts), coupler_profile_sku = None, kind = None,
              c_modules = None, c_edges = None\<rparr>] else cs)
      in bow_loop opts share rest (js_sub remaining width) (ms @ [module]) cs')"

definition makeBowProduct :: "BowOptions \<Rightarrow> ProductJson" where
  "makeBowProduct opts =
     (let share = js_div (js_floor (js_mul (js_div (widthMm opts) (Fin (of_nat (moduleCount opts)))) (Fin 100))) (Fin 100);
          (ms, cs) = bow_loop opts share [1..<Suc (moduleCount opts)] (widthMm opts) [] []
      in \<lparr>modules = ms, couplings = cs\<rparr>)"

definition totalModuleWidth :: "ProductJson \<Rightarrow> jsnum" where
  "totalModuleWidth p = foldl (\<lambda>total m. js_add total (str_num (m_width_mm m))) (Fin 0) (modules p)"

section \<open>Stacks\<close>

record ResolvedPair =
  rp_coupling :: CouplingJson
  rp_pair :: "string \<times> string"

record StackResolution =
  pairs :: "ResolvedPair list"
  stackParent :: "(string \<times> string) list"
  stackRoot :: "(string \<times> string) list"

definition stack_pairs :: "ProductJson \<Rightarrow> ResolvedPair list" where
  "stack_pairs p = List.map_filter (\<lambda>(i, c).
     (case (case c_modules c of Some pr \<Rightarrow> Some pr | None \<Rightarrow> positional_pair (modules p) i) of
        None \<Rightarrow> None | Some pr \<Rightarrow> Some \<lparr>rp_coupling = c, rp_pair = pr\<rparr>)) (entries (couplings p))"

definition stack_parent_step :: "ResolvedPair \<Rightarrow> (string \<times> string) list \<Rightarrow> (string \<times> string) list" where
  "stack_parent_step rp sp =
     (if kind (rp_coupling rp) \<noteq> Some STACKED then sp
      else let es = (case c_edges (rp_coupling rp) of Some e \<Rightarrow> e | None \<Rightarrow> (E_top, E_bottom))
           in if fst es = E_top then AList.update (snd (rp_pair rp)) (fst (rp_pair rp)) sp
              else if snd es = E_top then AList.update (fst (rp_pair rp)) (snd (rp_pair rp)) sp
              else sp)"

text \<open>\<open>while (stackParent.has(current) && !seen.has(current))\<close>.\<close>

function stack_climb :: "(string \<times> string) list \<Rightarrow> string list \<Rightarrow> string \<Rightarrow> string" where
  "stack_climb sp seen current =
     (case map_of sp current of
        None \<Rightarrow> current
      | Some up \<Rightarrow> if current \<in> set seen then current else stack_climb sp (current # seen) up)"
  by pat_completeness auto
termination
proof (relation "measure (\<lambda>(sp, seen, current). card (fst ` set sp - set seen))", goal_cases)
  case (2 sp seen current up)
  then have "current \<in> fst ` set sp - set seen" by (force dest: map_of_SomeD)
  then have "fst ` set sp - set (current # seen) \<subset> fst ` set sp - set seen" by auto
  then show ?case by (simp add: psubset_card_mono)
qed simp

declare stack_climb.simps [simp del]

definition stack_root_step :: "(string \<times> string) list \<Rightarrow> string list \<Rightarrow> string \<Rightarrow> (string \<times> string) list \<Rightarrow>
    (string \<times> string) list" where
  "stack_root_step sp moduleIds member sr =
     (let current = stack_climb sp [] member
      in if map_of sp current = None \<and> current \<in> set moduleIds then AList.update member current sr else sr)"

definition resolveStacks :: "ProductJson \<Rightarrow> StackResolution" where
  "resolveStacks p =
     (let prs = stack_pairs p;
          sp = fold stack_parent_step prs [];
          sr = fold (stack_root_step sp (module_ids p)) (map_keys sp) []
      in \<lparr>pairs = prs, stackParent = sp, stackRoot = sr\<rparr>)"

section \<open>Front-elevation layout\<close>

record ElevationMemberMm =
  em_module :: ProductModuleJson
  em_x :: jsnum
  em_w :: jsnum
  em_sill :: jsnum
  em_h :: jsnum

record ElevationColumnMm =
  rootId :: string
  ec_x :: jsnum
  ec_w :: jsnum
  ec_top :: jsnum

record ElevationLayoutMm =
  members :: "ElevationMemberMm list"
  columns :: "ElevationColumnMm list"

text \<open>\<open>memberSill\<close>, threading the \<open>sills\<close> cache.\<close>

function memberSill :: "(string \<times> string) list \<Rightarrow> ProductModuleJson list \<Rightarrow> (string \<times> jsnum) list \<Rightarrow> string \<Rightarrow>
    string list \<Rightarrow> (string \<times> jsnum) list \<times> jsnum" where
  "memberSill sp ms sills i seen =
     (case map_of sills i of
        Some cached \<Rightarrow> (sills, cached)
      | None \<Rightarrow>
          (case map_of sp i of
             None \<Rightarrow> (AList.update i (Fin 0) sills, Fin 0)
           | Some up \<Rightarrow>
              (case byId ms up of
                 None \<Rightarrow> (AList.update i (Fin 0) sills, Fin 0)
               | Some m \<Rightarrow>
                  if up \<in> set seen then (AList.update i (Fin 0) sills, Fin 0)
                  else let (sills', s) = memberSill sp ms sills up (i # seen);
                           sill = js_add s (str_num (m_height_mm m))
                       in (AList.update i sill sills', sill))))"
  by pat_completeness auto
termination
proof (relation "measure (\<lambda>(sp, ms, sills, i, seen).
    2 * card (fst ` set sp - set seen) + (if i \<in> set seen then 1 else 0))", goal_cases)
  case (2 sp ms sills i seen up m)
  have fin: "finite (fst ` set sp - set seen)" by simp
  show ?case
  proof (cases "i \<in> set seen")
    case True
    then have "set (i # seen) = set seen" by auto
    with True 2 show ?thesis by (simp del: set_simps)
  next
    case False
    then have "i \<in> fst ` set sp - set seen" using 2 by (force dest: map_of_SomeD)
    then have "fst ` set sp - set (i # seen) \<subset> fst ` set sp - set seen" by auto
    then have "card (fst ` set sp - set (i # seen)) < card (fst ` set sp - set seen)"
      by (simp add: psubset_card_mono)
    with False show ?thesis by (simp del: set_simps)
  qed
qed simp

declare memberSill.simps [simp del]

fun place_members :: "StackResolution \<Rightarrow> ProductModuleJson list \<Rightarrow> ProductModuleJson \<Rightarrow> jsnum \<Rightarrow> ProductModuleJson list \<Rightarrow>
    (string \<times> jsnum) list \<times> jsnum \<times> ElevationMemberMm list \<Rightarrow>
    (string \<times> jsnum) list \<times> jsnum \<times> ElevationMemberMm list" where
  "place_members st ms root' cursor [] acc = acc"
| "place_members st ms root' cursor (member # rest) (sills, top', mems) =
     (if m_id member \<noteq> m_id root' \<and> map_of (stackRoot st) (m_id member) \<noteq> Some (m_id root')
      then place_members st ms root' cursor rest (sills, top', mems)
      else let w = str_num (m_width_mm member);
               h = str_num (m_height_mm member);
               (sills', sill) = memberSill (stackParent st) ms sills (m_id member) [m_id member];
               columnW = str_num (m_width_mm root')
           in place_members st ms root' cursor rest (sills', js_max top' (js_add sill h),
                mems @ [\<lparr>em_module = member, em_x = js_add cursor (js_div (js_sub columnW w) (Fin 2)),
                  em_w = w, em_sill = sill, em_h = h\<rparr>]))"

fun place_columns :: "StackResolution \<Rightarrow> ProductModuleJson list \<Rightarrow> ProductModuleJson list \<Rightarrow>
    (string \<times> jsnum) list \<times> jsnum \<times> ElevationMemberMm list \<times> ElevationColumnMm list \<Rightarrow>
    (string \<times> jsnum) list \<times> jsnum \<times> ElevationMemberMm list \<times> ElevationColumnMm list" where
  "place_columns st ms [] acc = acc"
| "place_columns st ms (root' # rest) (sills, cursor, mems, cols) =
     (if map_of (stackRoot st) (m_id root') \<noteq> None then place_columns st ms rest (sills, cursor, mems, cols)
      else let columnW = str_num (m_width_mm root');
               (sills', top', mems') = place_members st ms root' cursor ms (sills, Fin 0, mems)
           in place_columns st ms rest (sills', js_add cursor columnW, mems',
                cols @ [\<lparr>rootId = m_id root', ec_x = cursor, ec_w = columnW, ec_top = top'\<rparr>]))"

definition elevationLayoutMm :: "ProductJson \<Rightarrow> ElevationLayoutMm" where
  "elevationLayoutMm p =
     (let (_, _, mems, cols) = place_columns (resolveStacks p) (modules p) (modules p) ([], Fin 0, [], [])
      in \<lparr>members = mems, columns = cols\<rparr>)"

definition elevationEnvelopeMm :: "ProductJson \<Rightarrow> jsnum \<times> jsnum" where
  "elevationEnvelopeMm p =
     (let mems = members (elevationLayoutMm p)
      in if mems = [] then (Fin 0, Fin 0)
         else let left = js_Min (map em_x mems);
                  right = js_Max (map (\<lambda>m. js_add (em_x m) (em_w m)) mems);
                  top' = js_Max (map (\<lambda>m. js_add (em_sill m) (em_h m)) mems);
                  bottom = js_Min (map em_sill mems)
              in (js_sub right left, js_sub top' bottom))"

section \<open>Helpers of the edits\<close>

definition replaceModule :: "ProductJson \<Rightarrow> string \<Rightarrow> ProductModuleJson \<Rightarrow> ProductJson" where
  "replaceModule p moduleId md = p\<lparr>modules := map (\<lambda>e. if m_id e = moduleId then md else e) (modules p)\<rparr>"

definition replaceCoupling :: "ProductJson \<Rightarrow> string \<Rightarrow> CouplingJson \<Rightarrow> ProductJson" where
  "replaceCoupling p couplingId c = p\<lparr>couplings := map (\<lambda>e. if c_id e = couplingId then c else e) (couplings p)\<rparr>"

definition nextModuleId :: "ProductJson \<Rightarrow> string" where
  "nextModuleId p = fresh_name ''m'' (module_ids p) (length (modules p) + 1)"

definition nextCouplingId :: "ProductJson \<Rightarrow> string" where
  "nextCouplingId p = fresh_name ''c'' (coupling_ids p) (length (couplings p) + 1)"

text \<open>A deep copy of an immutable value is the value.\<close>

fun cloneTree :: "IntentNode \<Rightarrow> IntentNode" where
  "cloneTree (Node d cs) = Node d (case cs of None \<Rightarrow> None | Some xs \<Rightarrow> Some (map cloneTree xs))"

definition clone_frameless :: "FramelessSpecJson \<Rightarrow> FramelessSpecJson" where
  "clone_frameless f = \<lparr>supports = map (\<lambda>s. s) (supports f), fittings = map (\<lambda>s. s) (fittings f),
     exposed_edges = map_option (\<lambda>es. es) (exposed_edges f)\<rparr>"

definition materializeCouplings :: "ProductJson \<Rightarrow> CouplingJson list" where
  "materializeCouplings p =
     (let prs = map_new (map (\<lambda>r. (r_index r, r)) (resolveCouplings p))
      in map (\<lambda>(index, c).
           (case map_of prs index of None \<Rightarrow> c
            | Some entry \<Rightarrow> if c_modules c \<noteq> None \<and> c_edges c \<noteq> None then c
                else c\<lparr>c_modules := Some (r_pair entry), c_edges := Some (r_edges entry)\<rparr>))
         (entries (couplings p)))"

text \<open>
  A bulge past the last vertex makes the source read a member of \<open>undefined\<close>, which throws.
\<close>

definition scale_bulge :: "ContourJson \<Rightarrow> jsnum \<Rightarrow> jsnum \<Rightarrow> nat \<Rightarrow> string option \<Rightarrow> string option result" where
  "scale_bulge c sx sy i b =
     (case b of None \<Rightarrow> Inr None
      | Some s \<Rightarrow>
          (case nth_opt (vertices c) i of
             None \<Rightarrow> Inl (TypeError ''Cannot read properties of undefined'')
           | Some a \<Rightarrow>
              (let d = vertices c ! ((i + 1) mod length (vertices c));
                   dx = js_sub (str_num (x_mm d)) (str_num (x_mm a));
                   dy = js_sub (str_num (y_mm d)) (str_num (y_mm a));
                   len = js_or (js_hypot dx dy) (Fin 1);
                   factor = js_hypot (js_mul (js_div (js_neg dy) len) sx) (js_mul (js_div dx len) sy)
               in Inr (Some (toFixed 2 (js_mul (str_num s) factor))))))"

definition scaledContour :: "ContourJson \<Rightarrow> string \<Rightarrow> string \<Rightarrow> ContourJson result" where
  "scaledContour c widthMm' heightMm' =
     (let xs = map (\<lambda>v. str_num (x_mm v)) (vertices c);
          ys = map (\<lambda>v. str_num (y_mm v)) (vertices c);
          bw = js_sub (js_Max xs) (js_Min xs);
          bh = js_sub (js_Max ys) (js_Min ys);
          sx = js_div (str_num widthMm') (js_or bw (Fin 1));
          sy = js_div (str_num heightMm') (js_or bh (Fin 1));
          minX = js_Min xs;
          minY = js_Min ys
      in result_bind (map_result (\<lambda>(i, b). scale_bulge c sx sy i b) (entries (bulges c))) (\<lambda>bs.
           Inr \<lparr>vertices = map (\<lambda>v. vertex (toFixed 2 (js_mul (js_sub (str_num (x_mm v)) minX) sx))
                  (toFixed 2 (js_mul (js_sub (str_num (y_mm v)) minY) sy))) (vertices c),
                bulges = bs\<rparr>))"

text \<open>\<open>...(contour ? { contour: scaledContour(contour, w, h) } : {})\<close>.\<close>

definition scaled_opt :: "ContourJson option \<Rightarrow> string \<Rightarrow> string \<Rightarrow> ContourJson option result" where
  "scaled_opt co w h = (case co of None \<Rightarrow> Inr None
     | Some c \<Rightarrow> result_bind (scaledContour c w h) (\<lambda>c'. Inr (Some c')))"

section \<open>Facts about the helpers\<close>

lemma cloneTree_id [simp]: "cloneTree t = t"
proof (induction t rule: cloneTree.induct)
  case (1 d cs)
  then show ?case by (cases cs) (auto intro: map_idI)
qed

lemma clone_frameless_id [simp]: "clone_frameless f = f"
  by (simp add: clone_frameless_def option.map_ident)

text \<open>Fresh ids: the supply contract and what clients draw from it.\<close>

locale fresh_supply =
  fixes ids :: "'p \<Rightarrow> string list" and next_id :: "'p \<Rightarrow> string"
  assumes next_fresh: "next_id p \<notin> set (ids p)"
begin

lemma insert_distinct:
  assumes "distinct (ids p)" shows "distinct (Prelude.splice k 0 [next_id p] (ids p))"
proof -
  have "distinct (next_id p # ids p)" using assms next_fresh by simp
  moreover have "mset (Prelude.splice k 0 [next_id p] (ids p)) = mset (next_id p # ids p)"
    by (simp add: mset_splice_insert)
  ultimately show ?thesis using distinct_mset by blast
qed

lemma next_not_ends: "a \<in> set (ids p) \<Longrightarrow> a \<noteq> next_id p"
  using next_fresh by blast

end

interpretation fresh_module: fresh_supply module_ids nextModuleId
  by unfold_locales (simp add: nextModuleId_def fresh_name_fresh del: set_map)

interpretation fresh_coupling: fresh_supply coupling_ids nextCouplingId
  by unfold_locales (simp add: nextCouplingId_def fresh_name_fresh del: set_map)

lemma mem_map_filter: "y \<in> set (List.map_filter f xs) \<longleftrightarrow> (\<exists>x \<in> set xs. f x = Some y)"
  by (induction xs) (auto simp: map_filter_simps split: option.splits)

lemma mem_resolveCouplings:
  "r \<in> set (resolveCouplings p) \<longleftrightarrow> (\<exists>i < length (couplings p). resolve_one (modules p) i (couplings p ! i) = Some r)"
proof -
  have "r \<in> set (resolveCouplings p) \<longleftrightarrow> (\<exists>x \<in> set (entries (couplings p)). (\<lambda>(i, c). resolve_one (modules p) i c) x = Some r)"
    by (simp only: resolveCouplings_def mem_map_filter)
  also have "\<dots> \<longleftrightarrow> (\<exists>i < length (couplings p). resolve_one (modules p) i (couplings p ! i) = Some r)"
    by (auto simp: mem_entries Bex_def)
  finally show ?thesis .
qed

lemma distinct_map_filter_key:
  "distinct (map fst xs) \<Longrightarrow> (\<And>x r. x \<in> set xs \<Longrightarrow> f x = Some r \<Longrightarrow> g r = fst x) \<Longrightarrow> distinct (map g (List.map_filter f xs))"
proof (induction xs)
  case (Cons x xs)
  then have IH: "distinct (map g (List.map_filter f xs))" by simp
  have "g r \<in> fst ` set xs" if r: "r \<in> set (List.map_filter f xs)" for r
  proof -
    obtain y where y: "y \<in> set xs" "f y = Some r" using r by (auto simp: mem_map_filter)
    then have "g r = fst y" using Cons.prems(2) [of y r] by simp
    then show ?thesis using y by simp
  qed
  then have sub: "g ` set (List.map_filter f xs) \<subseteq> fst ` set xs" by blast
  show ?case
  proof (cases "f x")
    case (Some a)
    then have "g a = fst x" using Cons.prems(2) [of x a] by simp
    then have "g a \<notin> g ` set (List.map_filter f xs)" using Cons.prems(1) sub by (simp only: list.map distinct.simps set_map) blast
    then show ?thesis using Some IH by (simp add: map_filter_simps)
  qed (simp add: map_filter_simps IH)
qed (simp add: map_filter_simps)

lemma distinct_r_index: "distinct (map r_index (resolveCouplings p))"
  unfolding resolveCouplings_def
  by (rule distinct_map_filter_key) (auto simp: map_fst_entries dest: resolve_one_joint)

lemma pairs_get:
  assumes "i < length (couplings p)"
  shows "map_of (map_new (map (\<lambda>r. (r_index r, r)) (resolveCouplings p))) i = resolve_one (modules p) i (couplings p ! i)"
proof (cases "resolve_one (modules p) i (couplings p ! i)")
  case None
  have "r_index r \<noteq> i" if "r \<in> set (resolveCouplings p)" for r
    using None that resolve_one_joint unfolding mem_resolveCouplings by fastforce
  then have "i \<notin> r_index ` set (resolveCouplings p)" by auto
  then show ?thesis using None by (simp add: map_of_by_id_dom)
next
  case (Some r)
  then have "r \<in> set (resolveCouplings p)" "r_index r = i"
    using assms by (auto simp: mem_resolveCouplings dest: resolve_one_joint)
  then show ?thesis
    using find_distinct_key [OF distinct_r_index, of r p] Some by (simp add: map_of_by_id [OF distinct_r_index])
qed

lemma materialize_nth:
  assumes "i < length (couplings p)"
  shows "materializeCouplings p ! i = (case resolve_one (modules p) i (couplings p ! i) of None \<Rightarrow> couplings p ! i
     | Some r \<Rightarrow> if c_modules (couplings p ! i) \<noteq> None \<and> c_edges (couplings p ! i) \<noteq> None then couplings p ! i
         else (couplings p ! i)\<lparr>c_modules := Some (r_pair r), c_edges := Some (r_edges r)\<rparr>)"
proof -
  have "entries (couplings p) ! i = (i, couplings p ! i)" using assms by (simp add: entries_from_nth)
  then show ?thesis
    using assms by (simp add: materializeCouplings_def Let_def pairs_get)
qed

lemma length_materialize [simp]: "length (materializeCouplings p) = length (couplings p)"
  by (simp add: materializeCouplings_def Let_def)

lemma resolve_one_total:
  "length (resolveCouplings p) = length (couplings p) \<Longrightarrow> i < length (couplings p) \<Longrightarrow>
     \<exists>r. resolve_one (modules p) i (couplings p ! i) = Some r"
  using map_filter_total [of "\<lambda>(i, c). resolve_one (modules p) i c" "entries (couplings p)"]
  by (auto simp: resolveCouplings_def entries_from_nth)

lemma joints_nth:
  assumes "length (resolveCouplings p) = length (couplings p)"
  shows "joints p = map (\<lambda>i. joint (the (resolve_one (modules p) i (couplings p ! i)))) [0..<length (couplings p)]"
proof -
  have "resolveCouplings p = map (\<lambda>x. the ((\<lambda>(i, c). resolve_one (modules p) i c) x)) (entries (couplings p))"
    unfolding resolveCouplings_def using resolve_one_total [OF assms]
    by (intro map_filter_all) (auto simp: mem_entries)
  then show ?thesis by (simp add: joints_def entries_from_nth comp_def)
qed

text \<open>
  Pinning positional couplings: on an assembly whose couplings all resolve, every materialised coupling is
  explicit and spells the joint the product had there.
\<close>

lemma materialize_joints:
  assumes "length (resolveCouplings p) = length (couplings p)"
  shows "\<forall>c \<in> set (materializeCouplings p). explicit c"
    and "map explicit_joint (materializeCouplings p) = joints p"
    and "map c_id (materializeCouplings p) = coupling_ids p"
proof -
  have each: "explicit (materializeCouplings p ! i) \<and> c_id (materializeCouplings p ! i) = c_id (couplings p ! i) \<and>
      explicit_joint (materializeCouplings p ! i) = joint (the (resolve_one (modules p) i (couplings p ! i)))"
    if i: "i < length (couplings p)" for i
  proof -
    obtain r where r: "resolve_one (modules p) i (couplings p ! i) = Some r" using resolve_one_total [OF assms i] by blast
    then show ?thesis
      unfolding materialize_nth [OF i]
      by (auto simp: explicit_def explicit_joint_def resolve_one_def joint_def split: option.splits)
  qed
  then show "\<forall>c \<in> set (materializeCouplings p). explicit c" by (auto simp: in_set_conv_nth)
  show "map explicit_joint (materializeCouplings p) = joints p"
    unfolding joints_nth [OF assms] using each by (intro nth_equalityI) auto
  show "map c_id (materializeCouplings p) = coupling_ids p"
    using each by (intro nth_equalityI) auto
qed

end
