(* ===== verification/ProductStructure.thy ===== *)
theory ProductStructure
  imports ProductModel
begin

text \<open>
  \<open>features/canvas/productEditing.ts\<close>, second part: the edits that add, remove, reorder or count
  modules, with the joints they create, merge or sever. Every edit is shown to keep the assembly
  invariant \<open>wf_product\<close>, and what it does to the joints is stated exactly.
\<close>

section \<open>Edits\<close>

definition addAdjacentUnit :: "ProductJson \<Rightarrow> GraphEdge \<Rightarrow> string option \<Rightarrow> ProductJson option result" where
  "addAdjacentUnit p side' width =
     (case chainEnd p side' of None \<Rightarrow> Inr None
      | Some edge \<Rightarrow>
         (let outerCoupling = map_option r_coupling (last_opt (incidentCouplings p (m_id edge)));
              widthMm' = (case width of None \<Rightarrow> m_width_mm edge | Some w \<Rightarrow> w)
          in result_bind (scaled_opt (contour edge) widthMm' (m_height_mm edge)) (\<lambda>co.
               let md = \<lparr>m_id = nextModuleId p, m_width_mm = widthMm', m_height_mm = m_height_mm edge,
                     tree = cloneTree (tree edge), contour = co, frameless = map_option clone_frameless (frameless edge)\<rparr>;
                   coupling = \<lparr>c_id = nextCouplingId p,
                     angle_deg = (case outerCoupling of None \<Rightarrow> ''0.0'' | Some c \<Rightarrow> angle_deg c),
                     coupler_profile_sku = (case outerCoupling of None \<Rightarrow> None | Some c \<Rightarrow> coupler_profile_sku c),
                     kind = Some INLINE,
                     c_modules = Some (if side' = E_right then (m_id edge, m_id md) else (m_id md, m_id edge)),
                     c_edges = Some (E_right, E_left)\<rparr>;
                   materialized = materializeCouplings p
               in Inr (Some (if side' = E_right
                    then \<lparr>modules = modules p @ [md], couplings = materialized @ [coupling]\<rparr>
                    else \<lparr>modules = md # modules p, couplings = coupling # materialized\<rparr>)))))"

text \<open>The module and side a bridged joint leaves to its survivor.\<close>

definition survivor :: "string \<Rightarrow> ResolvedCoupling \<Rightarrow> string \<times> GraphEdge" where
  "survivor moduleId r =
     (if fst (r_pair r) = moduleId then (snd (r_pair r), snd (r_edges r)) else (fst (r_pair r), fst (r_edges r)))"

definition edgeFree :: "ResolvedCoupling list \<Rightarrow> string \<times> GraphEdge \<Rightarrow> bool" where
  "edgeFree remaining me = (\<not> list_ex (\<lambda>r. (fst (r_pair r), fst (r_edges r)) = me \<or> (snd (r_pair r), snd (r_edges r)) = me) remaining)"

definition joinable :: "ProductJson \<Rightarrow> ProductModuleJson list \<Rightarrow> ResolvedCoupling list \<Rightarrow> string \<times> GraphEdge \<Rightarrow>
    string \<times> GraphEdge \<Rightarrow> bool" where
  "joinable p nextModules remaining first second =
     (fst first \<noteq> fst second \<and>
      (case (byId nextModules (fst first), byId nextModules (fst second)) of
         (Some a, Some b) \<Rightarrow> \<not> shaped a \<and> \<not> shaped b | _ \<Rightarrow> False) \<and>
      edgeFree remaining first \<and> edgeFree remaining second \<and>
      \<not> alreadyJoined p (fst first) (fst second))"

definition removeUnit :: "ProductJson \<Rightarrow> string \<Rightarrow> ProductJson option" where
  "removeUnit p moduleId =
     (if \<not> list_ex (\<lambda>m. m_id m = moduleId) (modules p) \<or> length (modules p) = 1 then None
      else
        let resolved = resolveCouplings p;
            incident = filter (\<lambda>r. fst (r_pair r) = moduleId \<or> snd (r_pair r) = moduleId) resolved;
            dropped = map r_index incident;
            nextModules = filter (\<lambda>m. m_id m \<noteq> moduleId) (modules p);
            nextCouplings = map snd (filter (\<lambda>(i, c). i \<notin> set dropped) (entries (materializeCouplings p)))
        in case incident of
             [i0, i1] \<Rightarrow>
               if r_kind i0 = INLINE \<and> r_kind i1 = INLINE then
                 let first = survivor moduleId i0;
                     second = survivor moduleId i1;
                     remaining = filter (\<lambda>r. r_index r \<notin> set dropped) resolved
                 in if joinable p nextModules remaining first second then
                      let (left, right) = (if order_of nextModules (fst first) \<le> order_of nextModules (fst second)
                            then (first, second) else (second, first));
                          earlier = (if r_index i0 \<le> r_index i1 then i0 else i1);
                          merged = \<lparr>c_id = c_id (r_coupling earlier),
                            angle_deg = toFixed 1 (js_add (str_num (angle_deg (r_coupling i0))) (str_num (angle_deg (r_coupling i1)))),
                            coupler_profile_sku = (case coupler_profile_sku (r_coupling i0) of
                              Some s \<Rightarrow> Some s | None \<Rightarrow> coupler_profile_sku (r_coupling i1)),
                            kind = Some INLINE,
                            c_modules = Some (fst left, fst right),
                            c_edges = Some (snd left, snd right)\<rparr>
                      in Some \<lparr>modules = nextModules, couplings = Prelude.splice (r_index earlier) 0 [merged] nextCouplings\<rparr>
                    else Some \<lparr>modules = nextModules, couplings = nextCouplings\<rparr>
               else Some \<lparr>modules = nextModules, couplings = nextCouplings\<rparr>
           | _ \<Rightarrow> Some \<lparr>modules = nextModules, couplings = nextCouplings\<rparr>)"

fun OPPOSITE :: "GraphEdge \<Rightarrow> GraphEdge" where
  "OPPOSITE E_left = E_right"
| "OPPOSITE E_right = E_left"
| "OPPOSITE E_top = E_bottom"
| "OPPOSITE E_bottom = E_top"

definition insertModuleBetween :: "ProductJson \<Rightarrow> string \<Rightarrow> string option \<Rightarrow> ProductJson option" where
  "insertModuleBetween p couplingId width =
     (case List.find (\<lambda>r. c_id (r_coupling r) = couplingId) (resolveCouplings p) of
        None \<Rightarrow> None
      | Some resolved \<Rightarrow>
          if r_kind resolved \<noteq> INLINE then None
          else case (byId (modules p) (fst (r_pair resolved)), byId (modules p) (snd (r_pair resolved))) of
            (Some left, Some right) \<Rightarrow>
              if shaped left \<or> shaped right then None
              else
                let widthMm' = (case width of None \<Rightarrow> m_width_mm left | Some w \<Rightarrow> w);
                    inserted = \<lparr>m_id = nextModuleId p, m_width_mm = widthMm', m_height_mm = m_height_mm left,
                      tree = cloneTree (tree left), contour = None, frameless = None\<rparr>;
                    totalAngle = str_num (angle_deg (r_coupling resolved));
                    halfAngle = js_div totalAngle (Fin 2);
                    first = \<lparr>c_id = c_id (r_coupling resolved), angle_deg = toFixed 1 halfAngle,
                      coupler_profile_sku = coupler_profile_sku (r_coupling resolved), kind = Some INLINE,
                      c_modules = Some (m_id left, m_id inserted),
                      c_edges = Some (fst (r_edges resolved), OPPOSITE (fst (r_edges resolved)))\<rparr>;
                    second = \<lparr>c_id = nextCouplingId p, angle_deg = toFixed 1 (js_sub totalAngle halfAngle),
                      coupler_profile_sku = coupler_profile_sku (r_coupling resolved), kind = Some INLINE,
                      c_modules = Some (m_id inserted, m_id right),
                      c_edges = Some (OPPOSITE (snd (r_edges resolved)), snd (r_edges resolved))\<rparr>;
                    nextCouplings = Prelude.splice (r_index resolved) 1 [first, second] (materializeCouplings p);
                    insertAt = (case findIndex (\<lambda>m. m_id m = m_id right) (modules p) of
                      None \<Rightarrow> length (modules p) | Some k \<Rightarrow> k)
                in Some \<lparr>modules = Prelude.splice insertAt 0 [inserted] (modules p), couplings = nextCouplings\<rparr>
          | _ \<Rightarrow> None)"

definition duplicateModule :: "ProductJson \<Rightarrow> string \<Rightarrow> ProductJson option result" where
  "duplicateModule p moduleId =
     (case find_module p moduleId of None \<Rightarrow> Inr None
      | Some source \<Rightarrow>
         (let used = usedEdges p moduleId;
              side' = (if E_right \<notin> used then Some E_right else if E_left \<notin> used then Some E_left else None)
          in case side' of None \<Rightarrow> Inr None
             | Some sd \<Rightarrow>
                 result_bind (scaled_opt (contour source) (m_width_mm source) (m_height_mm source)) (\<lambda>co.
                   let copy = source\<lparr>m_id := nextModuleId p, tree := cloneTree (tree source), contour := co,
                         frameless := map_option clone_frameless (frameless source)\<rparr>;
                       coupling = \<lparr>c_id = nextCouplingId p, angle_deg = ''0.0'', coupler_profile_sku = None,
                         kind = Some INLINE,
                         c_modules = Some (if sd = E_right then (m_id source, m_id copy) else (m_id copy, m_id source)),
                         c_edges = Some (E_right, E_left)\<rparr>;
                       position = (case findIndex (\<lambda>m. m_id m = moduleId) (modules p) of None \<Rightarrow> 0 | Some k \<Rightarrow> k)
                   in Inr (Some \<lparr>modules = Prelude.splice (if sd = E_right then position + 1 else position) 0 [copy] (modules p),
                        couplings = materializeCouplings p @ [coupling]\<rparr>))))"

fun neighbor_step :: "ProductModuleJson list \<Rightarrow> string \<Rightarrow> nat \<Rightarrow> ResolvedCoupling \<Rightarrow> string option \<times> string option \<Rightarrow>
    string option \<times> string option" where
  "neighbor_step ms moduleId index r (l, rt) =
     (if r_kind r \<noteq> INLINE then (l, rt)
      else case (if fst (r_pair r) = moduleId then Some (snd (r_pair r))
                 else if snd (r_pair r) = moduleId then Some (fst (r_pair r)) else None) of
          None \<Rightarrow> (l, rt)
        | Some other \<Rightarrow>
            (case findIndex (\<lambda>m. m_id m = other) ms of
               None \<Rightarrow> (l, rt)
             | Some otherIndex \<Rightarrow>
                 if otherIndex < index then (Some other, rt)
                 else if otherIndex > index then (l, Some other) else (l, rt)))"

definition moduleNeighbors :: "ProductJson \<Rightarrow> string \<Rightarrow> string option \<times> string option" where
  "moduleNeighbors p moduleId =
     (case findIndex (\<lambda>m. m_id m = moduleId) (modules p) of
        None \<Rightarrow> (None, None)
      | Some index \<Rightarrow> fold (neighbor_step (modules p) moduleId index) (resolveCouplings p) (None, None))"

definition swap_id :: "string \<Rightarrow> string \<Rightarrow> string \<Rightarrow> string" where
  "swap_id a b i = (if i = a then b else if i = b then a else i)"

definition swapModules :: "ProductJson \<Rightarrow> string \<Rightarrow> string \<Rightarrow> ProductJson option" where
  "swapModules p moduleA moduleB =
     (if moduleA = moduleB then None
      else case (findIndex (\<lambda>m. m_id m = moduleA) (modules p), findIndex (\<lambda>m. m_id m = moduleB) (modules p)) of
        (Some indexA, Some indexB) \<Rightarrow>
          Some \<lparr>modules = (modules p)[indexA := modules p ! indexB, indexB := modules p ! indexA],
            couplings = map (\<lambda>c. case c_modules c of
                None \<Rightarrow> c
              | Some (x, y) \<Rightarrow>
                  if x \<noteq> moduleA \<and> y \<noteq> moduleA \<and> x \<noteq> moduleB \<and> y \<noteq> moduleB then c
                  else c\<lparr>c_modules := Some (swap_id moduleA moduleB x, swap_id moduleA moduleB y)\<rparr>)
              (materializeCouplings p)\<rparr>
      | _ \<Rightarrow> None)"

definition wrapTreeAsProduct :: "IntentNode \<Rightarrow> string \<Rightarrow> string \<Rightarrow> ProductJson" where
  "wrapTreeAsProduct t widthMm' heightMm' =
     \<lparr>modules = [\<lparr>m_id = ''m1'', m_width_mm = widthMm', m_height_mm = heightMm', tree = t, contour = None, frameless = None\<rparr>],
      couplings = []\<rparr>"

definition isSingleUnit :: "ProductJson \<Rightarrow> bool" where
  "isSingleUnit p \<longleftrightarrow> length (modules p) = 1 \<and> couplings p = [] \<and>
     (case modules p of m # _ \<Rightarrow> contour m = None \<and> frameless m = None | [] \<Rightarrow> True)"

definition setAllCouplingAngles :: "ProductJson \<Rightarrow> string \<Rightarrow> ProductJson" where
  "setAllCouplingAngles p a = p\<lparr>couplings := map (\<lambda>c. c\<lparr>angle_deg := a\<rparr>) (couplings p)\<rparr>"

text \<open>The two loops of \<open>setModuleCount\<close>; a loop that does not end is \<open>None\<close>.\<close>

partial_function (option) trim_modules :: "ProductJson \<Rightarrow> int \<Rightarrow> ProductJson option" where
  "trim_modules next' n =
     (if int (length (modules next')) > n then
        (case removeUnit next' (m_id (last (modules next'))) of
           None \<Rightarrow> trim_modules next' n
         | Some q \<Rightarrow> trim_modules q n)
      else Some next')"

partial_function (option) grow_modules :: "ProductJson \<Rightarrow> int \<Rightarrow> ProductJson result option" where
  "grow_modules next' n =
     (if int (length (modules next')) < n then
        (case addAdjacentUnit next' E_right None of
           Inl e \<Rightarrow> Some (Inl e)
         | Inr None \<Rightarrow> grow_modules next' n
         | Inr (Some q) \<Rightarrow> grow_modules q n)
      else Some (Inr next'))"

definition setModuleCount :: "ProductJson \<Rightarrow> int \<Rightarrow> ProductJson option result option" where
  "setModuleCount p n =
     (let current = int (length (modules p))
      in if n < 1 \<or> n = current then Some (Inr None)
         else if n < current then map_option (\<lambda>q. Inr (Some q)) (trim_modules p n)
         else map_option (map_sum id Some) (grow_modules p n))"

definition addStackedUnit :: "ProductJson \<Rightarrow> string \<Rightarrow> string option \<Rightarrow> ProductJson option" where
  "addStackedUnit p baseId height =
     (case find_module p baseId of None \<Rightarrow> None
      | Some base \<Rightarrow>
          if shaped base then None
          else if E_top \<in> usedEdges p baseId then None
          else
            let member = \<lparr>m_id = nextModuleId p, m_width_mm = m_width_mm base,
                  m_height_mm = (case height of None \<Rightarrow> ''600.00'' | Some h \<Rightarrow> h), tree = cloneTree (tree base),
                  contour = None, frameless = None\<rparr>;
                withMember = p\<lparr>modules := modules p @ [member]\<rparr>
            in Some (case linkModules withMember baseId E_top (m_id member) E_bottom STACKED no_options of
                 None \<Rightarrow> withMember | Some q \<Rightarrow> q))"

section \<open>Attaching a module\<close>

lemma wf_graph_ends: "wf_graph ids js \<Longrightarrow> j \<in> set js \<Longrightarrow> fst (j_pair j) \<in> set ids \<and> snd (j_pair j) \<in> set ids"
  by (simp add: wf_graph_def)

lemma not_conn_fresh:
  assumes "wf_graph ids js" "n \<notin> set ids" "x \<noteq> n"
  shows "(x, n) \<notin> conn (set (map j_pair js))"
proof
  assume "(x, n) \<in> conn (set (map j_pair js))"
  then have "n \<in> fst ` set (map j_pair js) \<union> snd ` set (map j_pair js)"
    using conn_fresh [OF conn_sym] assms(3) by metis
  then show False using wf_graph_ends [OF assms(1)] assms(2) by auto
qed

lemma wf_graph_attach:
  assumes w: "wf_graph ids js" and n: "n \<notin> set ids" and a: "a \<in> set ids"
    and free: "\<forall>j \<in> set js. (a, e) \<notin> set (claims j)"
    and pr: "j_pair j = (a, n) \<or> j_pair j = (n, a)" and cl: "set (claims j) = {(a, e), (n, e')}"
    and i: "j_id j \<notin> j_id ` set js"
  shows "wf_graph (n # ids) (j # js)"
proof (rule wf_graph_add_joint [OF wf_graph_add_node [OF w n] i])
  show "fst (j_pair j) \<in> set (n # ids)" "snd (j_pair j) \<in> set (n # ids)" using pr a by auto
  have "(n, e') \<notin> set (claims k)" if "k \<in> set js" for k
    using wf_graph_ends [OF w that] n by (auto simp: claims_def)
  then show "\<forall>c \<in> set (claims j). \<forall>k \<in> set js. c \<notin> set (claims k)" using cl free by auto
  have "a \<noteq> n" using a n by auto
  then have "(a, n) \<notin> conn (set (map j_pair js))" by (rule not_conn_fresh [OF w n])
  then show "j_pair j \<notin> conn (set (map j_pair js))" using pr conn_sym by auto
qed

text \<open>A product whose couplings all name their modules is well formed when its graph is.\<close>

lemma wf_product_explicit:
  assumes "\<forall>c \<in> set (couplings p). explicit c" "modules p \<noteq> []" "wf_graph (module_ids p) (map explicit_joint (couplings p))"
  shows "wf_product p"
  using assms joints_explicit [OF assms(1)] by (simp add: wf_product_def)

lemma wf_product_parts:
  assumes "wf_product p"
  shows "wf_graph (module_ids p) (joints p)" "length (resolveCouplings p) = length (couplings p)"
    "distinct (module_ids p)" "j_id ` set (joints p) = set (coupling_ids p)"
    "\<forall>c \<in> set (materializeCouplings p). explicit c" "map explicit_joint (materializeCouplings p) = joints p"
  using assms materialize_joints [of p] wf_product_joint_ids [of p]
  by (auto simp: wf_product_def wf_graph_def simp flip: set_map)

lemma chainEnd_Some:
  assumes "chainEnd p sd = Some m"
  shows "m \<in> set (modules p)" "sd \<notin> usedEdges p (m_id m)"
  using assms
  by (auto simp: chainEnd_def chainEndCandidates_def Let_def split: if_splits dest!: last_opt_Some first_opt_Some)

lemma chainEnd_None: "chainEnd p sd = None \<longleftrightarrow> (\<forall>m \<in> set (modules p). sd \<in> usedEdges p (m_id m))"
  by (auto simp: chainEnd_def chainEndCandidates_def Let_def filter_empty_conv)

text \<open>The joint and module an appended unit adds.\<close>

lemma addAdjacentUnit_Some:
  assumes "addAdjacentUnit p sd width = Inr (Some q)" "sd = E_left \<or> sd = E_right"
  obtains edge md c where "chainEnd p sd = Some edge" "m_id md = nextModuleId p" "c_id c = nextCouplingId p"
    "explicit_joint c = \<lparr>j_id = nextCouplingId p, j_angle = angle_deg c, j_sku = coupler_profile_sku c,
       j_pair = (if sd = E_right then (m_id edge, m_id md) else (m_id md, m_id edge)),
       j_edges = (E_right, E_left), j_kind = INLINE\<rparr>" "explicit c"
    "m_height_mm md = m_height_mm edge" "tree md = tree edge"
    "m_width_mm md = (case width of None \<Rightarrow> m_width_mm edge | Some w \<Rightarrow> w)"
    "modules q = (if sd = E_right then modules p @ [md] else md # modules p)"
    "couplings q = (if sd = E_right then materializeCouplings p @ [c] else c # materializeCouplings p)"
proof -
  obtain edge where e: "chainEnd p sd = Some edge" using assms(1) by (auto simp: addAdjacentUnit_def split: option.splits)
  define w where "w = (case width of None \<Rightarrow> m_width_mm edge | Some w \<Rightarrow> w)"
  obtain co where co: "scaled_opt (contour edge) w (m_height_mm edge) = Inr co"
    using assms(1) by (auto simp: addAdjacentUnit_def e Let_def w_def result_bind_Inr)
  define md where "md = \<lparr>m_id = nextModuleId p, m_width_mm = w, m_height_mm = m_height_mm edge,
      tree = tree edge, contour = co, frameless = map_option clone_frameless (frameless edge)\<rparr>"
  define oc where "oc = map_option r_coupling (last_opt (incidentCouplings p (m_id edge)))"
  define c where "c = \<lparr>c_id = nextCouplingId p,
      angle_deg = (case oc of None \<Rightarrow> ''0.0'' | Some c \<Rightarrow> angle_deg c),
      coupler_profile_sku = (case oc of None \<Rightarrow> None | Some c \<Rightarrow> coupler_profile_sku c),
      kind = Some INLINE,
      c_modules = Some (if sd = E_right then (m_id edge, m_id md) else (m_id md, m_id edge)),
      c_edges = Some (E_right, E_left)\<rparr>"
  have q: "q = (if sd = E_right
      then \<lparr>modules = modules p @ [md], couplings = materializeCouplings p @ [c]\<rparr>
      else \<lparr>modules = md # modules p, couplings = c # materializeCouplings p\<rparr>)"
    using assms(1) co unfolding addAdjacentUnit_def e md_def c_def oc_def w_def
    by (simp add: Let_def del: clone_frameless_id split: if_splits)
  show thesis
  proof (rule that [OF e, of md c])
    show "explicit_joint c = \<lparr>j_id = nextCouplingId p, j_angle = angle_deg c, j_sku = coupler_profile_sku c,
       j_pair = (if sd = E_right then (m_id edge, m_id md) else (m_id md, m_id edge)),
       j_edges = (E_right, E_left), j_kind = INLINE\<rparr>"
      by (rule trans [OF explicit_joint_simps]) (simp_all add: c_def)
  qed (simp_all add: q md_def c_def explicit_def w_def)
qed

lemma addAdjacentUnit_wf:
  assumes "wf_product p" "addAdjacentUnit p sd width = Inr (Some q)" "sd = E_left \<or> sd = E_right"
  shows "wf_product q" "length (modules q) = Suc (length (modules p))"
    "\<exists>m \<in> set (modules q). sd \<notin> usedEdges q (m_id m)"
proof -
  from assms(2,3) obtain edge md c where a: "chainEnd p sd = Some edge" "m_id md = nextModuleId p" "c_id c = nextCouplingId p"
    "explicit_joint c = \<lparr>j_id = nextCouplingId p, j_angle = angle_deg c, j_sku = coupler_profile_sku c,
       j_pair = (if sd = E_right then (m_id edge, m_id md) else (m_id md, m_id edge)),
       j_edges = (E_right, E_left), j_kind = INLINE\<rparr>" "explicit c"
    "m_height_mm md = m_height_mm edge" "tree md = tree edge"
    "m_width_mm md = (case width of None \<Rightarrow> m_width_mm edge | Some w \<Rightarrow> w)"
    "modules q = (if sd = E_right then modules p @ [md] else md # modules p)"
    "couplings q = (if sd = E_right then materializeCouplings p @ [c] else c # materializeCouplings p)"
    by (rule addAdjacentUnit_Some)
  note w = wf_product_parts [OF assms(1)]
  note e = chainEnd_Some [OF a(1)]
  have free: "\<forall>j \<in> set (joints p). (m_id edge, sd) \<notin> set (claims j)"
    using e(2) usedEdges_claims [OF w(1)] by simp
  have fresh: "nextModuleId p \<notin> set (module_ids p)" "nextCouplingId p \<notin> j_id ` set (joints p)"
    using fresh_module.next_fresh fresh_coupling.next_fresh w(4) by simp_all
  define other where "other = (if sd = E_right then E_left else E_right)"
  have "wf_graph (m_id md # module_ids p) (explicit_joint c # joints p)"
    by (rule wf_graph_attach [OF w(1), of _ "m_id edge" sd _ other])
      (use a e(1) free fresh assms(3) in \<open>auto simp: claims_def other_def\<close>)
  moreover have "mset (module_ids q) = mset (m_id md # module_ids p)" by (simp add: a(9))
  moreover have "mset (map explicit_joint (couplings q)) = mset (explicit_joint c # joints p)"
    by (simp add: a(10) flip: w(6))
  ultimately have "wf_graph (module_ids q) (map explicit_joint (couplings q))"
    using wf_graph_perm by blast
  moreover have ex: "\<forall>c \<in> set (couplings q). explicit c" using a(5,10) w(5) by auto
  ultimately show wq: "wf_product q" using a(9) by (intro wf_product_explicit) auto
  show "length (modules q) = Suc (length (modules p))" using a(9) by simp
  have "sd \<notin> usedEdges q (m_id md)"
  proof
    assume "sd \<in> usedEdges q (m_id md)"
    then obtain j where j: "j \<in> set (joints q)" "(m_id md, sd) \<in> set (claims j)"
      using usedEdges_claims [OF wf_product_parts(1) [OF wq]] by blast
    have "set (joints q) = insert (explicit_joint c) (set (joints p))"
      using joints_explicit(1) [OF ex] a(10) w(6) by (auto simp flip: set_map)
    then consider "j = explicit_joint c" | "j \<in> set (joints p)" using j(1) by auto
    then show False
    proof cases
      case 1
      then show False using j(2) a(2,4) e(1) fresh(1) assms(3) by (auto simp: claims_def split: if_splits)
    next
      case 2
      then show False using j(2) wf_graph_ends [OF w(1) 2] fresh(1) a(2) by (auto simp: claims_def)
    qed
  qed
  moreover have "md \<in> set (modules q)" using a(9) by simp
  ultimately show "\<exists>m \<in> set (modules q). sd \<notin> usedEdges q (m_id m)" by blast
qed

section \<open>Removing a module\<close>

lemma byId_distinct: "distinct (map m_id ms) \<Longrightarrow> m \<in> set ms \<Longrightarrow> byId ms (m_id m) = Some m"
  unfolding byId_def using find_distinct_key [of m_id ms m] map_of_by_id [of m_id ms "m_id m"] by simp

lemma byId_mem: "byId ms i = Some x \<Longrightarrow> i \<in> set (map m_id ms)"
  by (auto dest!: byId_Some)

definition touches :: "string \<Rightarrow> Joint \<Rightarrow> bool" where
  "touches m j \<longleftrightarrow> fst (j_pair j) = m \<or> snd (j_pair j) = m"

lemma touches_joint: "touches m (joint r) \<longleftrightarrow> fst (r_pair r) = m \<or> snd (r_pair r) = m"
  by (simp add: touches_def joint_def)

lemma incident_joints: "map joint (incidentCouplings p m) = filter (touches m) (joints p)"
  by (simp add: incidentCouplings_def joints_def filter_map comp_def touches_joint)

lemma dropped_iff:
  assumes "r \<in> set (resolveCouplings p)"
  shows "r_index r \<in> set (map r_index (incidentCouplings p m)) \<longleftrightarrow> touches m (joint r)"
proof -
  have "r = r'" if "r' \<in> set (resolveCouplings p)" "r_index r = r_index r'" for r'
    using that assms distinct_r_index [of p] by (auto simp: distinct_map inj_on_def)
  then show ?thesis using assms by (auto simp: incidentCouplings_def touches_joint)
qed

lemma remaining_joints:
  "map joint (filter (\<lambda>r. r_index r \<notin> set (map r_index (incidentCouplings p m))) (resolveCouplings p))
     = filter (\<lambda>j. \<not> touches m j) (joints p)"
  unfolding joints_def filter_map comp_def
  by (rule arg_cong [of _ _ "map joint"], rule filter_cong [OF refl]) (simp only: dropped_iff)

lemma kept_couplings:
  assumes "length (resolveCouplings p) = length (couplings p)"
  shows "map explicit_joint (map snd (filter (\<lambda>(i, c). i \<notin> set (map r_index (incidentCouplings p m)))
      (entries (materializeCouplings p)))) = filter (\<lambda>j. \<not> touches m j) (joints p)"
proof -
  let ?n = "length (couplings p)"
  let ?J = "\<lambda>i. joint (the (resolve_one (modules p) i (couplings p ! i)))"
  have e: "explicit_joint (materializeCouplings p ! i) = ?J i" if "i < ?n" for i
    using arg_cong [OF materialize_joints(2) [OF assms], of "\<lambda>xs. xs ! i"] that by (simp add: joints_nth [OF assms])
  have d: "i \<in> set (map r_index (incidentCouplings p m)) \<longleftrightarrow> touches m (?J i)" if i: "i < ?n" for i
  proof -
    obtain r where r: "resolve_one (modules p) i (couplings p ! i) = Some r" using resolve_one_total [OF assms i] by blast
    then have "r \<in> set (resolveCouplings p)" "r_index r = i"
      using i by (auto simp: mem_resolveCouplings dest: resolve_one_joint)
    then show ?thesis using dropped_iff [of r p m] r by simp
  qed
  have "map explicit_joint (map snd (filter (\<lambda>(i, c). i \<notin> set (map r_index (incidentCouplings p m))) (entries (materializeCouplings p))))
      = map (\<lambda>i. explicit_joint (materializeCouplings p ! i)) (filter (\<lambda>i. i \<notin> set (map r_index (incidentCouplings p m))) [0..<?n])"
    by (simp add: entries_from_nth filter_map comp_def)
  also have "\<dots> = map ?J (filter (\<lambda>i. \<not> touches m (?J i)) [0..<?n])"
    using e d by (intro map_cong filter_cong) auto
  also have "\<dots> = filter (\<lambda>j. \<not> touches m j) (joints p)"
    by (simp add: joints_nth [OF assms] filter_map comp_def)
  finally show ?thesis .
qed

lemma wf_graph_without:
  assumes "wf_graph ids js"
  shows "wf_graph (filter (\<lambda>i. i \<noteq> m) ids) (filter (\<lambda>j. \<not> touches m j) js)"
proof (rule wf_graph_remove_node)
  show "wf_graph ids (filter (\<lambda>j. \<not> touches m j) js)"
    by (rule wf_graph_remove [OF assms]) (simp add: mset_filter)
qed (auto simp: touches_def)

text \<open>Two joints of a bridged module: their far ends are connected by nothing else.\<close>

lemma bridge_not_conn:
  assumes w: "wf_graph ids js" and inc: "filter (touches m) js = [j0, j1]"
    and p0: "j_pair j0 = (a, m) \<or> j_pair j0 = (m, a)" and p1: "j_pair j1 = (b, m) \<or> j_pair j1 = (m, b)"
  shows "(a, b) \<notin> conn (set (map j_pair (filter (\<lambda>j. \<not> touches m j) js)))" (is "_ \<notin> conn ?R")
proof
  assume ab: "(a, b) \<in> conn ?R"
  have "mset js = mset (filter (touches m) js) + mset (filter (\<lambda>j. \<not> touches m j) js)" by (induction js) auto
  then have P: "mset js = mset [j0, j1] + mset (filter (\<lambda>j. \<not> touches m j) js)" by (simp only: inc)
  have E: "mset (map j_pair js) = add_mset (j_pair j0) (add_mset (j_pair j1) (mset (map j_pair (filter (\<lambda>j. \<not> touches m j) js))))"
    unfolding mset_map [of j_pair js] P by simp
  have "j_pair j0 \<notin> conn (set_mset (mset (map j_pair js) - {#j_pair j0#}))"
  proof -
    have "ring_free (mset (map j_pair js))" using w by (simp add: wf_graph_def)
    moreover have "j_pair j0 \<in># mset (map j_pair js)" unfolding E by simp
    ultimately show ?thesis unfolding ring_free_def by blast
  qed
  then have no: "j_pair j0 \<notin> conn (insert (j_pair j1) ?R)" unfolding E by simp
  have "conn ?R \<subseteq> conn (insert (j_pair j1) ?R)" by (rule conn_mono) auto
  then have "(a, b) \<in> conn (insert (j_pair j1) ?R)" using ab by blast
  moreover have "(b, m) \<in> conn (insert (j_pair j1) ?R)" 
    using p1
  proof
    assume "j_pair j1 = (b, m)" then show ?thesis by (intro conn_edge) simp
  next
    assume "j_pair j1 = (m, b)" then show ?thesis by (intro conn_sym [OF conn_edge]) simp
  qed
  ultimately have "(a, m) \<in> conn (insert (j_pair j1) ?R)" by (rule conn_trans)
  then show False using no p0 conn_sym by auto
qed

lemma survivor_claim: "touches m (joint r) \<Longrightarrow> survivor m r \<in> set (claims (joint r)) \<and>
   (j_pair (joint r) = (fst (survivor m r), m) \<or> j_pair (joint r) = (m, fst (survivor m r)))"
  by (cases "r_pair r") (auto simp: survivor_def claims_def joint_def touches_def)

lemma edgeFree_claims: "edgeFree rs me \<longleftrightarrow> (\<forall>j \<in> set (map joint rs). me \<notin> set (claims j))"
  by (auto simp: edgeFree_def list_ex_iff claims_def joint_def)

lemma removeUnit_unfold:
  "removeUnit p m =
     (if m \<notin> set (module_ids p) \<or> length (modules p) = 1 then None
      else let ms = filter (\<lambda>x. m_id x \<noteq> m) (modules p);
               cs = map snd (filter (\<lambda>(i, c). i \<notin> set (map r_index (incidentCouplings p m))) (entries (materializeCouplings p)));
               rest = filter (\<lambda>r. r_index r \<notin> set (map r_index (incidentCouplings p m))) (resolveCouplings p)
           in case incidentCouplings p m of
             [i0, i1] \<Rightarrow>
               if r_kind i0 = INLINE \<and> r_kind i1 = INLINE \<and> joinable p ms rest (survivor m i0) (survivor m i1) then
                 let (left, right) = (if order_of ms (fst (survivor m i0)) \<le> order_of ms (fst (survivor m i1))
                            then (survivor m i0, survivor m i1) else (survivor m i1, survivor m i0));
                     earlier = (if r_index i0 \<le> r_index i1 then i0 else i1)
                 in Some \<lparr>modules = ms, couplings = Prelude.splice (r_index earlier) 0
                      [\<lparr>c_id = c_id (r_coupling earlier),
                        angle_deg = toFixed 1 (js_add (str_num (angle_deg (r_coupling i0))) (str_num (angle_deg (r_coupling i1)))),
                        coupler_profile_sku = (case coupler_profile_sku (r_coupling i0) of
                              Some s \<Rightarrow> Some s | None \<Rightarrow> coupler_profile_sku (r_coupling i1)),
                        kind = Some INLINE, c_modules = Some (fst left, fst right), c_edges = Some (snd left, snd right)\<rparr>] cs\<rparr>
               else Some \<lparr>modules = ms, couplings = cs\<rparr>
           | _ \<Rightarrow> Some \<lparr>modules = ms, couplings = cs\<rparr>)"
proof -
  have "list_ex (\<lambda>x. m_id x = m) (modules p) \<longleftrightarrow> m \<in> set (module_ids p)" by (auto simp: list_ex_iff)
  then show ?thesis
    unfolding removeUnit_def incidentCouplings_def [symmetric] Let_def by (auto split: list.splits)
qed

text \<open>The merged joint of a removal: two inline joints of the module, and the coupling that replaces them.\<close>

definition merge_of :: "ProductJson \<Rightarrow> string \<Rightarrow> ProductJson \<Rightarrow> CouplingJson list \<Rightarrow> ResolvedCoupling \<Rightarrow> ResolvedCoupling \<Rightarrow>
    nat \<Rightarrow> CouplingJson \<Rightarrow> bool" where
  "merge_of p m q cs i0 i1 k c \<longleftrightarrow> incidentCouplings p m = [i0, i1] \<and>
       r_kind i0 = INLINE \<and> r_kind i1 = INLINE \<and>
       joinable p (modules q) (filter (\<lambda>r. r_index r \<notin> set (map r_index (incidentCouplings p m))) (resolveCouplings p))
         (survivor m i0) (survivor m i1) \<and>
       couplings q = Prelude.splice k 0 [c] cs \<and> explicit c \<and>
       (c_id c = c_id (r_coupling i0) \<or> c_id c = c_id (r_coupling i1)) \<and>
       set (claims (explicit_joint c)) = {survivor m i0, survivor m i1} \<and> j_kind (explicit_joint c) = INLINE \<and>
       j_id (explicit_joint c) = c_id c \<and>
       j_angle (explicit_joint c) = toFixed 1 (js_add (str_num (angle_deg (r_coupling i0))) (str_num (angle_deg (r_coupling i1)))) \<and>
       (j_pair (explicit_joint c) = (fst (survivor m i0), fst (survivor m i1)) \<or>
        j_pair (explicit_joint c) = (fst (survivor m i1), fst (survivor m i0)))"

text \<open>The outcome of a removal: the survivors, and either the remaining joints or one merged joint more.\<close>

lemma removeUnit_cases:
  assumes "removeUnit p m = Some q"
  obtains cs where "m \<in> set (module_ids p)" "length (modules p) \<noteq> 1"
    "modules q = filter (\<lambda>x. m_id x \<noteq> m) (modules p)"
    "cs = map snd (filter (\<lambda>(i, c). i \<notin> set (map r_index (incidentCouplings p m))) (entries (materializeCouplings p)))"
    "couplings q = cs \<or> (\<exists>i0 i1 k c. merge_of p m q cs i0 i1 k c)"
proof -
  let ?ms = "filter (\<lambda>x. m_id x \<noteq> m) (modules p)"
  let ?rest = "filter (\<lambda>r. r_index r \<notin> set (map r_index (incidentCouplings p m))) (resolveCouplings p)"
  define cs where "cs = map snd (filter (\<lambda>(i, c). i \<notin> set (map r_index (incidentCouplings p m))) (entries (materializeCouplings p)))"
  have g: "m \<in> set (module_ids p)" "length (modules p) \<noteq> 1"
    using assms by (auto simp: removeUnit_unfold split: if_splits)
  note done' = that [OF g _ cs_def]
  have plain: thesis if "q = \<lparr>modules = ?ms, couplings = cs\<rparr>"
    using that by (intro done') simp_all
  show thesis
  proof (cases "\<exists>i0 i1. incidentCouplings p m = [i0, i1] \<and> r_kind i0 = INLINE \<and> r_kind i1 = INLINE \<and>
      joinable p ?ms ?rest (survivor m i0) (survivor m i1)")
    case False
    then have "q = \<lparr>modules = ?ms, couplings = cs\<rparr>"
      using assms g unfolding removeUnit_unfold cs_def Let_def by (auto split: list.splits if_splits)
    then show thesis by (rule plain)
  next
    case True
    then obtain i0 i1 where i: "incidentCouplings p m = [i0, i1]" "r_kind i0 = INLINE" "r_kind i1 = INLINE"
      "joinable p ?ms ?rest (survivor m i0) (survivor m i1)" by blast
    define sw where "sw \<longleftrightarrow> order_of ?ms (fst (survivor m i0)) \<le> order_of ?ms (fst (survivor m i1))"
    define earlier where "earlier = (if r_index i0 \<le> r_index i1 then i0 else i1)"
    define c where "c = \<lparr>c_id = c_id (r_coupling earlier),
        angle_deg = toFixed 1 (js_add (str_num (angle_deg (r_coupling i0))) (str_num (angle_deg (r_coupling i1)))),
        coupler_profile_sku = (case coupler_profile_sku (r_coupling i0) of
              Some s \<Rightarrow> Some s | None \<Rightarrow> coupler_profile_sku (r_coupling i1)),
        kind = Some INLINE,
        c_modules = Some (if sw then (fst (survivor m i0), fst (survivor m i1)) else (fst (survivor m i1), fst (survivor m i0))),
        c_edges = Some (if sw then (snd (survivor m i0), snd (survivor m i1)) else (snd (survivor m i1), snd (survivor m i0)))\<rparr>"
    have q: "q = \<lparr>modules = ?ms, couplings = Prelude.splice (r_index earlier) 0 [c] cs\<rparr>"
      using assms g i unfolding removeUnit_unfold cs_def c_def sw_def earlier_def Let_def
      by (auto split: if_splits)
    have j: "explicit_joint c = \<lparr>j_id = c_id c, j_angle = angle_deg c, j_sku = coupler_profile_sku c,
        j_pair = (if sw then (fst (survivor m i0), fst (survivor m i1)) else (fst (survivor m i1), fst (survivor m i0))),
        j_edges = (if sw then (snd (survivor m i0), snd (survivor m i1)) else (snd (survivor m i1), snd (survivor m i0))),
        j_kind = INLINE\<rparr>"
      by (rule explicit_joint_simps) (simp_all add: c_def)
    have cl: "set (claims (explicit_joint c)) = {survivor m i0, survivor m i1}" by (auto simp: j claims_def)
    have ex: "explicit c" by (simp add: explicit_def c_def)
    have "merge_of p m q cs i0 i1 (r_index earlier) c"
      unfolding merge_of_def
    proof (intro conjI)
      show "couplings q = Prelude.splice (r_index earlier) 0 [c] cs" by (simp add: q)
      show "joinable p (modules q) ?rest (survivor m i0) (survivor m i1)" using i(4) by (simp add: q)
      show "c_id c = c_id (r_coupling i0) \<or> c_id c = c_id (r_coupling i1)" by (simp add: c_def earlier_def)
      show "j_angle (explicit_joint c) = toFixed 1 (js_add (str_num (angle_deg (r_coupling i0))) (str_num (angle_deg (r_coupling i1))))"
        by (simp add: j) (simp add: c_def)
    qed (use i cl ex j in auto)
    then show thesis using q by (intro done') auto
  qed
qed

lemma merge_of_parts:
  assumes "merge_of p m q cs i0 i1 k c"
  shows "incidentCouplings p m = [i0, i1]" "r_kind i0 = INLINE" "r_kind i1 = INLINE"
    "joinable p (modules q) (filter (\<lambda>r. r_index r \<notin> set (map r_index (incidentCouplings p m))) (resolveCouplings p))
         (survivor m i0) (survivor m i1)"
    "couplings q = Prelude.splice k 0 [c] cs" "explicit c"
    "c_id c = c_id (r_coupling i0) \<or> c_id c = c_id (r_coupling i1)"
    "set (claims (explicit_joint c)) = {survivor m i0, survivor m i1}" "j_kind (explicit_joint c) = INLINE"
    "j_id (explicit_joint c) = c_id c"
    "j_angle (explicit_joint c) = toFixed 1 (js_add (str_num (angle_deg (r_coupling i0))) (str_num (angle_deg (r_coupling i1))))"
    "j_pair (explicit_joint c) = (fst (survivor m i0), fst (survivor m i1)) \<or>
        j_pair (explicit_joint c) = (fst (survivor m i1), fst (survivor m i0))"
  using assms unfolding merge_of_def by blast+

lemma merge_wf:
  assumes wf: "wf_product p" and mg: "merge_of p m q cs i0 i1 k c"
    and base: "wf_graph (module_ids q) (filter (\<lambda>j. \<not> touches m j) (joints p))"
  shows "wf_graph (module_ids q) (explicit_joint c # filter (\<lambda>j. \<not> touches m j) (joints p))"
proof -
  note w = wf_product_parts [OF wf] and g = merge_of_parts [OF mg]
  let ?j = "explicit_joint c" and ?R = "filter (\<lambda>j. \<not> touches m j) (joints p)"
  have inc: "filter (touches m) (joints p) = [joint i0, joint i1]"
    using incident_joints [of p m] g(1) by simp
  have mem: "joint i0 \<in> set (joints p)" "joint i1 \<in> set (joints p)" "touches m (joint i0)" "touches m (joint i1)"
    using arg_cong [OF inc, of set] by auto
  note sv = survivor_claim [OF mem(3)] survivor_claim [OF mem(4)]
  have free: "\<forall>j \<in> set ?R. survivor m i0 \<notin> set (claims j) \<and> survivor m i1 \<notin> set (claims j)"
    using g(4) unfolding joinable_def edgeFree_claims remaining_joints by auto
  have ends: "fst (survivor m i0) \<in> set (module_ids q)" "fst (survivor m i1) \<in> set (module_ids q)"
    using g(4) byId_mem unfolding joinable_def by (auto split: option.splits simp del: set_map)
  show ?thesis
  proof (rule wf_graph_add_joint [OF base])
    show "fst (j_pair ?j) \<in> set (module_ids q)" "snd (j_pair ?j) \<in> set (module_ids q)" using g(12) ends by auto
    show "\<forall>x \<in> set (claims ?j). \<forall>k \<in> set ?R. x \<notin> set (claims k)" using g(8) free by auto
    have "(fst (survivor m i0), fst (survivor m i1)) \<notin> conn (set (map j_pair ?R))"
      by (rule bridge_not_conn [OF w(1) inc]) (use sv in auto)
    then show "j_pair ?j \<notin> conn (set (map j_pair ?R))" using g(12) conn_sym by auto
    have "distinct (map j_id (joints p))" using w(1) by (simp add: wf_graph_def)
    then have inj: "j = j'" if "j \<in> set (joints p)" "j' \<in> set (joints p)" "j_id j = j_id j'" for j j'
      using that by (auto simp: distinct_map inj_on_def)
    have "j_id (joint i0) = c_id (r_coupling i0)" "j_id (joint i1) = c_id (r_coupling i1)" by (simp_all add: joint_def)
    then have "j_id ?j = j_id (joint i0) \<or> j_id ?j = j_id (joint i1)" using g(7,10) by simp
    then show "j_id ?j \<notin> j_id ` set ?R" using inj mem by fastforce
  qed
qed

lemma removeUnit_nonempty:
  assumes "distinct (module_ids p)" "m \<in> set (module_ids p)" "length (modules p) \<noteq> 1"
  shows "filter (\<lambda>x. m_id x \<noteq> m) (modules p) \<noteq> []"
proof
  assume "filter (\<lambda>x. m_id x \<noteq> m) (modules p) = []"
  then have "set (module_ids p) \<subseteq> {m}" by (auto simp: filter_empty_conv)
  then have "card (set (module_ids p)) \<le> card {m}" by (intro card_mono) auto
  then have "length (modules p) \<le> 1" using distinct_card [OF assms(1)] by simp
  moreover have "modules p \<noteq> []" using assms(2) by auto
  ultimately show False using assms(3) by (cases "modules p") auto
qed

lemma removeUnit_wf:
  assumes "wf_product p" "removeUnit p m = Some q"
  shows "wf_product q \<and> module_ids q = filter (\<lambda>i. i \<noteq> m) (module_ids p) \<and> (\<forall>j \<in> set (joints q). \<not> touches m j) \<and>
    (joints q = filter (\<lambda>j. \<not> touches m j) (joints p) \<or>
     (\<exists>i0 i1 cs k c. merge_of p m q cs i0 i1 k c \<and>
        mset (joints q) = add_mset (explicit_joint c) (mset (filter (\<lambda>j. \<not> touches m j) (joints p)))))"
proof -
  note w = wf_product_parts [OF assms(1)]
  let ?R = "filter (\<lambda>j. \<not> touches m j) (joints p)"
  from assms(2) obtain cs where g: "m \<in> set (module_ids p)" "length (modules p) \<noteq> 1"
    "modules q = filter (\<lambda>x. m_id x \<noteq> m) (modules p)"
    "cs = map snd (filter (\<lambda>(i, c). i \<notin> set (map r_index (incidentCouplings p m))) (entries (materializeCouplings p)))"
    "couplings q = cs \<or> (\<exists>i0 i1 k c. merge_of p m q cs i0 i1 k c)" by (rule removeUnit_cases)
  have ids: "module_ids q = filter (\<lambda>i. i \<noteq> m) (module_ids p)" by (simp add: g(3) filter_map comp_def)
  have cs: "map explicit_joint cs = ?R" unfolding g(4) by (rule kept_couplings [OF w(2)])
  have excs: "\<forall>c \<in> set cs. explicit c" using w(5) unfolding g(4) by (auto simp: mem_entries)
  have base: "wf_graph (module_ids q) ?R" unfolding ids by (rule wf_graph_without [OF w(1)])
  have ne: "modules q \<noteq> []" unfolding g(3) by (rule removeUnit_nonempty [OF w(3) g(1,2)])
  show ?thesis
  proof (cases "couplings q = cs")
    case True
    have "joints q = ?R" using joints_explicit(1) [of q] True excs cs by simp
    moreover have "wf_product q" by (rule wf_product_explicit) (use True excs ne base cs in auto)
    ultimately show ?thesis using ids by auto
  next
    case False
    then obtain i0 i1 k c where mg: "merge_of p m q cs i0 i1 k c" using g(5) by blast
    note h = merge_of_parts [OF mg]
    have m: "mset (map explicit_joint (couplings q)) = mset (explicit_joint c # ?R)"
      using cs by (simp add: h(5) map_splice mset_splice_insert flip: mset_map)
    have exq: "\<forall>c \<in> set (couplings q). explicit c" using h(5,6) excs by (simp add: set_splice_insert)
    have wg: "wf_graph (module_ids q) (map explicit_joint (couplings q))"
      using merge_wf [OF assms(1) mg base] wf_graph_perm [OF refl m] by blast
    then have wq: "wf_product q" by (rule wf_product_explicit [OF exq ne])
    have mj: "mset (joints q) = add_mset (explicit_joint c) (mset ?R)" using m joints_explicit(1) [OF exq] by simp
    have "m \<notin> set (module_ids q)" unfolding ids by simp
    then have "\<not> touches m (explicit_joint c)"
      using wf_graph_ends [OF merge_wf [OF assms(1) mg base], of "explicit_joint c"] by (auto simp: touches_def)
    then have "\<forall>j \<in> set (joints q). \<not> touches m j" using arg_cong [OF mj, of set_mset] by auto
    then show ?thesis using wq mj mg ids by blast
  qed
qed

section \<open>Opening a joint for a new module\<close>

lemma joint_at:
  assumes "length (resolveCouplings p) = length (couplings p)" "r \<in> set (resolveCouplings p)"
  shows "r_index r < length (joints p)" "joints p ! r_index r = joint r"
proof -
  obtain i where i: "i < length (couplings p)" "resolve_one (modules p) i (couplings p ! i) = Some r"
    using assms(2) by (auto simp: mem_resolveCouplings)
  then have "r_index r = i" by (auto dest: resolve_one_joint)
  then show "r_index r < length (joints p)" "joints p ! r_index r = joint r"
    using i by (simp_all add: joints_nth [OF assms(1)])
qed

lemma OPPOSITE_eq [simp]: "OPPOSITE a = OPPOSITE b \<longleftrightarrow> a = b"
  by (cases a; cases b) simp_all

lemma insertModuleBetween_Some:
  assumes "insertModuleBetween p cid width = Some q"
  obtains r md f s k where "r \<in> set (resolveCouplings p)" "c_id (r_coupling r) = cid" "r_kind r = INLINE"
    "m_id md = nextModuleId p" "modules q = Prelude.splice k 0 [md] (modules p)"
    "couplings q = Prelude.splice (r_index r) 1 [f, s] (materializeCouplings p)" "explicit f" "explicit s"
    "explicit_joint f = \<lparr>j_id = cid, j_angle = toFixed 1 (js_div (str_num (angle_deg (r_coupling r))) (Fin 2)),
       j_sku = coupler_profile_sku (r_coupling r), j_pair = (fst (r_pair r), m_id md),
       j_edges = (fst (r_edges r), OPPOSITE (fst (r_edges r))), j_kind = INLINE\<rparr>"
    "explicit_joint s = \<lparr>j_id = nextCouplingId p,
       j_angle = toFixed 1 (js_sub (str_num (angle_deg (r_coupling r))) (js_div (str_num (angle_deg (r_coupling r))) (Fin 2))),
       j_sku = coupler_profile_sku (r_coupling r), j_pair = (m_id md, snd (r_pair r)),
       j_edges = (OPPOSITE (snd (r_edges r)), snd (r_edges r)), j_kind = INLINE\<rparr>"
proof -
  obtain r where f: "List.find (\<lambda>r. c_id (r_coupling r) = cid) (resolveCouplings p) = Some r" and k: "r_kind r = INLINE"
    using assms by (auto simp: insertModuleBetween_def split: option.splits if_splits)
  obtain l rt where lr: "byId (modules p) (fst (r_pair r)) = Some l" "byId (modules p) (snd (r_pair r)) = Some rt"
    "\<not> shaped l" "\<not> shaped rt"
    using assms f k by (auto simp: insertModuleBetween_def split: option.splits if_splits)
  have ids: "m_id l = fst (r_pair r)" "m_id rt = snd (r_pair r)" using lr byId_Some by blast+
  have r: "r \<in> set (resolveCouplings p)" "c_id (r_coupling r) = cid" using find_Some_mem [OF f] by auto
  show thesis
    using assms f k lr
    by (intro that [OF r k]; simp add: insertModuleBetween_def Let_def explicit_def)
      (auto simp: explicit_joint_simps ids r(2))
qed

text \<open>Replacing a joint by two joints through a new module keeps the graph well formed.\<close>

lemma wf_graph_subdivide:
  assumes w: "wf_graph ids (pre @ j # post)" and n: "n \<notin> set ids"
    and j1: "j_pair j1 = (fst (j_pair j), n)" "j_edges j1 = (fst (j_edges j), e1)" "j_id j1 = j_id j"
    and j2: "j_pair j2 = (n, snd (j_pair j))" "j_edges j2 = (e2, snd (j_edges j))" "j_id j2 \<notin> j_id ` set (pre @ j # post)"
    and e: "e1 \<noteq> e2"
  shows "wf_graph (n # ids) (j2 # j1 # pre @ post)"
proof -
  let ?R = "pre @ post" and ?a = "fst (j_pair j)" and ?b = "snd (j_pair j)"
  have w': "wf_graph ids (j # ?R)"
    using w wf_graph_perm [of ids ids "j # ?R" "pre @ j # post"] by simp
  then have wR: "wf_graph ids ?R" by (rule wf_graph_remove) simp
  have ab: "?a \<in> set ids" "?b \<in> set ids" using wf_graph_ends [OF w'] by auto
  have nab: "(?a, ?b) \<notin> conn (set (map j_pair ?R))"
    using w' by (auto simp: wf_graph_def ring_free_def)
  have free: "\<forall>k \<in> set ?R. \<forall>c \<in> set (claims j). c \<notin> set (claims k)" and idR: "j_id j \<notin> j_id ` set ?R"
    using w' by (auto simp: wf_graph_def)
  have ids: "j_id j2 \<notin> j_id ` set (j1 # ?R)" using j2(3) j1(3) by auto
  have w1: "wf_graph (n # ids) (j1 # ?R)"
    by (rule wf_graph_attach [OF wR n ab(1), of "fst (j_edges j)" _ e1])
      (use free idR j1 in \<open>auto simp: claims_def\<close>)
  show ?thesis
  proof (rule wf_graph_add_joint [OF w1 ids])
    have nc: "(n, e2) \<notin> set (claims k)" if "k \<in> set ?R" for k
      using wf_graph_ends [OF wR that] n by (auto simp: claims_def)
    have b: "?b \<noteq> n" "?a \<noteq> n" using ab n by auto
    have "(?b, snd (j_edges j)) \<notin> set (claims j1)" "(n, e2) \<notin> set (claims j1)"
      using wf_no_self [OF w', of j] b e j1 by (auto simp: claims_def)
    moreover have "(?b, snd (j_edges j)) \<notin> set (claims k)" if "k \<in> set ?R" for k
      using free that by (auto simp: claims_def)
    ultimately show "\<forall>c \<in> set (claims j2). \<forall>k \<in> set (j1 # ?R). c \<notin> set (claims k)"
      using nc j2 by (auto simp: claims_def [of j2])
    have fa: "(x, n) \<notin> conn (set (map j_pair ?R))" if "x \<noteq> n" for x by (rule not_conn_fresh [OF wR n that])
    have "(n, ?b) \<notin> conn (insert (?a, n) (set (map j_pair ?R)))"
      unfolding conn_insert using fa [OF b(1)] fa [OF b(2)] nab conn_sym by blast
    then show "j_pair j2 \<notin> conn (set (map j_pair (j1 # ?R)))" using j1 j2 by simp
  qed (use j2 ab in auto)
qed

lemma insertModuleBetween_wf:
  assumes "wf_product p" "insertModuleBetween p cid width = Some q"
    and opp: "\<And>j. j \<in> set (joints p) \<Longrightarrow> j_id j = cid \<Longrightarrow> fst (j_edges j) \<noteq> snd (j_edges j)"
  shows "wf_product q"
proof -
  note w = wf_product_parts [OF assms(1)]
  from assms(2) obtain r md f s k where a: "r \<in> set (resolveCouplings p)" "c_id (r_coupling r) = cid" "r_kind r = INLINE"
    "m_id md = nextModuleId p" "modules q = Prelude.splice k 0 [md] (modules p)"
    "couplings q = Prelude.splice (r_index r) 1 [f, s] (materializeCouplings p)" "explicit f" "explicit s"
    "explicit_joint f = \<lparr>j_id = cid, j_angle = toFixed 1 (js_div (str_num (angle_deg (r_coupling r))) (Fin 2)),
       j_sku = coupler_profile_sku (r_coupling r), j_pair = (fst (r_pair r), m_id md),
       j_edges = (fst (r_edges r), OPPOSITE (fst (r_edges r))), j_kind = INLINE\<rparr>"
    "explicit_joint s = \<lparr>j_id = nextCouplingId p,
       j_angle = toFixed 1 (js_sub (str_num (angle_deg (r_coupling r))) (js_div (str_num (angle_deg (r_coupling r))) (Fin 2))),
       j_sku = coupler_profile_sku (r_coupling r), j_pair = (m_id md, snd (r_pair r)),
       j_edges = (OPPOSITE (snd (r_edges r)), snd (r_edges r)), j_kind = INLINE\<rparr>"
    by (rule insertModuleBetween_Some)
  note at = joint_at [OF w(2) a(1)]
  define pre where "pre = take (r_index r) (joints p)"
  define post where "post = drop (Suc (r_index r)) (joints p)"
  have js: "joints p = pre @ joint r # post" using id_take_nth_drop [OF at(1)] at(2) by (simp add: pre_def post_def)
  have edges: "fst (r_edges r) \<noteq> snd (r_edges r)"
    using opp [of "joint r"] a(2) js by (simp add: joint_def)
  have fresh: "nextModuleId p \<notin> set (module_ids p)" "nextCouplingId p \<notin> j_id ` set (joints p)"
    using fresh_module.next_fresh fresh_coupling.next_fresh w(4) by simp_all
  have "wf_graph (m_id md # module_ids p) (explicit_joint s # explicit_joint f # pre @ post)"
    by (rule wf_graph_subdivide [of _ pre "joint r" post _ _ "OPPOSITE (fst (r_edges r))" _ "OPPOSITE (snd (r_edges r))"])
      (use w(1) js fresh a edges in \<open>auto simp: joint_def\<close>)
  moreover have "mset (module_ids q) = mset (m_id md # module_ids p)" by (simp add: a(5) map_splice mset_splice_insert)
  moreover have "mset (map explicit_joint (couplings q)) = mset (explicit_joint s # explicit_joint f # pre @ post)"
    by (simp add: a(6) map_splice Prelude.splice_def pre_def post_def w(6) flip: take_map drop_map)
  ultimately have "wf_graph (module_ids q) (map explicit_joint (couplings q))" using wf_graph_perm by blast
  moreover have "\<forall>c \<in> set (couplings q). explicit c"
    using w(5) a(6,7,8) by (auto simp: Prelude.splice_def dest: in_set_takeD in_set_dropD)
  moreover have "modules q \<noteq> []" by (simp add: a(5) Prelude.splice_def)
  ultimately show ?thesis by (intro wf_product_explicit)
qed

section \<open>Duplicating a module\<close>

lemma find_module_Some: "find_module p i = Some m \<Longrightarrow> m \<in> set (modules p) \<and> m_id m = i"
  by (auto simp: find_module_def dest: find_Some_mem)

lemma duplicateModule_Some:
  assumes "duplicateModule p i = Inr (Some q)"
  obtains source copy c k sd where "find_module p i = Some source" "sd = E_right \<or> sd = E_left" "sd \<notin> usedEdges p i"
    "sd = E_left \<longrightarrow> E_right \<in> usedEdges p i"
    "m_id copy = nextModuleId p" "tree copy = tree source" "m_width_mm copy = m_width_mm source"
    "m_height_mm copy = m_height_mm source"
    "modules q = Prelude.splice k 0 [copy] (modules p)" "couplings q = materializeCouplings p @ [c]" "explicit c"
    "explicit_joint c = \<lparr>j_id = nextCouplingId p, j_angle = ''0.0'', j_sku = None,
       j_pair = (if sd = E_right then (i, nextModuleId p) else (nextModuleId p, i)),
       j_edges = (E_right, E_left), j_kind = INLINE\<rparr>"
proof -
  obtain source where f: "find_module p i = Some source" using assms by (auto simp: duplicateModule_def split: option.splits)
  define sd where "sd = (if E_right \<notin> usedEdges p i then E_right else E_left)"
  have free: "sd \<notin> usedEdges p i"
    using assms by (auto simp: duplicateModule_def f sd_def Let_def split: if_splits)
  obtain co where co: "scaled_opt (contour source) (m_width_mm source) (m_height_mm source) = Inr co"
    using assms free by (auto simp: duplicateModule_def f sd_def Let_def result_bind_Inr split: if_splits)
  have i: "m_id source = i" using find_module_Some [OF f] by simp
  define copy where "copy = source\<lparr>m_id := nextModuleId p, tree := cloneTree (tree source), contour := co,
      frameless := map_option clone_frameless (frameless source)\<rparr>"
  define c where "c = \<lparr>c_id = nextCouplingId p, angle_deg = ''0.0'', coupler_profile_sku = None, kind = Some INLINE,
      c_modules = Some (if sd = E_right then (i, nextModuleId p) else (nextModuleId p, i)),
      c_edges = Some (E_right, E_left)\<rparr>"
  define k where "k = (case findIndex (\<lambda>m. m_id m = i) (modules p) of None \<Rightarrow> 0 | Some k \<Rightarrow> k)"
  have q: "q = \<lparr>modules = Prelude.splice (if sd = E_right then k + 1 else k) 0 [copy] (modules p),
      couplings = materializeCouplings p @ [c]\<rparr>"
    using assms free co i unfolding duplicateModule_def f copy_def c_def k_def sd_def
    by (simp add: Let_def del: clone_frameless_id cloneTree_id split: if_splits)
  have j: "explicit_joint c = \<lparr>j_id = c_id c, j_angle = angle_deg c, j_sku = coupler_profile_sku c,
      j_pair = (if sd = E_right then (i, nextModuleId p) else (nextModuleId p, i)),
      j_edges = (E_right, E_left), j_kind = INLINE\<rparr>"
    by (rule explicit_joint_simps) (simp_all add: c_def)
  show thesis
    by (rule that [OF f, of sd copy _ c]) (use free q j in \<open>auto simp: sd_def copy_def c_def explicit_def\<close>)
qed

lemma duplicateModule_wf:
  assumes "wf_product p" "duplicateModule p i = Inr (Some q)"
  shows "wf_product q"
proof -
  note w = wf_product_parts [OF assms(1)]
  from assms(2) obtain source copy c k sd where a: "find_module p i = Some source" "sd = E_right \<or> sd = E_left" "sd \<notin> usedEdges p i"
    "sd = E_left \<longrightarrow> E_right \<in> usedEdges p i"
    "m_id copy = nextModuleId p" "tree copy = tree source" "m_width_mm copy = m_width_mm source"
    "m_height_mm copy = m_height_mm source"
    "modules q = Prelude.splice k 0 [copy] (modules p)" "couplings q = materializeCouplings p @ [c]" "explicit c"
    "explicit_joint c = \<lparr>j_id = nextCouplingId p, j_angle = ''0.0'', j_sku = None,
       j_pair = (if sd = E_right then (i, nextModuleId p) else (nextModuleId p, i)),
       j_edges = (E_right, E_left), j_kind = INLINE\<rparr>"
    by (rule duplicateModule_Some)
  have free: "\<forall>j \<in> set (joints p). (i, sd) \<notin> set (claims j)"
    using a(3) usedEdges_claims [OF w(1)] by simp
  have fresh: "nextModuleId p \<notin> set (module_ids p)" "nextCouplingId p \<notin> j_id ` set (joints p)"
    using fresh_module.next_fresh fresh_coupling.next_fresh w(4) by simp_all
  have mem: "i \<in> set (module_ids p)" using find_module_Some [OF a(1)] by auto
  have "wf_graph (nextModuleId p # module_ids p) (explicit_joint c # joints p)"
    by (rule wf_graph_attach [OF w(1) fresh(1) mem free, of _ "if sd = E_right then E_left else E_right"])
      (use a fresh in \<open>auto simp: claims_def\<close>)
  moreover have "mset (module_ids q) = mset (nextModuleId p # module_ids p)" by (simp add: a(5,9) map_splice mset_splice_insert)
  moreover have "mset (map explicit_joint (couplings q)) = mset (explicit_joint c # joints p)" by (simp add: a(10) w(6) flip: mset_map)
  ultimately have "wf_graph (module_ids q) (map explicit_joint (couplings q))" using wf_graph_perm by blast
  moreover have "\<forall>c \<in> set (couplings q). explicit c" using w(5) a(10,11) by auto
  moreover have "modules q \<noteq> []" by (simp add: a(9) Prelude.splice_def)
  ultimately show ?thesis by (intro wf_product_explicit)
qed

section \<open>Exchanging two modules\<close>

definition rename_joint :: "(string \<Rightarrow> string) \<Rightarrow> Joint \<Rightarrow> Joint" where
  "rename_joint f j = j\<lparr>j_pair := map_prod f f (j_pair j)\<rparr>"

lemma swap_id_invol [simp]: "swap_id a b (swap_id a b x) = x"
  by (simp add: swap_id_def)

lemma conn_map: "(x, y) \<in> conn E \<Longrightarrow> (f x, f y) \<in> conn (map_prod f f ` E)"
  unfolding conn_def
proof (induction rule: rtrancl_induct)
  case (step y z)
  have "(f y, f z) \<in> map_prod f f ` E \<union> (map_prod f f ` E)\<inverse>" using step(2) by force
  with step(3) show ?case by (rule rtrancl_into_rtrancl)
qed simp

lemma ring_free_rename:
  assumes "ring_free E" "\<And>x. f (f x) = x"
  shows "ring_free (image_mset (map_prod f f) E)"
  unfolding ring_free_def
proof (intro ballI notI)
  have inv: "map_prod f f (map_prod f f x) = x" for x using assms(2) by (cases x) simp
  fix e assume "e \<in># image_mset (map_prod f f) E" and c: "e \<in> conn (set_mset (image_mset (map_prod f f) E - {#e#}))"
  then obtain d where d: "d \<in># E" "e = map_prod f f d" by auto
  then have "image_mset (map_prod f f) E - {#e#} = image_mset (map_prod f f) (E - {#d#})"
    by (simp add: image_mset_Diff)
  then have "e \<in> conn (map_prod f f ` set_mset (E - {#d#}))" using c by simp
  then have "(fst e, snd e) \<in> conn (map_prod f f ` set_mset (E - {#d#}))" by simp
  from conn_map [OF this, of f] have "map_prod f f e \<in> conn (map_prod f f ` map_prod f f ` set_mset (E - {#d#}))"
    by (cases e) simp
  then have "d \<in> conn (set_mset (E - {#d#}))" by (simp add: image_image inv d)
  then show False using assms(1) d(1) by (auto simp: ring_free_def)
qed

lemma wf_graph_rename:
  assumes "wf_graph ids js" "\<And>x. f (f x) = x" "\<And>x. x \<in> set ids \<Longrightarrow> f x \<in> set ids"
  shows "wf_graph ids (map (rename_joint f) js)"
proof -
  have inj: "inj (map_prod f (\<lambda>e::GraphEdge. e))" using assms(2) by (intro injI) (metis map_prod_simp prod.inject surj_pair)
  have "concat (map claims (map (rename_joint f) js)) = map (map_prod f (\<lambda>e. e)) (concat (map claims js))"
    by (induction js) (simp_all add: claims_def rename_joint_def)
  then have "distinct (concat (map claims (map (rename_joint f) js)))"
    using assms(1) inj_on_subset [OF inj subset_UNIV] by (simp only: wf_graph_def distinct_map simp_thms)
  moreover have "mset (map j_pair (map (rename_joint f) js)) = image_mset (map_prod f f) (mset (map j_pair js))"
    by (simp add: rename_joint_def comp_def flip: mset_map)
  ultimately show ?thesis
    using assms ring_free_rename [of "mset (map j_pair js)" f]
    by (auto simp: wf_graph_def rename_joint_def comp_def)
qed

lemma swapModules_Some:
  assumes "swapModules p a b = Some q" "wf_product p"
  shows "joints q = map (rename_joint (swap_id a b)) (joints p)" "mset (modules q) = mset (modules p)"
    "a \<in> set (module_ids p)" "b \<in> set (module_ids p)" "\<forall>c \<in> set (couplings q). explicit c"
    "map explicit_joint (couplings q) = joints q"
proof -
  note w = wf_product_parts [OF assms(2)]
  obtain ia ib where i: "findIndex (\<lambda>m. m_id m = a) (modules p) = Some ia" "findIndex (\<lambda>m. m_id m = b) (modules p) = Some ib"
    and q: "modules q = (modules p)[ia := modules p ! ib, ib := modules p ! ia]"
      "couplings q = map (\<lambda>c. case c_modules c of None \<Rightarrow> c
              | Some (x, y) \<Rightarrow> if x \<noteq> a \<and> y \<noteq> a \<and> x \<noteq> b \<and> y \<noteq> b then c
                  else c\<lparr>c_modules := Some (swap_id a b x, swap_id a b y)\<rparr>) (materializeCouplings p)"
    using assms(1) by (auto simp: swapModules_def split: if_splits option.splits)
  note fa = findIndex_Some [OF i(1)] and fb = findIndex_Some [OF i(2)]
  show "mset (modules q) = mset (modules p)" unfolding q(1) using mset_swap [of ib "modules p" ia] fa fb by simp
  show "a \<in> set (module_ids p)" "b \<in> set (module_ids p)" using fa fb by (auto intro!: imageI nth_mem)
  have one: "explicit c' \<and> explicit_joint c' = rename_joint (swap_id a b) (explicit_joint c)"
    if c: "explicit c" and c': "c' = (case c_modules c of None \<Rightarrow> c
              | Some (x, y) \<Rightarrow> if x \<noteq> a \<and> y \<noteq> a \<and> x \<noteq> b \<and> y \<noteq> b then c
                  else c\<lparr>c_modules := Some (swap_id a b x, swap_id a b y)\<rparr>)" for c c'
  proof -
    obtain x y where "c_modules c = Some (x, y)" using c by (auto simp: explicit_def)
    then show ?thesis unfolding c'
      by (auto simp: explicit_def explicit_joint_def resolve_one_def joint_def rename_joint_def swap_id_def)
  qed
  show ex: "\<forall>c \<in> set (couplings q). explicit c" unfolding q(2) using one w(5) by auto
  have "map explicit_joint (couplings q) = map (rename_joint (swap_id a b)) (map explicit_joint (materializeCouplings p))"
    unfolding q(2) map_map comp_def using one w(5) by (intro map_cong refl) blast
  then show "joints q = map (rename_joint (swap_id a b)) (joints p)" "map explicit_joint (couplings q) = joints q"
    using joints_explicit(1) [OF ex] w(6) by simp_all
qed

lemma swapModules_wf:
  assumes "wf_product p" "swapModules p a b = Some q"
  shows "wf_product q"
proof -
  note s = swapModules_Some [OF assms(2,1)] and w = wf_product_parts [OF assms(1)]
  have "wf_graph (module_ids p) (joints q)" unfolding s(1)
    by (rule wf_graph_rename [OF w(1)]) (use s(3,4) in \<open>auto simp: swap_id_def\<close>)
  moreover have "mset (module_ids q) = mset (module_ids p)" using s(2) by simp
  ultimately have "wf_graph (module_ids q) (map explicit_joint (couplings q))"
    using wf_graph_perm [of "module_ids q" "module_ids p" "joints q" "joints q"] s(6) by simp
  moreover have "modules q \<noteq> []" using s(2) assms(1) by (auto simp: wf_product_def)
  ultimately show ?thesis by (intro wf_product_explicit [OF s(5)])
qed

section \<open>Stacking a module\<close>

text \<open>Appending a module changes no joint of an assembly whose couplings all resolve.\<close>

lemma append_module_joints:
  assumes "length (resolveCouplings p) = length (couplings p)"
  shows "resolveCouplings (p\<lparr>modules := modules p @ [m]\<rparr>) = resolveCouplings p"
proof -
  have "resolve_one (modules p @ [m]) i c = resolve_one (modules p) i c"
    if i: "i < length (couplings p)" "c = couplings p ! i" for i c
  proof (cases "c_modules c")
    case None
    then have "positional_pair (modules p) i \<noteq> None"
      using resolve_one_total [OF assms i(1)] i(2) by (auto simp: resolve_one_def split: option.splits)
    then have "Suc i < length (modules p)" by (auto simp: positional_pair_def nth_opt_def split: if_splits option.splits)
    then have "positional_pair (modules p @ [m]) i = positional_pair (modules p) i"
      by (simp add: positional_pair_def nth_opt_def nth_append)
    with None show ?thesis by (simp only: resolve_one_def option.case)
  qed (simp add: resolve_one_def)
  then show ?thesis
    unfolding resolveCouplings_def map_filter_def
    by (auto simp: mem_entries intro!: map_cong filter_cong)
qed

lemma addStackedUnit_spec':
  assumes "wf_product p" "find_module p b = Some base" "\<not> shaped base" "E_top \<notin> usedEdges p b"
  obtains q j where "addStackedUnit p b height = Some q" "wf_product q" "module_ids q = module_ids p @ [nextModuleId p]"
    "joints q = joints p @ [j]" "j_kind j = STACKED" "set (claims j) = {(b, E_top), (nextModuleId p, E_bottom)}"
proof -
  note w = wf_product_parts [OF assms(1)]
  define mem where "mem = \<lparr>m_id = nextModuleId p, m_width_mm = m_width_mm base,
      m_height_mm = (case height of None \<Rightarrow> ''600.00'' | Some h \<Rightarrow> h), tree = cloneTree (tree base), contour = None, frameless = None\<rparr>"
  define wm where "wm = p\<lparr>modules := modules p @ [mem]\<rparr>"
  have b: "base \<in> set (modules p)" "m_id base = b" using find_module_Some [OF assms(2)] by auto
  have fresh: "nextModuleId p \<notin> set (module_ids p)" using fresh_module.next_fresh by simp
  have r: "resolveCouplings wm = resolveCouplings p" unfolding wm_def by (rule append_module_joints [OF w(2)])
  then have j: "joints wm = joints p" "graph wm = graph p" by (simp_all add: joints_def graph_def)
  have ids: "module_ids wm = module_ids p @ [nextModuleId p]" by (simp add: wm_def mem_def)
  have "wf_graph (nextModuleId p # module_ids p) (joints p)" by (rule wf_graph_add_node [OF w(1) fresh])
  then have wg: "wf_graph (module_ids wm) (joints wm)"
    using wf_graph_perm [of "module_ids wm" "nextModuleId p # module_ids p" "joints wm" "joints p"] ids j by simp
  have wf: "wf_product wm" using wg r w(2) by (simp add: wf_product_def) (simp add: wm_def)
  have d: "distinct (map m_id (modules wm))" using wg by (simp add: wf_graph_def)
  have by_b: "byId (modules wm) b = Some base" "byId (modules wm) (nextModuleId p) = Some mem"
    using byId_distinct [OF d, of base] byId_distinct [OF d, of mem] b by (simp_all add: wm_def mem_def)
  have "b \<in> set (module_ids p)" using b by auto
  then have ne: "b \<noteq> nextModuleId p" using fresh by blast
  have "canLink wm b E_top (nextModuleId p) E_bottom STACKED"
    unfolding canLink_iff [OF wg]
  proof (intro conjI ballI)
    show "\<exists>ma mb. byId (modules wm) b = Some ma \<and> byId (modules wm) (nextModuleId p) = Some mb \<and> \<not> shaped ma \<and> \<not> shaped mb"
      using by_b assms(3) by (auto simp: shaped_def mem_def)
    show "(b, nextModuleId p) \<notin> conn (graph wm)"
      using not_conn_fresh [OF w(1) fresh ne] by (simp add: j(1) graph_joints)
    fix k assume "k \<in> set (joints wm)"
    then have k: "k \<in> set (joints p)" by (simp add: j)
    show "(b, E_top) \<notin> set (claims k)" using assms(4) usedEdges_claims [OF w(1)] k by blast
    show "(nextModuleId p, E_bottom) \<notin> set (claims k)" using wf_graph_ends [OF w(1) k] fresh by (auto simp: claims_def)
  qed simp_all
  then obtain q where q: "linkModules wm b E_top (nextModuleId p) E_bottom STACKED no_options = Some q"
    by (cases "modulesOrdered wm b (nextModuleId p)") (simp add: linkModules_def Let_def)
  have add: "addStackedUnit p b height = Some q"
    using q assms by (simp add: addStackedUnit_def Let_def wm_def mem_def)
  have "wf_product q" by (rule linkModules_wf [OF wf q]) (simp add: no_options_def)
  with q add ids j show thesis by (elim linkModules_joint) (rule that; simp)
qed

lemma addStackedUnit_wf:
  assumes "wf_product p" "addStackedUnit p b height = Some q"
  shows "wf_product q"
proof -
  obtain base where "find_module p b = Some base" "\<not> shaped base" "E_top \<notin> usedEdges p b"
    using assms(2) by (auto simp: addStackedUnit_def split: option.splits if_splits)
  from addStackedUnit_spec' [OF assms(1) this, of height] assms(2) show ?thesis by (metis option.inject)
qed

section \<open>Setting the number of modules\<close>

definition contour_ok :: "ProductModuleJson \<Rightarrow> bool" where
  "contour_ok m \<longleftrightarrow> (case contour m of None \<Rightarrow> True | Some c \<Rightarrow> length (bulges c) \<le> length (vertices c))"

lemma map_result_total:
  "(\<And>x. x \<in> set xs \<Longrightarrow> \<exists>y. f x = Inr y) \<Longrightarrow> \<exists>ys. map_result f xs = Inr ys \<and> length ys = length xs"
proof (induction xs)
  case (Cons x xs)
  obtain y where "f x = Inr y" using Cons.prems by auto
  moreover obtain ys where "map_result f xs = Inr ys" "length ys = length xs" using Cons by auto
  ultimately show ?case by auto
qed simp

lemma scaledContour_total:
  assumes "length (bulges c) \<le> length (vertices c)"
  shows "\<exists>c'. scaledContour c w h = Inr c' \<and> length (bulges c') = length (bulges c) \<and> length (vertices c') = length (vertices c)"
proof -
  have ok: "\<exists>y. scale_bulge c sx sy i b = Inr y" if "i < length (vertices c)" for sx sy i b
    using that by (cases b) (auto simp: scale_bulge_def nth_opt_def Let_def)
  have "\<exists>y. (\<lambda>(i, b). scale_bulge c sx sy i b) x = Inr y" if "x \<in> set (entries (bulges c))" for sx sy x
  proof -
    obtain i b where "x = (i, b)" by (cases x)
    then show ?thesis using that assms ok [of i] by (simp add: mem_entries)
  qed
  then have tot: "\<exists>bs. map_result (\<lambda>(i, b). scale_bulge c sx sy i b) (entries (bulges c)) = Inr bs
      \<and> length bs = length (bulges c)" for sx sy
    using map_result_total [of "entries (bulges c)" "\<lambda>(i, b). scale_bulge c sx sy i b"] by simp
  have "\<exists>c'. result_bind (map_result (\<lambda>(i, b). scale_bulge c sx sy i b) (entries (bulges c)))
      (\<lambda>bs. Inr \<lparr>vertices = map f (vertices c), bulges = bs\<rparr>) = Inr c' \<and> length (bulges c') = length (bulges c) \<and>
      length (vertices c') = length (vertices c)" for sx sy f
    using tot [of sx sy] by auto
  then show ?thesis unfolding scaledContour_def Let_def .
qed

lemma scaled_opt_total:
  "contour_ok m \<Longrightarrow> \<exists>co. scaled_opt (contour m) w h = Inr co \<and> contour_ok (m'\<lparr>contour := co\<rparr>)"
proof (cases "contour m")
  case (Some c)
  assume "contour_ok m"
  then have "length (bulges c) \<le> length (vertices c)" using Some by (simp add: contour_ok_def)
  from scaledContour_total [OF this, of w h] show ?thesis
    using Some \<open>contour_ok m\<close> by (auto simp: scaled_opt_def contour_ok_def)
qed (simp add: scaled_opt_def contour_ok_def)

lemma addAdjacentUnit_total:
  assumes "\<forall>m \<in> set (modules p). contour_ok m" "\<exists>m \<in> set (modules p). sd \<notin> usedEdges p (m_id m)"
  shows "\<exists>q. addAdjacentUnit p sd width = Inr (Some q) \<and> (\<forall>m \<in> set (modules q). contour_ok m)"
proof -
  obtain edge where e: "chainEnd p sd = Some edge" using assms(2) chainEnd_None [of p sd] by (cases "chainEnd p sd") auto
  then have ok: "contour_ok edge" using chainEnd_Some(1) assms(1) by blast
  obtain co where co: "scaled_opt (contour edge) (case width of None \<Rightarrow> m_width_mm edge | Some w \<Rightarrow> w) (m_height_mm edge) = Inr co"
    "contour_ok (edge\<lparr>contour := co\<rparr>)" using scaled_opt_total [OF ok] by blast
  then show ?thesis
    using assms(1) by (simp add: addAdjacentUnit_def e Let_def del: clone_frameless_id) (auto simp: contour_ok_def)
qed

lemma filter_last_distinct:
  "distinct xs \<Longrightarrow> xs \<noteq> [] \<Longrightarrow> filter (\<lambda>x. x \<noteq> last xs) xs = butlast xs"
proof (induction xs rule: rev_induct)
  case (snoc x xs)
  then have "filter (\<lambda>y. y \<noteq> x) xs = xs" by (auto simp: filter_id_conv)
  then show ?case by simp
qed simp

lemma trim_modules_spec:
  assumes "wf_product p" "1 \<le> n" "n \<le> length (modules p)"
  shows "\<exists>q. trim_modules p (int n) = Some q \<and> wf_product q \<and> module_ids q = take n (module_ids p)"
  using assms
proof (induction "length (modules p)" arbitrary: p)
  case 0
  then show ?case by simp
next
  case (Suc k)
  show ?case
  proof (cases "n = length (modules p)")
    case True
    then show ?thesis using Suc.prems by (subst trim_modules.simps) simp
  next
    case False
    let ?m = "m_id (last (modules p))"
    have ne: "modules p \<noteq> []" using Suc by auto
    then have l: "?m = last (module_ids p)" by (simp add: last_map)
    have "?m \<in> set (module_ids p)" using ne by simp
    moreover have "length (modules p) \<noteq> 1" using False Suc.prems by simp
    ultimately have "removeUnit p ?m \<noteq> None"
      by (auto simp: removeUnit_unfold Let_def split: list.splits prod.splits)
    then obtain q where q: "removeUnit p ?m = Some q" by auto
    have ids: "module_ids q = butlast (module_ids p)" and wq: "wf_product q"
      using removeUnit_wf [OF Suc.prems(1) q] filter_last_distinct [OF wf_product_parts(3) [OF Suc.prems(1)]] ne l by auto
    have len: "length (modules q) = k" using arg_cong [OF ids, of length] Suc(2) by simp
    have "trim_modules p (int n) = trim_modules q (int n)"
      using False Suc.prems(3) q by (subst trim_modules.simps) simp
    moreover have "take n (module_ids q) = take n (module_ids p)"
      unfolding ids using False Suc.prems(3) by (simp add: take_butlast)
    ultimately show ?thesis using Suc(1) [of q] wq len False Suc.prems Suc(2) by auto
  qed
qed

lemma grow_modules_spec:
  assumes "wf_product p" "length (modules p) \<le> n" "\<forall>m \<in> set (modules p). contour_ok m"
    "\<exists>m \<in> set (modules p). E_right \<notin> usedEdges p (m_id m)"
  shows "\<exists>q. grow_modules p (int n) = Some (Inr q) \<and> wf_product q \<and> length (modules q) = n \<and>
    take (length (modules p)) (modules q) = modules p"
  using assms
proof (induction "n - length (modules p)" arbitrary: p)
  case 0
  then show ?case by (subst grow_modules.simps) simp
next
  case (Suc k)
  obtain q where q: "addAdjacentUnit p E_right None = Inr (Some q)" "\<forall>m \<in> set (modules q). contour_ok m"
    using addAdjacentUnit_total [OF Suc.prems(3,4)] by blast
  note w = addAdjacentUnit_wf [OF Suc.prems(1) q(1) disjI2 [OF refl]]
  have pre: "take (length (modules p)) (modules q) = modules p"
    using q(1) by (rule addAdjacentUnit_Some) auto
  have "length (modules p) < n" using Suc(2) by simp
  then have "grow_modules p (int n) = grow_modules q (int n)"
    using q(1) by (subst grow_modules.simps) simp
  moreover obtain r where r: "grow_modules q (int n) = Some (Inr r)" "wf_product r" "length (modules r) = n"
    "take (length (modules q)) (modules r) = modules q"
    using Suc(1) [of q, OF _ w(1) _ q(2) w(3)] Suc(2) w(2) by (metis Suc_leI diff_Suc_1 diff_Suc_eq_diff_pred diff_commute zero_less_diff zero_less_Suc)
  moreover have "take (length (modules p)) (modules r) = modules p"
    using arg_cong [OF r(4), of "take (length (modules p))"] pre w(2) by (simp add: min_def)
  ultimately show ?case by auto
qed

lemma grow_modules_diverges:
  assumes "chainEnd p E_right = None" "int (length (modules p)) < n"
  shows "grow_modules p n = None"
proof (rule ccontr)
  assume "grow_modules p n \<noteq> None"
  then obtain r where "grow_modules p n = Some r" by blast
  then have "\<not> (chainEnd p E_right = None \<and> int (length (modules p)) < n)"
  proof (induction rule: grow_modules.raw_induct [rotated 1, consumes 1])
    case (1 grow p n r)
    show ?case
    proof
      assume a: "chainEnd p E_right = None \<and> int (length (modules p)) < n"
      then have "grow p n = Some r" using 1(2) by (simp add: addAdjacentUnit_def)
      then show False using 1(1) a by blast
    qed
  qed
  then show False using assms by blast
qed

end
