(* ===== verification/StructureProps.thy ===== *)
theory StructureProps
  imports ProductStructure
begin

text \<open>
  What the structural edits guarantee: each edit's effect on modules and joints, the assembly
  invariant over every product reachable from the starters, and the count edit's loops.
\<close>

section \<open>Edits of couplings that name their modules\<close>

definition all_explicit :: "ProductJson \<Rightarrow> bool" where
  "all_explicit p \<longleftrightarrow> (\<forall>c \<in> set (couplings p). explicit c)"

lemma unlinkCoupling_wf:
  assumes "wf_product p" "all_explicit p" "unlinkCoupling p cid = Some q"
  shows "wf_product q"
proof -
  have q: "modules q = modules p" "couplings q = filter (\<lambda>c. c_id c \<noteq> cid) (couplings p)"
    using assms(3) by (auto simp: unlinkCoupling_def split: if_splits)
  have ex: "\<forall>c \<in> set (couplings p). explicit c" using assms(2) by (simp add: all_explicit_def)
  have "wf_graph (module_ids p) (map explicit_joint (couplings p))"
    using wf_product_parts(1) [OF assms(1)] joints_explicit(1) [OF ex] by simp
  then have "wf_graph (module_ids q) (map explicit_joint (couplings q))"
    unfolding q by (rule wf_graph_remove) (simp add: image_mset_subseteq_mono)
  then show ?thesis using ex q assms(1) by (intro wf_product_explicit) (auto simp: wf_product_def)
qed

lemma moveModule_perm:
  assumes "moveModule p i k = Some q"
  shows "mset (modules q) = mset (modules p)" "couplings q = couplings p"
proof -
  obtain f pos where f: "findIndex (\<lambda>m. m_id m = i) (modules p) = Some f"
    and q: "q = p\<lparr>modules := Prelude.splice pos 0 [modules p ! f] (Prelude.splice f 1 [] (modules p))\<rparr>"
    using assms by (auto simp: moveModule_def Let_def split: option.splits if_splits)
  have f': "f < length (modules p)" using findIndex_Some [OF f] by simp
  have "mset (modules p) = mset (take f (modules p) @ modules p ! f # drop (Suc f) (modules p))"
    using id_take_nth_drop [OF f'] by simp
  then show "mset (modules q) = mset (modules p)" "couplings q = couplings p"
    by (simp_all add: q mset_splice_insert) (simp add: Prelude.splice_def)
qed

lemma moveModule_wf:
  assumes "wf_product p" "all_explicit p" "moveModule p i k = Some q"
  shows "wf_product q"
proof -
  note q = moveModule_perm [OF assms(3)]
  have ex: "\<forall>c \<in> set (couplings p). explicit c" using assms(2) by (simp add: all_explicit_def)
  have "wf_graph (module_ids p) (map explicit_joint (couplings p))"
    using wf_product_parts(1) [OF assms(1)] joints_explicit(1) [OF ex] by simp
  moreover have "mset (module_ids q) = mset (module_ids p)" using q(1) by simp
  ultimately have "wf_graph (module_ids q) (map explicit_joint (couplings q))"
    unfolding q(2) using wf_graph_perm by blast
  moreover have "modules q \<noteq> []" using q(1) assms(1) by (auto simp: wf_product_def)
  ultimately show ?thesis using ex q(2) by (intro wf_product_explicit) auto
qed

section \<open>Rows\<close>

text \<open>A product whose couplings are all positional joins each module to the next. Severing or reordering such a row re-aims its
  joints, and what comes out is a row again.\<close>

definition in_row :: "ProductJson \<Rightarrow> bool" where
  "in_row p \<longleftrightarrow> (\<forall>c \<in> set (couplings p). c_modules c = None \<and> c_edges c = None)"

lemma row_graph:
  assumes d: "distinct ids" and n: "n < length ids"
    and pr: "\<And>i. i < n \<Longrightarrow> j_pair (f i) = (ids ! i, ids ! Suc i)"
    and ed: "\<And>i. i < n \<Longrightarrow> j_edges (f i) \<in> {(E_right, E_left), (E_top, E_bottom)}"
    and i: "inj_on (\<lambda>i. j_id (f i)) {..<n}"
  shows "wf_graph ids (map f [0..<n])"
proof -
  have "k \<le> n \<Longrightarrow> wf_graph (take (Suc k) ids) (map f [0..<k])" for k
  proof (induction k)
    case 0
    then show ?case using d by (simp add: wf_graph_def ring_free_def)
  next
    case (Suc k)
    let ?a = "ids ! k" and ?n = "ids ! Suc k"
    have k: "Suc k < length ids" "k < n" using Suc.prems n by auto
    have fresh: "?n \<notin> set (take (Suc k) ids)" "?a \<in> set (take (Suc k) ids)"
      using d k by (auto simp: in_set_conv_nth nth_eq_iff_index_eq)
    have "wf_graph (?n # take (Suc k) ids) (f k # map f [0..<k])"
    proof (rule wf_graph_attach [where a = ?a and e = "fst (j_edges (f k))" and e' = "snd (j_edges (f k))"])
      show "wf_graph (take (Suc k) ids) (map f [0..<k])" using Suc by simp
      show "\<forall>j \<in> set (map f [0..<k]). (?a, fst (j_edges (f k))) \<notin> set (claims j)"
      proof
        fix j assume "j \<in> set (map f [0..<k])"
        then obtain m where m: "m < k" "j = f m" by auto
        then have "?a \<noteq> ids ! m" using d k by (simp add: nth_eq_iff_index_eq)
        then show "(?a, fst (j_edges (f k))) \<notin> set (claims j)" using pr [of m] ed [of m] ed [of k] m k by (auto simp: claims_def)
      qed
      show "j_id (f k) \<notin> j_id ` set (map f [0..<k])" using inj_onD [OF i, of k] k by fastforce
    qed (use fresh pr [of k] k in \<open>auto simp: claims_def\<close>)
    moreover have "mset (take (Suc (Suc k)) ids) = mset (?n # take (Suc k) ids)" using k(1) by (simp add: take_Suc_conv_app_nth)
    moreover have "mset (map f [0..<Suc k]) = mset (f k # map f [0..<k])" by simp
    ultimately show ?case using wf_graph_perm by blast
  qed
  from this [of n] have "wf_graph (take (Suc n) ids) (map f [0..<n])" by simp
  then show ?thesis using d by (auto simp: wf_graph_def dest: in_set_takeD)
qed

lemma row_resolves:
  assumes "in_row p" "i < length (couplings p)" "Suc i < length (modules p)"
  obtains r where "resolve_one (modules p) i (couplings p ! i) = Some r" "j_id (joint r) = c_id (couplings p ! i)"
    "j_pair (joint r) = (module_ids p ! i, module_ids p ! Suc i)" "j_edges (joint r) \<in> {(E_right, E_left), (E_top, E_bottom)}"
proof -
  have "c_modules (couplings p ! i) = None" "c_edges (couplings p ! i) = None" using assms(1,2) by (simp_all add: in_row_def)
  moreover have "positional_pair (modules p) i = Some (module_ids p ! i, module_ids p ! Suc i)"
    using assms(3) by (simp add: positional_pair_def nth_opt_def)
  ultimately obtain r where "resolve_one (modules p) i (couplings p ! i) = Some r" "r_coupling r = couplings p ! i"
    "r_pair r = (module_ids p ! i, module_ids p ! Suc i)" "r_edges r \<in> {(E_right, E_left), (E_top, E_bottom)}"
    by (simp add: resolve_one_def POSITIONAL_EDGES_def)
  then show thesis by (intro that [of r]) (simp_all add: joint_def)
qed

lemma row_wf:
  assumes "in_row p" "distinct (module_ids p)" "distinct (coupling_ids p)" "length (couplings p) < length (modules p)"
  shows "wf_product p"
proof -
  let ?n = "length (couplings p)"
  have res: "resolve_one (modules p) i (couplings p ! i) \<noteq> None" if i: "i < ?n" for i
  proof -
    have "Suc i < length (modules p)" using i assms(4) by simp
    from row_resolves [OF assms(1) i this] show ?thesis by (metis option.discI)
  qed
  then have len: "length (resolveCouplings p) = ?n"
    using map_filter_total [of "\<lambda>(i, c). resolve_one (modules p) i c" "entries (couplings p)"]
    by (auto simp: resolveCouplings_def mem_entries) 
  define f where "f i = joint (the (resolve_one (modules p) i (couplings p ! i)))" for i
  have f: "j_id (f i) = c_id (couplings p ! i) \<and> j_pair (f i) = (module_ids p ! i, module_ids p ! Suc i) \<and>
      j_edges (f i) \<in> {(E_right, E_left), (E_top, E_bottom)}" if i: "i < ?n" for i
  proof -
    have s: "Suc i < length (modules p)" using i assms(4) by simp
    show ?thesis by (rule row_resolves [OF assms(1) i s]) (simp add: f_def)
  qed
  have "joints p = map f [0..<?n]" using joints_nth [OF len] by (simp add: f_def)
  moreover have "wf_graph (module_ids p) (map f [0..<?n])"
  proof (rule row_graph [OF assms(2)])
    show "inj_on (\<lambda>i. j_id (f i)) {..<?n}"
      using f assms(3) by (auto simp: inj_on_def distinct_conv_nth)
  qed (use f assms(4) in auto)
  moreover have "modules p \<noteq> []" using assms(4) by auto
  ultimately show ?thesis using len by (simp add: wf_product_def)
qed

lemma wf_row_length:
  assumes "in_row p" "wf_product p"
  shows "length (couplings p) < length (modules p)"
proof (rule ccontr)
  assume a: "\<not> length (couplings p) < length (modules p)"
  have len: "length (resolveCouplings p) = length (couplings p)" and ne: "modules p \<noteq> []" using assms(2) by (simp_all add: wf_product_def)
  let ?i = "length (modules p) - 1"
  have i: "?i < length (couplings p)" "\<not> Suc ?i < length (modules p)" using a ne by (cases "modules p"; simp)+
  have "c_modules (couplings p ! ?i) = None" using assms(1) i(1) by (simp add: in_row_def)
  then have none: "resolve_one (modules p) ?i (couplings p ! ?i) = None" using i(2) by (simp add: resolve_one_def positional_pair_def nth_opt_def split: option.split)
  have "(?i, couplings p ! ?i) \<in> set (entries (couplings p))" using i(1) by (simp add: mem_entries)
  moreover have "\<forall>x \<in> set (entries (couplings p)). (\<lambda>(i, c). resolve_one (modules p) i c) x \<noteq> None"
    by (rule map_filter_total [THEN iffD1]) (use len in \<open>simp add: resolveCouplings_def\<close>)
  ultimately show False using none by fastforce
qed

text \<open>Severing and reordering on a row, or where no other joint is re-aimed.\<close>

lemma unlinkCoupling_kept_wf:
  assumes "wf_product p" "unlinkCoupling p cid = Some q" "in_row p \<or> joints q = filter (\<lambda>j. j_id j \<noteq> cid) (joints p)"
  shows "wf_product q"
proof -
  have q: "modules q = modules p" "couplings q = filter (\<lambda>c. c_id c \<noteq> cid) (couplings p)"
    using assms(2) by (auto simp: unlinkCoupling_def split: if_splits)
  note w = wf_product_parts [OF assms(1)]
  show ?thesis using assms(3)
  proof
    assume r: "in_row p"
    have d: "distinct (coupling_ids p)" using w(1) wf_product_joint_ids [OF w(2)] by (simp add: wf_graph_def)
    show ?thesis
    proof (rule row_wf)
      show "in_row q" using r q(2) by (simp add: in_row_def)
      show "distinct (coupling_ids q)" unfolding q(2) by (rule distinct_map_filter [OF d])
      show "length (couplings q) < length (modules q)"
        using le_less_trans [OF length_filter_le wf_row_length [OF r assms(1)]] q by simp
    qed (use w(3) q(1) in simp)
  next
    assume j: "joints q = filter (\<lambda>j. j_id j \<noteq> cid) (joints p)"
    have "length (filter (\<lambda>j. j_id j \<noteq> cid) (joints p)) = length (filter (\<lambda>i. i \<noteq> cid) (map j_id (joints p)))"
      by (simp add: filter_map comp_def)
    also have "\<dots> = length (couplings q)" unfolding wf_product_joint_ids [OF w(2)] q(2) by (simp add: filter_map comp_def)
    finally have "length (resolveCouplings q) = length (couplings q)" unfolding j [symmetric] by (simp add: joints_def)
    moreover have "wf_graph (module_ids q) (joints q)" unfolding q(1) j by (rule wf_graph_remove [OF w(1)]) (simp add: mset_filter)
    moreover have "modules q \<noteq> []" using assms(1) q(1) by (simp add: wf_product_def)
    ultimately show ?thesis by (simp add: wf_product_def)
  qed
qed

lemma moveModule_kept_wf:
  assumes "wf_product p" "moveModule p i k = Some q" "in_row p \<or> joints q = joints p"
  shows "wf_product q"
proof -
  note q = moveModule_perm [OF assms(2)] and w = wf_product_parts [OF assms(1)]
  have ids: "mset (module_ids q) = mset (module_ids p)" using q(1) by simp
  have ne: "modules q \<noteq> []" using q(1) assms(1) by (auto simp: wf_product_def)
  show ?thesis using assms(3)
  proof
    assume r: "in_row p"
    have "distinct (coupling_ids p)" using w(1) wf_product_joint_ids [OF w(2)] by (simp add: wf_graph_def)
    then show ?thesis
      using r wf_row_length [OF r assms(1)] w(3) distinct_mset [OF ids] q(2) mset_eq_length [OF q(1)]
      by (intro row_wf) (simp_all add: in_row_def)
  next
    assume j: "joints q = joints p"
    have "length (resolveCouplings q) = length (couplings q)" using j w(2) q(2) by (metis joints_def length_map)
    then show ?thesis using ne w(1) wf_graph_perm [OF ids [symmetric] refl, of "joints p"] j by (simp add: wf_product_def)
  qed
qed

text \<open>Where every coupling names its modules, no other joint is re-aimed.\<close>

lemma moveModule_explicit_joints: "all_explicit p \<Longrightarrow> moveModule p i k = Some q \<Longrightarrow> joints q = joints p"
  using moveModule_perm(2) [of p i k q] joints_explicit(1) [of p] joints_explicit(1) [of q] by (simp add: all_explicit_def)

section \<open>The starters\<close>

lemma wrapTreeAsProduct_wf: "wf_product (wrapTreeAsProduct t w h)"
  by (simp add: wf_product_def wrapTreeAsProduct_def resolveCouplings_def joints_def wf_graph_def ring_free_def map_filter_simps)

definition bow_ids :: "nat \<Rightarrow> string list" where
  "bow_ids n = map (\<lambda>i. ''m'' @ nat_str (Suc i)) [0..<n]"

definition bow_joint :: "string \<Rightarrow> nat \<Rightarrow> Joint" where
  "bow_joint angle i = \<lparr>j_id = ''c'' @ nat_str (Suc i), j_angle = angle, j_sku = None,
     j_pair = (''m'' @ nat_str (Suc i), ''m'' @ nat_str (Suc (Suc i))), j_edges = (E_right, E_left), j_kind = INLINE\<rparr>"

definition bow_coupling :: "string \<Rightarrow> nat \<Rightarrow> CouplingJson" where
  "bow_coupling angle i = \<lparr>c_id = ''c'' @ nat_str (Suc i), angle_deg = angle, coupler_profile_sku = None, kind = None,
     c_modules = None, c_edges = None\<rparr>"

lemma name_eq [simp]: "''m'' @ nat_str i = ''m'' @ nat_str j \<longleftrightarrow> i = j" "''c'' @ nat_str i = ''c'' @ nat_str j \<longleftrightarrow> i = j"
  using nat_str_inj by blast+

lemma bow_loop_spec:
  assumes "map m_id ms = bow_ids k" "cs = map (bow_coupling (toFixed 1 (angleDeg opts))) [0..<k - 1]"
  shows "\<exists>ms' cs'. bow_loop opts share [Suc k..<Suc (k + d)] rem' ms cs = (ms', cs') \<and> map m_id ms' = bow_ids (k + d) \<and>
    cs' = map (bow_coupling (toFixed 1 (angleDeg opts))) [0..<(k + d) - 1]"
  using assms
proof (induction d arbitrary: k rem' ms cs)
  case (Suc d)
  have u: "[Suc k..<Suc (k + Suc d)] = Suc k # [Suc (Suc k)..<Suc (Suc k + d)]" by (simp add: upt_conv_Cons del: upt_Suc)
  have cs': "(if Suc k > 1 then cs @ [\<lparr>c_id = ''c'' @ nat_str (Suc k - 1), angle_deg = toFixed 1 (angleDeg opts),
      coupler_profile_sku = None, kind = None, c_modules = None, c_edges = None\<rparr>] else cs)
      = map (bow_coupling (toFixed 1 (angleDeg opts))) [0..<Suc k - 1]"
    by (cases k) (simp_all add: Suc.prems(2) bow_coupling_def)
  have ids: "map m_id (ms @ [m]) = bow_ids (Suc k)" if "m_id m = ''m'' @ nat_str (Suc k)" for m
    using that Suc.prems(1) by (simp add: bow_ids_def)
  show ?case
    unfolding u bow_loop.simps Let_def cs'
    using Suc.IH [OF ids refl] by (metis (no_types, lifting) ProductModuleJson.select_convs(1) add_Suc_right add_Suc)
qed simp

lemma bow_joints_wf: "wf_graph (bow_ids (Suc n)) (map (bow_joint angle) [0..<n])"
proof (induction n)
  case 0
  then show ?case by (simp add: wf_graph_def ring_free_def bow_ids_def)
next
  case (Suc n)
  let ?a = "''m'' @ nat_str (Suc n)" and ?n = "''m'' @ nat_str (Suc (Suc n))"
  have "wf_graph (?n # bow_ids (Suc n)) (bow_joint angle n # map (bow_joint angle) [0..<n])"
    by (rule wf_graph_attach [OF Suc, of _ ?a E_right _ E_left])
      (auto simp: bow_ids_def bow_joint_def claims_def dec_str_inj)
  moreover have "mset (bow_ids (Suc (Suc n))) = mset (?n # bow_ids (Suc n))" by (simp add: bow_ids_def)
  moreover have "mset (map (bow_joint angle) [0..<Suc n]) = mset (bow_joint angle n # map (bow_joint angle) [0..<n])" by simp
  ultimately show ?case using wf_graph_perm by blast
qed

lemma makeBowProduct_wf:
  assumes "1 \<le> moduleCount opts"
  shows "wf_product (makeBowProduct opts)" "module_ids (makeBowProduct opts) = bow_ids (moduleCount opts)"
proof -
  obtain n where n: "moduleCount opts = Suc n" using assms by (cases "moduleCount opts") auto
  let ?a = "toFixed 1 (angleDeg opts)"
  obtain ms where p: "makeBowProduct opts = \<lparr>modules = ms, couplings = map (bow_coupling ?a) [0..<n]\<rparr>" "map m_id ms = bow_ids (Suc n)"
  proof -
    define share where "share = js_div (js_floor (js_mul (js_div (widthMm opts) (Fin (of_nat (moduleCount opts)))) (Fin 100))) (Fin 100)"
    obtain ms' cs' where bl: "bow_loop opts share [Suc 0..<Suc (0 + Suc n)] (widthMm opts) [] [] = (ms', cs')"
      "map m_id ms' = bow_ids (0 + Suc n)" "cs' = map (bow_coupling ?a) [0..<(0 + Suc n) - 1]"
      using bow_loop_spec [of "[]" 0 "[]" opts share "Suc n" "widthMm opts"] by (auto simp: bow_ids_def)
    have "makeBowProduct opts = \<lparr>modules = ms', couplings = cs'\<rparr>"
      using bl(1) unfolding makeBowProduct_def share_def n by (simp add: Let_def del: upt_Suc)
    then show thesis using that bl by simp
  qed
  have len: "length ms = Suc n" using arg_cong [OF p(2), of length] by (simp add: bow_ids_def)
  have id_i: "m_id (ms ! i) = ''m'' @ nat_str (Suc i)" if "i < Suc n" for i
    using arg_cong [OF p(2), of "\<lambda>xs. xs ! i"] that len by (simp add: bow_ids_def del: upt_Suc)
  have one: "map_option joint (resolve_one ms i (bow_coupling ?a i)) = Some (bow_joint ?a i)" if "i < n" for i
    using that len id_i [of i] id_i [of "Suc i"]
    by (simp add: resolve_one_def positional_pair_def nth_opt_def bow_coupling_def joint_def bow_joint_def POSITIONAL_EDGES_def)
  have "List.map_filter (\<lambda>x. map_option joint ((\<lambda>(i, c). resolve_one ms i c) x)) (entries (map (bow_coupling ?a) [0..<n]))
      = map (\<lambda>x. bow_joint ?a (fst x)) (entries (map (bow_coupling ?a) [0..<n]))"
    using one by (intro map_filter_all) (auto simp: mem_entries)
  then have j: "joints (makeBowProduct opts) = map (bow_joint ?a) [0..<n]"
    unfolding joints_def resolveCouplings_def map_map_filter p(1)
    by (simp add: entries_from_nth comp_def)
  then have "length (resolveCouplings (makeBowProduct opts)) = n" by (metis joints_def length_map length_upt minus_nat.diff_0)
  then show "wf_product (makeBowProduct opts)"
    using bow_joints_wf [of n ?a] j p len by (auto simp: wf_product_def)
  show "module_ids (makeBowProduct opts) = bow_ids (moduleCount opts)" using p n by simp
qed

section \<open>Reachable products\<close>

lemma grow_modules_wf:
  "grow_modules p n = Some r \<Longrightarrow> wf_product p \<longrightarrow> (\<forall>q. r = Inr q \<longrightarrow> wf_product q)"
proof (induction rule: grow_modules.raw_induct [rotated 1, consumes 1])
  case (1 grow p n r)
  show ?case
  proof (intro impI allI)
    fix q assume w: "wf_product p" and q: "r = Inr q"
    show "wf_product q"
    proof (cases "int (length (modules p)) < n")
      case True
      show ?thesis
      proof (cases "addAdjacentUnit p E_right None")
        case (Inr o')
        show ?thesis
        proof (cases o')
          case None
          then show ?thesis using 1 True Inr q w by fastforce
        next
          case (Some p')
          then have "wf_product p'" using addAdjacentUnit_wf(1) [OF w] Inr by blast
          then show ?thesis using 1 True Inr Some q by fastforce
        qed
      qed (use 1(2) True q in simp)
    qed (use 1(2) q w in simp)
  qed
qed

lemma setModuleCount_wf:
  assumes "wf_product p" "setModuleCount p n = Some (Inr (Some q))"
  shows "wf_product q"
proof (cases "n < int (length (modules p))")
  case True
  then have n: "1 \<le> n" "trim_modules p n = Some q"
    using assms(2) by (auto simp: setModuleCount_def Let_def split: if_splits)
  then obtain k where k: "n = int k" using nonneg_int_cases [of n] by auto
  then show ?thesis using trim_modules_spec [OF assms(1), of k] n True by auto
next
  case False
  then obtain r where r: "grow_modules p n = Some r" "map_sum id Some r = Inr (Some q)"
    using assms(2) by (auto simp: setModuleCount_def Let_def split: if_splits)
  then have "r = Inr q" by (cases r) simp_all
  with r(1) show ?thesis using grow_modules_wf [of p n r] assms(1) by auto
qed

text \<open>
  The products the editor can reach: a bow or a wrapped single unit, then any sequence of structural
  edits. Three edits are taken with a condition, because without it they break the invariant (see the lemmas
  \<open>unlinkCoupling_positional\<close> and \<open>insert_same_side\<close>): a module is inserted into joints of two different sides; a joint is severed,
  and the modules are reordered, in a row of positional couplings or where no other joint is re-aimed, in particular
  wherever every coupling names its modules.
\<close>

inductive reachable :: "ProductJson \<Rightarrow> bool" where
  bow: "1 \<le> moduleCount opts \<Longrightarrow> reachable (makeBowProduct opts)"
| wrap: "reachable (wrapTreeAsProduct t w h)"
| link: "reachable p \<Longrightarrow> linkModules p a ae b be k opts = Some q \<Longrightarrow> opt_id opts = None \<Longrightarrow> reachable q"
| unlink: "reachable p \<Longrightarrow> unlinkCoupling p c = Some q \<Longrightarrow>
    in_row p \<or> joints q = filter (\<lambda>j. j_id j \<noteq> c) (joints p) \<Longrightarrow> reachable q"
| move: "reachable p \<Longrightarrow> moveModule p i n = Some q \<Longrightarrow> in_row p \<or> joints q = joints p \<Longrightarrow> reachable q"
| add: "reachable p \<Longrightarrow> addAdjacentUnit p sd width = Inr (Some q) \<Longrightarrow> sd = E_left \<or> sd = E_right \<Longrightarrow> reachable q"
| remove: "reachable p \<Longrightarrow> removeUnit p i = Some q \<Longrightarrow> reachable q"
| insert: "reachable p \<Longrightarrow> insertModuleBetween p c width = Some q \<Longrightarrow>
    \<forall>j \<in> set (joints p). j_id j = c \<longrightarrow> fst (j_edges j) \<noteq> snd (j_edges j) \<Longrightarrow> reachable q"
| duplicate: "reachable p \<Longrightarrow> duplicateModule p i = Inr (Some q) \<Longrightarrow> reachable q"
| swap: "reachable p \<Longrightarrow> swapModules p a b = Some q \<Longrightarrow> reachable q"
| stack: "reachable p \<Longrightarrow> addStackedUnit p b height = Some q \<Longrightarrow> reachable q"
| count: "reachable p \<Longrightarrow> setModuleCount p m = Some (Inr (Some q)) \<Longrightarrow> reachable q"

text \<open>
  C2. Every product reached from the starters by structural edits under the conditions above is well formed: module and
  coupling identities are distinct, every coupling resolves to two declared modules, no module side carries two joints, and
  the coupling graph has no ring.
\<close>

theorem reachable_wf_product:
  assumes "reachable p"
  shows "wf_product p"
  using assms
proof (induction rule: reachable.induct)
  case (link p a ae b be k opts q)
  then show ?case by (intro linkModules_wf [of p a ae b be k opts q]) auto
next
  case (insert p c width q)
  then show ?case by (intro insertModuleBetween_wf [of p c width q]) auto
next
  case (bow opts) then show ?case by (rule makeBowProduct_wf(1))
next
  case wrap show ?case by (rule wrapTreeAsProduct_wf)
next
  case unlink then show ?case using unlinkCoupling_kept_wf by blast
next
  case move then show ?case using moveModule_kept_wf by blast
next
  case add then show ?case using addAdjacentUnit_wf(1) by blast
next
  case remove then show ?case using removeUnit_wf by blast
next
  case duplicate then show ?case using duplicateModule_wf by blast
next
  case swap then show ?case using swapModules_wf by blast
next
  case stack then show ?case using addStackedUnit_wf by blast
next
  case count then show ?case using setModuleCount_wf by blast
qed

definition sample_product :: ProductJson where
  "sample_product = wrapTreeAsProduct sample_tree ''1200.00'' ''1400.00''"

lemma sample_product_wf: "wf_product sample_product"
  unfolding sample_product_def by (rule wrapTreeAsProduct_wf)

lemma sample_usedEdges: "usedEdges sample_product i = {}" "chainEnd sample_product E_right = Some (hd (modules sample_product))"
  by (simp_all add: usedEdges_def incidentCouplings_def resolveCouplings_def sample_product_def wrapTreeAsProduct_def
      map_filter_simps chainEnd_def chainEndCandidates_def isStackedMember_def last_opt_def Let_def)

lemma sample_grow: "\<exists>q. addAdjacentUnit sample_product E_right None = Inr (Some q)"
  using addAdjacentUnit_total [of sample_product E_right None]
  by (auto simp: sample_usedEdges) (auto simp: sample_product_def wrapTreeAsProduct_def contour_ok_def)

theorem reachable_wf_witness: "\<exists>q. addAdjacentUnit sample_product E_right None = Inr (Some q) \<and> wf_product q"
proof -
  have "reachable sample_product" unfolding sample_product_def by (rule reachable.wrap)
  then show ?thesis using sample_grow reachable.add reachable_wf_product by blast
qed

section \<open>What each edit does\<close>

section \<open>Linking two modules\<close>

text \<open>When two modules may be linked, in terms of the assembly and its joints alone.\<close>

definition kind_sides :: "CouplingKind \<Rightarrow> GraphEdge set" where
  "kind_sides k = (case k of INLINE \<Rightarrow> {E_left, E_right} | STACKED \<Rightarrow> {E_top, E_bottom} | TEE \<Rightarrow> {E_top, E_bottom} | CORNER \<Rightarrow> UNIV)"

definition may_link :: "ProductJson \<Rightarrow> string \<Rightarrow> GraphEdge \<Rightarrow> string \<Rightarrow> GraphEdge \<Rightarrow> CouplingKind \<Rightarrow> bool" where
  "may_link p a ae b be k \<longleftrightarrow> {a, b} \<subseteq> set (module_ids p) \<and>
     (\<forall>x \<in> set (modules p). m_id x \<in> {a, b} \<longrightarrow> contour x = None \<and> frameless x = None) \<and>
     {ae, be} \<subseteq> kind_sides k \<and>
     (\<forall>j \<in> set (joints p). (a, ae) \<notin> set (claims j) \<and> (b, be) \<notin> set (claims j)) \<and>
     (a, b) \<notin> conn (set (map j_pair (joints p)))"

lemma canLink_may_link:
  assumes "wf_product p"
  shows "canLink p a ae b be k \<longleftrightarrow> may_link p a ae b be k"
proof -
  note w = wf_product_parts [OF assms]
  have un: "UNIV = {E_left, E_right, E_top, E_bottom}" by (auto intro: GraphEdge.exhaust)
  have ke: "kindEdges k = kind_sides k" by (cases k) (simp_all add: kind_sides_def un)
  have by_id: "(\<exists>x. byId (modules p) i = Some x \<and> \<not> shaped x) \<longleftrightarrow>
      i \<in> set (module_ids p) \<and> (\<forall>x \<in> set (modules p). m_id x = i \<longrightarrow> contour x = None \<and> frameless x = None)" for i
  proof (cases "byId (modules p) i")
    case None
    then have "i \<notin> set (module_ids p)" by (simp add: byId_None)
    then show ?thesis using None by simp
  next
    case (Some x)
    have "y = x" if "y \<in> set (modules p)" "m_id y = i" for y
      using byId_distinct [OF w(3) that(1)] that(2) Some by simp
    then show ?thesis using Some byId_Some [OF Some] by (auto simp: shaped_def)
  qed
  show ?thesis
    unfolding canLink_iff [OF w(1)] may_link_def graph_joints ke using by_id [of a] by_id [of b] by auto
qed

text \<open>
  C9. Linking two modules of a well-formed assembly. The link is made exactly when both modules are there and neither has a
  contour or is frameless, each side suits the kind, no joint claims either side, and the modules are not connected; otherwise
  nothing changes. The link appends one joint, of that kind and angle and with that coupler, which has each module at
  its side and names first the module that is declared first; its identity is the one asked for or else a new one. The modules and
  the other joints are untouched, and the assembly stays well formed.
\<close>

theorem linkModules_spec:
  assumes "wf_product p" "opt_id opts = None \<or> the (opt_id opts) \<notin> set (coupling_ids p)"
  shows "if may_link p a ae b be k
    then \<exists>p' i. linkModules p a ae b be k opts = Some p' \<and> wf_product p' \<and> modules p' = modules p \<and>
        i \<notin> set (coupling_ids p) \<and> (\<forall>i'. opt_id opts = Some i' \<longrightarrow> i = i') \<and>
        joints p' = joints p @ [\<lparr>j_id = i, j_angle = (case opt_angleDeg opts of Some d \<Rightarrow> d | None \<Rightarrow> ''0.0''),
          j_sku = field_opt (opt_couplerSku opts),
          j_pair = (if order_of (modules p) a \<le> order_of (modules p) b then (a, b) else (b, a)),
          j_edges = (if order_of (modules p) a \<le> order_of (modules p) b then (ae, be) else (be, ae)), j_kind = k\<rparr>]
    else linkModules p a ae b be k opts = None"
proof (cases "canLink p a ae b be k")
  case False
  then show ?thesis using canLink_may_link [OF assms(1)] by (simp add: linkModules_def)
next
  case True
  have ne: "a \<noteq> b" using True by (auto simp: canLink_def)
  define first where "first \<longleftrightarrow> order_of (modules p) a \<le> order_of (modules p) b"
  define c where "c = \<lparr>c_id = (case opt_id opts of Some i \<Rightarrow> i
        | None \<Rightarrow> fresh_name ''c'' (coupling_ids p) (length (couplings p) + 1)),
      angle_deg = (case opt_angleDeg opts of Some d \<Rightarrow> d | None \<Rightarrow> ''0.0''), coupler_profile_sku = field_opt (opt_couplerSku opts),
      kind = Some k, c_modules = Some (if first then (a, b) else (b, a)), c_edges = Some (if first then (ae, be) else (be, ae))\<rparr>"
  have l: "linkModules p a ae b be k opts = Some (p\<lparr>couplings := couplings p @ [c]\<rparr>)"
    using True ne by (simp add: linkModules_def modulesOrdered_def c_def first_def)
  have ej: "explicit_joint c = \<lparr>j_id = c_id c, j_angle = angle_deg c, j_sku = coupler_profile_sku c,
      j_pair = (if first then (a, b) else (b, a)), j_edges = (if first then (ae, be) else (be, ae)), j_kind = k\<rparr>"
    by (rule explicit_joint_simps) (simp_all add: c_def)
  have "explicit c" by (simp add: explicit_def c_def)
  then have j: "joints (p\<lparr>couplings := couplings p @ [c]\<rparr>) = joints p @ [explicit_joint c]" by (simp add: joints_snoc)
  have "wf_product (p\<lparr>couplings := couplings p @ [c]\<rparr>)"
    using assms(2) by (intro linkModules_wf [OF assms(1) l]) (cases "opt_id opts"; auto)
  moreover have "c_id c \<notin> set (coupling_ids p)"
    using assms(2) fresh_name_fresh [of "''c''" "coupling_ids p" "length (couplings p) + 1"] by (auto simp: c_def split: option.splits)
  ultimately show ?thesis
    using True l j canLink_may_link [OF assms(1)] unfolding ej by (auto simp: c_def first_def)
qed

text \<open>
  Growing a well-formed assembly on a side: the new unit continues the chain end on that side
  with its height and tree, its identity is fresh, it is joined by one new inline joint on the
  free side, every existing module and joint is kept, and the assembly stays well formed.
\<close>

theorem addAdjacentUnit_spec:
  assumes "wf_product p" "addAdjacentUnit p sd width = Inr (Some q)" "sd = E_left \<or> sd = E_right"
  shows "wf_product q \<and> (\<exists>edge md j. chainEnd p sd = Some edge \<and> m_id md \<notin> set (module_ids p) \<and>
      m_height_mm md = m_height_mm edge \<and> tree md = tree edge \<and>
      modules q = (if sd = E_right then modules p @ [md] else md # modules p) \<and>
      joints q = (if sd = E_right then joints p @ [j] else j # joints p) \<and> j_kind j = INLINE \<and>
      set (claims j) = {(m_id edge, sd), (m_id md, if sd = E_right then E_left else E_right)})"
proof -
  from assms(2,3) obtain edge md c where a: "chainEnd p sd = Some edge" "m_id md = nextModuleId p" "c_id c = nextCouplingId p"
    "explicit_joint c = \<lparr>j_id = nextCouplingId p, j_angle = angle_deg c, j_sku = coupler_profile_sku c,
       j_pair = (if sd = E_right then (m_id edge, m_id md) else (m_id md, m_id edge)),
       j_edges = (E_right, E_left), j_kind = INLINE\<rparr>" "explicit c"
    "m_height_mm md = m_height_mm edge" "tree md = tree edge"
    "m_width_mm md = (case width of None \<Rightarrow> m_width_mm edge | Some w \<Rightarrow> w)"
    "modules q = (if sd = E_right then modules p @ [md] else md # modules p)"
    "couplings q = (if sd = E_right then materializeCouplings p @ [c] else c # materializeCouplings p)"
    by (rule addAdjacentUnit_Some)
  note w = wf_product_parts [OF assms(1)]
  have "\<forall>c \<in> set (couplings q). explicit c" using a(5,10) w(5) by auto
  then have j: "joints q = (if sd = E_right then joints p @ [explicit_joint c] else explicit_joint c # joints p)"
    using joints_explicit(1) [of q] a(10) w(6) by simp
  have fresh: "m_id md \<notin> set (module_ids p)" using fresh_module.next_fresh a(2) by simp
  have cl: "set (claims (explicit_joint c)) = {(m_id edge, sd), (m_id md, if sd = E_right then E_left else E_right)}"
    using assms(3) by (auto simp: a(4) claims_def)
  show ?thesis
    using addAdjacentUnit_wf(1) [OF assms] a(1,6,7,9) j fresh cl
    by (intro conjI exI [of _ edge] exI [of _ md] exI [of _ "explicit_joint c"]) (simp_all add: a(4))
qed

theorem addAdjacentUnit_witness:
  "\<exists>q. addAdjacentUnit sample_product E_right None = Inr (Some q) \<and> length (modules q) = 2 \<and> length (joints q) = 1"
proof -
  obtain q where q: "addAdjacentUnit sample_product E_right None = Inr (Some q)" using sample_grow by blast
  have "length (modules sample_product) = 1" "joints sample_product = []"
    by (simp_all add: sample_product_def wrapTreeAsProduct_def joints_def resolveCouplings_def map_filter_simps)
  then show ?thesis using addAdjacentUnit_spec [OF sample_product_wf q] q by auto
qed

section \<open>Removing a module\<close>

text \<open>The far end of a joint of a module, and when the removal of a module bridges its two neighbours: it has exactly two joints, both
  inline, and neither neighbour is shaped. The code's other conditions hold in every well-formed assembly.\<close>

definition far_end :: "string \<Rightarrow> Joint \<Rightarrow> string \<times> GraphEdge" where
  "far_end m j = (if fst (j_pair j) = m then (snd (j_pair j), snd (j_edges j)) else (fst (j_pair j), fst (j_edges j)))"

definition plain_module :: "ProductJson \<Rightarrow> string \<Rightarrow> bool" where
  "plain_module p i \<longleftrightarrow> (\<forall>x \<in> set (modules p). m_id x = i \<longrightarrow> \<not> shaped x)"

definition bridges :: "ProductJson \<Rightarrow> string \<Rightarrow> Joint \<Rightarrow> Joint \<Rightarrow> bool" where
  "bridges p m j0 j1 \<longleftrightarrow> filter (touches m) (joints p) = [j0, j1] \<and> j_kind j0 = INLINE \<and> j_kind j1 = INLINE \<and>
     plain_module p (fst (far_end m j0)) \<and> plain_module p (fst (far_end m j1))"

lemma survivor_far: "survivor m r = far_end m (joint r)"
  by (simp add: survivor_def far_end_def joint_def)

lemma byId_plain:
  assumes "distinct (module_ids p)" "i \<in> set (module_ids p)" "i \<noteq> m"
  shows "\<exists>x. byId (filter (\<lambda>x. m_id x \<noteq> m) (modules p)) i = Some x \<and> (\<not> shaped x \<longleftrightarrow> plain_module p i)"
proof -
  obtain x where x: "x \<in> set (modules p)" "m_id x = i" using assms(2) by auto
  have "distinct (map m_id (filter (\<lambda>x. m_id x \<noteq> m) (modules p)))" by (rule distinct_map_filter [OF assms(1)])
  moreover have "x \<in> set (filter (\<lambda>x. m_id x \<noteq> m) (modules p))" using x assms(3) by simp
  ultimately have "byId (filter (\<lambda>x. m_id x \<noteq> m) (modules p)) i = Some x" using byId_distinct x(2) by blast
  moreover have "y = x" if "y \<in> set (modules p)" "m_id y = i" for y
    using assms(1) x that by (auto simp: distinct_map inj_on_def)
  ultimately show ?thesis using x unfolding plain_module_def by blast
qed

lemma wf_claims_apart:
  assumes "wf_graph ids js" "j \<in> set js" "k \<in> set js" "x \<in> set (claims j)" "x \<in> set (claims k)"
  shows "j = k"
proof (rule ccontr)
  assume "j \<noteq> k"
  from split_list [OF assms(2)] obtain as bs where js: "js = as @ j # bs" by blast
  then have "k \<in> set (as @ bs)" using assms(3) \<open>j \<noteq> k\<close> by auto
  moreover have "distinct (concat (map claims js))" using assms(1) by (simp add: wf_graph_def)
  ultimately show False using assms(4,5) unfolding js by auto
qed

text \<open>In a well-formed assembly the code's guard for a bridge says that the neighbours are plain.\<close>

lemma joinable_wf:
  assumes "wf_product p" "incidentCouplings p m = [i0, i1]"
  shows "joinable p (filter (\<lambda>x. m_id x \<noteq> m) (modules p))
      (filter (\<lambda>r. r_index r \<notin> set (map r_index (incidentCouplings p m))) (resolveCouplings p)) (survivor m i0) (survivor m i1) \<longleftrightarrow>
    plain_module p (fst (survivor m i0)) \<and> plain_module p (fst (survivor m i1))"
proof -
  note w = wf_product_parts [OF assms(1)]
  have inc: "filter (touches m) (joints p) = [joint i0, joint i1]" using incident_joints [of p m] assms(2) by simp
  have mem: "joint i0 \<in> set (joints p)" "joint i1 \<in> set (joints p)" "touches m (joint i0)" "touches m (joint i1)"
    using arg_cong [OF inc, of set] by auto
  note sv = survivor_claim [OF mem(3)] survivor_claim [OF mem(4)]
  let ?a = "fst (survivor m i0)" and ?b = "fst (survivor m i1)" and ?R = "filter (\<lambda>j. \<not> touches m j) (joints p)"
  have nc: "(?a, ?b) \<notin> conn (set (map j_pair ?R))" by (rule bridge_not_conn [OF w(1) inc]) (use sv in auto)
  then have ab: "?a \<noteq> ?b" by auto
  have am: "?a \<noteq> m" "?b \<noteq> m" using wf_no_self [OF w(1) mem(1)] wf_no_self [OF w(1) mem(2)] sv by auto
  have ids: "?a \<in> set (module_ids p)" "?b \<in> set (module_ids p)"
    using wf_graph_ends [OF w(1) mem(1)] wf_graph_ends [OF w(1) mem(2)] sv by auto
  have free: "\<forall>j \<in> set ?R. survivor m i0 \<notin> set (claims j) \<and> survivor m i1 \<notin> set (claims j)"
    using wf_claims_apart [OF w(1)] mem sv by (metis (mono_tags, lifting) mem_Collect_eq set_filter)
  have "\<not> alreadyJoined p ?a ?b"
  proof
    assume "alreadyJoined p ?a ?b"
    then obtain j where j: "j \<in> set (joints p)" "j_pair j = (?a, ?b) \<or> j_pair j = (?b, ?a)"
      by (auto simp: alreadyJoined_iff graph_joints)
    have "\<not> touches m j" using j(2) am unfolding touches_def by (metis fst_conv snd_conv)
    then have "j_pair j \<in> set (map j_pair ?R)" using j(1) by simp
    then show False using nc j(2) conn_edge conn_sym by metis
  qed
  moreover obtain x y where "byId (filter (\<lambda>x. m_id x \<noteq> m) (modules p)) ?a = Some x" "\<not> shaped x \<longleftrightarrow> plain_module p ?a"
    "byId (filter (\<lambda>x. m_id x \<noteq> m) (modules p)) ?b = Some y" "\<not> shaped y \<longleftrightarrow> plain_module p ?b"
    using byId_plain [OF w(3) ids(1) am(1)] byId_plain [OF w(3) ids(2) am(2)] by blast
  ultimately show ?thesis using ab free unfolding joinable_def edgeFree_claims remaining_joints by auto
qed

text \<open>Where the two joints stand in the list of joints.\<close>

lemma two_joints_split:
  assumes "filter P xs = [a, b]"
  obtains pre mid post where "xs = pre @ a # mid @ b # post" "filter (\<lambda>x. \<not> P x) xs = pre @ mid @ post"
proof -
  obtain pre ys where a: "xs = pre @ a # ys" "\<forall>x \<in> set pre. \<not> P x" "P a" "[b] = filter P ys"
    using assms by (auto simp: filter_eq_Cons_iff)
  obtain mid post where b: "ys = mid @ b # post" "\<forall>x \<in> set mid. \<not> P x" "P b" "[] = filter P post"
    using a(4) by (auto simp: Cons_eq_filter_iff)
  have "\<forall>x \<in> set post. \<not> P x" using b(4) by (metis filter_empty_conv)
  then show thesis using a b by (intro that [of pre mid post]) (simp_all add: filter_id_conv)
qed

lemma joint_position:
  assumes "wf_product p" "r \<in> set (resolveCouplings p)" "joints p = pre @ joint r # post"
  shows "r_index r = length pre"
proof -
  note w = wf_product_parts [OF assms(1)]
  note at = joint_at [OF w(2) assms(2)]
  have "distinct (joints p)" using w(1) by (simp add: wf_graph_def distinct_map)
  moreover have "joints p ! length pre = joint r" "length pre < length (joints p)" using assms(3) by simp_all
  ultimately show ?thesis using at nth_eq_iff_index_eq by metis
qed

text \<open>
  C8. Removing a module of a well-formed assembly. Nothing is removed when the module is missing or is the only one.
  Otherwise the other modules stay as they are, in order, and the assembly stays well formed. When the module has exactly two
  joints, both inline, to two neighbours that are not shaped, these two joints become one inline joint, in the place and with the identity of the
  first of them, between the far ends of the two, with the sum of their angles and the coupler of the first, or else of the second; in
  every other case the joints that touch the module go. Every other joint stays as it is, in order.
\<close>

theorem removeUnit_spec:
  assumes "wf_product p"
  shows "case removeUnit p m of
      None \<Rightarrow> m \<notin> set (module_ids p) \<or> length (modules p) = 1
    | Some q \<Rightarrow> m \<in> set (module_ids p) \<and> length (modules p) \<noteq> 1 \<and> wf_product q \<and> modules q = filter (\<lambda>x. m_id x \<noteq> m) (modules p) \<and>
        (if \<exists>j0 j1. bridges p m j0 j1 then
           \<exists>j0 j1 pre mid post j. bridges p m j0 j1 \<and> joints p = pre @ j0 # mid @ j1 # post \<and> joints q = pre @ j # mid @ post \<and>
             j_id j = j_id j0 \<and> j_kind j = INLINE \<and> set (claims j) = {far_end m j0, far_end m j1} \<and>
             j_angle j = toFixed 1 (js_add (str_num (j_angle j0)) (str_num (j_angle j1))) \<and>
             j_sku j = (case j_sku j0 of Some s \<Rightarrow> Some s | None \<Rightarrow> j_sku j1)
         else joints q = filter (\<lambda>j. \<not> touches m j) (joints p))"
proof (cases "removeUnit p m")
  case None
  then show ?thesis by (auto simp: removeUnit_unfold Let_def split: if_splits list.splits prod.splits)
next
  case (Some q)
  note w = wf_product_parts [OF assms]
  have g: "m \<in> set (module_ids p)" "length (modules p) \<noteq> 1" using Some by (auto simp: removeUnit_unfold split: if_splits)
  have wq: "wf_product q" using removeUnit_wf [OF assms Some] by blast
  let ?ms = "filter (\<lambda>x. m_id x \<noteq> m) (modules p)"
  let ?rest = "filter (\<lambda>r. r_index r \<notin> set (map r_index (incidentCouplings p m))) (resolveCouplings p)"
  define cs where "cs = map snd (filter (\<lambda>(i, c). i \<notin> set (map r_index (incidentCouplings p m))) (entries (materializeCouplings p)))"
  have kept: "map explicit_joint cs = filter (\<lambda>j. \<not> touches m j) (joints p)" unfolding cs_def by (rule kept_couplings [OF w(2)])
  have excs: "\<forall>c \<in> set cs. explicit c" using w(5) unfolding cs_def by (auto simp: mem_entries)
  show ?thesis
  proof (cases "\<exists>j0 j1. bridges p m j0 j1")
    case True
    then obtain j0 j1 where br: "bridges p m j0 j1" by blast
    then have f: "map joint (incidentCouplings p m) = [j0, j1]" using incident_joints [of p m] by (simp add: bridges_def)
    then obtain i0 i1 where i: "incidentCouplings p m = [i0, i1]" "j0 = joint i0" "j1 = joint i1" by (auto simp: map_eq_Cons_conv)
    have mem: "i0 \<in> set (resolveCouplings p)" "i1 \<in> set (resolveCouplings p)"
      using arg_cong [OF i(1), of set] by (auto simp: incidentCouplings_def)
    have k: "r_kind i0 = INLINE" "r_kind i1 = INLINE" using br i by (simp_all add: bridges_def joint_def)
    have jn: "joinable p ?ms ?rest (survivor m i0) (survivor m i1)"
      using br unfolding joinable_wf [OF assms i(1)] by (simp add: bridges_def survivor_far i)
    have ff: "filter (touches m) (joints p) = [j0, j1]" using br by (simp add: bridges_def)
    obtain pre mid post where js: "joints p = pre @ j0 # mid @ j1 # post" "filter (\<lambda>j. \<not> touches m j) (joints p) = pre @ mid @ post"
      by (rule two_joints_split [OF ff])
    have ix: "r_index i0 = length pre" "r_index i1 = Suc (length pre + length mid)"
      using joint_position [OF assms mem(1), of pre "mid @ j1 # post"] joint_position [OF assms mem(2), of "pre @ j0 # mid" post] js(1) i
      by simp_all
    define sw where "sw \<longleftrightarrow> order_of ?ms (fst (survivor m i0)) \<le> order_of ?ms (fst (survivor m i1))"
    define c where "c = \<lparr>c_id = c_id (r_coupling i0),
        angle_deg = toFixed 1 (js_add (str_num (angle_deg (r_coupling i0))) (str_num (angle_deg (r_coupling i1)))),
        coupler_profile_sku = (case coupler_profile_sku (r_coupling i0) of
              Some s \<Rightarrow> Some s | None \<Rightarrow> coupler_profile_sku (r_coupling i1)),
        kind = Some INLINE,
        c_modules = Some (if sw then (fst (survivor m i0), fst (survivor m i1)) else (fst (survivor m i1), fst (survivor m i0))),
        c_edges = Some (if sw then (snd (survivor m i0), snd (survivor m i1)) else (snd (survivor m i1), snd (survivor m i0)))\<rparr>"
    have q: "q = \<lparr>modules = ?ms, couplings = Prelude.splice (length pre) 0 [c] cs\<rparr>"
      using Some g i(1) k jn ix unfolding removeUnit_unfold cs_def c_def sw_def Let_def by (auto split: if_splits)
    have ec: "explicit c" by (simp add: explicit_def c_def)
    have "\<forall>x \<in> set (couplings q). explicit x" using q excs ec by (simp add: set_splice_insert)
    then have "joints q = Prelude.splice (length pre) 0 [explicit_joint c] (pre @ mid @ post)"
      using joints_explicit(1) [of q] kept js(2) by (simp add: q map_splice)
    then have jq: "joints q = pre @ explicit_joint c # mid @ post" by (simp add: Prelude.splice_def)
    have ej: "explicit_joint c = \<lparr>j_id = c_id c, j_angle = angle_deg c, j_sku = coupler_profile_sku c,
        j_pair = (if sw then (fst (survivor m i0), fst (survivor m i1)) else (fst (survivor m i1), fst (survivor m i0))),
        j_edges = (if sw then (snd (survivor m i0), snd (survivor m i1)) else (snd (survivor m i1), snd (survivor m i0))),
        j_kind = INLINE\<rparr>"
      by (rule explicit_joint_simps) (simp_all add: c_def)
    have "set (claims (explicit_joint c)) = {far_end m j0, far_end m j1}"
      by (auto simp: ej claims_def i survivor_far)
    moreover have "j_id (explicit_joint c) = j_id j0" "j_kind (explicit_joint c) = INLINE"
      "j_angle (explicit_joint c) = toFixed 1 (js_add (str_num (j_angle j0)) (str_num (j_angle j1)))"
      "j_sku (explicit_joint c) = (case j_sku j0 of Some s \<Rightarrow> Some s | None \<Rightarrow> j_sku j1)"
      by (simp_all add: ej) (simp_all add: c_def i joint_def split: option.split)
    ultimately have "\<exists>j0 j1 pre mid post j. bridges p m j0 j1 \<and> joints p = pre @ j0 # mid @ j1 # post \<and> joints q = pre @ j # mid @ post \<and>
        j_id j = j_id j0 \<and> j_kind j = INLINE \<and> set (claims j) = {far_end m j0, far_end m j1} \<and>
        j_angle j = toFixed 1 (js_add (str_num (j_angle j0)) (str_num (j_angle j1))) \<and>
        j_sku j = (case j_sku j0 of Some s \<Rightarrow> Some s | None \<Rightarrow> j_sku j1)"
      using br js(1) jq by blast
    moreover have "modules q = ?ms" by (simp add: q)
    ultimately show ?thesis unfolding Some option.case if_P [OF True] using g wq by blast
  next
    case False
    have "\<not> (r_kind i0 = INLINE \<and> r_kind i1 = INLINE \<and> joinable p ?ms ?rest (survivor m i0) (survivor m i1))"
      if i: "incidentCouplings p m = [i0, i1]" for i0 i1
    proof
      assume a: "r_kind i0 = INLINE \<and> r_kind i1 = INLINE \<and> joinable p ?ms ?rest (survivor m i0) (survivor m i1)"
      have "filter (touches m) (joints p) = [joint i0, joint i1]" using incident_joints [of p m] i by simp
      moreover have "j_kind (joint i0) = INLINE" "j_kind (joint i1) = INLINE" using a by (simp_all add: joint_def)
      ultimately have "bridges p m (joint i0) (joint i1)"
        using a unfolding joinable_wf [OF assms i] by (simp add: bridges_def survivor_far)
      then show False using False by blast
    qed
    then have q: "q = \<lparr>modules = ?ms, couplings = cs\<rparr>"
      using Some g unfolding removeUnit_unfold cs_def Let_def by (auto split: list.splits if_splits)
    then have "joints q = filter (\<lambda>j. \<not> touches m j) (joints p)" using joints_explicit(1) [of q] excs kept by simp
    moreover have "modules q = ?ms" by (simp add: q)
    ultimately show ?thesis using False Some g wq by simp
  qed
qed

definition sample_module :: "string \<Rightarrow> ProductModuleJson" where
  "sample_module i = \<lparr>m_id = i, m_width_mm = ''600.00'', m_height_mm = ''1400.00'', tree = sample_tree, contour = None, frameless = None\<rparr>"

definition positional :: "string \<Rightarrow> CouplingJson" where
  "positional i = \<lparr>c_id = i, angle_deg = ''0.0'', coupler_profile_sku = None, kind = None, c_modules = None, c_edges = None\<rparr>"

definition sample_pair :: ProductJson where
  "sample_pair = \<lparr>modules = [sample_module ''m1'', sample_module ''m2''], couplings = [positional ''c1'']\<rparr>"

definition sample_row :: ProductJson where
  "sample_row = \<lparr>modules = [sample_module ''m1'', sample_module ''m2'', sample_module ''m3''],
     couplings = [positional ''c1'', positional ''c2'']\<rparr>"

lemmas sample_row_defs = sample_pair_def sample_row_def sample_module_def positional_def resolveCouplings_def map_filter_simps
  resolve_one_def positional_pair_def nth_opt_def POSITIONAL_EDGES_def joints_def joint_def

lemma sample_pair_joints: "joints sample_pair = [\<lparr>j_id = ''c1'', j_angle = ''0.0'', j_sku = None, j_pair = (''m1'', ''m2''),
    j_edges = (E_right, E_left), j_kind = INLINE\<rparr>]"
  by (simp add: sample_row_defs)

lemma sample_pair_wf: "wf_product sample_pair"
  using sample_pair_joints
  by (simp add: wf_product_def wf_graph_def ring_free_def claims_def) (simp add: sample_row_defs)

lemma sample_row_wf: "wf_product sample_row"
  by (rule row_wf) (simp_all add: in_row_def sample_row_defs)

text \<open>The middle module of a row of three is removed.\<close>

theorem removeUnit_witness:
  "\<exists>q j. removeUnit sample_row ''m2'' = Some q \<and> module_ids q = [''m1'', ''m3''] \<and> joints q = [j] \<and>
     set (claims j) = {(''m1'', E_right), (''m3'', E_left)}"
proof -
  obtain J0 J1 where js: "joints sample_row = [J0, J1]" "j_pair J0 = (''m1'', ''m2'')" "j_pair J1 = (''m2'', ''m3'')"
    "j_edges J0 = (E_right, E_left)" "j_edges J1 = (E_right, E_left)" "j_kind J0 = INLINE" "j_kind J1 = INLINE"
    by (simp add: sample_row_defs)
  have f: "filter (touches ''m2'') (joints sample_row) = [J0, J1]"
    by (simp add: touches_def js)
  have "plain_module sample_row i" for i by (simp add: plain_module_def sample_row_def sample_module_def shaped_def)
  then have b: "\<exists>j0 j1. bridges sample_row ''m2'' j0 j1" using f js(6,7) by (auto simp: bridges_def)
  have e: "far_end ''m2'' J0 = (''m1'', E_right)" "far_end ''m2'' J1 = (''m3'', E_left)" by (simp_all add: far_end_def js)
  have ids: "module_ids sample_row = [''m1'', ''m2'', ''m3'']" by (simp add: sample_row_def sample_module_def)
  have "length (modules sample_row) = 3" by (simp add: sample_row_def)
  then obtain q where q: "removeUnit sample_row ''m2'' = Some q"
    using removeUnit_spec [OF sample_row_wf, of "''m2''"] ids by (cases "removeUnit sample_row ''m2''") auto
  note s = removeUnit_spec [OF sample_row_wf, of "''m2''", unfolded q option.case if_P [OF b]]
  have m: "modules q = filter (\<lambda>x. m_id x \<noteq> ''m2'') (modules sample_row)" using s by blast
  obtain j0 j1 pre mid post j where r: "bridges sample_row ''m2'' j0 j1" "joints sample_row = pre @ j0 # mid @ j1 # post"
    "joints q = pre @ j # mid @ post" "set (claims j) = {far_end ''m2'' j0, far_end ''m2'' j1}" using s by blast
  have j: "j0 = J0" "j1 = J1" using r(1) f by (simp_all add: bridges_def)
  have "length (pre @ j0 # mid @ j1 # post) = 2" using js(1) r(2) by (metis length_Cons list.size(3) numeral_2_eq_2)
  then have "joints q = [j]" using r(3) by simp
  moreover have "module_ids q = [''m1'', ''m3'']" by (simp add: m sample_row_def sample_module_def)
  ultimately show ?thesis using q r(4) e j by simp
qed

text \<open>The two outer modules of a row whose middle module was removed from the coupling list.\<close>

definition sample_split :: ProductJson where
  "sample_split = \<lparr>modules = [sample_module ''m1'', sample_module ''m2''], couplings = []\<rparr>"

lemma sample_split_wf: "wf_product sample_split"
  by (simp add: wf_product_def wf_graph_def ring_free_def sample_split_def sample_row_defs)

theorem linkModules_witness:
  "\<exists>q j. linkModules sample_split ''m1'' E_right ''m2'' E_left INLINE no_options = Some q \<and> wf_product q \<and>
     joints q = [j] \<and> set (claims j) = {(''m1'', E_right), (''m2'', E_left)}"
proof -
  have j: "joints sample_split = []" by (simp add: sample_split_def sample_row_defs)
  have "may_link sample_split ''m1'' E_right ''m2'' E_left INLINE"
    by (simp add: may_link_def j conn_def kind_sides_def) (simp add: sample_split_def sample_module_def)
  then show ?thesis
    using linkModules_spec [OF sample_split_wf, where opts = no_options and a = "''m1''" and ae = E_right and b = "''m2''" and be = E_left and k = INLINE] j
    by (fastforce simp: no_options_def claims_def)
qed

lemma insertModuleBetween_joints:
  assumes "wf_product p" "insertModuleBetween p cid width = Some q"
  shows "(\<exists>pre j post n j1 j2. joints p = pre @ j # post \<and> joints q = pre @ j1 # j2 # post \<and>
    j_id j = cid \<and> j_kind j = INLINE \<and> n \<notin> set (module_ids p) \<and> mset (module_ids q) = add_mset n (mset (module_ids p)) \<and>
    j_pair j1 = (fst (j_pair j), n) \<and> j_pair j2 = (n, snd (j_pair j)) \<and>
    j_edges j1 = (fst (j_edges j), OPPOSITE (fst (j_edges j))) \<and> j_edges j2 = (OPPOSITE (snd (j_edges j)), snd (j_edges j)) \<and>
    j_angle j1 = toFixed 1 (js_div (str_num (j_angle j)) (Fin 2)) \<and>
    j_angle j2 = toFixed 1 (js_sub (str_num (j_angle j)) (js_div (str_num (j_angle j)) (Fin 2))))"
proof -
  note w = wf_product_parts [OF assms(1)]
  from assms(2) obtain r md f s k where a: "r \<in> set (resolveCouplings p)" "c_id (r_coupling r) = cid" "r_kind r = INLINE"
    "m_id md = nextModuleId p" "modules q = Prelude.splice k 0 [md] (modules p)"
    "couplings q = Prelude.splice (r_index r) 1 [f, s] (materializeCouplings p)" "explicit f" "explicit s"
    "explicit_joint f = \<lparr>j_id = cid, j_angle = toFixed 1 (js_div (str_num (angle_deg (r_coupling r))) (Fin 2)),
       j_sku = coupler_profile_sku (r_coupling r), j_pair = (fst (r_pair r), m_id md),
       j_edges = (fst (r_edges r), OPPOSITE (fst (r_edges r))), j_kind = INLINE\<rparr>"
    "explicit_joint s = \<lparr>j_id = nextCouplingId p,
       j_angle = toFixed 1 (js_sub (str_num (angle_deg (r_coupling r))) (js_div (str_num (angle_deg (r_coupling r))) (Fin 2))),
       j_sku = coupler_profile_sku (r_coupling r), j_pair = (m_id md, snd (r_pair r)),
       j_edges = (OPPOSITE (snd (r_edges r)), snd (r_edges r)), j_kind = INLINE\<rparr>"
    by (rule insertModuleBetween_Some)
  note at = joint_at [OF w(2) a(1)]
  let ?pre = "take (r_index r) (joints p)" and ?post = "drop (Suc (r_index r)) (joints p)"
  have js: "joints p = ?pre @ joint r # ?post" using id_take_nth_drop [OF at(1)] at(2) by simp
  have "\<forall>c \<in> set (couplings q). explicit c"
    using w(5) a(6,7,8) by (auto simp: Prelude.splice_def dest: in_set_takeD in_set_dropD)
  then have jq: "joints q = ?pre @ explicit_joint f # explicit_joint s # ?post"
    using joints_explicit(1) [of q] by (simp add: a(6) map_splice Prelude.splice_def w(6) flip: take_map drop_map)
  have "nextModuleId p \<notin> set (module_ids p)" using fresh_module.next_fresh by simp
  moreover have "mset (module_ids q) = add_mset (nextModuleId p) (mset (module_ids p))"
    by (simp add: a(4,5) map_splice mset_splice_insert)
  moreover have "j_id (joint r) = cid" "j_kind (joint r) = INLINE" "j_pair (joint r) = r_pair r" "j_edges (joint r) = r_edges r"
    "j_angle (joint r) = angle_deg (r_coupling r)" using a(2,3) by (simp_all add: joint_def)
  ultimately show ?thesis
    using js jq a(4,9,10)
    by (intro conjI exI [of _ ?pre] exI [of _ "joint r"] exI [of _ ?post] exI [of _ "nextModuleId p"]
        exI [of _ "explicit_joint f"] exI [of _ "explicit_joint s"]) simp_all
qed

text \<open>
  Opening an inline joint for a new module: the joint's two ends are kept on their modules and
  sides, the new module is joined between them on the opposite sides, its identity is fresh,
  and, when the joint joined two different sides, the assembly stays well formed.
\<close>

theorem insertModuleBetween_spec:
  assumes "wf_product p" "insertModuleBetween p cid width = Some q"
    "\<forall>j \<in> set (joints p). j_id j = cid \<longrightarrow> fst (j_edges j) \<noteq> snd (j_edges j)"
  shows "wf_product q \<and> (\<exists>pre j post n j1 j2. joints p = pre @ j # post \<and> joints q = pre @ j1 # j2 # post \<and>
    j_id j = cid \<and> j_kind j = INLINE \<and> n \<notin> set (module_ids p) \<and> mset (module_ids q) = add_mset n (mset (module_ids p)) \<and>
    j_pair j1 = (fst (j_pair j), n) \<and> j_pair j2 = (n, snd (j_pair j)) \<and>
    j_edges j1 = (fst (j_edges j), OPPOSITE (fst (j_edges j))) \<and> j_edges j2 = (OPPOSITE (snd (j_edges j)), snd (j_edges j)) \<and>
    j_angle j1 = toFixed 1 (js_div (str_num (j_angle j)) (Fin 2)) \<and>
    j_angle j2 = toFixed 1 (js_sub (str_num (j_angle j)) (js_div (str_num (j_angle j)) (Fin 2))))"
  using insertModuleBetween_wf [OF assms(1,2)] assms(3) insertModuleBetween_joints [OF assms(1,2)] by blast

lemma sample_byId: "byId (modules sample_pair) ''m1'' = Some (sample_module ''m1'')" "byId (modules sample_pair) ''m2'' = Some (sample_module ''m2'')"
  using byId_distinct [OF wf_product_parts(3) [OF sample_pair_wf], of "sample_module ''m1''"]
    byId_distinct [OF wf_product_parts(3) [OF sample_pair_wf], of "sample_module ''m2''"]
  by (simp_all add: sample_pair_def sample_module_def)

lemma sample_pair_insert: "\<exists>q. insertModuleBetween sample_pair ''c1'' None = Some q"
proof -
  have "\<exists>r. resolveCouplings sample_pair = [r] \<and> c_id (r_coupling r) = ''c1'' \<and> r_kind r = INLINE \<and> r_pair r = (''m1'', ''m2'')"
    by (simp add: sample_row_defs)
  then show ?thesis by (auto simp: insertModuleBetween_def sample_byId shaped_def Let_def) (auto simp: sample_module_def)
qed

theorem insertModuleBetween_witness:
  "\<exists>q j1 j2. insertModuleBetween sample_pair ''c1'' None = Some q \<and> wf_product q \<and> joints q = [j1, j2] \<and>
     fst (j_pair j1) = ''m1'' \<and> snd (j_pair j2) = ''m2'' \<and> snd (j_pair j1) = fst (j_pair j2)"
proof -
  obtain q where q: "insertModuleBetween sample_pair ''c1'' None = Some q" using sample_pair_insert by blast
  have "wf_product q \<and> (\<exists>pre j post n j1 j2. joints sample_pair = pre @ j # post \<and> joints q = pre @ j1 # j2 # post \<and>
    j_id j = ''c1'' \<and> j_kind j = INLINE \<and> n \<notin> set (module_ids sample_pair) \<and>
    mset (module_ids q) = add_mset n (mset (module_ids sample_pair)) \<and>
    j_pair j1 = (fst (j_pair j), n) \<and> j_pair j2 = (n, snd (j_pair j)) \<and>
    j_edges j1 = (fst (j_edges j), OPPOSITE (fst (j_edges j))) \<and> j_edges j2 = (OPPOSITE (snd (j_edges j)), snd (j_edges j)) \<and>
    j_angle j1 = toFixed 1 (js_div (str_num (j_angle j)) (Fin 2)) \<and>
    j_angle j2 = toFixed 1 (js_sub (str_num (j_angle j)) (js_div (str_num (j_angle j)) (Fin 2))))"
    by (rule insertModuleBetween_spec [OF sample_pair_wf q]) (simp add: sample_pair_joints)
  then show ?thesis using q by (auto simp: sample_pair_joints Cons_eq_append_conv)
qed

lemma findIndex_distinct:
  assumes "distinct (map m_id ms)" "i < length ms"
  shows "findIndex (\<lambda>m. m_id m = m_id (ms ! i)) ms = Some i"
proof (cases "findIndex (\<lambda>m. m_id m = m_id (ms ! i)) ms")
  case None
  then show ?thesis using assms(2) by (auto simp: findIndex_None dest: nth_mem)
next
  case (Some k)
  with findIndex_Some [OF Some] assms show ?thesis by (auto simp: distinct_conv_nth)
qed

lemma rename_joint_swap [simp]: "rename_joint (swap_id a b) (rename_joint (swap_id a b) j) = j"
  by (cases "j_pair j") (simp add: rename_joint_def)

text \<open>
  C20. Swapping two modules: the modules stay the same up to their order, every joint keeps its
  identity, angle, kind and sides and is re-aimed by exchanging the two names, so that each place
  of the assembly now holds the other module; the assembly stays well formed, and swapping
  again restores the modules and every joint.
\<close>

theorem swapModules_spec:
  assumes "wf_product p" "swapModules p a b = Some q"
  shows "wf_product q \<and> mset (modules q) = mset (modules p) \<and> joints q = map (rename_joint (swap_id a b)) (joints p) \<and>
    (\<exists>r. swapModules q a b = Some r \<and> modules r = modules p \<and> joints r = joints p)"
proof -
  note s = swapModules_Some [OF assms(2,1)] and wq = swapModules_wf [OF assms]
  have d: "distinct (map m_id (modules p))" "distinct (map m_id (modules q))"
    using wf_product_parts(3) assms(1) wq by blast+
  obtain ia ib where i: "a \<noteq> b" "findIndex (\<lambda>m. m_id m = a) (modules p) = Some ia" "findIndex (\<lambda>m. m_id m = b) (modules p) = Some ib"
    and q: "modules q = (modules p)[ia := modules p ! ib, ib := modules p ! ia]"
    using assms(2) by (auto simp: swapModules_def split: if_splits option.splits)
  note fa = findIndex_Some [OF i(2)] and fb = findIndex_Some [OF i(3)]
  have ne: "ia \<noteq> ib" using i(1) fa fb by auto
  have qa: "m_id (modules q ! ib) = a" "m_id (modules q ! ia) = b" and len: "length (modules q) = length (modules p)"
    using q fa fb ne by (simp_all add: nth_list_update)
  have "findIndex (\<lambda>m. m_id m = a) (modules q) = Some ib" "findIndex (\<lambda>m. m_id m = b) (modules q) = Some ia"
    using findIndex_distinct [OF d(2), of ib] findIndex_distinct [OF d(2), of ia] qa len fa fb by simp_all
  then obtain r where r: "swapModules q a b = Some r" "modules r = (modules q)[ib := modules q ! ia, ia := modules q ! ib]"
    using i(1) by (simp add: swapModules_def)
  have "modules r = modules p" unfolding r(2) q using fa fb ne by (simp add: nth_list_update list_update_swap)
  moreover have "joints r = joints p"
    using swapModules_Some(1) [OF r(1) wq] s(1) by (simp add: comp_def)
  ultimately show ?thesis using wq s r(1) by blast
qed

theorem swapModules_witness:
  "\<exists>q. swapModules sample_pair ''m1'' ''m2'' = Some q \<and> wf_product q \<and> map j_pair (joints q) = [(''m2'', ''m1'')]"
proof -
  obtain q where q: "swapModules sample_pair ''m1'' ''m2'' = Some q"
    by (simp add: swapModules_def sample_pair_def sample_module_def)
  then show ?thesis using swapModules_spec [OF sample_pair_wf q] by (simp add: sample_pair_joints rename_joint_def swap_id_def)
qed

text \<open>
  Stacking a module on a plain module whose top side is free always succeeds: one module is
  appended with a fresh identity, one stacked joint from the base's top to its bottom is appended,
  every other joint is kept and the assembly stays well formed. On a missing or shaped base or a
  base whose top is taken nothing is done.
\<close>

lemma addStackedUnit_spec:
  assumes "wf_product p"
  shows "case find_module p b of
      None \<Rightarrow> addStackedUnit p b height = None
    | Some base \<Rightarrow>
        if shaped base \<or> (\<exists>j \<in> set (joints p). (b, E_top) \<in> set (claims j)) then addStackedUnit p b height = None
        else \<exists>q j n. addStackedUnit p b height = Some q \<and> wf_product q \<and> n \<notin> set (module_ids p) \<and>
          module_ids q = module_ids p @ [n] \<and> joints q = joints p @ [j] \<and> j_kind j = STACKED \<and>
          set (claims j) = {(b, E_top), (n, E_bottom)}"
proof (cases "find_module p b")
  case (Some base)
  have u: "E_top \<in> usedEdges p b \<longleftrightarrow> (\<exists>j \<in> set (joints p). (b, E_top) \<in> set (claims j))"
    using usedEdges_claims [OF wf_product_parts(1) [OF assms]] by blast
  show ?thesis
  proof (cases "shaped base \<or> E_top \<in> usedEdges p b")
    case True
    then show ?thesis using Some u by (auto simp: addStackedUnit_def)
  next
    case False
    then have f: "\<not> shaped base" "E_top \<notin> usedEdges p b" by auto
    obtain q j where "addStackedUnit p b height = Some q" "wf_product q" "module_ids q = module_ids p @ [nextModuleId p]"
      "joints q = joints p @ [j]" "j_kind j = STACKED" "set (claims j) = {(b, E_top), (nextModuleId p, E_bottom)}"
      by (rule addStackedUnit_spec' [OF assms Some f])
    moreover have "nextModuleId p \<notin> set (module_ids p)" using fresh_module.next_fresh by simp
    moreover have "\<not> (shaped base \<or> (\<exists>j \<in> set (joints p). (b, E_top) \<in> set (claims j)))" using f u by blast
    ultimately show ?thesis using Some by auto
  qed
qed (simp add: addStackedUnit_def)

lemma addStackedUnit_witness:
  "\<exists>q j. addStackedUnit sample_pair ''m1'' None = Some q \<and> length (modules q) = 3 \<and> last (joints q) = j \<and> j_kind j = STACKED"
proof -
  have f: "find_module sample_pair ''m1'' = Some (sample_module ''m1'')"
    by (simp add: find_module_def sample_pair_def sample_module_def)
  have ns: "\<not> shaped (sample_module ''m1'')" by (simp add: shaped_def sample_module_def)
  have nt: "\<not> (\<exists>j \<in> set (joints sample_pair). (''m1'', E_top) \<in> set (claims j))" by (simp add: sample_pair_joints claims_def)
  have "length (modules sample_pair) = 2" by (simp add: sample_pair_def)
  then show ?thesis
    using addStackedUnit_spec [OF sample_pair_wf, of "''m1''" None] f ns nt
    by (auto dest: arg_cong [where f = length])
qed

text \<open>
  C13. Setting the number of modules of a well-formed assembly with sound contours. Fewer modules:
  the edit returns and keeps exactly the first ones, in order. More modules: when some module has
  its right side free the edit returns with exactly that many modules, the present ones first and
  unchanged; when every right side is taken the edit does not return. The same number, or a
  number below one, changes nothing.
\<close>

theorem setModuleCount_spec:
  assumes "wf_product p" "\<forall>m \<in> set (modules p). contour_ok m"
  shows "if n < 1 \<or> n = int (length (modules p)) then setModuleCount p n = Some (Inr None)
    else if n < int (length (modules p)) then
      \<exists>q. setModuleCount p n = Some (Inr (Some q)) \<and> wf_product q \<and> module_ids q = take (nat n) (module_ids p)
    else if \<exists>m \<in> set (modules p). E_right \<notin> usedEdges p (m_id m) then
      \<exists>q. setModuleCount p n = Some (Inr (Some q)) \<and> wf_product q \<and> int (length (modules q)) = n \<and>
        take (length (modules p)) (modules q) = modules p
    else setModuleCount p n = None"
proof -
  have neg: "setModuleCount p n = Some (Inr None)" if "n < 1 \<or> n = int (length (modules p))"
    using that by (auto simp: setModuleCount_def Let_def)
  have trim: "\<exists>q. setModuleCount p n = Some (Inr (Some q)) \<and> wf_product q \<and> module_ids q = take (nat n) (module_ids p)"
    if t: "\<not> n < 1" "n < int (length (modules p))"
  proof -
    obtain k where k: "n = int k" using t nonneg_int_cases [of n] by auto
    then show ?thesis using trim_modules_spec [OF assms(1), of k] t by (auto simp: setModuleCount_def Let_def)
  qed
  have grow: "\<exists>q. setModuleCount p n = Some (Inr (Some q)) \<and> wf_product q \<and> int (length (modules q)) = n \<and>
        take (length (modules p)) (modules q) = modules p"
    if g: "int (length (modules p)) < n" "\<exists>m \<in> set (modules p). E_right \<notin> usedEdges p (m_id m)"
  proof -
    obtain k where k: "n = int k" using g nonneg_int_cases [of n] by auto
    then show ?thesis using grow_modules_spec [OF assms(1) _ assms(2) g(2), of k] g by (auto simp: setModuleCount_def Let_def)
  qed
  have div: "setModuleCount p n = None"
    if g: "\<not> n < 1" "int (length (modules p)) < n" "\<not> (\<exists>m \<in> set (modules p). E_right \<notin> usedEdges p (m_id m))"
    using g grow_modules_diverges [of p n] chainEnd_None [of p E_right] by (auto simp: setModuleCount_def Let_def)
  show ?thesis using neg trim grow div by auto
qed

lemma sample_row_joints: "map j_pair (joints sample_row) = [(''m1'', ''m2''), (''m2'', ''m3'')]"
  "map j_edges (joints sample_row) = [(E_right, E_left), (E_right, E_left)]"
  by (simp_all add: sample_row_defs)

lemma sample_product_ok: "\<forall>m \<in> set (modules sample_product). contour_ok m"
  by (simp add: sample_product_def wrapTreeAsProduct_def contour_ok_def)

theorem setModuleCount_witness:
  "\<exists>q. setModuleCount sample_product 4 = Some (Inr (Some q)) \<and> length (modules q) = 4"
proof -
  have "length (modules sample_product) = 1" "modules sample_product \<noteq> []" by (simp_all add: sample_product_def wrapTreeAsProduct_def)
  then show ?thesis
    using setModuleCount_spec [OF sample_product_wf sample_product_ok, of 4]
    by (auto simp: sample_usedEdges ex_in_conv)
qed

text \<open>
  Severing a joint of an assembly whose couplings name their modules removes that joint and
  nothing else, and keeps the assembly well formed.
\<close>

lemma unlinkCoupling_spec:
  assumes "wf_product p" "all_explicit p" "unlinkCoupling p cid = Some q"
  shows "wf_product q \<and> modules q = modules p \<and> joints q = filter (\<lambda>j. j_id j \<noteq> cid) (joints p)"
proof (intro conjI)
  show "wf_product q" by (rule unlinkCoupling_wf [OF assms])
  have q: "modules q = modules p" "couplings q = filter (\<lambda>c. c_id c \<noteq> cid) (couplings p)"
    using assms(3) by (auto simp: unlinkCoupling_def split: if_splits)
  show "modules q = modules p" by (rule q)
  have ex: "\<forall>c \<in> set (couplings p). explicit c" "\<forall>c \<in> set (couplings q). explicit c"
    using assms(2) q by (auto simp: all_explicit_def)
  have "j_id (explicit_joint c) = c_id c" if "explicit c" for c
    using that by (auto simp: explicit_def explicit_joint_def resolve_one_def joint_def)
  then have "filter (\<lambda>j. j_id j \<noteq> cid) (map explicit_joint (couplings p)) = map explicit_joint (filter (\<lambda>c. c_id c \<noteq> cid) (couplings p))"
    using ex(1) by (auto simp: filter_map comp_def intro!: arg_cong [where f = "map explicit_joint"] filter_cong)
  then show "joints q = filter (\<lambda>j. j_id j \<noteq> cid) (joints p)"
    using joints_explicit(1) [OF ex(1)] joints_explicit(1) [OF ex(2)] q(2) by simp
qed

definition sample_linked :: ProductJson where
  "sample_linked = \<lparr>modules = modules sample_pair, couplings = [(positional ''c1'')\<lparr>c_modules := Some (''m1'', ''m2'')\<rparr>]\<rparr>"

lemma sample_linked_wf: "wf_product sample_linked" "all_explicit sample_linked"
proof -
  have "joints sample_linked = joints sample_pair" unfolding sample_pair_joints by (simp add: sample_linked_def sample_row_defs)
  moreover have "length (resolveCouplings sample_linked) = 1" "length (couplings sample_linked) = 1" "modules sample_linked = modules sample_pair"
    by (simp_all add: sample_linked_def sample_row_defs)
  ultimately show "wf_product sample_linked" using sample_pair_wf by (simp add: wf_product_def)
  show "all_explicit sample_linked" by (simp add: all_explicit_def explicit_def sample_linked_def)
qed

lemma unlinkCoupling_witness:
  "\<exists>q. unlinkCoupling sample_linked ''c1'' = Some q \<and> wf_product q \<and> joints q = []"
proof -
  obtain q where q: "unlinkCoupling sample_linked ''c1'' = Some q"
    by (simp add: unlinkCoupling_def sample_linked_def positional_def)
  have "map j_id (joints sample_linked) = [''c1'']" by (simp add: sample_linked_def sample_row_defs)
  then show ?thesis using unlinkCoupling_spec [OF sample_linked_wf q] q by (auto simp: map_eq_Cons_conv)
qed

text \<open>
  On a positional coupling list the same edit re-aims a joint it was not asked about: severing the
  first joint of a three-module row leaves the second coupling between the first two modules.
\<close>

lemma unlinkCoupling_positional:
  "\<exists>q. unlinkCoupling sample_row ''c1'' = Some q \<and> map j_id (joints q) = [''c2''] \<and>
     map j_pair (joints q) = [(''m1'', ''m2'')] \<and> map j_pair (filter (\<lambda>j. j_id j = ''c2'') (joints sample_row)) = [(''m2'', ''m3'')]"
  by (simp add: unlinkCoupling_def) (simp add: sample_row_defs)

text \<open>
  Two modules joined at their right sides form a sound assembly. Inserting a module into that joint gives both new joints the same side
  of the new module, which then carries two joints.
\<close>

definition sample_back :: ProductJson where
  "sample_back = \<lparr>modules = modules sample_pair, couplings = [(positional ''c1'')\<lparr>kind := Some INLINE, c_modules := Some (''m1'', ''m2''),
     c_edges := Some (E_right, E_right)\<rparr>]\<rparr>"

lemma insert_same_side:
  "linkModules sample_split ''m1'' E_right ''m2'' E_right INLINE no_options \<noteq> None"
  "\<exists>q. insertModuleBetween sample_back ''c1'' None = Some q \<and> wf_product sample_back \<and> \<not> wf_product q"
proof -
  have "joints sample_split = []" by (simp add: sample_split_def sample_row_defs)
  then have "may_link sample_split ''m1'' E_right ''m2'' E_right INLINE"
    by (simp add: may_link_def conn_def kind_sides_def) (simp add: sample_split_def sample_module_def)
  then have "canLink sample_split ''m1'' E_right ''m2'' E_right INLINE" using canLink_may_link [OF sample_split_wf] by simp
  then show "linkModules sample_split ''m1'' E_right ''m2'' E_right INLINE no_options \<noteq> None"
    by (simp add: linkModules_def Let_def split: prod.split)
  have js: "joints sample_back = [\<lparr>j_id = ''c1'', j_angle = ''0.0'', j_sku = None, j_pair = (''m1'', ''m2''), j_edges = (E_right, E_right), j_kind = INLINE\<rparr>]"
    by (simp add: sample_back_def sample_row_defs)
  then have wf: "wf_product sample_back"
    by (simp add: wf_product_def wf_graph_def ring_free_def claims_def) (simp add: sample_back_def sample_row_defs)
  have "\<exists>r. resolveCouplings sample_back = [r] \<and> c_id (r_coupling r) = ''c1'' \<and> r_kind r = INLINE \<and> r_pair r = (''m1'', ''m2'')"
    by (simp add: sample_back_def sample_row_defs)
  moreover have "modules sample_back = modules sample_pair" by (simp add: sample_back_def)
  ultimately have "\<exists>q. insertModuleBetween sample_back ''c1'' None = Some q"
    by (auto simp: insertModuleBetween_def sample_byId shaped_def Let_def) (auto simp: sample_module_def)
  then obtain q where q: "insertModuleBetween sample_back ''c1'' None = Some q" by blast
  have "\<not> wf_product q"
  proof
    assume "wf_product q"
    obtain j1 j2 n where j: "joints q = [j1, j2]" "(n, E_left) \<in> set (claims j1)" "(n, E_left) \<in> set (claims j2)"
      using insertModuleBetween_joints [OF wf q] by (auto simp: js Cons_eq_append_conv claims_def)
    then show False using \<open>wf_product q\<close> by (auto simp: wf_product_def wf_graph_def disjoint_iff)
  qed
  then show "\<exists>q. insertModuleBetween sample_back ''c1'' None = Some q \<and> wf_product sample_back \<and> \<not> wf_product q" using q wf by blast
qed

end
