(* ===== verification/Openings.thy ===== *)
theory Openings
  imports ProductModel
begin

text \<open>
  \<open>features/canvas/physicalOpenings.ts\<close>: the physical opening of a bay, the choices a catalogue's
  capabilities offer, the patch a choice writes into a bay and the test that recognises it again,
  and the grouping of sealed leaf facts by module. Labels are written as their UTF-8 bytes.
\<close>

section \<open>Data\<close>

record PlanPoint =
  pt_x_mm :: string
  depth_mm :: string

datatype Travel = T_LEFT | T_RIGHT | T_UP | T_DOWN

datatype Balance = SPRING | COUNTERWEIGHT

record AdvancedLeafFact =
  recipe_code :: string
  recipe_name :: string
  al_scheme :: string
  al_source :: string
  al_synthetic :: bool
  al_kind :: PanelKind
  profile_role :: string
  profile_face_mm :: string
  glass_x_mm :: string
  glass_y_mm :: string
  glass_width_mm :: string
  glass_height_mm :: string
  al_track :: "nat option"
  plane_offset_mm :: string
  al_travel :: "Travel option"
  travel_mm :: string
  lift_mm :: "string option"
  parallel_offset_mm :: "string option"
  pivot_x_mm :: "string option"
  pivot_y_mm :: "string option"
  opening_angle_deg :: string
  fold_group :: "string option"
  fold_index :: "nat option"
  stack_side :: "side option"
  pass_through :: bool
  pass_open_plan :: "(PlanPoint \<times> PlanPoint) option"
  packet_pitch_mm :: "string option"
  balance :: "Balance option"
  closed_plan :: "PlanPoint \<times> PlanPoint"
  open_plan :: "PlanPoint \<times> PlanPoint"
  open_plan_polygon :: "PlanPoint list field"

record AdvancedRecipe =
  ar_code :: string
  ar_name :: string
  ar_scheme :: string
  ar_source :: string
  ar_synthetic :: bool
  starter_width_mm :: string
  starter_height_mm :: string

record HandleFact =
  hf_side :: string
  hf_x_mm :: string
  hf_y_mm :: string
  height_from_bottom_mm :: string
  minimum_height_from_bottom_mm :: string
  maximum_height_from_bottom_mm :: string
  hf_minimum_from_top_mm :: string
  maximum_from_top_mm :: string
  hf_source :: string

record OpeningLeafFact =
  advanced :: "AdvancedLeafFact field"
  bay_id :: string
  leaf_id :: "string option"
  lf_opening :: PhysicalOpening
  lf_use :: string
  lf_x_mm :: string
  lf_y_mm :: string
  lf_width_mm :: string
  lf_height_mm :: string
  lf_source :: string
  handle :: "HandleFact option"

record HandleRule =
  vertical_reference :: string
  default_height_mm :: "string option"
  minimum_from_top_mm :: string
  minimum_from_bottom_mm :: string
  closing_edge_offset_mm :: string
  hr_source :: string

record Capability =
  advanced_recipes :: "AdvancedRecipe list option"
  cap_use :: OpeningUse
  cap_movement :: Movement
  cap_direction :: Direction
  cap_leaf_role :: LeafRole
  cap_fixed_in_sash :: bool
  hinge_sides :: "HingeSide list"
  hardware_kit_skus :: "string list"
  cap_source :: string
  handle_rule :: "HandleRule option"

record OpeningChoice =
  ch_id :: string
  ch_label :: string
  ch_opening :: PhysicalOpening
  ch_use :: OpeningUse
  ch_layout :: "HingedLayout option"
  ch_source :: string
  ch_recipe :: "AdvancedRecipe option"

text \<open>The members of the catalogue's design options that the choices read.\<close>

record DesignOptions =
  opening_capabilities :: "Capability list option"
  paired_leaf_rule :: bool

section \<open>Leaf facts by module\<close>

definition leaf_of :: "ProductJson \<Rightarrow> string \<Rightarrow> OpeningLeafFact \<Rightarrow> bool" where
  "leaf_of p i leaf \<longleftrightarrow> startsWith (bay_id leaf) (i @ ''|'') \<or>
     (length (modules p) = 1 \<and> CHR ''|'' \<notin> set (bay_id leaf))"

definition local_leaf :: "string \<Rightarrow> OpeningLeafFact \<Rightarrow> OpeningLeafFact" where
  "local_leaf i leaf = leaf\<lparr>bay_id :=
     (if startsWith (bay_id leaf) (i @ ''|'') then drop (length i + 1) (bay_id leaf) else bay_id leaf)\<rparr>"

text \<open>\<open>Object.fromEntries\<close>: the last entry of a key wins.\<close>

definition openingFactsByModule :: "ProductJson \<Rightarrow> OpeningLeafFact list \<Rightarrow> (string \<times> OpeningLeafFact list) list" where
  "openingFactsByModule p leafFacts = map_new (map (\<lambda>m.
     (m_id m, map (local_leaf (m_id m)) (filter (leaf_of p (m_id m)) leafFacts))) (modules p))"

section \<open>Presentation of an opening\<close>

definition visualOpening :: "IntentNode \<Rightarrow> Opening" where
  "visualOpening node =
     (case node_opening (dat node) of
        Val physical \<Rightarrow>
          if movement physical = M_FIXED then O_FIXED
          else if movement physical \<in> {M_SLIDE, M_LIFT_SLIDE, M_PARALLEL_SLIDE} then O_SLIDING
          else if opening_use (dat node) = Val U_DOOR
          then (if nullish (hinged_layout (dat node)) then O_DOOR_ENTRY else O_DOOR_DOUBLE)
          else if movement physical \<in> {M_TILT, M_TOP_HUNG} then O_AWNING
          else if movement physical = M_TILT_TURN
          then (if hinge_side physical = H_LEFT then O_TILT_TURN_LEFT else O_TILT_TURN_RIGHT)
          else (if hinge_side physical = H_LEFT then O_TURN_LEFT else O_TURN_RIGHT)
      | _ \<Rightarrow> coalesce (opening_type (dat node)) O_FIXED)"

definition em_dash :: string where
  "em_dash = [CHR 0xE2, CHR 0x80, CHR 0x94]"

definition mid_dot :: string where
  "mid_dot = [CHR 0xC2, CHR 0xB7]"

fun advancedNames :: "Movement \<Rightarrow> string option" where
  "advancedNames M_LIFT_SLIDE = Some ''Elevable-corredera (HST)''"
| "advancedNames M_PARALLEL_SLIDE = Some ''Osciloparalela (PSK)''"
| "advancedNames M_FOLD = Some ''Plegable''"
| "advancedNames M_PIVOT_V = Some ''Pivotante vertical''"
| "advancedNames M_PIVOT_H = Some ''Pivotante horizontal''"
| "advancedNames M_VERTICAL_SLIDE = Some ''Guillotina''"
| "advancedNames _ = None"

definition physicalLabel :: "PhysicalOpening \<Rightarrow> OpeningUse \<Rightarrow> string" where
  "physicalLabel o' use' =
     (if movement o' = M_FIXED then (if fixed_in_sash o' then ''Fijo en hoja'' else ''Fijo en marco'')
      else if movement o' = M_TILT then ''Solo abatimiento (banderola)''
      else if movement o' = M_TOP_HUNG then ''Proyectante hacia afuera''
      else if movement o' = M_SLIDE then (if use' = U_DOOR then ''Puerta corredera'' else ''Corredera'')
      else case advancedNames (movement o') of Some n \<Rightarrow> n
      | None \<Rightarrow>
          (if use' = U_DOOR then ''Puerta simple'' else if movement o' = M_TILT_TURN then ''Oscilobatiente'' else ''Abatible'')
          @ '' hacia '' @ (if direction o' = INWARD then ''adentro'' else ''afuera'') @ '' '' @ em_dash
          @ '' bisagras a la '' @ (if hinge_side o' = H_LEFT then ''izquierda'' else ''derecha''))"

definition pair_label :: "OpeningUse \<Rightarrow> bool \<Rightarrow> Direction \<Rightarrow> string" where
  "pair_label use' left' dir =
     (if use' = U_DOOR then ''Puerta doble'' else ''Francesa 2 hojas'') @ '' '' @ em_dash @ '' activa ''
     @ (if left' then ''izquierda'' else ''derecha'') @ '' '' @ mid_dot @ '' hacia ''
     @ (if dir = INWARD then ''adentro'' else ''afuera'')"

definition physicalNodeLabel :: "IntentNode \<Rightarrow> string option" where
  "physicalNodeLabel node =
     (case node_opening (dat node) of
        Val o' \<Rightarrow>
          (case (case hinged_layout (dat node) of
                   Val l \<Rightarrow> List.find (\<lambda>leaf. leaf_role (leaf_opening leaf) = ACTIVE) (leaves l) | _ \<Rightarrow> None) of
             Some active \<Rightarrow> Some (pair_label (coalesce (opening_use (dat node)) U_WINDOW) (leaf_slot active = S_LEFT) (direction o'))
           | None \<Rightarrow> Some (physicalLabel o' (coalesce (opening_use (dat node)) U_WINDOW)))
      | _ \<Rightarrow> None)"

section \<open>Choices\<close>

fun use_str :: "OpeningUse \<Rightarrow> string" where
  "use_str U_WINDOW = ''WINDOW''"
| "use_str U_DOOR = ''DOOR''"

fun movement_str :: "Movement \<Rightarrow> string" where
  "movement_str M_FIXED = ''FIXED''"
| "movement_str M_TURN = ''TURN''"
| "movement_str M_TILT = ''TILT''"
| "movement_str M_TILT_TURN = ''TILT_TURN''"
| "movement_str M_TOP_HUNG = ''TOP_HUNG''"
| "movement_str M_BOTTOM_HUNG = ''BOTTOM_HUNG''"
| "movement_str M_SLIDE = ''SLIDE''"
| "movement_str M_LIFT_SLIDE = ''LIFT_SLIDE''"
| "movement_str M_PARALLEL_SLIDE = ''PARALLEL_SLIDE''"
| "movement_str M_FOLD = ''FOLD''"
| "movement_str M_PIVOT_V = ''PIVOT_V''"
| "movement_str M_PIVOT_H = ''PIVOT_H''"
| "movement_str M_VERTICAL_SLIDE = ''VERTICAL_SLIDE''"

fun direction_str :: "Direction \<Rightarrow> string" where
  "direction_str INWARD = ''INWARD''"
| "direction_str OUTWARD = ''OUTWARD''"

fun role_str :: "LeafRole \<Rightarrow> string" where
  "role_str SINGLE = ''SINGLE''"
| "role_str ACTIVE = ''ACTIVE''"
| "role_str PASSIVE = ''PASSIVE''"

fun hinge_str :: "HingeSide \<Rightarrow> string" where
  "hinge_str H_LEFT = ''LEFT''"
| "hinge_str H_RIGHT = ''RIGHT''"
| "hinge_str H_TOP = ''TOP''"
| "hinge_str H_BOTTOM = ''BOTTOM''"
| "hinge_str H_NONE = ''NONE''"

definition bool_str :: "bool \<Rightarrow> string" where
  "bool_str b = (if b then ''true'' else ''false'')"

definition needs_recipe :: "Capability \<Rightarrow> bool" where
  "needs_recipe cap \<longleftrightarrow>
     cap_movement cap \<in> {M_LIFT_SLIDE, M_PARALLEL_SLIDE, M_FOLD, M_PIVOT_V, M_PIVOT_H, M_VERTICAL_SLIDE} \<or>
     (cap_movement cap = M_SLIDE \<and> cap_use cap = U_DOOR)"

definition recipes_of :: "Capability \<Rightarrow> AdvancedRecipe list" where
  "recipes_of cap = (case advanced_recipes cap of None \<Rightarrow> [] | Some rs \<Rightarrow> rs)"

definition cap_opening :: "Capability \<Rightarrow> HingeSide \<Rightarrow> PhysicalOpening" where
  "cap_opening cap sd = \<lparr>movement = cap_movement cap, hinge_side = sd, direction = cap_direction cap,
     leaf_role = cap_leaf_role cap, fixed_in_sash = cap_fixed_in_sash cap\<rparr>"

definition base_choice :: "Capability \<Rightarrow> HingeSide \<Rightarrow> OpeningChoice" where
  "base_choice cap sd =
     \<lparr>ch_id = use_str (cap_use cap) @ ''-'' @ movement_str (cap_movement cap) @ ''-'' @ direction_str (cap_direction cap)
        @ ''-'' @ role_str (cap_leaf_role cap) @ ''-'' @ bool_str (cap_fixed_in_sash cap) @ ''-'' @ hinge_str sd,
      ch_label = physicalLabel (cap_opening cap sd) (cap_use cap), ch_opening = cap_opening cap sd,
      ch_use = cap_use cap, ch_layout = None, ch_source = cap_source cap, ch_recipe = None\<rparr>"

definition slot_hinge :: "side \<Rightarrow> HingeSide" where
  "slot_hinge s = (case s of S_LEFT \<Rightarrow> H_LEFT | S_RIGHT \<Rightarrow> H_RIGHT)"

definition pair_layout :: "PhysicalOpening \<Rightarrow> HingeSide \<Rightarrow> HingedLayout" where
  "pair_layout o' sd = \<lparr>leaves = map (\<lambda>s. \<lparr>leaf_slot = s,
     leaf_opening = o'\<lparr>hinge_side := slot_hinge s, leaf_role := (if slot_hinge s = sd then ACTIVE else PASSIVE)\<rparr>,
     leaf_hardware_set_sku = Undef\<rparr>) [S_LEFT, S_RIGHT]\<rparr>"

definition has_passive :: "Capability list \<Rightarrow> Capability \<Rightarrow> HingeSide \<Rightarrow> bool" where
  "has_passive caps cap sd \<longleftrightarrow> list_ex (\<lambda>other. cap_use other = cap_use cap \<and> cap_movement other = cap_movement cap \<and>
     cap_direction other = cap_direction cap \<and> cap_leaf_role other = PASSIVE \<and>
     (if sd = H_LEFT then H_RIGHT else H_LEFT) \<in> set (hinge_sides other)) caps"

text \<open>The choices of one hinge side of a capability.\<close>

definition side_choices :: "bool \<Rightarrow> Capability list \<Rightarrow> Capability \<Rightarrow> HingeSide \<Rightarrow> OpeningChoice list" where
  "side_choices paired caps cap sd =
     (let choice = base_choice cap sd
      in if recipes_of cap \<noteq> [] then
           map (\<lambda>recipe. choice\<lparr>ch_id := ch_id choice @ ''-'' @ ar_code recipe, ch_label := ar_name recipe,
             ch_source := ar_source recipe, ch_recipe := Some recipe\<rparr>) (recipes_of cap)
         else if cap_leaf_role cap = ACTIVE then
           (if \<not> has_passive caps cap sd \<or> \<not> paired then []
            else [choice\<lparr>ch_layout := Some (pair_layout (cap_opening cap sd) sd),
              ch_label := pair_label (cap_use cap) (sd = H_LEFT) (cap_direction cap)\<rparr>])
         else [choice])"

definition openingChoices :: "DesignOptions option \<Rightarrow> OpeningChoice list" where
  "openingChoices options =
     (let caps = (case options of None \<Rightarrow> [] | Some o' \<Rightarrow> (case opening_capabilities o' of None \<Rightarrow> [] | Some cs \<Rightarrow> cs));
          paired = (case options of None \<Rightarrow> False | Some o' \<Rightarrow> paired_leaf_rule o')
      in concat (map (\<lambda>cap.
           if cap_leaf_role cap = PASSIVE then []
           else if needs_recipe cap \<and> recipes_of cap = [] then []
           else concat (map (side_choices paired caps cap) (hinge_sides cap))) caps))"

definition choicePatch :: "OpeningChoice \<Rightarrow> NodeFields" where
  "choicePatch c = no_fields\<lparr>opening_type := Null, node_opening := Val (ch_opening c), opening_use := Val (ch_use c),
     opening_recipe_code := opt_null (map_option ar_code (ch_recipe c)), hinged_layout := opt_null (ch_layout c),
     hardware_set_sku := Null, hardware_selection := Null, handle_height_mm := Null, door_handedness := Null,
     panel_article_sku := Null,
     sliding_layout := (if movement (ch_opening c) = M_SLIDE \<and> ch_recipe c = None
       then Val \<lparr>tracks = 2, panels = [(moving ''S1'' 0)\<lparr>travel := Val S_RIGHT\<rparr>, (moving ''S2'' 1)\<lparr>travel := Val S_LEFT\<rparr>]\<rparr>
       else Null)\<rparr>"

definition choiceMatches :: "IntentNode \<Rightarrow> OpeningChoice \<Rightarrow> bool" where
  "choiceMatches bay c =
     (case node_opening (dat bay) of
        Val physical \<Rightarrow>
          movement physical = movement (ch_opening c) \<and> hinge_side physical = hinge_side (ch_opening c) \<and>
          direction physical = direction (ch_opening c) \<and> leaf_role physical = leaf_role (ch_opening c) \<and>
          fixed_in_sash physical = fixed_in_sash (ch_opening c) \<and>
          coalesce (opening_use (dat bay)) U_WINDOW = ch_use c \<and>
          or_null (opening_recipe_code (dat bay)) = opt_null (map_option ar_code (ch_recipe c)) \<and>
          (\<not> nullish (hinged_layout (dat bay)) \<longleftrightarrow> ch_layout c \<noteq> None)
      | _ \<Rightarrow> False)"

section \<open>Properties\<close>

text \<open>What identifies a choice in a bay.\<close>

definition choice_key :: "OpeningChoice \<Rightarrow> PhysicalOpening \<times> OpeningUse \<times> string option \<times> bool" where
  "choice_key c = (ch_opening c, ch_use c, map_option ar_code (ch_recipe c), ch_layout c \<noteq> None)"

lemma opt_null_inj [simp]: "opt_null a = opt_null b \<longleftrightarrow> a = b"
  by (cases a; cases b) simp_all

lemma or_null_opt_null [simp]: "or_null (opt_null a) = opt_null a" "or_null Null = Null"
  by (cases a) (simp_all add: or_null_def)

lemma spread_opt_null [simp]: "spread a (opt_null x) = opt_null x" "nullish (opt_null x) \<longleftrightarrow> x = None"
  by (cases x; simp)+

lemma PhysicalOpening_eq: "(o' :: PhysicalOpening) = o'' \<longleftrightarrow> movement o' = movement o'' \<and> hinge_side o' = hinge_side o'' \<and>
    direction o' = direction o'' \<and> leaf_role o' = leaf_role o'' \<and> fixed_in_sash o' = fixed_in_sash o''"
  by auto

lemma choiceMatches_patch:
  "choiceMatches (Node (patch_fields d (choicePatch c)) cs) c' \<longleftrightarrow> choice_key c' = choice_key c"
  by (simp add: choiceMatches_def choicePatch_def patch_fields_def choice_key_def PhysicalOpening_eq no_fields_def) auto

lemma choiceMatches_omit_dims [simp]: "choiceMatches (Node (omit_dims d) cs) c = choiceMatches (Node d cs) c"
  by (simp add: choiceMatches_def omit_dims_def split: field.split)

lemma choiceMatches_dat: "choiceMatches (Node (dat n) cs) c = choiceMatches n c"
  by (simp add: choiceMatches_def split: field.split)

text \<open>Recognising a patch that was written into a bay.\<close>

lemma patch_recognised:
  assumes u: "updateBay t b p = Inr t'" "n \<in> set (preorder t')" "nid n = b"
    and p: "\<And>d. choiceMatches (Node (patch_fields d p) None) c' \<longleftrightarrow> K"
  shows "choiceMatches n c' \<longleftrightarrow> K"
proof -
  have "map omit_dims (datas t') = set_data b (\<lambda>d. patch_fields d p) (datas t)"
    using updateBay_total [of t b p] update_bay.edit_Inr [of t "(b, p)"] u(1) by auto
  moreover have "omit_dims (dat n) \<in> set (map omit_dims (datas t'))" using u(2) by (auto simp: datas_def)
  ultimately have "omit_dims (dat n) \<in> set (set_data b (\<lambda>d. patch_fields d p) (datas t))" by simp
  then obtain d where d: "d \<in> set (datas t)" "omit_dims (dat n) = omit_dims (if node_id d = b then patch_fields d p else d)"
    by (auto simp: set_data_def)
  have "node_id (dat n) = node_id (if node_id d = b then patch_fields d p else d)"
    using arg_cong [OF d(2), of node_id] by (simp only: omit_dims_keeps)
  moreover have "node_id (patch_fields d p) = node_id d" by (rule patch_fields_id)
  ultimately have "node_id d = b" using u(3) by (metis (full_types))
  then have "omit_dims (dat n) = omit_dims (patch_fields d p)" using d(2) by simp
  then show ?thesis
    using choiceMatches_omit_dims [of "dat n" None c'] choiceMatches_omit_dims [of "patch_fields d p" None c']
      p [of d] choiceMatches_dat [of n None c'] by simp
qed

text \<open>
  Picking an opening and recognising it again: after a choice's patch is written into a bay, a
  choice is shown as selected on that bay exactly when it has the same physical opening, use,
  recipe and leaf pairing as the one picked.
\<close>

lemma choicePatch_recognised:
  assumes "updateBay t b (choicePatch c) = Inr t'" "n \<in> set (preorder t')" "nid n = b"
  shows "choiceMatches n c' \<longleftrightarrow> choice_key c' = choice_key c"
  by (rule patch_recognised [OF assms choiceMatches_patch])

text \<open>A turn capability in both roles, on both hinge sides, and a lift-and-slide one with a recipe.\<close>

definition sample_cap :: "Movement \<Rightarrow> LeafRole \<Rightarrow> AdvancedRecipe list option \<Rightarrow> Capability" where
  "sample_cap mv role rs = \<lparr>advanced_recipes = rs, cap_use = U_WINDOW, cap_movement = mv, cap_direction = INWARD,
     cap_leaf_role = role, cap_fixed_in_sash = False, hinge_sides = [H_LEFT, H_RIGHT], hardware_kit_skus = [],
     cap_source = ''catalog'', handle_rule = None\<rparr>"

definition sample_recipe :: AdvancedRecipe where
  "sample_recipe = \<lparr>ar_code = ''HST-A'', ar_name = ''HST A'', ar_scheme = ''A'', ar_source = ''catalog'', ar_synthetic = False,
     starter_width_mm = ''3000.00'', starter_height_mm = ''2200.00''\<rparr>"

definition sample_options :: DesignOptions where
  "sample_options = \<lparr>opening_capabilities = Some [sample_cap M_TURN ACTIVE None, sample_cap M_TURN PASSIVE None,
     sample_cap M_LIFT_SLIDE SINGLE (Some [sample_recipe])], paired_leaf_rule = True\<rparr>"

definition sample_choice :: OpeningChoice where
  "sample_choice = base_choice (sample_cap M_TURN SINGLE None) H_LEFT"

lemma sample_choice_update: "\<exists>t'. updateBay sample_tree ''b2'' (choicePatch sample_choice) = Inr t'"
proof -
  have "\<exists>n \<in> set (preorder sample_tree). nid n = ''b2'' \<and> ntype n = BAY"
    "ntype sample_tree = ROOT \<longrightarrow> map_option length (children sample_tree) = Some 1"
    by (simp_all add: sample_defs preorder_Node)
  then show ?thesis using updateBay_total [of sample_tree "''b2''" "choicePatch sample_choice"] sample_wf by blast
qed

lemma choicePatch_witness:
  "\<exists>t' n. updateBay sample_tree ''b2'' (choicePatch sample_choice) = Inr t' \<and> n \<in> set (preorder t') \<and> nid n = ''b2'' \<and>
     choiceMatches n sample_choice \<and> \<not> choiceMatches n (base_choice (sample_cap M_TURN SINGLE None) H_RIGHT)"
proof -
  obtain t' where t: "updateBay sample_tree ''b2'' (choicePatch sample_choice) = Inr t'" using sample_choice_update by blast
  have "tree_ids t' = tree_ids sample_tree" using update_bay.edit_Inr [of sample_tree "(''b2'', choicePatch sample_choice)"] t by auto
  then have "''b2'' \<in> set (tree_ids t')" by (simp add: tree_ids_preorder sample_defs preorder_Node)
  then obtain n where n: "n \<in> set (preorder t')" "nid n = ''b2''" by (auto simp: tree_ids_preorder)
  have "choice_key (base_choice (sample_cap M_TURN SINGLE None) H_RIGHT) \<noteq> choice_key sample_choice"
    by (simp add: choice_key_def sample_choice_def base_choice_def cap_opening_def)
  then show ?thesis using choicePatch_recognised [OF t n] t n by blast
qed

lemma pair_layout_roles:
  "sd = H_LEFT \<or> sd = H_RIGHT \<Longrightarrow> map (\<lambda>l. (leaf_slot l, hinge_side (leaf_opening l), leaf_role (leaf_opening l))) (leaves (pair_layout o' sd))
     = [(S_LEFT, H_LEFT, if sd = H_LEFT then ACTIVE else PASSIVE), (S_RIGHT, H_RIGHT, if sd = H_LEFT then PASSIVE else ACTIVE)]"
  by (auto simp: pair_layout_def slot_hinge_def)

lemma mem_openingChoices:
  assumes "opening_capabilities opts = Some caps"
  shows "c \<in> set (openingChoices (Some opts)) \<longleftrightarrow> (\<exists>cap \<in> set caps. \<exists>sd \<in> set (hinge_sides cap). cap_leaf_role cap \<noteq> PASSIVE \<and>
    (needs_recipe cap \<longrightarrow> recipes_of cap \<noteq> []) \<and> c \<in> set (side_choices (paired_leaf_rule opts) caps cap sd))"
  using assms by (auto simp: openingChoices_def Let_def split: if_splits)

text \<open>
  Every choice offered comes from a declared capability and one of its hinge sides, never from
  a passive leaf; an advanced movement is offered only with a recipe of the capability; a choice
  has a two-leaf layout exactly when its leaf is active and it has no recipe, and then the paired
  rule and a matching passive capability exist; on a left or right hinge that layout has each
  leaf hinged on its own slot, the active one on the chosen side and the other passive.
\<close>

lemma openingChoices_spec:
  assumes "opening_capabilities opts = Some caps" "c \<in> set (openingChoices (Some opts))"
  shows "\<exists>cap \<in> set caps. \<exists>sd \<in> set (hinge_sides cap).
    cap_leaf_role cap \<noteq> PASSIVE \<and> ch_opening c = cap_opening cap sd \<and> ch_use c = cap_use cap \<and>
    (needs_recipe cap \<longrightarrow> ch_recipe c \<noteq> None) \<and> (\<forall>r. ch_recipe c = Some r \<longrightarrow> r \<in> set (recipes_of cap)) \<and>
    (ch_layout c \<noteq> None \<longleftrightarrow> cap_leaf_role cap = ACTIVE \<and> ch_recipe c = None) \<and>
    (ch_layout c \<noteq> None \<longrightarrow> paired_leaf_rule opts \<and> has_passive caps cap sd) \<and>
    (\<forall>l. ch_layout c = Some l \<and> sd \<in> {H_LEFT, H_RIGHT} \<longrightarrow>
       map (\<lambda>f. (leaf_slot f, hinge_side (leaf_opening f), leaf_role (leaf_opening f))) (leaves l)
       = [(S_LEFT, H_LEFT, if sd = H_LEFT then ACTIVE else PASSIVE), (S_RIGHT, H_RIGHT, if sd = H_LEFT then PASSIVE else ACTIVE)])"
proof -
  obtain cap sd where cs: "cap \<in> set caps" "sd \<in> set (hinge_sides cap)" "cap_leaf_role cap \<noteq> PASSIVE"
    "needs_recipe cap \<longrightarrow> recipes_of cap \<noteq> []" "c \<in> set (side_choices (paired_leaf_rule opts) caps cap sd)"
    using assms(2) mem_openingChoices [OF assms(1)] by blast
  have "ch_opening c = cap_opening cap sd \<and> ch_use c = cap_use cap \<and>
    (needs_recipe cap \<longrightarrow> ch_recipe c \<noteq> None) \<and> (\<forall>r. ch_recipe c = Some r \<longrightarrow> r \<in> set (recipes_of cap)) \<and>
    (ch_layout c \<noteq> None \<longleftrightarrow> cap_leaf_role cap = ACTIVE \<and> ch_recipe c = None) \<and>
    (ch_layout c \<noteq> None \<longrightarrow> paired_leaf_rule opts \<and> has_passive caps cap sd) \<and>
    (\<forall>l. ch_layout c = Some l \<longrightarrow> l = pair_layout (cap_opening cap sd) sd)"
    using cs(4,5) by (auto simp: side_choices_def Let_def base_choice_def split: if_splits)
  then show ?thesis
    using cs(1-3) pair_layout_roles [of sd "cap_opening cap sd"]
    by (intro bexI [OF _ cs(1)] bexI [OF _ cs(2)]) auto
qed

lemma sample_caps: "opening_capabilities sample_options = Some (the (opening_capabilities sample_options))"
  by (simp add: sample_options_def)

lemma openingChoices_witness:
  "\<exists>c. c \<in> set (openingChoices (Some sample_options)) \<and> ch_layout c \<noteq> None \<and> paired_leaf_rule sample_options"
proof -
  have p: "has_passive (the (opening_capabilities sample_options)) (sample_cap M_TURN ACTIVE None) H_LEFT"
    by (simp add: has_passive_def sample_options_def sample_cap_def)
  let ?caps = "the (opening_capabilities sample_options)" and ?cap = "sample_cap M_TURN ACTIVE None"
  have "\<exists>c \<in> set (side_choices True ?caps ?cap H_LEFT). ch_layout c \<noteq> None"
    using p by (simp add: side_choices_def Let_def recipes_of_def) (simp add: sample_cap_def)
  moreover have "?cap \<in> set ?caps" "H_LEFT \<in> set (hinge_sides ?cap)" "cap_leaf_role ?cap \<noteq> PASSIVE" "\<not> needs_recipe ?cap"
    by (simp_all add: sample_options_def) (simp_all add: sample_cap_def needs_recipe_def)
  moreover have "paired_leaf_rule sample_options" by (simp add: sample_options_def)
  ultimately obtain c where c: "c \<in> set (openingChoices (Some sample_options))" "ch_layout c \<noteq> None"
    using mem_openingChoices [OF sample_caps] by auto
  then show ?thesis using openingChoices_spec [OF sample_caps c(1)] by blast
qed

text \<open>The module a qualified bay identity names.\<close>

lemma startsWith_qualified:
  assumes "CHR ''|'' \<notin> set i"
  shows "startsWith s (i @ ''|'') \<longleftrightarrow> takeWhile (\<lambda>c. c \<noteq> CHR ''|'') s = i \<and> CHR ''|'' \<in> set s"
proof
  assume "startsWith s (i @ ''|'')"
  then have "s = i @ CHR ''|'' # drop (length i + 1) s"
    by (metis append.assoc append_Cons append_Nil append_take_drop_id length_append_singleton startsWith_def Suc_eq_plus1)
  then obtain r where s: "s = i @ CHR ''|'' # r" by blast
  have "takeWhile (\<lambda>c. c \<noteq> CHR ''|'') (i @ CHR ''|'' # r) = i" using assms by (subst takeWhile_append2) auto
  then show "takeWhile (\<lambda>c. c \<noteq> CHR ''|'') s = i \<and> CHR ''|'' \<in> set s" using s by simp
next
  assume a: "takeWhile (\<lambda>c. c \<noteq> CHR ''|'') s = i \<and> CHR ''|'' \<in> set s"
  then have "dropWhile (\<lambda>c. c \<noteq> CHR ''|'') s \<noteq> []" "s = i @ dropWhile (\<lambda>c. c \<noteq> CHR ''|'') s"
    by (auto simp: dropWhile_eq_Nil_conv)
  moreover have "hd (dropWhile (\<lambda>c. c \<noteq> CHR ''|'') s) = CHR ''|''" using hd_dropWhile calculation(1) by blast
  ultimately obtain r where "s = i @ CHR ''|'' # r" by (metis list.collapse)
  then show "startsWith s (i @ ''|'')" by (simp add: startsWith_def)
qed

text \<open>
  Grouping the sealed leaf facts of an assembly of several modules: every module gets exactly
  the facts whose bay identity names it before the first bar, in order, each with the module's
  prefix removed and nothing else changed; no fact is given to two modules.
\<close>

lemma openingFactsByModule_spec:
  assumes "distinct (module_ids p)" "\<forall>i \<in> set (module_ids p). CHR ''|'' \<notin> set i" "length (modules p) \<noteq> 1"
  shows "map_of (openingFactsByModule p leafFacts) i =
    (if i \<in> set (module_ids p)
     then Some (map (\<lambda>l. l\<lparr>bay_id := drop (length i + 1) (bay_id l)\<rparr>)
       (filter (\<lambda>l. CHR ''|'' \<in> set (bay_id l) \<and> takeWhile (\<lambda>c. c \<noteq> CHR ''|'') (bay_id l) = i) leafFacts))
     else None)"
proof -
  let ?f = "\<lambda>m. map (local_leaf (m_id m)) (filter (leaf_of p (m_id m)) leafFacts)"
  have d: "distinct (map fst (map (\<lambda>m. (m_id m, ?f m)) (modules p)))" using assms(1) by (simp add: comp_def)
  have l: "map_of (openingFactsByModule p leafFacts) = map_of (map (\<lambda>m. (m_id m, ?f m)) (modules p))"
    by (simp add: openingFactsByModule_def map_of_map_new map_of_rev_distinct [OF d])
  show ?thesis
  proof (cases "i \<in> set (module_ids p)")
    case True
    then obtain m where m: "m \<in> set (modules p)" "m_id m = i" by auto
    then have "map_of (openingFactsByModule p leafFacts) i = Some (?f m)"
      using map_of_is_SomeI [OF d, of i "?f m"] l by auto
    moreover have q: "leaf_of p i l \<longleftrightarrow> CHR ''|'' \<in> set (bay_id l) \<and> takeWhile (\<lambda>c. c \<noteq> CHR ''|'') (bay_id l) = i" for l
      using assms(2,3) True startsWith_qualified [of i "bay_id l"] by (auto simp: leaf_of_def)
    moreover have "local_leaf i l = l\<lparr>bay_id := drop (length i + 1) (bay_id l)\<rparr>" if "leaf_of p i l" for l
      using that assms(3) by (simp add: local_leaf_def leaf_of_def)
    moreover have "filter (leaf_of p i) leafFacts =
        filter (\<lambda>l. CHR ''|'' \<in> set (bay_id l) \<and> takeWhile (\<lambda>c. c \<noteq> CHR ''|'') (bay_id l) = i) leafFacts"
      by (rule filter_cong [OF refl q])
    ultimately show ?thesis using True m(2) by (auto intro!: map_cong)
  next
    case False
    then show ?thesis unfolding l by (auto simp: map_of_eq_None_iff)
  qed
qed


definition sample_leaf :: "string \<Rightarrow> OpeningLeafFact" where
  "sample_leaf b = \<lparr>advanced = Undef, bay_id = b, leaf_id = None, lf_opening = cap_opening (sample_cap M_TURN SINGLE None) H_LEFT,
     lf_use = ''WINDOW'', lf_x_mm = ''0'', lf_y_mm = ''0'', lf_width_mm = ''600'', lf_height_mm = ''900'', lf_source = ''catalog'',
     handle = None\<rparr>"

definition two_modules :: ProductJson where
  "two_modules = \<lparr>modules = map (\<lambda>i. \<lparr>m_id = i, m_width_mm = ''600.00'', m_height_mm = ''900.00'', tree = sample_tree,
     contour = None, frameless = None\<rparr>) [''m1'', ''m2''], couplings = []\<rparr>"

lemma openingFactsByModule_witness:
  "map_of (openingFactsByModule two_modules [sample_leaf ''m1|b1'', sample_leaf ''m2|b1'', sample_leaf ''m1|b2'']) ''m1''
     = Some [sample_leaf ''b1'', sample_leaf ''b2'']"
proof -
  have "distinct (module_ids two_modules)" "\<forall>i \<in> set (module_ids two_modules). CHR ''|'' \<notin> set i" "length (modules two_modules) \<noteq> 1"
    "''m1'' \<in> set (module_ids two_modules)" by (simp_all add: two_modules_def)
  from openingFactsByModule_spec [OF this(1-3), of "[sample_leaf ''m1|b1'', sample_leaf ''m2|b1'', sample_leaf ''m1|b2'']" "''m1''"] this(4)
  show ?thesis by (simp add: sample_leaf_def)
qed

end
