(* ===== verification/ProductEdits.thy ===== *)
theory ProductEdits
  imports StructureProps Openings
begin

text \<open>
  \<open>features/canvas/productEditing.ts\<close>, third part: the edits of one module (sizes, contour, opening,
  glass, panel, divisions, bays) and of one coupling (angle, coupler, kind). None of them adds,
  removes or re-aims a joint; the interfaces \<open>module_edit\<close> and \<open>coupling_edit\<close> carry that.
\<close>

section \<open>Sizes and contours\<close>

definition with_width :: "ProductModuleJson \<Rightarrow> string \<Rightarrow> ProductModuleJson result" where
  "with_width m w = result_bind (scaled_opt (contour m) w (m_height_mm m)) (\<lambda>co. Inr (m\<lparr>m_width_mm := w, contour := co\<rparr>))"

definition setModuleWidth :: "ProductJson \<Rightarrow> string \<Rightarrow> string \<Rightarrow> ProductJson option result" where
  "setModuleWidth p moduleId w =
     (case find_module p moduleId of None \<Rightarrow> Inr None
      | Some m \<Rightarrow> result_bind (with_width m w) (\<lambda>m'. Inr (Some (replaceModule p moduleId m'))))"

definition MIN_MODULE_WIDTH_MM :: jsnum where
  "MIN_MODULE_WIDTH_MM = Fin 150"

definition elevation_columns :: "ProductJson \<Rightarrow> ProductModuleJson list" where
  "elevation_columns p = filter (\<lambda>m. map_of (stackRoot (resolveStacks p)) (m_id m) = None) (modules p)"

text \<open>The module list with the two roots of a seam at their new widths.\<close>

definition seam_modules :: "ProductModuleJson list \<Rightarrow> string \<Rightarrow> jsnum \<Rightarrow> string \<Rightarrow> jsnum \<Rightarrow> ProductModuleJson list result" where
  "seam_modules ms l leftMm r rightMm = map_result (\<lambda>m.
     if m_id m = l then with_width m (toFixed 2 leftMm)
     else if m_id m = r then with_width m (toFixed 2 rightMm) else Inr m) ms"

definition resizeModuleSeam :: "ProductJson \<Rightarrow> nat \<Rightarrow> jsnum \<Rightarrow> ProductJson option result" where
  "resizeModuleSeam p seamIndex deltaMm =
     (let cols = elevation_columns p
      in case (nth_opt cols seamIndex, nth_opt cols (seamIndex + 1)) of
        (Some l, Some r) \<Rightarrow>
          if \<not> isFinite deltaMm then Inr None
          else
            (let leftMm = js_add (str_num (m_width_mm l)) deltaMm;
                 rightMm = js_sub (str_num (m_width_mm r)) deltaMm
             in if js_lt leftMm MIN_MODULE_WIDTH_MM \<or> js_lt rightMm MIN_MODULE_WIDTH_MM then Inr None
                else result_bind (seam_modules (modules p) (m_id l) leftMm (m_id r) rightMm)
                       (\<lambda>ms. Inr (Some (p\<lparr>modules := ms\<rparr>))))
      | _ \<Rightarrow> Inr None)"

text \<open>The tree an edit works on: the single child of a root node, or the node itself.\<close>

definition inner_tree :: "IntentNode \<Rightarrow> IntentNode" where
  "inner_tree t = (if ntype t = ROOT then (case kids t of c # _ \<Rightarrow> c | [] \<Rightarrow> t) else t)"

definition moveModuleDivision :: "ProductJson \<Rightarrow> string \<Rightarrow> string \<Rightarrow> string \<Rightarrow> ProductJson option" where
  "moveModuleDivision p moduleId divisionId offset =
     (case find_module p moduleId of None \<Rightarrow> None
      | Some m \<Rightarrow>
         (case moveDivision (inner_tree (tree m)) divisionId offset of
            Inl _ \<Rightarrow> None
          | Inr t \<Rightarrow> Some (replaceModule p moduleId
              (m\<lparr>tree := (if ntype (tree m) = ROOT then Node (dat (tree m)) (Some [t]) else t)\<rparr>))))"

definition contourTopCorners :: "ContourJson \<Rightarrow> (nat \<times> nat) option" where
  "contourTopCorners c =
     (let ys = map (\<lambda>v. str_num (y_mm v)) (vertices c);
          maxY = js_Max ys;
          tp = List.map_filter (\<lambda>(i, y). if js_lt (js_abs (js_sub y maxY)) (rnd (51 / 100)) then Some i else None) (entries ys)
      in case tp of
           [first, second] \<Rightarrow>
             Some (if js_le (str_num (x_mm (vertices c ! first))) (str_num (x_mm (vertices c ! second)))
                   then (first, second) else (second, first))
         | _ \<Rightarrow> None)"

definition setContourVertex :: "ProductJson \<Rightarrow> string \<Rightarrow> nat \<Rightarrow> string \<Rightarrow> string \<Rightarrow> ProductJson option" where
  "setContourVertex p moduleId vertexIndex xMm yMm =
     (case find_module p moduleId of None \<Rightarrow> None
      | Some m \<Rightarrow> (case contour m of None \<Rightarrow> None
        | Some c \<Rightarrow> Some (replaceModule p moduleId (m\<lparr>contour := Some (c\<lparr>vertices :=
            map (\<lambda>(i, v). if i = vertexIndex then vertex xMm yMm else v) (entries (vertices c))\<rparr>)\<rparr>))))"

definition setContourBulge :: "ProductJson \<Rightarrow> string \<Rightarrow> nat \<Rightarrow> string option \<Rightarrow> ProductJson option" where
  "setContourBulge p moduleId edgeIndex sagittaMm =
     (case find_module p moduleId of None \<Rightarrow> None
      | Some m \<Rightarrow> (case contour m of None \<Rightarrow> None
        | Some c \<Rightarrow> Some (replaceModule p moduleId (m\<lparr>contour := Some (c\<lparr>bulges :=
            map (\<lambda>(i, b). if i = edgeIndex then sagittaMm else b) (entries (bulges c))\<rparr>)\<rparr>))))"

definition setAllModuleHeights :: "ProductJson \<Rightarrow> string \<Rightarrow> ProductJson result" where
  "setAllModuleHeights p h = result_bind (map_result (\<lambda>m.
      result_bind (scaled_opt (contour m) (m_width_mm m) h) (\<lambda>co. Inr (m\<lparr>m_height_mm := h, contour := co\<rparr>))) (modules p))
      (\<lambda>ms. Inr (p\<lparr>modules := ms\<rparr>))"

definition equal_width :: "jsnum \<Rightarrow> jsnum \<Rightarrow> nat \<Rightarrow> nat \<Rightarrow> string" where
  "equal_width total' share n i =
     (if int i = int n - 1 then toFixed 2 (js_sub total' (js_mul share (Fin (of_nat n - 1)))) else toFixed 2 share)"

definition equalizeModuleWidths :: "ProductJson \<Rightarrow> ProductJson result" where
  "equalizeModuleWidths p =
     (let n = length (modules p);
          total = totalModuleWidth p;
          share = js_div (js_round (js_mul (js_div total (Fin (of_nat n))) (Fin 100))) (Fin 100)
      in result_bind (map_result (\<lambda>(i, m). with_width m (equal_width total share n i)) (entries (modules p)))
           (\<lambda>ms. Inr (p\<lparr>modules := ms\<rparr>)))"

definition envelopeCents :: "ElevationLayoutMm \<Rightarrow> jsnum" where
  "envelopeCents l = js_round (js_mul (js_sub (js_Max (map (\<lambda>m. js_add (em_x m) (em_w m)) (members l)))
     (js_Min (map em_x (members l)))) (Fin 100))"

definition build_widths :: "ProductJson \<Rightarrow> (string \<times> jsnum) list \<Rightarrow> ProductJson result" where
  "build_widths p widths = result_bind (map_result (\<lambda>m. with_width m (toFixed 2
      (js_div (case map_of widths (m_id m) of None \<Rightarrow> Fin 1 | Some w \<Rightarrow> w) (Fin 100)))) (modules p))
      (\<lambda>ms. Inr (p\<lparr>modules := ms\<rparr>))"

text \<open>The correction loop; its argument counts the attempts left.\<close>

fun settle_widths :: "ProductJson \<Rightarrow> jsnum \<Rightarrow> nat \<Rightarrow> (string \<times> jsnum) list \<Rightarrow> ProductJson \<Rightarrow> ProductJson result" where
  "settle_widths p totalCents 0 widths next' = Inr next'"
| "settle_widths p totalCents (Suc left') widths next' =
     (let layout = elevationLayoutMm next';
          diff = js_sub totalCents (envelopeCents layout)
      in if js_eq diff (Fin 0) then Inr next'
         else let edge = js_Max (map (\<lambda>m. js_add (em_x m) (em_w m)) (members layout))
              in case List.find (\<lambda>m. js_eq (js_add (em_x m) (em_w m)) edge) (members layout) of
                   None \<Rightarrow> Inr next'
                 | Some edgeOwner \<Rightarrow>
                     let i = m_id (em_module edgeOwner);
                         centred = (\<not> list_ex (\<lambda>c. rootId c = i) (columns layout));
                         delta = (if centred then js_mul diff (Fin 2) else diff);
                         adjusted = js_add (case map_of widths i of None \<Rightarrow> Fin 1 | Some w \<Rightarrow> w) delta
                     in if js_lt adjusted (Fin 1) then Inr next'
                        else let widths' = AList.update i adjusted widths
                             in result_bind (build_widths p widths') (settle_widths p totalCents left' widths'))"

definition scaleModuleWidths :: "ProductJson \<Rightarrow> string \<Rightarrow> ProductJson option result" where
  "scaleModuleWidths p totalMm =
     (let totalCents = js_round (js_mul (str_num totalMm) (Fin 100));
          layout = elevationLayoutMm p
      in if members layout = [] then Inr None
         else let currentCents = envelopeCents layout
              in if \<not> isFinite totalCents \<or> js_lt totalCents (Fin (of_nat (length (modules p)))) \<or> js_le currentCents (Fin 0)
                 then Inr None
                 else let factor = js_div totalCents currentCents;
                          widths = map_new (map (\<lambda>m. (m_id m,
                            js_max (Fin 1) (js_round (js_mul (js_mul (str_num (m_width_mm m)) (Fin 100)) factor)))) (modules p))
                      in result_bind (result_bind (build_widths p widths) (settle_widths p totalCents 10 widths))
                           (\<lambda>q. Inr (Some q)))"

section \<open>Couplings\<close>

definition find_coupling :: "ProductJson \<Rightarrow> string \<Rightarrow> CouplingJson option" where
  "find_coupling p i = List.find (\<lambda>c. c_id c = i) (couplings p)"

definition setCouplingAngle :: "ProductJson \<Rightarrow> string \<Rightarrow> string \<Rightarrow> ProductJson option" where
  "setCouplingAngle p couplingId a =
     (case find_coupling p couplingId of None \<Rightarrow> None | Some c \<Rightarrow> Some (replaceCoupling p couplingId (c\<lparr>angle_deg := a\<rparr>)))"

definition equalizeCouplingAngles :: "ProductJson \<Rightarrow> ProductJson option" where
  "equalizeCouplingAngles p =
     (case couplings p of [] \<Rightarrow> None
      | c # _ \<Rightarrow> Some (p\<lparr>couplings := map (\<lambda>d. d\<lparr>angle_deg := angle_deg c\<rparr>) (couplings p)\<rparr>))"

definition setCouplerSku :: "ProductJson \<Rightarrow> string \<Rightarrow> string option \<Rightarrow> ProductJson option" where
  "setCouplerSku p couplingId sku =
     (case find_coupling p couplingId of None \<Rightarrow> None
      | Some c \<Rightarrow> Some (replaceCoupling p couplingId (c\<lparr>coupler_profile_sku := sku\<rparr>)))"

definition setCouplerSkuAll :: "ProductJson \<Rightarrow> string option \<Rightarrow> ProductJson" where
  "setCouplerSkuAll p sku = p\<lparr>couplings := map (\<lambda>c. c\<lparr>coupler_profile_sku := sku\<rparr>) (couplings p)\<rparr>"

definition allowedCouplingKinds :: "ProductJson \<Rightarrow> string \<Rightarrow> CouplingKind list" where
  "allowedCouplingKinds p couplingId =
     (case List.find (\<lambda>r. c_id (r_coupling r) = couplingId) (resolveCouplings p) of
        None \<Rightarrow> []
      | Some r \<Rightarrow>
          if (fst (r_edges r) = E_left \<or> fst (r_edges r) = E_right) \<and> (snd (r_edges r) = E_left \<or> snd (r_edges r) = E_right)
          then [INLINE] else [STACKED, TEE, CORNER])"

definition setCouplingKind :: "ProductJson \<Rightarrow> string \<Rightarrow> CouplingKind \<Rightarrow> ProductJson option" where
  "setCouplingKind p couplingId k =
     (case find_coupling p couplingId of None \<Rightarrow> None
      | Some c \<Rightarrow> if k \<notin> set (allowedCouplingKinds p couplingId) then None
          else Some (replaceCoupling p couplingId (c\<lparr>kind := Some k\<rparr>)))"

section \<open>Trees\<close>

text \<open>The recursion the bay edits share: rewrite every bay, keep every other node.\<close>

fun map_bays :: "(NodeData \<Rightarrow> NodeData) \<Rightarrow> IntentNode \<Rightarrow> IntentNode" where
  "map_bays f (Node d cs) =
     (if node_type d = BAY then Node (f d) cs else Node d (case cs of None \<Rightarrow> None | Some xs \<Rightarrow> Some (map (map_bays f) xs)))"

definition edit_tree :: "ProductJson \<Rightarrow> string \<Rightarrow> (IntentNode \<Rightarrow> IntentNode) \<Rightarrow> ProductJson option" where
  "edit_tree p moduleId f =
     (case find_module p moduleId of None \<Rightarrow> None
      | Some m \<Rightarrow> Some (replaceModule p moduleId (m\<lparr>tree := f (tree m)\<rparr>)))"

definition setModuleTree :: "ProductJson \<Rightarrow> string \<Rightarrow> IntentNode \<Rightarrow> ProductJson option" where
  "setModuleTree p moduleId t = edit_tree p moduleId (\<lambda>_. t)"

definition withOpening :: "Opening \<Rightarrow> NodeData \<Rightarrow> NodeData" where
  "withOpening o' d =
     (let cleared = (if o' = O_DOOR_ENTRY
            then d\<lparr>opening_type := Val o', door_handedness := Val (coalesce (door_handedness d) S_LEFT)\<rparr>
            else d\<lparr>opening_type := Val o', panel_article_sku := Null, door_handedness := Null\<rparr>)
      in cleared\<lparr>node_opening := Null, opening_use := Null, hinged_layout := Null,
           sliding_layout := (if o' = O_SLIDING then opt_null (map_option declareSlidingTravel (SLIDING_PRESETS O_SLIDING_2L)) else Null)\<rparr>)"

text \<open>\<open>ROOT\<close> with one child: the child is rewritten; otherwise the node itself.\<close>

definition on_single_child :: "(IntentNode \<Rightarrow> IntentNode) \<Rightarrow> IntentNode \<Rightarrow> IntentNode" where
  "on_single_child f t =
     (case children t of Some [c] \<Rightarrow> if ntype t = ROOT then Node (dat t) (Some [f c]) else f t | _ \<Rightarrow> f t)"

definition setModuleOpening :: "ProductJson \<Rightarrow> string \<Rightarrow> Opening \<Rightarrow> ProductJson option" where
  "setModuleOpening p moduleId o' = edit_tree p moduleId (on_single_child (map_bays (withOpening o')))"

definition withLayout :: "SlidingLayout \<Rightarrow> string \<Rightarrow> NodeData \<Rightarrow> NodeData" where
  "withLayout layout bayId d = (if node_id d = bayId then d\<lparr>opening_type := Val O_SLIDING, sliding_layout := Val layout\<rparr> else d)"

definition setModuleSlidingLayout :: "ProductJson \<Rightarrow> string \<Rightarrow> SlidingLayout \<Rightarrow> string \<Rightarrow> ProductJson option" where
  "setModuleSlidingLayout p moduleId layout bayId = edit_tree p moduleId (on_single_child (map_bays (withLayout layout bayId)))"

definition modulePrimaryBay :: "ProductModuleJson \<Rightarrow> IntentNode option result" where
  "modulePrimaryBay m = result_bind (intentBays (inner_tree (tree m))) (\<lambda>bays. Inr (first_opt bays))"

definition moduleOpening :: "ProductModuleJson \<Rightarrow> Opening result" where
  "moduleOpening m = result_bind (modulePrimaryBay m) (\<lambda>bay. Inr (case bay of None \<Rightarrow> O_FIXED | Some b \<Rightarrow> visualOpening b))"

definition withGlass :: "string option \<Rightarrow> string field \<Rightarrow> NodeFields \<Rightarrow> NodeData \<Rightarrow> NodeData" where
  "withGlass sku spec authority d =
     patch_fields (d\<lparr>glass_article_sku := opt_null sku,
       glass_spec := (if sku = None then glass_spec d else or_null spec),
       glass_product := (if nullish (glass_product d) then glass_product d else Null)\<rparr>) authority"

definition setModuleGlass :: "ProductJson \<Rightarrow> string \<Rightarrow> string option \<Rightarrow> string field \<Rightarrow> NodeFields \<Rightarrow> ProductJson option" where
  "setModuleGlass p moduleId sku spec authority = edit_tree p moduleId (map_bays (withGlass sku spec authority))"

definition setModuleBaySpec :: "ProductJson \<Rightarrow> string \<Rightarrow> NodeFields \<Rightarrow> ProductJson option" where
  "setModuleBaySpec p moduleId patch = edit_tree p moduleId (map_bays (\<lambda>d. patch_fields d patch))"

definition primary_field :: "(NodeData \<Rightarrow> string field) \<Rightarrow> ProductModuleJson \<Rightarrow> string option result" where
  "primary_field f m = result_bind (modulePrimaryBay m)
     (\<lambda>bay. Inr (case bay of None \<Rightarrow> None | Some b \<Rightarrow> field_opt (f (dat b))))"

definition moduleGlassSku :: "ProductModuleJson \<Rightarrow> string option result" where
  "moduleGlassSku = primary_field glass_article_sku"

definition withThickness :: "string option \<Rightarrow> NodeData \<Rightarrow> NodeData" where
  "withThickness t d = d\<lparr>glass_thickness_mm := opt_null t,
     glass_spec := (if nullish (glass_spec d) then opt_null t else glass_spec d)\<rparr>"

definition setModuleGlassThickness :: "ProductJson \<Rightarrow> string \<Rightarrow> string option \<Rightarrow> ProductJson option" where
  "setModuleGlassThickness p moduleId t = edit_tree p moduleId (map_bays (withThickness t))"

definition moduleGlassThicknessMm :: "ProductModuleJson \<Rightarrow> string option result" where
  "moduleGlassThicknessMm = primary_field glass_thickness_mm"

definition setModulePanel :: "ProductJson \<Rightarrow> string \<Rightarrow> string option \<Rightarrow> ProductJson option" where
  "setModulePanel p moduleId sku = edit_tree p moduleId (map_bays (\<lambda>d. d\<lparr>panel_article_sku := opt_null sku\<rparr>))"

definition modulePanelSku :: "ProductModuleJson \<Rightarrow> string option result" where
  "modulePanelSku = primary_field panel_article_sku"

definition setModuleFrameless :: "ProductJson \<Rightarrow> string \<Rightarrow> FramelessSpecJson option \<Rightarrow> ProductJson option" where
  "setModuleFrameless p moduleId spec =
     (case find_module p moduleId of None \<Rightarrow> None
      | Some m \<Rightarrow> Some (replaceModule p moduleId (m\<lparr>frameless := spec\<rparr>)))"

section \<open>Divisions and bays\<close>

text \<open>The face widths of the declared members that bound a bay.\<close>

record MemberGeometry =
  frame_faceWidthMm :: jsnum
  mullionV_faceWidthMm :: "jsnum option"
  mullionH_faceWidthMm :: "jsnum option"

text \<open>The ancestors of the first node of that identity, each with the child taken.\<close>

lemma size_list_entries: "size_list (\<lambda>e. size (snd e)) (entries_from k xs) = size_list size xs"
  by (induction xs arbitrary: k) simp_all

function pathTo :: "string \<Rightarrow> IntentNode \<Rightarrow> (IntentNode \<times> nat) list option"
  and pathTo_all :: "string \<Rightarrow> IntentNode \<Rightarrow> (nat \<times> IntentNode) list \<Rightarrow> (IntentNode \<times> nat) list option"
where
  "pathTo bayId node = (if nid node = bayId then Some [] else pathTo_all bayId node (entries (kids node)))"
| "pathTo_all bayId node [] = None"
| "pathTo_all bayId node ((index, child) # rest) =
     (case pathTo bayId child of Some path \<Rightarrow> Some ((node, index) # path) | None \<Rightarrow> pathTo_all bayId node rest)"
  by pat_completeness auto
termination
proof (relation "measure (\<lambda>x. case x of Inl (_, n) \<Rightarrow> 2 * size n | Inr (_, _, es) \<Rightarrow> 2 * size_list (\<lambda>e. size (snd e)) es + 1)")
  fix node :: IntentNode and b :: string
  have "2 * size_list size (kids node) + 1 < 2 * size node"
    by (cases node) (auto split: option.split)
  then show "(Inr (b, node, entries (kids node)), Inl (b, node)) \<in>
      measure (\<lambda>x. case x of Inl (_, n) \<Rightarrow> 2 * size n | Inr (_, _, es) \<Rightarrow> 2 * size_list (\<lambda>e. size (snd e)) es + 1)"
    by (simp add: size_list_entries)
qed auto

text \<open>
  The loop over the path: the first step of a path starts at the root, so its offset is measured
  from the module edge.
\<close>

fun narrow :: "bool \<Rightarrow> jsnum option \<Rightarrow> (nat \<times> IntentNode \<times> nat) list \<Rightarrow> jsnum \<times> jsnum \<Rightarrow> (jsnum \<times> jsnum) option" where
  "narrow vertical mullionHalf [] acc = Some acc"
| "narrow vertical mullionHalf ((depth, node, index) # rest) (lo, hi) =
     (if ntype node \<noteq> SPLIT_V \<and> ntype node \<noteq> SPLIT_H then narrow vertical mullionHalf rest (lo, hi)
      else if (ntype node = SPLIT_V) \<noteq> vertical then narrow vertical mullionHalf rest (lo, hi)
      else let offset = field_num (split_offset_mm (dat node))
           in if \<not> isFinite offset \<or> js_le offset (Fin 0) then narrow vertical mullionHalf rest (lo, hi)
              else case mullionHalf of None \<Rightarrow> None
                | Some half \<Rightarrow>
                    let centerline = (if depth = 0 then offset else js_add lo offset)
                    in if index = 0 then narrow vertical mullionHalf rest (lo, js_min hi (js_sub centerline half))
                       else narrow vertical mullionHalf rest (js_max lo (js_add centerline half), hi))"

definition baySpanOnAxis :: "IntentNode \<Rightarrow> string \<Rightarrow> bool \<Rightarrow> jsnum \<Rightarrow> MemberGeometry \<Rightarrow> (jsnum \<times> bool) option" where
  "baySpanOnAxis rt bayId vertical moduleSpanMm mems =
     (case pathTo bayId rt of None \<Rightarrow> None
      | Some path \<Rightarrow>
         (let frameFace = frame_faceWidthMm mems;
              mullionHalf = map_option (\<lambda>f. js_div f (Fin 2)) (if vertical then mullionV_faceWidthMm mems else mullionH_faceWidthMm mems);
              hi = js_max (js_sub moduleSpanMm frameFace) frameFace
          in case narrow vertical mullionHalf (entries path) (frameFace, hi) of
               None \<Rightarrow> None
             | Some (lo', hi') \<Rightarrow> Some (js_max (js_sub hi' lo') (Fin 0), path = [])))"

record BayDivision =
  bd_type :: NodeType
  bd_mullionSku :: string
  bd_offsetMm :: "string option"
  bd_bayId :: "string option"

definition target_bay :: "ProductModuleJson \<Rightarrow> BayDivision \<Rightarrow> IntentNode option result" where
  "target_bay m dv =
     (case bd_bayId dv of
        Some (c # cs) \<Rightarrow> result_bind (intentBays (inner_tree (tree m))) (\<lambda>bays. Inr (List.find (\<lambda>b. nid b = c # cs) bays))
      | _ \<Rightarrow> modulePrimaryBay m)"

definition freeId :: "string list \<Rightarrow> string \<Rightarrow> string" where
  "freeId used base = fresh_name base used 1"

definition apply_split :: "ProductJson \<Rightarrow> ProductModuleJson \<Rightarrow> IntentNode \<Rightarrow> BayDivision \<Rightarrow> string \<Rightarrow> ProductJson option result" where
  "apply_split p m bay dv offset = result_bind (walkIntent (tree m)) (\<lambda>ns.
     let used = map nid ns
     in case splitBay (inner_tree (tree m)) (nid bay)
            \<lparr>div_type = bd_type dv, offsetMm = offset, mullionSku = bd_mullionSku dv\<rparr>
            \<lparr>id_split = freeId used (m_id m @ ''-s'' @ (if bd_type dv = SPLIT_V then ''v'' else ''h'')),
             id_secondBay = freeId used (nid bay @ ''-b'')\<rparr> of
          Inl _ \<Rightarrow> Inr None
        | Inr t \<Rightarrow> Inr (Some (replaceModule p (m_id m) (m\<lparr>tree := t\<rparr>))))"

definition splitModuleBay :: "ProductJson \<Rightarrow> string \<Rightarrow> BayDivision \<Rightarrow> MemberGeometry \<Rightarrow> ProductJson option result" where
  "splitModuleBay p moduleId dv mems =
     (case find_module p moduleId of None \<Rightarrow> Inr None
      | Some m \<Rightarrow>
         if trim (bd_mullionSku dv) = [] then Inr None
         else result_bind (target_bay m dv) (\<lambda>tb. case tb of None \<Rightarrow> Inr None
           | Some bay \<Rightarrow>
             result_bind (if nullish (node_opening (dat bay)) then map_sum id (\<lambda>o'. o' = O_DOOR_ENTRY) (moduleOpening m) else Inr False)
               (\<lambda>door. if door then Inr None
                else let size' = (if bd_type dv = SPLIT_V then str_num (m_width_mm m) else str_num (m_height_mm m))
                     in if \<not> isFinite size' \<or> js_le size' (Fin 0) then Inr None
                        else case baySpanOnAxis (inner_tree (tree m)) (nid bay) (bd_type dv = SPLIT_V) size' mems of
                            None \<Rightarrow> Inr None
                          | Some (spanMm, isTopBay) \<Rightarrow>
                              if js_le spanMm (Fin 0) then Inr None
                              else apply_split p m bay dv (case bd_offsetMm dv of Some s \<Rightarrow> s
                                     | None \<Rightarrow> toFixed 2 (js_div (if isTopBay then size' else spanMm) (Fin 2))))))"

definition removeModuleDivision :: "ProductJson \<Rightarrow> string \<Rightarrow> string \<Rightarrow> string option \<Rightarrow> ProductJson option" where
  "removeModuleDivision p moduleId divisionId keepChildId =
     (case find_module p moduleId of None \<Rightarrow> None
      | Some m \<Rightarrow> (case removeDivision (tree m) divisionId keepChildId of
          Inl _ \<Rightarrow> None | Inr t \<Rightarrow> Some (replaceModule p moduleId (m\<lparr>tree := t\<rparr>))))"

definition removeModuleBay :: "ProductJson \<Rightarrow> string \<Rightarrow> string \<Rightarrow> ProductJson option" where
  "removeModuleBay p moduleId bayId =
     (case find_module p moduleId of None \<Rightarrow> None
      | Some m \<Rightarrow> (case parentSplitOf (tree m) bayId of None \<Rightarrow> None
        | Some parent \<Rightarrow> removeModuleDivision p moduleId (nid parent)
            (map_option nid (List.find (\<lambda>c. nid c \<noteq> bayId) (kids parent)))))"

definition canRemoveModuleDivision :: "ProductJson \<Rightarrow> string \<Rightarrow> string \<Rightarrow> bool result" where
  "canRemoveModuleDivision p moduleId divisionId =
     (case find_module p moduleId of None \<Rightarrow> Inr False
      | Some m \<Rightarrow> result_bind (findNode (tree m) divisionId) (\<lambda>node. Inr (case node of None \<Rightarrow> False
          | Some n \<Rightarrow> (ntype n = SPLIT_V \<or> ntype n = SPLIT_H) \<and> length (kids n) = 2 \<and> list_all (\<lambda>c. ntype c = BAY) (kids n))))"

definition delete_declared_opening :: "NodeFields \<Rightarrow> NodeFields" where
  "delete_declared_opening spec = spec\<lparr>opening_type := Undef, node_opening := Undef, opening_use := Undef,
     hinged_layout := Undef, door_handedness := Undef, sliding_layout := Undef\<rparr>"

definition copyBaySpec :: "ProductJson \<Rightarrow> string \<Rightarrow> string \<Rightarrow> NodeFields \<Rightarrow> ProductJson option result" where
  "copyBaySpec p targetModuleId targetBayId spec =
     (case find_module p targetModuleId of None \<Rightarrow> Inr None
      | Some target \<Rightarrow> result_bind (findNode (tree target) targetBayId) (\<lambda>targetNode.
          let declared = (case targetNode of None \<Rightarrow> False
                | Some n \<Rightarrow> \<not> nullish (opening_type (dat n)) \<or> \<not> nullish (node_opening (dat n)));
              payload = (if declared then delete_declared_opening spec else spec)
          in case updateBay (tree target) targetBayId payload of
               Inl _ \<Rightarrow> Inr None
             | Inr t \<Rightarrow> Inr (Some (replaceModule p targetModuleId (target\<lparr>tree := t\<rparr>)))))"

section \<open>Edits that touch no joint\<close>

lemma resolveCouplings_ids:
  assumes "module_ids q = module_ids p" "couplings q = couplings p"
  shows "resolveCouplings q = resolveCouplings p"
proof -
  have l: "length (modules q) = length (modules p)" using arg_cong [OF assms(1), of length] by simp
  have n: "m_id (modules q ! i) = m_id (modules p ! i)" if "i < length (modules p)" for i
    using arg_cong [OF assms(1), of "\<lambda>xs. xs ! i"] that l by simp
  have "positional_pair (modules q) i = positional_pair (modules p) i" for i
    using l n [of i] n [of "Suc i"] by (simp add: positional_pair_def nth_opt_def)
  then have "resolve_one (modules q) = resolve_one (modules p)" by (intro ext) (simp only: resolve_one_def)
  then show ?thesis by (simp add: resolveCouplings_def assms(2))
qed

text \<open>An edit of modules that keeps their identities and order, and keeps the coupling list.\<close>

locale module_edit =
  fixes run :: "'a \<Rightarrow> ProductJson \<Rightarrow> ProductJson option result"
  assumes keeps: "run a p = Inr (Some q) \<Longrightarrow> module_ids q = module_ids p \<and> couplings q = couplings p"
begin

lemma same_resolution: "run a p = Inr (Some q) \<Longrightarrow> resolveCouplings q = resolveCouplings p"
  using keeps resolveCouplings_ids by blast

lemma same_joints: "run a p = Inr (Some q) \<Longrightarrow> joints q = joints p"
  by (simp add: joints_def same_resolution)

lemma edit_wf: "run a p = Inr (Some q) \<Longrightarrow> wf_product p \<Longrightarrow> wf_product q"
  using keeps [of a p q] same_joints [of a p q] same_resolution [of a p q] by (auto simp: wf_product_def)

end

lemma ids_replaceModule: "m_id m = i \<Longrightarrow> module_ids (replaceModule p i m) = module_ids p \<and> couplings (replaceModule p i m) = couplings p"
  by (auto simp: replaceModule_def)

lemma with_width_id: "with_width m w = Inr m' \<Longrightarrow> m_id m' = m_id m"
  by (auto simp: with_width_def result_bind_Inr)

lemma ids_map_result:
  assumes "map_result f (modules p) = Inr ms" "\<And>m m'. f m = Inr m' \<Longrightarrow> m_id m' = m_id m"
  shows "map m_id ms = module_ids p"
  using map_result_map [OF assms(1), of m_id m_id] assms(2) by simp

lemma edit_tree_keeps: "edit_tree p i f = Some q \<Longrightarrow> module_ids q = module_ids p \<and> couplings q = couplings p"
  by (auto simp: edit_tree_def ids_replaceModule dest!: find_module_Some split: option.splits)

lemmas tree_edit_defs = setModuleTree_def setModuleOpening_def setModuleSlidingLayout_def setModuleGlass_def
  setModuleBaySpec_def setModuleGlassThickness_def setModulePanel_def

interpretation edit_tree: module_edit "\<lambda>(i, f) p. Inr (edit_tree p i f)"
  by unfold_locales (auto dest: edit_tree_keeps)

interpretation set_width: module_edit "\<lambda>(i, w) p. setModuleWidth p i w"
  by unfold_locales
    (auto simp: setModuleWidth_def result_bind_Inr ids_replaceModule dest!: find_module_Some with_width_id split: option.splits)

lemma seam_modules_ids: "seam_modules ms l lw r rw = Inr ms' \<Longrightarrow> map m_id ms' = map m_id ms"
  unfolding seam_modules_def by (erule map_result_map) (auto dest: with_width_id split: if_splits)

lemma resizeModuleSeam_Some:
  assumes "resizeModuleSeam p k d = Inr (Some q)"
  obtains l r ms where "nth_opt (elevation_columns p) k = Some l" "nth_opt (elevation_columns p) (k + 1) = Some r" "isFinite d"
    "\<not> js_lt (js_add (str_num (m_width_mm l)) d) MIN_MODULE_WIDTH_MM" "\<not> js_lt (js_sub (str_num (m_width_mm r)) d) MIN_MODULE_WIDTH_MM"
    "seam_modules (modules p) (m_id l) (js_add (str_num (m_width_mm l)) d) (m_id r) (js_sub (str_num (m_width_mm r)) d) = Inr ms"
    "q = p\<lparr>modules := ms\<rparr>"
  using assms unfolding resizeModuleSeam_def Let_def
  by (auto simp: result_bind_Inr split: option.splits if_splits)

lemma resizeModuleSeam_keeps: "resizeModuleSeam p k d = Inr (Some q) \<Longrightarrow> module_ids q = module_ids p \<and> couplings q = couplings p"
  by (elim resizeModuleSeam_Some) (simp add: seam_modules_ids)

interpretation resize_seam: module_edit "\<lambda>(k, d) p. resizeModuleSeam p k d"
  by unfold_locales (auto dest: resizeModuleSeam_keeps)

interpretation move_division: module_edit "\<lambda>(i, dv, off) p. Inr (moveModuleDivision p i dv off)"
  by unfold_locales
    (auto simp: moveModuleDivision_def ids_replaceModule dest!: find_module_Some split: option.splits sum.splits)

interpretation contour_vertex: module_edit "\<lambda>(i, k, x, y) p. Inr (setContourVertex p i k x y)"
  by unfold_locales (auto simp: setContourVertex_def ids_replaceModule dest!: find_module_Some split: option.splits)

interpretation contour_bulge: module_edit "\<lambda>(i, k, b) p. Inr (setContourBulge p i k b)"
  by unfold_locales (auto simp: setContourBulge_def ids_replaceModule dest!: find_module_Some split: option.splits)

interpretation frameless: module_edit "\<lambda>(i, spec) p. Inr (setModuleFrameless p i spec)"
  by unfold_locales (auto simp: setModuleFrameless_def ids_replaceModule dest!: find_module_Some split: option.splits)

interpretation all_heights: module_edit "\<lambda>h p. map_sum id Some (setAllModuleHeights p h)"
proof unfold_locales
  fix h p q assume "map_sum id Some (setAllModuleHeights p h) = Inr (Some q)"
  then have "setAllModuleHeights p h = Inr q" by (cases "setAllModuleHeights p h") auto
  then obtain ms where ms: "map_result (\<lambda>m. result_bind (scaled_opt (contour m) (m_width_mm m) h)
      (\<lambda>co. Inr (m\<lparr>m_height_mm := h, contour := co\<rparr>))) (modules p) = Inr ms" "q = p\<lparr>modules := ms\<rparr>"
    by (auto simp: setAllModuleHeights_def result_bind_Inr)
  have "map m_id ms = module_ids p" by (rule ids_map_result [OF ms(1)]) (auto simp: result_bind_Inr)
  then show "module_ids q = module_ids p \<and> couplings q = couplings p" using ms(2) by simp
qed

lemma build_widths_keeps: "build_widths p w = Inr q \<Longrightarrow> module_ids q = module_ids p \<and> couplings q = couplings p"
  by (auto simp: build_widths_def result_bind_Inr dest!: ids_map_result dest: with_width_id)

lemma equalizeModuleWidths_keeps:
  assumes "equalizeModuleWidths p = Inr q"
  shows "module_ids q = module_ids p \<and> couplings q = couplings p"
proof -
  obtain f ms where ms: "map_result (\<lambda>(i, m). with_width m (f i)) (entries (modules p)) = Inr ms" "q = p\<lparr>modules := ms\<rparr>"
    using assms unfolding equalizeModuleWidths_def Let_def result_bind_Inr by blast
  have "map m_id ms = map (\<lambda>(i, m). m_id m) (entries (modules p))"
    by (rule map_result_map [OF ms(1)]) (auto dest: with_width_id)
  also have "\<dots> = module_ids p" using map_snd_entries [of 0 "modules p"] by (metis (no_types, lifting) case_prod_beta' comp_apply map_map map_eq_conv)
  finally show ?thesis using ms(2) by simp
qed

lemma settle_widths_keeps:
  assumes "settle_widths p t k w n = Inr q" "module_ids n = module_ids p" "couplings n = couplings p"
  shows "module_ids q = module_ids p \<and> couplings q = couplings p"
  using assms
proof (induction k arbitrary: w n)
  case (Suc k)
  from Suc.prems(1) consider "q = n" | w' n' where "build_widths p w' = Inr n'" "settle_widths p t k w' n' = Inr q"
    by (auto simp: Let_def result_bind_Inr split: if_splits option.splits)
  then show ?case using Suc build_widths_keeps by cases auto
qed simp

interpretation equalize_widths: module_edit "\<lambda>(_ :: unit) p. map_sum id Some (equalizeModuleWidths p)"
proof unfold_locales
  fix a p q assume "map_sum id Some (equalizeModuleWidths p) = Inr (Some q)"
  then show "module_ids q = module_ids p \<and> couplings q = couplings p"
    using equalizeModuleWidths_keeps by (cases "equalizeModuleWidths p") auto
qed

interpretation scale_widths: module_edit "\<lambda>t p. scaleModuleWidths p t"
  by unfold_locales
    (auto simp: scaleModuleWidths_def Let_def result_bind_Inr dest!: build_widths_keeps settle_widths_keeps split: if_splits)

lemma splitModuleBay_apply:
  assumes "splitModuleBay p i dv mems = Inr (Some q)"
  obtains m bay off where "find_module p i = Some m" "target_bay m dv = Inr (Some bay)" "apply_split p m bay dv off = Inr (Some q)"
proof -
  obtain m where m: "find_module p i = Some m" using assms by (auto simp: splitModuleBay_def split: option.splits)
  obtain bay where b: "target_bay m dv = Inr (Some bay)"
    using assms unfolding splitModuleBay_def m by (auto simp: result_bind_Inr split: if_splits option.splits)
  let ?size = "if bd_type dv = SPLIT_V then str_num (m_width_mm m) else str_num (m_height_mm m)"
  have "\<exists>off. apply_split p m bay dv off = Inr (Some q)"
  proof (cases "baySpanOnAxis (inner_tree (tree m)) (nid bay) (bd_type dv = SPLIT_V) ?size mems")
    case None
    with assms show ?thesis
      by (simp only: splitModuleBay_def m b Let_def result_bind_Inr option.case result_bind_simps split: if_split_asm) auto
  next
    case (Some st)
    obtain sp top' where "st = (sp, top')" by (cases st)
    with Some assms show ?thesis
      by (simp only: splitModuleBay_def m b Let_def result_bind_Inr option.case prod.case result_bind_simps split: if_split_asm) auto
  qed
  then show thesis using that [OF m b] by blast
qed

lemma apply_split_Some:
  assumes "apply_split p m bay dv off = Inr (Some q)"
  obtains ns t where "walkIntent (tree m) = Inr ns"
    "splitBay (inner_tree (tree m)) (nid bay) \<lparr>div_type = bd_type dv, offsetMm = off, mullionSku = bd_mullionSku dv\<rparr>
       \<lparr>id_split = freeId (map nid ns) (m_id m @ ''-s'' @ (if bd_type dv = SPLIT_V then ''v'' else ''h'')),
        id_secondBay = freeId (map nid ns) (nid bay @ ''-b'')\<rparr> = Inr t"
    "q = replaceModule p (m_id m) (m\<lparr>tree := t\<rparr>)"
proof -
  obtain ns where ns: "walkIntent (tree m) = Inr ns" using assms unfolding apply_split_def by (auto simp: result_bind_Inr)
  let ?r = "splitBay (inner_tree (tree m)) (nid bay) \<lparr>div_type = bd_type dv, offsetMm = off, mullionSku = bd_mullionSku dv\<rparr>
       \<lparr>id_split = freeId (map nid ns) (m_id m @ ''-s'' @ (if bd_type dv = SPLIT_V then ''v'' else ''h'')),
        id_secondBay = freeId (map nid ns) (nid bay @ ''-b'')\<rparr>"
  have "(case ?r of Inl _ \<Rightarrow> Inr None | Inr t \<Rightarrow> Inr (Some (replaceModule p (m_id m) (m\<lparr>tree := t\<rparr>))))
      = (Inr (Some q) :: ProductJson option result)"
    using assms unfolding apply_split_def ns result_bind_simps Let_def .
  then show thesis by (cases ?r) (simp_all add: that [OF ns])
qed

interpretation split_bay: module_edit "\<lambda>(i, dv, mems) p. splitModuleBay p i dv mems"
  by unfold_locales (auto elim!: splitModuleBay_apply apply_split_Some dest!: find_module_Some simp: ids_replaceModule)

lemma removeModuleDivision_keeps:
  "removeModuleDivision p i d k = Some q \<Longrightarrow> module_ids q = module_ids p \<and> couplings q = couplings p"
  by (auto simp: removeModuleDivision_def ids_replaceModule dest!: find_module_Some split: option.splits sum.splits)

interpretation remove_division: module_edit "\<lambda>(i, d, k) p. Inr (removeModuleDivision p i d k)"
  by unfold_locales (auto dest: removeModuleDivision_keeps)

interpretation remove_bay: module_edit "\<lambda>(i, b) p. Inr (removeModuleBay p i b)"
  by unfold_locales (auto simp: removeModuleBay_def dest!: removeModuleDivision_keeps split: option.splits)

lemma copyBaySpec_tree:
  assumes "copyBaySpec p i b spec = Inr (Some q)"
  obtains m t n where "find_module p i = Some m" "findNode (tree m) b = Inr n"
    "updateBay (tree m) b (case n of None \<Rightarrow> spec | Some x \<Rightarrow>
       if nullish (opening_type (dat x)) \<and> nullish (node_opening (dat x)) then spec else delete_declared_opening spec) = Inr t"
    "q = replaceModule p i (m\<lparr>tree := t\<rparr>)"
proof -
  obtain m where m: "find_module p i = Some m" using assms by (auto simp: copyBaySpec_def split: option.splits)
  obtain n where n: "findNode (tree m) b = Inr n" using assms by (auto simp: copyBaySpec_def m result_bind_Inr)
  let ?payload = "case n of None \<Rightarrow> spec | Some x \<Rightarrow>
       if nullish (opening_type (dat x)) \<and> nullish (node_opening (dat x)) then spec else delete_declared_opening spec"
  have "(if (case n of None \<Rightarrow> False | Some x \<Rightarrow> \<not> nullish (opening_type (dat x)) \<or> \<not> nullish (node_opening (dat x)))
      then delete_declared_opening spec else spec) = ?payload" by (cases n) auto
  then have "(case updateBay (tree m) b ?payload of Inl _ \<Rightarrow> Inr None
      | Inr t \<Rightarrow> Inr (Some (replaceModule p i (m\<lparr>tree := t\<rparr>)))) = (Inr (Some q) :: ProductJson option result)"
    using assms unfolding copyBaySpec_def m n option.case result_bind_simps Let_def by simp
  then show thesis using m n that by (cases "updateBay (tree m) b ?payload") auto
qed

interpretation copy_spec: module_edit "\<lambda>(i, b, spec) p. copyBaySpec p i b spec"
  by unfold_locales (auto elim!: copyBaySpec_tree dest!: find_module_Some simp: ids_replaceModule)

end
