(* ===== verification/EditProps.thy ===== *)
theory EditProps
  imports ProductEdits
begin

text \<open>
  What the edits of one module and of one coupling guarantee: sequences of them keep the joints and
  the assembly invariant, and the effect of the opening, seam, division and paste edits.
\<close>

section \<open>Sequences of module edits\<close>

inductive module_edited :: "ProductJson \<Rightarrow> ProductJson \<Rightarrow> bool" where
  width: "setModuleWidth p i w = Inr (Some q) \<Longrightarrow> module_edited p q"
| seam: "resizeModuleSeam p k d = Inr (Some q) \<Longrightarrow> module_edited p q"
| move_division: "moveModuleDivision p i dv off = Some q \<Longrightarrow> module_edited p q"
| vertex: "setContourVertex p i k x y = Some q \<Longrightarrow> module_edited p q"
| bulge: "setContourBulge p i k b = Some q \<Longrightarrow> module_edited p q"
| heights: "setAllModuleHeights p h = Inr q \<Longrightarrow> module_edited p q"
| equalize: "equalizeModuleWidths p = Inr q \<Longrightarrow> module_edited p q"
| scale: "scaleModuleWidths p t = Inr (Some q) \<Longrightarrow> module_edited p q"
| tree: "setModuleTree p i t = Some q \<Longrightarrow> module_edited p q"
| set_opening: "setModuleOpening p i o' = Some q \<Longrightarrow> module_edited p q"
| sliding: "setModuleSlidingLayout p i l b = Some q \<Longrightarrow> module_edited p q"
| glass: "setModuleGlass p i sku spec au = Some q \<Longrightarrow> module_edited p q"
| bay_spec: "setModuleBaySpec p i patch = Some q \<Longrightarrow> module_edited p q"
| thickness: "setModuleGlassThickness p i th = Some q \<Longrightarrow> module_edited p q"
| panel: "setModulePanel p i psku = Some q \<Longrightarrow> module_edited p q"
| frameless: "setModuleFrameless p i fs = Some q \<Longrightarrow> module_edited p q"
| split: "splitModuleBay p i dv' mems = Inr (Some q) \<Longrightarrow> module_edited p q"
| remove_division: "removeModuleDivision p i dvn keep = Some q \<Longrightarrow> module_edited p q"
| remove_bay: "removeModuleBay p i b = Some q \<Longrightarrow> module_edited p q"
| paste: "copyBaySpec p i b spec = Inr (Some q) \<Longrightarrow> module_edited p q"

lemma module_edited_keeps:
  assumes "module_edited p q"
  shows "module_ids q = module_ids p \<and> couplings q = couplings p"
  using assms
proof (induction rule: module_edited.induct)
  case (width p i w q) then show ?case using set_width.keeps [of "(i, w)" p q] by simp
next
  case (seam p k d q) then show ?case by (rule resizeModuleSeam_keeps)
next
  case (move_division p i dv off q) then show ?case using move_division.keeps [of "(i, dv, off)" p q] by simp
next
  case (vertex p i k x y q) then show ?case using contour_vertex.keeps [of "(i, k, x, y)" p q] by simp
next
  case (bulge p i k b q) then show ?case using contour_bulge.keeps [of "(i, k, b)" p q] by simp
next
  case (heights p h q) then show ?case using all_heights.keeps [of p h q] by simp
next
  case equalize then show ?case by (rule equalizeModuleWidths_keeps)
next
  case (scale p t q) then show ?case by (rule scale_widths.keeps)
next
  case (frameless p i fs q) then show ?case using frameless.keeps [of "(i, fs)" p q] by simp
next
  case (split p i dv' mems q) then show ?case using split_bay.keeps [of "(i, dv', mems)" p q] by simp
next
  case remove_division then show ?case by (rule removeModuleDivision_keeps)
next
  case (remove_bay p i b q) then show ?case using remove_bay.keeps [of "(i, b)" p q] by simp
next
  case (paste p i b spec q) then show ?case using copy_spec.keeps [of "(i, b, spec)" p q] by simp
qed (auto simp: tree_edit_defs dest: edit_tree_keeps)

interpretation edited: module_edit "\<lambda>q p. Inr (if module_edited p q then Some q else None)"
  by unfold_locales (auto dest: module_edited_keeps split: if_splits)

text \<open>
  Whatever sequence of edits is made to the modules themselves (sizes, contours, openings,
  glass, panels, divisions, bays), the modules keep their identities and order, every joint of
  the assembly stays as it was, and a well-formed assembly stays well formed.
\<close>

theorem module_edits_keep_joints:
  assumes "rtranclp module_edited p q"
  shows "module_ids q = module_ids p \<and> joints q = joints p \<and> (wf_product p \<longrightarrow> wf_product q)"
  using assms
proof (induction rule: rtranclp_induct)
  case (step q r)
  then show ?case using module_edited_keeps [of q r] edited.same_joints [of q r r] edited.edit_wf [of q r r] by auto
qed simp

lemma sample_pair_find: "find_module sample_pair ''m1'' = Some (sample_module ''m1'')"
  by (simp add: find_module_def sample_pair_def sample_module_def)

theorem module_edits_witness:
  "\<exists>q r. setModuleOpening sample_pair ''m1'' O_FIXED = Some q \<and> setModulePanel q ''m2'' (Some ''P-1'') = Some r \<and>
     joints r = joints sample_pair \<and> wf_product r"
proof -
  obtain q where q: "setModuleOpening sample_pair ''m1'' O_FIXED = Some q"
    by (simp add: setModuleOpening_def edit_tree_def sample_pair_find)
  have e: "module_edited sample_pair q" using q by (rule module_edited.set_opening)
  have "module_ids q = [''m1'', ''m2'']" using module_edited_keeps [OF e] by (simp add: sample_pair_def sample_module_def)
  then have "find_module q ''m2'' \<noteq> None" by (auto simp: find_module_def find_None_iff map_eq_Cons_conv)
  then obtain r where r: "setModulePanel q ''m2'' (Some ''P-1'') = Some r" by (auto simp: setModulePanel_def edit_tree_def)
  have "rtranclp module_edited sample_pair r"
    using e module_edited.panel [OF r] by (meson rtranclp.rtrancl_into_rtrancl rtranclp.rtrancl_refl)
  from module_edits_keep_joints [OF this] sample_pair_wf q r show ?thesis by blast
qed

section \<open>Edits of couplings\<close>

text \<open>What a coupling says of a joint, apart from its angle, coupler profile and kind.\<close>

definition coupling_edges :: "CouplingJson \<Rightarrow> GraphEdge \<times> GraphEdge" where
  "coupling_edges c = (case c_edges c of Some es \<Rightarrow> es
     | None \<Rightarrow> if kind c = Some INLINE \<or> kind c = None then POSITIONAL_EDGES else (E_top, E_bottom))"

definition coupling_shape :: "CouplingJson \<Rightarrow> string \<times> (string \<times> string) option \<times> GraphEdge \<times> GraphEdge" where
  "coupling_shape c = (c_id c, c_modules c, coupling_edges c)"

definition joint_shape :: "Joint \<Rightarrow> string \<times> (string \<times> string) \<times> GraphEdge \<times> GraphEdge" where
  "joint_shape j = (j_id j, j_pair j, j_edges j)"

lemma resolve_one_shape:
  "map_option (\<lambda>r. joint_shape (joint r)) (resolve_one ms i c) =
     (case coupling_shape c of (cid, mo, es) \<Rightarrow>
        map_option (\<lambda>pr. (cid, pr, es)) (case mo of Some pr \<Rightarrow> Some pr | None \<Rightarrow> positional_pair ms i))"
  by (simp add: resolve_one_def coupling_shape_def coupling_edges_def joint_shape_def joint_def split: option.split)

lemma joints_shape:
  assumes "modules q = modules p" "map coupling_shape (couplings q) = map coupling_shape (couplings p)"
  shows "map joint_shape (joints q) = map joint_shape (joints p)"
proof -
  define G :: "nat \<times> string \<times> (string \<times> string) option \<times> GraphEdge \<times> GraphEdge \<Rightarrow> (string \<times> (string \<times> string) \<times> GraphEdge \<times> GraphEdge) option"
    where "G = (\<lambda>(i, s). case s of (cid, mo, es) \<Rightarrow>
        map_option (\<lambda>pr. (cid, pr, es)) (case mo of Some pr \<Rightarrow> Some pr | None \<Rightarrow> positional_pair (modules p) i))"
  have "map joint_shape (joints r) = List.map_filter G (entries (map coupling_shape (couplings r)))"
    if "modules r = modules p" for r
  proof -
    have e: "entries_from k (map coupling_shape cs) = map (\<lambda>(i, c). (i, coupling_shape c)) (entries_from k cs)" for k cs
      by (induction cs arbitrary: k) simp_all
    have g: "map_option (\<lambda>r. joint_shape (joint r)) ((\<lambda>(i, c). resolve_one (modules p) i c) x) = G ((\<lambda>(i, c). (i, coupling_shape c)) x)" for x
      by (cases x) (simp add: G_def resolve_one_shape)
    have "map joint_shape (joints r) = map (\<lambda>r. joint_shape (joint r)) (resolveCouplings r)" by (simp add: joints_def)
    also have "\<dots> = List.map_filter (\<lambda>x. map_option (\<lambda>r. joint_shape (joint r)) ((\<lambda>(i, c). resolve_one (modules p) i c) x)) (entries (couplings r))"
      unfolding resolveCouplings_def that by (rule map_map_filter)
    also have "\<dots> = List.map_filter (\<lambda>x. G ((\<lambda>(i, c). (i, coupling_shape c)) x)) (entries (couplings r))" unfolding g ..
    also have "\<dots> = List.map_filter G (entries (map coupling_shape (couplings r)))"
      unfolding e by (simp add: map_filter_def filter_map comp_def)
    finally show ?thesis .
  qed
  then show ?thesis using assms by metis
qed

lemma wf_graph_shape:
  assumes "map joint_shape js = map joint_shape js'"
  shows "wf_graph ids js = wf_graph ids js'"
proof -
  have f: "map (\<lambda>j. g (joint_shape j)) js = map (\<lambda>j. g (joint_shape j)) js'" for g :: "_ \<Rightarrow> 'b"
    using arg_cong [OF assms, of "map g"] by (simp add: comp_def)
  have ids: "map j_id js = map j_id js'" using f [of fst] by (simp add: joint_shape_def)
  have prs: "map j_pair js = map j_pair js'" using f [of "fst \<circ> snd"] by (simp add: joint_shape_def)
  have cl: "map claims js = map claims js'"
    using f [of "\<lambda>(_, pr, es). [(fst pr, fst es), (snd pr, snd es)]"] by (simp add: joint_shape_def claims_def [abs_def])
  have "(\<forall>j \<in> set js. fst (j_pair j) \<in> set ids \<and> snd (j_pair j) \<in> set ids) \<longleftrightarrow>
      (\<forall>pr \<in> set (map j_pair js). fst pr \<in> set ids \<and> snd pr \<in> set ids)" by simp
  also have "\<dots> \<longleftrightarrow> (\<forall>j \<in> set js'. fst (j_pair j) \<in> set ids \<and> snd (j_pair j) \<in> set ids)" unfolding prs by simp
  finally show ?thesis unfolding wf_graph_def by (simp only: ids prs cl)
qed

locale coupling_edit =
  fixes run :: "'a \<Rightarrow> ProductJson \<Rightarrow> ProductJson option"
  assumes keeps_shape: "wf_product p \<Longrightarrow> run a p = Some q \<Longrightarrow>
    modules q = modules p \<and> map coupling_shape (couplings q) = map coupling_shape (couplings p)"
begin

lemma same_shape: "wf_product p \<Longrightarrow> run a p = Some q \<Longrightarrow> map joint_shape (joints q) = map joint_shape (joints p)"
  using keeps_shape joints_shape by blast

lemma edit_wf:
  assumes "wf_product p" "run a p = Some q"
  shows "wf_product q"
proof -
  note k = keeps_shape [OF assms] and s = same_shape [OF assms]
  have "length (resolveCouplings q) = length (resolveCouplings p)" "length (couplings q) = length (couplings p)"
    using arg_cong [OF s, of length] arg_cong [OF conjunct2 [OF k], of length] by (simp_all add: joints_def)
  then show ?thesis using assms(1) k wf_graph_shape [OF s] by (simp add: wf_product_def)
qed

end

lemma find_coupling_Some: "find_coupling p i = Some c \<Longrightarrow> c \<in> set (couplings p) \<and> c_id c = i"
  unfolding find_coupling_def by (rule find_Some_mem)

lemma wf_product_coupling_ids: "wf_product p \<Longrightarrow> distinct (coupling_ids p)"
  using wf_product_joint_ids [of p] by (simp add: wf_product_def wf_graph_def)

text \<open>Replacing the coupling of an identity, when identities are distinct.\<close>

lemma replaceCoupling_map:
  assumes "distinct (coupling_ids p)" "find_coupling p i = Some c"
  shows "couplings (replaceCoupling p i (f c)) = map (\<lambda>d. if c_id d = i then f d else d) (couplings p)"
proof -
  have "d = c" if "d \<in> set (couplings p)" "c_id d = i" for d
    using that assms find_coupling_Some [OF assms(2)] by (auto simp: distinct_map inj_on_def)
  then show ?thesis by (auto simp: replaceCoupling_def)
qed

lemma replace_keeps_shape:
  assumes "wf_product p" "find_coupling p i = Some c" "coupling_shape (f c) = coupling_shape c"
  shows "modules (replaceCoupling p i (f c)) = modules p \<and>
    map coupling_shape (couplings (replaceCoupling p i (f c))) = map coupling_shape (couplings p)"
proof -
  have "d = c" if "d \<in> set (couplings p)" "c_id d = i" for d
    using that wf_product_coupling_ids [OF assms(1)] find_coupling_Some [OF assms(2)] by (auto simp: distinct_map inj_on_def)
  then have "map coupling_shape (map (\<lambda>d. if c_id d = i then f c else d) (couplings p)) = map coupling_shape (couplings p)"
    using assms(3) by auto
  then show ?thesis by (simp only: replaceCoupling_def) simp
qed

lemmas shape_defs = coupling_shape_def coupling_edges_def

lemma coupling_shape_upd [simp]:
  "coupling_shape (c\<lparr>angle_deg := a\<rparr>) = coupling_shape c" "coupling_shape (c\<lparr>coupler_profile_sku := sku\<rparr>) = coupling_shape c"
  by (auto simp: shape_defs split: option.split)

interpretation set_angle: coupling_edit "\<lambda>(i, a) p. setCouplingAngle p i a"
proof unfold_locales
  fix p q and x :: "string \<times> _"
  assume w: "wf_product p" and e: "(case x of (i, v) \<Rightarrow> \<lambda>p. setCouplingAngle p i v) p = Some q"
  obtain c where "find_coupling p (fst x) = Some c" "q = replaceCoupling p (fst x) (c\<lparr>angle_deg := snd x\<rparr>)"
    using e by (cases x) (auto simp: setCouplingAngle_def split: option.splits)
  then show "modules q = modules p \<and> map coupling_shape (couplings q) = map coupling_shape (couplings p)"
    using replace_keeps_shape [OF w, of "fst x" c "\<lambda>c. c\<lparr>angle_deg := snd x\<rparr>"] by simp
qed

interpretation set_sku: coupling_edit "\<lambda>(i, sku) p. setCouplerSku p i sku"
proof unfold_locales
  fix p q and x :: "string \<times> _"
  assume w: "wf_product p" and e: "(case x of (i, v) \<Rightarrow> \<lambda>p. setCouplerSku p i v) p = Some q"
  obtain c where "find_coupling p (fst x) = Some c" "q = replaceCoupling p (fst x) (c\<lparr>coupler_profile_sku := snd x\<rparr>)"
    using e by (cases x) (auto simp: setCouplerSku_def split: option.splits)
  then show "modules q = modules p \<and> map coupling_shape (couplings q) = map coupling_shape (couplings p)"
    using replace_keeps_shape [OF w, of "fst x" c "\<lambda>c. c\<lparr>coupler_profile_sku := snd x\<rparr>"] by simp
qed

interpretation equal_angles: coupling_edit "\<lambda>(_ :: unit) p. equalizeCouplingAngles p"
  by unfold_locales (auto simp: equalizeCouplingAngles_def split: list.splits)

interpretation all_angles: coupling_edit "\<lambda>a p. Some (setAllCouplingAngles p a)"
  by unfold_locales (auto simp: setAllCouplingAngles_def)

interpretation all_skus: coupling_edit "\<lambda>sku p. Some (setCouplerSkuAll p sku)"
  by unfold_locales (auto simp: setCouplerSkuAll_def)

text \<open>The resolved coupling of an identity, when identities are distinct and everything resolves.\<close>

lemma find_resolved:
  assumes "wf_product p" "find_coupling p i = Some c"
  obtains r where "List.find (\<lambda>r. c_id (r_coupling r) = i) (resolveCouplings p) = Some r" "r_coupling r = c" "r_edges r = coupling_edges c"
proof -
  have c: "c \<in> set (couplings p)" "c_id c = i" using find_coupling_Some [OF assms(2)] by auto
  have "i \<in> set (map j_id (joints p))" using wf_product_joint_ids [of p] assms(1) c by (auto simp: wf_product_def)
  then obtain r0 where "r0 \<in> set (resolveCouplings p)" "c_id (r_coupling r0) = i" by (auto simp: joints_def joint_def)
  then obtain r where r: "List.find (\<lambda>r. c_id (r_coupling r) = i) (resolveCouplings p) = Some r"
    by (cases "List.find (\<lambda>r. c_id (r_coupling r) = i) (resolveCouplings p)") (auto simp: find_None_iff)
  then have m: "r \<in> set (resolveCouplings p)" "c_id (r_coupling r) = i" using find_Some_mem by force+
  then obtain k c' where c': "resolve_one (modules p) k c' = Some r" "c' \<in> set (couplings p)"
    by (auto simp: resolveCouplings_def mem_map_filter mem_entries)
  then have k: "r_coupling r = c'" "r_edges r = coupling_edges c'" by (auto simp: resolve_one_def coupling_edges_def split: option.splits)
  have "c' = c" using k(1) c'(2) m(2) c wf_product_coupling_ids [OF assms(1)] by (auto simp: distinct_map inj_on_def)
  with k show thesis using r that by simp
qed

definition horizontal :: "GraphEdge \<times> GraphEdge \<Rightarrow> bool" where
  "horizontal es \<longleftrightarrow> fst es \<in> {E_left, E_right} \<and> snd es \<in> {E_left, E_right}"

lemma allowedCouplingKinds_eq:
  assumes "wf_product p" "find_coupling p i = Some c"
  shows "allowedCouplingKinds p i = (if horizontal (coupling_edges c) then [INLINE] else [STACKED, TEE, CORNER])"
  using assms by (elim find_resolved) (auto simp: allowedCouplingKinds_def horizontal_def)

lemma setCouplingKind_Some:
  assumes "wf_product p" "setCouplingKind p i k = Some q"
  obtains c where "find_coupling p i = Some c" "k = INLINE \<longleftrightarrow> horizontal (coupling_edges c)" "q = replaceCoupling p i (c\<lparr>kind := Some k\<rparr>)"
    "coupling_shape (c\<lparr>kind := Some k\<rparr>) = coupling_shape c"
proof -
  obtain c where c: "find_coupling p i = Some c" "k \<in> set (allowedCouplingKinds p i)" "q = replaceCoupling p i (c\<lparr>kind := Some k\<rparr>)"
    using assms(2) by (auto simp: setCouplingKind_def split: option.splits if_splits)
  have k: "k = INLINE \<longleftrightarrow> horizontal (coupling_edges c)"
    using c(2) by (auto simp: allowedCouplingKinds_eq [OF assms(1) c(1)] split: if_splits)
  moreover have "coupling_shape (c\<lparr>kind := Some k\<rparr>) = coupling_shape c"
    using k by (auto simp: shape_defs horizontal_def POSITIONAL_EDGES_def split: option.splits if_splits)
  ultimately show thesis using c that by blast
qed

interpretation set_kind: coupling_edit "\<lambda>(i, k) p. setCouplingKind p i k"
proof unfold_locales
  fix p q :: ProductJson and x :: "string \<times> CouplingKind"
  assume w: "wf_product p" and s: "(case x of (i, k) \<Rightarrow> \<lambda>p. setCouplingKind p i k) p = Some q"
  obtain i k where x: "x = (i, k)" by (cases x)
  from s have "setCouplingKind p i k = Some q" by (simp add: x)
  from setCouplingKind_Some [OF w this] obtain c where c: "find_coupling p i = Some c"
    "q = replaceCoupling p i (c\<lparr>kind := Some k\<rparr>)" "coupling_shape (c\<lparr>kind := Some k\<rparr>) = coupling_shape c" by blast
  show "modules q = modules p \<and> map coupling_shape (couplings q) = map coupling_shape (couplings p)"
    using replace_keeps_shape [OF w c(1), of "\<lambda>c. c\<lparr>kind := Some k\<rparr>"] c(2,3) by simp
qed

inductive coupling_edited :: "ProductJson \<Rightarrow> ProductJson \<Rightarrow> bool" where
  angle: "setCouplingAngle p i a = Some q \<Longrightarrow> coupling_edited p q"
| equal: "equalizeCouplingAngles p = Some q \<Longrightarrow> coupling_edited p q"
| angles: "coupling_edited p (setAllCouplingAngles p a)"
| sku: "setCouplerSku p i s = Some q \<Longrightarrow> coupling_edited p q"
| skus: "coupling_edited p (setCouplerSkuAll p s)"
| kind: "setCouplingKind p i k = Some q \<Longrightarrow> coupling_edited p q"

lemma coupling_edited_step:
  assumes "coupling_edited p q" "wf_product p"
  shows "wf_product q \<and> modules q = modules p \<and> map joint_shape (joints q) = map joint_shape (joints p)"
  using assms
proof (induction rule: coupling_edited.induct)
  case (angle p i a q)
  then show ?case using set_angle.keeps_shape [of p "(i, a)" q] set_angle.same_shape [of p "(i, a)" q] set_angle.edit_wf [of p "(i, a)" q] by simp
next
  case (equal p q)
  then show ?case using equal_angles.keeps_shape [of p q] equal_angles.same_shape [of p q] equal_angles.edit_wf [of p q] by simp
next
  case (angles p a)
  then show ?case using all_angles.keeps_shape [of p a] all_angles.same_shape [of p a] all_angles.edit_wf [of p a] by simp
next
  case (sku p i s q)
  then show ?case using set_sku.keeps_shape [of p "(i, s)" q] set_sku.same_shape [of p "(i, s)" q] set_sku.edit_wf [of p "(i, s)" q] by simp
next
  case (skus p s)
  then show ?case using all_skus.keeps_shape [of p s] all_skus.same_shape [of p s] all_skus.edit_wf [of p s] by simp
next
  case (kind p i k q)
  then show ?case using set_kind.keeps_shape [of p "(i, k)" q] set_kind.same_shape [of p "(i, k)" q] set_kind.edit_wf [of p "(i, k)" q] by simp
qed

text \<open>
  Editing couplings (angles, coupler profiles, kinds), in any order and number, never moves a
  joint: on a well-formed assembly the modules are untouched, every joint keeps its identity, the
  modules and the sides it joins, and the assembly stays well formed.
\<close>

lemma coupling_edits_keep_joints:
  assumes "rtranclp coupling_edited p q" "wf_product p"
  shows "wf_product q \<and> modules q = modules p \<and>
    map (\<lambda>j. (j_id j, j_pair j, j_edges j)) (joints q) = map (\<lambda>j. (j_id j, j_pair j, j_edges j)) (joints p)"
proof -
  have "wf_product q \<and> modules q = modules p \<and> map joint_shape (joints q) = map joint_shape (joints p)"
    using assms(1)
  proof (induction rule: rtranclp_induct)
    case (step q r)
    then show ?case using coupling_edited_step [of q r] by simp
  qed (simp add: assms(2))
  then show ?thesis by (simp add: joint_shape_def [abs_def])
qed

lemma coupling_edits_witness:
  "\<exists>q. setCouplingAngle sample_pair ''c1'' ''15.0'' = Some q \<and> wf_product q \<and> map j_pair (joints q) = [(''m1'', ''m2'')]"
proof -
  obtain q where q: "setCouplingAngle sample_pair ''c1'' ''15.0'' = Some q"
    by (simp add: setCouplingAngle_def find_coupling_def sample_pair_def positional_def)
  have "rtranclp coupling_edited sample_pair q" using coupling_edited.angle [OF q] by blast
  from coupling_edits_keep_joints [OF this sample_pair_wf]
  have w: "wf_product q" and j: "map (\<lambda>j. (j_id j, j_pair j, j_edges j)) (joints q) = map (\<lambda>j. (j_id j, j_pair j, j_edges j)) (joints sample_pair)"
    by auto
  show ?thesis using q w arg_cong [OF j, of "map (fst \<circ> snd)"] by (simp add: comp_def sample_pair_joints)
qed

text \<open>
  The kind of a coupling can be changed exactly to the kinds that suit the sides it joins: a
  seam between left and right sides stays inline, every other joint takes one of the stacking
  kinds, so the edit never turns a seam into a stack. When it succeeds only that joint changes,
  and only in its kind.
\<close>

lemma setCouplingKind_spec:
  assumes "wf_product p" "find_coupling p i = Some c"
  shows "case setCouplingKind p i k of
      None \<Rightarrow> (k = INLINE) \<noteq> horizontal (coupling_edges c)
    | Some q \<Rightarrow> (k = INLINE) = horizontal (coupling_edges c) \<and> wf_product q \<and> modules q = modules p \<and>
        couplings q = map (\<lambda>d. if c_id d = i then d\<lparr>kind := Some k\<rparr> else d) (couplings p)"
proof (cases "setCouplingKind p i k")
  case None
  then have "k \<notin> set (allowedCouplingKinds p i)" using assms(2) by (auto simp: setCouplingKind_def split: if_splits)
  then show ?thesis using None by (cases k) (auto simp: allowedCouplingKinds_eq [OF assms] split: if_splits)
next
  case (Some q)
  obtain c' where c': "find_coupling p i = Some c'" "k = INLINE \<longleftrightarrow> horizontal (coupling_edges c')" "q = replaceCoupling p i (c'\<lparr>kind := Some k\<rparr>)"
    by (rule setCouplingKind_Some [OF assms(1) Some])
  have "couplings q = map (\<lambda>d. if c_id d = i then d\<lparr>kind := Some k\<rparr> else d) (couplings p)"
    using replaceCoupling_map [OF wf_product_coupling_ids [OF assms(1)] assms(2), of "\<lambda>c. c\<lparr>kind := Some k\<rparr>"] c' assms(2) by simp
  moreover have "wf_product q" using set_kind.edit_wf [of p "(i, k)" q] assms(1) Some by simp
  moreover have "modules q = modules p" using c'(3) by (simp add: replaceCoupling_def)
  ultimately show ?thesis using Some c' assms(2) by simp
qed

lemma setCouplingKind_witness:
  "setCouplingKind sample_pair ''c1'' STACKED = None \<and> (\<exists>q. setCouplingKind sample_pair ''c1'' INLINE = Some q \<and> wf_product q)"
proof -
  have f: "find_coupling sample_pair ''c1'' = Some (positional ''c1'')"
    by (simp add: find_coupling_def sample_pair_def positional_def)
  have h: "horizontal (coupling_edges (positional ''c1''))"
    by (simp add: horizontal_def coupling_edges_def positional_def POSITIONAL_EDGES_def)
  show ?thesis
    using setCouplingKind_spec [OF sample_pair_wf f, of STACKED] setCouplingKind_spec [OF sample_pair_wf f, of INLINE] h
    by (auto split: option.splits)
qed

section \<open>Openings\<close>

lemma map_bays_ids:
  assumes "\<And>d. node_id (f d) = node_id d"
  shows "tree_ids (map_bays f t) = tree_ids t"
proof (induction t)
  case (Node d cs)
  then show ?case
    by (cases cs) (auto simp: tree_ids_unfold [of "Node _ _"] assms comp_def intro!: arg_cong [where f = concat])
qed

lemma find_append_Some: "List.find P (xs @ ys) = (case List.find P xs of None \<Rightarrow> List.find P ys | Some x \<Rightarrow> Some x)"
  by (induction xs) simp_all

abbreviation is_bay :: "IntentNode \<Rightarrow> bool" where
  "is_bay n \<equiv> ntype n = BAY"

lemma map_bays_first:
  assumes "\<And>d. node_type (f d) = node_type d"
  shows "map_option dat (List.find is_bay (preorder (map_bays f t))) = map_option (\<lambda>n. f (dat n)) (List.find is_bay (preorder t))"
proof (induction t)
  case (Node d cs)
  show ?case
  proof (cases "node_type d = BAY")
    case True
    then show ?thesis by (simp add: preorder.simps [of "Node _ _"] assms)
  next
    case False
    have "map_option dat (List.find is_bay (concat (map (\<lambda>c. preorder (map_bays f c)) xs))) =
        map_option (\<lambda>n. f (dat n)) (List.find is_bay (concat (map preorder xs)))"
      if "\<And>x. x \<in> set xs \<Longrightarrow> map_option dat (List.find is_bay (preorder (map_bays f x))) =
        map_option (\<lambda>n. f (dat n)) (List.find is_bay (preorder x))" for xs
      using that
    proof (induction xs)
      case (Cons x xs)
      from Cons.prems [of x] Cons show ?case
        by (cases "List.find is_bay (preorder x)"; cases "List.find is_bay (preorder (map_bays f x))")
          (auto simp: find_append_Some)
    qed simp
    then show ?thesis using False Node by (cases cs) (simp_all add: preorder.simps [of "Node _ _"] comp_def)
  qed
qed

lemma inner_on_single_child:
  assumes "\<And>d. node_type (f d) = node_type d"
  shows "inner_tree (on_single_child (map_bays f) t) = map_bays f (inner_tree t)"
proof (cases t)
  case (Node d cs)
  have ty: "ntype (map_bays f x) = ntype x" for x by (cases x) (simp add: assms)
  show ?thesis
  proof (cases "node_type d = ROOT")
    case True
    then show ?thesis using Node by (cases cs) (auto simp: inner_tree_def on_single_child_def split: list.splits)
  next
    case False
    then show ?thesis using Node ty [of t] by (auto simp: inner_tree_def on_single_child_def split: option.splits list.splits)
  qed
qed

lemma first_filter: "first_opt (filter P xs) = List.find P xs"
  by (induction xs) (simp_all add: first_opt_def)

lemma modulePrimaryBay_eq: "wf_ids (inner_tree (tree m)) \<Longrightarrow> modulePrimaryBay m = Inr (List.find is_bay (preorder (inner_tree (tree m))))"
  by (simp add: modulePrimaryBay_def intentBays_def walkIntent_eq first_filter)

lemma withOpening_keeps [simp]:
  "node_type (withOpening o' d) = node_type d" "node_id (withOpening o' d) = node_id d"
  "node_opening (withOpening o' d) = Null" "opening_type (withOpening o' d) = Val o'"
  by (simp_all add: withOpening_def Let_def)

lemma find_replaceModule:
  assumes "find_module p i = Some m" "m_id m' = i"
  shows "find_module (replaceModule p i m') i = Some m'"
proof -
  have "List.find (\<lambda>e. m_id e = i) (map (\<lambda>e. if m_id e = i then m' else e) xs) = Some m'"
    if "List.find (\<lambda>e. m_id e = i) xs = Some m" for xs
    using that assms(2) by (induction xs) (auto split: if_splits)
  then show ?thesis using assms(1) by (simp add: find_module_def replaceModule_def)
qed

text \<open>
  Setting a module's opening and reading it back: on a module whose tree is well identified and
  has a bay, the edit succeeds, reading the module's opening afterwards gives exactly the one set,
  whatever the bay declared before (a physical opening, a paired layout, a sliding layout), and
  the nodes keep their identities.
\<close>

theorem setModuleOpening_read:
  assumes "find_module p i = Some m" "wf_ids (inner_tree (tree m))" "\<exists>n \<in> set (preorder (inner_tree (tree m))). ntype n = BAY"
  shows "\<exists>q m'. setModuleOpening p i o' = Some q \<and> find_module q i = Some m' \<and> moduleOpening m' = Inr o' \<and>
    tree_ids (inner_tree (tree m')) = tree_ids (inner_tree (tree m))"
proof -
  let ?f = "map_bays (withOpening o')"
  define m' where "m' = m\<lparr>tree := on_single_child ?f (tree m)\<rparr>"
  have q: "setModuleOpening p i o' = Some (replaceModule p i m')" using assms(1) by (simp add: setModuleOpening_def edit_tree_def m'_def)
  have f: "find_module (replaceModule p i m') i = Some m'"
    by (rule find_replaceModule [OF assms(1)]) (use find_module_Some [OF assms(1)] in \<open>simp add: m'_def\<close>)
  have it: "inner_tree (tree m') = ?f (inner_tree (tree m))" by (simp add: m'_def inner_on_single_child)
  have ids: "tree_ids (inner_tree (tree m')) = tree_ids (inner_tree (tree m))" unfolding it by (rule map_bays_ids) simp
  then have w: "wf_ids (inner_tree (tree m'))" using assms(2) by (simp add: wf_ids_def)
  obtain n where n: "List.find is_bay (preorder (inner_tree (tree m))) = Some n"
    using assms(3) by (cases "List.find is_bay (preorder (inner_tree (tree m)))") (auto simp: find_None_iff)
  from map_bays_first [of "withOpening o'" "inner_tree (tree m)"] n
  obtain n' where n': "List.find is_bay (preorder (inner_tree (tree m'))) = Some n'" "dat n' = withOpening o' (dat n)"
    by (auto simp: it)
  have "moduleOpening m' = Inr o'"
    using modulePrimaryBay_eq [OF w] n' by (simp add: moduleOpening_def visualOpening_def)
  then show ?thesis using q f ids by blast
qed

lemma sample_inner: "wf_ids (inner_tree sample_tree)" "\<exists>n \<in> set (preorder (inner_tree sample_tree)). ntype n = BAY"
  by (simp_all add: wf_ids_def inner_tree_def tree_ids_preorder sample_defs preorder_Node)

theorem setModuleOpening_witness:
  "\<exists>q m'. setModuleOpening sample_pair ''m1'' O_AWNING = Some q \<and> find_module q ''m1'' = Some m' \<and> moduleOpening m' = Inr O_AWNING"
proof -
  have "tree (sample_module ''m1'') = sample_tree" by (simp add: sample_module_def)
  then show ?thesis using setModuleOpening_read [OF sample_pair_find, of O_AWNING] sample_inner by auto
qed

section \<open>Dragging a seam\<close>

lemma cents_near:
  fixes a c :: int and x :: rat
  assumes "\<bar>a\<bar> \<le> 10 ^ 12" "\<bar>c\<bar> \<le> 10 ^ 12" "\<bar>x - of_int c / 100\<bar> \<le> 1 / 4000"
  shows "\<exists>y. js_add (rnd (of_int a / 100)) (Fin x) = Fin y \<and> \<bar>y - of_int (a + c) / 100\<bar> < 1 / 1000"
proof -
  have bd: "rnd y = Fin (fl y) \<and> \<bar>fl y - y\<bar> \<le> 1 / 4000" if "\<bar>y\<bar> \<le> 4 * 10 ^ 10" for y :: rat
    using that rnd_finite [of y] fl_err [of y] tiny_bounds(2) by (auto simp: field_simps)
  have i: "\<bar>of_int k :: rat\<bar> \<le> 10 ^ 12" if "\<bar>k\<bar> \<le> 10 ^ 12" for k
    using of_int_le_iff [of "\<bar>k\<bar>" "10 ^ 12", where ?'a = rat] that by simp
  let ?a = "of_int a / 100 :: rat"
  note ia = i [OF assms(1)] and ic = i [OF assms(2)]
  have a: "\<bar>?a\<bar> \<le> 4 * 10 ^ 10" using ia by (simp add: field_simps)
  note ra = bd [OF a]
  have "\<bar>fl ?a + x\<bar> \<le> 4 * 10 ^ 10"
    using ra assms(3) ia ic unfolding abs_le_iff by (simp add: field_simps)
  note rs = bd [OF this]
  have "\<bar>fl (fl ?a + x) - of_int (a + c) / 100\<bar> < 1 / 1000"
    using rs ra assms(3) unfolding abs_le_iff abs_less_iff by (simp add: field_simps)
  then show ?thesis using ra rs by simp
qed

lemma near_to_fixed:
  assumes "\<bar>y - of_int n / 100\<bar> < 1 / 1000" "15000 < n" "n \<le> 10 ^ 13"
  shows "toFixed 2 (Fin y) = fixed_str 2 n" "\<not> js_lt (Fin y) MIN_MODULE_WIDTH_MM"
proof -
  have n: "(15001 :: rat) \<le> of_int n" "(of_int n :: rat) \<le> 10 ^ 13"
    using assms(2,3) of_int_le_iff [of 15001 n, where ?'a = rat] of_int_le_iff [of n "10 ^ 13", where ?'a = rat] by simp_all
  then have y: "150 \<le> y" "y < 10 ^ 21" using assms(1) unfolding abs_less_iff by (simp_all add: field_simps)
  show "\<not> js_lt (Fin y) MIN_MODULE_WIDTH_MM" using y by (simp add: MIN_MODULE_WIDTH_MM_def)
  show "toFixed 2 (Fin y) = fixed_str 2 n" by (rule toFixed_near) (use assms(1) y in auto)
qed

lemma with_width_total:
  assumes "contour_ok m"
  shows "\<exists>m'. with_width m w = Inr m' \<and> m_id m' = m_id m \<and> m_width_mm m' = w \<and> m_height_mm m' = m_height_mm m \<and> tree m' = tree m"
proof -
  obtain co where "scaled_opt (contour m) w (m_height_mm m) = Inr co" using scaled_opt_total [OF assms] by blast
  then show ?thesis by (simp add: with_width_def)
qed

lemma with_width_fields: "with_width m w = Inr m' \<Longrightarrow> m_id m' = m_id m \<and> m_width_mm m' = w"
  by (auto simp: with_width_def result_bind_Inr)

lemma elevation_columns_distinct:
  assumes "distinct (module_ids p)" "nth_opt (elevation_columns p) k = Some l" "nth_opt (elevation_columns p) (k + 1) = Some r"
  shows "l \<in> set (modules p)" "r \<in> set (modules p)" "m_id l \<noteq> m_id r"
proof -
  have "distinct (map m_id (elevation_columns p))" using assms(1) by (simp add: elevation_columns_def distinct_map_filter)
  moreover have "k < length (elevation_columns p)" "k + 1 < length (elevation_columns p)" "elevation_columns p ! k = l" "elevation_columns p ! (k + 1) = r"
    using assms(2,3) by (simp_all add: nth_opt_Some)
  ultimately show "m_id l \<noteq> m_id r" by (auto simp: distinct_conv_nth)
  show "l \<in> set (modules p)" "r \<in> set (modules p)"
    using assms(2,3) nth_mem [of k "elevation_columns p"] nth_mem [of "k + 1" "elevation_columns p"]
    by (auto simp: nth_opt_Some elevation_columns_def)
qed

lemma seam_modules_total:
  assumes "\<forall>m \<in> set ms. contour_ok m"
  obtains ms' where "seam_modules ms l lw r rw = Inr ms'" "length ms' = length ms"
    "\<forall>i < length ms. m_id (ms' ! i) = m_id (ms ! i) \<and>
       (if m_id (ms ! i) = l then m_width_mm (ms' ! i) = toFixed 2 lw
        else if m_id (ms ! i) = r then m_width_mm (ms' ! i) = toFixed 2 rw else ms' ! i = ms ! i)"
proof -
  let ?f = "\<lambda>m. if m_id m = l then with_width m (toFixed 2 lw) else if m_id m = r then with_width m (toFixed 2 rw) else Inr m"
  have "\<exists>m'. ?f m = Inr m'" if "m \<in> set ms" for m using with_width_total [of m] assms that by auto
  then obtain ms' where ms': "map_result ?f ms = Inr ms'" "length ms' = length ms" using map_result_total [of ms ?f] by blast
  have "m_id (ms' ! i) = m_id (ms ! i) \<and> (if m_id (ms ! i) = l then m_width_mm (ms' ! i) = toFixed 2 lw
        else if m_id (ms ! i) = r then m_width_mm (ms' ! i) = toFixed 2 rw else ms' ! i = ms ! i)" if i: "i < length ms" for i
  proof -
    have "?f (ms ! i) = Inr (ms' ! i)" using ms'(1) i by (auto simp: map_result_Inr)
    then show ?thesis by (auto dest!: with_width_fields split: if_splits)
  qed
  then show thesis using that [of ms'] ms' by (simp add: seam_modules_def)
qed

text \<open>
  C21. Dragging a seam by a whole number of cents: as long as both columns stay above the minimum
  width, the left root becomes exactly that much wider and the right root exactly that much
  narrower, to the cent, whatever rounding the number type adds; the overall width is preserved
  and every other module is left as it was.
\<close>

theorem resizeModuleSeam_cents:
  assumes "distinct (module_ids p)" "\<forall>m \<in> set (modules p). contour_ok m"
    "nth_opt (elevation_columns p) k = Some l" "nth_opt (elevation_columns p) (k + 1) = Some r"
    "m_width_mm l = fixed_str 2 a" "m_width_mm r = fixed_str 2 b" "0 \<le> a" "a \<le> 10 ^ 12" "0 \<le> b" "b \<le> 10 ^ 12"
    "\<bar>x - of_int c / 100\<bar> \<le> 1 / 4000" "15000 < a + c" "15000 < b - c"
  shows "\<exists>q ml mr. resizeModuleSeam p k (Fin x) = Inr (Some q) \<and> module_ids q = module_ids p \<and>
    find_module q (m_id l) = Some ml \<and> m_width_mm ml = fixed_str 2 (a + c) \<and>
    find_module q (m_id r) = Some mr \<and> m_width_mm mr = fixed_str 2 (b - c) \<and>
    (\<forall>m \<in> set (modules p). m_id m \<noteq> m_id l \<and> m_id m \<noteq> m_id r \<longrightarrow> m \<in> set (modules q))"
proof -
  note e = elevation_columns_distinct [OF assms(1,3,4)]
  have c: "\<bar>c\<bar> \<le> 10 ^ 12" using assms(7-10,12,13) by linarith
  obtain y where y: "js_add (str_num (m_width_mm l)) (Fin x) = Fin y" "\<bar>y - of_int (a + c) / 100\<bar> < 1 / 1000"
    using cents_near [of a c x] assms(5,7,8,11) c by (auto simp: str_num_fixed_str)
  have "\<bar>- x - of_int (- c) / 100\<bar> \<le> 1 / 4000" using assms(11) abs_minus_commute [of x "of_int c / 100"] by simp
  then obtain z where z: "js_sub (str_num (m_width_mm r)) (Fin x) = Fin z" "\<bar>z - of_int (b - c) / 100\<bar> < 1 / 1000"
    using cents_near [of b "- c" "- x"] assms(6,9,10) c by (auto simp: str_num_fixed_str js_sub_def)
  note ny = near_to_fixed [OF y(2) assms(12)] and nz = near_to_fixed [OF z(2) assms(13)]
  have bnd: "a + c \<le> 10 ^ 13" "b - c \<le> 10 ^ 13" using c assms(8,10) by (simp_all add: abs_le_iff)
  obtain ms where ms: "seam_modules (modules p) (m_id l) (Fin y) (m_id r) (Fin z) = Inr ms" "length ms = length (modules p)"
    "\<forall>i < length (modules p). m_id (ms ! i) = m_id (modules p ! i) \<and>
       (if m_id (modules p ! i) = m_id l then m_width_mm (ms ! i) = toFixed 2 (Fin y)
        else if m_id (modules p ! i) = m_id r then m_width_mm (ms ! i) = toFixed 2 (Fin z) else ms ! i = modules p ! i)"
    by (rule seam_modules_total [OF assms(2)])
  define q where "q = p\<lparr>modules := ms\<rparr>"
  have q: "resizeModuleSeam p k (Fin x) = Inr (Some q)"
    using assms(3,4) ny(2) nz(2) bnd ms(1) by (simp add: resizeModuleSeam_def Let_def y z q_def)
  have ids: "module_ids q = module_ids p" using resizeModuleSeam_keeps [OF q] by simp
  have dq: "distinct (map m_id ms)" using assms(1) ids by (simp add: q_def)
  have at: "find_module q (m_id (ms ! i)) = Some (ms ! i)" if "i < length ms" for i
    using find_distinct_key [OF dq, of "ms ! i"] that by (simp add: find_module_def q_def)
  obtain i where i: "i < length ms" "modules p ! i = l" using e(1) ms(2) by (metis in_set_conv_nth)
  obtain j where j: "j < length ms" "modules p ! j = r" using e(2) ms(2) by (metis in_set_conv_nth)
  have li: "m_id (ms ! i) = m_id l" "m_width_mm (ms ! i) = fixed_str 2 (a + c)"
    using ms(2,3) i ny(1) bnd by force+
  have rj: "m_id (ms ! j) = m_id r" "m_width_mm (ms ! j) = fixed_str 2 (b - c)"
    using ms(2,3) j nz(1) bnd e(3) by force+
  have "m \<in> set ms" if "m \<in> set (modules p)" "m_id m \<noteq> m_id l" "m_id m \<noteq> m_id r" for m
    using that ms(2,3) by (metis in_set_conv_nth)
  then show ?thesis using q ids at [OF i(1)] at [OF j(1)] li rj by (auto simp: q_def)
qed

lemma sample_row_seam:
  "nth_opt (elevation_columns sample_pair) 0 = Some (sample_module ''m1'')" "nth_opt (elevation_columns sample_pair) 1 = Some (sample_module ''m2'')"
  by (simp_all add: elevation_columns_def resolveStacks_def stack_pairs_def sample_pair_def positional_def map_filter_simps
      stack_parent_step_def map_keys_def nth_opt_def Let_def positional_pair_def)

lemma sample_width: "m_width_mm (sample_module i) = fixed_str 2 60000"
proof -
  have "fixed_str 2 60000 = ''600.00''" by (simp add: fixed_str_def dec_str.simps digit_char_def digit_chars_def padStart_def)
  then show ?thesis by (simp add: sample_module_def)
qed

theorem resizeModuleSeam_witness:
  "\<exists>q ml mr. resizeModuleSeam sample_pair 0 (Fin (1 / 10)) = Inr (Some q) \<and>
     find_module q ''m1'' = Some ml \<and> m_width_mm ml = fixed_str 2 60010 \<and> find_module q ''m2'' = Some mr \<and> m_width_mm mr = fixed_str 2 59990"
proof -
  have "\<forall>m \<in> set (modules sample_pair). contour_ok m" by (simp add: sample_pair_def sample_module_def contour_ok_def)
  from resizeModuleSeam_cents [OF wf_product_parts(3) [OF sample_pair_wf] this sample_row_seam(1), where r = "sample_module ''m2''"
      and a = 60000 and b = 60000 and c = 10 and x = "1 / 10"] sample_row_seam(2)
  show ?thesis by (auto simp: sample_width) (auto simp: sample_module_def)
qed

text \<open>
  A drag of an eighth of a millimetre is a tie for both columns, and both ties round up: the two
  columns together grow by a cent.
\<close>

lemma resize_tie:
  "toFixed 2 (js_add (Fin 600) (Fin (1 / 8))) = fixed_str 2 60013 \<and> toFixed 2 (js_sub (Fin 600) (Fin (1 / 8))) = fixed_str 2 59988 \<and>
   (60013 + 59988 :: int) = 60000 + 60000 + 1"
proof -
  have "rnd (4801 / 8) = Fin (4801 / 8)" "rnd (4799 / 8) = Fin (4799 / 8)"
    using rnd_dyadic [of 4801 3] rnd_dyadic [of 4799 3] by simp_all
  then show ?thesis by (simp add: js_sub_def)
qed

text \<open>
  The same tie when a seam of 15.5 degrees is opened for a new module: each half is printed as
  7.8, and the two halves together turn by 15.6.
\<close>

lemma insert_angle_tie:
  "toFixed 1 (js_div (Fin (31 / 2)) (Fin 2)) = fixed_str 1 78 \<and>
   toFixed 1 (js_sub (Fin (31 / 2)) (js_div (Fin (31 / 2)) (Fin 2))) = fixed_str 1 78 \<and> (78 + 78 :: int) = 155 + 1"
proof -
  have "rnd (31 / 4) = Fin (31 / 4)" using rnd_dyadic [of 31 2] by simp
  then show ?thesis by (simp add: js_sub_def)
qed

section \<open>Dividing a bay\<close>

lemma target_bay_mem:
  assumes "target_bay m dv = Inr (Some bay)"
  shows "wf_ids (inner_tree (tree m))" "bay \<in> set (preorder (inner_tree (tree m)))" "ntype bay = BAY"
proof -
  have "wf_ids (inner_tree (tree m)) \<and> bay \<in> set (preorder (inner_tree (tree m))) \<and> ntype bay = BAY"
    using assms
    by (auto simp: target_bay_def modulePrimaryBay_def intentBays_def walkIntent_eq result_bind_Inr
        dest!: find_Some_mem first_opt_Some split: option.splits list.splits if_splits sum.splits)
  then show "wf_ids (inner_tree (tree m))" "bay \<in> set (preorder (inner_tree (tree m)))" "ntype bay = BAY" by auto
qed

text \<open>
  Dividing a bay of a module: when the edit succeeds, the joints are untouched, the module's
  tree is well identified and has exactly the nodes it had with the chosen bay replaced by the new
  division, the bay and a second bay; both new identities are new to the whole module tree; and
  removing the new division gives back the tree, when the bay declared no dimensions or layout
  of its own.
\<close>

theorem splitModuleBay_spec:
  assumes "splitModuleBay p i dv mems = Inr (Some q)"
  shows "\<exists>m m' bay s b2. find_module p i = Some m \<and> find_module q i = Some m' \<and> target_bay m dv = Inr (Some bay) \<and>
    joints q = joints p \<and> wf_ids (tree m') \<and> s \<notin> set (tree_ids (tree m)) \<and> b2 \<notin> set (tree_ids (tree m)) \<and> s \<noteq> b2 \<and>
    tree_ids (tree m') = concat (map (\<lambda>j. if j = nid bay then [s, nid bay, b2] else [j]) (tree_ids (inner_tree (tree m)))) \<and>
    (split_first (dat bay) = dat bay \<longrightarrow> removeDivision (tree m') s None = requestTree (inner_tree (tree m)))"
proof -
  obtain m bay off where m: "find_module p i = Some m" "target_bay m dv = Inr (Some bay)" "apply_split p m bay dv off = Inr (Some q)"
    by (rule splitModuleBay_apply [OF assms])
  obtain ns t where ns: "walkIntent (tree m) = Inr ns" and sb: "splitBay (inner_tree (tree m)) (nid bay)
      \<lparr>div_type = bd_type dv, offsetMm = off, mullionSku = bd_mullionSku dv\<rparr>
       \<lparr>id_split = freeId (map nid ns) (m_id m @ ''-s'' @ (if bd_type dv = SPLIT_V then ''v'' else ''h'')),
        id_secondBay = freeId (map nid ns) (nid bay @ ''-b'')\<rparr> = Inr t" and q: "q = replaceModule p (m_id m) (m\<lparr>tree := t\<rparr>)"
    by (rule apply_split_Some [OF m(3)])
  define s where "s = freeId (map nid ns) (m_id m @ ''-s'' @ (if bd_type dv = SPLIT_V then ''v'' else ''h''))"
  define b2 where "b2 = freeId (map nid ns) (nid bay @ ''-b'')"
  define dvn where "dvn = \<lparr>div_type = bd_type dv, offsetMm = off, mullionSku = bd_mullionSku dv\<rparr>"
  have sb': "splitBay (inner_tree (tree m)) (nid bay) dvn \<lparr>id_split = s, id_secondBay = b2\<rparr> = Inr t"
    using sb by (simp only: s_def b2_def dvn_def)
  have ids: "map nid ns = tree_ids (tree m)" using ns by (auto simp: walkIntent_eq tree_ids_preorder split: if_splits)
  have fresh: "s \<notin> set (tree_ids (tree m))" "b2 \<notin> set (tree_ids (tree m))"
    unfolding s_def b2_def freeId_def ids by (simp_all add: fresh_name_fresh)
  have mi: "m_id m = i" using find_module_Some [OF m(1)] by simp
  have f: "find_module q i = Some (m\<lparr>tree := t\<rparr>)" unfolding q mi by (rule find_replaceModule [OF m(1)]) (simp add: mi)
  note tb = target_bay_mem [OF m(2)]
  have sel: "selectedBay (inner_tree (tree m)) (nid bay) = Inr bay" using tb by (auto simp: selectedBay_Inr)
  obtain bay' off' where "id_split \<lparr>id_split = s, id_secondBay = b2\<rparr> \<noteq> id_secondBay \<lparr>id_split = s, id_secondBay = b2\<rparr>"
    by (rule splitBay_Inr [OF sb']) blast
  then have ne: "s \<noteq> b2" by simp
  have nodes: "wf_ids t \<and> tree_ids t = concat (map (\<lambda>j. if j = nid bay then [s, nid bay, b2] else [j]) (tree_ids (inner_tree (tree m))))"
    using splitBay_nodes [OF sb', unfolded SplitIds.select_convs] by blast
  have rm: "split_first (dat bay) = dat bay \<longrightarrow> removeDivision t s None = requestTree (inner_tree (tree m))"
    using conjunct2 [OF split_then_remove [OF sb' sel, unfolded SplitIds.select_convs]] .
  have "joints q = joints p" using split_bay.same_joints [of "(i, dv, mems)" p q] assms by simp
  then show ?thesis using m(1,2) f fresh ne nodes rm
    by (intro exI [of _ m] exI [of _ "m\<lparr>tree := t\<rparr>"] exI [of _ bay] exI [of _ s] exI [of _ b2]) simp
qed

definition sample_members :: MemberGeometry where
  "sample_members = \<lparr>frame_faceWidthMm = Fin 60, mullionV_faceWidthMm = None, mullionH_faceWidthMm = None\<rparr>"

definition sample_division :: BayDivision where
  "sample_division = \<lparr>bd_type = SPLIT_H, bd_mullionSku = ''T-82'', bd_offsetMm = Some ''300,5'', bd_bayId = Some ''b1''\<rparr>"

definition sample_inner_tree :: IntentNode where
  "sample_inner_tree = inner_tree sample_tree"

lemma sample_height: "str_num (m_height_mm (sample_module i)) = Fin 1400"
proof -
  have "fixed_str 2 140000 = ''1400.00''" by (simp add: fixed_str_def dec_str.simps digit_char_def digit_chars_def padStart_def)
  then show ?thesis using str_num_fixed_str [of 140000 2] rnd_int [of 1400] by (simp add: sample_module_def)
qed

lemma sample_span: "baySpanOnAxis (inner_tree sample_tree) ''b1'' False (Fin 1400) sample_members = Some (Fin 1280, False)"
proof -
  have "pathTo ''b1'' (inner_tree sample_tree) = Some [(inner_tree sample_tree, 0)]"
    by (simp add: inner_tree_def sample_defs)
  moreover have "ntype (inner_tree sample_tree) = SPLIT_V" by (simp add: inner_tree_def sample_defs)
  ultimately show ?thesis
    using rnd_int [of 1340] rnd_int [of 1280]
    by (simp add: baySpanOnAxis_def sample_members_def Let_def js_sub_def js_max_def)
qed

lemma sample_target: "target_bay (sample_module ''m1'') sample_division = Inr (Some (sample_bay ''b1'' O_TURN_LEFT))"
proof -
  have t: "tree (sample_module ''m1'') = sample_tree" by (simp add: sample_module_def)
  have "preorder (inner_tree sample_tree) = [inner_tree sample_tree, sample_bay ''b1'' O_TURN_LEFT, sample_bay ''b2'' O_FIXED]"
    by (simp add: inner_tree_def sample_defs preorder_Node)
  then show ?thesis using sample_inner(1)
    by (simp add: target_bay_def sample_division_def t intentBays_def walkIntent_eq) (simp add: inner_tree_def sample_defs)
qed

lemma sample_open: "moduleOpening (sample_module ''m1'') = Inr O_TURN_LEFT"
proof -
  have t: "tree (sample_module ''m1'') = sample_tree" by (simp add: sample_module_def)
  have "List.find is_bay (preorder (inner_tree sample_tree)) = Some (sample_bay ''b1'' O_TURN_LEFT)"
    by (simp add: inner_tree_def sample_defs preorder_Node)
  then show ?thesis using modulePrimaryBay_eq [of "sample_module ''m1''"] sample_inner(1)
    by (simp add: moduleOpening_def t) (simp add: visualOpening_def sample_defs)
qed

lemma sample_inner_split:
  assumes "s \<notin> {[], ''s1'', ''b1'', ''b2''}" "b2 \<notin> {[], ''s1'', ''b1'', ''b2''}" "s \<noteq> b2"
  shows "\<exists>t. splitBay (inner_tree sample_tree) ''b1'' \<lparr>div_type = SPLIT_H, offsetMm = ''300,5'', mullionSku = ''T-82''\<rparr>
     \<lparr>id_split = s, id_secondBay = b2\<rparr> = Inr t"
proof -
  have "exactMm ''300,5'' = Inr ''300.50''" by code_simp
  moreover have "trim ''T-82'' \<noteq> []" by code_simp
  moreover have "selectedBay (inner_tree sample_tree) ''b1'' = Inr (sample_bay ''b1'' O_TURN_LEFT)"
    using sample_inner(1) by (simp add: selectedBay_Inr) (simp add: inner_tree_def sample_defs preorder_Node)
  ultimately show ?thesis
    using sample_inner(1) assms
    by (simp add: splitBay_def walkIntent_eq requestTree_eq Let_def)
      (auto simp: wf_ids_def root_ok_def tree_ids_preorder inner_tree_def sample_defs preorder_Node replaceNode_map split_first_def
        split_second_def omit_dims_def)
qed

lemma sample_split_ok: "\<exists>q. splitModuleBay sample_pair ''m1'' sample_division sample_members = Inr (Some q)"
proof -
  have t: "tree (sample_module ''m1'') = sample_tree" "m_id (sample_module ''m1'') = ''m1''" by (simp_all add: sample_module_def)
  let ?ids = "tree_ids sample_tree"
  have ids: "set ?ids = {''root'', ''s1'', ''b1'', ''b2''}" by (simp add: tree_ids_preorder sample_defs preorder_Node)
  define s where "s = freeId ?ids (''m1'' @ ''-sh'')"
  define b2 where "b2 = freeId ?ids (''b1'' @ ''-b'')"
  have ne: "s \<noteq> []" "b2 \<noteq> []" "s \<noteq> b2" by (simp_all add: s_def b2_def freeId_def fresh_name_def)
  have "s \<notin> set ?ids" "b2 \<notin> set ?ids" unfolding s_def b2_def freeId_def by (rule fresh_name_fresh)+
  then obtain tr where tr: "splitBay (inner_tree sample_tree) ''b1'' \<lparr>div_type = SPLIT_H, offsetMm = ''300,5'', mullionSku = ''T-82''\<rparr>
     \<lparr>id_split = s, id_secondBay = b2\<rparr> = Inr tr" using sample_inner_split [of s b2] ne ids by auto
  have "\<exists>q. apply_split sample_pair (sample_module ''m1'') (sample_bay ''b1'' O_TURN_LEFT) sample_division ''300,5'' = Inr (Some q)"
    using tr sample_wf by (simp add: apply_split_def t walkIntent_eq Let_def sample_division_def s_def b2_def tree_ids_preorder)
      (simp add: sample_defs)
  moreover have "trim ''T-82'' \<noteq> []" by code_simp
  moreover have "nid (sample_bay ''b1'' O_TURN_LEFT) = ''b1''" by (simp add: sample_defs)
  moreover have "js_le (Fin 1400) (Fin 0) = False" "js_le (Fin 1280) (Fin 0) = False" by (simp_all add: js_le_def js_eq_def)
  moreover have "bd_type sample_division = SPLIT_H" "bd_mullionSku sample_division = ''T-82''" "bd_offsetMm sample_division = Some ''300,5''"
    by (simp_all add: sample_division_def)
  ultimately show ?thesis
    using sample_span by (simp add: splitModuleBay_def sample_pair_find sample_target sample_open sample_height t)
qed

theorem splitModuleBay_witness:
  "\<exists>q m'. splitModuleBay sample_pair ''m1'' sample_division sample_members = Inr (Some q) \<and> find_module q ''m1'' = Some m' \<and>
     wf_ids (tree m') \<and> length (tree_ids (tree m')) = 5"
proof -
  obtain q where q: "splitModuleBay sample_pair ''m1'' sample_division sample_members = Inr (Some q)" using sample_split_ok by blast
  have t: "tree (sample_module ''m1'') = sample_tree" by (simp add: sample_module_def)
  have "tree_ids (inner_tree sample_tree) = [''s1'', ''b1'', ''b2'']" by (simp add: inner_tree_def tree_ids_preorder sample_defs preorder_Node)
  moreover have "nid (sample_bay ''b1'' O_TURN_LEFT) = ''b1''" by (simp add: sample_defs)
  ultimately show ?thesis
    using splitModuleBay_spec [OF q] q by (auto simp: sample_pair_find sample_target t)
qed

section \<open>Pasting a bay specification\<close>

lemma set_data_hit:
  assumes "map omit_dims (datas t') = set_data b f (datas t)" "n \<in> set (preorder t)" "nid n = b"
  shows "\<exists>d \<in> set (datas t'). omit_dims d = omit_dims (f (dat n))"
proof -
  have "omit_dims (f (dat n)) \<in> set (set_data b f (datas t))"
    using assms(2,3) unfolding set_data_def by (auto simp: datas_def intro!: image_eqI [of _ _ "dat n"])
  then have "omit_dims (f (dat n)) \<in> set (map omit_dims (datas t'))" by (simp only: assms(1))
  then show ?thesis by auto
qed

text \<open>
  Pasting a copied specification onto a bay: only that bay changes, the joints are untouched,
  glass members follow the specification, and a bay that already declares an opening keeps its
  opening, use, leaf layout, handedness and sliding layout. The recipe code alone among the opening
  members follows the pasted specification even then.
\<close>

lemma copyBaySpec_spec:
  assumes "copyBaySpec p i b spec = Inr (Some q)"
  shows "\<exists>m m' n d. find_module p i = Some m \<and> find_module q i = Some m' \<and> joints q = joints p \<and>
    n \<in> set (preorder (tree m)) \<and> nid n = b \<and> ntype n = BAY \<and> wf_ids (tree m') \<and> tree_ids (tree m') = tree_ids (tree m) \<and>
    d \<in> set (datas (tree m')) \<and> node_id d = b \<and> glass_spec d = spread (glass_spec (dat n)) (glass_spec spec) \<and>
    opening_recipe_code d = spread (opening_recipe_code (dat n)) (opening_recipe_code spec) \<and>
    (\<not> (nullish (opening_type (dat n)) \<and> nullish (node_opening (dat n))) \<longrightarrow>
       opening_type d = opening_type (dat n) \<and> node_opening d = node_opening (dat n) \<and> opening_use d = opening_use (dat n) \<and>
       hinged_layout d = hinged_layout (dat n) \<and> door_handedness d = door_handedness (dat n) \<and> sliding_layout d = sliding_layout (dat n))"
proof -
  obtain m t no where m: "find_module p i = Some m" "findNode (tree m) b = Inr no" "q = replaceModule p i (m\<lparr>tree := t\<rparr>)"
    and u: "updateBay (tree m) b (case no of None \<Rightarrow> spec | Some x \<Rightarrow>
       if nullish (opening_type (dat x)) \<and> nullish (node_opening (dat x)) then spec else delete_declared_opening spec) = Inr t"
    by (rule copyBaySpec_tree [OF assms])
  obtain n where n: "selectedBay (tree m) b = Inr n" using u by (auto simp: updateBay_def split: sum.splits)
  then have nn: "wf_ids (tree m)" "n \<in> set (preorder (tree m))" "nid n = b" "ntype n = BAY" by (auto simp: selectedBay_Inr)
  then have "no = Some n" using m(2) find_preorder [of "tree m" n] by (simp add: findNode_eq)
  define pl where "pl = (if nullish (opening_type (dat n)) \<and> nullish (node_opening (dat n)) then spec else delete_declared_opening spec)"
  have u': "updateBay (tree m) b pl = Inr t" using u by (simp add: \<open>no = Some n\<close> pl_def)
  have e: "wf_ids t \<and> tree_ids t = tree_ids (tree m) \<and> map omit_dims (datas t) = set_data b (\<lambda>d. patch_fields d pl) (datas (tree m))"
    using update_bay.edit_Inr [of "tree m" "(b, pl)" t] u' by simp
  obtain d where d: "d \<in> set (datas t)" "omit_dims d = omit_dims (patch_fields (dat n) pl)"
    using set_data_hit [of t b "\<lambda>d. patch_fields d pl" "tree m" n] e nn by blast
  have g: "g d = g (patch_fields (dat n) pl)" if "\<And>x. g (omit_dims x) = g x" for g :: "NodeData \<Rightarrow> 'b"
    using that [of d] that [of "patch_fields (dat n) pl"] d(2) by simp
  have nd: "node_id d = b" using nn(3) g [of node_id] by simp
  have fl: "glass_spec d = glass_spec (patch_fields (dat n) pl)" "opening_recipe_code d = opening_recipe_code (patch_fields (dat n) pl)"
    "opening_type d = opening_type (patch_fields (dat n) pl)" "node_opening d = node_opening (patch_fields (dat n) pl)"
    "opening_use d = opening_use (patch_fields (dat n) pl)" "hinged_layout d = hinged_layout (patch_fields (dat n) pl)"
    "door_handedness d = door_handedness (patch_fields (dat n) pl)" "sliding_layout d = sliding_layout (patch_fields (dat n) pl)"
    by (rule g, simp add: omit_dims_def)+
  have f: "find_module q i = Some (m\<lparr>tree := t\<rparr>)"
    unfolding m(3) by (rule find_replaceModule [OF m(1)]) (use find_module_Some [OF m(1)] in simp)
  have "joints q = joints p" using copy_spec.same_joints [of "(i, b, spec)" p q] assms by simp
  moreover have "glass_spec d = spread (glass_spec (dat n)) (glass_spec spec)"
    "opening_recipe_code d = spread (opening_recipe_code (dat n)) (opening_recipe_code spec)"
    by (simp_all add: fl patch_fields_def pl_def delete_declared_opening_def)
  moreover have "opening_type d = opening_type (dat n) \<and> node_opening d = node_opening (dat n) \<and> opening_use d = opening_use (dat n) \<and>
       hinged_layout d = hinged_layout (dat n) \<and> door_handedness d = door_handedness (dat n) \<and> sliding_layout d = sliding_layout (dat n)"
    if "\<not> (nullish (opening_type (dat n)) \<and> nullish (node_opening (dat n)))"
    using that by (auto simp: fl patch_fields_def pl_def delete_declared_opening_def)
  ultimately show ?thesis using m(1) f nn(2-4) e d(1) nd
    by (intro exI [of _ m] exI [of _ "m\<lparr>tree := t\<rparr>"] exI [of _ n] exI [of _ d]) simp
qed

lemma copyBaySpec_witness:
  "\<exists>q m'. copyBaySpec sample_pair ''m1'' ''b2'' (no_fields\<lparr>glass_spec := Val ''6-12-6'', opening_type := Val O_AWNING\<rparr>) = Inr (Some q) \<and>
     find_module q ''m1'' = Some m' \<and> (\<exists>d \<in> set (datas (tree m')). node_id d = ''b2'' \<and> glass_spec d = Val ''6-12-6'' \<and> opening_type d = Val O_FIXED)"
proof -
  let ?spec = "no_fields\<lparr>glass_spec := Val ''6-12-6'', opening_type := Val O_AWNING\<rparr>"
  have t: "tree (sample_module ''m1'') = sample_tree" by (simp add: sample_module_def)
  have b: "sample_bay ''b2'' O_FIXED \<in> set (preorder sample_tree)" "nid (sample_bay ''b2'' O_FIXED) = ''b2''" "ntype (sample_bay ''b2'' O_FIXED) = BAY"
    "opening_type (dat (sample_bay ''b2'' O_FIXED)) = Val O_FIXED"
    by (simp_all add: sample_defs preorder_Node)
  have f: "findNode sample_tree ''b2'' = Inr (Some (sample_bay ''b2'' O_FIXED))"
    using find_preorder [of sample_tree "sample_bay ''b2'' O_FIXED"] sample_wf b by (simp add: findNode_eq)
  have "root_ok sample_tree" by (simp add: root_ok_def sample_defs)
  then have "\<exists>t'. updateBay sample_tree ''b2'' pl = Inr t'" for pl
    using updateBay_total [of sample_tree "''b2''" pl] sample_wf b by (auto simp: root_ok_def)
  then obtain t' where "updateBay sample_tree ''b2'' (delete_declared_opening ?spec) = Inr t'" by blast
  then obtain q where q: "copyBaySpec sample_pair ''m1'' ''b2'' ?spec = Inr (Some q)"
    by (simp add: copyBaySpec_def sample_pair_find t f Let_def b(4))
  have un: "n = sample_bay ''b2'' O_FIXED" if "n \<in> set (preorder sample_tree)" "nid n = ''b2''" for n
    using preorder_inj [of sample_tree n "sample_bay ''b2'' O_FIXED"] that b sample_wf by (simp add: wf_ids_def)
  obtain m' n d where d: "find_module q ''m1'' = Some m'" "n \<in> set (preorder sample_tree)" "nid n = ''b2''"
    "d \<in> set (datas (tree m'))" "node_id d = ''b2''" "glass_spec d = spread (glass_spec (dat n)) (glass_spec ?spec)"
    "\<not> (nullish (opening_type (dat n)) \<and> nullish (node_opening (dat n))) \<longrightarrow> opening_type d = opening_type (dat n)"
    using copyBaySpec_spec [OF q] by (auto simp: sample_pair_find t)
  have "opening_type d = Val O_FIXED" using d(7) un [OF d(2,3)] b(4) by simp
  then show ?thesis using q d by auto
qed

end
