(* ===== verification/Decimals.thy ===== *)
theory Decimals
  imports Intent
begin

text \<open>
  Exact decimals: \<open>features/projects/decimal.ts\<close> (arithmetic on fractions of big integers, half-up
  rounding, printing by long division) and \<open>decimal.ts\<close> with the number part of \<open>format.ts\<close>
  (comparison, quantisation and display of the decimals the engine sends, parsing of what the
  user types, the national identity number check). A \<open>string\<close> holds code units below 256; the texts
  that carry typographic characters (the thin space, the minus sign) are lists of UTF-16 code units.
\<close>

section \<open>Fractions\<close>

type_synonym DecimalValue = Rational

definition parseDecimalP :: "string \<Rightarrow> DecimalValue option" where
  "parseDecimalP value =
     (case re_decimal (trim value) of
        None \<Rightarrow> None
      | Some (sg, whole, fr) \<Rightarrow>
          (let fraction = (case fr of None \<Rightarrow> [] | Some f \<Rightarrow> f);
               sign = (if sg = Some CHR ''-'' then - 1 else 1);
               den = 10 ^ length fraction
           in Some \<lparr>numerator = sign * (digits_val whole * den + digits_val fraction), denominator = den\<rparr>))"

definition addDecimal :: "DecimalValue \<Rightarrow> DecimalValue \<Rightarrow> DecimalValue" where
  "addDecimal a b = \<lparr>numerator = numerator a * denominator b + numerator b * denominator a,
     denominator = denominator a * denominator b\<rparr>"

definition subtractDecimal :: "DecimalValue \<Rightarrow> DecimalValue \<Rightarrow> DecimalValue" where
  "subtractDecimal a b = \<lparr>numerator = numerator a * denominator b - numerator b * denominator a,
     denominator = denominator a * denominator b\<rparr>"

definition multiplyDecimal :: "DecimalValue \<Rightarrow> DecimalValue \<Rightarrow> DecimalValue" where
  "multiplyDecimal a b = \<lparr>numerator = numerator a * numerator b, denominator = denominator a * denominator b\<rparr>"

definition divideDecimal :: "DecimalValue \<Rightarrow> DecimalValue \<Rightarrow> DecimalValue" where
  "divideDecimal a b = \<lparr>numerator = numerator a * denominator b, denominator = denominator a * numerator b\<rparr>"

definition divideByInt :: "DecimalValue \<Rightarrow> int \<Rightarrow> DecimalValue" where
  "divideByInt a n = \<lparr>numerator = numerator a, denominator = denominator a * n\<rparr>"

text \<open>The big-integer operators \<open>/\<close> and \<open>%\<close> truncate and throw on a zero divisor.\<close>

definition big_div :: "int \<Rightarrow> int \<Rightarrow> int" where
  "big_div a b = sgn a * sgn b * (\<bar>a\<bar> div \<bar>b\<bar>)"

definition big_mod :: "int \<Rightarrow> int \<Rightarrow> int" where
  "big_mod a b = sgn a * (\<bar>a\<bar> mod \<bar>b\<bar>)"

definition roundDecimalToInt :: "DecimalValue \<Rightarrow> string result" where
  "roundDecimalToInt v =
     (let negative = numerator v < 0;
          magnitude = (if negative then - numerator v else numerator v)
      in if denominator v = 0 then Inl (RangeError ''Division by zero'')
         else let quotient = big_div magnitude (denominator v);
                  remainder = big_mod magnitude (denominator v);
                  rounded = (if remainder * 2 \<ge> denominator v then quotient + 1 else quotient)
              in Inr ((if negative \<and> rounded \<noteq> 0 then ''-'' else []) @ int_str rounded))"

definition midpointDecimal :: "DecimalValue \<Rightarrow> DecimalValue \<Rightarrow> DecimalValue" where
  "midpointDecimal a b = (let s = addDecimal a b in \<lparr>numerator = numerator s, denominator = denominator s * 2\<rparr>)"

definition compareDecimalP :: "DecimalValue \<Rightarrow> DecimalValue \<Rightarrow> int" where
  "compareDecimalP a b =
     (let left = numerator a * denominator b; right = numerator b * denominator a
      in if left < right then - 1 else if left > right then 1 else 0)"

text \<open>\<open>while (remainder !== 0n && digits.length < 40)\<close>: every round appends at least one character.\<close>

lemma int_str_length: "0 < length (int_str n)"
  by (simp add: int_str_def)

function long_division :: "string \<Rightarrow> int \<Rightarrow> int \<Rightarrow> string" where
  "long_division digits den remainder =
     (if remainder \<noteq> 0 \<and> length digits < 40
      then long_division (digits @ int_str (big_div (remainder * 10) den)) den (big_mod (remainder * 10) den)
      else digits)"
  by pat_completeness auto
termination
  by (relation "measure (\<lambda>(digits, _). 40 - length digits)") (use int_str_length in \<open>auto intro!: diff_less_mono2 simp del: length_greater_0_conv\<close>)

declare long_division.simps [simp del]

text \<open>\<open>s.replace(/0+$/, "")\<close>.\<close>

definition strip_zeros :: "string \<Rightarrow> string" where
  "strip_zeros s = rev (dropWhile (\<lambda>c. c = CHR ''0'') (rev s))"

definition formatDecimalP :: "DecimalValue \<Rightarrow> string result" where
  "formatDecimalP v =
     (let negative = numerator v < 0;
          magnitude = (if negative then - numerator v else numerator v);
          sign = (if negative then ''-'' else [])
      in if denominator v = 0 then Inl (RangeError ''Division by zero'')
         else let whole = big_div magnitude (denominator v);
                  remainder = big_mod magnitude (denominator v)
              in if remainder = 0 then Inr (sign @ int_str whole)
                 else Inr (sign @ int_str whole @ ''.'' @ strip_zeros (long_division [] (denominator v) remainder)))"

section \<open>Engine decimals\<close>

text \<open>\<open>text.split(".")\<close> of a text with at most one point: the two parts.\<close>

definition split_point :: "string \<Rightarrow> string \<times> string" where
  "split_point s = (takeWhile (\<lambda>c. c \<noteq> CHR ''.'') s, takeWhile (\<lambda>c. c \<noteq> CHR ''.'') (drop 1 (dropWhile (\<lambda>c. c \<noteq> CHR ''.'') s)))"

definition drop_sign :: "string \<Rightarrow> string" where
  "drop_sign s = (case s of c # r \<Rightarrow> if c = CHR ''+'' \<or> c = CHR ''-'' then r else s | [] \<Rightarrow> [])"

definition starts_minus :: "string \<Rightarrow> bool" where
  "starts_minus s = (case s of c # _ \<Rightarrow> c = CHR ''-'' | [] \<Rightarrow> False)"

text \<open>\<open>BigInt(s)\<close>: white space around is ignored, an empty text is zero, a radix prefix or one sign is
  allowed; any other text throws.\<close>

definition big_int :: "string \<Rightarrow> int result" where
  "big_int s =
     (let t = trim s
      in if t = [] then Inr 0
         else if 2 \<le> length t \<and> hd t = CHR ''0'' \<and> t ! 1 \<in> set ''xXoObB'' then
           (case radix_val (if t ! 1 \<in> set ''xX'' then 16 else if t ! 1 \<in> set ''oO'' then 8 else 2) (drop 2 t)
            of Some n \<Rightarrow> Inr n | None \<Rightarrow> Inl (Error ''SyntaxError''))
         else let ds = (if hd t = CHR ''-'' \<or> hd t = CHR ''+'' then tl t else t)
              in if ds \<noteq> [] \<and> list_all is_digit ds then Inr (if hd t = CHR ''-'' then - digits_val ds else digits_val ds)
                 else Inl (Error ''SyntaxError''))"

definition compareDecimal :: "string \<Rightarrow> string \<Rightarrow> int result" where
  "compareDecimal a b =
     (let (ai, af) = split_point (drop_sign a);
          (bi, bf) = split_point (drop_sign b);
          digits = max (length af) (length bf)
      in result_bind (big_int (ai @ padEnd digits CHR ''0'' af)) (\<lambda>am.
         result_bind (big_int (bi @ padEnd digits CHR ''0'' bf)) (\<lambda>bm.
           let av = am * (if starts_minus a then - 1 else 1);
               bv = bm * (if starts_minus b then - 1 else 1)
           in Inr (if av < bv then - 1 else if av > bv then 1 else 0))))"

text \<open>A value as it arrives, with the text \<open>String(value)\<close> of a present one.\<close>

definition canonical_text :: "string option \<Rightarrow> string option" where
  "canonical_text value =
     (case value of None \<Rightarrow> None
      | Some s \<Rightarrow> if s = [] then None
          else let text' = trim s
               in case re_decimal text' of
                    None \<Rightarrow> None
                  | Some (sg, w, f) \<Rightarrow> if f = Some [] then None
                      else Some (if sg = Some CHR ''+'' then tl text' else text'))"

definition decimalInputValue :: "string option \<Rightarrow> string" where
  "decimalInputValue value =
     (case canonical_text value of None \<Rightarrow> []
      | Some text' \<Rightarrow>
          (let (whole, fraction) = split_point (if starts_minus text' then tl text' else text');
               integer = dec_str (digits_val whole);
               tail = strip_zeros fraction;
               magnitude = integer @ (if tail = [] then [] else ''.'' @ tail)
           in (if starts_minus text' \<and> magnitude \<noteq> ''0'' then ''-'' else []) @ magnitude))"

definition quantize :: "string option \<Rightarrow> int \<Rightarrow> string option result" where
  "quantize value digits =
     (if digits < 0 \<or> digits > 12 then Inl (RangeError (''Precisi'' @ [CHR 0xF3] @ ''n inv'' @ [CHR 0xE1] @ ''lida''))
      else let d = nat digits
           in case canonical_text value of None \<Rightarrow> Inr None
            | Some text' \<Rightarrow>
                (let (integer, fraction) = split_point (if starts_minus text' then tl text' else text');
                     kept = padEnd d CHR ''0'' (take d fraction);
                     units0 = digits_val (integer @ kept);
                     up = (case nth_opt fraction d of None \<Rightarrow> False | Some c \<Rightarrow> 5 \<le> digit_val c);
                     units = (if up then units0 + 1 else units0);
                     magnitude = padStart (d + 1) CHR ''0'' (dec_str units);
                     sign = (if starts_minus text' \<and> units \<noteq> 0 then ''-'' else [])
                 in Inr (Some (sign @ (if d = 0 then magnitude
                      else take (length magnitude - d) magnitude @ ''.'' @ drop (length magnitude - d) magnitude)))))"

text \<open>\<open>integer.replace(/\B(?=(\d{3})+(?!\d))/g, separator)\<close> on a text of digits.\<close>

function group3 :: "'a list \<Rightarrow> 'a list \<Rightarrow> 'a list" where
  "group3 sep s = (if length s \<le> 3 then s else group3 sep (take (length s - 3) s) @ sep @ drop (length s - 3) s)"
  by pat_completeness auto
termination by (relation "measure (\<lambda>(_, s). length s)") auto

declare group3.simps [simp del]

text \<open>The code units of a text.\<close>

definition units :: "string \<Rightarrow> nat list" where
  "units s = map of_char s"

definition THIN_SPACE :: "nat list" where
  "THIN_SPACE = [0x2009]"

definition MISSING :: "nat list" where
  "MISSING = units ''Falta completar''"

definition formatDecimal :: "string option \<Rightarrow> int \<Rightarrow> nat list \<Rightarrow> nat list result" where
  "formatDecimal value digits separator =
     map_sum id (\<lambda>r. case r of None \<Rightarrow> MISSING
       | Some rounded \<Rightarrow>
          (let (integer, fraction) = split_point (if starts_minus rounded then tl rounded else rounded)
           in (if starts_minus rounded then [0x2212] else []) @ group3 separator (units integer)
              @ (if fraction = [] then [] else units ('','' @ fraction))))
       (quantize value digits)"

definition formatMoney :: "string option \<Rightarrow> string \<Rightarrow> nat list result" where
  "formatMoney value currency =
     (if canonical_text value = None then Inr MISSING
      else let digits = (if currency = ''CLP'' then 0 else if currency = ''UF'' then 4 else 2);
               prefix = (if currency = ''CLP'' then ''$'' else if currency = ''USD'' then ''US$ '' else currency @ '' '')
           in map_sum id (\<lambda>s. units prefix @ s) (formatDecimal value digits (units ''.'')))"

datatype PercentKind = Fraction | Points

definition formatPercent :: "string option \<Rightarrow> PercentKind \<Rightarrow> nat list result" where
  "formatPercent value k =
     (case canonical_text value of None \<Rightarrow> Inr MISSING
      | Some text' \<Rightarrow>
          (let t = (if k = Fraction then
                 (let (integer, fraction) = split_point (if starts_minus text' then tl text' else text');
                      extended = padEnd 2 CHR ''0'' fraction
                  in (if starts_minus text' then ''-'' else []) @ integer @ take 2 extended
                     @ (if length extended > 2 then ''.'' @ drop 2 extended else []))
               else text')
           in map_sum id (\<lambda>s. s @ units '' %'') (formatDecimal (Some t) 1 THIN_SPACE)))"

text \<open>\<open>s.replace(p, "")\<close>: the first occurrence goes.\<close>

fun remove_first :: "'a list \<Rightarrow> 'a list \<Rightarrow> 'a list" where
  "remove_first p s = (if take (length p) s = p then drop (length p) s
     else case s of [] \<Rightarrow> [] | c # r \<Rightarrow> c # remove_first p r)"

declare remove_first.simps [simp del]

definition fmtPct :: "string option \<Rightarrow> nat list result" where
  "fmtPct value = map_sum id (remove_first (units '' %'')) (formatPercent value Points)"

definition fmtMm :: "string option \<Rightarrow> nat list result" where
  "fmtMm value =
     (let precision = length (strip_zeros (snd (split_point (case value of None \<Rightarrow> [] | Some s \<Rightarrow> s))))
      in formatDecimal value (int (min precision 12)) THIN_SPACE)"

definition formatMillimeters :: "string option \<Rightarrow> nat list result" where
  "formatMillimeters value = map_sum id (\<lambda>f. if f = MISSING then f else f @ units '' mm'') (fmtMm value)"

definition formatRevision :: "string option \<Rightarrow> nat list" where
  "formatRevision code =
     (case code of None \<Rightarrow> [0x2014]
      | Some c \<Rightarrow> if c = [] then [0x2014]
          else if take 4 c = ''REV-'' \<and> drop 4 c \<noteq> [] \<and> list_all (\<lambda>x. 65 \<le> (of_char x :: nat) \<and> (of_char x :: nat) \<le> 90) (drop 4 c)
          then units ''Revisi'' @ [0xF3] @ units ''n '' @ units (drop 4 c) else units c)"

definition CODE_KINDS :: "string \<Rightarrow> nat list option" where
  "CODE_KINDS k =
     (if k = ''P'' then Some (units ''Obra'') else if k = ''OT'' then Some (units ''OT'')
      else if k = ''OC'' then Some (units ''Compra'') else if k = ''RT'' then Some (units ''Retazo'')
      else if k = ''REC'' then Some (units ''Recepci'' @ [0xF3] @ units ''n'') else None)"

text \<open>\<open>/^([A-Z]{1,4})-0*(\d+)$/\<close>: the greedy zeros give one back when no digit would be left.\<close>

definition match_code :: "string \<Rightarrow> (string \<times> string) option" where
  "match_code s =
     (let k = takeWhile (\<lambda>x. 65 \<le> (of_char x :: nat) \<and> (of_char x :: nat) \<le> 90) s; r = drop (length k) s; ds = tl r
      in if 1 \<le> length k \<and> length k \<le> 4 \<and> r \<noteq> [] \<and> hd r = CHR ''-'' \<and> ds \<noteq> [] \<and> list_all is_digit ds
         then Some (k, let z = dropWhile (\<lambda>c. c = CHR ''0'') ds in if z = [] then ''0'' else z) else None)"

definition formatCode :: "string option \<Rightarrow> bool \<Rightarrow> nat list" where
  "formatCode code withKind =
     (case code of None \<Rightarrow> [0x2014]
      | Some c \<Rightarrow> if c = [] then [0x2014]
          else case match_code c of None \<Rightarrow> units c
             | Some (k, n) \<Rightarrow>
                 (case CODE_KINDS k of
                    Some kn \<Rightarrow> if withKind then kn @ units '' N'' @ [0xB0, 32] @ units n else units ''N'' @ [0xB0, 32] @ units n
                  | None \<Rightarrow> units ''N'' @ [0xB0, 32] @ units n))"

section \<open>What the user types\<close>

text \<open>\<open>/^[+-]?\d{1,3}(?:\.\d{3})+(?:,\d+)?$/\<close>.\<close>

function dot_groups :: "string \<Rightarrow> bool" where
  "dot_groups s = (case s of c # r \<Rightarrow> c = CHR ''.'' \<and> 3 \<le> length r \<and> list_all is_digit (take 3 r) \<and>
       (drop 3 r = [] \<or> (hd (drop 3 r) = CHR '','' \<and> tl (drop 3 r) \<noteq> [] \<and> list_all is_digit (tl (drop 3 r)))
        \<or> dot_groups (drop 3 r))
     | [] \<Rightarrow> False)"
  by pat_completeness auto
termination by (relation "measure length") (auto split: list.splits)

declare dot_groups.simps [simp del]

definition is_grouped :: "string \<Rightarrow> bool" where
  "is_grouped s = (let r = drop_sign s; w = takeWhile is_digit r
     in 1 \<le> length w \<and> length w \<le> 3 \<and> dot_groups (dropWhile is_digit r))"

text \<open>White space of the language: what \<open>\s\<close> and \<open>trim\<close> remove.\<close>

definition unit_space :: "nat \<Rightarrow> bool" where
  "unit_space u \<longleftrightarrow> u \<in> {9, 10, 11, 12, 13, 32, 160, 0x1680, 0x2028, 0x2029, 0x202F, 0x205F, 0x3000, 0xFEFF}
     \<or> 0x2000 \<le> u \<and> u \<le> 0x200A"

text \<open>A unit above 255 left after the white space is gone occurs in neither pattern, so the text is refused.\<close>

definition parseDecimalInput :: "nat list \<Rightarrow> nat \<Rightarrow> string option" where
  "parseDecimalInput candidate precision =
     (let us = filter (\<lambda>u. \<not> unit_space u) candidate
      in if us = [] \<or> list_ex (\<lambda>u. 256 \<le> u) us then None
         else let text' = map char_of us;
                  normalized = replace_first CHR '','' CHR ''.''
                    (if is_grouped text' then filter (\<lambda>c. c \<noteq> CHR ''.'') text' else text')
              in case re_decimal normalized of
                   None \<Rightarrow> None
                 | Some (sg, w, f) \<Rightarrow>
                     if f = Some [] \<or> precision < length (case f of None \<Rightarrow> [] | Some x \<Rightarrow> x) then None
                     else let integer = dec_str (digits_val w);
                              fraction = strip_zeros (case f of None \<Rightarrow> [] | Some x \<Rightarrow> x);
                              magnitude = integer @ (if fraction = [] then [] else ''.'' @ fraction)
                          in Some ((if sg = Some CHR ''-'' \<and> magnitude \<noteq> ''0'' then ''-'' else []) @ magnitude))"

text \<open>\<open>/^[+-]?\d{1,3}(?:,\d{3})+$/\<close>.\<close>

function comma_groups :: "string \<Rightarrow> bool" where
  "comma_groups s = (case s of c # r \<Rightarrow> c = CHR '','' \<and> 3 \<le> length r \<and> list_all is_digit (take 3 r) \<and>
       (drop 3 r = [] \<or> comma_groups (drop 3 r))
     | [] \<Rightarrow> False)"
  by pat_completeness auto
termination by (relation "measure length") (auto split: list.splits)

declare comma_groups.simps [simp del]

definition parseLocaleNumber :: "string \<Rightarrow> rat option" where
  "parseLocaleNumber candidate =
     (let text' = trim candidate
      in if text' = [] then None
         else let w = takeWhile is_digit (drop_sign text');
                  commaThousands = 1 \<le> length w \<and> length w \<le> 3 \<and> comma_groups (dropWhile is_digit (drop_sign text'));
                  normalized = (if is_grouped text' then replace_first CHR '','' CHR ''.'' (filter (\<lambda>c. c \<noteq> CHR ''.'') text')
                    else if commaThousands then filter (\<lambda>c. c \<noteq> CHR '','') text'
                    else replace_first CHR '','' CHR ''.'' text')
              in case re_decimal normalized of
                   None \<Rightarrow> None
                 | Some (sg, w, f) \<Rightarrow> if f = Some [] then None
                     else case str_num normalized of Fin x \<Rightarrow> Some x | _ \<Rightarrow> None)"

text \<open>\<open>/^[^\s@]+@[^\s@]+\.[^\s@]{2,}$/\<close>.\<close>

definition isValidEmail :: "string \<Rightarrow> bool" where
  "isValidEmail candidate =
     (let text' = trim candidate
      in if text' = [] then True
         else let local = takeWhile (\<lambda>c. c \<noteq> CHR ''@'') text'; domain = drop (Suc (length local)) text'
              in length local < length text' \<and> local \<noteq> [] \<and> list_all (\<lambda>c. \<not> is_space c) local \<and>
                 list_all (\<lambda>c. \<not> is_space c \<and> c \<noteq> CHR ''@'') domain \<and>
                 list_ex (\<lambda>i. domain ! i = CHR ''.'' \<and> i + 3 \<le> length domain) [1..<length domain])"

section \<open>The national identity number\<close>

text \<open>\<open>toUpperCase\<close> on the characters the check accepts.\<close>

definition upper_k :: "char \<Rightarrow> char" where
  "upper_k c = (if c = CHR ''k'' then CHR ''K'' else c)"

definition rut_clean :: "string \<Rightarrow> string" where
  "rut_clean s = map upper_k (filter (\<lambda>c. c \<noteq> CHR ''.'' \<and> c \<noteq> CHR ''-'' \<and> \<not> is_space c) s)"

text \<open>The loop from the last body digit: the running sum and the weight 2, 3, ..., 7, 2, ....\<close>

fun rut_sum :: "string \<Rightarrow> nat \<Rightarrow> nat \<Rightarrow> nat" where
  "rut_sum [] factor s = s"
| "rut_sum (c # cs) factor s = rut_sum cs (if factor = 7 then 2 else factor + 1) (s + digit_val c * factor)"

definition rut_expected :: "string \<Rightarrow> string" where
  "rut_expected body =
     (let remainder = 11 - rut_sum (rev body) 2 0 mod 11
      in if remainder = 11 then ''0'' else if remainder = 10 then ''K'' else nat_str remainder)"

definition isValidRut :: "string \<Rightarrow> bool" where
  "isValidRut candidate =
     (let cleaned = rut_clean candidate
      in if cleaned = [] then True
         else let body = butlast cleaned; digit = last cleaned
              in 1 \<le> length body \<and> length body \<le> 8 \<and> list_all is_digit body \<and> (is_digit digit \<or> digit = CHR ''K'') \<and>
                 [digit] = rut_expected body)"

section \<open>Digits of a number\<close>

text \<open>The \<open>k\<close> low digits of a number.\<close>

fun low_digits :: "nat \<Rightarrow> int \<Rightarrow> string" where
  "low_digits 0 n = []"
| "low_digits (Suc k) n = low_digits k (n div 10) @ [digit_char (nat (n mod 10))]"

lemma low_digits_0: "low_digits k 0 = replicate k CHR ''0''"
  by (induction k) (simp_all add: digit_char_def digit_chars_def replicate_append_same)

lemma low_digits_length [simp]: "length (low_digits k n) = k"
  by (induction k arbitrary: n) simp_all

lemma low_digits_Suc: "low_digits (Suc k) n = digit_char (nat (n div 10 ^ k mod 10)) # low_digits k n"
proof (induction k arbitrary: n)
  case (Suc k)
  have "n div 10 div 10 ^ k = n div 10 ^ Suc k" by (simp add: div_mult2_eq [symmetric] zdiv_zmult2_eq)
  then show ?case using Suc.IH [of "n div 10"] by simp
qed simp

lemma low_digits_mod: "low_digits k (n mod 10 ^ k) = low_digits k n"
proof (induction k arbitrary: n)
  case (Suc k)
  have "n mod 10 ^ Suc k div 10 = n div 10 mod 10 ^ k" "n mod 10 ^ Suc k mod 10 = n mod 10"
    by (simp_all add: zmod_zmult2_eq mod_mult2_eq)
  then show ?case using Suc.IH [of "n div 10"] by simp
qed simp

lemma padStart_snoc: "padStart (Suc k) c (s @ [x]) = padStart k c s @ [x]"
  by (simp add: padStart_def)

lemma pad_split: "0 \<le> n \<Longrightarrow> padStart (Suc d) CHR ''0'' (dec_str n) = dec_str (n div 10 ^ d) @ low_digits d n"
proof (induction d arbitrary: n)
  case 0
  have "1 \<le> length (dec_str n)" using dec_str_nonempty [of n] by (cases "dec_str n") auto
  then show ?case by (simp add: padStart_def)
next
  case (Suc d)
  show ?case
  proof (cases "n < 10")
    case True
    have "(10 :: int) \<le> 10 ^ Suc d" using power_increasing [of 1 "Suc d" "10 :: int"] by simp
    then have "n < 10 ^ Suc d" using True by linarith
    then have "n div 10 ^ Suc d = 0" using Suc.prems by (rule div_pos_pos_trivial [rotated])
    moreover have "dec_str n = [digit_char (nat n)]" "n div 10 = 0" "n mod 10 = n"
      using Suc.prems True by (simp_all add: dec_str.simps [of n])
    moreover have "dec_str 0 = ''0''" by (simp add: dec_str.simps digit_char_def digit_chars_def)
    ultimately show ?thesis by (simp add: padStart_def low_digits_0)
  next
    case False
    then have "dec_str n = dec_str (n div 10) @ [digit_char (nat (n mod 10))]" by (simp add: dec_str.simps [of n])
    moreover have "n div 10 div 10 ^ d = n div 10 ^ Suc d" by (simp add: zdiv_zmult2_eq)
    ultimately show ?thesis using Suc.IH [of "n div 10"] Suc.prems by (simp add: padStart_snoc)
  qed
qed

lemma pad_low:
  assumes "0 \<le> m" "m < 10 ^ d" "0 < d"
  shows "padStart d CHR ''0'' (dec_str m) = low_digits d m"
proof -
  obtain k where k: "d = Suc k" using assms(3) by (cases d) auto
  have "0 \<le> m div 10 ^ k" using assms(1) by (simp add: pos_imp_zdiv_nonneg_iff)
  moreover have "m div 10 ^ k < 10"
  proof (rule ccontr)
    assume "\<not> m div 10 ^ k < 10"
    then have "10 * 10 ^ k \<le> m div 10 ^ k * 10 ^ k" by (intro mult_right_mono) simp_all
    also have "m div 10 ^ k * 10 ^ k \<le> m" using div_mult_mod_eq [of m "10 ^ k"] pos_mod_sign [of "10 ^ k" m]
      by (metis le_add_same_cancel1 zero_less_numeral zero_less_power)
    finally show False using assms(2) k by simp
  qed
  ultimately have "dec_str (m div 10 ^ k) = [digit_char (nat (m div 10 ^ k mod 10))]" by (simp add: dec_str.simps)
  then show ?thesis using pad_split [OF assms(1), of k] low_digits_Suc [of k m] k by simp
qed

lemma pad_fixed_str:
  assumes "0 \<le> n" "0 < d"
  shows "fixed_str d n = (let s = padStart (d + 1) CHR ''0'' (dec_str n) in take (length s - d) s @ ''.'' @ drop (length s - d) s)"
proof -
  have "padStart d CHR ''0'' (dec_str (n mod 10 ^ d)) = low_digits d n"
    using pad_low [of "n mod 10 ^ d" d] assms low_digits_mod [of d n] by simp
  then show ?thesis using pad_split [OF assms(1), of d] assms(2) by (simp add: fixed_str_def Let_def)
qed

section \<open>Texts of decimals\<close>

definition dec_text :: "string \<Rightarrow> string option \<Rightarrow> string" where
  "dec_text w f = w @ (case f of None \<Rightarrow> [] | Some x \<Rightarrow> ''.'' @ x)"

lemma re_decimal_dec_text:
  assumes "w \<noteq> []" "list_all is_digit w" "\<forall>x. f = Some x \<longrightarrow> list_all is_digit x"
  shows "re_decimal (dec_text w f) = Some (None, w, f)" "re_decimal (CHR ''-'' # dec_text w f) = Some (Some CHR ''-'', w, f)"
proof -
  have w: "\<forall>c \<in> set w. is_digit c" using assms(2) by (simp add: list_all_iff)
  have tw: "takeWhile is_digit (dec_text w f) = w" "dropWhile is_digit (dec_text w f) = (case f of None \<Rightarrow> [] | Some x \<Rightarrow> CHR ''.'' # x)"
    using w by (cases f; simp add: dec_text_def takeWhile_digits dropWhile_digits)+
  obtain c r where c: "w = c # r" "is_digit c" using assms(1,2) by (cases w) auto
  then have "hd (dec_text w f) \<noteq> CHR ''+''" "hd (dec_text w f) \<noteq> CHR ''-''" by (auto simp: dec_text_def digit_not_special)
  then show "re_decimal (dec_text w f) = Some (None, w, f)"
    using tw assms(1,3) by (cases f) (simp_all add: re_decimal_def Let_def del: dropWhile_eq_Nil_conv)
  show "re_decimal (CHR ''-'' # dec_text w f) = Some (Some CHR ''-'', w, f)"
    using tw assms(1,3) by (cases f) (simp_all add: re_decimal_def Let_def del: dropWhile_eq_Nil_conv)
qed

lemma re_decimal_Some:
  assumes "re_decimal s = Some (sg, w, f)"
  shows "s = (case sg of None \<Rightarrow> [] | Some c \<Rightarrow> [c]) @ dec_text w f" "w \<noteq> []" "list_all is_digit w"
    "\<forall>x. f = Some x \<longrightarrow> list_all is_digit x" "sg \<noteq> None \<longrightarrow> sg = Some CHR ''+'' \<or> sg = Some CHR ''-''"
proof -
  define r where "r = (if s \<noteq> [] \<and> (hd s = CHR ''+'' \<or> hd s = CHR ''-'') then tl s else s)"
  have sgd: "sg = (if s \<noteq> [] \<and> (hd s = CHR ''+'' \<or> hd s = CHR ''-'') then Some (hd s) else None)"
    and w: "w = takeWhile is_digit r" "w \<noteq> []"
    and q: "dropWhile is_digit r = (case f of None \<Rightarrow> [] | Some x \<Rightarrow> CHR ''.'' # x)" "\<forall>x. f = Some x \<longrightarrow> list_all is_digit x"
    using assms unfolding re_decimal_def r_def Let_def
    by (auto split: if_splits list.splits option.splits)
  have sr: "s = (case sg of None \<Rightarrow> [] | Some c \<Rightarrow> [c]) @ r" by (cases s) (simp_all add: sgd r_def)
  have sgs: "sg \<noteq> None \<longrightarrow> sg = Some CHR ''+'' \<or> sg = Some CHR ''-''" unfolding sgd by auto
  have "r = w @ (case f of None \<Rightarrow> [] | Some x \<Rightarrow> CHR ''.'' # x)" using w(1) q(1) takeWhile_dropWhile_id [of is_digit r] by simp
  then show "s = (case sg of None \<Rightarrow> [] | Some c \<Rightarrow> [c]) @ dec_text w f" using sr by (simp add: dec_text_def split: option.splits)
  show "w \<noteq> []" "\<forall>x. f = Some x \<longrightarrow> list_all is_digit x" "sg \<noteq> None \<longrightarrow> sg = Some CHR ''+'' \<or> sg = Some CHR ''-''"
    using w q sgs by auto
  show "list_all is_digit w" using w(1) by (auto simp: list_all_iff dest: set_takeWhileD)
qed

end
