(* ===== verification/Mounting.thy ===== *)
theory Mounting
  imports AssemblyGraph Decimals
begin

text \<open>
  \<open>features/projects/mountingModel.ts\<close>, the JSON text its comparisons go through, and
  \<open>features/canvas/mountedWall.ts\<close>: the survey evidence of a module's wall opening, whether it still
  fits the product, the reconciliation of the extras the user picked independently of the mounting
  rule, and the masonry drawn around the opening. Extras are the JSON objects the design tree carries.
\<close>

section \<open>\<open>JSON.stringify\<close>\<close>

definition hex_digit :: "nat \<Rightarrow> char" where
  "hex_digit d = ''0123456789abcdef'' ! d"

definition json_char :: "char \<Rightarrow> string" where
  "json_char c =
     (let n = of_char c :: nat
      in if n = 34 then [CHR 0x5C, CHR 0x22]
         else if n = 92 then [CHR 0x5C, CHR 0x5C]
         else if n = 8 then [CHR 0x5C, CHR ''b'']
         else if n = 9 then [CHR 0x5C, CHR ''t'']
         else if n = 10 then [CHR 0x5C, CHR ''n'']
         else if n = 12 then [CHR 0x5C, CHR ''f'']
         else if n = 13 then [CHR 0x5C, CHR ''r'']
         else if n < 32 then [CHR 0x5C, CHR ''u'', CHR ''0'', CHR ''0'', hex_digit (n div 16), hex_digit (n mod 16)]
         else [c])"

definition json_string :: "string \<Rightarrow> string" where
  "json_string s = [CHR 0x22] @ concat (map json_char s) @ [CHR 0x22]"

fun join_with :: "string \<Rightarrow> string list \<Rightarrow> string" where
  "join_with sep [] = []"
| "join_with sep [x] = x"
| "join_with sep (x # y # xs) = x @ sep @ join_with sep (y # xs)"

text \<open>A number that is not finite prints as \<open>null\<close>.\<close>

fun stringify :: "json \<Rightarrow> string" where
  "stringify JNull = ''null''"
| "stringify (JBool b) = (if b then ''true'' else ''false'')"
| "stringify (JNum x) = (case x of Fin _ \<Rightarrow> num_str x | _ \<Rightarrow> ''null'')"
| "stringify (JStr s) = json_string s"
| "stringify (JArr xs) = ''['' @ join_with '','' (map stringify xs) @ '']''"
| "stringify (JObj ms) = ''{'' @ join_with '','' (map (\<lambda>(k, v). json_string k @ '':'' @ stringify v) ms) @ ''}''"

text \<open>\<open>value.member\<close> of an object.\<close>

definition json_member :: "string \<Rightarrow> json \<Rightarrow> json option" where
  "json_member k j = (case j of JObj ms \<Rightarrow> map_of ms k | _ \<Rightarrow> None)"

section \<open>Survey evidence\<close>

record Allowance =
  clearance_mm :: string
  al_frame_mm :: string
  extension_mm :: string
  overlap_mm :: string

datatype MountingKind = IN_OPENING | SUBFRAME | OVERLAP | RENOVATION

record MountingRule =
  mr_code :: string
  mr_name :: string
  mr_kind :: MountingKind
  mr_source :: string
  mr_synthetic :: bool
  tolerance_mm :: string
  mr_left :: Allowance
  mr_right :: Allowance
  mr_top :: Allowance
  mr_bottom :: Allowance
  mr_extras :: "json list"

datatype Wall = W_NONE | MASONRY | CONCRETE | PARTITION | WOOD

datatype SurveyOrigin = CUSTOMER | SITE

record SurveyOverride =
  ov_width_mm :: string
  ov_height_mm :: string
  ov_reason :: string

record OpeningSurvey =
  module_id :: "string option"
  rule_code :: string
  rule_revision :: nat
  widths_mm :: "string list"
  heights_mm :: "string list"
  wall :: Wall
  squareness_mm :: "string option"
  plumb_mm :: "string option"
  origin :: SurveyOrigin
  override :: "SurveyOverride option"
  independent_extras :: "json list field"

record AxisDerivation =
  opening_mm :: string
  spread_mm :: string
  ax_first :: Allowance
  ax_second :: Allowance
  first_adjustment_mm :: string
  second_adjustment_mm :: string
  derived_mm :: string
  fabrication_mm :: string
  deviation_mm :: string

record MountingResult =
  mres_width :: AxisDerivation
  mres_height :: AxisDerivation
  warnings :: "string list"

record MountingEvidence =
  survey :: OpeningSurvey
  rule :: MountingRule
  me_result :: MountingResult

section \<open>Reconciling the independent extras\<close>

text \<open>\<open>new Map(items.map((item) => [item.code, item]))\<close>.\<close>

definition extras_by_code :: "json list \<Rightarrow> (json option \<times> json) list" where
  "extras_by_code items = map_new (map (\<lambda>item. (json_member ''code'' item, item)) items)"

definition same_text :: "json option \<Rightarrow> json option \<Rightarrow> bool" where
  "same_text a b \<longleftrightarrow> map_option stringify a = map_option stringify b"

definition reconcile_step :: "(json option \<times> json) list \<Rightarrow> (json option \<times> json) list \<Rightarrow> json option \<Rightarrow>
    (json option \<times> json) list \<times> bool \<Rightarrow> (json option \<times> json) list \<times> bool" where
  "reconcile_step previous current code st =
     (if same_text (map_of previous code) (map_of current code) then st
      else (case map_of current code of
              Some selected \<Rightarrow> AList.update code selected (fst st)
            | None \<Rightarrow> AList.delete code (fst st), True))"

text \<open>\<open>None\<close> is the same evidence object.\<close>

definition reconcileIndependentExtras :: "MountingEvidence \<Rightarrow> json list \<Rightarrow> json list \<Rightarrow> MountingEvidence option" where
  "reconcileIndependentExtras evidence before next' =
     (let previous = extras_by_code before;
          current = extras_by_code next';
          independent = extras_by_code (case independent_extras (survey evidence) of Val xs \<Rightarrow> xs | _ \<Rightarrow> before);
          codes = remdups (rev (map_keys previous @ map_keys current));
          (independent', changed) = fold (reconcile_step previous current) (rev codes) (independent, False)
      in if changed
         then Some (evidence\<lparr>survey := (survey evidence)\<lparr>independent_extras := Val (map_values independent')\<rparr>\<rparr>)
         else None)"

section \<open>Evidence against the product\<close>

text \<open>\<open>xs.some(f)\<close> with a predicate that may throw: the first true element or exception decides.\<close>

fun some_result :: "('a \<Rightarrow> bool result) \<Rightarrow> 'a list \<Rightarrow> bool result" where
  "some_result f [] = Inr False"
| "some_result f (x # xs) = result_bind (f x) (\<lambda>b. if b then Inr True else some_result f xs)"

definition mounting_stale :: "ProductJson \<Rightarrow> MountingEvidence \<Rightarrow> bool result" where
  "mounting_stale product item =
     (case find (\<lambda>m. Some (m_id m) = module_id (survey item)) (modules product) of
        None \<Rightarrow> Inr True
      | Some m \<Rightarrow>
          result_bind (compareDecimal (m_width_mm m) (fabrication_mm (mres_width (me_result item)))) (\<lambda>w.
            if w \<noteq> 0 then Inr True
            else map_sum id (\<lambda>h. h \<noteq> 0) (compareDecimal (m_height_mm m) (fabrication_mm (mres_height (me_result item))))))"

definition mountingGeometryChanged :: "ProductJson option \<Rightarrow> MountingEvidence list \<Rightarrow> bool result" where
  "mountingGeometryChanged product evidence =
     (case product of None \<Rightarrow> Inr (evidence \<noteq> []) | Some p \<Rightarrow> some_result (mounting_stale p) evidence)"

section \<open>The opening in the wall\<close>

record MountedSide =
  adjustment_mm :: string
  side_clearance_mm :: string

record MountedSides =
  ms_left :: MountedSide
  ms_right :: MountedSide
  ms_top :: MountedSide
  ms_bottom :: MountedSide

record MountedOpening =
  mo_moduleId :: "string option"
  moduleIndex :: nat
  mo_widthMm :: string
  mo_heightMm :: string
  ruleName :: string
  mo_synthetic :: bool
  mo_sides :: "MountedSides option"
  mo_warnings :: "string list"

definition mounted_side :: "string \<Rightarrow> Allowance \<Rightarrow> MountedSide" where
  "mounted_side adjustment allowance = \<lparr>adjustment_mm = adjustment, side_clearance_mm = clearance_mm allowance\<rparr>"

definition mounted_opening :: "nat \<Rightarrow> MountingEvidence \<Rightarrow> MountedOpening" where
  "mounted_opening index item =
     (let w = mres_width (me_result item); h = mres_height (me_result item)
      in \<lparr>mo_moduleId = module_id (survey item), moduleIndex = index + 1, mo_widthMm = opening_mm w,
          mo_heightMm = opening_mm h, ruleName = mr_name (rule item), mo_synthetic = mr_synthetic (rule item),
          mo_sides = Some \<lparr>ms_left = mounted_side (first_adjustment_mm w) (ax_first w),
            ms_right = mounted_side (second_adjustment_mm w) (ax_second w),
            ms_top = mounted_side (second_adjustment_mm h) (ax_second h),
            ms_bottom = mounted_side (first_adjustment_mm h) (ax_first h)\<rparr>,
          mo_warnings = warnings (me_result item)\<rparr>)"

definition mountedFromEvidence :: "MountingEvidence list \<Rightarrow> MountedOpening list" where
  "mountedFromEvidence evidence = map (\<lambda>(i, item). mounted_opening i item) (entries evidence)"

record WallBox =
  wb_center :: "jsnum \<times> jsnum \<times> jsnum"
  wb_size :: "jsnum \<times> jsnum \<times> jsnum"

definition mountedWallBoxes :: "jsnum \<Rightarrow> jsnum \<Rightarrow> jsnum \<Rightarrow> MountedOpening \<Rightarrow> WallBox list" where
  "mountedWallBoxes module_depth frame_width frame_height opening' =
     (let vanoWidth = str_num (mo_widthMm opening'); vanoHeight = str_num (mo_heightMm opening')
      in if \<not> (js_lt (Fin 0) vanoWidth \<and> js_lt (Fin 0) vanoHeight \<and> js_lt (Fin 0) frame_width \<and> js_lt (Fin 0) frame_height) then []
         else let
           lft = (case mo_sides opening' of Some s \<Rightarrow> str_num (adjustment_mm (ms_left s))
             | None \<Rightarrow> js_div (js_sub vanoWidth frame_width) (Fin (- 2)));
           btm = (case mo_sides opening' of Some s \<Rightarrow> str_num (adjustment_mm (ms_bottom s))
             | None \<Rightarrow> js_div (js_sub vanoHeight frame_height) (Fin (- 2)));
           x0 = lft; x1 = js_add x0 vanoWidth; y0 = btm; y1 = js_add y0 vanoHeight
         in if \<not> list_all isFinite [x0, x1, y0, y1] then []
            else let
              border = js_max (Fin 250) (js_mul (js_max vanoWidth vanoHeight) (Fin (1 / 4)));
              depth = js_max (js_add module_depth (Fin 140)) (Fin 200);
              z = js_div module_depth (Fin 2);
              height = js_add (js_sub y1 y0) (js_mul border (Fin 2));
              half = js_div border (Fin 2);
              cx = js_div (js_add x0 x1) (Fin 2); cy = js_div (js_add y0 y1) (Fin 2)
            in [\<lparr>wb_center = (js_sub x0 half, cy, z), wb_size = (border, height, depth)\<rparr>,
                \<lparr>wb_center = (js_add x1 half, cy, z), wb_size = (border, height, depth)\<rparr>,
                \<lparr>wb_center = (cx, js_add y1 half, z), wb_size = (js_sub x1 x0, border, depth)\<rparr>,
                \<lparr>wb_center = (cx, js_sub y0 half, z), wb_size = (js_sub x1 x0, border, depth)\<rparr>])"

text \<open>The names every plain object inherits: reading one is never \<open>undefined\<close>.\<close>

definition inherited_names :: "string list" where
  "inherited_names = [''constructor'', ''__defineGetter__'', ''__defineSetter__'', ''hasOwnProperty'',
     ''__lookupGetter__'', ''__lookupSetter__'', ''isPrototypeOf'', ''propertyIsEnumerable'', ''toString'',
     ''valueOf'', ''__proto__'', ''toLocaleString'']"

definition opening_target :: "string list \<Rightarrow> MountedOpening \<Rightarrow> string option" where
  "opening_target moduleIds opening' =
     (case mo_moduleId opening' of
        Some i \<Rightarrow> if i \<noteq> [] \<and> i \<in> set moduleIds then Some i else nth_opt moduleIds (moduleIndex opening' - 1)
      | None \<Rightarrow> nth_opt moduleIds (moduleIndex opening' - 1))"

definition openingsByModule :: "string list \<Rightarrow> MountedOpening list \<Rightarrow> (string \<times> MountedOpening) list" where
  "openingsByModule moduleIds openings =
     fold (\<lambda>opening' matched. case opening_target moduleIds opening' of
         None \<Rightarrow> matched
       | Some i \<Rightarrow> if i = [] \<or> i \<in> set inherited_names \<or> map_of matched i \<noteq> None then matched
                   else AList.update i opening' matched)
       openings []"

section \<open>Properties\<close>

lemma map_of_alist_update: "map_of (AList.update k v m) = (map_of m)(k \<mapsto> v)"
  by (rule update_conv')

lemma map_of_alist_delete: "map_of (AList.delete k m) = (map_of m)(k := None)"
  by (rule delete_conv')

lemma reconcile_fold:
  assumes "fold (reconcile_step previous current) codes (ind, ch) = (ind', ch')"
  shows "map_of ind' code = (if code \<in> set codes \<and> \<not> same_text (map_of previous code) (map_of current code)
      then map_of current code else map_of ind code) \<and>
    (ch' \<longleftrightarrow> ch \<or> (\<exists>code \<in> set codes. \<not> same_text (map_of previous code) (map_of current code)))"
  using assms
proof (induction codes arbitrary: ind ch)
  case (Cons c codes)
  define st where "st = reconcile_step previous current c (ind, ch)"
  from Cons.prems have "fold (reconcile_step previous current) codes (fst st, snd st) = (ind', ch')" by (simp add: st_def)
  from Cons.IH [OF this] show ?case
    by (auto simp: st_def reconcile_step_def map_of_alist_update map_of_alist_delete split: option.splits if_splits)
qed simp

definition keyed :: "(json option \<times> json) list \<Rightarrow> bool" where
  "keyed m \<longleftrightarrow> distinct (map fst m) \<and> (\<forall>(k, v) \<in> set m. json_member ''code'' v = k)"

lemma keyed_map_of: "keyed m \<Longrightarrow> map_of m k = Some v \<Longrightarrow> json_member ''code'' v = k"
  by (auto simp: keyed_def dest: map_of_SomeD)

lemma keyed_extras: "keyed (extras_by_code xs)"
proof -
  have "map_of (extras_by_code xs) k = Some v \<Longrightarrow> json_member ''code'' v = k" for k v
    by (auto simp: extras_by_code_def map_of_map_new dest!: map_of_SomeD)
  moreover have d: "distinct (map fst (extras_by_code xs))" by (simp add: extras_by_code_def distinct_keys_map_new)
  ultimately show ?thesis by (auto simp: keyed_def map_of_eq_Some_iff)
qed

lemma keyed_values:
  assumes "keyed m"
  shows "map_of (extras_by_code (map_values m)) = map_of m" "distinct (map (json_member ''code'') (map_values m))"
proof -
  have "map (\<lambda>v. (json_member ''code'' v, v)) (map_values m) = m"
    using assms by (auto simp: keyed_def map_values_def intro!: map_idI)
  then show "map_of (extras_by_code (map_values m)) = map_of m"
    using assms by (simp add: extras_by_code_def map_of_map_new map_of_rev_distinct keyed_def)
  have "map (json_member ''code'') (map_values m) = map fst m" using assms by (auto simp: keyed_def map_values_def)
  then show "distinct (map (json_member ''code'') (map_values m))" using assms by (simp add: keyed_def)
qed

lemma keyed_step: "keyed (fst st) \<Longrightarrow> keyed current \<Longrightarrow> keyed (fst (reconcile_step previous current c st))"
proof -
  assume k: "keyed (fst st)" and cur: "keyed current"
  have d: "distinct (map fst m) \<Longrightarrow> (\<forall>k v. map_of m k = Some v \<longrightarrow> json_member ''code'' v = k) \<Longrightarrow> keyed m" for m
    by (auto simp: keyed_def map_of_eq_Some_iff)
  have "distinct (map fst (fst st))" using k by (simp add: keyed_def)
  then show ?thesis
    using k keyed_map_of [OF k] keyed_map_of [OF cur]
    by (auto simp: reconcile_step_def map_of_alist_update map_of_alist_delete distinct_update distinct_delete
        split: option.splits if_splits intro!: d)
qed

lemma keyed_fold: "keyed (fst st) \<Longrightarrow> keyed current \<Longrightarrow> keyed (fst (fold (reconcile_step previous current) codes st))"
  by (induction codes arbitrary: st) (simp_all add: keyed_step)

text \<open>The extra a list of extras gives a code: the last one that carries it.\<close>

definition extra_at :: "json list \<Rightarrow> json option \<Rightarrow> json option" where
  "extra_at xs code = map_of (rev (map (\<lambda>x. (json_member ''code'' x, x)) xs)) code"

lemma extra_at_by_code: "map_of (extras_by_code xs) = extra_at xs"
  by (rule ext) (simp add: extras_by_code_def map_of_map_new extra_at_def)

text \<open>
  C27. Reconciling the independent extras of a survey after the design's extras changed: the evidence
  is kept as it is exactly when no code's extra changed; otherwise only the list of independent extras
  is replaced, by a list with one extra per code in which every code whose extra changed has the
  design's new extra (or none, when it was removed) and every other code keeps its independent extra.
\<close>
theorem reconcileIndependentExtras_spec:
  "let changed = (\<lambda>code. \<not> same_text (extra_at before code) (extra_at next' code));
       ind = (case independent_extras (survey e) of Val xs \<Rightarrow> xs | _ \<Rightarrow> before)
   in if \<exists>code. changed code
      then \<exists>xs. reconcileIndependentExtras e before next' = Some (e\<lparr>survey := (survey e)\<lparr>independent_extras := Val xs\<rparr>\<rparr>) \<and>
        distinct (map (json_member ''code'') xs) \<and>
        (\<forall>code. extra_at xs code = (if changed code then extra_at next' code else extra_at ind code))
      else reconcileIndependentExtras e before next' = None"
proof -
  define ind where "ind = (case independent_extras (survey e) of Val xs \<Rightarrow> xs | _ \<Rightarrow> before)"
  define codes where "codes = rev (remdups (rev (map_keys (extras_by_code before) @ map_keys (extras_by_code next'))))"
  obtain m ch where f: "fold (reconcile_step (extras_by_code before) (extras_by_code next')) codes (extras_by_code ind, False) = (m, ch)"
    by (cases "fold (reconcile_step (extras_by_code before) (extras_by_code next')) codes (extras_by_code ind, False)")
  have dom: "\<not> same_text (extra_at before code) (extra_at next' code) \<Longrightarrow> code \<in> set codes" for code
  proof (rule ccontr)
    assume "code \<notin> set codes"
    then have "map_of (extras_by_code before) code = None" "map_of (extras_by_code next') code = None"
      by (auto simp: codes_def map_keys_def map_of_eq_None_iff)
    moreover assume "\<not> same_text (extra_at before code) (extra_at next' code)"
    ultimately show False by (simp add: same_text_def flip: extra_at_by_code)
  qed
  have m: "map_of m code = (if \<not> same_text (extra_at before code) (extra_at next' code) then extra_at next' code else extra_at ind code)"
    and ch: "ch \<longleftrightarrow> (\<exists>code. \<not> same_text (extra_at before code) (extra_at next' code))" for code
    using reconcile_fold [OF f, of code] dom by (auto simp: extra_at_by_code)
  have k: "keyed m"
    using keyed_fold [of "(extras_by_code ind, False)" "extras_by_code next'" "extras_by_code before" codes] keyed_extras f by simp
  have r: "reconcileIndependentExtras e before next' =
      (if ch then Some (e\<lparr>survey := (survey e)\<lparr>independent_extras := Val (map_values m)\<rparr>\<rparr>) else None)"
    using f by (simp add: reconcileIndependentExtras_def Let_def codes_def ind_def)
  have "extra_at (map_values m) = map_of m" using keyed_values(1) [OF k] extra_at_by_code by simp
  then show ?thesis using r ch m keyed_values(2) [OF k] by (auto simp: Let_def ind_def)
qed

end
