(* ===== verification/CanvasStore.thy ===== *)
theory CanvasStore
  imports Mounting
begin

text \<open>
  \<open>features/canvas/canvasStore.ts\<close>: the editor's state and its operations. The code compares design
  inputs and mounting arrays by reference, so both carry a reference and the state holds the next free
  one; an object literal takes a fresh reference. An operation whose tree walk throws leaves the state
  as it was and gives the error. Annotations and the inspector's difference are JSON values.
\<close>

section \<open>State\<close>

datatype DimensionAxis = Width | Height

record MountingArray =
  ma_ref :: nat
  ma_items :: "MountingEvidence list"

record CanvasDesignInputs =
  i_ref :: nat
  systemId :: "string option"
  nominalWidthMm :: string
  nominalHeightMm :: string
  color :: string
  parametricTree :: IntentNode
  product :: "ProductJson option"
  mounting :: "MountingArray option"

definition HISTORY_LIMIT :: nat where
  "HISTORY_LIMIT = 100"

record DraftDimension =
  draft_axis :: DimensionAxis
  draft_value :: string

record ViewportState =
  scale :: jsnum
  offsetX :: jsnum
  offsetY :: jsnum

datatype SpecClipboard = ClipModule IntentNode | ClipBay NodeFields

record LastMutation =
  specId :: string
  margs :: "(string \<times> string) list"

record CanvasState =
  annotations :: "json list"
  previewDiff :: "json option"
  inputs :: CanvasDesignInputs
  draftDimension :: "DraftDimension option"
  selection :: string
  past :: "CanvasDesignInputs list"
  future :: "CanvasDesignInputs list"
  viewport :: ViewportState
  snapEnabled :: bool
  specClipboard :: "SpecClipboard option"
  recentGlass :: "string list"
  favoriteGlass :: "string list"
  lastMutation :: "LastMutation option"
  next_ref :: nat

definition G1_TREE :: IntentNode where
  "G1_TREE = Node ((new_node ''g1'' BAY)\<lparr>opening_type := Val O_FIXED, glass_thickness_mm := Val ''4.00'',
     glass_spec := Val ''4 Float Incoloro''\<rparr>) None"

definition initialInputs :: "nat \<Rightarrow> CanvasDesignInputs" where
  "initialInputs r = \<lparr>i_ref = r, systemId = None, nominalWidthMm = ''1000.00'', nominalHeightMm = ''1000.00'',
     color = ''WHITE'', parametricTree = G1_TREE, product = None, mounting = None\<rparr>"

definition INITIAL_VIEWPORT :: ViewportState where
  "INITIAL_VIEWPORT = \<lparr>scale = Fin 1, offsetX = Fin 0, offsetY = Fin 0\<rparr>"

text \<open>The stored favourites: a storage or parse failure is \<open>Inl\<close>, an absent entry the empty array.\<close>

definition loadFavoriteGlass :: "json result \<Rightarrow> string list" where
  "loadFavoriteGlass stored =
     (case stored of Inr (JArr xs) \<Rightarrow> take 8 (List.map_filter (\<lambda>x. case x of JStr s \<Rightarrow> Some s | _ \<Rightarrow> None) xs) | _ \<Rightarrow> [])"

definition persistFavoriteGlass :: "string list \<Rightarrow> string" where
  "persistFavoriteGlass favorites = stringify (JArr (map JStr favorites))"

section \<open>Selection\<close>

definition selectionResolves :: "CanvasDesignInputs \<Rightarrow> string \<Rightarrow> bool result" where
  "selectionResolves inp i =
     (let composite = CHR ''/'' \<in> set i;
          moduleId = (if composite then takeWhile (\<lambda>c. c \<noteq> CHR ''/'') i else []);
          bayId = (if composite then tl (dropWhile (\<lambda>c. c \<noteq> CHR ''/'') i) else i)
      in case product inp of
           Some p \<Rightarrow>
             if list_ex (\<lambda>m. m_id m = i) (modules p) then Inr True
             else if list_ex (\<lambda>c. c_id c = i) (couplings p) then Inr True
             else some_result (\<lambda>m. if moduleId = [] \<or> m_id m = moduleId
                 then map_sum id (list_ex (\<lambda>n. nid n = bayId)) (walkIntent (tree m)) else Inr False) (modules p)
         | None \<Rightarrow> if moduleId = [] then map_sum id (list_ex (\<lambda>b. nid b = i)) (intentBays (parametricTree inp))
                   else Inr False)"

definition first_selection :: "CanvasDesignInputs \<Rightarrow> string result" where
  "first_selection inp =
     (case product inp of
        Some p \<Rightarrow> Inr (case modules p of m # _ \<Rightarrow> m_id m | [] \<Rightarrow> [])
      | None \<Rightarrow> map_sum id (\<lambda>bs. case bs of b # _ \<Rightarrow> nid b | [] \<Rightarrow> []) (intentBays (parametricTree inp)))"

definition reconciledSelection :: "CanvasDesignInputs \<Rightarrow> string \<Rightarrow> string result" where
  "reconciledSelection inp current =
     result_bind (if current = [] then Inr False else selectionResolves inp current)
       (\<lambda>b. if b then Inr current else first_selection inp)"

section \<open>Survey evidence\<close>

definition kept_evidence :: "ProductJson \<Rightarrow> MountingArray \<Rightarrow> CanvasDesignInputs \<Rightarrow> MountingEvidence \<Rightarrow> MountingEvidence option" where
  "kept_evidence p arr before item =
     (if map_option ma_ref (mounting before) \<noteq> Some (ma_ref arr) then None
      else case (Option.bind (product before) (\<lambda>q. find (\<lambda>m. Some (m_id m) = module_id (survey item)) (modules q)),
                 find (\<lambda>m. Some (m_id m) = module_id (survey item)) (modules p)) of
             (Some previous, Some current) \<Rightarrow>
               reconcileIndependentExtras item (coalesce (extras (dat (tree previous))) []) (coalesce (extras (dat (tree current))) [])
           | _ \<Rightarrow> None)"

text \<open>\<open>None\<close> from \<^const>\<open>kept_evidence\<close> is the same evidence object; the result's second part is the next
  free reference.\<close>

definition reconciledMounting :: "CanvasDesignInputs \<Rightarrow> CanvasDesignInputs \<Rightarrow> nat \<Rightarrow> CanvasDesignInputs \<times> nat" where
  "reconciledMounting inp before free =
     (case (mounting inp, product inp) of
        (Some arr, Some p) \<Rightarrow>
          (if ma_items arr = [] then (inp, free)
           else let
             kept = filter (\<lambda>item. (case module_id (survey item) of None \<Rightarrow> [] | Some i \<Rightarrow> i) \<in> set (module_ids p)) (ma_items arr);
             changed = map (kept_evidence p arr before) kept
           in if length kept = length (ma_items arr) \<and> list_all (\<lambda>c. c = None) changed then (inp, free)
              else (inp\<lparr>i_ref := free, mounting := Some \<lparr>ma_ref = free + 1,
                 ma_items = map2 (\<lambda>item c. case c of None \<Rightarrow> item | Some e \<Rightarrow> e) kept changed\<rparr>\<rparr>, free + 2))
      | _ \<Rightarrow> (inp, free))"

section \<open>Operations\<close>

text \<open>\<open>xs.slice(-n)\<close>.\<close>

definition last_n :: "nat \<Rightarrow> 'a list \<Rightarrow> 'a list" where
  "last_n n xs = drop (length xs - n) xs"

definition pushed :: "CanvasState \<Rightarrow> CanvasDesignInputs list" where
  "pushed st = last_n (HISTORY_LIMIT - 1) (past st) @ [inputs st]"

definition setAnnotations :: "json list \<Rightarrow> CanvasState \<Rightarrow> CanvasState" where
  "setAnnotations as st = st\<lparr>annotations := as, previewDiff := None\<rparr>"

definition setPreviewDiff :: "json option \<Rightarrow> CanvasState \<Rightarrow> CanvasState" where
  "setPreviewDiff d st = st\<lparr>previewDiff := d\<rparr>"

definition selectBay :: "string \<Rightarrow> CanvasState \<Rightarrow> CanvasState result" where
  "selectBay i st =
     (if (case product (inputs st) of Some p \<Rightarrow> list_ex (\<lambda>m. m_id m = i) (modules p) | None \<Rightarrow> False)
      then Inr (st\<lparr>selection := i\<rparr>)
      else result_bind (intentBays (parametricTree (inputs st))) (\<lambda>bs.
        Inr (if list_ex (\<lambda>b. nid b = i) bs then st\<lparr>selection := i\<rparr> else st)))"

definition select :: "string option \<Rightarrow> CanvasState \<Rightarrow> CanvasState result" where
  "select i st =
     (case i of None \<Rightarrow> Inr (st\<lparr>selection := []\<rparr>)
      | Some i \<Rightarrow> result_bind (selectionResolves (inputs st) i) (\<lambda>b. Inr (if b then st\<lparr>selection := i\<rparr> else st)))"

definition loadDesign :: "CanvasDesignInputs \<Rightarrow> CanvasState \<Rightarrow> CanvasState result" where
  "loadDesign inp st =
     result_bind (first_selection inp) (\<lambda>s.
       Inr (st\<lparr>inputs := inp, selection := s, annotations := [], previewDiff := None, draftDimension := None,
         viewport := INITIAL_VIEWPORT, past := [], future := []\<rparr>))"

definition acceptIntent :: "CanvasDesignInputs \<Rightarrow> CanvasDesignInputs \<Rightarrow> string \<Rightarrow> CanvasState \<Rightarrow> (CanvasState \<times> bool) result" where
  "acceptIntent expected next' sel st =
     (if i_ref (inputs st) \<noteq> i_ref expected then Inr (st, False)
      else result_bind (intentBays (parametricTree next')) (\<lambda>bs.
        if \<not> list_ex (\<lambda>b. nid b = sel) bs then Inr (st, False)
        else Inr (st\<lparr>inputs := next', selection := sel, draftDimension := None, previewDiff := None,
               past := pushed st, future := []\<rparr>, True)))"

definition commitInputs :: "CanvasDesignInputs \<Rightarrow> CanvasState \<Rightarrow> CanvasState" where
  "commitInputs next' st =
     (let (inp, free) = reconciledMounting next' (inputs st) (next_ref st)
      in st\<lparr>inputs := inp, past := pushed st, future := [], draftDimension := None, previewDiff := None, next_ref := free\<rparr>)"

definition replaceInputs :: "CanvasDesignInputs \<Rightarrow> CanvasState \<Rightarrow> CanvasState" where
  "replaceInputs next' st =
     (let (inp, free) = reconciledMounting next' (inputs st) (next_ref st)
      in st\<lparr>inputs := inp, draftDimension := None, previewDiff := None, next_ref := free\<rparr>)"

definition undo :: "CanvasState \<Rightarrow> CanvasState result" where
  "undo st =
     (case last_opt (past st) of None \<Rightarrow> Inr st
      | Some previous \<Rightarrow> result_bind (reconciledSelection previous (selection st)) (\<lambda>s.
          Inr (st\<lparr>inputs := previous, selection := s, past := butlast (past st), future := future st @ [inputs st],
            draftDimension := None\<rparr>)))"

definition redo :: "CanvasState \<Rightarrow> CanvasState result" where
  "redo st =
     (case last_opt (future st) of None \<Rightarrow> Inr st
      | Some next' \<Rightarrow> result_bind (reconciledSelection next' (selection st)) (\<lambda>s.
          Inr (st\<lparr>inputs := next', selection := s, past := past st @ [inputs st], future := butlast (future st),
            draftDimension := None\<rparr>)))"

definition setSpecClipboard :: "SpecClipboard option \<Rightarrow> CanvasState \<Rightarrow> CanvasState" where
  "setSpecClipboard c st = st\<lparr>specClipboard := c\<rparr>"

definition pushRecentGlass :: "string \<Rightarrow> CanvasState \<Rightarrow> CanvasState" where
  "pushRecentGlass sku st = st\<lparr>recentGlass := take 3 (sku # filter (\<lambda>x. x \<noteq> sku) (recentGlass st))\<rparr>"

text \<open>The state and the text written to the browser's storage.\<close>

definition toggleFavoriteGlass :: "string \<Rightarrow> CanvasState \<Rightarrow> CanvasState \<times> string" where
  "toggleFavoriteGlass sku st =
     (let favorites = (if sku \<in> set (favoriteGlass st) then filter (\<lambda>x. x \<noteq> sku) (favoriteGlass st)
                       else last_n 8 (favoriteGlass st @ [sku]))
      in (st\<lparr>favoriteGlass := favorites\<rparr>, persistFavoriteGlass favorites))"

definition recordMutation :: "string \<Rightarrow> (string \<times> string) list \<Rightarrow> CanvasState \<Rightarrow> CanvasState" where
  "recordMutation s as st = st\<lparr>lastMutation := Some \<lparr>specId = s, margs = as\<rparr>\<rparr>"

definition setSystemId :: "string \<Rightarrow> CanvasState \<Rightarrow> CanvasState" where
  "setSystemId s st =
     (let inp = inputs st
      in if systemId inp = Some s
         then st\<lparr>inputs := inp\<lparr>i_ref := next_ref st, systemId := Some s\<rparr>, next_ref := next_ref st + 1\<rparr>
         else st\<lparr>inputs := inp\<lparr>i_ref := next_ref st, systemId := Some s,
                mounting := Some \<lparr>ma_ref = next_ref st + 1, ma_items = []\<rparr>\<rparr>, next_ref := next_ref st + 2\<rparr>)"

definition setDraftDimension :: "DraftDimension option \<Rightarrow> CanvasState \<Rightarrow> CanvasState" where
  "setDraftDimension d st = st\<lparr>draftDimension := d\<rparr>"

definition acceptDimension :: "DimensionAxis \<Rightarrow> string \<Rightarrow> CanvasState \<Rightarrow> CanvasState" where
  "acceptDimension axis value st =
     (let inp = (inputs st)\<lparr>i_ref := next_ref st\<rparr>
      in st\<lparr>inputs := (if axis = Width then inp\<lparr>nominalWidthMm := value\<rparr> else inp\<lparr>nominalHeightMm := value\<rparr>),
            past := pushed st, future := [], draftDimension := None, next_ref := next_ref st + 1\<rparr>)"

definition setViewport :: "ViewportState \<Rightarrow> CanvasState \<Rightarrow> CanvasState" where
  "setViewport v st = st\<lparr>viewport := v\<rparr>"

definition toggleSnap :: "CanvasState \<Rightarrow> CanvasState" where
  "toggleSnap st = st\<lparr>snapEnabled := \<not> snapEnabled st\<rparr>"

definition reset :: "CanvasState \<Rightarrow> CanvasState" where
  "reset st = st\<lparr>annotations := [], previewDiff := None, inputs := initialInputs (next_ref st), draftDimension := None,
     selection := ''g1'', viewport := INITIAL_VIEWPORT, snapEnabled := True, specClipboard := None, recentGlass := [],
     lastMutation := None, past := [], future := [], next_ref := next_ref st + 1\<rparr>"

text \<open>The store as it is created.\<close>

definition initial_state :: "json result \<Rightarrow> CanvasState" where
  "initial_state stored = \<lparr>annotations = [], previewDiff = None, inputs = initialInputs 0, draftDimension = None,
     selection = ''g1'', past = [], future = [], viewport = INITIAL_VIEWPORT, snapEnabled = True, specClipboard = None,
     recentGlass = [], favoriteGlass = loadFavoriteGlass stored, lastMutation = None, next_ref = 1\<rparr>"

end
