(* ===== verification/StoreProps.thy ===== *)
theory StoreProps
  imports CanvasStore
begin

text \<open>
  The editor's history as an abstract timeline and the operations as events on it, the bounds every
  reachable state keeps, where the selection points after a step through history, and which survey
  evidence a commit keeps.
\<close>

section \<open>Runs of the store\<close>

datatype CanvasAction =
    SetAnnotations "json list" | SetPreviewDiff "json option" | SelectBay string | Select "string option"
  | LoadDesign CanvasDesignInputs | AcceptIntent CanvasDesignInputs CanvasDesignInputs string
  | CommitInputs CanvasDesignInputs | ReplaceInputs CanvasDesignInputs | Undo | Redo
  | SetSpecClipboard "SpecClipboard option" | PushRecentGlass string | ToggleFavoriteGlass string
  | RecordMutation string "(string \<times> string) list" | SetSystemId string | SetDraftDimension "DraftDimension option"
  | AcceptDimension DimensionAxis string | SetViewport ViewportState | ToggleSnap | Reset

fun canvas_step :: "CanvasAction \<Rightarrow> CanvasState \<Rightarrow> CanvasState result" where
  "canvas_step (SetAnnotations as) st = Inr (setAnnotations as st)"
| "canvas_step (SetPreviewDiff d) st = Inr (setPreviewDiff d st)"
| "canvas_step (SelectBay i) st = selectBay i st"
| "canvas_step (Select i) st = select i st"
| "canvas_step (LoadDesign inp) st = loadDesign inp st"
| "canvas_step (AcceptIntent e n s) st = map_sum id fst (acceptIntent e n s st)"
| "canvas_step (CommitInputs n) st = Inr (commitInputs n st)"
| "canvas_step (ReplaceInputs n) st = Inr (replaceInputs n st)"
| "canvas_step Undo st = undo st"
| "canvas_step Redo st = redo st"
| "canvas_step (SetSpecClipboard c) st = Inr (setSpecClipboard c st)"
| "canvas_step (PushRecentGlass s) st = Inr (pushRecentGlass s st)"
| "canvas_step (ToggleFavoriteGlass s) st = Inr (fst (toggleFavoriteGlass s st))"
| "canvas_step (RecordMutation s as) st = Inr (recordMutation s as st)"
| "canvas_step (SetSystemId s) st = Inr (setSystemId s st)"
| "canvas_step (SetDraftDimension d) st = Inr (setDraftDimension d st)"
| "canvas_step (AcceptDimension a v) st = Inr (acceptDimension a v st)"
| "canvas_step (SetViewport v) st = Inr (setViewport v st)"
| "canvas_step ToggleSnap st = Inr (toggleSnap st)"
| "canvas_step Reset st = Inr (reset st)"

inductive canvas_reachable :: "CanvasState \<Rightarrow> bool" where
  created: "canvas_reachable (initial_state stored)"
| acted: "canvas_reachable st \<Longrightarrow> canvas_step a st = Inr st' \<Longrightarrow> canvas_reachable st'"

section \<open>The timeline\<close>

text \<open>The designs of the session in order, and the position of the one shown.\<close>

definition timeline :: "CanvasState \<Rightarrow> CanvasDesignInputs list \<times> nat" where
  "timeline st = (past st @ [inputs st] @ rev (future st), length (past st))"

datatype history_event = Stay | Back | Forward | Record CanvasDesignInputs | Overwrite CanvasDesignInputs | Restart CanvasDesignInputs

fun timeline_step :: "history_event \<Rightarrow> CanvasDesignInputs list \<times> nat \<Rightarrow> CanvasDesignInputs list \<times> nat" where
  "timeline_step Stay (xs, k) = (xs, k)"
| "timeline_step Back (xs, k) = (xs, k - 1)"
| "timeline_step Forward (xs, k) = (xs, min (k + 1) (length xs - 1))"
| "timeline_step (Record x) (xs, k) = (let ys = last_n (HISTORY_LIMIT + 1) (take (k + 1) xs @ [x]) in (ys, length ys - 1))"
| "timeline_step (Overwrite x) (xs, k) = (xs[k := x], k)"
| "timeline_step (Restart x) (xs, k) = ([x], 0)"

text \<open>The event of an operation, from the inputs it shows afterwards.\<close>

definition event_of :: "CanvasAction \<Rightarrow> CanvasState \<Rightarrow> CanvasDesignInputs \<Rightarrow> history_event" where
  "event_of a st after =
     (case a of
        Undo \<Rightarrow> Back | Redo \<Rightarrow> Forward
      | CommitInputs n \<Rightarrow> Record (fst (reconciledMounting n (inputs st) (next_ref st)))
      | AcceptDimension axis v \<Rightarrow> Record after
      | AcceptIntent e n s \<Rightarrow> (case acceptIntent e n s st of Inr (_, True) \<Rightarrow> Record n | _ \<Rightarrow> Stay)
      | ReplaceInputs n \<Rightarrow> Overwrite (fst (reconciledMounting n (inputs st) (next_ref st)))
      | SetSystemId s \<Rightarrow> Overwrite after
      | LoadDesign inp \<Rightarrow> Restart inp | Reset \<Rightarrow> Restart (initialInputs (next_ref st))
      | _ \<Rightarrow> Stay)"

lemmas store_defs = setAnnotations_def setPreviewDiff_def selectBay_def select_def loadDesign_def acceptIntent_def
  commitInputs_def replaceInputs_def undo_def redo_def setSpecClipboard_def pushRecentGlass_def toggleFavoriteGlass_def
  recordMutation_def setSystemId_def setDraftDimension_def acceptDimension_def setViewport_def toggleSnap_def reset_def

lemma map_sum_Inr: "map_sum id f r = Inr y \<longleftrightarrow> (\<exists>x. r = Inr x \<and> y = f x)"
  by (cases r) auto

lemma last_n_append: "last_n (Suc n) (xs @ [x]) = last_n n xs @ [x]"
  by (auto simp: last_n_def Suc_diff_le)

lemma record_timeline:
  assumes "past st' = pushed st" "future st' = []" "inputs st' = x"
  shows "timeline st' = timeline_step (Record x) (timeline st)"
proof -
  have "take (length (past st) + 1) (past st @ [inputs st] @ rev (future st)) = past st @ [inputs st]" by simp
  moreover have "last_n (HISTORY_LIMIT + 1) ((past st @ [inputs st]) @ [x]) = pushed st @ [x]"
    using last_n_append [of HISTORY_LIMIT "past st @ [inputs st]" x] last_n_append [of "HISTORY_LIMIT - 1" "past st" "inputs st"]
    by (simp add: pushed_def HISTORY_LIMIT_def)
  ultimately show ?thesis by (simp add: timeline_def assms Let_def)
qed

lemma undo_timeline:
  assumes "undo st = Inr st'"
  shows "timeline st' = timeline_step Back (timeline st)"
proof (cases "past st" rule: rev_cases)
  case Nil
  then show ?thesis using assms by (simp add: undo_def last_opt_def timeline_def)
next
  case (snoc xs x)
  then show ?thesis using assms by (auto simp: undo_def last_opt_def timeline_def result_bind_Inr)
qed

lemma redo_timeline:
  assumes "redo st = Inr st'"
  shows "timeline st' = timeline_step Forward (timeline st)"
proof (cases "future st" rule: rev_cases)
  case Nil
  then show ?thesis using assms by (simp add: redo_def last_opt_def timeline_def)
next
  case (snoc xs x)
  then show ?thesis using assms by (auto simp: redo_def last_opt_def timeline_def result_bind_Inr)
qed

lemma stay_timeline:
  assumes "past st' = past st" "future st' = future st" "inputs st' = inputs st"
  shows "timeline st' = timeline_step Stay (timeline st)"
  using assms by (simp add: timeline_def)

lemma overwrite_timeline:
  assumes "past st' = past st" "future st' = future st" "inputs st' = x"
  shows "timeline st' = timeline_step (Overwrite x) (timeline st)"
  using assms by (simp add: timeline_def list_update_append)

lemma restart_timeline:
  assumes "past st' = []" "future st' = []" "inputs st' = x"
  shows "timeline st' = timeline_step (Restart x) (timeline st)"
  using assms by (cases "timeline st") (simp add: timeline_def)

text \<open>
  C6. The editor's history refines a timeline: seen as the list of the session's designs and the
  position of the one shown, undo and redo only move the position by one (staying at the ends), a
  committed edit drops the designs after the position, appends the new one and keeps at most the last
  101, a normalising replacement rewrites the design shown, loading and reset start a new timeline, and
  every other operation leaves it alone.
\<close>
theorem history_refines_timeline:
  assumes "canvas_step a st = Inr st'"
  shows "timeline st' = timeline_step (event_of a st (inputs st')) (timeline st)"
proof (cases a)
  case Undo then show ?thesis using assms undo_timeline by (simp add: event_of_def)
next
  case Redo then show ?thesis using assms redo_timeline by (simp add: event_of_def)
next
  case (CommitInputs n)
  then show ?thesis using assms
    by (auto simp: event_of_def commitInputs_def Let_def intro!: record_timeline split: prod.splits)
next
  case (AcceptDimension ax v)
  then show ?thesis using assms by (auto simp: event_of_def acceptDimension_def Let_def intro!: record_timeline)
next
  case (AcceptIntent e n s)
  show ?thesis
  proof (cases "acceptIntent e n s st")
    case (Inr r)
    then show ?thesis using assms AcceptIntent
      by (auto simp: event_of_def acceptIntent_def result_bind_Inr intro!: record_timeline stay_timeline split: if_splits)
  qed (use assms AcceptIntent in simp)
next
  case (ReplaceInputs n)
  then show ?thesis using assms
    by (auto simp: event_of_def replaceInputs_def Let_def intro!: overwrite_timeline split: prod.splits)
next
  case (SetSystemId s)
  then show ?thesis using assms by (auto simp: event_of_def setSystemId_def Let_def intro!: overwrite_timeline)
next
  case (LoadDesign inp)
  then show ?thesis using assms by (auto simp: event_of_def loadDesign_def result_bind_Inr intro!: restart_timeline)
next
  case Reset
  then show ?thesis using assms by (auto simp: event_of_def reset_def intro!: restart_timeline)
qed (use assms in \<open>auto simp: event_of_def store_defs result_bind_Inr Let_def intro!: stay_timeline split: if_splits option.splits\<close>)

text \<open>A fresh store, widened once.\<close>

definition fresh_store :: CanvasState where
  "fresh_store = initial_state (Inr (JArr []))"

definition widened_store :: CanvasState where
  "widened_store = acceptDimension Width ''1200.00'' fresh_store"

lemma widened_timeline:
  "timeline widened_store = ([initialInputs 0, (initialInputs 0)\<lparr>i_ref := 1, nominalWidthMm := ''1200.00''\<rparr>], 1)"
  by (simp add: widened_store_def fresh_store_def acceptDimension_def initial_state_def timeline_def pushed_def last_n_def Let_def)

theorem history_witness:
  "\<exists>st'. canvas_step Undo widened_store = Inr st' \<and> timeline st' = timeline_step Back (timeline widened_store) \<and>
     inputs st' = initialInputs 0"
proof -
  have "\<exists>st'. undo widened_store = Inr st' \<and> inputs st' = initialInputs 0"
  proof -
    have "reconciledSelection (initialInputs 0) ''g1'' = Inr ''g1''" by code_simp
    then show ?thesis
      by (simp add: undo_def widened_store_def fresh_store_def acceptDimension_def initial_state_def pushed_def last_n_def
          last_opt_def result_bind_def Let_def)
  qed
  then obtain st' where st': "canvas_step Undo widened_store = Inr st'" "inputs st' = initialInputs 0" by auto
  from history_refines_timeline [OF st'(1)] show ?thesis using st' by (auto simp: event_of_def)
qed

section \<open>The undo contract\<close>

fun times_result :: "nat \<Rightarrow> ('s \<Rightarrow> 's result) \<Rightarrow> 's \<Rightarrow> 's result" where
  "times_result 0 f s = Inr s"
| "times_result (Suc n) f s = result_bind (f s) (times_result n f)"

text \<open>What a client of the history relies on: a position in a list of designs that the two operations
  move by one, stopping at the ends, without touching the list.\<close>

locale undo_history =
  fixes hist :: "'s \<Rightarrow> 'i list \<times> nat" and undo_op :: "'s \<Rightarrow> 's result" and redo_op :: "'s \<Rightarrow> 's result"
  assumes in_range: "snd (hist s) < length (fst (hist s))"
    and back_step: "undo_op s = Inr s' \<Longrightarrow> hist s' = (fst (hist s), snd (hist s) - 1)"
    and fwd_step: "redo_op s = Inr s' \<Longrightarrow> hist s' = (fst (hist s), min (snd (hist s) + 1) (length (fst (hist s)) - 1))"
begin

lemma backs: "times_result n undo_op s = Inr s' \<Longrightarrow> hist s' = (fst (hist s), snd (hist s) - n)"
  by (induction n arbitrary: s) (auto simp: result_bind_Inr dest!: back_step)

lemma fwds: "times_result n redo_op s = Inr s' \<Longrightarrow> hist s' = (fst (hist s), min (snd (hist s) + n) (length (fst (hist s)) - 1))"
proof (induction n arbitrary: s)
  case 0 then show ?case using in_range [of s] by (simp add: prod_eq_iff)
next
  case (Suc n)
  then show ?case by (auto simp: result_bind_Inr dest!: fwd_step)
qed

lemma back_and_forth:
  assumes "times_result n undo_op s = Inr s1" "times_result n redo_op s1 = Inr s2" "n \<le> snd (hist s)"
  shows "hist s2 = hist s"
  using backs [OF assms(1)] fwds [OF assms(2)] assms(3) in_range [of s] by (simp add: prod_eq_iff)

end

interpretation canvas: undo_history timeline undo redo
proof
  fix s s' :: CanvasState
  show "snd (timeline s) < length (fst (timeline s))" by (simp add: timeline_def)
  show "undo s = Inr s' \<Longrightarrow> timeline s' = (fst (timeline s), snd (timeline s) - 1)"
    using undo_timeline by (cases "timeline s") auto
  show "redo s = Inr s' \<Longrightarrow> timeline s' = (fst (timeline s), min (snd (timeline s) + 1) (length (fst (timeline s)) - 1))"
    using redo_timeline by (cases "timeline s") auto
qed

lemma timeline_inputs: "inputs st = fst (timeline st) ! snd (timeline st)"
  by (simp add: timeline_def nth_append)

text \<open>
  C23. Stepping back and forth through the history loses nothing: after as many undos as there are
  designs before the current one, or fewer, the same number of redos shows the same design again with
  the same past and the same future.
\<close>
theorem undo_redo_roundtrip:
  assumes "times_result n undo st = Inr s1" "times_result n redo s1 = Inr s2" "n \<le> length (past st)"
  shows "inputs s2 = inputs st \<and> past s2 = past st \<and> future s2 = future st"
proof -
  have t: "timeline s2 = timeline st"
    using canvas.back_and_forth [OF assms(1,2)] assms(3) by (simp add: timeline_def)
  then have "past s2 = past st" "inputs s2 = inputs st" "rev (future s2) = rev (future st)"
    by (auto simp: timeline_def append_eq_append_conv)
  then show ?thesis by simp
qed

theorem undo_redo_witness:
  "\<exists>s1 s2. times_result 1 undo widened_store = Inr s1 \<and> times_result 1 redo s1 = Inr s2 \<and> inputs s2 = inputs widened_store \<and>
     inputs s1 \<noteq> inputs s2"
proof -
  have r: "reconciledSelection (initialInputs 0) ''g1'' = Inr ''g1''"
    "reconciledSelection ((initialInputs 0)\<lparr>i_ref := 1, nominalWidthMm := ''1200.00''\<rparr>) ''g1'' = Inr ''g1''" by code_simp+
  obtain s1 where s1: "times_result 1 undo widened_store = Inr s1" "inputs s1 = initialInputs 0" "selection s1 = ''g1''"
    "future s1 = [(initialInputs 0)\<lparr>i_ref := 1, nominalWidthMm := ''1200.00''\<rparr>]"
    using r by (simp add: undo_def widened_store_def fresh_store_def acceptDimension_def initial_state_def pushed_def last_n_def
        last_opt_def result_bind_def Let_def)
  obtain s2 where s2: "times_result 1 redo s1 = Inr s2" using r s1 by (simp add: redo_def last_opt_def result_bind_def)
  have "1 \<le> length (past widened_store)" using widened_timeline by (simp add: timeline_def)
  from undo_redo_roundtrip [OF s1(1) s2 this] have i: "inputs s2 = inputs widened_store" by simp
  have "inputs widened_store = (initialInputs 0)\<lparr>i_ref := 1, nominalWidthMm := ''1200.00''\<rparr>"
    using widened_timeline timeline_inputs [of widened_store] by simp
  then have "inputs s1 \<noteq> inputs s2" using i s1(2) by (simp add: initialInputs_def)
  then show ?thesis using s1 s2 i by blast
qed

section \<open>Bounds\<close>

definition store_bounds :: "CanvasState \<Rightarrow> bool" where
  "store_bounds st \<longleftrightarrow> length (past st) + length (future st) \<le> HISTORY_LIMIT \<and>
     length (recentGlass st) \<le> 3 \<and> distinct (recentGlass st) \<and> length (favoriteGlass st) \<le> 8"

lemma pushed_length: "length (pushed st) \<le> HISTORY_LIMIT"
  by (simp add: pushed_def last_n_def HISTORY_LIMIT_def)

lemma loaded_favorites: "length (loadFavoriteGlass stored) \<le> 8"
  by (auto simp: loadFavoriteGlass_def split: sum.splits json.splits)

lemma step_bounds:
  assumes "store_bounds st" "canvas_step a st = Inr st'"
  shows "store_bounds st'"
proof (cases a)
  case Undo
  then show ?thesis using assms
    by (cases "past st" rule: rev_cases) (auto simp: undo_def last_opt_def result_bind_Inr store_bounds_def)
next
  case Redo
  then show ?thesis using assms
    by (cases "future st" rule: rev_cases) (auto simp: redo_def last_opt_def result_bind_Inr store_bounds_def)
next
  case (ToggleFavoriteGlass s)
  have "length (filter P (favoriteGlass st)) \<le> 8" for P
    using assms(1) length_filter_le [of P "favoriteGlass st"] unfolding store_bounds_def by linarith
  then show ?thesis using ToggleFavoriteGlass assms by (auto simp: store_bounds_def toggleFavoriteGlass_def last_n_def Let_def)
next
  case (PushRecentGlass s)
  have "s \<notin> set (take 2 (filter (\<lambda>x. x \<noteq> s) (recentGlass st)))" using set_take_subset by force
  then show ?thesis using PushRecentGlass assms by (auto simp: store_bounds_def pushRecentGlass_def)
qed (use assms pushed_length [of st] in \<open>auto simp: store_bounds_def store_defs result_bind_Inr map_sum_Inr Let_def split: if_splits option.splits prod.splits\<close>)

text \<open>
  C24. In every state the store can reach from its creation, whatever sequence of its operations runs:
  past and future together hold at most 100 designs, the recently used glasses are at most three and
  distinct, and the favourites at most eight.
\<close>
theorem reachable_store_bounds:
  assumes "canvas_reachable st"
  shows "length (past st) + length (future st) \<le> HISTORY_LIMIT \<and> length (recentGlass st) \<le> 3 \<and>
    distinct (recentGlass st) \<and> length (favoriteGlass st) \<le> 8"
proof -
  have "store_bounds st" using assms
  proof induction
    case (created stored)
    then show ?case using loaded_favorites by (simp add: store_bounds_def initial_state_def)
  qed (rule step_bounds)
  then show ?thesis by (simp add: store_bounds_def)
qed

theorem reachable_store_witness:
  "canvas_reachable widened_store \<and> length (past widened_store) + length (future widened_store) \<le> HISTORY_LIMIT \<and>
     length (past widened_store) = 1"
proof -
  have "canvas_reachable fresh_store" unfolding fresh_store_def by (rule created)
  then have r: "canvas_reachable widened_store" by (rule acted [of _ "AcceptDimension Width ''1200.00''"]) (simp add: widened_store_def)
  from reachable_store_bounds [OF r] r show ?thesis using widened_timeline by (simp add: timeline_def)
qed

section \<open>The selection after a step through history\<close>

definition first_object :: "CanvasDesignInputs \<Rightarrow> bool" where
  "first_object inp = (case product inp of Some p \<Rightarrow> modules p \<noteq> [] | None \<Rightarrow> filter (\<lambda>n. ntype n = BAY) (preorder (parametricTree inp)) \<noteq> [])"

lemma intentBays_Inr: "intentBays t = Inr bs \<longleftrightarrow> wf_ids t \<and> bs = filter (\<lambda>n. ntype n = BAY) (preorder t)"
  by (auto simp: intentBays_def walkIntent_eq)

lemma first_selection_resolves:
  assumes "first_selection inp = Inr s" "first_object inp"
    and "product inp = None \<Longrightarrow> CHR ''/'' \<notin> set s"
  shows "selectionResolves inp s = Inr True"
proof (cases "product inp")
  case (Some p)
  then obtain m ms where "modules p = m # ms" "s = m_id m"
    using assms(1,2) by (cases "modules p") (auto simp: first_selection_def first_object_def)
  then show ?thesis using Some by (simp add: selectionResolves_def Let_def)
next
  case None
  then obtain bs where bs: "intentBays (parametricTree inp) = Inr bs" "s = (case bs of b # _ \<Rightarrow> nid b | [] \<Rightarrow> [])"
    using assms(1) by (cases "intentBays (parametricTree inp)") (auto simp: first_selection_def)
  then have "bs \<noteq> []" using assms(2) None by (auto simp: first_object_def intentBays_Inr)
  then obtain b cs where "bs = b # cs" by (cases bs) auto
  then show ?thesis using bs None assms(3) by (simp add: selectionResolves_def Let_def)
qed

lemma reconciled_resolves:
  assumes "reconciledSelection inp cur = Inr s" "first_object inp"
    and "product inp = None \<Longrightarrow> CHR ''/'' \<notin> set s"
  shows "selectionResolves inp s = Inr True \<and> (selectionResolves inp cur = Inr True \<and> cur \<noteq> [] \<longrightarrow> s = cur)"
  using assms first_selection_resolves [OF _ assms(2), of s]
  by (auto simp: reconciledSelection_def result_bind_Inr split: if_splits)

text \<open>
  C25. After an undo or a redo the inspector points at an object of the design shown: when the restored
  design has a module, or as a classic unit a bay (whose name has no slash), the selection resolves
  against it, and a selection that already did is kept.
\<close>
theorem history_selection_resolves:
  assumes "undo st = Inr st' \<and> past st \<noteq> [] \<or> redo st = Inr st' \<and> future st \<noteq> []"
    and "first_object (inputs st')"
    and "product (inputs st') = None \<Longrightarrow> CHR ''/'' \<notin> set (selection st')"
  shows "selectionResolves (inputs st') (selection st') = Inr True \<and>
    (selection st \<noteq> [] \<and> selectionResolves (inputs st') (selection st) = Inr True \<longrightarrow> selection st' = selection st)"
proof -
  have "reconciledSelection (inputs st') (selection st) = Inr (selection st')"
    using assms(1) by (auto simp: undo_def redo_def last_opt_def result_bind_Inr)
  from reconciled_resolves [OF this assms(2,3)] show ?thesis by blast
qed

theorem history_selection_witness:
  "\<exists>st'. undo widened_store = Inr st' \<and> selectionResolves (inputs st') (selection st') = Inr True"
proof -
  have r: "reconciledSelection (initialInputs 0) ''g1'' = Inr ''g1''" by code_simp
  have ne: "past widened_store \<noteq> []" using widened_timeline by (auto simp: timeline_def)
  obtain st' where st': "undo widened_store = Inr st'" "inputs st' = initialInputs 0" "selection st' = ''g1''"
    using r by (simp add: undo_def widened_store_def fresh_store_def acceptDimension_def initial_state_def pushed_def last_n_def
        last_opt_def result_bind_def Let_def)
  have "first_object (initialInputs 0)" by code_simp
  then have "selectionResolves (inputs st') (selection st') = Inr True"
    using history_selection_resolves [of widened_store st'] st' ne by simp
  then show ?thesis using st'(1) by blast
qed

section \<open>Evidence kept by a commit\<close>

abbreviation target :: "MountingEvidence \<Rightarrow> string" where
  "target e \<equiv> (case module_id (survey e) of None \<Rightarrow> [] | Some i \<Rightarrow> i)"

lemma kept_evidence_survey:
  assumes "kept_evidence p arr before item = Some e"
  shows "\<exists>xs. e = item\<lparr>survey := (survey item)\<lparr>independent_extras := Val xs\<rparr>\<rparr>"
  using assms
  by (auto simp: kept_evidence_def reconcileIndependentExtras_def Let_def split: if_splits option.splits prod.splits)

lemma reconciledMounting_spec:
  assumes "product inp = Some p" "mounting inp = Some arr" "reconciledMounting inp before free = (inp', free')"
  shows "\<exists>arr'. inp' = inp\<lparr>i_ref := i_ref inp', mounting := Some arr'\<rparr> \<and>
    ma_items arr' = map (\<lambda>e. case kept_evidence p arr before e of None \<Rightarrow> e | Some e' \<Rightarrow> e') (filter (\<lambda>e. target e \<in> set (module_ids p)) (ma_items arr))"
proof -
  let ?kept = "filter (\<lambda>e. target e \<in> set (module_ids p)) (ma_items arr)"
  have z: "map2 (\<lambda>item c. case c of None \<Rightarrow> item | Some e \<Rightarrow> e) xs (map f xs) = map (\<lambda>e. case f e of None \<Rightarrow> e | Some e' \<Rightarrow> e') xs" for f xs
    by (induction xs) auto
  have same: "length ?kept = length (ma_items arr) \<Longrightarrow> ?kept = ma_items arr"
    by (metis filter_True length_filter_less not_less_iff_gr_or_eq)
  have none: "list_all (\<lambda>c. c = None) (map f xs) \<Longrightarrow> map (\<lambda>e. case f e of None \<Rightarrow> e | Some e' \<Rightarrow> e') xs = xs" for f :: "MountingEvidence \<Rightarrow> MountingEvidence option" and xs
    by (auto simp: list_all_iff intro!: map_idI)
  show ?thesis
  proof (cases "ma_items arr = [] \<or> length ?kept = length (ma_items arr) \<and> list_all (\<lambda>c. c = None) (map (kept_evidence p arr before) ?kept)")
    case True
    then have "inp' = inp" using assms by (auto simp: reconciledMounting_def Let_def split: if_splits)
    moreover have "map (\<lambda>e. case kept_evidence p arr before e of None \<Rightarrow> e | Some e' \<Rightarrow> e') ?kept = ma_items arr"
      using True same none [of "kept_evidence p arr before" ?kept] by (cases "ma_items arr = []") simp_all
    ultimately show ?thesis using assms(2) by (intro exI [of _ arr]) simp
  next
    case False
    then have "inp' = inp\<lparr>i_ref := free, mounting := Some \<lparr>ma_ref = free + 1, ma_items =
        map2 (\<lambda>item c. case c of None \<Rightarrow> item | Some e \<Rightarrow> e) ?kept (map (kept_evidence p arr before) ?kept)\<rparr>\<rparr>"
      using assms by (auto simp: reconciledMounting_def Let_def split: if_splits)
    then show ?thesis unfolding z by (intro exI [of _ "\<lparr>ma_ref = free + 1, ma_items =
        map (\<lambda>e. case kept_evidence p arr before e of None \<Rightarrow> e | Some e' \<Rightarrow> e') ?kept\<rparr>"]) simp
  qed
qed

text \<open>
  C26. Committing (or normalising) a product never leaves survey evidence of a module that is gone: the
  evidence afterwards is, in order, exactly the evidence of the new design whose module exists, each
  unchanged except that its list of independent extras may have been reconciled, and the rest of the
  design is the one committed.
\<close>
theorem commit_keeps_live_evidence:
  assumes "st' = commitInputs n st \<or> st' = replaceInputs n st" "product n = Some p" "mounting n = Some arr"
  shows "\<exists>arr'. mounting (inputs st') = Some arr' \<and>
    inputs st' = n\<lparr>i_ref := i_ref (inputs st'), mounting := Some arr'\<rparr> \<and>
    (\<forall>e \<in> set (ma_items arr'). target e \<in> set (module_ids p)) \<and>
    list_all2 (\<lambda>e e'. e' = e \<or> (\<exists>xs. e' = e\<lparr>survey := (survey e)\<lparr>independent_extras := Val xs\<rparr>\<rparr>))
      (filter (\<lambda>e. target e \<in> set (module_ids p)) (ma_items arr)) (ma_items arr')"
proof -
  obtain inp' free' where r: "reconciledMounting n (inputs st) (next_ref st) = (inp', free')" by fastforce
  have i: "inputs st' = inp'" using assms(1) r by (auto simp: commitInputs_def replaceInputs_def)
  obtain arr' where a: "inp' = n\<lparr>i_ref := i_ref inp', mounting := Some arr'\<rparr>"
    "ma_items arr' = map (\<lambda>e. case kept_evidence p arr (inputs st) e of None \<Rightarrow> e | Some e' \<Rightarrow> e') (filter (\<lambda>e. target e \<in> set (module_ids p)) (ma_items arr))"
    using reconciledMounting_spec [OF assms(2,3) r] by blast
  have ev: "e' = e \<or> (\<exists>xs. e' = e\<lparr>survey := (survey e)\<lparr>independent_extras := Val xs\<rparr>\<rparr>)"
    if "e' = (case kept_evidence p arr (inputs st) e of None \<Rightarrow> e | Some e' \<Rightarrow> e')" for e e'
    using that kept_evidence_survey [of p arr "inputs st" e] by (cases "kept_evidence p arr (inputs st) e") auto
  have "mounting inp' = Some arr'" using a(1) by (metis CanvasDesignInputs.select_convs(8) CanvasDesignInputs.surjective CanvasDesignInputs.update_convs(8))
  moreover have "list_all2 (\<lambda>e e'. e' = e \<or> (\<exists>xs. e' = e\<lparr>survey := (survey e)\<lparr>independent_extras := Val xs\<rparr>\<rparr>))
      (filter (\<lambda>e. target e \<in> set (module_ids p)) (ma_items arr)) (ma_items arr')"
    unfolding a(2) using ev by (simp add: list_all2_map2 list_all2_same)
  moreover have "\<forall>e \<in> set (ma_items arr'). target e \<in> set (module_ids p)"
    unfolding a(2) using ev by (auto split: option.splits dest!: kept_evidence_survey)
  ultimately show ?thesis using a(1) i by auto
qed

definition sample_axis :: AxisDerivation where
  "sample_axis = (let a = \<lparr>clearance_mm = ''5'', al_frame_mm = ''0'', extension_mm = ''0'', overlap_mm = ''0''\<rparr>
     in \<lparr>opening_mm = ''1010'', spread_mm = ''0'', ax_first = a, ax_second = a, first_adjustment_mm = ''-5'',
         second_adjustment_mm = ''-5'', derived_mm = ''1000'', fabrication_mm = ''1000'', deviation_mm = ''0''\<rparr>)"

definition sample_evidence :: "string \<Rightarrow> MountingEvidence" where
  "sample_evidence i = (let a = ax_first sample_axis
     in \<lparr>survey = \<lparr>module_id = Some i, rule_code = ''R1'', rule_revision = 1, widths_mm = [''1010''], heights_mm = [''1010''],
            wall = MASONRY, squareness_mm = None, plumb_mm = None, origin = SITE, override = None, independent_extras = Undef\<rparr>,
         rule = \<lparr>mr_code = ''R1'', mr_name = ''In opening'', mr_kind = IN_OPENING, mr_source = ''shop'', mr_synthetic = False,
            tolerance_mm = ''5'', mr_left = a, mr_right = a, mr_top = a, mr_bottom = a, mr_extras = []\<rparr>,
         me_result = \<lparr>mres_width = sample_axis, mres_height = sample_axis, warnings = []\<rparr>\<rparr>)"

definition sample_inputs :: CanvasDesignInputs where
  "sample_inputs = (initialInputs 7)\<lparr>product := Some \<lparr>modules = [\<lparr>m_id = ''m1'', m_width_mm = ''1000'', m_height_mm = ''1000'',
       tree = G1_TREE, contour = None, frameless = None\<rparr>], couplings = []\<rparr>,
     mounting := Some \<lparr>ma_ref = 8, ma_items = [sample_evidence ''m1'', sample_evidence ''m9'']\<rparr>\<rparr>"

theorem commit_evidence_witness:
  "\<exists>arr'. mounting (inputs (commitInputs sample_inputs fresh_store)) = Some arr' \<and> map target (ma_items arr') = [''m1'']"
proof -
  obtain p arr where n: "product sample_inputs = Some p" "mounting sample_inputs = Some arr" "module_ids p = [''m1'']"
    "ma_items arr = [sample_evidence ''m1'', sample_evidence ''m9'']" by (simp add: sample_inputs_def)
  have t: "target (sample_evidence i) = i" for i by (simp add: sample_evidence_def Let_def)
  obtain arr' where a: "mounting (inputs (commitInputs sample_inputs fresh_store)) = Some arr'"
    "\<forall>e \<in> set (ma_items arr'). target e \<in> set (module_ids p)"
    "list_all2 (\<lambda>e e'. e' = e \<or> (\<exists>xs. e' = e\<lparr>survey := (survey e)\<lparr>independent_extras := Val xs\<rparr>\<rparr>))
      (filter (\<lambda>e. target e \<in> set (module_ids p)) (ma_items arr)) (ma_items arr')"
    using commit_keeps_live_evidence [OF _ n(1,2), of "commitInputs sample_inputs fresh_store" fresh_store] by auto
  have "filter (\<lambda>e. target e \<in> set (module_ids p)) (ma_items arr) = [sample_evidence ''m1'']" by (simp add: n t)
  then have "length (ma_items arr') = 1" using a(3) by (auto dest: list_all2_lengthD)
  then obtain e where "ma_items arr' = [e]" by (cases "ma_items arr'") auto
  then show ?thesis using a(1,2) n(3) by auto
qed

section \<open>The designs of a session\<close>

definition designs :: "CanvasState \<Rightarrow> CanvasDesignInputs set" where
  "designs st = set (past st) \<union> {inputs st} \<union> set (future st)"

lemma last_n_subset: "set (last_n n xs) \<subseteq> set xs"
  by (simp add: last_n_def set_drop_subset)

lemma pushed_subset: "set (pushed st) \<subseteq> designs st"
  using last_n_subset by (force simp: pushed_def designs_def)

text \<open>An operation shows a design of the session or one new one, and forgets or keeps the others.\<close>

lemma step_designs:
  assumes "canvas_step a st = Inr st'"
  shows "designs st' \<subseteq> insert (inputs st') (designs st)"
proof (cases a)
  case Undo
  then show ?thesis using assms
    by (cases "past st" rule: rev_cases) (auto simp: undo_def last_opt_def result_bind_Inr designs_def)
next
  case Redo
  then show ?thesis using assms
    by (cases "future st" rule: rev_cases) (auto simp: redo_def last_opt_def result_bind_Inr designs_def)
qed (use assms pushed_subset [of st] in \<open>auto simp: designs_def store_defs result_bind_Inr map_sum_Inr Let_def split: if_splits option.splits prod.splits\<close>)

lemma history_design:
  "undo st = Inr st' \<Longrightarrow> inputs st' \<in> designs st" "redo st = Inr st' \<Longrightarrow> inputs st' \<in> designs st"
  by (auto simp: undo_def redo_def last_opt_def result_bind_Inr designs_def split: if_splits)

end
