(* ===== verification/DecimalProps.thy ===== *)
theory DecimalProps
  imports Decimals
begin

text \<open>
  What the decimal routines promise: quantisation is exact half-up rounding of the value, printing a
  fraction loses nothing when forty places are enough, a printed amount reads back, and the check
  digit of the national identity number catches every single wrong digit.
\<close>

section \<open>Quantisation\<close>

definition decimal_rat :: "DecimalValue \<Rightarrow> rat" where
  "decimal_rat v = of_int (numerator v) / of_int (denominator v)"

lemma digit_le_9: "is_digit c \<Longrightarrow> digit_val c \<le> 9"
  using is_digit_val [of c] by simp

lemma split_point_dec_text:
  assumes "list_all is_digit w" "\<forall>x. f = Some x \<longrightarrow> list_all is_digit x"
  shows "split_point (dec_text w f) = (w, case f of None \<Rightarrow> [] | Some x \<Rightarrow> x)"
proof -
  have w: "\<forall>c \<in> set w. c \<noteq> CHR ''.''" using assms(1) by (auto simp: list_all_iff)
  then have "takeWhile (\<lambda>c. c \<noteq> CHR ''.'') (dec_text w f) = w"
    "dropWhile (\<lambda>c. c \<noteq> CHR ''.'') (dec_text w f) = (case f of None \<Rightarrow> [] | Some x \<Rightarrow> CHR ''.'' # x)"
    by (cases f; simp add: dec_text_def takeWhile_append dropWhile_append)+
  moreover have "f = Some x \<Longrightarrow> takeWhile (\<lambda>c. c \<noteq> CHR ''.'') x = x" for x
    using assms(2) by (auto simp: list_all_iff takeWhile_eq_all_conv)
  ultimately show ?thesis by (cases f) (simp_all add: split_point_def del: dropWhile_eq_Nil_conv)
qed

text \<open>A text the canonical pattern accepts, taken apart.\<close>

lemma canonical_textE:
  assumes "canonical_text value = Some t"
  obtains w f where "w \<noteq> []" "list_all is_digit w" "\<forall>x. f = Some x \<longrightarrow> list_all is_digit x"
    "(if starts_minus t then tl t else t) = dec_text w f"
    "t = (if starts_minus t then ''-'' else []) @ dec_text w f"
proof -
  obtain s sg w f where s: "re_decimal (trim s) = Some (sg, w, f)" and t: "t = (if sg = Some CHR ''+'' then tl (trim s) else trim s)"
    using assms by (auto simp: canonical_text_def Let_def split: option.splits if_splits)
  note r = re_decimal_Some [OF s]
  obtain c u where c: "w = c # u" "is_digit c" using r(2,3) by (cases w) auto
  have nm: "\<not> starts_minus (dec_text w f)" using c by (auto simp: starts_minus_def dec_text_def digit_not_special)
  have "t = (if sg = Some CHR ''-'' then ''-'' else []) @ dec_text w f" using r(1,5) t by (cases sg) auto
  then have "(if starts_minus t then tl t else t) = dec_text w f \<and> t = (if starts_minus t then ''-'' else []) @ dec_text w f"
    using nm by (auto simp: starts_minus_def)
  then show ?thesis using that r(2-4) by blast
qed

lemma parse_signed_dec_text:
  assumes "w \<noteq> []" "list_all is_digit w" "\<forall>x. f = Some x \<longrightarrow> list_all is_digit x"
  shows "parseDecimalP ((if neg then ''-'' else []) @ dec_text w f) =
    (let fr = (case f of None \<Rightarrow> [] | Some x \<Rightarrow> x)
     in Some \<lparr>numerator = (if neg then - 1 else 1) * digits_val (w @ fr), denominator = 10 ^ length fr\<rparr>)"
proof -
  let ?t = "(if neg then ''-'' else []) @ dec_text w f"
  have "hd ?t \<in> {CHR ''-''} \<union> set w" using assms(1) by (cases w) (simp_all add: dec_text_def)
  then have h: "\<not> is_space (hd ?t)" using assms(2) digit_not_space by (auto simp: list_all_iff)
  have "last ?t \<in> {CHR ''.''} \<union> set w \<union> set (case f of None \<Rightarrow> [] | Some x \<Rightarrow> x)"
    using assms(1) by (cases f) (auto simp: dec_text_def)
  then have l: "\<not> is_space (last ?t)"
    using assms(2,3) digit_not_space by (auto simp: list_all_iff split: option.splits)
  have "trim ?t = ?t" using h l assms(1) by (intro trim_no_space) (auto simp: dec_text_def)
  then show ?thesis
    using re_decimal_dec_text [OF assms] by (simp add: parseDecimalP_def digits_val_append Let_def)
qed

lemma floor_half: "0 < (k :: int) \<Longrightarrow> 0 \<le> r \<Longrightarrow> r < k \<Longrightarrow>
  \<lfloor>of_int u + of_int r / of_int k + 1 / 2 :: rat\<rfloor> = (if k \<le> 2 * r then u + 1 else u)"
  by (rule floor_unique) (auto simp: field_simps)

lemma half_digit:
  assumes "0 \<le> l" "l < (p :: int)"
  shows "10 * p \<le> 2 * (d * p + l) \<longleftrightarrow> 5 \<le> d"
  unfolding distrib_left
proof
  assume "5 \<le> d"
  then have "5 * p \<le> d * p" using assms by (intro mult_right_mono) auto
  then show "10 * p \<le> 2 * (d * p) + 2 * l" using assms by linarith
next
  assume a: "10 * p \<le> 2 * (d * p) + 2 * l"
  show "5 \<le> d"
  proof (rule ccontr)
    assume "\<not> 5 \<le> d"
    then have "d * p \<le> 4 * p" using assms by (intro mult_right_mono) auto
    then show False using a assms by linarith
  qed
qed

text \<open>The kept digits and the one that decides, against the half-up rounding of the scaled value.\<close>

lemma kept_units:
  assumes "\<forall>c \<in> set f. is_digit c"
  shows "digits_val (w @ padEnd d CHR ''0'' (take d f)) + (case nth_opt f d of None \<Rightarrow> 0 | Some c \<Rightarrow> if 5 \<le> digit_val c then 1 else 0)
    = \<lfloor>of_int (digits_val (w @ f)) / 10 ^ length f * 10 ^ d + 1 / 2 :: rat\<rfloor>"
proof (cases "length f \<le> d")
  case True
  then have "(10 :: rat) ^ d = 10 ^ (d - length f) * 10 ^ length f" by (simp flip: power_add)
  then have "of_int (digits_val (w @ f)) / 10 ^ length f * 10 ^ d = (of_int (digits_val (w @ f) * 10 ^ (d - length f)) :: rat)" by simp
  moreover have "digits_val (w @ padEnd d CHR ''0'' (take d f)) = digits_val (w @ f) * 10 ^ (d - length f)"
    using True by (simp add: padEnd_def digits_val_append flip: append_assoc)
  moreover have "\<lfloor>of_int n + 1 / 2 :: rat\<rfloor> = n" for n by (rule floor_unique) simp_all
  ultimately show ?thesis using True by (simp add: nth_opt_def del: of_int_mult)
next
  case False
  define c where "c = f ! d"
  define g where "g = drop (Suc d) f"
  have f: "f = take d f @ c # g" and c: "is_digit c" using False assms by (simp_all add: c_def g_def id_take_nth_drop [symmetric])
  define u where "u = digits_val (w @ take d f)"
  define k :: int where "k = 10 ^ Suc (length g)"
  have gb: "digits_val g < 10 ^ length g" "0 \<le> digits_val g"
    using digits_val_bound [of g] assms digits_val_nonneg by (auto simp: g_def dest: in_set_dropD)
  have r: "digits_val (c # g) = int (digit_val c) * 10 ^ length g + digits_val g"
    using digits_val_append [of "[c]" g] digits_val_snoc [of "[]" c] by simp
  have b: "digits_val (c # g) < k" "0 \<le> digits_val (c # g)"
    using digits_val_bound [of "c # g"] c assms digits_val_nonneg by (auto simp: k_def g_def dest: in_set_dropD)
  have len: "length f = d + Suc (length g)" using False by (simp add: g_def)
  have "of_int (digits_val (w @ f)) / 10 ^ length f * 10 ^ d = (of_int u + of_int (digits_val (c # g)) / of_int k :: rat)"
    unfolding len by (subst f) (simp add: u_def k_def digits_val_append flip: append_assoc, simp add: field_simps power_add)
  moreover have "k \<le> 2 * digits_val (c # g) \<longleftrightarrow> 5 \<le> digit_val c"
    using half_digit [OF gb(2,1), of "int (digit_val c)"] by (simp add: k_def r)
  moreover have "0 < k" by (simp add: k_def)
  ultimately show ?thesis
    using floor_half [of k "digits_val (c # g)" u] b False by (simp add: nth_opt_def padEnd_def u_def c_def)
qed

lemma fixed_str_pad:
  assumes "0 \<le> n"
  shows "(let s = padStart (d + 1) CHR ''0'' (dec_str n)
    in if d = 0 then s else take (length s - d) s @ ''.'' @ drop (length s - d) s) = fixed_str d n"
proof (cases "d = 0")
  case True
  have "1 \<le> length (dec_str n)" using dec_str_nonempty [of n] by (cases "dec_str n") auto
  then show ?thesis using True by (simp add: fixed_str_def padStart_def)
qed (simp add: pad_fixed_str [OF assms])

lemma quantize_canonical:
  assumes "canonical_text value = Some t" "0 \<le> digits" "digits \<le> 12"
  shows "\<exists>v. parseDecimalP t = Some v \<and> 0 < denominator v \<and>
    (let x = decimal_rat v; n = \<lfloor>\<bar>x\<bar> * 10 ^ nat digits + 1 / 2\<rfloor>
     in quantize value digits = Inr (Some ((if x < 0 \<and> n \<noteq> 0 then ''-'' else []) @ fixed_str (nat digits) n)))"
proof -
  obtain w f where w: "w \<noteq> []" "list_all is_digit w" "\<forall>x. f = Some x \<longrightarrow> list_all is_digit x"
    and u: "(if starts_minus t then tl t else t) = dec_text w f"
    and t: "t = (if starts_minus t then ''-'' else []) @ dec_text w f"
    using canonical_textE [OF assms(1)] by blast
  define fr where "fr = (case f of None \<Rightarrow> [] | Some x \<Rightarrow> x)"
  define v where "v = \<lparr>numerator = (if starts_minus t then - 1 else 1) * digits_val (w @ fr), denominator = 10 ^ length fr\<rparr>"
  define n where "n = \<lfloor>of_int (digits_val (w @ fr)) / 10 ^ length fr * 10 ^ nat digits + 1 / 2 :: rat\<rfloor>"
  have v: "parseDecimalP t = Some v" using parse_signed_dec_text [OF w, of "starts_minus t"] t by (simp add: v_def fr_def Let_def)
  have fr: "\<forall>c \<in> set fr. is_digit c" using w(3) by (auto simp: fr_def list_all_iff split: option.splits)
  have x: "\<bar>decimal_rat v\<bar> = of_int (digits_val (w @ fr)) / 10 ^ length fr"
    using digits_val_nonneg [of "w @ fr"] by (simp add: decimal_rat_def v_def)
  have n0: "0 \<le> n" unfolding n_def using digits_val_nonneg [of "w @ fr"] by (simp add: floor_mono [of 0, simplified])
  have neg: "starts_minus t \<and> n \<noteq> 0 \<longleftrightarrow> decimal_rat v < 0 \<and> n \<noteq> 0"
  proof (cases "digits_val (w @ fr) = 0")
    case True
    moreover have "\<lfloor>1 / 2 :: rat\<rfloor> = 0" by (rule floor_unique) simp_all
    ultimately show ?thesis by (simp add: n_def decimal_rat_def v_def)
  next
    case False
    then have "0 < digits_val (w @ fr)" using digits_val_nonneg [of "w @ fr"] by simp
    then show ?thesis by (simp add: decimal_rat_def v_def zero_less_divide_iff divide_less_0_iff)
  qed
  have sp: "split_point (if starts_minus t then tl t else t) = (w, fr)"
    using split_point_dec_text [OF w(2,3)] u by (simp add: fr_def)
  have ku: "(if (case nth_opt fr d of None \<Rightarrow> False | Some c \<Rightarrow> 5 \<le> digit_val c)
      then digits_val (w @ padEnd d CHR ''0'' (take d fr)) + 1 else digits_val (w @ padEnd d CHR ''0'' (take d fr)))
    = \<lfloor>of_int (digits_val (w @ fr)) / 10 ^ length fr * 10 ^ d + 1 / 2 :: rat\<rfloor>" for d
    using kept_units [OF fr, of w d] by (cases "nth_opt fr d") auto
  have "quantize value digits = Inr (Some ((if starts_minus t \<and> n \<noteq> 0 then ''-'' else []) @ fixed_str (nat digits) n))"
    using assms(2,3) fixed_str_pad [OF n0, of "nat digits"]
    unfolding quantize_def Let_def assms(1) option.case sp prod.case ku n_def [symmetric] by simp
  then have "quantize value digits = Inr (Some ((if decimal_rat v < 0 \<and> n \<noteq> 0 then ''-'' else []) @ fixed_str (nat digits) n))"
    using neg by simp
  moreover have "0 < denominator v" by (simp add: v_def)
  ultimately show ?thesis using v x by (simp add: Let_def n_def)
qed

text \<open>
  C11. Quantisation rounds half away from zero, exactly: a text of an engine decimal with value
  \<open>x\<close> gives the decimal with the requested number of places whose magnitude is the integer part of
  \<open>|x|\<close> scaled plus one half, with a minus sign only on a non-zero result. A missing or malformed
  value gives nothing, and a precision outside 0 to 12 throws.
\<close>
theorem quantize_spec:
  "(digits < 0 \<or> 12 < digits \<longrightarrow> (\<exists>m. quantize value digits = Inl (RangeError m))) \<and>
   (0 \<le> digits \<and> digits \<le> 12 \<longrightarrow>
     (case canonical_text value of
        None \<Rightarrow> quantize value digits = Inr None
      | Some t \<Rightarrow> \<exists>v. parseDecimalP t = Some v \<and> 0 < denominator v \<and>
          (let x = decimal_rat v; n = \<lfloor>\<bar>x\<bar> * 10 ^ nat digits + 1 / 2\<rfloor>
           in quantize value digits = Inr (Some ((if x < 0 \<and> n \<noteq> 0 then ''-'' else []) @ fixed_str (nat digits) n)))))"
proof (intro conjI impI)
  assume "digits < 0 \<or> 12 < digits"
  then show "\<exists>m. quantize value digits = Inl (RangeError m)" by (auto simp: quantize_def)
next
  assume d: "0 \<le> digits \<and> digits \<le> 12"
  show "case canonical_text value of None \<Rightarrow> quantize value digits = Inr None
    | Some t \<Rightarrow> \<exists>v. parseDecimalP t = Some v \<and> 0 < denominator v \<and>
          (let x = decimal_rat v; n = \<lfloor>\<bar>x\<bar> * 10 ^ nat digits + 1 / 2\<rfloor>
           in quantize value digits = Inr (Some ((if x < 0 \<and> n \<noteq> 0 then ''-'' else []) @ fixed_str (nat digits) n)))"
  proof (cases "canonical_text value")
    case None
    then show ?thesis using d by (simp add: quantize_def Let_def)
  next
    case (Some t)
    then show ?thesis using quantize_canonical [OF Some] d by simp
  qed
qed

theorem quantize_witness: "\<exists>m. quantize (Some ''-2.675'') 2 = Inr (Some m) \<and> quantize (Some ''-2.675'') 2 = Inr (Some ''-2.68'')"
proof -
  have c: "canonical_text (Some ''-2.675'') = Some ''-2.675''" by code_simp
  have "\<exists>m. quantize (Some ''-2.675'') 2 = Inr (Some m)"
    using quantize_spec [of 2 "Some ''-2.675''"] by (auto simp: c Let_def)
  moreover have "quantize (Some ''-2.675'') 2 = Inr (Some ''-2.68'')" by code_simp
  ultimately show ?thesis by simp
qed

section \<open>The check digit\<close>

text \<open>The weighted sum, as a sum over the positions counted from the last digit.\<close>

definition rut_weight :: "nat \<Rightarrow> nat" where
  "rut_weight i = 2 + i mod 6"

lemma rut_sum_weights: "rut_sum ds (rut_weight k) s = s + (\<Sum>i<length ds. digit_val (ds ! i) * rut_weight (k + i))"
proof (induction ds arbitrary: k s)
  case (Cons c cs)
  have "(if rut_weight k = 7 then 2 else rut_weight k + 1) = rut_weight (Suc k)"
    by (auto simp: rut_weight_def mod_Suc)
  moreover have "(\<Sum>i<length (c # cs). digit_val ((c # cs) ! i) * rut_weight (k + i))
    = digit_val c * rut_weight k + (\<Sum>i<length cs. digit_val (cs ! i) * rut_weight (Suc k + i))"
    by (simp add: sum.lessThan_Suc_shift del: sum.lessThan_Suc)
  ultimately show ?case using Cons.IH [of "Suc k"] by simp
qed simp

lemma rut_sum_change:
  assumes "i < length ds" "ds' = ds[i := c]"
  shows "int (rut_sum ds' 2 0) - int (rut_sum ds 2 0) = (int (digit_val c) - int (digit_val (ds ! i))) * int (rut_weight i)"
proof -
  have two: "2 = rut_weight 0" by (simp add: rut_weight_def)
  have split: "(\<Sum>j<length ds. g j) = g i + (\<Sum>j \<in> {..<length ds} - {i}. g j)" for g :: "nat \<Rightarrow> nat"
    using assms(1) by (intro sum.remove) auto
  have rest: "(\<Sum>j \<in> {..<length ds} - {i}. digit_val (ds' ! j) * rut_weight j) = (\<Sum>j \<in> {..<length ds} - {i}. digit_val (ds ! j) * rut_weight j)"
    using assms(2) by (intro sum.cong) auto
  have "rut_sum ds' 2 0 = (\<Sum>j<length ds. digit_val (ds' ! j) * rut_weight j)"
    "rut_sum ds 2 0 = (\<Sum>j<length ds. digit_val (ds ! j) * rut_weight j)"
    unfolding two rut_sum_weights using assms(2) by simp_all
  then show ?thesis
    using split [of "\<lambda>j. digit_val (ds' ! j) * rut_weight j"] split [of "\<lambda>j. digit_val (ds ! j) * rut_weight j"] rest assms
    by (simp add: algebra_simps)
qed

text \<open>The eleven check characters, in the order of the remainders, are distinct.\<close>

definition rut_chars :: string where
  "rut_chars = ''0K987654321''"

lemma rut_expected_nth: "rut_expected body = [rut_chars ! (rut_sum (rev body) 2 0 mod 11)]"
proof -
  have "\<forall>m \<in> set [0..<11]. (let r = 11 - m in if r = 11 then ''0'' else if r = 10 then ''K'' else nat_str r) = [rut_chars ! m]"
    by code_simp
  moreover have "rut_sum (rev body) 2 0 mod 11 \<in> set [0..<11]" by simp
  ultimately show ?thesis unfolding rut_expected_def Let_def by (rule bspec)
qed

lemma rut_chars_distinct: "distinct rut_chars" "length rut_chars = 11" "list_all (\<lambda>c. is_digit c \<or> c = CHR ''K'') rut_chars"
  by code_simp+

lemma rut_clean_plain: "list_all is_digit body \<Longrightarrow> is_digit d \<or> d = CHR ''K'' \<Longrightarrow> rut_clean (body @ [d]) = body @ [d]"
proof -
  have dig: "upper_k c = c" "c \<noteq> CHR ''.''" "c \<noteq> CHR ''-''" "\<not> is_space c" if "is_digit c" for c
    using that digit_not_space digit_not_special by (auto simp: upper_k_def is_digit_def digit_chars_def)
  have "upper_k CHR ''K'' = CHR ''K''" "\<not> is_space CHR ''K''" by (simp_all add: upper_k_def is_space_def)
  moreover assume "list_all is_digit body" "is_digit d \<or> d = CHR ''K''"
  ultimately show ?thesis using dig by (induction body) (auto simp: rut_clean_def)
qed

lemma isValidRut_plain:
  assumes "list_all is_digit body" "1 \<le> length body" "length body \<le> 8" "is_digit d \<or> d = CHR ''K''"
  shows "isValidRut (body @ [d]) \<longleftrightarrow> d = rut_chars ! (rut_sum (rev body) 2 0 mod 11)"
  using assms rut_clean_plain [OF assms(1,4)] by (simp add: isValidRut_def Let_def rut_expected_nth)

text \<open>A wrong digit moves the sum by a non-zero number that eleven does not divide.\<close>

lemma rut_change_mod:
  assumes "i < length ds" "is_digit c" "is_digit (ds ! i)" "c \<noteq> ds ! i"
  shows "rut_sum (ds[i := c]) 2 0 mod 11 \<noteq> rut_sum ds 2 0 mod 11"
proof
  assume eq: "rut_sum (ds[i := c]) 2 0 mod 11 = rut_sum ds 2 0 mod 11"
  define e where "e = int (digit_val c) - int (digit_val (ds ! i))"
  have "digit_val c \<noteq> digit_val (ds ! i)" using assms(2-4) is_digit_val by metis
  then have e: "e \<noteq> 0" "- 9 \<le> e" "e \<le> 9" using digit_le_9 [OF assms(2)] digit_le_9 [OF assms(3)] by (auto simp: e_def)
  have "int (rut_sum (ds[i := c]) 2 0) mod 11 = int (rut_sum ds 2 0) mod 11"
    using eq by (metis of_nat_mod of_nat_numeral)
  then have "11 dvd e * int (rut_weight i)"
    using rut_sum_change [OF assms(1), of "ds[i := c]" c] by (simp add: e_def mod_eq_dvd_iff)
  moreover have "int (rut_weight i) \<in> set [2..7]" using mod_less_divisor [of 6 i] by (simp add: rut_weight_def) linarith
  moreover have "e \<in> set [- 9..9]" unfolding set_upto using e by simp
  moreover have "\<forall>a \<in> set [- 9..9]. \<forall>w \<in> set [2..7]. 11 dvd a * w \<longrightarrow> a = (0 :: int)" by code_simp
  ultimately show False using e(1) by blast
qed

text \<open>
  C29. The check digit of a national identity number: every body of one to eight digits has exactly one
  check character among the digits and K, and a number with one digit of its body changed to another
  digit is refused whenever the original was accepted. Points, hyphens and white space are ignored, a
  small k counts as K, and an empty entry is accepted.
\<close>
theorem isValidRut_spec:
  assumes "list_all is_digit body" "1 \<le> length body" "length body \<le> 8"
  shows "(\<exists>!d. (is_digit d \<or> d = CHR ''K'') \<and> isValidRut (body @ [d])) \<and>
    (\<forall>d i c. isValidRut (body @ [d]) \<and> (is_digit d \<or> d = CHR ''K'') \<and> i < length body \<and> is_digit c \<and> c \<noteq> body ! i \<longrightarrow>
       \<not> isValidRut (body[i := c] @ [d])) \<and>
    (\<forall>s. isValidRut s \<longleftrightarrow> rut_clean s = [] \<or> isValidRut (rut_clean s))"
proof (intro conjI allI impI)
  let ?d = "rut_chars ! (rut_sum (rev body) 2 0 mod 11)"
  have "?d \<in> set rut_chars" using rut_chars_distinct(2) by (intro nth_mem) simp
  then have "is_digit ?d \<or> ?d = CHR ''K''" using rut_chars_distinct(3) by (auto simp: list_all_iff)
  then have "(is_digit d \<or> d = CHR ''K'') \<and> isValidRut (body @ [d]) \<longleftrightarrow> d = ?d" for d
    using isValidRut_plain [OF assms, of d] by auto
  then show "\<exists>!d. (is_digit d \<or> d = CHR ''K'') \<and> isValidRut (body @ [d])" by simp
next
  fix d i c assume a: "isValidRut (body @ [d]) \<and> (is_digit d \<or> d = CHR ''K'') \<and> i < length body \<and> is_digit c \<and> c \<noteq> body ! i"
  let ?i = "length body - Suc i"
  have b: "list_all is_digit (body[i := c])" using assms(1) a set_update_subset_insert [of body i c] by (auto simp: list_all_iff)
  have rv: "rev (body[i := c]) = (rev body)[?i := c]" using a by (simp add: rev_update)
  have "i < length body" using a by simp
  then have rn: "rev body ! ?i = body ! i" "?i < length (rev body)" by (simp_all add: rev_nth)
  have "is_digit (body ! i)" using assms(1) a by (simp add: list_all_iff)
  then have "rut_sum (rev (body[i := c])) 2 0 mod 11 \<noteq> rut_sum (rev body) 2 0 mod 11"
    using rut_change_mod [of ?i "rev body" c] a rv rn by auto
  then show "\<not> isValidRut (body[i := c] @ [d])"
    using isValidRut_plain [OF assms, of d] isValidRut_plain [OF b, of d] assms a rut_chars_distinct(1,2) by (auto simp: nth_eq_iff_index_eq)
next
  fix s show "isValidRut s \<longleftrightarrow> rut_clean s = [] \<or> isValidRut (rut_clean s)"
  proof -
    have "upper_k (upper_k c) = upper_k c" for c by (simp add: upper_k_def)
    moreover have "c \<noteq> CHR ''.'' \<and> c \<noteq> CHR ''-'' \<and> \<not> is_space c \<Longrightarrow>
      upper_k c \<noteq> CHR ''.'' \<and> upper_k c \<noteq> CHR ''-'' \<and> \<not> is_space (upper_k c)" for c by (simp add: upper_k_def is_space_def)
    ultimately have "rut_clean (rut_clean s) = rut_clean s" by (induction s) (simp_all add: rut_clean_def)
    then show ?thesis by (auto simp: isValidRut_def Let_def)
  qed
qed

theorem isValidRut_witness:
  "(\<exists>!d. (is_digit d \<or> d = CHR ''K'') \<and> isValidRut (''12345678'' @ [d])) \<and> isValidRut ''12.345.678-5'' \<and>
    \<not> isValidRut ''12345078-5''"
proof -
  have "list_all is_digit ''12345678''" by code_simp
  then have "\<exists>!d. (is_digit d \<or> d = CHR ''K'') \<and> isValidRut (''12345678'' @ [d])"
    by (intro conjunct1 [OF isValidRut_spec]) simp_all
  moreover have "isValidRut ''12.345.678-5''" "\<not> isValidRut ''12345078-5''" by code_simp+
  ultimately show ?thesis by simp
qed

section \<open>Printing and reading back\<close>

text \<open>Long division of a proper fraction: the digits found, and what they are worth.\<close>

lemma big_div_pos: "0 \<le> a \<Longrightarrow> 0 < b \<Longrightarrow> big_div a b = a div b" "0 \<le> a \<Longrightarrow> 0 < b \<Longrightarrow> big_mod a b = a mod b"
  by (cases "a = 0"; simp add: big_div_def big_mod_def)+

lemma div_ten_bound:
  assumes "0 \<le> r" "r < den"
  shows "0 \<le> r * 10 div den" "r * 10 div den < (10 :: int)"
proof -
  show "0 \<le> r * 10 div den" using assms by (simp add: pos_imp_zdiv_nonneg_iff)
  have "r * 10 div den * den \<le> r * 10" using div_mult_mod_eq [of "r * 10" den] pos_mod_sign [of den "r * 10"] assms by linarith
  also have "\<dots> < 10 * den" using assms by simp
  finally show "r * 10 div den < 10" using assms by (simp add: mult_less_cancel_right)
qed

lemma long_division_digits:
  assumes "0 \<le> r" "r < den"
  shows "\<exists>es. long_division ds den r = ds @ es \<and> (\<forall>c \<in> set es. is_digit c) \<and>
    (length ds \<le> 40 \<and> den dvd r * 10 ^ (40 - length ds) \<longrightarrow> digits_val es * den = r * 10 ^ length es)"
  using assms
proof (induction ds den r rule: long_division.induct)
  case (1 ds den r)
  show ?case
  proof (cases "r \<noteq> 0 \<and> length ds < 40")
    case False
    then have "long_division ds den r = ds" by (subst long_division.simps) auto
    moreover have "length ds \<le> 40 \<and> den dvd r * 10 ^ (40 - length ds) \<longrightarrow> r = 0"
      using False "1.prems" zdvd_imp_le [of den r] by (cases "r = 0") auto
    ultimately show ?thesis by (intro exI [of _ "[]"]) simp
  next
    case True
    define q where "q = r * 10 div den"
    define m where "m = r * 10 mod den"
    have den: "0 < den" using "1.prems" by simp
    have q: "0 \<le> q" "q < 10" using div_ten_bound [OF "1.prems"] by (simp_all add: q_def)
    have m: "0 \<le> m" "m < den" "q * den + m = r * 10" using den by (simp_all add: m_def q_def)
    have step: "big_div (r * 10) den = q" "big_mod (r * 10) den = m"
      using big_div_pos [of "r * 10" den] "1.prems" den by (simp_all add: q_def m_def)
    have qs: "int_str q = [digit_char (nat q)]" using q by (simp add: int_str_def dec_str.simps)
    have qd: "is_digit (digit_char (nat q))" "digits_val [digit_char (nat q)] = q"
      using q dec_str_digits [of q] digits_val_dec_str [of q] by (simp_all add: dec_str.simps)
    obtain es where es: "long_division (ds @ int_str q) den m = (ds @ int_str q) @ es" "\<forall>c \<in> set es. is_digit c"
      and v: "length (ds @ int_str q) \<le> 40 \<and> den dvd m * 10 ^ (40 - length (ds @ int_str q)) \<longrightarrow> digits_val es * den = m * 10 ^ length es"
      using "1.IH" [OF True] m(1,2) unfolding step by blast
    have "digits_val (digit_char (nat q) # es) * den = r * 10 ^ Suc (length es)"
      if d: "den dvd r * 10 ^ (40 - length ds)"
    proof -
      obtain k where k: "40 - length ds = Suc k" "40 - Suc (length ds) = k" using True by (cases "40 - length ds") auto
      have "r * 10 ^ Suc k = q * 10 ^ k * den + m * 10 ^ k"
        using arg_cong [OF m(3), of "\<lambda>z. z * 10 ^ k"] by (simp add: algebra_simps)
      then have "den dvd m * 10 ^ k" using d k(1) by (metis dvd_add_right_iff dvd_triv_right)
      then have e: "digits_val es * den = m * 10 ^ length es" using v True qs k(2) by simp
      have "digits_val (digit_char (nat q) # es) = q * 10 ^ length es + digits_val es"
        using digits_val_append [of "[digit_char (nat q)]" es] qd(2) by simp
      then have "digits_val (digit_char (nat q) # es) * den = (q * den + m) * 10 ^ length es"
        using e by (simp add: algebra_simps)
      then show ?thesis unfolding m(3) by simp
    qed
    moreover have "long_division ds den r = ds @ digit_char (nat q) # es"
      using True es(1) qs by (subst long_division.simps) (simp add: step)
    ultimately show ?thesis using es(2) qd(1) by (intro exI [of _ "digit_char (nat q) # es"]) simp
  qed
qed

lemma strip_zeros_split: "\<exists>k. s = strip_zeros s @ replicate k CHR ''0''"
proof -
  have "rev s = takeWhile (\<lambda>c. c = CHR ''0'') (rev s) @ dropWhile (\<lambda>c. c = CHR ''0'') (rev s)" by simp
  then have "s = strip_zeros s @ rev (takeWhile (\<lambda>c. c = CHR ''0'') (rev s))"
    by (metis rev_append rev_rev_ident strip_zeros_def)
  moreover have "rev (takeWhile (\<lambda>c. c = CHR ''0'') (rev s)) = replicate (length (takeWhile (\<lambda>c. c = CHR ''0'') (rev s))) CHR ''0''"
    by (intro replicate_eqI) (auto dest: set_takeWhileD)
  ultimately show ?thesis by metis
qed

lemma strip_zeros_value:
  "of_int (digits_val (strip_zeros s)) / 10 ^ length (strip_zeros s) = (of_int (digits_val s) / 10 ^ length s :: rat)"
proof -
  obtain k where "s = strip_zeros s @ replicate k CHR ''0''" using strip_zeros_split by blast
  then have "digits_val s = digits_val (strip_zeros s) * 10 ^ k" "length s = length (strip_zeros s) + k"
    by (metis add.right_neutral digits_val_append digits_val_zeros length_replicate, metis length_append length_replicate)
  then show ?thesis by (simp add: power_add)
qed

lemma strip_zeros_digits: "\<forall>c \<in> set s. is_digit c \<Longrightarrow> \<forall>c \<in> set (strip_zeros s). is_digit c"
  by (auto simp: strip_zeros_def dest: set_dropWhileD)

lemma format_parse_exact:
  assumes "0 < denominator v" "denominator v dvd numerator v * 10 ^ 40"
  shows "\<exists>t u. formatDecimalP v = Inr t \<and> parseDecimalP t = Some u \<and> decimal_rat u = decimal_rat v"
proof -
  define neg where "neg \<longleftrightarrow> numerator v < 0"
  define mag where "mag = \<bar>numerator v\<bar>"
  define w where "w = mag div denominator v"
  define r where "r = mag mod denominator v"
  have mag: "(if neg then - numerator v else numerator v) = mag" "0 \<le> mag" by (simp_all add: neg_def mag_def)
  have w: "0 \<le> w" and r: "0 \<le> r" "r < denominator v" and wr: "w * denominator v + r = mag"
    using assms(1) mag(2) by (simp_all add: w_def r_def pos_imp_zdiv_nonneg_iff)
  have val: "decimal_rat v = (if neg then - 1 else 1) * (of_int w + of_int r / of_int (denominator v))"
  proof -
    have "(of_int w + of_int r / of_int (denominator v) :: rat) = of_int mag / of_int (denominator v)"
      unfolding wr [symmetric] using assms(1) by (simp add: field_simps)
    then show ?thesis by (simp add: decimal_rat_def mag_def neg_def)
  qed
  have dw: "list_all is_digit (dec_str w)" using dec_str_digits by (auto simp: list_all_iff)
  have fmt: "formatDecimalP v = Inr ((if neg then ''-'' else []) @ dec_text (dec_str w)
      (if r = 0 then None else Some (strip_zeros (long_division [] (denominator v) r))))"
    using assms(1) mag w big_div_pos [of mag "denominator v"] unfolding formatDecimalP_def Let_def
    by (simp add: neg_def [symmetric] w_def [symmetric] r_def [symmetric] int_str_def dec_text_def)
  show ?thesis
  proof (cases "r = 0")
    case True
    have "\<exists>u. parseDecimalP ((if neg then ''-'' else []) @ dec_text (dec_str w) None) = Some u \<and> decimal_rat u = decimal_rat v"
      using parse_signed_dec_text [of "dec_str w" None neg] dw val True w by (auto simp: decimal_rat_def)
    then show ?thesis unfolding fmt using True by simp
  next
    case False
    obtain es where es: "long_division [] (denominator v) r = es" "\<forall>c \<in> set es. is_digit c"
      and ev: "denominator v dvd r * 10 ^ 40 \<longrightarrow> digits_val es * denominator v = r * 10 ^ length es"
      using long_division_digits [OF r, of "[]"] by auto
    have "mag * 10 ^ 40 = w * 10 ^ 40 * denominator v + r * 10 ^ 40"
      unfolding wr [symmetric] by (simp only: distrib_right mult_ac)
    moreover have "denominator v dvd mag * 10 ^ 40" using assms(2) by (simp add: mag_def abs_if)
    ultimately have "denominator v dvd r * 10 ^ 40" by (metis dvd_add_right_iff dvd_triv_right)
    then have "digits_val es * denominator v = r * 10 ^ length es" using ev by simp
    then have "(of_int (digits_val es) * of_int (denominator v) :: rat) = of_int r * 10 ^ length es"
      by (metis of_int_mult of_int_numeral of_int_power)
    then have "(of_int r / of_int (denominator v) :: rat) = of_int (digits_val es) / 10 ^ length es"
      using assms(1) by (simp add: field_simps)
    then have f: "(of_int r / of_int (denominator v) :: rat) = of_int (digits_val (strip_zeros es)) / 10 ^ length (strip_zeros es)"
      by (simp add: strip_zeros_value)
    have ds: "list_all is_digit (strip_zeros es)" using strip_zeros_digits [OF es(2)] by (simp add: list_all_iff)
    have "\<exists>u. parseDecimalP ((if neg then ''-'' else []) @ dec_text (dec_str w) (Some (strip_zeros es))) = Some u \<and> decimal_rat u = decimal_rat v"
      using parse_signed_dec_text [of "dec_str w" "Some (strip_zeros es)" neg] dw ds w unfolding val f
      by (simp add: decimal_rat_def Let_def digits_val_append add_divide_distrib diff_divide_distrib)
    then show ?thesis unfolding fmt es(1) using False by simp
  qed
qed

lemma parse_den: "parseDecimalP s = Some v \<Longrightarrow> \<exists>k. denominator v = 10 ^ k"
  by (auto simp: parseDecimalP_def Let_def split: option.splits)

text \<open>
  C28. Printing a fraction loses nothing: a fraction with a positive denominator that divides forty
  decimal places is printed as a text that reads back as the same value, with its sign; in particular
  the midpoint of two decimals that were read from text is printed exactly while their places
  together are at most 39.
\<close>
theorem formatDecimalP_exact:
  "(0 < denominator v \<and> denominator v dvd numerator v * 10 ^ 40 \<longrightarrow>
      (\<exists>t u. formatDecimalP v = Inr t \<and> parseDecimalP t = Some u \<and> decimal_rat u = decimal_rat v)) \<and>
   (parseDecimalP x = Some a \<and> parseDecimalP y = Some b \<and> denominator a * denominator b \<le> 10 ^ 39 \<longrightarrow>
      (\<exists>t u. formatDecimalP (midpointDecimal a b) = Inr t \<and> parseDecimalP t = Some u \<and>
         decimal_rat u = (decimal_rat a + decimal_rat b) / 2))"
proof (intro conjI impI)
  assume "parseDecimalP x = Some a \<and> parseDecimalP y = Some b \<and> denominator a * denominator b \<le> 10 ^ 39"
  then obtain i j where d: "denominator a = 10 ^ i" "denominator b = 10 ^ j" "(10 :: int) ^ (i + j) \<le> 10 ^ 39"
    using parse_den by (metis power_add)
  let ?m = "midpointDecimal a b"
  have den: "denominator ?m = 10 ^ (i + j) * 2" by (simp add: midpointDecimal_def addDecimal_def d(1,2) power_add Let_def)
  have "i + j \<le> 39" using d(3) by (simp only: power_increasing_iff)
  then have "(10 :: int) ^ (i + j) dvd 10 ^ 39" by (rule le_imp_power_dvd)
  then have "(10 :: int) ^ (i + j) * 2 dvd 10 ^ 39 * 10" by (rule mult_dvd_mono) simp
  then have "(10 :: int) ^ (i + j) * 2 dvd 10 ^ 40" by simp
  then have "denominator ?m dvd numerator ?m * 10 ^ 40" unfolding den by (rule dvd_mult)
  moreover have "0 < denominator ?m" by (simp add: den)
  moreover have "decimal_rat ?m = (decimal_rat a + decimal_rat b) / 2"
    by (simp add: decimal_rat_def midpointDecimal_def addDecimal_def d(1,2) Let_def field_simps)
  ultimately show "\<exists>t u. formatDecimalP ?m = Inr t \<and> parseDecimalP t = Some u \<and> decimal_rat u = (decimal_rat a + decimal_rat b) / 2"
    using format_parse_exact [of ?m] by auto
qed (use format_parse_exact in blast)

theorem formatDecimalP_witness:
  "(\<exists>t u. formatDecimalP \<lparr>numerator = - 70, denominator = 200\<rparr> = Inr t \<and> parseDecimalP t = Some u \<and>
      decimal_rat u = decimal_rat \<lparr>numerator = - 70, denominator = 200\<rparr>) \<and>
   formatDecimalP \<lparr>numerator = - 70, denominator = 200\<rparr> = Inr ''-0.35''"
proof
  have "(200 :: int) dvd - 70 * 10 ^ 40" by (simp add: power_numeral_reduce)
  then show "\<exists>t u. formatDecimalP \<lparr>numerator = - 70, denominator = 200\<rparr> = Inr t \<and> parseDecimalP t = Some u \<and>
      decimal_rat u = decimal_rat \<lparr>numerator = - 70, denominator = 200\<rparr>"
    using conjunct1 [OF formatDecimalP_exact, of "\<lparr>numerator = - 70, denominator = 200\<rparr>"] by simp
  show "formatDecimalP \<lparr>numerator = - 70, denominator = 200\<rparr> = Inr ''-0.35''" by code_simp
qed

section \<open>What is shown can be typed back\<close>

lemma filter_group3: "filter P sep = [] \<Longrightarrow> filter P (group3 sep s) = filter P s"
proof (induction sep s rule: group3.induct)
  case (1 sep s)
  show ?case
  proof (cases "length s \<le> 3")
    case False
    have "filter P s = filter P (take (length s - 3) s) @ filter P (drop (length s - 3) s)"
      by (metis append_take_drop_id filter_append)
    then show ?thesis using 1 False by (subst group3.simps) (simp del: filter_append add: filter_append)
  qed (simp add: group3.simps)
qed

lemma units_back: "map char_of (units s) = s" "\<not> list_ex (\<lambda>u. 256 \<le> u) (units s)" "units (a @ b) = units a @ units b"
  by (auto simp: units_def list_ex_iff comp_def linorder_not_le intro: nat_of_char_less_256)

lemma units_Nil: "units [] = []"
  by (simp add: units_def)

lemma unit_spaces: "unit_space 0x2009" "\<not> unit_space 0x2212"
  by (simp_all add: unit_space_def)

lemma digit_not_unit_space: "\<forall>c \<in> set s. is_digit c \<or> c = CHR '','' \<Longrightarrow> filter (\<lambda>u. \<not> unit_space u) (units s) = units s"
proof (rule filter_True)
  have "\<forall>c \<in> set ('','' @ digit_chars). \<not> unit_space (of_char c)" by (simp add: unit_space_def digit_chars_def)
  moreover assume "\<forall>c \<in> set s. is_digit c \<or> c = CHR '',''"
  ultimately show "\<forall>u \<in> set (units s). \<not> unit_space u" by (auto simp: units_def is_digit_def)
qed

lemma not_grouped:
  assumes "\<forall>c \<in> set w. is_digit c" "w \<noteq> []" "r = [] \<or> hd r = CHR '',''"
  shows "\<not> is_grouped (w @ r)"
proof -
  have "drop_sign (w @ r) = w @ r" using assms(1,2) by (cases w) (auto simp: drop_sign_def digit_not_special)
  moreover have "dropWhile is_digit (w @ r) = r" using assms(1,3) by (cases r) (auto simp: dropWhile_append is_digit_def digit_chars_def)
  moreover have "\<not> dot_groups r" using assms(3) by (subst dot_groups.simps) (auto split: list.splits)
  ultimately show ?thesis by (simp add: is_grouped_def Let_def)
qed

lemma replace_first_comma: "\<forall>c \<in> set w. is_digit c \<Longrightarrow> replace_first CHR '','' CHR ''.'' (w @ CHR '','' # f) = w @ CHR ''.'' # f"
  "\<forall>c \<in> set w. is_digit c \<Longrightarrow> replace_first CHR '','' CHR ''.'' w = w"
  by (induction w) (auto simp: is_digit_def digit_chars_def)

lemma parse_typed:
  assumes "\<forall>c \<in> set w. is_digit c" "w \<noteq> []" "\<forall>c \<in> set f. is_digit c" "length f \<le> precision"
    and us: "filter (\<lambda>u. \<not> unit_space u) us = units (w @ (if f = [] then [] else '','' @ f))"
  shows "parseDecimalInput us precision =
    Some (dec_str (digits_val w) @ (if strip_zeros f = [] then [] else ''.'' @ strip_zeros f))"
proof -
  let ?r = "if f = [] then [] else '','' @ f"
  have "w @ ?r \<noteq> []" using assms(2) by simp
  then have ne: "units (w @ ?r) \<noteq> []" by (simp add: units_def)
  have ng: "\<not> is_grouped (w @ ?r)" by (rule not_grouped [OF assms(1,2)]) auto
  have rf: "replace_first CHR '','' CHR ''.'' (w @ ?r) = dec_text w (if f = [] then None else Some f)"
    using replace_first_comma [OF assms(1)] by (simp add: dec_text_def)
  have re: "re_decimal (dec_text w (if f = [] then None else Some f)) = Some (None, w, if f = [] then None else Some f)"
    using assms(1-3) by (intro re_decimal_dec_text) (auto simp: list_all_iff)
  show ?thesis
    unfolding parseDecimalInput_def us Let_def
    using ne ng assms(4) by (simp add: units_back rf re strip_zeros_def)
qed

lemma input_value_plain:
  assumes "\<forall>c \<in> set w. is_digit c" "w \<noteq> []" "\<forall>c \<in> set f. is_digit c"
  shows "decimalInputValue (Some (dec_text w (if f = [] then None else Some f))) =
    dec_str (digits_val w) @ (if strip_zeros f = [] then [] else ''.'' @ strip_zeros f)"
proof -
  let ?f = "if f = [] then None else Some f" and ?t = "dec_text w (if f = [] then None else Some f)"
  have la: "list_all is_digit w" "\<forall>x. ?f = Some x \<longrightarrow> list_all is_digit x" using assms by (auto simp: list_all_iff)
  have "hd ?t \<in> set w" "last ?t \<in> set w \<union> set f" using assms(2) by (auto simp: dec_text_def)
  then have "trim ?t = ?t" using assms digit_not_space by (intro trim_no_space) (auto simp: dec_text_def)
  moreover have sm: "\<not> starts_minus ?t" using assms(1,2) by (cases w) (auto simp: starts_minus_def dec_text_def digit_not_special)
  moreover have "?t \<noteq> []" using assms(2) by (simp add: dec_text_def)
  ultimately have "canonical_text (Some ?t) = Some ?t"
    using re_decimal_dec_text(1) [OF assms(2) la] by (simp add: canonical_text_def)
  then show ?thesis using sm split_point_dec_text [OF la] by (auto simp: decimalInputValue_def strip_zeros_def)
qed

lemma fixed_str_dec_text:
  assumes "0 \<le> n"
  obtains w f where "fixed_str d n = dec_text w (if f = [] then None else Some f)" "\<forall>c \<in> set w. is_digit c" "w \<noteq> []"
    "\<forall>c \<in> set f. is_digit c" "length f = d"
proof (cases "d = 0")
  case True
  then show ?thesis using that [of "dec_str n" "[]"] dec_str_digits by (simp add: fixed_str_def dec_text_def)
next
  case False
  let ?f = "padStart d CHR ''0'' (dec_str (n mod 10 ^ d))"
  have "length (dec_str (n mod 10 ^ d)) \<le> d" using False by (intro dec_str_length) simp_all
  then have "length ?f = d" by simp
  moreover from this have "?f \<noteq> []" using False by (metis list.size(3))
  moreover have "\<forall>c \<in> set ?f. is_digit c" by (rule padStart_digits [OF dec_str_digits])
  ultimately show ?thesis using that [of "dec_str (n div 10 ^ d)" ?f] False dec_str_digits
    by (auto simp: fixed_str_def dec_text_def)
qed

text \<open>
  An amount shown in a form can be typed back: a non-negative engine decimal displayed with thin
  spaces between thousands and a decimal comma is read by the input parser, at any precision that
  admits the places shown, as exactly the quantised value in its plain form; a negative amount is
  displayed with the typographic minus sign, which the input parser refuses.
\<close>
lemma formatDecimal_parse:
  assumes "quantize value digits = Inr (Some q)" "digits \<le> int precision"
  shows "\<exists>u. formatDecimal value digits THIN_SPACE = Inr u \<and>
    parseDecimalInput u precision = (if starts_minus q then None else Some (decimalInputValue (Some q)))"
proof -
  have dg: "0 \<le> digits" "digits \<le> 12" using assms(1) by (auto simp: quantize_def split: if_splits)
  obtain t where t: "canonical_text value = Some t"
    using assms(1) dg by (cases "canonical_text value") (auto simp: quantize_def Let_def)
  obtain neg n where q: "q = (if neg then ''-'' else []) @ fixed_str (nat digits) n" and n: "0 \<le> n"
  proof -
    obtain v where "quantize value digits = Inr (Some ((if decimal_rat v < 0 \<and> \<lfloor>\<bar>decimal_rat v\<bar> * 10 ^ nat digits + 1 / 2\<rfloor> \<noteq> 0 then ''-'' else [])
        @ fixed_str (nat digits) \<lfloor>\<bar>decimal_rat v\<bar> * 10 ^ nat digits + 1 / 2\<rfloor>))"
      using quantize_canonical [OF t dg] by (auto simp: Let_def)
    moreover have "0 \<le> \<lfloor>\<bar>decimal_rat v\<bar> * 10 ^ nat digits + 1 / 2\<rfloor>" by simp
    ultimately show ?thesis using that [of "decimal_rat v < 0 \<and> \<lfloor>\<bar>decimal_rat v\<bar> * 10 ^ nat digits + 1 / 2\<rfloor> \<noteq> 0"] assms(1) by auto
  qed
  obtain w f where f: "fixed_str (nat digits) n = dec_text w (if f = [] then None else Some f)" "\<forall>c \<in> set w. is_digit c" "w \<noteq> []"
    "\<forall>c \<in> set f. is_digit c" "length f = nat digits"
    using fixed_str_dec_text [OF n] by blast
  have "\<not> starts_minus (dec_text w (if f = [] then None else Some f))" using f(2,3) by (cases w) (auto simp: starts_minus_def dec_text_def digit_not_special)
  then have sm: "starts_minus q = neg" "(if neg then tl q else q) = dec_text w (if f = [] then None else Some f)"
    unfolding q f(1) by (simp_all add: starts_minus_def)
  have sp: "split_point (dec_text w (if f = [] then None else Some f)) = (w, f)"
    using split_point_dec_text [of w "if f = [] then None else Some f"] f by (auto simp: list_all_iff)
  let ?u = "(if neg then [0x2212] else []) @ group3 THIN_SPACE (units w) @ (if f = [] then [] else units ('','' @ f))"
  have u: "formatDecimal value digits THIN_SPACE = Inr ?u"
    unfolding formatDecimal_def assms(1) by (simp only: map_sum.simps option.case sm sp prod.case Let_def)
  have "filter (\<lambda>u. \<not> unit_space u) ?u = (if neg then [0x2212] else []) @ units (w @ (if f = [] then [] else '','' @ f))"
    using filter_group3 [of "\<lambda>u. \<not> unit_space u" THIN_SPACE "units w"] digit_not_unit_space [of w] digit_not_unit_space [of "'','' @ f"] f
    by (simp add: THIN_SPACE_def unit_spaces units_back units_Nil)
  then have "parseDecimalInput ?u precision = (if neg then None else Some (dec_str (digits_val w) @ (if strip_zeros f = [] then [] else ''.'' @ strip_zeros f)))"
    using parse_typed [OF f(2-4), of precision ?u] f(5) assms(2) by (cases neg) (simp_all add: parseDecimalInput_def Let_def)
  then show ?thesis using u sm input_value_plain [OF f(2-4)] q f(1) by simp
qed

lemma formatDecimal_witness:
  "(\<exists>u. formatDecimal (Some ''1234567.895'') 2 THIN_SPACE = Inr u \<and>
      parseDecimalInput u 2 = (if starts_minus ''1234567.90'' then None else Some (decimalInputValue (Some ''1234567.90'')))) \<and>
   decimalInputValue (Some ''1234567.90'') = ''1234567.9'' \<and>
   formatDecimal (Some ''1234567.895'') 2 THIN_SPACE = Inr (units ''1'' @ [0x2009] @ units ''234'' @ [0x2009] @ units ''567,90'')"
proof (intro conjI)
  have "quantize (Some ''1234567.895'') 2 = Inr (Some ''1234567.90'')" by code_simp
  then show "\<exists>u. formatDecimal (Some ''1234567.895'') 2 THIN_SPACE = Inr u \<and>
      parseDecimalInput u 2 = (if starts_minus ''1234567.90'' then None else Some (decimalInputValue (Some ''1234567.90'')))"
    by (rule formatDecimal_parse) simp
  show "decimalInputValue (Some ''1234567.90'') = ''1234567.9''" by code_simp
  show "formatDecimal (Some ''1234567.895'') 2 THIN_SPACE = Inr (units ''1'' @ [0x2009] @ units ''234'' @ [0x2009] @ units ''567,90'')"
    by code_simp
qed

end
