(* ===== verification/Outbox.thy ===== *)
theory Outbox
  imports Mounting "HOL-Library.Char_ord" "HOL-Library.List_Lexorder"
begin

text \<open>
  \<open>features/field/outbox.ts\<close>: the field worker's local copies and unsent commands in the browser's
  database, with the generation stamps that keep an operation begun before a sign-out from writing
  after it. The asynchronous operations are tasks that have taken their stamp and wait for the
  database, the transactions they open run one after the other in the order they were created (as
  overlapping transactions do; transactions on different stores commute), and each may abort. Command
  and workspace payloads are JSON values.
\<close>

section \<open>Data\<close>

record Scope =
  actor :: string
  org :: string

record Command =
  operation_key :: string
  payload :: json

text \<open>The beginning of an operation: the stamp it takes, and the moment it is taken, on a clock that counts the
  operations begun. The code keeps the stamp while the operation runs and has no such clock; both stay
  with the entry that the operation writes only so that the properties can speak of them.\<close>

record Birth =
  b_stamp :: string
  b_moment :: nat

record Pending =
  p_scope :: Scope
  p_key :: string
  visitId :: string
  command :: Command
  p_savedAt :: nat
  failure :: "string option"
  failureStatus :: "nat option"
  p_born :: Birth

record Workspace =
  w_role :: string
  visits :: "json list"
  incidents :: "json list"
  projects :: "json list"
  assignees :: "json list"

record Copy =
  cp_scope :: Scope
  cp_key :: string
  workspace :: Workspace
  cp_savedAt :: nat
  cp_born :: Birth

record Database =
  copies :: "(string \<times> Copy) list"
  commands :: "(string \<times> Pending) list"

definition scopeKey :: "Scope \<Rightarrow> string" where
  "scopeKey sc = actor sc @ '':'' @ org sc"

record Generations =
  actorGeneration :: "(string \<times> nat) list"
  scopeGeneration :: "(string \<times> nat) list"

definition count_of :: "(string \<times> nat) list \<Rightarrow> string \<Rightarrow> nat" where
  "count_of m k = (case map_of m k of None \<Rightarrow> 0 | Some n \<Rightarrow> n)"

definition generation :: "Generations \<Rightarrow> Scope \<Rightarrow> string" where
  "generation g sc = nat_str (count_of (actorGeneration g) (actor sc)) @ '':'' @ nat_str (count_of (scopeGeneration g) (scopeKey sc))"

section \<open>Errors\<close>

datatype FieldError = ApiFailure nat "string option" | NetworkFailure | OtherFailure string | NonError

definition detail :: "FieldError \<Rightarrow> string" where
  "detail e =
     (case e of
        ApiFailure _ d \<Rightarrow> (case d of Some s \<Rightarrow> s
          | None \<Rightarrow> ''No se autoriz'' @ [CHR 0xF3] @ '' el registro. Revisa el acceso y los datos del pendiente.'')
      | NetworkFailure \<Rightarrow> ''No lleg'' @ [CHR 0xF3] @ '' una respuesta del servidor. Conservamos el pendiente; reintenta con la misma operaci''
          @ [CHR 0xF3] @ ''n al recuperar se'' @ [CHR 0xF1] @ ''al.''
      | OtherFailure m \<Rightarrow> m
      | NonError \<Rightarrow> ''No se pudo sincronizar. Conservamos el registro pendiente.'')"

definition failure_status :: "FieldError \<Rightarrow> nat option" where
  "failure_status e = (case e of ApiFailure s _ \<Rightarrow> Some s | _ \<Rightarrow> None)"

section \<open>Transactions\<close>

text \<open>What a transaction asks of the stores; a guarded write whose stamp is out of date only reads.\<close>

datatype Tx =
    ReadOnly
  | PutCopy Copy
  | AddCommand Pending
  | DeleteCommand string
  | MarkFailed string FieldError
  | ClearActor string
  | ClearScope Scope

fun clears :: "Tx \<Rightarrow> Scope \<Rightarrow> bool" where
  "clears (ClearActor a) sc = (actor sc = a)"
| "clears (ClearScope s) sc = (actor sc = actor s \<and> org sc = org s)"
| "clears _ sc = False"

definition clearMatching :: "(Scope \<Rightarrow> bool) \<Rightarrow> Database \<Rightarrow> Database" where
  "clearMatching matches db = \<lparr>copies = filter (\<lambda>(k, c). \<not> matches (cp_scope c)) (copies db),
     commands = filter (\<lambda>(k, p). \<not> matches (p_scope p)) (commands db)\<rparr>"

definition markFailed :: "string \<Rightarrow> FieldError \<Rightarrow> Database \<Rightarrow> Database" where
  "markFailed key e db =
     (case map_of (commands db) key of
        None \<Rightarrow> db
      | Some p \<Rightarrow> db\<lparr>commands := AList.update key (p\<lparr>failure := Some (detail e), failureStatus := failure_status e\<rparr>) (commands db)\<rparr>)"

text \<open>\<open>None\<close>: the transaction aborts. Adding a key that is present aborts.\<close>

fun exec_tx :: "Tx \<Rightarrow> Database \<Rightarrow> Database option" where
  "exec_tx ReadOnly db = Some db"
| "exec_tx (PutCopy c) db = Some (db\<lparr>copies := AList.update (cp_key c) c (copies db)\<rparr>)"
| "exec_tx (AddCommand p) db =
     (if map_of (commands db) (p_key p) \<noteq> None then None else Some (db\<lparr>commands := commands db @ [(p_key p, p)]\<rparr>))"
| "exec_tx (DeleteCommand k) db = Some (db\<lparr>commands := AList.delete k (commands db)\<rparr>)"
| "exec_tx (MarkFailed k e) db = Some (markFailed k e db)"
| "exec_tx (ClearActor a) db = Some (clearMatching (clears (ClearActor a)) db)"
| "exec_tx (ClearScope s) db = Some (clearMatching (clears (ClearScope s)) db)"

section \<open>Operations\<close>

definition new_copy :: "Scope \<Rightarrow> Workspace \<Rightarrow> nat \<Rightarrow> Birth \<Rightarrow> Copy" where
  "new_copy sc w now born = \<lparr>cp_scope = sc, cp_key = scopeKey sc, workspace = w\<lparr>projects := [], assignees := []\<rparr>,
     cp_savedAt = now, cp_born = born\<rparr>"

definition saveCopy :: "Generations \<Rightarrow> Scope \<Rightarrow> Workspace \<Rightarrow> Birth \<Rightarrow> nat \<Rightarrow> Tx" where
  "saveCopy g sc w born now = (if b_stamp born \<noteq> generation g sc then ReadOnly else PutCopy (new_copy sc w now born))"

definition readCopy :: "Database \<Rightarrow> Scope \<Rightarrow> Copy option" where
  "readCopy db sc = map_of (copies db) (scopeKey sc)"

text \<open>The order of the queue: the moment saved, then the key. The comparison of texts in the browser's
  language is a parameter; \<open>getAll\<close> gives the entries by key.\<close>

definition before :: "(string \<Rightarrow> string \<Rightarrow> int) \<Rightarrow> Pending \<Rightarrow> Pending \<Rightarrow> bool" where
  "before localeCompare a b \<longleftrightarrow>
     (if p_savedAt a \<noteq> p_savedAt b then p_savedAt a < p_savedAt b else localeCompare (p_key a) (p_key b) \<le> 0)"

fun insert_pending :: "(string \<Rightarrow> string \<Rightarrow> int) \<Rightarrow> Pending \<Rightarrow> Pending list \<Rightarrow> Pending list" where
  "insert_pending lc x [] = [x]"
| "insert_pending lc x (y # ys) = (if before lc x y then x # y # ys else y # insert_pending lc x ys)"

definition pending :: "(string \<Rightarrow> string \<Rightarrow> int) \<Rightarrow> Database \<Rightarrow> Scope \<Rightarrow> Pending list" where
  "pending lc db sc =
     foldr (insert_pending lc) (filter (\<lambda>p. actor (p_scope p) = actor sc \<and> org (p_scope p) = org sc)
       (map snd (sort_key fst (commands db)))) []"

definition new_pending :: "Scope \<Rightarrow> string \<Rightarrow> Command \<Rightarrow> nat \<Rightarrow> Birth \<Rightarrow> Pending" where
  "new_pending sc vid c now born = \<lparr>p_scope = sc, p_key = scopeKey sc @ '':'' @ operation_key c, visitId = vid,
     command = c, p_savedAt = now, failure = None, failureStatus = None, p_born = born\<rparr>"

definition enqueue :: "Generations \<Rightarrow> Pending \<Rightarrow> Tx" where
  "enqueue g value = (if b_stamp (p_born value) \<noteq> generation g (p_scope value) then ReadOnly else AddCommand value)"

text \<open>The check after the transaction.\<close>

definition enqueue_result :: "Generations \<Rightarrow> Pending \<Rightarrow> Pending result" where
  "enqueue_result g value =
     (if b_stamp (p_born value) \<noteq> generation g (p_scope value)
      then Inl (Error (''La sesi'' @ [CHR 0xF3] @ ''n cambi'' @ [CHR 0xF3] @ ''. Abre tu agenda antes de registrar otro trabajo.''))
      else Inr value)"

definition clearActor :: "string \<Rightarrow> Generations \<Rightarrow> Generations" where
  "clearActor a g = g\<lparr>actorGeneration := AList.update a (count_of (actorGeneration g) a + 1) (actorGeneration g)\<rparr>"

definition clearScope :: "Scope \<Rightarrow> Generations \<Rightarrow> Generations" where
  "clearScope sc g = g\<lparr>scopeGeneration := AList.update (scopeKey sc) (count_of (scopeGeneration g) (scopeKey sc) + 1) (scopeGeneration g)\<rparr>"

definition discardRejected :: "(string \<Rightarrow> string \<Rightarrow> int) \<Rightarrow> Scope \<Rightarrow> string \<Rightarrow> Database \<Rightarrow> Tx result" where
  "discardRejected lc sc key db =
     (case find (\<lambda>p. p_key p = key) (pending lc db sc) of
        Some item \<Rightarrow> if (case failureStatus item of None \<Rightarrow> False | Some s \<Rightarrow> s \<in> {400, 403, 404, 409, 422})
          then Inr (DeleteCommand (p_key item))
          else Inl (Error (''Este registro a'' @ [CHR 0xFA] @ ''n puede estar aplicado. Reintenta con su misma operaci'' @ [CHR 0xF3] @ ''n.''))
      | None \<Rightarrow> Inl (Error (''Este registro a'' @ [CHR 0xFA] @ ''n puede estar aplicado. Reintenta con su misma operaci'' @ [CHR 0xF3] @ ''n.'')))"

text \<open>What the world answers while the queue is sent: whether the session is online and live before an
  item, the server's answer, whether the receipt's deletion commits, whether the session is still live
  after it, the receipt callback, whether the queue can be read, and whether a failure can be recorded: opening
  the database or the transaction may reject, each with its own error.\<close>

record Surroundings =
  going :: "Pending \<Rightarrow> bool"
  fieldCommand :: "Pending \<Rightarrow> FieldError option"
  delete_fails :: "Pending \<Rightarrow> FieldError option"
  live_after :: "Pending \<Rightarrow> bool"
  onReceipt :: "Pending \<Rightarrow> FieldError option"
  reading_fails :: "FieldError option"
  marking_fails :: "Pending \<Rightarrow> FieldError option"

text \<open>\<open>await markFailed(item, error); throw error\<close>: when the failure cannot be recorded, that error is thrown instead.\<close>

definition fail_with :: "Surroundings \<Rightarrow> Pending \<Rightarrow> FieldError \<Rightarrow> Database \<Rightarrow> Database \<times> FieldError option" where
  "fail_with env item e db =
     (case marking_fails env item of
        Some e' \<Rightarrow> (db, Some e')
      | None \<Rightarrow> (markFailed (p_key item) e db, Some e))"

definition deliver :: "Surroundings \<Rightarrow> Pending \<Rightarrow> Database \<Rightarrow> Database \<times> FieldError option" where
  "deliver env item db =
     (case fieldCommand env item of
        Some e \<Rightarrow> fail_with env item e db
      | None \<Rightarrow>
          (case delete_fails env item of
             Some e \<Rightarrow> fail_with env item e db
           | None \<Rightarrow>
               (let db' = db\<lparr>commands := AList.delete (p_key item) (commands db)\<rparr>
                in if live_after env item
                   then (case onReceipt env item of
                           Some e \<Rightarrow> fail_with env item e db' | None \<Rightarrow> (db', None))
                   else (db', None))))"

text \<open>The loop over the queue: the database, the items attempted, and the error it stops with.\<close>

fun flush_items :: "Surroundings \<Rightarrow> Pending list \<Rightarrow> Database \<Rightarrow> Database \<times> Pending list \<times> FieldError option" where
  "flush_items env [] db = (db, [], None)"
| "flush_items env (item # rest) db =
     (if \<not> going env item then (db, [], None)
      else case deliver env item db of
             (db', Some e) \<Rightarrow> (db', [item], Some e)
           | (db', None) \<Rightarrow> (let (db'', tried, e) = flush_items env rest db' in (db'', item # tried, e)))"

text \<open>A scope that is already being sent joins the run in progress.\<close>

definition flush :: "(string \<Rightarrow> string \<Rightarrow> int) \<Rightarrow> Surroundings \<Rightarrow> string set \<Rightarrow> Scope \<Rightarrow> Database \<Rightarrow>
    Database \<times> Pending list \<times> FieldError option" where
  "flush lc env locked sc db =
     (if scopeKey sc \<in> locked then (db, [], None)
      else case reading_fails env of Some e \<Rightarrow> (db, [], Some e) | None \<Rightarrow> flush_items env (pending lc db sc) db)"

end
