(* ===== verification/OutboxProps.thy ===== *)
theory OutboxProps
  imports Outbox
begin

text \<open>
  The field outbox under every interleaving of its operations: evidence cleared at sign-out never
  comes back from an operation that was under way, and the queue is sent in order, stopping at the
  first failure.
\<close>

section \<open>Runs\<close>

datatype Task =
    SaveTask Scope Workspace Birth
  | EnqueueTask Pending
  | PlainTask Tx
  | ClearTask Tx

record System =
  db :: Database
  gens :: Generations
  started :: "Task list"
  queue :: "Tx list"
  failed :: "Tx list"
  clock :: nat
  clearings :: "(Tx \<times> nat) list"

text \<open>Each operation that is begun takes the next moment of the clock; the clears begun so far are remembered with theirs.\<close>

definition birth :: "System \<Rightarrow> Scope \<Rightarrow> Birth" where
  "birth s sc = \<lparr>b_stamp = generation (gens s) sc, b_moment = clock s\<rparr>"

definition quiet :: "Tx \<Rightarrow> bool" where
  "quiet t = (case t of ReadOnly \<Rightarrow> True | DeleteCommand _ \<Rightarrow> True | MarkFailed _ _ \<Rightarrow> True | _ \<Rightarrow> False)"

text \<open>The transaction a task creates, once the database is open.\<close>

fun opened :: "Generations \<Rightarrow> nat \<Rightarrow> Task \<Rightarrow> Tx" where
  "opened g now (SaveTask sc w born) = saveCopy g sc w born now"
| "opened g now (EnqueueTask p) = enqueue g p"
| "opened g now (PlainTask t) = t"
| "opened g now (ClearTask t) = t"

text \<open>An actor is a user's identifier and holds no colon.\<close>

inductive system_step :: "System \<Rightarrow> System \<Rightarrow> bool" where
  start_save: "CHR '':'' \<notin> set (actor sc) \<Longrightarrow>
    system_step s (s\<lparr>started := SaveTask sc w (birth s sc) # started s, clock := Suc (clock s)\<rparr>)"
| start_enqueue: "CHR '':'' \<notin> set (actor sc) \<Longrightarrow>
    system_step s (s\<lparr>started := EnqueueTask (new_pending sc vid c now (birth s sc)) # started s, clock := Suc (clock s)\<rparr>)"
| start_plain: "quiet t \<Longrightarrow> system_step s (s\<lparr>started := PlainTask t # started s\<rparr>)"
| start_clear_actor: "system_step s (s\<lparr>gens := clearActor a (gens s), started := ClearTask (ClearActor a) # started s,
      clearings := (ClearActor a, clock s) # clearings s, clock := Suc (clock s)\<rparr>)"
| start_clear_scope: "CHR '':'' \<notin> set (actor sc) \<Longrightarrow>
    system_step s (s\<lparr>gens := clearScope sc (gens s), started := ClearTask (ClearScope sc) # started s,
      clearings := (ClearScope sc, clock s) # clearings s, clock := Suc (clock s)\<rparr>)"
| open_tx: "started s = as @ t # bs \<Longrightarrow>
    system_step s (s\<lparr>started := as @ bs, queue := queue s @ [opened (gens s) now t]\<rparr>)"
| run_tx: "queue s = t # ts \<Longrightarrow> exec_tx t (db s) = Some d \<Longrightarrow> system_step s (s\<lparr>db := d, queue := ts\<rparr>)"
| abort_tx: "queue s = t # ts \<Longrightarrow> system_step s (s\<lparr>queue := ts, failed := t # failed s\<rparr>)"

definition empty_system :: System where
  "empty_system = \<lparr>db = \<lparr>copies = [], commands = []\<rparr>, gens = \<lparr>actorGeneration = [], scopeGeneration = []\<rparr>,
     started = [], queue = [], failed = [], clock = 0, clearings = []\<rparr>"

inductive system_reachable :: "System \<Rightarrow> bool" where
  sys_start: "system_reachable empty_system"
| sys_step: "system_reachable s \<Longrightarrow> system_step s s' \<Longrightarrow> system_reachable s'"

section \<open>Stamps\<close>

lemma digits_no_colon: "CHR '':'' \<notin> set (nat_str n)"
proof
  assume "CHR '':'' \<in> set (nat_str n)"
  then have "is_digit CHR '':''" by (rule bspec [OF dec_str_digits])
  then show False by (simp add: is_digit_def digit_chars_def)
qed

lemma generation_eq:
  "generation g sc = generation h sd \<longleftrightarrow> count_of (actorGeneration g) (actor sc) = count_of (actorGeneration h) (actor sd) \<and>
     count_of (scopeGeneration g) (scopeKey sc) = count_of (scopeGeneration h) (scopeKey sd)"
proof
  assume "generation g sc = generation h sd"
  from colon_split [OF digits_no_colon digits_no_colon this [unfolded generation_def]]
  show "count_of (actorGeneration g) (actor sc) = count_of (actorGeneration h) (actor sd) \<and>
     count_of (scopeGeneration g) (scopeKey sc) = count_of (scopeGeneration h) (scopeKey sd)" by (simp add: dec_str_inj)
qed (simp add: generation_def)

lemma scopeKey_inj: "CHR '':'' \<notin> set (actor a) \<Longrightarrow> CHR '':'' \<notin> set (actor b) \<Longrightarrow> scopeKey a = scopeKey b \<Longrightarrow> actor a = actor b \<and> org a = org b"
  unfolding scopeKey_def by (rule colon_split)

lemma count_update: "count_of (AList.update k v m) k' = (if k' = k then v else count_of m k')"
  by (simp add: count_of_def map_of_alist_update)

lemma clearActor_generation: "generation (clearActor a g) sc = generation g sc \<longleftrightarrow> actor sc \<noteq> a"
  by (simp add: generation_eq clearActor_def count_update)

lemma clearScope_generation: "generation (clearScope sd g) sc = generation g sc \<longleftrightarrow> scopeKey sc \<noteq> scopeKey sd"
  by (simp add: generation_eq clearScope_def count_update)

section \<open>Nothing cleared comes back\<close>

text \<open>The scope and beginning of what a transaction writes.\<close>

fun writes :: "Tx \<Rightarrow> (Scope \<times> Birth) set" where
  "writes (PutCopy c) = {(cp_scope c, cp_born c)}"
| "writes (AddCommand p) = {(p_scope p, p_born p)}"
| "writes _ = {}"

definition held :: "Database \<Rightarrow> (Scope \<times> Birth) set" where
  "held d = (\<lambda>(k, c). (cp_scope c, cp_born c)) ` set (copies d) \<union> (\<lambda>(k, p). (p_scope p, p_born p)) ` set (commands d)"

text \<open>A clear that follows in the queue, waits for the database, or failed.\<close>

definition clear_after :: "Task list \<Rightarrow> Tx list \<Rightarrow> Tx list \<Rightarrow> Scope \<Rightarrow> bool" where
  "clear_after st fd later sc \<longleftrightarrow> (\<exists>t. (ClearTask t \<in> set st \<or> t \<in> set later \<or> t \<in> set fd) \<and> clears t sc)"

definition fresh_or_cleared :: "System \<Rightarrow> Tx list \<Rightarrow> Scope \<Rightarrow> Birth \<Rightarrow> bool" where
  "fresh_or_cleared s later sc b \<longleftrightarrow> b_stamp b = generation (gens s) sc \<or> clear_after (started s) (failed s) later sc"

text \<open>Every write in a queue that is out of date is followed by a clear.\<close>

fun queue_covered :: "System \<Rightarrow> Tx list \<Rightarrow> bool" where
  "queue_covered s [] = True"
| "queue_covered s (t # ts) = ((\<forall>sc b. (sc, b) \<in> writes t \<longrightarrow> fresh_or_cleared s ts sc b) \<and> queue_covered s ts)"

definition plain :: "Scope \<Rightarrow> bool" where
  "plain sc \<longleftrightarrow> CHR '':'' \<notin> set (actor sc)"

fun plain_task :: "Task \<Rightarrow> bool" where
  "plain_task (SaveTask sc w b) = plain sc"
| "plain_task (EnqueueTask p) = plain (p_scope p)"
| "plain_task (PlainTask t) = quiet t"
| "plain_task (ClearTask t) = (writes t = {})"

definition covered :: "System \<Rightarrow> bool" where
  "covered s \<longleftrightarrow>
     (\<forall>sc b. (sc, b) \<in> held (db s) \<longrightarrow> fresh_or_cleared s (queue s) sc b \<and> plain sc) \<and>
     queue_covered s (queue s) \<and>
     (\<forall>t \<in> set (queue s). \<forall>sc b. (sc, b) \<in> writes t \<longrightarrow> plain sc) \<and>
     (\<forall>t \<in> set (started s). plain_task t)"

lemma coveredI:
  assumes "\<And>sc b. (sc, b) \<in> held (db s) \<Longrightarrow> fresh_or_cleared s (queue s) sc b" "\<And>sc b. (sc, b) \<in> held (db s) \<Longrightarrow> plain sc"
    "queue_covered s (queue s)" "\<And>t sc b. t \<in> set (queue s) \<Longrightarrow> (sc, b) \<in> writes t \<Longrightarrow> plain sc"
    "\<And>t. t \<in> set (started s) \<Longrightarrow> plain_task t"
  shows "covered s"
  using assms by (simp add: covered_def)

lemma coveredD:
  assumes "covered s"
  shows "(sc, b) \<in> held (db s) \<Longrightarrow> fresh_or_cleared s (queue s) sc b" "(sc, b) \<in> held (db s) \<Longrightarrow> plain sc"
    "queue_covered s (queue s)" "t \<in> set (queue s) \<Longrightarrow> (sc, b) \<in> writes t \<Longrightarrow> plain sc"
    "k \<in> set (started s) \<Longrightarrow> plain_task k"
  using assms unfolding covered_def by blast+

lemma writes_quiet: "quiet t \<Longrightarrow> writes t = {}"
  by (cases t) (auto simp: quiet_def)

lemma held_update_copy: "held (d\<lparr>copies := AList.update k c (copies d)\<rparr>) \<subseteq> insert (cp_scope c, cp_born c) (held d)"
proof -
  have "set (AList.update k c xs) \<subseteq> insert (k, c) (set xs)" for xs :: "(string \<times> Copy) list"
    by (induction xs) auto
  then show ?thesis by (fastforce simp: held_def)
qed

lemma held_markFailed: "held (markFailed k e d) = held d"
proof (cases "map_of (commands d) k")
  case (Some p)
  let ?q = "p\<lparr>failure := Some (detail e), failureStatus := failure_status e\<rparr>"
  have "map_of xs k = Some p \<Longrightarrow> (\<lambda>(k, p). (p_scope p, p_born p)) ` set (AList.update k ?q xs) = (\<lambda>(k, p). (p_scope p, p_born p)) ` set xs" for xs
    by (induction xs) (auto split: if_splits)
  then show ?thesis using Some by (simp add: markFailed_def held_def)
qed (simp add: markFailed_def)

text \<open>What a transaction leaves: what it wrote and what was there, less what it clears.\<close>

lemma held_exec:
  assumes "exec_tx t d = Some d'"
  shows "held d' \<subseteq> writes t \<union> {(sc, b) \<in> held d. \<not> clears t sc}"
proof (cases t)
  case (PutCopy c)
  then show ?thesis using assms held_update_copy [of "cp_key c" c d] by auto
next
  case (AddCommand p)
  then show ?thesis using assms by (auto simp: held_def split: if_splits)
next
  case (DeleteCommand k)
  have "set (AList.delete k (commands d)) \<subseteq> set (commands d)" by (auto simp: AList.delete_eq)
  then show ?thesis using assms DeleteCommand by (fastforce simp: held_def)
next
  case (MarkFailed k e)
  then show ?thesis using assms held_markFailed by auto
qed (use assms in \<open>auto simp: held_def clearMatching_def\<close>)

lemma queue_covered_mono:
  assumes "queue_covered s q"
    and "\<And>t sc b later. t \<in> set q \<Longrightarrow> (sc, b) \<in> writes t \<Longrightarrow> fresh_or_cleared s later sc b \<Longrightarrow> fresh_or_cleared s' later sc b"
  shows "queue_covered s' q"
  using assms(1,2)
proof (induction q)
  case (Cons t ts)
  have "queue_covered s' ts" using Cons.prems(1) by (intro Cons.IH Cons.prems(2)) auto
  moreover have "fresh_or_cleared s' ts sc b" if "(sc, b) \<in> writes t" for sc b
    using Cons.prems(1) that by (intro Cons.prems(2) [of t]) auto
  ultimately show ?case by simp
qed simp

lemma queue_covered_snoc:
  assumes "queue_covered s q"
    and "\<And>sc b later. fresh_or_cleared s later sc b \<Longrightarrow> fresh_or_cleared s' (later @ [x]) sc b"
    and "\<And>sc b. (sc, b) \<in> writes x \<Longrightarrow> fresh_or_cleared s' [] sc b"
  shows "queue_covered s' (q @ [x])"
  using assms by (induction q) auto

lemma covered_later:
  assumes "covered s" "s' = s\<lparr>started := x # started s, clock := n\<rparr>" "plain_task x"
  shows "covered s'"
proof -
  have fc: "fresh_or_cleared s later sc b \<Longrightarrow> fresh_or_cleared s' later sc b" for later sc b
    using assms(2) by (auto simp: fresh_or_cleared_def clear_after_def)
  note c = coveredD [OF assms(1)]
  show ?thesis
    by (rule coveredI) (use assms(2,3) c fc queue_covered_mono [OF c(3) fc] in auto)
qed

lemma covered_cleared:
  assumes "covered s" "s' = s\<lparr>gens := g, started := ClearTask x # started s, clearings := cl, clock := n\<rparr>" "writes x = {}"
    and ch: "\<And>sc. plain sc \<Longrightarrow> generation g sc \<noteq> generation (gens s) sc \<Longrightarrow> clears x sc"
  shows "covered s'"
proof -
  have fc: "fresh_or_cleared s later sc b \<Longrightarrow> plain sc \<Longrightarrow> fresh_or_cleared s' later sc b" for later sc b
    using assms(2) ch [of sc] by (auto simp: fresh_or_cleared_def clear_after_def)
  note c = coveredD [OF assms(1)]
  have "queue_covered s' (queue s)" by (rule queue_covered_mono [OF c(3)]) (rule fc, assumption, rule c(4))
  then show ?thesis by (intro coveredI) (use assms(2,3) c fc in auto)
qed

lemma opened_writes:
  assumes "plain_task t" "(sc, b) \<in> writes (opened g now t)"
  shows "b_stamp b = generation g sc \<and> plain sc"
  using assms by (cases t) (auto simp: saveCopy_def enqueue_def new_copy_def writes_quiet split: if_splits)

lemma covered_open:
  assumes "covered s" "started s = as @ t # bs" "s' = s\<lparr>started := as @ bs, queue := queue s @ [opened (gens s) now t]\<rparr>"
  shows "covered s'"
proof -
  note c = coveredD [OF assms(1)]
  have t: "plain_task t" using c(5) assms(2) by simp
  have fc: "fresh_or_cleared s later sc b \<Longrightarrow> fresh_or_cleared s' (later @ [opened (gens s) now t]) sc b" for later sc b
    using assms(2,3) by (auto simp: fresh_or_cleared_def clear_after_def)
  have w: "(sc, b) \<in> writes (opened (gens s) now t) \<Longrightarrow> fresh_or_cleared s' [] sc b" for sc b
    using opened_writes [OF t] assms(3) by (simp add: fresh_or_cleared_def)
  have "queue_covered s' (queue s @ [opened (gens s) now t])" by (rule queue_covered_snoc [OF c(3) fc w])
  then show ?thesis by (intro coveredI) (use assms(2,3) c fc opened_writes [OF t] in auto)
qed

lemma covered_run:
  assumes "covered s" "queue s = t # ts" "exec_tx t (db s) = Some d" "s' = s\<lparr>db := d, queue := ts\<rparr>"
  shows "covered s'"
proof -
  note c = coveredD [OF assms(1)]
  have fc: "fresh_or_cleared s' later sc b = fresh_or_cleared s later sc b" for later sc b
    using assms(4) by (simp add: fresh_or_cleared_def)
  have q: "queue_covered s (t # ts)" using c(3) assms(2) by simp
  then have "queue_covered s ts" by simp
  then have q': "queue_covered s' ts" by (rule queue_covered_mono) (simp only: fc)
  have h: "(sc, b) \<in> writes t \<or> (sc, b) \<in> held (db s) \<and> \<not> clears t sc" if "(sc, b) \<in> held d" for sc b
    using held_exec [OF assms(3)] that by blast
  have f: "fresh_or_cleared s ts sc b" if "(sc, b) \<in> held d" for sc b
  proof (cases "(sc, b) \<in> writes t")
    case True then show ?thesis using q by simp
  next
    case False
    then have "(sc, b) \<in> held (db s)" "\<not> clears t sc" using h [OF that] by auto
    then show ?thesis using c(1) [of sc b] assms(2) by (auto simp: fresh_or_cleared_def clear_after_def)
  qed
  have p: "plain sc" if "(sc, b) \<in> held d" for sc b
    using h [OF that] c(2) [of sc b] c(4) [of t sc b] assms(2) by auto
  have w: "plain sc" if "u \<in> set ts" "(sc, b) \<in> writes u" for u sc b using c(4) [of u sc b] assms(2) that by simp
  have s': "db s' = d" "queue s' = ts" "started s' = started s" using assms(4) by simp_all
  show ?thesis by (rule coveredI, unfold s' fc) (rule f p q' w c(5); assumption?)+
qed

lemma covered_abort:
  assumes "covered s" "queue s = t # ts" "s' = s\<lparr>queue := ts, failed := t # failed s\<rparr>"
  shows "covered s'"
proof -
  note c = coveredD [OF assms(1)]
  have fc: "fresh_or_cleared s later sc b \<Longrightarrow> fresh_or_cleared s' later sc b" "fresh_or_cleared s (t # ts) sc b \<Longrightarrow> fresh_or_cleared s' ts sc b" for later sc b
    using assms(3) by (auto simp: fresh_or_cleared_def clear_after_def)
  have "queue_covered s ts" using c(3) assms(2) by simp
  then have q': "queue_covered s' ts" by (rule queue_covered_mono) (rule fc)
  have f: "fresh_or_cleared s' ts sc b" if "(sc, b) \<in> held (db s)" for sc b using fc(2) c(1) [OF that] assms(2) by simp
  have w: "plain sc" if "u \<in> set ts" "(sc, b) \<in> writes u" for u sc b using c(4) [of u sc b] assms(2) that by simp
  have s': "db s' = db s" "queue s' = ts" "started s' = started s" using assms(3) by simp_all
  show ?thesis by (rule coveredI, unfold s') (rule f c(2) q' w c(5); assumption?)+
qed

lemma step_covered:
  assumes "system_step s s'" "covered s"
  shows "covered s'"
  using assms
proof (cases rule: system_step.cases)
  case (start_save sc w)
  then show ?thesis using covered_later [OF assms(2)] by (simp add: plain_def)
next
  case (start_enqueue sc vid c now)
  then show ?thesis using covered_later [OF assms(2)] by (simp add: plain_def new_pending_def)
next
  case (start_plain t)
  then show ?thesis using covered_later [OF assms(2), where n = "clock s"] by simp
next
  case (start_clear_actor a)
  then show ?thesis using clearActor_generation by (intro covered_cleared [OF assms(2)]) auto
next
  case (start_clear_scope sc)
  have "clears (ClearScope sc) sd" if "plain sd" "generation (clearScope sc (gens s)) sd \<noteq> generation (gens s) sd" for sd
    using that clearScope_generation [of sc "gens s" sd] scopeKey_inj [of sd sc] start_clear_scope(2) by (simp add: plain_def)
  then show ?thesis by (intro covered_cleared [OF assms(2) start_clear_scope(1)]) simp_all
next
  case (open_tx as t bs now)
  then show ?thesis by (intro covered_open [OF assms(2)])
next
  case (run_tx t ts d)
  then show ?thesis by (intro covered_run [OF assms(2)])
next
  case (abort_tx t ts)
  then show ?thesis by (intro covered_abort [OF assms(2)])
qed

section \<open>Stamps and moments\<close>

text \<open>What is stored, waits in a transaction, or is being written by an operation under way.\<close>

fun carried :: "Task \<Rightarrow> (Scope \<times> Birth) set" where
  "carried (SaveTask sc w b) = {(sc, b)}"
| "carried (EnqueueTask p) = {(p_scope p, p_born p)}"
| "carried (PlainTask t) = writes t"
| "carried (ClearTask t) = writes t"

definition entries_of :: "System \<Rightarrow> (Scope \<times> Birth) set" where
  "entries_of s = held (db s) \<union> (\<Union>t \<in> set (queue s). writes t) \<union> (\<Union>t \<in> set (started s). carried t)"

text \<open>A stamp was a generation of its scope; while it still is the present one, every clear of the scope is older.\<close>

definition dated :: "System \<Rightarrow> Scope \<Rightarrow> Birth \<Rightarrow> bool" where
  "dated s sc b \<longleftrightarrow>
     (\<exists>g. b_stamp b = generation g sc \<and> count_of (actorGeneration g) (actor sc) \<le> count_of (actorGeneration (gens s)) (actor sc) \<and>
        count_of (scopeGeneration g) (scopeKey sc) \<le> count_of (scopeGeneration (gens s)) (scopeKey sc)) \<and>
     (b_stamp b = generation (gens s) sc \<longrightarrow> (\<forall>(t, m) \<in> set (clearings s). clears t sc \<longrightarrow> m < b_moment b))"

definition timely :: "System \<Rightarrow> bool" where
  "timely s \<longleftrightarrow> (\<forall>(t, m) \<in> set (clearings s). m < clock s) \<and> (\<forall>(sc, b) \<in> entries_of s. dated s sc b)"

lemma timely_fewer:
  assumes "timely s" "entries_of s' \<subseteq> entries_of s" "gens s' = gens s" "clearings s' = clearings s" "clock s' = clock s"
  shows "timely s'"
proof -
  have d: "dated s' sc b = dated s sc b" for sc b using assms(3,4) by (simp add: dated_def)
  have "\<forall>(sc, b) \<in> entries_of s'. dated s' sc b" unfolding d using assms(1,2) unfolding timely_def by blast
  then show ?thesis using assms(1,4,5) unfolding timely_def by simp
qed

lemma timely_begun:
  assumes "timely s" "entries_of s' \<subseteq> insert (sc, birth s sc) (entries_of s)" "gens s' = gens s" "clearings s' = clearings s" "clock s' = Suc (clock s)"
  shows "timely s'"
proof -
  have n: "dated s sc (birth s sc)" using assms(1) by (auto simp: dated_def birth_def timely_def)
  have "dated s' sd b" if "(sd, b) \<in> entries_of s'" for sd b
  proof -
    have "dated s sd b" using n assms(1,2) that unfolding timely_def by blast
    then show ?thesis using assms(3,4) by (simp add: dated_def)
  qed
  then show ?thesis using assms(1,4,5) by (fastforce simp: timely_def)
qed

lemma timely_cleared:
  assumes "timely s" "entries_of s' = entries_of s" "clearings s' = (x, clock s) # clearings s" "clock s' = Suc (clock s)"
    and up: "\<And>a. count_of (actorGeneration (gens s)) a \<le> count_of (actorGeneration (gens s')) a"
      "\<And>k. count_of (scopeGeneration (gens s)) k \<le> count_of (scopeGeneration (gens s')) k"
    and bump: "\<And>sc. clears x sc \<Longrightarrow> count_of (actorGeneration (gens s)) (actor sc) < count_of (actorGeneration (gens s')) (actor sc) \<or>
      count_of (scopeGeneration (gens s)) (scopeKey sc) < count_of (scopeGeneration (gens s')) (scopeKey sc)"
  shows "timely s'"
proof -
  have "dated s' sc b" if "(sc, b) \<in> entries_of s'" for sc b
  proof -
    have d: "dated s sc b" using assms(1,2) that unfolding timely_def by blast
    then obtain g where g: "b_stamp b = generation g sc"
      "count_of (actorGeneration g) (actor sc) \<le> count_of (actorGeneration (gens s)) (actor sc)"
      "count_of (scopeGeneration g) (scopeKey sc) \<le> count_of (scopeGeneration (gens s)) (scopeKey sc)" by (auto simp: dated_def)
    have le: "count_of (actorGeneration g) (actor sc) \<le> count_of (actorGeneration (gens s')) (actor sc)"
      "count_of (scopeGeneration g) (scopeKey sc) \<le> count_of (scopeGeneration (gens s')) (scopeKey sc)"
      using g(2,3) up le_trans by blast+
    have cur: "b_stamp b = generation (gens s) sc \<and> \<not> clears x sc" if "b_stamp b = generation (gens s') sc"
    proof -
      have "count_of (actorGeneration g) (actor sc) = count_of (actorGeneration (gens s')) (actor sc)"
        "count_of (scopeGeneration g) (scopeKey sc) = count_of (scopeGeneration (gens s')) (scopeKey sc)"
        using that g(1) by (simp_all add: generation_eq)
      then show ?thesis using g up [of "actor sc"] up(2) [of "scopeKey sc"] bump [of sc] by (auto simp: generation_eq)
    qed
    have "\<forall>(t, m) \<in> set (clearings s'). clears t sc \<longrightarrow> m < b_moment b" if "b_stamp b = generation (gens s') sc"
      using cur [OF that] d unfolding assms(3) by (auto simp: dated_def)
    then show ?thesis using g(1) le unfolding dated_def by blast
  qed
  then show ?thesis using assms(1,3,4) by (fastforce simp: timely_def)
qed

lemma opened_carried: "writes (opened g now t) \<subseteq> carried t"
  by (cases t) (auto simp: saveCopy_def enqueue_def new_copy_def)

lemma step_timely:
  assumes "system_step s s'" "timely s"
  shows "timely s'"
  using assms(1)
proof cases
  case (start_save sc w)
  show ?thesis unfolding start_save(1) by (rule timely_begun [OF assms(2), where sc = sc]) (auto simp: entries_of_def)
next
  case (start_enqueue sc vid c now)
  show ?thesis unfolding start_enqueue(1)
    by (rule timely_begun [OF assms(2), where sc = sc]) (auto simp: entries_of_def new_pending_def)
next
  case (start_plain t)
  show ?thesis unfolding start_plain(1)
    by (rule timely_fewer [OF assms(2)]) (use start_plain in \<open>auto simp: entries_of_def writes_quiet\<close>)
next
  case (start_clear_actor a)
  show ?thesis unfolding start_clear_actor
    by (rule timely_cleared [OF assms(2), where x = "ClearActor a"]) (auto simp: entries_of_def clearActor_def count_update)
next
  case (start_clear_scope sc)
  show ?thesis unfolding start_clear_scope(1)
    by (rule timely_cleared [OF assms(2), where x = "ClearScope sc"]) (auto simp: entries_of_def clearScope_def count_update scopeKey_def)
next
  case (open_tx as t bs now)
  show ?thesis unfolding open_tx(1)
    by (rule timely_fewer [OF assms(2)]) (use open_tx(2) opened_carried [of "gens s" now t] in \<open>auto simp: entries_of_def\<close>)
next
  case (run_tx t ts d)
  show ?thesis unfolding run_tx(1)
    by (rule timely_fewer [OF assms(2)]) (use run_tx(2) held_exec [OF run_tx(3)] in \<open>auto simp: entries_of_def\<close>)
next
  case (abort_tx t ts)
  show ?thesis unfolding abort_tx(1) by (rule timely_fewer [OF assms(2)]) (use abort_tx(2) in \<open>auto simp: entries_of_def\<close>)
qed

lemma reachable_invariants: "system_reachable s \<Longrightarrow> covered s \<and> timely s"
proof (induction rule: system_reachable.induct)
  case sys_start
  show ?case by (simp add: covered_def timely_def entries_of_def held_def empty_system_def)
next
  case (sys_step s s')
  then show ?case using step_covered step_timely by blast
qed

text \<open>
  C5. Cleared evidence never comes back: whatever interleaving of saves, entries, deliveries and
  clears runs, and whichever transactions abort, once no clear of a person's or an organisation's
  evidence is waiting or has failed, every copy and every command still stored for that scope was
  written by an operation that began, on the clock of the whole system, after each of the clears of that
  scope had begun. In particular nothing that was under way at a sign-out is left behind by it.
\<close>
theorem cleared_evidence_stays_gone:
  assumes "system_reachable s"
    and "\<nexists>t. (ClearTask t \<in> set (started s) \<or> t \<in> set (queue s) \<or> t \<in> set (failed s)) \<and> clears t sc"
    and "(t, m) \<in> set (clearings s)" "clears t sc"
  shows "(\<forall>(k, c) \<in> set (copies (db s)). cp_scope c = sc \<longrightarrow> m < b_moment (cp_born c)) \<and>
    (\<forall>(k, p) \<in> set (commands (db s)). p_scope p = sc \<longrightarrow> m < b_moment (p_born p))"
proof -
  have inv: "covered s" "timely s" using reachable_invariants [OF assms(1)] by simp_all
  have n: "\<not> clear_after (started s) (failed s) (queue s) sc" using assms(2) by (auto simp: clear_after_def)
  have "m < b_moment b" if "(sc, b) \<in> held (db s)" for b
  proof -
    have "b_stamp b = generation (gens s) sc" using coveredD(1) [OF inv(1) that] n by (simp add: fresh_or_cleared_def)
    moreover have "dated s sc b" using inv(2) that unfolding timely_def entries_of_def by blast
    ultimately show ?thesis using assms(3,4) unfolding dated_def by blast
  qed
  then show ?thesis by (force simp: held_def)
qed

text \<open>A sign-out while a save is under way: the save opens its transaction after the clear began, and one that
  begins after it is kept.\<close>

definition ana :: Scope where
  "ana = \<lparr>actor = ''ana'', org = ''o1''\<rparr>"

definition empty_workspace :: Workspace where
  "empty_workspace = \<lparr>w_role = ''OWNER'', visits = [], incidents = [], projects = [], assignees = []\<rparr>"

lemma sign_out_run:
  obtains s c where "system_reachable s" "started s = []" "queue s = []" "failed s = []" "clearings s = [(ClearActor ''ana'', 1)]"
    "copies (db s) = [(scopeKey ana, c)]" "cp_scope c = ana" "b_moment (cp_born c) = 2"
proof -
  define s1 where "s1 = empty_system\<lparr>started := [SaveTask ana empty_workspace (birth empty_system ana)], clock := 1\<rparr>"
  define s2 where "s2 = s1\<lparr>gens := clearActor ''ana'' (gens s1), started := ClearTask (ClearActor ''ana'') # started s1,
    clearings := [(ClearActor ''ana'', 1)], clock := 2\<rparr>"
  define s3 where "s3 = s2\<lparr>started := SaveTask ana empty_workspace (birth s2 ana) # started s2, clock := 3\<rparr>"
  define s4 where "s4 = s3\<lparr>started := [SaveTask ana empty_workspace (birth s2 ana), SaveTask ana empty_workspace (birth empty_system ana)],
    queue := [ClearActor ''ana'']\<rparr>"
  define s5 where "s5 = s4\<lparr>started := [SaveTask ana empty_workspace (birth s2 ana)], queue := [ClearActor ''ana'', ReadOnly]\<rparr>"
  define s6 where "s6 = s5\<lparr>started := [], queue := [ClearActor ''ana'', ReadOnly, PutCopy (new_copy ana empty_workspace 0 (birth s2 ana))]\<rparr>"
  define s7 where "s7 = s6\<lparr>queue := [ReadOnly, PutCopy (new_copy ana empty_workspace 0 (birth s2 ana))]\<rparr>"
  define s8 where "s8 = s7\<lparr>queue := [PutCopy (new_copy ana empty_workspace 0 (birth s2 ana))]\<rparr>"
  define s9 where "s9 = s8\<lparr>db := \<lparr>copies = [(scopeKey ana, new_copy ana empty_workspace 0 (birth s2 ana))], commands = []\<rparr>, queue := []\<rparr>"
  note ds = s1_def s2_def s3_def s4_def s5_def s6_def s7_def s8_def s9_def
  have g: "generation (gens empty_system) ana \<noteq> generation (gens s2) ana"
    using clearActor_generation [of "''ana''" "gens empty_system" ana] by (simp add: s2_def s1_def ana_def)
  have "system_step empty_system s1" using start_save [of ana empty_system empty_workspace] by (simp add: s1_def empty_system_def ana_def)
  moreover have "system_step s1 s2" using start_clear_actor [of s1 "''ana''"] by (simp add: s2_def s1_def empty_system_def numeral_2_eq_2)
  moreover have "system_step s2 s3" using start_save [of ana s2 empty_workspace] by (simp add: s3_def s2_def ana_def numeral_3_eq_3 numeral_2_eq_2)
  moreover have "system_step s3 s4"
    using open_tx [of s3 "[SaveTask ana empty_workspace (birth s2 ana)]" "ClearTask (ClearActor ''ana'')" "started s1" 0]
    by (simp add: s4_def s3_def s2_def s1_def empty_system_def)
  moreover have "system_step s4 s5"
    using open_tx [of s4 "[SaveTask ana empty_workspace (birth s2 ana)]" "SaveTask ana empty_workspace (birth empty_system ana)" "[]" 0] g
    by (simp add: s5_def s4_def s3_def saveCopy_def birth_def)
  moreover have "system_step s5 s6"
    using open_tx [of s5 "[]" "SaveTask ana empty_workspace (birth s2 ana)" "[]" 0]
    by (simp add: s6_def s5_def s4_def s3_def saveCopy_def birth_def)
  moreover have "system_step s6 s7"
    using run_tx [of s6 "ClearActor ''ana''" _ "db s6"] by (simp add: s7_def s6_def s5_def s4_def s3_def s2_def s1_def empty_system_def clearMatching_def)
  moreover have "system_step s7 s8" using run_tx [of s7 ReadOnly _ "db s7"] by (simp add: s8_def s7_def)
  moreover have "system_step s8 s9"
    using run_tx [of s8 "PutCopy (new_copy ana empty_workspace 0 (birth s2 ana))" "[]"
        "\<lparr>copies = [(scopeKey ana, new_copy ana empty_workspace 0 (birth s2 ana))], commands = []\<rparr>"]
    by (simp add: s9_def s8_def s7_def s6_def s5_def s4_def s3_def s2_def s1_def empty_system_def new_copy_def)
  ultimately have "system_reachable s9" by (meson sys_start sys_step)
  then show thesis
    by (rule that) (simp_all add: ds empty_system_def, simp_all add: new_copy_def birth_def)
qed

theorem cleared_evidence_witness:
  "\<exists>s c. system_reachable s \<and> (ClearActor ''ana'', 1) \<in> set (clearings s) \<and> copies (db s) = [(scopeKey ana, c)] \<and> 1 < b_moment (cp_born c)"
proof -
  obtain s c where s: "system_reachable s" "started s = []" "queue s = []" "failed s = []" "clearings s = [(ClearActor ''ana'', 1)]"
    "copies (db s) = [(scopeKey ana, c)]" "cp_scope c = ana" "b_moment (cp_born c) = 2" by (rule sign_out_run)
  have "(ClearActor ''ana'', 1) \<in> set (clearings s)" "clears (ClearActor ''ana'') ana" by (simp_all add: s(5) ana_def)
  from cleared_evidence_stays_gone [OF s(1) _ this] s show ?thesis by auto
qed

section \<open>The queue is sent in order\<close>

lemma insert_pending_sorted:
  "sorted_wrt (\<lambda>a b. p_savedAt a \<le> p_savedAt b) ps \<Longrightarrow> sorted_wrt (\<lambda>a b. p_savedAt a \<le> p_savedAt b) (insert_pending lc x ps)
    \<and> set (insert_pending lc x ps) = insert x (set ps)"
  by (induction ps) (auto simp: before_def split: if_splits)

lemma pending_sorted:
  "sorted_wrt (\<lambda>a b. p_savedAt a \<le> p_savedAt b) (pending lc d sc) \<and>
   set (pending lc d sc) = {p \<in> snd ` set (commands d). actor (p_scope p) = actor sc \<and> org (p_scope p) = org sc}"
proof -
  have "sorted_wrt (\<lambda>a b. p_savedAt a \<le> p_savedAt b) (foldr (insert_pending lc) xs []) \<and> set (foldr (insert_pending lc) xs []) = set xs" for xs
    by (induction xs) (use insert_pending_sorted in auto)
  then show ?thesis by (auto simp: pending_def)
qed

lemma insert_pending_length: "length (insert_pending lc x ps) = Suc (length ps)"
  by (induction ps) auto

lemma pending_distinct:
  assumes "distinct (map fst (commands d))" "\<forall>(k, p) \<in> set (commands d). p_key p = k"
  shows "distinct (map p_key (pending lc d sc))"
proof -
  let ?xs = "filter (\<lambda>p. actor (p_scope p) = actor sc \<and> org (p_scope p) = org sc) (map snd (sort_key fst (commands d)))"
  have "mset (foldr (insert_pending lc) ys []) = mset ys" for ys
  proof (induction ys)
    case (Cons y ys)
    have "mset (insert_pending lc y zs) = add_mset y (mset zs)" for zs by (induction zs) auto
    then show ?case using Cons by simp
  qed simp
  then have m: "mset (map p_key (pending lc d sc)) = mset (map p_key ?xs)" by (simp add: pending_def)
  have "distinct (map p_key ?xs)"
  proof -
    have "map p_key (map snd (sort_key fst (commands d))) = map fst (sort_key fst (commands d))"
      using assms(2) by (auto simp: case_prod_beta)
    moreover have "distinct (map fst (sort_key fst (commands d)))"
      using assms(1) by (metis mset_eq_imp_distinct_iff mset_map mset_sort)
    ultimately have "distinct (map p_key (map snd (sort_key fst (commands d))))" by (simp only:)
    then show ?thesis by (rule distinct_map_filter)
  qed
  then show ?thesis by (rule mset_eq_imp_distinct_iff [OF m, THEN iffD2])
qed

definition mark :: "FieldError \<Rightarrow> Pending \<Rightarrow> Pending" where
  "mark e p = p\<lparr>failure := Some (detail e), failureStatus := failure_status e\<rparr>"

lemma markFailed_map_of: "map_of (commands (markFailed key e d)) k = (if k = key then map_option (mark e) (map_of (commands d) k) else map_of (commands d) k)"
  by (auto simp: markFailed_def map_of_alist_update mark_def split: option.splits)

text \<open>Why the delivery of a command fails, and whether the command is still stored then.\<close>

definition fault :: "Surroundings \<Rightarrow> Pending \<Rightarrow> FieldError option" where
  "fault env p = (case fieldCommand env p of Some e \<Rightarrow> Some e | None \<Rightarrow> (case delete_fails env p of Some e \<Rightarrow> Some e
     | None \<Rightarrow> if live_after env p then onReceipt env p else None))"

definition receipt_kept :: "Surroundings \<Rightarrow> Pending \<Rightarrow> bool" where
  "receipt_kept env p \<longleftrightarrow> fieldCommand env p = None \<and> delete_fails env p = None"

text \<open>What is stored for a command after the delivery of it: nothing once its receipt is kept, and otherwise
  the command with its failure, as far as the failure could be recorded.\<close>

definition left_by :: "Surroundings \<Rightarrow> Pending \<Rightarrow> Pending option \<Rightarrow> Pending option" where
  "left_by env p stored = (if receipt_kept env p then None
     else if marking_fails env p = None then map_option (mark (the (fault env p))) stored else stored)"

text \<open>The error that a failed delivery throws.\<close>

definition thrown :: "Surroundings \<Rightarrow> Pending \<Rightarrow> FieldError option" where
  "thrown env p = (case fault env p of None \<Rightarrow> None | Some e \<Rightarrow> (case marking_fails env p of Some e' \<Rightarrow> Some e' | None \<Rightarrow> Some e))"

lemma thrown_None: "thrown env p = None \<longleftrightarrow> fault env p = None"
  by (simp add: thrown_def split: option.split)

lemma fault_kept: "fault env p = None \<Longrightarrow> receipt_kept env p"
  by (simp add: fault_def receipt_kept_def split: option.splits)

lemma fail_with_result:
  "snd (fail_with env item e d) = (case marking_fails env item of None \<Rightarrow> Some e | Some e' \<Rightarrow> Some e')"
  "map_of (commands (fst (fail_with env item e d))) k =
    (if k = p_key item \<and> marking_fails env item = None then map_option (mark e) (map_of (commands d) k) else map_of (commands d) k)"
  by (simp_all add: fail_with_def markFailed_map_of split: option.split)

lemma deliver_result:
  "snd (deliver env item d) = thrown env item"
  "map_of (commands (fst (deliver env item d))) k = (if k = p_key item then left_by env item (map_of (commands d) k) else map_of (commands d) k)"
  by (simp_all add: deliver_def fail_with_result fault_def thrown_def receipt_kept_def left_by_def map_of_alist_delete Let_def
      split: option.split)

lemma deliver_map_of:
  assumes "deliver env item d = (d', err)"
  shows "k \<noteq> p_key item \<Longrightarrow> map_of (commands d') k = map_of (commands d) k"
    and "err = thrown env item"
    and "map_of (commands d') (p_key item) = left_by env item (map_of (commands d) (p_key item))"
  using deliver_result(1) [of env item d] deliver_result(2) [of env item d] assms by simp_all

text \<open>A run over items: an initial part is attempted, the error is that of the last one, and each attempted item is left
  as its delivery leaves it.\<close>

lemma flush_items_spec:
  assumes "flush_items env items d = (d', tried, err)" "distinct (map p_key items)"
  shows "(\<exists>rest. items = tried @ rest \<and> (err = None \<longrightarrow> rest = [] \<or> \<not> going env (hd rest))) \<and>
    list_all (going env) tried \<and>
    list_all (\<lambda>p. fault env p = None) (butlast tried) \<and> err = (if tried = [] then None else thrown env (last tried)) \<and>
    (\<forall>k. k \<notin> p_key ` set tried \<longrightarrow> map_of (commands d') k = map_of (commands d) k) \<and>
    (\<forall>p \<in> set tried. map_of (commands d') (p_key p) = left_by env p (map_of (commands d) (p_key p)))"
  using assms
proof (induction items arbitrary: d d' tried err)
  case (Cons item rest)
  show ?case
  proof (cases "going env item")
    case False
    then show ?thesis using Cons.prems(1) by simp
  next
    case True
    obtain d1 e1 where d1: "deliver env item d = (d1, e1)" by fastforce
    note del = deliver_map_of [OF d1]
    show ?thesis
    proof (cases e1)
      case (Some e)
      then show ?thesis using Cons.prems(1) True d1 del by auto
    next
      case None
      obtain d2 tr e2 where r: "flush_items env rest d1 = (d2, tr, e2)" by (cases "flush_items env rest d1") auto
      have out: "d' = d2" "tried = item # tr" "err = e2" using Cons.prems(1) True d1 None r by simp_all
      have dist: "distinct (map p_key rest)" "p_key item \<notin> p_key ` set rest" using Cons.prems(2) by auto
      from Cons.IH [OF r dist(1)] obtain tl where ih: "rest = tr @ tl" "e2 = None \<longrightarrow> tl = [] \<or> \<not> going env (hd tl)" "list_all (going env) tr"
        "list_all (\<lambda>p. fault env p = None) (butlast tr)" "e2 = (if tr = [] then None else thrown env (last tr))"
        "\<And>k. k \<notin> p_key ` set tr \<Longrightarrow> map_of (commands d2) k = map_of (commands d1) k"
        "\<And>p. p \<in> set tr \<Longrightarrow> map_of (commands d2) (p_key p) = left_by env p (map_of (commands d1) (p_key p))" by blast
      have ok: "fault env item = None" using del(2) None thrown_None by metis
      have new: "p_key item \<notin> p_key ` set tr" using dist(2) ih(1) by auto
      have left: "map_of (commands d2) (p_key p) = left_by env p (map_of (commands d) (p_key p))" if p: "p \<in> set (item # tr)" for p
      proof (cases "p = item")
        case True
        then show ?thesis using ih(6) [OF new] del(3) by simp
      next
        case False
        then have m: "p \<in> set tr" using p by simp
        then have "p_key p \<noteq> p_key item" using new by (metis image_eqI)
        then show ?thesis using ih(7) [OF m] del(1) by simp
      qed
      have "thrown env item = None" using ok by (simp add: thrown_None)
      then have e: "e2 = thrown env (last (item # tr))" using ih(5) by simp
      show ?thesis unfolding out
      proof (intro conjI)
        show "\<exists>r'. item # rest = (item # tr) @ r' \<and> (e2 = None \<longrightarrow> r' = [] \<or> \<not> going env (hd r'))" using ih(1,2) by simp
        show "list_all (\<lambda>p. fault env p = None) (butlast (item # tr))" using ih(4) ok by simp
        show "\<forall>k. k \<notin> p_key ` set (item # tr) \<longrightarrow> map_of (commands d2) k = map_of (commands d) k" using ih(6) del(1) by simp
      qed (use True ih(3) e left in simp_all)
    qed
  qed
qed simp

text \<open>
  C30. With no other operation at work, the unsent commands of a scope that is not being sent are sent oldest first and the
  run stops at the first failure. When the queue cannot be read nothing changes and that error is thrown. Otherwise the
  commands attempted are an initial part of the queue, every one before the last was accepted, and the run throws what
  the last one throws: the refusal, or the error of recording it. Each attempted command whose receipt was kept is gone,
  also when the callback fails after it; any other stays, with its failure if that could be recorded; no other stored command changes. A run
  that ends without an error has sent everything or met a closed session.
\<close>
theorem flush_in_order:
  assumes "flush lc env locked sc d = (d', tried, err)" "scopeKey sc \<notin> locked"
    and "distinct (map fst (commands d))" "\<forall>(k, p) \<in> set (commands d). p_key p = k"
  shows "sorted_wrt (\<lambda>a b. p_savedAt a \<le> p_savedAt b) (pending lc d sc) \<and>
    (case reading_fails env of
       Some e \<Rightarrow> d' = d \<and> tried = [] \<and> err = Some e
     | None \<Rightarrow>
        (\<exists>rest. pending lc d sc = tried @ rest \<and> (err = None \<longrightarrow> rest = [] \<or> \<not> going env (hd rest))) \<and>
        list_all (going env) tried \<and>
        list_all (\<lambda>p. fault env p = None) (butlast tried) \<and> err = (if tried = [] then None else thrown env (last tried)) \<and>
        (\<forall>k. k \<notin> p_key ` set tried \<longrightarrow> map_of (commands d') k = map_of (commands d) k) \<and>
        (\<forall>p \<in> set tried. map_of (commands d') (p_key p) = left_by env p (map_of (commands d) (p_key p))))"
proof (cases "reading_fails env")
  case None
  then have "flush_items env (pending lc d sc) d = (d', tried, err)" using assms(1,2) by (simp add: flush_def)
  from flush_items_spec [OF this pending_distinct [OF assms(3,4)]] pending_sorted None show ?thesis unfolding None option.case by blast
next
  case (Some e)
  then have "d' = d \<and> tried = [] \<and> err = Some e" using assms(1,2) by (simp add: flush_def)
  then show ?thesis using Some pending_sorted by simp
qed

definition code_order :: "string \<Rightarrow> string \<Rightarrow> int" where
  "code_order a b = (if a = b then 0 else if a < b then - 1 else 1)"

definition sample_command :: "string \<Rightarrow> nat \<Rightarrow> Pending" where
  "sample_command k now = new_pending ana ''v1'' \<lparr>operation_key = k, payload = JNull\<rparr> now \<lparr>b_stamp = ''0:0'', b_moment = now\<rparr>"

definition sample_db :: Database where
  "sample_db = \<lparr>copies = [], commands = map (\<lambda>p. (p_key p, p)) [sample_command ''k1'' 7, sample_command ''k2'' 3, sample_command ''k3'' 5]\<rparr>"

text \<open>A server that refuses the command saved at moment 5, on a browser that cannot record it.\<close>

definition sample_world :: Surroundings where
  "sample_world = \<lparr>going = (\<lambda>_. True), fieldCommand = (\<lambda>p. if p_savedAt p = 5 then Some (ApiFailure 409 None) else None),
     delete_fails = (\<lambda>_. None), live_after = (\<lambda>_. True), onReceipt = (\<lambda>_. None), reading_fails = None,
     marking_fails = (\<lambda>_. Some (OtherFailure ''No se pudo guardar el estado del pendiente.''))\<rparr>"

theorem flush_witness:
  "\<exists>d' tried. flush code_order sample_world {} ana sample_db =
       (d', tried, Some (OtherFailure ''No se pudo guardar el estado del pendiente.'')) \<and> map p_savedAt tried = [3, 5] \<and>
     map_of (commands d') (p_key (sample_command ''k2'' 3)) = None \<and>
     map_of (commands d') (p_key (sample_command ''k3'' 5)) = Some (sample_command ''k3'' 5)"
proof -
  obtain d' tried err where f: "flush code_order sample_world {} ana sample_db = (d', tried, err)"
    by (cases "flush code_order sample_world {} ana sample_db") auto
  have t: "fst (snd (flush code_order sample_world {} ana sample_db)) = [sample_command ''k2'' 3, sample_command ''k3'' 5]" by code_simp
  then have tried: "tried = [sample_command ''k2'' 3, sample_command ''k3'' 5]" using f by simp
  have "snd (snd (flush code_order sample_world {} ana sample_db)) = Some (OtherFailure ''No se pudo guardar el estado del pendiente.'')" by code_simp
  then have err: "err = Some (OtherFailure ''No se pudo guardar el estado del pendiente.'')" using f by simp
  have l: "left_by sample_world (sample_command ''k2'' 3) x = None" "left_by sample_world (sample_command ''k3'' 5) x = x" for x
    by (simp_all add: left_by_def receipt_kept_def sample_world_def sample_command_def new_pending_def)
  have k: "map_of (commands sample_db) (p_key (sample_command ''k3'' 5)) = Some (sample_command ''k3'' 5)" by code_simp
  have "distinct (map fst (commands sample_db))" "\<forall>(k, p) \<in> set (commands sample_db). p_key p = k" by code_simp+
  from flush_in_order [OF f _ this] have "map_of (commands d') (p_key (sample_command ''k2'' 3)) = None"
    "map_of (commands d') (p_key (sample_command ''k3'' 5)) = Some (sample_command ''k3'' 5)"
    using l k by (simp_all add: tried sample_world_def)
  moreover have "map p_savedAt tried = [3, 5]" unfolding tried by (simp add: sample_command_def new_pending_def)
  ultimately show ?thesis using f unfolding err by (intro exI [of _ d'] exI [of _ tried] conjI)
qed

text \<open>Only a command the server has answered with a final refusal can be discarded.\<close>

lemma discardRejected_final:
  assumes "discardRejected lc sc key d = Inr t"
  shows "\<exists>p \<in> set (pending lc d sc). p_key p = key \<and> failureStatus p \<in> Some ` {400, 403, 404, 409, 422} \<and> t = DeleteCommand key"
  using assms
  by (auto simp: discardRejected_def find_Some_iff split: option.splits if_splits intro!: bexI [OF _ nth_mem])

end
