(* ===== verification/Json.thy ===== *)
theory Json
  imports Mounting
begin

text \<open>
  Texts split and searched, and \<open>JSON.parse\<close>, as the commands use it on the text of an opening that \<open>JSON.stringify\<close> wrote: a recursive
  descent over the text. A member that occurs twice keeps its first place and its last value, and members
  named like array indices come first. Escaped code units of 256 and above are outside the model's strings.
\<close>

section \<open>Parts of texts\<close>

text \<open>\<open>s.split(d)\<close> for one character, and \<open>s.includes(pat)\<close>.\<close>

fun split_on :: "char \<Rightarrow> string \<Rightarrow> string list" where
  "split_on d [] = [[]]"
| "split_on d (c # cs) = (if c = d then [] # split_on d cs
     else case split_on d cs of p # ps \<Rightarrow> (c # p) # ps | [] \<Rightarrow> [[c]])"

fun contains :: "string \<Rightarrow> string \<Rightarrow> bool" where
  "contains pat [] \<longleftrightarrow> pat = []"
| "contains pat (c # cs) \<longleftrightarrow> take (length pat) (c # cs) = pat \<or> contains pat cs"

lemma split_on_nonempty: "split_on d s \<noteq> []"
  by (induction s) (auto split: list.splits)

section \<open>Lexical parts\<close>

definition json_space :: "char \<Rightarrow> bool" where
  "json_space c \<longleftrightarrow> c \<in> {CHR 0x20, CHR 0x09, CHR 0x0A, CHR 0x0D}"

definition skip_ws :: "string \<Rightarrow> string" where
  "skip_ws s = dropWhile json_space s"

definition unescape :: "char \<Rightarrow> char option" where
  "unescape c = map_of [(CHR 0x22, CHR 0x22), (CHR 0x5C, CHR 0x5C), (CHR ''/'', CHR ''/''), (CHR ''b'', CHR 0x08),
     (CHR ''f'', CHR 0x0C), (CHR ''n'', CHR 0x0A), (CHR ''r'', CHR 0x0D), (CHR ''t'', CHR 0x09)] c"

definition cons_char :: "char \<Rightarrow> (string \<times> string) result \<Rightarrow> (string \<times> string) result" where
  "cons_char c r = map_sum id (\<lambda>(s, rest). (c # s, rest)) r"

text \<open>The characters of a string after its opening quote, and the text after the closing one.\<close>

fun parse_chars :: "string \<Rightarrow> (string \<times> string) result" where
  "parse_chars [] = Inl SyntaxError"
| "parse_chars (c # cs) =
     (if c = CHR 0x22 then Inr ([], cs)
      else if c = CHR 0x5C then
        (case cs of [] \<Rightarrow> Inl SyntaxError
         | e # r \<Rightarrow>
            if e = CHR ''u'' then
              (case r of a # b # d # f # r' \<Rightarrow>
                 (case radix_val 16 [a, b, d, f] of None \<Rightarrow> Inl SyntaxError
                  | Some n \<Rightarrow> if n < 256 then cons_char (char_of (nat n)) (parse_chars r') else Inl IllTyped)
               | _ \<Rightarrow> Inl SyntaxError)
            else (case unescape e of None \<Rightarrow> Inl SyntaxError | Some x \<Rightarrow> cons_char x (parse_chars r)))
      else if of_char c < (32 :: nat) then Inl SyntaxError
      else cons_char c (parse_chars cs))"

text \<open>\<open>-?(0|[1-9]\d*)(\.\d+)?([eE][+-]?\d+)?\<close>.\<close>

definition json_number :: "string \<Rightarrow> bool" where
  "json_number s =
     (let t = (if s \<noteq> [] \<and> hd s = CHR ''-'' then tl s else s);
          ip = takeWhile is_digit t; r = dropWhile is_digit t;
          dot = (r \<noteq> [] \<and> hd r = CHR ''.'');
          fp = (if dot then takeWhile is_digit (tl r) else []);
          rest = (if dot then dropWhile is_digit (tl r) else r)
      in ip \<noteq> [] \<and> (hd ip = CHR ''0'' \<longrightarrow> ip = ''0'') \<and> (dot \<longrightarrow> fp \<noteq> []) \<and> exp_part rest \<noteq> None)"

definition number_char :: "char \<Rightarrow> bool" where
  "number_char c \<longleftrightarrow> is_digit c \<or> c \<in> set ''+-.eE''"

text \<open>\<open>true\<close>, \<open>false\<close>, \<open>null\<close> or a number; a number ends before the first character it cannot hold.\<close>

definition parse_scalar :: "string \<Rightarrow> (json \<times> string) result" where
  "parse_scalar s =
     (if take 4 s = ''null'' then Inr (JNull, drop 4 s)
      else if take 4 s = ''true'' then Inr (JBool True, drop 4 s)
      else if take 5 s = ''false'' then Inr (JBool False, drop 5 s)
      else let l = takeWhile number_char s
           in if json_number l then Inr (JNum (str_num l), dropWhile number_char s) else Inl SyntaxError)"

section \<open>Objects\<close>

text \<open>An object lists the keys that are array indices first, in numeric order.\<close>

definition index_key :: "string \<Rightarrow> bool" where
  "index_key k \<longleftrightarrow> k \<noteq> [] \<and> list_all is_digit k \<and> (k = ''0'' \<or> hd k \<noteq> CHR ''0'') \<and> digits_val k < 4294967295"

definition object_order :: "(string \<times> 'a) list \<Rightarrow> (string \<times> 'a) list" where
  "object_order ms = sort_key (\<lambda>(k, _). digits_val k) (filter (\<lambda>(k, _). index_key k) ms) @ filter (\<lambda>(k, _). \<not> index_key k) ms"

definition json_object :: "(string \<times> json) list \<Rightarrow> json" where
  "json_object ms = JObj (object_order (map_new ms))"

section \<open>Values\<close>

lemma skip_ws_length: "skip_ws s = c # r \<Longrightarrow> length r < length s"
  using length_dropWhile_le [of json_space s] by (simp add: skip_ws_def)

text \<open>The rest after an element is always shorter, so the tests of its length never fail; they make the
  recursion visibly end.\<close>

function parse_value :: "string \<Rightarrow> (json \<times> string) result"
  and parse_elems :: "string \<Rightarrow> (json list \<times> string) result"
  and parse_members :: "string \<Rightarrow> ((string \<times> json) list \<times> string) result"
where
  "parse_value s =
     (case skip_ws s of [] \<Rightarrow> Inl SyntaxError
      | c # r \<Rightarrow>
         if c = CHR ''{'' then
           (if skip_ws r \<noteq> [] \<and> hd (skip_ws r) = CHR ''}'' then Inr (JObj [], tl (skip_ws r))
            else case parse_members r of Inl e \<Rightarrow> Inl e | Inr (ms, q) \<Rightarrow> Inr (json_object ms, q))
         else if c = CHR ''['' then
           (if skip_ws r \<noteq> [] \<and> hd (skip_ws r) = CHR '']'' then Inr (JArr [], tl (skip_ws r))
            else case parse_elems r of Inl e \<Rightarrow> Inl e | Inr (vs, q) \<Rightarrow> Inr (JArr vs, q))
         else if c = CHR 0x22 then (case parse_chars r of Inl e \<Rightarrow> Inl e | Inr (t, q) \<Rightarrow> Inr (JStr t, q))
         else parse_scalar (c # r))"
| "parse_elems s =
     (case parse_value s of Inl e \<Rightarrow> Inl e
      | Inr (v, q) \<Rightarrow>
         (case skip_ws q of [] \<Rightarrow> Inl SyntaxError
          | c # r \<Rightarrow>
             if c = CHR '']'' then Inr ([v], r)
             else if c = CHR '','' \<and> length r < length s
             then (case parse_elems r of Inl e \<Rightarrow> Inl e | Inr (vs, q') \<Rightarrow> Inr (v # vs, q'))
             else Inl SyntaxError))"
| "parse_members s =
     (case skip_ws s of [] \<Rightarrow> Inl SyntaxError
      | c # r \<Rightarrow>
         if c \<noteq> CHR 0x22 then Inl SyntaxError
         else case parse_chars r of Inl e \<Rightarrow> Inl e
           | Inr (k, q) \<Rightarrow>
              (case skip_ws q of [] \<Rightarrow> Inl SyntaxError
               | c' # r' \<Rightarrow>
                  if c' = CHR '':'' \<and> length r' < length s then
                    (case parse_value r' of Inl e \<Rightarrow> Inl e
                     | Inr (v, q') \<Rightarrow>
                        (case skip_ws q' of [] \<Rightarrow> Inl SyntaxError
                         | c'' # r'' \<Rightarrow>
                            if c'' = CHR ''}'' then Inr ([(k, v)], r'')
                            else if c'' = CHR '','' \<and> length r'' < length s
                            then (case parse_members r'' of Inl e \<Rightarrow> Inl e | Inr (ms, q'') \<Rightarrow> Inr ((k, v) # ms, q''))
                            else Inl SyntaxError))
                  else Inl SyntaxError))"
  by pat_completeness auto

termination
  by (relation "measure (\<lambda>x. case x of Inl s \<Rightarrow> 2 * length s | Inr (Inl s) \<Rightarrow> 2 * length s + 1 | Inr (Inr s) \<Rightarrow> 2 * length s + 1)")
    (auto dest: skip_ws_length)

declare parse_value.simps [simp del] parse_elems.simps [simp del] parse_members.simps [simp del]

definition json_parse :: "string \<Rightarrow> json result" where
  "json_parse s = (case parse_value s of Inl e \<Rightarrow> Inl e
     | Inr (v, r) \<Rightarrow> if skip_ws r = [] then Inr v else Inl SyntaxError)"

section \<open>Whole numbers\<close>

lemma dec_str_shift: "0 < s \<Longrightarrow> dec_str (s * 10 ^ m) = dec_str s @ replicate m CHR ''0''"
proof (induction m)
  case (Suc m)
  have "1 * 1 \<le> s * 10 ^ m" using Suc.prems by (intro mult_mono) auto
  then have "10 \<le> s * 10 ^ Suc m" by simp
  moreover have "s * 10 ^ Suc m div 10 = s * 10 ^ m" "s * 10 ^ Suc m mod 10 = 0" by simp_all
  moreover have "digit_char 0 = CHR ''0''" by (simp add: digit_char_def digit_chars_def)
  ultimately show ?case using Suc by (simp add: dec_str.simps [of "s * 10 ^ Suc m"] replicate_append_same del: power_Suc)
qed simp

lemma shortest_whole:
  assumes "0 < n" "n < 10 ^ N" "N \<le> 15" "k \<le> N" "N < k + fuel"
  shows "\<exists>k' s. shortest_digits fuel k (of_int n) (int N) = (k', s) \<and> k' \<le> N \<and> 0 < s \<and> s * 10 ^ (N - k') = n"
  using assms(4,5)
proof (induction fuel arbitrary: k)
  case (Suc fuel)
  define e where "e = N - k"
  define q where "q = (of_int n :: rat) * 10 powi (int k - int N)"
  have p: "(10 :: rat) powi (int N - int k) = of_int (10 ^ e)" using Suc.prems(1) by (simp add: e_def power_int_def nat_diff_distrib')
  have qe: "q * of_int (10 ^ e) = of_int n"
    unfolding q_def p [symmetric] by (simp add: mult.assoc flip: power_int_add)
  have big: "(10 :: int) ^ N \<le> 10 ^ 15" using assms(3) by (intro power_increasing) auto
  have ex: "rnd (of_int s * 10 powi (int N - int k)) = Fin (of_int n) \<Longrightarrow> s * 10 ^ e = n" if "0 \<le> s" "s < 10 ^ k" for s
  proof -
    have "s * 10 ^ e < 10 ^ k * 10 ^ e" using that by (intro mult_strict_right_mono) auto
    also have "\<dots> = (10 :: int) ^ N" using Suc.prems(1) by (simp add: e_def flip: power_add)
    finally have "\<bar>s * 10 ^ e\<bar> \<le> 2 ^ 53" using that(1) big by simp
    from rnd_int [OF this] show "rnd (of_int s * 10 powi (int N - int k)) = Fin (of_int n) \<Longrightarrow> s * 10 ^ e = n"
      unfolding p by (simp flip: of_int_mult of_int_power)
  qed
  define ok where "ok = (\<lambda>s. 0 < s \<and> s < 10 ^ k \<and> rnd (of_int s * 10 powi (int N - int k)) = Fin (of_int n))"
  have okD: "0 < s \<and> s * 10 ^ e = n" if "ok s" for s using that ex [of s] by (auto simp: ok_def)
  have u: "shortest_digits (Suc fuel) k (of_int n) (int N) =
      (if ok \<lfloor>q\<rfloor> \<and> (\<not> ok (\<lfloor>q\<rfloor> + 1) \<or> q - of_int \<lfloor>q\<rfloor> \<le> of_int (\<lfloor>q\<rfloor> + 1) - q) then (k, \<lfloor>q\<rfloor>)
       else if ok (\<lfloor>q\<rfloor> + 1) then (k, \<lfloor>q\<rfloor> + 1) else shortest_digits fuel (Suc k) (of_int n) (int N))"
    by (simp only: shortest_digits.simps Let_def q_def ok_def)
  show ?case
  proof (cases "k = N")
    case True
    then have q: "q = of_int n" by (simp add: q_def)
    have "\<bar>n\<bar> \<le> 2 ^ 53" using assms(1,2) big by simp
    then have "ok n" using assms(1,2) True rnd_int [of n] by (simp add: ok_def)
    then have "shortest_digits (Suc fuel) k (of_int n) (int N) = (k, n)" unfolding u q by simp
    then show ?thesis using assms(1) True by simp
  next
    case False
    then have "Suc k \<le> N" "N < Suc k + fuel" using Suc.prems by auto
    from Suc.IH [OF this] obtain k' s where i: "shortest_digits fuel (Suc k) (of_int n) (int N) = (k', s)" "k' \<le> N" "0 < s" "s * 10 ^ (N - k') = n"
      by blast
    show ?thesis
    proof (cases "ok \<lfloor>q\<rfloor> \<and> (\<not> ok (\<lfloor>q\<rfloor> + 1) \<or> q - of_int \<lfloor>q\<rfloor> \<le> of_int (\<lfloor>q\<rfloor> + 1) - q)")
      case True
      then show ?thesis unfolding u if_P [OF True] using okD [of "\<lfloor>q\<rfloor>"] Suc.prems(1) by (auto simp: e_def)
    next
      case no: False
      show ?thesis
      proof (cases "ok (\<lfloor>q\<rfloor> + 1)")
        case True
        then show ?thesis unfolding u if_not_P [OF no] if_P [OF True] using okD [OF True] Suc.prems(1) by (auto simp: e_def)
      next
        case False
        then show ?thesis unfolding u if_not_P [OF no] if_not_P [OF False] using i by blast
      qed
    qed
  qed
qed simp

text \<open>A whole number below \<open>10 ^ 15\<close> prints as its digits.\<close>

lemma num_str_whole:
  assumes "0 \<le> n" "n < 10 ^ 15"
  shows "num_str (Fin (of_int n)) = dec_str n"
proof (cases "n = 0")
  case True
  then show ?thesis by (simp add: dec_str.simps digit_char_def digit_chars_def)
next
  case False
  then have n: "0 < n" using assms(1) by simp
  define e where "e = flog 10 (of_int n :: rat)"
  have f: "(10 :: rat) powi e \<le> of_int n" "of_int n < (10 :: rat) powi (e + 1)"
    using flog_spec [of 10 "of_int n"] n by (simp_all add: e_def)
  have e0: "0 \<le> e" using n by (simp add: e_def flog_def)
  define N where "N = nat (e + 1)"
  have N: "int N = e + 1" using e0 by (simp add: N_def)
  have "(of_int n :: rat) < of_int (10 ^ N)" using f(2) N by (metis of_int_numeral of_int_power power_int_of_nat)
  then have lt: "n < 10 ^ N" by (simp only: of_int_less_iff)
  have "(of_int (10 ^ nat e) :: rat) \<le> of_int n" using f(1) e0 by (simp add: power_int_def)
  then have "(10 :: int) ^ nat e \<le> n" by (simp only: of_int_le_iff)
  then have "(10 :: int) ^ nat e < 10 ^ 15" using assms(2) by simp
  then have "nat e < 15" by (rule power_less_imp_less_exp [rotated]) simp
  then have N15: "N \<le> 15" "1 \<le> N" using e0 by (simp_all add: N_def)
  obtain k s where k: "shortest_digits 17 1 (of_int n) (int N) = (k, s)" "k \<le> N" "0 < s" "s * 10 ^ (N - k) = n"
    using shortest_whole [OF n lt N15(1,2), of 17] N15 by auto
  have "pos_str (of_int n) = dec_str s @ replicate (N - k) CHR ''0''"
  proof -
    have "flog 10 (of_int n :: rat) + 1 = int N" using N by (simp add: e_def)
    then show ?thesis unfolding pos_str_def Let_def using k(2) N15(1) by (simp only: k(1) fst_conv snd_conv) simp
  qed
  then show ?thesis using k(3,4) n dec_str_shift [of s "N - k"] by simp
qed

lemma dec_str_leading: "0 \<le> n \<Longrightarrow> hd (dec_str n) = CHR ''0'' \<Longrightarrow> n = 0"
proof (induction n rule: dec_str.induct)
  case (1 n)
  show ?case
  proof (cases "n < 10")
    case True
    then have "digit_char (nat n) = CHR ''0''" using 1 by (simp add: dec_str.simps [of n])
    then have "digit_val (digit_char (nat n)) = 0" by (simp only: digit_val_zero)
    then show ?thesis using True 1(2) by simp
  next
    case False
    then have "hd (dec_str (n div 10)) = CHR ''0''" using 1(3) by (simp add: dec_str.simps [of n])
    then have "n div 10 = 0" using 1(1) False by simp
    moreover have "1 \<le> n div 10" using False by simp
    ultimately show ?thesis by simp
  qed
qed

section \<open>Reading back what was written\<close>

text \<open>Values that are written and read back as they are: finite numbers whose text denotes them, objects
  that list their members the way the language does.\<close>

definition num_ok :: "jsnum \<Rightarrow> bool" where
  "num_ok x \<longleftrightarrow> isFinite x \<and> json_number (num_str x) \<and> list_all number_char (num_str x) \<and> str_num (num_str x) = x"

fun json_ok :: "json \<Rightarrow> bool" where
  "json_ok (JNum x) = num_ok x"
| "json_ok (JArr xs) = list_all json_ok xs"
| "json_ok (JObj ms) = (distinct (map fst ms) \<and> object_order ms = ms \<and> list_all (\<lambda>(k, v). json_ok v) ms)"
| "json_ok _ = True"

lemma num_ok_whole:
  assumes "0 \<le> n" "n < 10 ^ 15"
  shows "num_ok (Fin (of_int n))"
proof -
  have d: "\<forall>c \<in> set (dec_str n). is_digit c" by (rule dec_str_digits)
  then have t: "takeWhile is_digit (dec_str n) = dec_str n" "dropWhile is_digit (dec_str n) = []"
    by (simp_all add: dropWhile_eq_Nil_conv)
  have "hd (dec_str n) \<noteq> CHR ''-''" using d hd_in_set [OF dec_str_nonempty [of n]] digit_not_special by blast
  moreover have "dec_str 0 = ''0''" by (simp add: dec_str.simps digit_char_def digit_chars_def)
  ultimately have "json_number (dec_str n)"
    unfolding json_number_def using dec_str_leading [OF assms(1)]
    by (auto simp only: t Let_def exp_part_def dec_str_nonempty simp_thms if_False if_True list.case option.distinct)
  moreover have "\<bar>n\<bar> \<le> 2 ^ 53" using assms by simp
  ultimately show ?thesis
    using d assms rnd_int [of n] by (auto simp: num_ok_def num_str_whole str_num_dec_str list_all_iff number_char_def simp del: num_str.simps)
qed

lemma hex_escape: "n < 32 \<Longrightarrow> radix_val 16 [CHR ''0'', CHR ''0'', hex_digit (n div 16), hex_digit (n mod 16)] = Some (int n)"
proof -
  have "\<forall>n \<in> set [0..<32]. radix_val 16 [CHR ''0'', CHR ''0'', hex_digit (n div 16), hex_digit (n mod 16)] = Some (int n)" by code_simp
  then show "n < 32 \<Longrightarrow> ?thesis" by simp
qed

lemma parse_json_char: "parse_chars (json_char c @ s) = cons_char c (parse_chars s)"
proof -
  consider "of_char c \<in> {8, 9, 10, 12, 13, 34, 92 :: nat}" | "of_char c \<notin> {8, 9, 10, 12, 13, 34, 92 :: nat}" "of_char c < (32 :: nat)"
    | "of_char c \<notin> {34, 92 :: nat}" "32 \<le> (of_char c :: nat)" by force
  then show ?thesis
  proof cases
    case 1
    then have "char_of (of_char c :: nat) \<in> char_of ` {8, 9, 10, 12, 13, 34, 92 :: nat}" by (rule imageI)
    then have "c \<in> set (map char_of [8, 9, 10, 12, 13, 34, 92 :: nat])" by simp
    also have "map char_of [8, 9, 10, 12, 13, 34, 92 :: nat] = [CHR 0x08, CHR 0x09, CHR 0x0A, CHR 0x0C, CHR 0x0D, CHR 0x22, CHR 0x5C]"
      by code_simp
    finally show ?thesis by (auto simp: json_char_def unescape_def)
  next
    case 2
    let ?n = "of_char c :: nat"
    have "json_char c = [CHR 0x5C, CHR ''u'', CHR ''0'', CHR ''0'', hex_digit (?n div 16), hex_digit (?n mod 16)]"
      using 2 by (simp add: json_char_def Let_def)
    then show ?thesis using hex_escape [OF 2(2)] 2(2) by simp
  next
    case 3
    have "c \<noteq> CHR 0x22" "c \<noteq> CHR 0x5C" using 3(1) by auto
    then show ?thesis using 3 by (simp add: json_char_def Let_def)
  qed
qed

lemma parse_chars_string: "parse_chars (concat (map json_char t) @ CHR 0x22 # rest) = Inr (t, rest)"
  by (induction t) (simp_all add: parse_json_char cons_char_def)

lemma skip_ws_id: "s = [] \<or> \<not> json_space (hd s) \<Longrightarrow> skip_ws s = s"
  by (cases s) (auto simp: skip_ws_def)

lemma quote_not_space [simp]: "\<not> json_space CHR 0x22" "\<not> json_space CHR ''{''" "\<not> json_space CHR ''[''" "\<not> json_space CHR '']''"
  "\<not> json_space CHR ''}''" "\<not> json_space CHR '',''" "\<not> json_space CHR '':''" "\<not> json_space CHR ''n''" "\<not> json_space CHR ''t''" "\<not> json_space CHR ''f''"
  "\<not> json_space CHR ''-''"
  by (simp_all add: json_space_def)

lemma skip_ws_Cons [simp]: "\<not> json_space c \<Longrightarrow> skip_ws (c # s) = c # s"
  by (simp add: skip_ws_def)

lemma digit_facts: "is_digit c \<Longrightarrow> \<not> json_space c \<and> c \<notin> {CHR ''{'', CHR ''['', CHR 0x22, CHR ''n'', CHR ''t'', CHR ''f'', CHR '']''}"
  by (auto simp: is_digit_def digit_chars_def json_space_def)

lemma json_number_hd:
  assumes "json_number l"
  shows "\<exists>c r. l = c # r \<and> (c = CHR ''-'' \<or> is_digit c)"
proof (cases l)
  case (Cons c r)
  show ?thesis
  proof (cases "c = CHR ''-''")
    case False
    then have "takeWhile is_digit (c # r) \<noteq> []" using assms Cons by (simp add: json_number_def Let_def del: takeWhile.simps)
    then show ?thesis using Cons by (cases "is_digit c") auto
  qed (use Cons in simp)
qed (use assms in \<open>simp add: json_number_def\<close>)

text \<open>How the text of a value starts.\<close>

lemma stringify_start:
  assumes "json_ok v"
  obtains c r where "stringify v = c # r" "\<not> json_space c" "c \<noteq> CHR '']''"
proof -
  have "\<exists>c r. stringify v = c # r \<and> \<not> json_space c \<and> c \<noteq> CHR '']''"
  proof (cases v)
    case (JNum x)
    then obtain y where x: "x = Fin y" using assms by (cases x) (auto simp: num_ok_def)
    have "json_number (num_str x)" using assms JNum by (simp add: num_ok_def)
    from json_number_hd [OF this] obtain c r where c: "num_str x = c # r" "c = CHR ''-'' \<or> is_digit c" by blast
    then show ?thesis using JNum x digit_facts [of c] by (auto simp del: num_str.simps)
  qed (auto simp: json_string_def)
  then show thesis using that by blast
qed

lemma parse_number:
  assumes "num_ok x" "rest = [] \<or> \<not> number_char (hd rest)"
  shows "parse_value (num_str x @ rest) = Inr (JNum x, rest)"
proof -
  let ?l = "num_str x"
  have n: "json_number ?l" "list_all number_char ?l" "str_num ?l = x" using assms(1) by (simp_all add: num_ok_def)
  obtain c r where l: "?l = c # r" "c = CHR ''-'' \<or> is_digit c" using json_number_hd [OF n(1)] by blast
  have f: "\<not> json_space c" "c \<notin> {CHR ''{'', CHR ''['', CHR 0x22, CHR ''n'', CHR ''t'', CHR ''f''}"
    using l(2) digit_facts [of c] by auto
  have tw: "takeWhile number_char (?l @ rest) = ?l" "dropWhile number_char (?l @ rest) = rest"
    using n(2) assms(2) by (cases rest; auto simp: list_all_iff takeWhile_append dropWhile_append)+
  have "parse_value (?l @ rest) = parse_scalar (?l @ rest)" using f l(1) by (simp add: parse_value.simps)
  also have "\<dots> = Inr (JNum x, rest)"
  proof -
    have "take 4 (?l @ rest) \<noteq> ''null''" "take 4 (?l @ rest) \<noteq> ''true''" "take 5 (?l @ rest) \<noteq> ''false''"
      using l(1) f(2) by (auto simp: take_Cons')
    then show ?thesis unfolding parse_scalar_def tw Let_def using n by simp
  qed
  finally show ?thesis .
qed

definition reads_back :: "json \<Rightarrow> bool" where
  "reads_back v \<longleftrightarrow> (\<forall>rest. (rest = [] \<or> \<not> number_char (hd rest)) \<longrightarrow> parse_value (stringify v @ rest) = Inr (v, rest))"

lemma reads_backD: "reads_back v \<Longrightarrow> q = [] \<or> \<not> number_char (hd q) \<Longrightarrow> parse_value (stringify v @ q) = Inr (v, q)"
  unfolding reads_back_def by blast

lemma sep_not_number [simp]: "\<not> number_char CHR '',''" "\<not> number_char CHR '']''" "\<not> number_char CHR ''}''"
  by (simp_all add: number_char_def is_digit_def digit_chars_def)

lemma parse_elems_join:
  "xs \<noteq> [] \<Longrightarrow> \<forall>v \<in> set xs. reads_back v \<Longrightarrow>
    parse_elems (join_with '','' (map stringify xs) @ CHR '']'' # rest) = Inr (xs, rest)"
proof (induction xs)
  case (Cons v vs)
  have r: "parse_value (stringify v @ q) = Inr (v, q)" if "q = [] \<or> \<not> number_char (hd q)" for q
    using Cons.prems(2) that by (intro reads_backD) simp_all
  show ?case
  proof (cases vs)
    case Nil
    then show ?thesis using r [of "CHR '']'' # rest"] by (simp add: parse_elems.simps)
  next
    case (Cons w ws)
    let ?t = "join_with '','' (map stringify (w # ws)) @ CHR '']'' # rest"
    have t: "parse_elems ?t = Inr (w # ws, rest)" using Cons.IH Cons.prems Cons by simp
    have e: "join_with '','' (map stringify (v # w # ws)) @ CHR '']'' # rest = stringify v @ CHR '','' # ?t" by simp
    show ?thesis unfolding Cons e using r [of "CHR '','' # ?t"] t by (subst parse_elems.simps) simp
  qed
qed simp

abbreviation member_text :: "string \<times> json \<Rightarrow> string" where
  "member_text \<equiv> \<lambda>(k, v). json_string k @ '':'' @ stringify v"

lemma parse_members_join:
  "ms \<noteq> [] \<Longrightarrow> \<forall>(k, v) \<in> set ms. reads_back v \<Longrightarrow>
    parse_members (join_with '','' (map member_text ms) @ CHR ''}'' # rest) = Inr (ms, rest)"
proof (induction ms)
  case (Cons m ms)
  obtain k v where m: "m = (k, v)" by (cases m)
  have r: "parse_value (stringify v @ q) = Inr (v, q)" if "q = [] \<or> \<not> number_char (hd q)" for q
    using Cons.prems(2) that m by (intro reads_backD) simp_all
  have s: "parse_members (member_text m @ q) =
      (case skip_ws q of [] \<Rightarrow> Inl SyntaxError
       | c'' # r'' \<Rightarrow> if c'' = CHR ''}'' then Inr ([(k, v)], r'')
         else if c'' = CHR '','' \<and> length r'' < length (member_text m @ q)
         then (case parse_members r'' of Inl e \<Rightarrow> Inl e | Inr (ms, q'') \<Rightarrow> Inr ((k, v) # ms, q'')) else Inl SyntaxError)"
    if "q \<noteq> []" "\<not> number_char (hd q)" for q
    using r [of q] that parse_chars_string [of k "CHR '':'' # stringify v @ q"] m
    by (subst parse_members.simps) (simp add: json_string_def)
  show ?case
  proof (cases ms)
    case Nil
    then show ?thesis using s [of "CHR ''}'' # rest"] m by simp
  next
    case (Cons n ns)
    let ?t = "join_with '','' (map member_text (n # ns)) @ CHR ''}'' # rest"
    have t: "parse_members ?t = Inr (n # ns, rest)" using Cons.IH Cons.prems Cons by simp
    have e: "join_with '','' (map member_text (m # n # ns)) @ CHR ''}'' # rest = member_text m @ CHR '','' # ?t" by (simp add: m)
    show ?thesis unfolding Cons e using s [of "CHR '','' # ?t"] t m by simp
  qed
qed simp

lemma update_fresh: "k \<notin> fst ` set m \<Longrightarrow> AList.update k v m = m @ [(k, v)]"
  by (induction m) auto

lemma map_new_distinct: "distinct (map fst ms) \<Longrightarrow> map_new ms = ms"
proof -
  have "distinct (map fst (m @ ms)) \<Longrightarrow> fold (\<lambda>(k, v) m. AList.update k v m) ms m = m @ ms" for m
  proof (induction ms arbitrary: m)
    case (Cons p ms)
    have "AList.update (fst p) (snd p) m = m @ [p]" using Cons.prems update_fresh [of "fst p" m "snd p"] by simp
    then show ?case using Cons.IH [of "m @ [p]"] Cons.prems by (simp add: case_prod_unfold)
  qed simp
  then show "distinct (map fst ms) \<Longrightarrow> ?thesis" unfolding map_new_def by fastforce
qed

lemma stringify_reads_back: "json_ok v \<Longrightarrow> reads_back v"
proof (induction v rule: stringify.induct)
  case (3 x)
  then have "isFinite x" by (simp add: num_ok_def)
  then obtain y where "x = Fin y" by (cases x) auto
  then show ?case using 3 parse_number [of x] by (simp add: reads_back_def del: num_str.simps)
next
  case (5 xs)
  then have i: "\<forall>v \<in> set xs. reads_back v" by (simp add: list_all_iff)
  show ?case
  proof (cases xs)
    case Nil
    then show ?thesis by (simp add: reads_back_def parse_value.simps)
  next
    case (Cons v vs)
    obtain c r where c: "stringify v = c # r" "\<not> json_space c" "c \<noteq> CHR '']''"
      using stringify_start [of v] 5(2) Cons by auto
    have h: "\<exists>r'. join_with '','' (map stringify xs) @ q = c # r'" for q using c(1) Cons by (cases vs) auto
    have e: "parse_elems (join_with '','' (map stringify xs) @ CHR '']'' # rest) = Inr (xs, rest)" for rest
      using parse_elems_join [OF _ i] Cons by simp
    show ?thesis unfolding reads_back_def
    proof (intro allI impI)
      fix rest
      obtain r' where "join_with '','' (map stringify xs) @ CHR '']'' # rest = c # r'" using h by blast
      then show "parse_value (stringify (JArr xs) @ rest) = Inr (JArr xs, rest)"
        using e [of rest] c(2,3) by (simp add: parse_value.simps)
    qed
  qed
next
  case (6 ms)
  then have i: "\<forall>(k, v) \<in> set ms. reads_back v" by (auto simp: list_all_iff)
  have o: "json_object ms = JObj ms" using 6(2) by (simp add: json_object_def map_new_distinct)
  show ?case
  proof (cases ms)
    case Nil
    then show ?thesis by (simp add: reads_back_def parse_value.simps)
  next
    case (Cons m ms')
    have h: "\<exists>r'. join_with '','' (map member_text ms) @ q = CHR 0x22 # r'" for q
      using Cons by (cases m; cases ms') (auto simp: json_string_def)
    have e: "parse_members (join_with '','' (map member_text ms) @ CHR ''}'' # rest) = Inr (ms, rest)" for rest
      using parse_members_join [OF _ i] Cons by simp
    show ?thesis unfolding reads_back_def
    proof (intro allI impI)
      fix rest
      obtain r' where "join_with '','' (map member_text ms) @ CHR ''}'' # rest = CHR 0x22 # r'" using h by blast
      then show "parse_value (stringify (JObj ms) @ rest) = Inr (JObj ms, rest)"
        using e [of rest] o by (simp add: parse_value.simps)
    qed
  qed
next
  case (4 t)
  then show ?case using parse_chars_string [of t] by (simp add: reads_back_def parse_value.simps json_string_def)
qed (auto simp: reads_back_def parse_value.simps parse_scalar_def)

lemma json_parse_stringify: "json_ok v \<Longrightarrow> json_parse (stringify v) = Inr v"
  using stringify_reads_back [of v] by (simp add: reads_back_def json_parse_def skip_ws_def)

end
