(* ===== verification/Glass.thy ===== *)
theory Glass
  imports ProductEdits Json
begin

text \<open>
  \<open>features/glass/glassModel.ts\<close>: the composition of a glass product, the defaults of its editor, and the
  patch that assigns a catalogue choice to a bay together with its derived thickness. A product stored in
  a design is the JSON object of the catalogue.
\<close>

datatype PlyType = FLOAT | TEMPERED | HEAT_STRENGTHENED | LOW_E | SOLAR | REFLECTIVE | MIRROR | SATIN | PRINTED

datatype PlyColor = CLEAR | BRONZE | GREY | GREEN

record GlassPly =
  ply_thickness_mm :: string
  ply_type :: PlyType
  ply_color :: PlyColor
  coating_face :: "nat option"
  ply_supplier_sku :: "string option"

datatype InterlayerType = PVB | ACOUSTIC_PVB

record Interlayer =
  il_thickness_mm :: "string option"
  il_type :: InterlayerType
  density_kg_m3 :: "string option"
  il_source :: "string option"

datatype Spacer = ALUMINIUM | WARM_EDGE

datatype Gas = AIR | ARGON

datatype GlassLayer =
    Pane "GlassPly list" "Interlayer list"
  | Chamber string "Spacer option" "Gas option" "string option"

datatype PolishedEdge = PE_TOP | PE_BOTTOM | PE_LEFT | PE_RIGHT

record GlassProcessing =
  polished_edges :: "PolishedEdge list"
  holes :: nat
  bars_vertical :: nat
  bars_horizontal :: nat

definition NO_PROCESSING :: GlassProcessing where
  "NO_PROCESSING = \<lparr>polished_edges = [], holes = 0, bars_vertical = 0, bars_horizontal = 0\<rparr>"

definition newPly :: GlassPly where
  "newPly = \<lparr>ply_thickness_mm = ''4'', ply_type = FLOAT, ply_color = CLEAR, coating_face = None, ply_supplier_sku = None\<rparr>"

definition newPane :: GlassLayer where
  "newPane = Pane [newPly] []"

text \<open>An object with a composition and a name; an array has neither.\<close>

definition asGlassProduct :: "json option \<Rightarrow> json option" where
  "asGlassProduct value =
     (case value of
        Some (JObj ms) \<Rightarrow> if ''composition'' \<in> fst ` set ms \<and> ''name'' \<in> fst ` set ms then Some (JObj ms) else None
      | _ \<Rightarrow> None)"

text \<open>The members of the catalogue's \<open>GlassSpecChoice\<close> that the editor reads.\<close>

record GlassSpecChoice =
  gs_sku :: string
  gs_spec :: "string option"
  gs_product :: "json option"
  total_thickness_mm :: "string field"

definition glassChoicePatch :: "GlassSpecChoice \<Rightarrow> NodeFields" where
  "glassChoicePatch choice = no_fields\<lparr>glass_article_sku := Val (gs_sku choice), glass_spec := opt_null (gs_spec choice),
     glass_thickness_mm := or_null (total_thickness_mm choice), glass_product := opt_null (asGlassProduct (gs_product choice))\<rparr>"

text \<open>Assigning a choice sets the article, the text, the thickness and the composition of a bay at once,
  whatever the bay had before, and nothing else.\<close>

lemma glassChoicePatch_atomic:
  "withGlass (Some (gs_sku c)) (opt_null (gs_spec c)) (glassChoicePatch c) d =
     d\<lparr>glass_article_sku := Val (gs_sku c), glass_spec := opt_null (gs_spec c),
       glass_thickness_mm := or_null (total_thickness_mm c), glass_product := opt_null (asGlassProduct (gs_product c))\<rparr>"
proof -
  have "spread a (or_null b) = or_null b" for a b :: "string field" by (cases b) (simp_all add: or_null_def)
  moreover have "spread a (Val x) = Val x" "spread a Undef = a" for a :: "'a field" and x by simp_all
  ultimately show ?thesis
    by (cases d) (simp add: withGlass_def glassChoicePatch_def patch_fields_def no_fields_def)
qed

end
