(* ===== verification/Commands.thy ===== *)
theory Commands
  imports CanvasStore Openings Glass
begin

text \<open>
  \<open>features/commands/types.ts\<close> and \<open>registry.ts\<close>: command definitions shared by every surface, their
  resolution against the live context, the single dispatch path, keyboard shortcuts and the dispatch of
  wire operations. A command's functions are members of its record, and any of them may throw; what a
  command does to the editor is the list of effects it asks of its context, in order, and the exception
  that ended it, if one did. The registry never looks inside a product, so its type is a parameter;
  \<open>None\<close> from \<open>apply\<close> is the same product object. Texts beyond ASCII are written as their UTF-8 bytes; the
  letters of shortcuts are ASCII.
\<close>

section \<open>Types\<close>

type_synonym CommandArgs = "(string \<times> string) list"

text \<open>\<open>{ op: string } & Record<string, unknown>\<close>.\<close>

type_synonym DesignOp = "(string \<times> json) list"

record 'p DesignOpState =
  addedModules :: "json option list"
  addedCouplings :: "json option list"
  state_origin :: 'p

datatype EditorTool = T_SELECT | T_SPLIT_V | T_SPLIT_H

record CommandCatalog =
  cat_openingChoices :: "OpeningChoice list option"
  compatibleOpenings :: "string list option"
  glassThicknesses :: "string list"
  glassSkus :: "string list"
  glassSpecs :: "GlassSpecChoice list option"
  couplerSkus :: "string list"
  panelSkus :: "string list"
  mullionSkus :: "(NodeType \<times> string) list"

text \<open>The context: its data, and for each optional callback whether it is there.\<close>

record 'p CommandContext =
  cx_product :: 'p
  cx_selection :: "string option"
  cx_catalog :: CommandCatalog
  cx_disabled :: bool
  cx_simulate :: bool
  cx_propose :: bool
  cx_setTool :: bool
  cx_focusAssistant :: bool
  cx_undo :: bool
  cx_redo :: bool
  canUndo :: bool
  canRedo :: bool
  cx_specClipboard :: "SpecClipboard option"
  cx_writeSpecClipboard :: bool
  cx_lastMutation :: "LastMutation option"
  cx_recordMutation :: bool

text \<open>The operations of the wire that commands ask the engine for (\<open>DesignOperationRequest\<close>); the bay of an
  operation on a whole module is absent.\<close>

record BaySpecPatch =
  bp_hardware_set_sku :: "string field"
  bp_hardware_selection :: "json field"
  bp_glass_processing :: "json field"
  bp_sill_height_mm :: "string field"
  bp_is_sidelight :: "bool field"
  bp_door_handedness :: "side field"

datatype DesignOperationRequest =
    SetOpening string "string option" "PhysicalOpening + Opening" "OpeningUse option" "HingedLayout field" "SlidingLayout field"
  | SetGlass string "string option" string
  | SetPanel string "string option" "string option"
  | SetHandleHeight string string string
  | SetBaySpec string string BaySpecPatch
  | SetSlidingLayout string string nat string "nat option list" "side option list"
  | AddUnit side
  | SetModuleCountOp int
  | SetHeight string
  | SetTotalWidth string
  | SetModuleWidthOp string string
  | SetGlassThickness string string
  | ClearGlassThickness string
  | EqualizeWidths
  | EqualizeAngles
  | EqualizeBays string nat string
  | DuplicateModuleOp string
  | AddStackedUnitOp string
  | RemoveUnitOp string
  | InsertModule string
  | RemoveCoupling string
  | SetCouplingAngleOp string string
  | SetCouplingKindOp string CouplingKind
  | SetCouplerSkuOp string "string option"
  | SwapModulesOp string string
  | SetModuleTreeOp string IntentNode
  | RemoveDivider string string "string option"

datatype 'p Effect =
    Commit 'p
  | Simulate "DesignOperationRequest list" string CommandArgs
  | Propose "DesignOperationRequest list"
  | SelectObject "string option"
  | SetTool EditorTool
  | FocusAssistant
  | UndoEffect
  | RedoEffect
  | WriteSpecClipboard SpecClipboard
  | RecordMutationEffect string CommandArgs

text \<open>What a call did to the editor, and the exception that ended it.\<close>

type_synonym 'p Run = "'p Effect list \<times> js_error option"

record NumberParam =
  np_id :: string
  np_label :: string
  np_unit :: "string option"
  defaultValue :: "string option"
  np_validate :: "(string \<Rightarrow> string option) option"

record ChoiceParam =
  cp_id :: string
  cp_label :: string
  cp_options :: "(string \<times> string) list"

datatype CommandParam = NumberP NumberParam | ChoiceP ChoiceParam

record 'p AiBinding =
  ai_op :: string
  ai_decode :: "DesignOp \<Rightarrow> 'p \<Rightarrow> 'p DesignOpState option \<Rightarrow> CommandArgs option result"

datatype Shortcut = OneKey string | ManyKeys "string list"

record 'p CommandSpec =
  spec_id :: string
  title :: string
  spec_keywords :: "string list option"
  shortcut :: "Shortcut option"
  params :: "('p CommandContext \<Rightarrow> CommandParam list result) option"
  applicable :: "('p CommandContext \<Rightarrow> bool result) option"
  mutates :: "bool option"
  describe :: "(CommandArgs \<Rightarrow> string result) option"
  spec_apply :: "('p CommandContext \<Rightarrow> CommandArgs \<Rightarrow> 'p option result) option"
  postCommit :: "('p CommandContext \<Rightarrow> 'p \<Rightarrow> 'p \<Rightarrow> CommandArgs \<Rightarrow> 'p Run) option"
  spec_run :: "('p CommandContext \<Rightarrow> CommandArgs \<Rightarrow> 'p Run) option"
  spec_ai :: "'p AiBinding option"
  operation :: "('p CommandContext \<Rightarrow> CommandArgs \<Rightarrow> DesignOperationRequest list option result) option"

record 'p ResolvedCommand =
  rc_id :: string
  rc_title :: string
  rc_keywords :: "string list option"
  rc_shortcut :: "string option"
  rc_shortcuts :: "string list option"
  rc_params :: "CommandParam list option"
  rc_describe :: "(CommandArgs \<Rightarrow> string result) option"
  rc_run :: "CommandArgs \<Rightarrow> 'p Run"

section \<open>Dispatch\<close>

definition run_ok :: "'p Effect list \<Rightarrow> 'p Run" where
  "run_ok es = (es, None)"

definition run_then :: "'a result \<Rightarrow> ('a \<Rightarrow> 'p Run) \<Rightarrow> 'p Run" where
  "run_then r f = (case r of Inl e \<Rightarrow> ([], Some e) | Inr x \<Rightarrow> f x)"

definition after :: "'p Effect list \<Rightarrow> 'p Run \<Rightarrow> 'p Run" where
  "after es r = (es @ fst r, snd r)"

definition runCommand :: "'p CommandContext \<Rightarrow> 'p CommandSpec \<Rightarrow> CommandArgs \<Rightarrow> 'p Run" where
  "runCommand ctx spec args =
     (case (if cx_simulate ctx then operation spec else None) of
        Some opn \<Rightarrow> run_then (opn ctx args) (\<lambda>ops. run_ok (case ops of
            Some ops \<Rightarrow> if ops \<noteq> [] then [Simulate ops (spec_id spec) args] else []
          | None \<Rightarrow> []))
      | None \<Rightarrow>
          (case spec_apply spec of
             Some app \<Rightarrow> run_then (app ctx args) (\<lambda>r. case r of
                 None \<Rightarrow> run_ok []
               | Some next' \<Rightarrow> after ([Commit next'] @ (if cx_recordMutation ctx then [RecordMutationEffect (spec_id spec) args] else []))
                   (case postCommit spec of None \<Rightarrow> run_ok [] | Some post \<Rightarrow> post ctx (cx_product ctx) next' args))
           | None \<Rightarrow> (case spec_run spec of None \<Rightarrow> run_ok [] | Some r \<Rightarrow> r ctx args)))"

definition offered :: "'p CommandContext \<Rightarrow> 'p CommandSpec \<Rightarrow> bool result" where
  "offered ctx spec = map_sum id (\<lambda>a. a \<and> \<not> (cx_disabled ctx \<and> (spec_apply spec \<noteq> None \<or> mutates spec = Some True)))
     (case applicable spec of None \<Rightarrow> Inr True | Some f \<Rightarrow> f ctx)"

text \<open>\<open>xs.filter(f)\<close> with an \<open>f\<close> that may throw.\<close>

fun filter_result :: "('a \<Rightarrow> bool result) \<Rightarrow> 'a list \<Rightarrow> 'a list result" where
  "filter_result f [] = Inr []"
| "filter_result f (x # xs) = result_bind (f x) (\<lambda>keep. result_bind (filter_result f xs) (\<lambda>ys. Inr (if keep then x # ys else ys)))"

definition shortcut_list :: "Shortcut option \<Rightarrow> string list option" where
  "shortcut_list s = (case s of None \<Rightarrow> None | Some (OneKey k) \<Rightarrow> Some [k] | Some (ManyKeys ks) \<Rightarrow> Some ks)"

text \<open>The translation function of the interface is a parameter.\<close>

definition resolve_one_command :: "(string \<Rightarrow> string) \<Rightarrow> 'p CommandContext \<Rightarrow> 'p CommandSpec \<Rightarrow> 'p ResolvedCommand result" where
  "resolve_one_command t ctx spec =
     map_sum id (\<lambda>ps. \<lparr>rc_id = spec_id spec, rc_title = t (title spec), rc_keywords = spec_keywords spec,
         rc_shortcut = Option.bind (shortcut_list (shortcut spec)) first_opt, rc_shortcuts = shortcut_list (shortcut spec),
         rc_params = ps, rc_describe = describe spec, rc_run = runCommand ctx spec\<rparr>)
       (case params spec of None \<Rightarrow> Inr None | Some f \<Rightarrow> map_sum id Some (f ctx))"

definition resolveCommands :: "(string \<Rightarrow> string) \<Rightarrow> 'p CommandContext \<Rightarrow> 'p CommandSpec list \<Rightarrow> 'p ResolvedCommand list result" where
  "resolveCommands t ctx specs =
     result_bind (filter_result (offered ctx) specs) (map_result (resolve_one_command t ctx))"

section \<open>Shortcuts\<close>

definition lower_char :: "char \<Rightarrow> char" where
  "lower_char c = (let n = of_char c :: nat in if 65 \<le> n \<and> n \<le> 90 then char_of (n + 32) else c)"

definition upper_char :: "char \<Rightarrow> char" where
  "upper_char c = (let n = of_char c :: nat in if 97 \<le> n \<and> n \<le> 122 then char_of (n - 32) else c)"

record KeyboardEvent =
  ctrlKey :: bool
  metaKey :: bool
  shiftKey :: bool
  altKey :: bool
  ev_key :: string

definition shortcutMatches :: "string \<Rightarrow> KeyboardEvent \<Rightarrow> bool" where
  "shortcutMatches sc event =
     (let parts = split_on CHR ''+'' (map lower_char sc);
          key = last parts;
          eventKey = map lower_char (ev_key event)
      in if (''mod'' \<in> set parts) \<noteq> (ctrlKey event \<or> metaKey event) then False
         else if (''shift'' \<in> set parts) \<noteq> shiftKey event then False
         else if (''alt'' \<in> set parts) \<noteq> altKey event then False
         else if key = ''del'' then eventKey = ''delete'' \<or> eventKey = ''backspace''
         else if key = ''esc'' then eventKey = ''escape''
         else key = eventKey)"

definition format_part :: "string \<Rightarrow> string" where
  "format_part part =
     (if part = ''mod'' then ''Ctrl'' else if part = ''shift'' then ''May'' @ [CHR 0xC3, CHR 0xBA] @ ''s''
      else if part = ''alt'' then ''Alt'' else if part = ''del'' then ''Supr'' else if part = ''esc'' then ''Esc''
      else if length part = 1 then map upper_char part else part)"

definition formatShortcut :: "string \<Rightarrow> string" where
  "formatShortcut sc = join_with ''+'' (map format_part (split_on CHR ''+'' sc))"

definition bindings :: "'p ResolvedCommand \<Rightarrow> string list" where
  "bindings c = (case rc_shortcuts c of Some ks \<Rightarrow> ks
     | None \<Rightarrow> (case rc_shortcut c of Some k \<Rightarrow> if k = [] then [] else [k] | None \<Rightarrow> []))"

text \<open>The key handler: whether the event's default is prevented, and the effects of the command run.\<close>

definition onKeyDown :: "'p ResolvedCommand list \<Rightarrow> string list \<Rightarrow> bool \<Rightarrow> KeyboardEvent \<Rightarrow> bool \<times> 'p Run" where
  "onKeyDown cmds reserved typing event =
     (if typing then (False, run_ok [])
      else case find (\<lambda>c. (case rc_params c of Some (_ # _) \<Rightarrow> False | _ \<Rightarrow> True) \<and>
             list_ex (\<lambda>b. shortcutMatches b event) (bindings c)) cmds of
             Some c \<Rightarrow> (True, rc_run c [])
           | None \<Rightarrow> (list_ex (\<lambda>b. shortcutMatches b event) reserved, run_ok []))"

section \<open>Wire operations\<close>

definition wire_context :: "'p \<Rightarrow> 'p CommandContext" where
  "wire_context p = \<lparr>cx_product = p, cx_selection = None,
     cx_catalog = \<lparr>cat_openingChoices = None, compatibleOpenings = None, glassThicknesses = [], glassSkus = [], glassSpecs = None,
       couplerSkus = [], panelSkus = [], mullionSkus = []\<rparr>,
     cx_disabled = False, cx_simulate = False, cx_propose = False, cx_setTool = False, cx_focusAssistant = False, cx_undo = False,
     cx_redo = False, canUndo = False, canRedo = False, cx_specClipboard = None, cx_writeSpecClipboard = False,
     cx_lastMutation = None, cx_recordMutation = False\<rparr>"

fun applyDesignOpOn :: "'p CommandSpec list \<Rightarrow> 'p \<Rightarrow> DesignOp \<Rightarrow> 'p DesignOpState option \<Rightarrow> 'p result" where
  "applyDesignOpOn [] p op st = Inr p"
| "applyDesignOpOn (spec # specs) p op st =
     (case (spec_ai spec, spec_apply spec) of
        (Some ai, Some app) \<Rightarrow>
          (if map_of op ''op'' \<noteq> Some (JStr (ai_op ai)) then applyDesignOpOn specs p op st
           else case ai_decode ai op p st of
                  Inl e \<Rightarrow> Inl e
                | Inr None \<Rightarrow> applyDesignOpOn specs p op st
                | Inr (Some args) \<Rightarrow> map_sum id (\<lambda>r. case r of None \<Rightarrow> p | Some q \<Rightarrow> q) (app (wire_context p) args))
      | _ \<Rightarrow> applyDesignOpOn specs p op st)"

section \<open>Properties\<close>

lemma filter_result_set: "filter_result f xs = Inr ys \<Longrightarrow> x \<in> set ys \<longleftrightarrow> x \<in> set xs \<and> f x = Inr True"
  by (induction xs arbitrary: ys) (auto simp: result_bind_Inr split: if_splits)

lemma map_result_set: "map_result f xs = Inr ys \<Longrightarrow> y \<in> set ys \<Longrightarrow> \<exists>x \<in> set xs. f x = Inr y"
  by (induction xs arbitrary: ys) (auto simp: result_bind_Inr)

text \<open>A command is offered while the editor is busy only when it cannot change the product.\<close>

lemma disabled_offers_no_mutation:
  assumes "cx_disabled ctx" "resolveCommands t ctx specs = Inr cs" "c \<in> set cs"
  shows "\<exists>spec \<in> set specs. resolve_one_command t ctx spec = Inr c \<and> spec_apply spec = None \<and> mutates spec \<noteq> Some True"
proof -
  obtain fs where f: "filter_result (offered ctx) specs = Inr fs" "map_result (resolve_one_command t ctx) fs = Inr cs"
    using assms(2) by (auto simp: resolveCommands_def result_bind_Inr)
  obtain spec where s: "spec \<in> set fs" "resolve_one_command t ctx spec = Inr c" using map_result_set [OF f(2) assms(3)] by blast
  have "offered ctx spec = Inr True" and i: "spec \<in> set specs" using s(1) filter_result_set [OF f(1)] by auto
  then have "spec_apply spec = None \<and> mutates spec \<noteq> Some True" using assms(1)
    by (cases "case applicable spec of None \<Rightarrow> Inr True | Some f \<Rightarrow> f ctx") (auto simp: offered_def)
  then show ?thesis using s(2) i by blast
qed

text \<open>An apply command commits at most once, first, and only a changed product.\<close>

lemma runCommand_commits:
  assumes "spec_apply spec = Some app" "\<not> (cx_simulate ctx \<and> operation spec \<noteq> None)"
  shows "case app ctx args of
      Inl e \<Rightarrow> runCommand ctx spec args = ([], Some e)
    | Inr None \<Rightarrow> runCommand ctx spec args = ([], None)
    | Inr (Some q) \<Rightarrow> \<exists>rest e. runCommand ctx spec args = (Commit q # rest, e)"
  using assms by (auto simp: runCommand_def run_then_def run_ok_def after_def split: sum.splits option.splits if_splits)

end
