(* ===== verification/DesignOps.thy ===== *)
theory DesignOps
  imports Commands Json "HOL-Library.Word" "HOL-Library.Char_ord" "HOL-Library.List_Lexorder"
begin

text \<open>
  \<open>features/canvas/designOps.ts\<close> and \<open>operationIntents.ts\<close>: the content fingerprint of a product, the
  application of operations the engine has validated (each carries the fingerprint it was computed
  against and its complete effect), the replay of wire operations through the command registry, and the
  translation of inspector choices into operations. Products are the JSON values that travel.
\<close>

unbundle bit_operations_syntax

section \<open>Fingerprint\<close>

fun canonical :: "json \<Rightarrow> json" where
  "canonical (JArr xs) = JArr (map canonical xs)"
| "canonical (JObj ms) = JObj (object_order (sort_key fst (map (\<lambda>(k, v). (k, canonical v)) ms)))"
| "canonical v = v"

definition fnv_step :: "char \<Rightarrow> 32 word \<Rightarrow> 32 word" where
  "fnv_step c h = (h XOR of_nat (of_char c)) * 0x01000193"

fun hex_nat :: "nat \<Rightarrow> string" where
  "hex_nat n = (if n < 16 then [hex_digit n] else hex_nat (n div 16) @ [hex_digit (n mod 16)])"

declare hex_nat.simps [simp del]

definition productFingerprint :: "json \<Rightarrow> string" where
  "productFingerprint p = padStart 8 CHR ''0'' (hex_nat (unat (fold fnv_step (stringify (canonical p)) 0x811c9dc5)))"

definition designAssistProduct :: "json \<Rightarrow> json" where
  "designAssistProduct p = p"

section \<open>Operations with their effects\<close>

text \<open>\<open>next.version === "product-v2" && Array.isArray(next.assembly?.modules)\<close>.\<close>

definition effect_ok :: "json \<Rightarrow> bool" where
  "effect_ok n \<longleftrightarrow> json_member ''version'' n = Some (JStr ''product-v2'') \<and>
     (case Option.bind (json_member ''assembly'' n) (json_member ''modules'') of Some (JArr _) \<Rightarrow> True | _ \<Rightarrow> False)"

text \<open>The signature and the effect of an operation that carries both.\<close>

definition sealed :: "DesignOp \<Rightarrow> (string \<times> json) option" where
  "sealed op =
     (case (map_of op ''base_sig'', map_of op ''result'') of
        (Some (JStr sig), Some (JObj ms)) \<Rightarrow> Some (sig, JObj ms)
      | (Some (JStr sig), Some (JArr xs)) \<Rightarrow> Some (sig, JArr xs)
      | _ \<Rightarrow> None)"

definition apply_sealed :: "json \<Rightarrow> string \<Rightarrow> json \<Rightarrow> json result" where
  "apply_sealed current sig n =
     (if productFingerprint current \<noteq> sig then Inl (Error ''proposal_stale'')
      else if \<not> effect_ok n then Inl (Error ''invalid_operation_effect'') else Inr n)"

fun applyOperationEffects :: "json \<Rightarrow> DesignOp list \<Rightarrow> json result" where
  "applyOperationEffects current [] = Inr current"
| "applyOperationEffects current (op # ops) =
     (case sealed op of
        None \<Rightarrow> Inl (Error ''operation_effect_required'')
      | Some (sig, n) \<Rightarrow> result_bind (apply_sealed current sig n) (\<lambda>next'. applyOperationEffects next' ops))"

section \<open>Replaying a sequence\<close>

text \<open>The replay reads of a product only the identities of its modules and couplings, and of an operation
  that carries its effect what \<open>apply_sealed\<close> does with it: \<open>ids\<close> and \<open>step\<close> are these two, so that the replay
  serves the values of the wire and the typed products alike.\<close>

definition applyDesignOp :: "json CommandSpec list \<Rightarrow> json \<Rightarrow> DesignOp \<Rightarrow> json DesignOpState option \<Rightarrow> json result" where
  "applyDesignOp specs p op st =
     (case sealed op of Some (sig, n) \<Rightarrow> apply_sealed p sig n | None \<Rightarrow> applyDesignOpOn specs p op st)"

text \<open>\<open>product.assembly.modules.map((m) => m.id)\<close> and the same for couplings.\<close>

definition ids_at :: "string \<Rightarrow> json \<Rightarrow> json option list result" where
  "ids_at key p =
     (case Option.bind (json_member ''assembly'' p) (json_member key) of
        Some (JArr xs) \<Rightarrow> if JNull \<in> set xs then Inl (TypeError ''id of null'') else Inr (map (json_member ''id'') xs)
      | _ \<Rightarrow> Inl (TypeError ''not a list''))"

definition harvestAdded :: "(string \<Rightarrow> 'p \<Rightarrow> json option list result) \<Rightarrow> 'p DesignOpState \<Rightarrow> 'p \<Rightarrow> 'p \<Rightarrow> 'p DesignOpState result" where
  "harvestAdded ids st before next' =
     result_bind (ids ''modules'' before) (\<lambda>moduleIds.
     result_bind (ids ''couplings'' before) (\<lambda>couplingIds.
     result_bind (ids ''modules'' next') (\<lambda>ms.
     result_bind (ids ''couplings'' next') (\<lambda>cs.
       Inr (st\<lparr>addedModules := addedModules st @ filter (\<lambda>i. i \<notin> set moduleIds) ms,
               addedCouplings := addedCouplings st @ filter (\<lambda>i. i \<notin> set couplingIds) cs\<rparr>)))))"

fun apply_ops :: "(string \<Rightarrow> 'p \<Rightarrow> json option list result) \<Rightarrow> ('p \<Rightarrow> DesignOp \<Rightarrow> 'p DesignOpState option \<Rightarrow> 'p result) \<Rightarrow>
    'p \<Rightarrow> 'p DesignOpState \<Rightarrow> DesignOp list \<Rightarrow> ('p \<times> 'p DesignOpState) result" where
  "apply_ops ids step current st [] = Inr (current, st)"
| "apply_ops ids step current st (op # ops) =
     result_bind (step current op (Some st)) (\<lambda>next'.
     result_bind (harvestAdded ids st current next') (\<lambda>st'. apply_ops ids step next' st' ops))"

definition fresh_op_state :: "'p \<Rightarrow> 'p DesignOpState" where
  "fresh_op_state p = \<lparr>addedModules = [], addedCouplings = [], state_origin = p\<rparr>"

definition applyDesignOps :: "json CommandSpec list \<Rightarrow> json \<Rightarrow> DesignOp list \<Rightarrow> json result" where
  "applyDesignOps specs p ops = map_sum id fst (apply_ops ids_at (applyDesignOp specs) p (fresh_op_state p) ops)"

text \<open>\<open>String(op.op)\<close> of the name every operation has.\<close>

definition op_name :: "DesignOp \<Rightarrow> string" where
  "op_name op = (case map_of op ''op'' of Some (JStr s) \<Rightarrow> s | _ \<Rightarrow> ''undefined'')"

fun describe_with :: "'p CommandSpec list \<Rightarrow> DesignOp \<Rightarrow> 'p \<Rightarrow> 'p DesignOpState \<Rightarrow> string result" where
  "describe_with [] op evolved st = Inr (op_name op)"
| "describe_with (spec # specs) op evolved st =
     (case (spec_ai spec, describe spec) of
        (Some ai, Some f) \<Rightarrow>
          (if map_of op ''op'' \<noteq> Some (JStr (ai_op ai)) then describe_with specs op evolved st
           else case ai_decode ai op evolved (Some st) of
                  Inl e \<Rightarrow> Inl e
                | Inr None \<Rightarrow> describe_with specs op evolved st | Inr (Some args) \<Rightarrow> f args)
      | _ \<Rightarrow> describe_with specs op evolved st)"

definition describeDesignOp :: "json CommandSpec list \<Rightarrow> DesignOp \<Rightarrow> json \<Rightarrow> DesignOp list \<Rightarrow> string result" where
  "describeDesignOp specs op p priorOps =
     (case map_of op ''description'' of
        Some (JStr s) \<Rightarrow> Inr s
      | _ \<Rightarrow> result_bind (apply_ops ids_at (applyDesignOp specs) p (fresh_op_state p) priorOps)
               (\<lambda>(evolved, st). describe_with specs op evolved st))"

section \<open>Operations from inspector choices\<close>

definition opening_request :: "string \<Rightarrow> string \<Rightarrow> NodeFields \<Rightarrow> DesignOperationRequest list" where
  "opening_request m b patch =
     (let rest = (\<lambda>o'. [SetOpening m (Some b) o' (field_opt (opening_use patch)) (hinged_layout patch) (sliding_layout patch)])
      in case node_opening patch of
           Val po \<Rightarrow> rest (Inl po)
         | _ \<Rightarrow> (case opening_type patch of Val ot \<Rightarrow> rest (Inr ot) | _ \<Rightarrow> []))"

definition declared_patch :: "NodeFields \<Rightarrow> BaySpecPatch" where
  "declared_patch patch = \<lparr>bp_hardware_set_sku = hardware_set_sku patch, bp_hardware_selection = hardware_selection patch,
     bp_glass_processing = glass_processing patch, bp_sill_height_mm = sill_height_mm patch,
     bp_is_sidelight = (case is_sidelight patch of Val v \<Rightarrow> Val v | _ \<Rightarrow> Undef), bp_door_handedness = door_handedness patch\<rparr>"

definition bayOperations :: "string \<Rightarrow> string \<Rightarrow> NodeFields \<Rightarrow> DesignOperationRequest list" where
  "bayOperations m b patch =
     opening_request m b patch
     @ (case glass_article_sku patch of Val s \<Rightarrow> if s = [] then [] else [SetGlass m (Some b) s] | _ \<Rightarrow> [])
     @ (case panel_article_sku patch of Undef \<Rightarrow> [] | f \<Rightarrow> [SetPanel m (Some b) (field_opt f)])
     @ (case handle_height_mm patch of Val h \<Rightarrow> if h = [] then [] else [SetHandleHeight m b h] | _ \<Rightarrow> [])
     @ (let d = declared_patch patch
        in if d = \<lparr>bp_hardware_set_sku = Undef, bp_hardware_selection = Undef, bp_glass_processing = Undef,
              bp_sill_height_mm = Undef, bp_is_sidelight = Undef, bp_door_handedness = Undef\<rparr> then [] else [SetBaySpec m b d])"

definition panel_travel :: "nat \<Rightarrow> nat \<Rightarrow> SlidingPanel \<Rightarrow> side option" where
  "panel_travel n i panel = (if panel_kind panel = P_FIXED then None
     else Some (case travel panel of Val s \<Rightarrow> s | _ \<Rightarrow> if i * 2 < n then S_RIGHT else S_LEFT))"

definition slidingOperation :: "string \<Rightarrow> string \<Rightarrow> SlidingLayout \<Rightarrow> DesignOperationRequest" where
  "slidingOperation m b layout = SetSlidingLayout m b (tracks layout)
     (map (\<lambda>p. if panel_kind p = P_MOVING then CHR ''X'' else CHR ''O'') (panels layout))
     (map track (panels layout))
     (map (\<lambda>(i, p). panel_travel (length (panels layout)) i p) (entries (panels layout)))"

text \<open>An operation asks for nothing the patch leaves out.\<close>

lemma bayOperations_empty: "bayOperations m b no_fields = []"
  by (simp add: bayOperations_def opening_request_def declared_patch_def no_fields_def Let_def)

text \<open>A glass is asked for exactly when the patch names one.\<close>

lemma opening_request_glass: "SetGlass m' b' s \<notin> set (opening_request m b patch)"
  by (simp add: opening_request_def Let_def split: field.split)

lemma bayOperations_glass: "SetGlass m' b' s \<in> set (bayOperations m b patch) \<longleftrightarrow> m' = m \<and> b' = Some b \<and> s \<noteq> [] \<and> glass_article_sku patch = Val s"
proof -
  have "SetGlass m' b' s \<notin> set (case panel_article_sku patch of Undef \<Rightarrow> [] | f \<Rightarrow> [SetPanel m (Some b) (field_opt f)])"
    "SetGlass m' b' s \<notin> set (case handle_height_mm patch of Val h \<Rightarrow> if h = [] then [] else [SetHandleHeight m b h] | _ \<Rightarrow> [])"
    by (simp_all split: field.split)
  moreover have "SetGlass m' b' s \<in> set (case glass_article_sku patch of Val s \<Rightarrow> if s = [] then [] else [SetGlass m (Some b) s] | _ \<Rightarrow> [])
      \<longleftrightarrow> m' = m \<and> b' = Some b \<and> s \<noteq> [] \<and> glass_article_sku patch = Val s"
  proof (cases "glass_article_sku patch")
    case (Val x)
    then show ?thesis by (cases "x = s") simp_all
  qed simp_all
  ultimately show ?thesis by (simp add: bayOperations_def opening_request_glass Let_def)
qed

text \<open>The travel sent for a panel is the one the drawing shows.\<close>

lemma panel_travel_eq: "panel_travel n i panel = slidingTravel panel i n"
  by (simp add: panel_travel_def slidingTravel_def split: field.split)

section \<open>The fingerprint depends on content only\<close>

text \<open>Two JSON values with the same content: equal up to the order of object members.\<close>

inductive same_content :: "json \<Rightarrow> json \<Rightarrow> bool" where
  same_value: "same_content v v"
| same_arr: "list_all2 same_content xs ys \<Longrightarrow> same_content (JArr xs) (JArr ys)"
| same_obj: "distinct (map fst ms) \<Longrightarrow> list_all2 (\<lambda>a b. fst a = fst b \<and> same_content (snd a) (snd b)) ms ns' \<Longrightarrow>
    mset ns' = mset ns \<Longrightarrow> same_content (JObj ms) (JObj ns)"

lemma sort_key_content:
  assumes "mset xs = mset ys" "distinct (map fst xs)"
  shows "sort_key fst xs = sort_key fst (ys :: (string \<times> 'a) list)"
proof (rule sort_key_inj_key_eq)
  show "mset xs = mset (sort_key fst ys)" using assms(1) by simp
  show "inj_on fst (set xs)" using assms(2) by (simp add: distinct_map)
qed simp

lemma same_content_canonical: "same_content a b \<Longrightarrow> canonical a = canonical b"
proof (induction rule: same_content.induct)
  case (same_arr xs ys)
  then have "map canonical xs = map canonical ys" by (induction rule: list_all2_induct) auto
  then show ?case by simp
next
  case (same_obj ms ns' ns)
  let ?c = "\<lambda>(k, v). (k, canonical v)"
  have eq: "map ?c ms = map ?c ns'" using same_obj.IH by (induction rule: list_all2_induct) auto
  have "mset (map ?c ns') = mset (map ?c ns)" using same_obj.hyps by simp
  moreover have "distinct (map fst (map ?c ns'))"
    unfolding eq [symmetric] using same_obj.hyps by (simp add: comp_def case_prod_unfold)
  ultimately have "sort_key fst (map ?c ns') = sort_key fst (map ?c ns)" by (rule sort_key_content)
  then show ?case using eq by simp
qed simp

lemma hex_nat_digits: "c \<in> set (hex_nat n) \<Longrightarrow> c \<in> set ''0123456789abcdef''"
proof (induction n rule: hex_nat.induct)
  case (1 n)
  have h: "m < 16 \<Longrightarrow> hex_digit m \<in> set ''0123456789abcdef''" for m
    unfolding hex_digit_def by (rule nth_mem) simp
  show ?case
  proof (cases "n < 16")
    case True
    then have "c = hex_digit n" using 1(2) by (simp add: hex_nat.simps [of n])
    then show ?thesis using h [OF True] by (simp only:)
  next
    case False
    then have "c \<in> set (hex_nat (n div 16)) \<or> c = hex_digit (n mod 16)" using 1(2) by (auto simp: hex_nat.simps [of n])
    then show ?thesis using 1(1) [OF False] h [of "n mod 16"] by (metis mod_less_divisor zero_less_numeral)
  qed
qed

lemma hex_nat_length: "n < 16 ^ Suc k \<Longrightarrow> length (hex_nat n) \<le> Suc k"
proof (induction k arbitrary: n)
  case 0
  then show ?case by (simp add: hex_nat.simps)
next
  case (Suc k)
  show ?case
  proof (cases "n < 16")
    case False
    have "n div 16 < 16 ^ Suc k" using Suc.prems by (simp add: less_mult_imp_div_less mult.commute)
    then show ?thesis using Suc.IH False by (simp add: hex_nat.simps [of n])
  qed (simp add: hex_nat.simps [of n])
qed

text \<open>
  C31. The fingerprint that ties a plan to a product depends on the product's content only: values that
  differ at most in the order of object members, at any depth, have the same fingerprint, and every
  fingerprint is exactly eight lower-case hexadecimal digits.
\<close>
theorem productFingerprint_content:
  "(same_content p q \<longrightarrow> productFingerprint p = productFingerprint q) \<and>
   length (productFingerprint p) = 8 \<and> set (productFingerprint p) \<subseteq> set ''0123456789abcdef''"
proof (intro conjI impI subsetI)
  assume "same_content p q"
  then show "productFingerprint p = productFingerprint q" by (simp add: productFingerprint_def same_content_canonical)
next
  let ?h = "unat (fold fnv_step (stringify (canonical p)) 0x811c9dc5)"
  have "?h < 2 ^ 32" using unsigned_less [of "fold fnv_step (stringify (canonical p)) 0x811c9dc5"] by simp
  then have "?h < 16 ^ Suc 7" by simp
  then have "length (hex_nat ?h) \<le> 8" using hex_nat_length [of ?h 7] by simp
  then show "length (productFingerprint p) = 8" by (simp add: productFingerprint_def)
next
  fix c assume "c \<in> set (productFingerprint p)"
  then have "c = CHR ''0'' \<or> c \<in> set (hex_nat (unat (fold fnv_step (stringify (canonical p)) 0x811c9dc5)))"
    by (auto simp: productFingerprint_def padStart_def)
  then show "c \<in> set ''0123456789abcdef''" using hex_nat_digits by (elim disjE) simp_all
qed

theorem productFingerprint_witness:
  "productFingerprint (JObj [(''b'', JNull), (''a'', JArr [JBool True])]) = productFingerprint (JObj [(''a'', JArr [JBool True]), (''b'', JNull)]) \<and>
   length (productFingerprint (JObj [(''b'', JNull), (''a'', JArr [JBool True])])) = 8"
proof -
  have "same_content (JObj [(''b'', JNull), (''a'', JArr [JBool True])]) (JObj [(''a'', JArr [JBool True]), (''b'', JNull)])"
    by (rule same_obj [of _ "[(''b'', JNull), (''a'', JArr [JBool True])]"]) (auto intro: same_value)
  then show ?thesis using productFingerprint_content by blast
qed

section \<open>Effects apply only to the product they were computed for\<close>

text \<open>The effects of a sequence of sealed operations, each computed against the one before.\<close>

fun effect_chain :: "json \<Rightarrow> DesignOp list \<Rightarrow> json list \<Rightarrow> bool" where
  "effect_chain p [] es = (es = [])"
| "effect_chain p (op # ops) es = (case es of [] \<Rightarrow> False
     | e # es' \<Rightarrow> sealed op = Some (productFingerprint p, e) \<and> effect_ok e \<and> effect_chain e ops es')"

lemma effects_iff: "applyOperationEffects p ops = Inr q \<longleftrightarrow> (\<exists>es. effect_chain p ops es \<and> q = last (p # es))"
proof (induction ops arbitrary: p)
  case (Cons op ops)
  show ?case
  proof (cases "sealed op")
    case (Some x)
    obtain sig n where x: "x = (sig, n)" by (cases x)
    show ?thesis
    proof (cases "productFingerprint p = sig \<and> effect_ok n")
      case True
      have "(\<exists>es. effect_chain p (op # ops) es \<and> q = last (p # es)) \<longleftrightarrow> (\<exists>es. effect_chain n ops es \<and> q = last (n # es))"
      proof
        assume "\<exists>es. effect_chain n ops es \<and> q = last (n # es)"
        then obtain es where "effect_chain n ops es" "q = last (n # es)" by blast
        then show "\<exists>es. effect_chain p (op # ops) es \<and> q = last (p # es)"
          using Some x True by (intro exI [of _ "n # es"]) simp
      next
        assume "\<exists>es. effect_chain p (op # ops) es \<and> q = last (p # es)"
        then obtain es where es: "effect_chain p (op # ops) es" "q = last (p # es)" by blast
        then obtain e es' where "es = e # es'" by (cases es) auto
        then show "\<exists>es. effect_chain n ops es \<and> q = last (n # es)" using es Some x by (intro exI [of _ es']) simp
      qed
      then show ?thesis using Cons.IH [of n] Some x True by (simp add: apply_sealed_def result_bind_def)
    next
      case False
      then have "\<exists>e. apply_sealed p sig n = Inl e" by (cases "productFingerprint p = sig") (simp_all add: apply_sealed_def)
      then have "\<nexists>q. applyOperationEffects p (op # ops) = Inr q" using Some x by auto
      moreover have "\<not> effect_chain p (op # ops) es" for es using False Some x by (cases es) auto
      ultimately show ?thesis by blast
    qed
  qed (auto split: list.splits)
qed auto

lemma effects_error:
  "applyOperationEffects p ops = Inl e \<Longrightarrow> e \<in> {Error ''operation_effect_required'', Error ''proposal_stale'', Error ''invalid_operation_effect''}"
  by (induction ops arbitrary: p) (auto simp: apply_sealed_def result_bind_def split: option.splits if_splits)

text \<open>
  C12. Operations the engine validated apply exactly to the product they were computed for: applying a
  sequence succeeds just when every operation carries its effect, each effect is a product with a list
  of modules, and each operation's signature is the fingerprint of the product the previous one left;
  the outcome is then the last effect. Otherwise the sequence is refused with one of three errors and
  no product is produced.
\<close>
theorem applyOperationEffects_spec:
  "(applyOperationEffects p ops = Inr q \<longleftrightarrow> (\<exists>es. effect_chain p ops es \<and> q = last (p # es))) \<and>
   (applyOperationEffects p ops = Inl e \<longrightarrow>
      e \<in> {Error ''operation_effect_required'', Error ''proposal_stale'', Error ''invalid_operation_effect''})"
  using effects_iff effects_error by blast

definition sample_effect :: json where
  "sample_effect = JObj [(''version'', JStr ''product-v2''), (''assembly'', JObj [(''modules'', JArr []), (''couplings'', JArr [])])]"

theorem applyOperationEffects_witness:
  "applyOperationEffects JNull [[(''op'', JStr ''set_opening''), (''base_sig'', JStr (productFingerprint JNull)), (''result'', sample_effect)]]
     = Inr sample_effect \<and>
   applyOperationEffects sample_effect [[(''op'', JStr ''set_opening'')]] = Inl (Error ''operation_effect_required'')"
proof
  have ok: "effect_ok sample_effect" by (simp add: effect_ok_def sample_effect_def json_member_def)
  have "effect_chain JNull [[(''op'', JStr ''set_opening''), (''base_sig'', JStr (productFingerprint JNull)), (''result'', sample_effect)]] [sample_effect]"
    using ok by (simp add: sealed_def sample_effect_def)
  then show "applyOperationEffects JNull [[(''op'', JStr ''set_opening''), (''base_sig'', JStr (productFingerprint JNull)), (''result'', sample_effect)]]
     = Inr sample_effect" using applyOperationEffects_spec by fastforce
  show "applyOperationEffects sample_effect [[(''op'', JStr ''set_opening'')]] = Inl (Error ''operation_effect_required'')"
    by (simp add: sealed_def)
qed

end
