(* ===== verification/Viewport.thy ===== *)
theory Viewport
  imports JsText
begin

text \<open>
  \<open>features/canvas/viewport.ts\<close>: the pan and zoom transform of the drawing sheet, in the language's
  numbers.
\<close>

section \<open>Transforms\<close>

record Box =
  box_x :: jsnum
  box_y :: jsnum
  box_w :: jsnum
  box_h :: jsnum

record ViewTransform =
  view_scale :: jsnum
  view_tx :: jsnum
  view_ty :: jsnum

definition IDENTITY :: ViewTransform where
  "IDENTITY = \<lparr>view_scale = Fin 1, view_tx = Fin 0, view_ty = Fin 0\<rparr>"

definition SCALE_100 :: jsnum where
  "SCALE_100 = Fin (1 / 2)"

text \<open>\<open>0.03\<close> is not a binary fraction: the nearest double stands for it.\<close>

definition SCALE_MIN :: jsnum where
  "SCALE_MIN = rnd (3 / 100)"

definition SCALE_MAX :: jsnum where
  "SCALE_MAX = Fin 6"

definition FIT_PADDING :: jsnum where
  "FIT_PADDING = Fin 24"

definition clamp :: "jsnum \<Rightarrow> jsnum \<Rightarrow> jsnum \<Rightarrow> jsnum" where
  "clamp value lo hi = js_min (js_max value lo) hi"

definition not_positive :: "jsnum \<Rightarrow> bool" where
  "not_positive v \<longleftrightarrow> js_le v (Fin 0)"

definition fitTransform :: "Box \<Rightarrow> jsnum \<Rightarrow> jsnum \<Rightarrow> ViewTransform" where
  "fitTransform box width height =
     (if not_positive (box_w box) \<or> not_positive (box_h box) \<or> not_positive width \<or> not_positive height then IDENTITY
      else let s = clamp (js_min (js_div (js_sub width (js_mul FIT_PADDING (Fin 2))) (box_w box))
                                 (js_div (js_sub height (js_mul FIT_PADDING (Fin 2))) (box_h box))) SCALE_MIN SCALE_MAX
           in \<lparr>view_scale = s,
               view_tx = js_sub (js_div width (Fin 2)) (js_mul (js_add (box_x box) (js_div (box_w box) (Fin 2))) s),
               view_ty = js_sub (js_div height (Fin 2)) (js_mul (js_add (box_y box) (js_div (box_h box) (Fin 2))) s)\<rparr>)"

definition zoomAt :: "ViewTransform \<Rightarrow> jsnum \<Rightarrow> jsnum \<Rightarrow> jsnum \<Rightarrow> ViewTransform" where
  "zoomAt view px py factor =
     (let s = clamp (js_mul (view_scale view) factor) SCALE_MIN SCALE_MAX;
          factorReal = js_div s (view_scale view)
      in \<lparr>view_scale = s,
          view_tx = js_sub px (js_mul (js_sub px (view_tx view)) factorReal),
          view_ty = js_sub py (js_mul (js_sub py (view_ty view)) factorReal)\<rparr>)"

definition panBy :: "ViewTransform \<Rightarrow> jsnum \<Rightarrow> jsnum \<Rightarrow> ViewTransform" where
  "panBy view dx dy = view\<lparr>view_tx := js_add (view_tx view) dx, view_ty := js_add (view_ty view) dy\<rparr>"

definition PAN_MARGIN :: jsnum where
  "PAN_MARGIN = Fin 48"

text \<open>One axis of \<open>clampViewToBox\<close>: the translation after the two tests.\<close>

definition clamp_axis :: "jsnum \<Rightarrow> jsnum \<Rightarrow> jsnum \<Rightarrow> jsnum \<Rightarrow> jsnum" where
  "clamp_axis t lo hi extent =
     (let limit = js_sub extent PAN_MARGIN;
          t1 = (if js_lt limit lo then js_add t (js_sub limit lo) else t)
      in if js_lt hi PAN_MARGIN then js_add t1 (js_sub PAN_MARGIN hi) else t1)"

definition clampViewToBox :: "ViewTransform \<Rightarrow> Box \<Rightarrow> jsnum \<Rightarrow> jsnum \<Rightarrow> ViewTransform" where
  "clampViewToBox view box width height =
     (if not_positive (box_w box) \<or> not_positive (box_h box) \<or> not_positive width \<or> not_positive height then view
      else let lft = js_add (js_mul (box_x box) (view_scale view)) (view_tx view);
               tp = js_add (js_mul (box_y box) (view_scale view)) (view_ty view);
               rgt = js_add lft (js_mul (box_w box) (view_scale view));
               btm = js_add tp (js_mul (box_h box) (view_scale view));
               tx = clamp_axis (view_tx view) lft rgt width;
               ty = clamp_axis (view_ty view) tp btm height
           in if js_eq tx (view_tx view) \<and> js_eq ty (view_ty view) then view else view\<lparr>view_tx := tx, view_ty := ty\<rparr>)"

record RefitArgs =
  contentEpochChanged :: bool
  boxChanged :: bool
  containerResized :: bool
  userInteracted :: bool

definition shouldRefitView :: "RefitArgs \<Rightarrow> bool" where
  "shouldRefitView a = (if contentEpochChanged a then True else if userInteracted a then False
     else boxChanged a \<or> containerResized a)"

definition unionBox :: "Box \<Rightarrow> Box option \<Rightarrow> Box" where
  "unionBox a b =
     (case b of None \<Rightarrow> a
      | Some b \<Rightarrow>
          (let x = js_min (box_x a) (box_x b); y = js_min (box_y a) (box_y b)
           in \<lparr>box_x = x, box_y = y,
               box_w = js_sub (js_max (js_add (box_x a) (box_w a)) (js_add (box_x b) (box_w b))) x,
               box_h = js_sub (js_max (js_add (box_y a) (box_h a)) (js_add (box_y b) (box_h b))) y\<rparr>))"

section \<open>Bounds\<close>

lemma clamp_bounds:
  assumes "v \<noteq> NaN" "lo \<le> hi"
  shows "\<exists>s. clamp v (Fin lo) (Fin hi) = Fin s \<and> lo \<le> s \<and> s \<le> hi"
  using assms by (cases v) (auto simp: clamp_def js_min_def js_max_def)

lemma scale_limits: obtains lo where "SCALE_MIN = Fin lo" "0 < lo" "lo \<le> 6"
proof -
  have "\<bar>fl (3 / 100) - 3 / 100\<bar> \<le> 3 / 100 / 2 ^ 53 + tiny" using fl_err [of "3 / 100"] by simp
  then have "\<bar>fl (3 / 100) - 3 / 100\<bar> \<le> 2 / 100" using tiny_bounds by simp
  then have "0 < fl (3 / 100)" "fl (3 / 100) \<le> 6" by linarith+
  moreover have "SCALE_MIN = Fin (fl (3 / 100))" unfolding SCALE_MIN_def by (rule rnd_finite) simp
  ultimately show ?thesis using that by blast
qed

text \<open>However far the wheel turns, the scale stays a finite number between the two limits, unless a
  number that is not one was given.\<close>

lemma zoom_scale_bounds:
  assumes "js_mul (view_scale view) factor \<noteq> NaN"
  shows "\<exists>s. view_scale (zoomAt view px py factor) = Fin s \<and> js_le SCALE_MIN (Fin s) \<and> s \<le> 6 \<and> 0 < s"
proof -
  obtain lo where lo: "SCALE_MIN = Fin lo" "0 < lo" "lo \<le> 6" by (rule scale_limits)
  obtain s where s: "clamp (js_mul (view_scale view) factor) (Fin lo) (Fin 6) = Fin s" "lo \<le> s" "s \<le> 6"
    using clamp_bounds [OF assms lo(3)] by blast
  have "js_le SCALE_MIN (Fin s)" unfolding lo(1) js_le_def js_eq_def using s(2) by auto
  moreover have "view_scale (zoomAt view px py factor) = Fin s" using s(1) by (simp add: zoomAt_def Let_def SCALE_MAX_def lo(1))
  ultimately show ?thesis using s lo(2) by auto
qed

text \<open>A wholesale replacement always refits; a view the user moved is otherwise left alone.\<close>

lemma refit_policy:
  "contentEpochChanged a \<Longrightarrow> shouldRefitView a"
  "\<not> contentEpochChanged a \<Longrightarrow> userInteracted a \<Longrightarrow> \<not> shouldRefitView a"
  by (simp_all add: shouldRefitView_def)

end
