(* ===== verification/StructuredOpening.thy ===== *)
theory StructuredOpening
  imports Mounting
begin

text \<open>
  \<open>structuredOpeningPatch\<close> of \<open>features/canvas/physicalOpenings.ts\<close>: the check of an opening that arrives
  as untyped JSON from the assistant, before it may patch a bay. Values stay JSON; an absent member is
  \<open>None\<close>. Reading a member of null throws.
\<close>

section \<open>Untyped values\<close>

fun truthy :: "json option \<Rightarrow> bool" where
  "truthy None = False"
| "truthy (Some JNull) = False"
| "truthy (Some (JBool b)) = b"
| "truthy (Some (JNum x)) = (x \<noteq> Fin 0 \<and> x \<noteq> NaN)"
| "truthy (Some (JStr s)) = (s \<noteq> [])"
| "truthy (Some _) = True"

text \<open>\<open>value && typeof value === "object"\<close>.\<close>

definition is_object :: "json option \<Rightarrow> bool" where
  "is_object v = (case v of Some (JObj _) \<Rightarrow> True | Some (JArr _) \<Rightarrow> True | _ \<Rightarrow> False)"

text \<open>\<open>String(value)\<close>; an absent or null element of an array prints as nothing.\<close>

fun js_String :: "json \<Rightarrow> string" where
  "js_String JNull = ''null''"
| "js_String (JBool b) = (if b then ''true'' else ''false'')"
| "js_String (JNum x) = num_str x"
| "js_String (JStr s) = s"
| "js_String (JArr xs) = join_with '','' (map (\<lambda>x. case x of JNull \<Rightarrow> [] | _ \<Rightarrow> js_String x) xs)"
| "js_String (JObj ms) = ''[object Object]''"

definition opt_String :: "json option \<Rightarrow> string" where
  "opt_String v = (case v of None \<Rightarrow> ''undefined'' | Some j \<Rightarrow> js_String j)"

definition member_in :: "string list \<Rightarrow> json option \<Rightarrow> bool" where
  "member_in xs v = (case v of Some (JStr s) \<Rightarrow> s \<in> set xs | _ \<Rightarrow> False)"

definition is_integer :: "json option \<Rightarrow> bool" where
  "is_integer v = (case v of Some (JNum (Fin x)) \<Rightarrow> x = of_int \<lfloor>x\<rfloor> | _ \<Rightarrow> False)"

section \<open>The check\<close>

definition physical :: "json option \<Rightarrow> bool" where
  "physical raw \<longleftrightarrow> is_object raw \<and>
     (let opening' = the raw
      in member_in [''FIXED'', ''TURN'', ''TILT'', ''TILT_TURN'', ''TOP_HUNG'', ''SLIDE'', ''LIFT_SLIDE'', ''PARALLEL_SLIDE'',
           ''FOLD'', ''PIVOT_V'', ''PIVOT_H'', ''VERTICAL_SLIDE''] (json_member ''movement'' opening') \<and>
         member_in [''LEFT'', ''RIGHT'', ''TOP'', ''BOTTOM'', ''NONE''] (json_member ''hinge_side'' opening') \<and>
         member_in [''INWARD'', ''OUTWARD''] (json_member ''direction'' opening') \<and>
         member_in [''SINGLE'', ''ACTIVE'', ''PASSIVE''] (json_member ''leaf_role'' opening') \<and>
         (case json_member ''fixed_in_sash'' opening' of Some (JBool _) \<Rightarrow> True | _ \<Rightarrow> False))"

definition advanced_opening :: "json \<Rightarrow> bool" where
  "advanced_opening data =
     (let movement' = Option.bind (json_member ''opening'' data) (json_member ''movement'')
      in member_in [''LIFT_SLIDE'', ''PARALLEL_SLIDE'', ''FOLD'', ''PIVOT_V'', ''PIVOT_H'', ''VERTICAL_SLIDE''] movement' \<or>
         movement' = Some (JStr ''SLIDE'') \<and> json_member ''opening_use'' data = Some (JStr ''DOOR''))"

text \<open>The two lists of an accepted layout; \<open>Inl\<close> when an element is null.\<close>

definition leaves_ok :: "json \<Rightarrow> bool result" where
  "leaves_ok layout =
     (case json_member ''leaves'' layout of
        Some (JArr ls) \<Rightarrow>
          (if length ls \<noteq> 2 then Inr False
           else result_bind (some_result (\<lambda>l. if l = JNull then Inl (TypeError ''opening of null'') else Inr (\<not> physical (json_member ''opening'' l))) ls)
             (\<lambda>bad. Inr (\<not> bad \<and> json_member ''slot'' (ls ! 0) = Some (JStr ''LEFT'') \<and> json_member ''slot'' (ls ! 1) = Some (JStr ''RIGHT''))))
      | _ \<Rightarrow> Inr False)"

definition panels_ok :: "json \<Rightarrow> bool result" where
  "panels_ok sliding =
     (if \<not> is_integer (json_member ''tracks'' sliding) then Inr False
      else case json_member ''panels'' sliding of
        Some (JArr ps) \<Rightarrow> map_sum id Not (some_result (\<lambda>p. if p = JNull then Inl (TypeError ''kind of null'')
          else Inr (\<not> member_in [''MOVING'', ''FIXED''] (json_member ''kind'' p) \<or> \<not> is_integer (json_member ''track'' p))) ps)
      | _ \<Rightarrow> Inr False)"

definition or_jnull :: "json option \<Rightarrow> json" where
  "or_jnull v = (case v of None \<Rightarrow> JNull | Some j \<Rightarrow> j)"

definition accepted_patch :: "json \<Rightarrow> (string \<times> json) list" where
  "accepted_patch data =
     [(''opening'', or_jnull (json_member ''opening'' data)), (''opening_type'', JNull),
      (''opening_use'', or_jnull (json_member ''opening_use'' data)),
      (''opening_recipe_code'', if advanced_opening data then JStr (opt_String (json_member ''opening_recipe_code'' data)) else JNull),
      (''hinged_layout'', or_jnull (json_member ''hinged_layout'' data)), (''sliding_layout'', or_jnull (json_member ''sliding_layout'' data)),
      (''hardware_set_sku'', JNull), (''hardware_selection'', JNull), (''handle_height_mm'', JNull), (''door_handedness'', JNull)]"

definition recipe_ok :: "json \<Rightarrow> bool" where
  "recipe_ok data =
     (let code = json_member ''opening_recipe_code'' data
      in if advanced_opening data
         then (case code of Some (JStr s) \<Rightarrow> trim s \<noteq> [] | _ \<Rightarrow> False) \<and>
              \<not> truthy (json_member ''hinged_layout'' data) \<and> \<not> truthy (json_member ''sliding_layout'' data)
         else \<not> truthy code)"

definition structuredOpeningPatch :: "json option \<Rightarrow> (string \<times> json) list option result" where
  "structuredOpeningPatch value =
     (if \<not> is_object value then Inr None
      else let data = the value; layout = json_member ''hinged_layout'' data; sliding = json_member ''sliding_layout'' data
           in if \<not> physical (json_member ''opening'' data) \<or> opt_String (json_member ''opening_use'' data) \<notin> {''DOOR'', ''WINDOW''}
              then Inr None
              else if \<not> recipe_ok data then Inr None
              else result_bind (if truthy layout then leaves_ok (the layout) else Inr True) (\<lambda>l.
                   if \<not> l then Inr None
                   else result_bind (if truthy sliding then panels_ok (the sliding) else Inr True) (\<lambda>s.
                        Inr (if s then Some (accepted_patch data) else None))))"

section \<open>What is accepted\<close>

text \<open>An accepted opening has a movement the check knows, and an advanced one a recipe and no layout.\<close>

lemma structured_accepted:
  assumes "structuredOpeningPatch (Some data) = Inr (Some patch)"
  shows "physical (json_member ''opening'' data) \<and> patch = accepted_patch data \<and> recipe_ok data"
  using assms by (auto simp: structuredOpeningPatch_def Let_def result_bind_Inr split: if_splits)

text \<open>A recipe that is written out travels, and anything the hardware chose before is reset.\<close>

lemma structured_resets:
  assumes "structuredOpeningPatch (Some data) = Inr (Some patch)"
  shows "\<forall>k \<in> {''opening_type'', ''hardware_set_sku'', ''hardware_selection'', ''handle_height_mm'', ''door_handedness''}. map_of patch k = Some JNull"
  using structured_accepted [OF assms] by (simp add: accepted_patch_def)

text \<open>The bottom-hung movement of the opening type is not among the movements the check admits.\<close>

lemma structured_refuses_bottom_hung:
  assumes "Option.bind (json_member ''opening'' data) (json_member ''movement'') = Some (JStr ''BOTTOM_HUNG'')"
  shows "\<not> physical (json_member ''opening'' data)"
  using assms by (cases "json_member ''opening'' data") (auto simp: physical_def member_in_def)

end
