(* ===== verification/OpeningJson.thy ===== *)
theory OpeningJson
  imports StructuredOpening Openings Json
begin

text \<open>
  The openings of \<open>physicalOpenings.ts\<close> as they travel: \<open>JSON.stringify\<close> of an opening patch, and the casts
  by which \<open>structuredOpeningPatch\<close>'s untyped result becomes a patch of a bay. A value that does not have
  the declared type has no typed counterpart.
\<close>

section \<open>Names\<close>

definition enum_of :: "('a \<Rightarrow> string) \<Rightarrow> 'a list \<Rightarrow> json option \<Rightarrow> 'a option" where
  "enum_of f xs v = (case v of Some (JStr s) \<Rightarrow> List.find (\<lambda>x. f x = s) xs | _ \<Rightarrow> None)"

definition MOVEMENTS :: "Movement list" where
  "MOVEMENTS = [M_FIXED, M_TURN, M_TILT, M_TILT_TURN, M_TOP_HUNG, M_BOTTOM_HUNG, M_SLIDE, M_LIFT_SLIDE, M_PARALLEL_SLIDE,
     M_FOLD, M_PIVOT_V, M_PIVOT_H, M_VERTICAL_SLIDE]"

fun opening_str :: "Opening \<Rightarrow> string" where
  "opening_str O_FIXED = ''FIXED''"
| "opening_str O_TURN_LEFT = ''TURN_LEFT''"
| "opening_str O_TURN_RIGHT = ''TURN_RIGHT''"
| "opening_str O_TILT_TURN_LEFT = ''TILT_TURN_LEFT''"
| "opening_str O_TILT_TURN_RIGHT = ''TILT_TURN_RIGHT''"
| "opening_str O_SLIDING_2L = ''SLIDING_2L''"
| "opening_str O_SLIDING_3L = ''SLIDING_3L''"
| "opening_str O_SLIDING_4L = ''SLIDING_4L''"
| "opening_str O_SLIDING = ''SLIDING''"
| "opening_str O_AWNING = ''AWNING''"
| "opening_str O_DOOR_ENTRY = ''DOOR_ENTRY''"
| "opening_str O_DOOR_DOUBLE = ''DOOR_DOUBLE''"

definition opening_of :: "string \<Rightarrow> Opening option" where
  "opening_of s = List.find (\<lambda>x. opening_str x = s) OPENINGS"

fun side_str :: "side \<Rightarrow> string" where
  "side_str S_LEFT = ''LEFT''"
| "side_str S_RIGHT = ''RIGHT''"

fun panel_kind_str :: "PanelKind \<Rightarrow> string" where
  "panel_kind_str P_MOVING = ''MOVING''"
| "panel_kind_str P_FIXED = ''FIXED''"

section \<open>Writing\<close>

definition field_member :: "string \<Rightarrow> ('a \<Rightarrow> json) \<Rightarrow> 'a field \<Rightarrow> (string \<times> json) list" where
  "field_member k f v = (case v of Undef \<Rightarrow> [] | Null \<Rightarrow> [(k, JNull)] | Val x \<Rightarrow> [(k, f x)])"

definition opening_json :: "PhysicalOpening \<Rightarrow> json" where
  "opening_json o' = JObj [(''movement'', JStr (movement_str (movement o'))), (''hinge_side'', JStr (hinge_str (hinge_side o'))),
     (''direction'', JStr (direction_str (direction o'))), (''leaf_role'', JStr (role_str (leaf_role o'))),
     (''fixed_in_sash'', JBool (fixed_in_sash o'))]"

definition leaf_json :: "HingedLeaf \<Rightarrow> json" where
  "leaf_json l = JObj ([(''slot'', JStr (side_str (leaf_slot l))), (''opening'', opening_json (leaf_opening l))]
     @ field_member ''hardware_set_sku'' JStr (leaf_hardware_set_sku l))"

definition hinged_json :: "HingedLayout \<Rightarrow> json" where
  "hinged_json l = JObj [(''leaves'', JArr (map leaf_json (leaves l)))]"

definition nat_json :: "nat \<Rightarrow> json" where
  "nat_json n = JNum (Fin (of_nat n))"

definition panel_json :: "SlidingPanel \<Rightarrow> json" where
  "panel_json p = JObj ([(''slot'', JStr (slot p)), (''kind'', JStr (panel_kind_str (panel_kind p))),
     (''track'', case track p of None \<Rightarrow> JNull | Some n \<Rightarrow> nat_json n)] @ field_member ''travel'' (\<lambda>s. JStr (side_str s)) (travel p))"

definition sliding_json :: "SlidingLayout \<Rightarrow> json" where
  "sliding_json l = JObj [(''tracks'', nat_json (tracks l)), (''panels'', JArr (map panel_json (panels l)))]"

text \<open>\<open>choicePatch(choice)\<close> in the order of its members.\<close>

definition choice_json :: "OpeningChoice \<Rightarrow> json" where
  "choice_json c =
     (let p = choicePatch c
      in JObj (field_member ''opening_type'' (\<lambda>x. JStr (opening_str x)) (opening_type p)
        @ field_member ''opening'' opening_json (node_opening p)
        @ field_member ''opening_use'' (\<lambda>u. JStr (use_str u)) (opening_use p)
        @ field_member ''opening_recipe_code'' JStr (opening_recipe_code p)
        @ field_member ''hinged_layout'' hinged_json (hinged_layout p)
        @ field_member ''hardware_set_sku'' JStr (hardware_set_sku p)
        @ field_member ''hardware_selection'' id (hardware_selection p)
        @ field_member ''handle_height_mm'' JStr (handle_height_mm p)
        @ field_member ''door_handedness'' (\<lambda>s. JStr (side_str s)) (door_handedness p)
        @ field_member ''panel_article_sku'' JStr (panel_article_sku p)
        @ field_member ''sliding_layout'' sliding_json (sliding_layout p)))"

section \<open>Casting\<close>

definition has_members :: "string list \<Rightarrow> string list \<Rightarrow> json \<Rightarrow> bool" where
  "has_members required optional j = (case j of
     JObj ms \<Rightarrow> set required \<subseteq> fst ` set ms \<and> fst ` set ms \<subseteq> set required \<union> set optional | _ \<Rightarrow> False)"

definition opening_of_json :: "json \<Rightarrow> PhysicalOpening option" where
  "opening_of_json j =
     (if \<not> has_members [''movement'', ''hinge_side'', ''direction'', ''leaf_role'', ''fixed_in_sash''] [] j then None
      else case (enum_of movement_str MOVEMENTS (json_member ''movement'' j),
                 enum_of hinge_str [H_LEFT, H_RIGHT, H_TOP, H_BOTTOM, H_NONE] (json_member ''hinge_side'' j),
                 enum_of direction_str [INWARD, OUTWARD] (json_member ''direction'' j),
                 enum_of role_str [SINGLE, ACTIVE, PASSIVE] (json_member ''leaf_role'' j), json_member ''fixed_in_sash'' j) of
             (Some m, Some h, Some d, Some r, Some (JBool f)) \<Rightarrow>
               Some \<lparr>movement = m, hinge_side = h, direction = d, leaf_role = r, fixed_in_sash = f\<rparr>
           | _ \<Rightarrow> None)"

definition text_field :: "json option \<Rightarrow> string field option" where
  "text_field v = (case v of None \<Rightarrow> Some Undef | Some JNull \<Rightarrow> Some Null | Some (JStr s) \<Rightarrow> Some (Val s) | _ \<Rightarrow> None)"

definition side_field :: "json option \<Rightarrow> side field option" where
  "side_field v = (case v of None \<Rightarrow> Some Undef | Some JNull \<Rightarrow> Some Null
     | _ \<Rightarrow> map_option Val (enum_of side_str [S_LEFT, S_RIGHT] v))"

definition leaf_of_json :: "json \<Rightarrow> HingedLeaf option" where
  "leaf_of_json j =
     (if \<not> has_members [''slot'', ''opening''] [''hardware_set_sku''] j then None
      else case (enum_of side_str [S_LEFT, S_RIGHT] (json_member ''slot'' j),
                 Option.bind (json_member ''opening'' j) opening_of_json, text_field (json_member ''hardware_set_sku'' j)) of
             (Some s, Some o', Some h) \<Rightarrow> Some \<lparr>leaf_slot = s, leaf_opening = o', leaf_hardware_set_sku = h\<rparr>
           | _ \<Rightarrow> None)"

definition hinged_of_json :: "json \<Rightarrow> HingedLayout option" where
  "hinged_of_json j =
     (if \<not> has_members [''leaves''] [] j then None
      else case json_member ''leaves'' j of
             Some (JArr ls) \<Rightarrow> map_option (\<lambda>xs. \<lparr>leaves = xs\<rparr>) (those (map leaf_of_json ls)) | _ \<Rightarrow> None)"

definition nat_of_json :: "json option \<Rightarrow> nat option" where
  "nat_of_json v = (case v of Some (JNum (Fin x)) \<Rightarrow> if x = of_int \<lfloor>x\<rfloor> \<and> 0 \<le> x then Some (nat \<lfloor>x\<rfloor>) else None | _ \<Rightarrow> None)"

definition panel_of_json :: "json \<Rightarrow> SlidingPanel option" where
  "panel_of_json j =
     (if \<not> has_members [''slot'', ''kind'', ''track''] [''travel''] j then None
      else case (json_member ''slot'' j, enum_of panel_kind_str [P_MOVING, P_FIXED] (json_member ''kind'' j),
                 if json_member ''track'' j = Some JNull then Some None else map_option Some (nat_of_json (json_member ''track'' j)),
                 side_field (json_member ''travel'' j)) of
             (Some (JStr s), Some k, Some tr, Some tv) \<Rightarrow> Some \<lparr>slot = s, panel_kind = k, track = tr, travel = tv\<rparr>
           | _ \<Rightarrow> None)"

definition sliding_of_json :: "json \<Rightarrow> SlidingLayout option" where
  "sliding_of_json j =
     (if \<not> has_members [''tracks'', ''panels''] [] j then None
      else case (nat_of_json (json_member ''tracks'' j), json_member ''panels'' j) of
             (Some n, Some (JArr ps)) \<Rightarrow> map_option (\<lambda>xs. \<lparr>tracks = n, panels = xs\<rparr>) (those (map panel_of_json ps))
           | _ \<Rightarrow> None)"

text \<open>An optional member: absent, null, or a value of its type.\<close>

definition cast_field :: "(json \<Rightarrow> 'a option) \<Rightarrow> json option \<Rightarrow> 'a field option" where
  "cast_field f v = (case v of None \<Rightarrow> Some Undef | Some JNull \<Rightarrow> Some Null | Some j \<Rightarrow> map_option Val (f j))"

text \<open>The patch of an accepted opening; its other members are null.\<close>

definition patch_of :: "(string \<times> json) list \<Rightarrow> NodeFields result" where
  "patch_of ms =
     (case (cast_field opening_of_json (map_of ms ''opening''),
            cast_field (\<lambda>j. enum_of use_str [U_WINDOW, U_DOOR] (Some j)) (map_of ms ''opening_use''),
            text_field (map_of ms ''opening_recipe_code''),
            cast_field hinged_of_json (map_of ms ''hinged_layout''), cast_field sliding_of_json (map_of ms ''sliding_layout'')) of
        (Some o', Some u, Some r, Some h, Some s) \<Rightarrow>
          Inr (no_fields\<lparr>node_opening := o', opening_type := Null, opening_use := u, opening_recipe_code := r,
            hinged_layout := h, sliding_layout := s, hardware_set_sku := Null, hardware_selection := Null,
            handle_height_mm := Null, door_handedness := Null\<rparr>)
      | _ \<Rightarrow> Inl IllTyped)"

section \<open>Round trips\<close>

lemma enum_strs [simp]:
  "enum_of movement_str MOVEMENTS (Some (JStr (movement_str m))) = Some m"
  "enum_of hinge_str [H_LEFT, H_RIGHT, H_TOP, H_BOTTOM, H_NONE] (Some (JStr (hinge_str h))) = Some h"
  "enum_of direction_str [INWARD, OUTWARD] (Some (JStr (direction_str d))) = Some d"
  "enum_of role_str [SINGLE, ACTIVE, PASSIVE] (Some (JStr (role_str r))) = Some r"
  "enum_of side_str [S_LEFT, S_RIGHT] (Some (JStr (side_str s))) = Some s"
  "enum_of panel_kind_str [P_MOVING, P_FIXED] (Some (JStr (panel_kind_str k))) = Some k"
  "enum_of use_str [U_WINDOW, U_DOOR] (Some (JStr (use_str u))) = Some u"
proof -
  show "enum_of movement_str MOVEMENTS (Some (JStr (movement_str m))) = Some m" by (cases m) (simp_all add: enum_of_def MOVEMENTS_def)
  show "enum_of hinge_str [H_LEFT, H_RIGHT, H_TOP, H_BOTTOM, H_NONE] (Some (JStr (hinge_str h))) = Some h" by (cases h) (simp_all add: enum_of_def)
  show "enum_of role_str [SINGLE, ACTIVE, PASSIVE] (Some (JStr (role_str r))) = Some r" by (cases r) (simp_all add: enum_of_def)
  show "enum_of direction_str [INWARD, OUTWARD] (Some (JStr (direction_str d))) = Some d" by (cases d) (simp_all add: enum_of_def)
  show "enum_of side_str [S_LEFT, S_RIGHT] (Some (JStr (side_str s))) = Some s" by (cases s) (simp_all add: enum_of_def)
  show "enum_of panel_kind_str [P_MOVING, P_FIXED] (Some (JStr (panel_kind_str k))) = Some k" by (cases k) (simp_all add: enum_of_def)
  show "enum_of use_str [U_WINDOW, U_DOOR] (Some (JStr (use_str u))) = Some u" by (cases u) (simp_all add: enum_of_def)
qed

lemma opening_of_str [simp]: "opening_of (opening_str o') = Some o'"
  by (cases o') (simp_all add: opening_of_def OPENINGS_def)

lemma opening_json_back [simp]: "opening_of_json (opening_json o') = Some o'"
  by (cases o') (simp add: opening_of_json_def opening_json_def has_members_def json_member_def)

lemma those_back: "(\<And>x. x \<in> set xs \<Longrightarrow> f (g x) = Some x) \<Longrightarrow> those (map f (map g xs)) = Some xs"
  by (induction xs) auto

lemma leaf_json_back [simp]: "leaf_of_json (leaf_json l) = Some l"
proof (cases "leaf_hardware_set_sku l")
qed (cases l; simp add: leaf_of_json_def leaf_json_def has_members_def json_member_def field_member_def text_field_def)+

lemma hinged_json_back [simp]: "hinged_of_json (hinged_json l) = Some l"
  using those_back [of "leaves l" leaf_of_json leaf_json]
  by (cases l) (simp add: hinged_of_json_def hinged_json_def has_members_def json_member_def)

lemma nat_json_back [simp]: "nat_of_json (Some (nat_json n)) = Some n"
  by (simp add: nat_of_json_def nat_json_def)

lemma nat_json_not_null [simp]: "nat_json n \<noteq> JNull"
  by (simp add: nat_json_def)

lemma panel_json_back [simp]: "panel_of_json (panel_json p) = Some p"
proof (cases "travel p"; cases "track p")
qed (cases p; simp add: panel_of_json_def panel_json_def has_members_def json_member_def field_member_def side_field_def)+

lemma sliding_json_back [simp]: "sliding_of_json (sliding_json l) = Some l"
  using those_back [of "panels l" panel_of_json panel_json]
  by (cases l) (simp add: sliding_of_json_def sliding_json_def has_members_def json_member_def)

subsection \<open>The texts read back\<close>

lemma object_order_plain: "\<forall>(k, v) \<in> set ms. \<not> index_key k \<Longrightarrow> object_order ms = ms"
proof -
  assume a: "\<forall>(k, v) \<in> set ms. \<not> index_key k"
  then have "filter (\<lambda>(k, _). index_key k) ms = []" "filter (\<lambda>(k, _). \<not> index_key k) ms = ms"
    by (auto simp: filter_empty_conv filter_id_conv)
  then show "object_order ms = ms" by (simp only: object_order_def) simp
qed

lemma index_key_alpha: "\<not> is_digit c \<Longrightarrow> \<not> index_key (c # s)"
  by (simp add: index_key_def)

lemma letters_not_digits [simp]:
  "\<not> is_digit CHR ''m''" "\<not> is_digit CHR ''h''" "\<not> is_digit CHR ''d''" "\<not> is_digit CHR ''l''" "\<not> is_digit CHR ''f''" "\<not> is_digit CHR ''s''"
  "\<not> is_digit CHR ''o''" "\<not> is_digit CHR ''k''" "\<not> is_digit CHR ''t''" "\<not> is_digit CHR ''p''"
  by (simp_all add: is_digit_def digit_chars_def)

lemma opening_json_ok [simp]: "json_ok (opening_json o')"
  by (simp add: opening_json_def object_order_plain index_key_alpha)

lemma leaf_json_ok [simp]: "json_ok (leaf_json l)"
  by (cases "leaf_hardware_set_sku l") (simp_all add: leaf_json_def field_member_def object_order_plain index_key_alpha)

lemma hinged_json_ok [simp]: "json_ok (hinged_json l)"
  by (simp add: hinged_json_def list_all_iff object_order_plain index_key_alpha)

lemma nat_json_ok: "n < 10 ^ 15 \<Longrightarrow> json_ok (nat_json n)"
  using num_ok_whole [of "int n"] by (simp add: nat_json_def)

text \<open>Choices the check of a structured opening admits: not bottom-hung, with a recipe exactly when the
  movement needs one, and a pair only as the two leaves of a frame.\<close>

definition needs_code :: "OpeningChoice \<Rightarrow> bool" where
  "needs_code c \<longleftrightarrow> movement (ch_opening c) \<in> {M_LIFT_SLIDE, M_PARALLEL_SLIDE, M_FOLD, M_PIVOT_V, M_PIVOT_H, M_VERTICAL_SLIDE} \<or>
     movement (ch_opening c) = M_SLIDE \<and> ch_use c = U_DOOR"

definition palette_choice :: "OpeningChoice \<Rightarrow> bool" where
  "palette_choice c \<longleftrightarrow> movement (ch_opening c) \<noteq> M_BOTTOM_HUNG \<and>
     (if needs_code c then (case ch_recipe c of None \<Rightarrow> False | Some r \<Rightarrow> trim (ar_code r) \<noteq> []) \<and> ch_layout c = None else ch_recipe c = None) \<and>
     (case ch_layout c of None \<Rightarrow> True | Some l \<Rightarrow> map leaf_slot (leaves l) = [S_LEFT, S_RIGHT] \<and>
        (\<forall>x \<in> set (leaves l). movement (leaf_opening x) \<noteq> M_BOTTOM_HUNG))"

lemma choice_json_members:
  "choice_json c = JObj [(''opening_type'', JNull), (''opening'', opening_json (ch_opening c)), (''opening_use'', JStr (use_str (ch_use c))),
     (''opening_recipe_code'', case ch_recipe c of None \<Rightarrow> JNull | Some r \<Rightarrow> JStr (ar_code r)),
     (''hinged_layout'', case ch_layout c of None \<Rightarrow> JNull | Some l \<Rightarrow> hinged_json l),
     (''hardware_set_sku'', JNull), (''hardware_selection'', JNull), (''handle_height_mm'', JNull), (''door_handedness'', JNull),
     (''panel_article_sku'', JNull),
     (''sliding_layout'', if movement (ch_opening c) = M_SLIDE \<and> ch_recipe c = None
        then sliding_json \<lparr>tracks = 2, panels = [(moving ''S1'' 0)\<lparr>travel := Val S_RIGHT\<rparr>, (moving ''S2'' 1)\<lparr>travel := Val S_LEFT\<rparr>]\<rparr>
        else JNull)]"
  by (cases "ch_recipe c"; cases "ch_layout c") (simp_all add: choice_json_def choicePatch_def Let_def field_member_def no_fields_def)

lemma sliding_preset_ok:
  "json_ok (sliding_json \<lparr>tracks = 2, panels = [(moving ''S1'' 0)\<lparr>travel := Val S_RIGHT\<rparr>, (moving ''S2'' 1)\<lparr>travel := Val S_LEFT\<rparr>]\<rparr>)"
  using nat_json_ok [of 0] nat_json_ok [of 1] nat_json_ok [of 2]
  by (simp add: sliding_json_def panel_json_def moving_def field_member_def object_order_plain index_key_alpha)

lemma choice_json_ok: "json_ok (choice_json c)"
  unfolding choice_json_members using sliding_preset_ok
  by (simp add: object_order_plain index_key_alpha split: option.split)

lemma physical_opening_json: "physical (Some (opening_json o')) \<longleftrightarrow> movement o' \<noteq> M_BOTTOM_HUNG"
proof -
  have m: "member_in [''FIXED'', ''TURN'', ''TILT'', ''TILT_TURN'', ''TOP_HUNG'', ''SLIDE'', ''LIFT_SLIDE'', ''PARALLEL_SLIDE'', ''FOLD'',
      ''PIVOT_V'', ''PIVOT_H'', ''VERTICAL_SLIDE''] (Some (JStr (movement_str x))) \<longleftrightarrow> x \<noteq> M_BOTTOM_HUNG" for x
    by (cases x) (simp_all add: member_in_def)
  have h: "member_in [''LEFT'', ''RIGHT'', ''TOP'', ''BOTTOM'', ''NONE''] (Some (JStr (hinge_str x)))" for x by (cases x) (simp_all add: member_in_def)
  have d: "member_in [''INWARD'', ''OUTWARD''] (Some (JStr (direction_str x)))" for x by (cases x) (simp_all add: member_in_def)
  have r: "member_in [''SINGLE'', ''ACTIVE'', ''PASSIVE''] (Some (JStr (role_str x)))" for x by (cases x) (simp_all add: member_in_def)
  show ?thesis using m h d r by (simp add: physical_def is_object_def opening_json_def json_member_def)
qed

lemma choice_member [simp]:
  "json_member ''opening'' (choice_json c) = Some (opening_json (ch_opening c))"
  "json_member ''opening_use'' (choice_json c) = Some (JStr (use_str (ch_use c)))"
  "json_member ''opening_recipe_code'' (choice_json c) = Some (case ch_recipe c of None \<Rightarrow> JNull | Some r \<Rightarrow> JStr (ar_code r))"
  "json_member ''hinged_layout'' (choice_json c) = Some (case ch_layout c of None \<Rightarrow> JNull | Some l \<Rightarrow> hinged_json l)"
  "json_member ''sliding_layout'' (choice_json c) = Some (if movement (ch_opening c) = M_SLIDE \<and> ch_recipe c = None
        then sliding_json \<lparr>tracks = 2, panels = [(moving ''S1'' 0)\<lparr>travel := Val S_RIGHT\<rparr>, (moving ''S2'' 1)\<lparr>travel := Val S_LEFT\<rparr>]\<rparr>
        else JNull)"
  by (simp_all add: choice_json_members json_member_def)

lemma is_object_choice [simp]: "is_object (Some (choice_json c))"
  by (simp add: choice_json_members is_object_def)

lemma movement_member [simp]: "json_member ''movement'' (opening_json o') = Some (JStr (movement_str (movement o')))"
  by (simp add: opening_json_def json_member_def)

lemma advanced_choice: "advanced_opening (choice_json c) \<longleftrightarrow> needs_code c"
proof -
  have "member_in [''LIFT_SLIDE'', ''PARALLEL_SLIDE'', ''FOLD'', ''PIVOT_V'', ''PIVOT_H'', ''VERTICAL_SLIDE''] (Some (JStr (movement_str x)))
      \<longleftrightarrow> x \<in> {M_LIFT_SLIDE, M_PARALLEL_SLIDE, M_FOLD, M_PIVOT_V, M_PIVOT_H, M_VERTICAL_SLIDE}" for x
    by (cases x) (simp_all add: member_in_def)
  moreover have "movement_str x = ''SLIDE'' \<longleftrightarrow> x = M_SLIDE" for x by (cases x) simp_all
  moreover have "use_str x = ''DOOR'' \<longleftrightarrow> x = U_DOOR" for x by (cases x) simp_all
  ultimately show ?thesis by (simp add: advanced_opening_def needs_code_def Let_def)
qed

lemma hinged_truthy [simp]: "truthy (Some (hinged_json l))" "truthy (Some (sliding_json s))"
  by (simp_all add: hinged_json_def sliding_json_def)

lemma leaves_ok_pair:
  assumes "map leaf_slot (leaves l) = [S_LEFT, S_RIGHT]" "\<forall>x \<in> set (leaves l). movement (leaf_opening x) \<noteq> M_BOTTOM_HUNG"
  shows "leaves_ok (hinged_json l) = Inr True"
proof -
  obtain a b where l: "leaves l = [a, b]" "leaf_slot a = S_LEFT" "leaf_slot b = S_RIGHT" using assms(1) by auto
  have m: "json_member ''opening'' (leaf_json x) = Some (opening_json (leaf_opening x))" "json_member ''slot'' (leaf_json x) = Some (JStr (side_str (leaf_slot x)))"
    "leaf_json x \<noteq> JNull" for x by (simp_all add: leaf_json_def json_member_def)
  have p: "physical (Some (opening_json (leaf_opening a)))" "physical (Some (opening_json (leaf_opening b)))"
    using assms(2) l(1) by (simp_all add: physical_opening_json)
  have "json_member ''leaves'' (hinged_json l) = Some (JArr [leaf_json a, leaf_json b])" using l(1) by (simp add: hinged_json_def json_member_def)
  then show ?thesis using m p l(2,3) by (simp add: leaves_ok_def result_bind_def)
qed

lemma panels_ok_preset:
  "panels_ok (sliding_json \<lparr>tracks = 2, panels = [(moving ''S1'' 0)\<lparr>travel := Val S_RIGHT\<rparr>, (moving ''S2'' 1)\<lparr>travel := Val S_LEFT\<rparr>]\<rparr>) = Inr True"
  by (simp add: panels_ok_def sliding_json_def panel_json_def moving_def json_member_def nat_json_def is_integer_def member_in_def
      field_member_def result_bind_def)

lemma structured_choice:
  assumes "palette_choice c"
  shows "structuredOpeningPatch (Some (choice_json c)) = Inr (Some (accepted_patch (choice_json c)))"
proof -
  have p: "physical (Some (opening_json (ch_opening c)))" using assms by (simp add: palette_choice_def physical_opening_json)
  have u: "opt_String (Some (JStr (use_str (ch_use c)))) \<in> {''DOOR'', ''WINDOW''}" by (cases "ch_use c") (simp_all add: opt_String_def)
  have r: "recipe_ok (choice_json c)"
    using assms by (auto simp: recipe_ok_def advanced_choice palette_choice_def Let_def split: if_splits option.splits)
  have h: "(if truthy (json_member ''hinged_layout'' (choice_json c)) then leaves_ok (the (json_member ''hinged_layout'' (choice_json c))) else Inr True) = Inr True"
    using assms leaves_ok_pair by (auto simp: palette_choice_def split: option.split)
  have s: "(if truthy (json_member ''sliding_layout'' (choice_json c)) then panels_ok (the (json_member ''sliding_layout'' (choice_json c))) else Inr True) = Inr True"
    using panels_ok_preset by simp
  show ?thesis
    unfolding structuredOpeningPatch_def option.sel Let_def h s using p u r by (simp add: result_bind_def)
qed

lemma cast_field_obj: "j = JObj ms \<Longrightarrow> f j = Some x \<Longrightarrow> cast_field f (Some j) = Some (Val x)"
  by (simp add: cast_field_def)

lemma patch_of_choice:
  assumes "palette_choice c"
  shows "patch_of (accepted_patch (choice_json c)) = Inr ((choicePatch c)\<lparr>panel_article_sku := Undef\<rparr>)"
proof -
  have r: "(if advanced_opening (choice_json c) then JStr (opt_String (json_member ''opening_recipe_code'' (choice_json c))) else JNull) =
      (case ch_recipe c of None \<Rightarrow> JNull | Some r \<Rightarrow> JStr (ar_code r))"
    using assms by (auto simp: palette_choice_def advanced_choice opt_String_def split: if_splits option.splits)
  have n: "cast_field f (Some JNull) = Some Null" for f :: "json \<Rightarrow> 'a option" by (simp add: cast_field_def)
  have u: "cast_field (\<lambda>j. enum_of use_str [U_WINDOW, U_DOOR] (Some j)) (Some (JStr (use_str x))) = Some (Val x)" for x
    by (simp add: cast_field_def)
  have o: "cast_field opening_of_json (Some (opening_json o')) = Some (Val o')" for o' by (rule cast_field_obj [OF opening_json_def]) simp
  have h: "cast_field hinged_of_json (Some (hinged_json l)) = Some (Val l)" for l by (rule cast_field_obj [OF hinged_json_def]) simp
  have s: "cast_field sliding_of_json (Some (sliding_json l)) = Some (Val l)" for l by (rule cast_field_obj [OF sliding_json_def]) simp
  show ?thesis
    unfolding patch_of_def accepted_patch_def r
    by (cases "ch_recipe c"; cases "ch_layout c")
      (simp_all add: o h s n u or_jnull_def text_field_def choicePatch_def no_fields_def)
qed

end
