(* ===== verification/Messages.thy ===== *)
theory Messages
  imports Openings
begin

text \<open>
  \<open>i18n/es-CL.ts\<close>: the texts of the interface that the commands, the object tree, the design library and the catalog tables
  look up, and the lookup itself. Texts beyond ASCII are their UTF-8 bytes.
\<close>

definition degree :: string where
  "degree = [CHR 0xC2, CHR 0xB0]"

definition ac_A :: string where
  "ac_A = [CHR 0xC3, CHR 0x81]"

definition times_sign :: string where
  "times_sign = [CHR 0xC3, CHR 0x97]"

definition ac_a :: string where
  "ac_a = [CHR 0xC3, CHR 0xA1]"

definition ac_e :: string where
  "ac_e = [CHR 0xC3, CHR 0xA9]"

definition ac_i :: string where
  "ac_i = [CHR 0xC3, CHR 0xAD]"

definition n_tilde :: string where
  "n_tilde = [CHR 0xC3, CHR 0xB1]"

definition ac_o :: string where
  "ac_o = [CHR 0xC3, CHR 0xB3]"

definition ac_u :: string where
  "ac_u = [CHR 0xC3, CHR 0xBA]"

definition en_dash :: string where
  "en_dash = [CHR 0xE2, CHR 0x80, CHR 0x93]"

definition ellipsis :: string where
  "ellipsis = [CHR 0xE2, CHR 0x80, CHR 0xA6]"

definition messages_intent :: "(string \<times> string) list" where
  "messages_intent = [(''intent.fixed'', ''Fijo''),
    (''intent.turnLeft'', ''Abatible izquierda''),
    (''intent.turnRight'', ''Abatible derecha''),
    (''intent.tiltLeft'', ''Oscilobatiente izquierda''),
    (''intent.tiltRight'', ''Oscilobatiente derecha''),
    (''intent.sliding'', ''Corredera de dos hojas''),
    (''intent.sliding3'', ''Corredera de tres hojas''),
    (''intent.sliding4'', ''Corredera de cuatro hojas''),
    (''intent.slidingLayout'', (''Corredera (distribuci'' @ ac_o @ ''n libre)'')),
    (''intent.awning'', ''Proyectante''),
    (''intent.door'', ''Puerta de acceso'')]"

definition messages_tree :: "(string \<times> string) list" where
  "messages_tree = [(''tree.title'', (ac_A @ ''rbol del conjunto'')),
    (''tree.product'', ''Conjunto''),
    (''tree.units'', ''unidades''),
    (''tree.unitsOne'', ''unidad''),
    (''tree.module'', (''M'' @ ac_o @ ''dulo'')),
    (''tree.frame'', ''Marco''),
    (''tree.sash'', ''Hoja''),
    (''tree.mullionV'', (''Mulli'' @ ac_o @ ''n vertical'')),
    (''tree.mullionH'', (''Travesa'' @ n_tilde @ ''o'')),
    (''tree.coupler'', ''Acoplador''),
    (''tree.glass'', ''Vidrio''),
    (''tree.panel'', ''Panel''),
    (''tree.handle'', ''Manilla''),
    (''tree.bay'', (''Pa'' @ n_tilde @ ''o''))]"

definition messages_kinds :: "(string \<times> string) list" where
  "messages_kinds = [(''assembly.kindInline'', (''En l'' @ ac_i @ ''nea'')),
    (''assembly.kindStacked'', ''Apilado''),
    (''assembly.kindTee'', ''Te (T)''),
    (''assembly.kindCorner'', ''Esquina'')]"

definition messages_starters :: "(string \<times> string) list" where
  "messages_starters = [(''assembly.starter.fixed'', ''Fijo''),
    (''assembly.starter.fixedHint'', ''Ventanal fijo de una pieza''),
    (''assembly.starter.sash'', ''Una hoja''),
    (''assembly.starter.sashHint'', ''Oscilobatiente de una hoja''),
    (''assembly.starter.twoSash'', ''Dos hojas''),
    (''assembly.starter.twoSashHint'', ''Oscilobatiente doble con poste''),
    (''assembly.starter.sliding2'', ''Corredera 2 hojas''),
    (''assembly.starter.sliding2Hint'', ''Dos hojas correderas''),
    (''assembly.starter.sliding3'', ''Corredera 3 hojas''),
    (''assembly.starter.sliding3Hint'', ''Tres hojas correderas en dos rieles''),
    (''assembly.starter.awning'', ''Proyectante''),
    (''assembly.starter.awningHint'', ''Hoja abatible superior''),
    (''assembly.starter.awningBand'', ''Fijo + proyectante''),
    (''assembly.starter.awningBandHint'', ''Fijo superior, proyectante inferior''),
    (''assembly.starter.coupled'', ''Ventana + fijo acoplado''),
    (''assembly.starter.coupledHint'', ''Dos ventanas unidas por coplador''),
    (''assembly.starter.doorSide'', ''Puerta + lateral fijo''),
    (''assembly.starter.doorSideHint'', ''Puerta de entrada con lateral fijo''),
    (''assembly.starter.slidingFixed'', ''Corredera + fijo''),
    (''assembly.starter.slidingFixedHint'', ''Corredera acoplada a fijo''),
    (''assembly.starter.bow3'', (''Bow 3 m'' @ ac_o @ ''dulos'')),
    (''assembly.starter.bow3Hint'', (''Centro fijo, laterales abatibles '' @ mid_dot @ '' 22,5'' @ degree)),
    (''assembly.starter.bay3'', (''Bay 3 m'' @ ac_o @ ''dulos 45'' @ degree)),
    (''assembly.starter.bay3Hint'', (''Centro fijo, laterales abatibles '' @ mid_dot @ '' 45'' @ degree)),
    (''assembly.starter.windowTransom'', ''Ventana + sobreluz''),
    (''assembly.starter.windowTransomHint'', ''Hoja oscilobatiente y fijo superior acoplados''),
    (''assembly.starter.corner90'', (''Esquina 90'' @ degree)),
    (''assembly.starter.corner90Hint'', ''Dos fijos con acoplador de esquina''),
    (''assembly.starter.bow5'', (''Bow '' @ times_sign @ ''5'')),
    (''assembly.starter.bow5Hint'', (''Cinco ventanas en '' @ ac_a @ ''ngulo'')),
    (''assembly.starter.trapezoid'', ''Trapecio''),
    (''assembly.starter.trapezoidHint'', ''Fijo trapezoidal de borde superior inclinado''),
    (''assembly.starter.arch'', ''Arco''),
    (''assembly.starter.archHint'', ''Fijo con dintel en arco de medio punto'')]"

definition messages_cmd :: "(string \<times> string) list" where
  "messages_cmd = [(''cmd.palette'', ''Paleta de comandos''),
    (''cmd.placeholder'', (''Escribe un comando o busca'' @ ellipsis)),
    (''cmd.needsParams'', ''pide datos''),
    (''cmd.goTo'', ''Ir a''),
    (''cmd.noResults'', ''Sin resultados''),
    (''cmd.invalidValue'', (''Valor inv'' @ ac_a @ ''lido'')),
    (''cmd.addUnitRight'', ''Agregar unidad a la derecha''),
    (''cmd.addUnitLeft'', ''Agregar unidad a la izquierda''),
    (''cmd.removeUnit'', ''Eliminar unidad seleccionada''),
    (''cmd.setModuleCount'', (''Definir cantidad de m'' @ ac_o @ ''dulos'')),
    (''cmd.moduleCountLabel'', (''Cantidad de m'' @ ac_o @ ''dulos'')),
    (''cmd.equalizeWidths'', ''Igualar anchos de unidades''),
    (''cmd.equalizeAngles'', (''Igualar '' @ ac_a @ ''ngulos de uniones'')),
    (''cmd.straighten'', ''Volver recto el conjunto''),
    (''cmd.setHeight'', ''Definir alto del conjunto''),
    (''cmd.heightLabel'', ''Alto (mm)''),
    (''cmd.setTotalWidth'', ''Definir ancho total del conjunto''),
    (''cmd.totalWidthLabel'', ''Ancho total (mm)''),
    (''cmd.setWidth'', ''Definir ancho de la unidad''),
    (''cmd.widthLabel'', ''Ancho (mm)''),
    (''cmd.setOpening'', ''Cambiar apertura de la unidad''),
    (''cmd.openingLabel'', ''Apertura''),
    (''cmd.setGlass'', (''Definir composici'' @ ac_o @ ''n de vidrio'')),
    (''cmd.glassLabel'', ''Vidrio''),
    (''cmd.setGlassThickness'', ''Definir espesor de vidrio''),
    (''cmd.glassThicknessLabel'', ''Espesor''),
    (''cmd.setPanel'', ''Definir panel de la unidad''),
    (''cmd.panelLabel'', ''Panel''),
    (''cmd.clearPanel'', ''Quitar panel de la unidad''),
    (''cmd.clearGlassThickness'', ''Quitar espesor de vidrio''),
    (''cmd.setAngle'', (''Definir '' @ ac_a @ ''ngulo de la uni'' @ ac_o @ ''n'')),
    (''cmd.angleLabel'', (ac_A @ ''ngulo ('' @ degree @ '')'')),
    (''cmd.setAngleStraightDesc'', (''La uni'' @ ac_o @ ''n queda recta'')),
    (''cmd.clearAngle'', (''Enderezar la uni'' @ ac_o @ ''n'')),
    (''cmd.setCoupler'', (''Definir cople de la uni'' @ ac_o @ ''n'')),
    (''cmd.couplerLabel'', ''Cople''),
    (''cmd.undo'', ''Deshacer''),
    (''cmd.redo'', ''Rehacer''),
    (''cmd.splitVertical'', ''Dividir vertical (montante)''),
    (''cmd.splitHorizontal'', (''Dividir horizontal (travesa'' @ n_tilde @ ''o)'')),
    (''cmd.duplicateModule'', ''Duplicar unidad''),
    (''cmd.stackAbove'', ''Agregar unidad apilada encima''),
    (''cmd.moveModuleLeft'', ''Mover unidad a la izquierda''),
    (''cmd.moveModuleRight'', ''Mover unidad a la derecha''),
    (''cmd.copySpec'', (''Copiar especificaci'' @ ac_o @ ''n de la unidad'')),
    (''cmd.applySpec'', (''Aplicar especificaci'' @ ac_o @ ''n a la unidad'')),
    (''cmd.copyBaySpec'', (''Copiar especificaci'' @ ac_o @ ''n del pa'' @ n_tilde @ ''o'')),
    (''cmd.applyBaySpec'', (''Aplicar especificaci'' @ ac_o @ ''n al pa'' @ n_tilde @ ''o'')),
    (''cmd.insertModule'', (''Insertar unidad en la uni'' @ ac_o @ ''n'')),
    (''cmd.disconnectCoupling'', (''Desconectar uni'' @ ac_o @ ''n'')),
    (''cmd.couplingKind'', (''Cambiar tipo de uni'' @ ac_o @ ''n'')),
    (''cmd.couplingKindLabel'', (''Tipo de uni'' @ ac_o @ ''n'')),
    (''cmd.removeBay'', (''Quitar pa'' @ n_tilde @ ''o seleccionado'')),
    (''cmd.removeSplit'', (''Quitar divisi'' @ ac_o @ ''n (montante/travesa'' @ n_tilde @ ''o)'')),
    (''cmd.removeSelection'', (''Eliminar selecci'' @ ac_o @ ''n'')),
    (''cmd.deselect'', ''Deseleccionar''),
    (''cmd.repeatLast'', (''Repetir '' @ ac_u @ ''ltima operaci'' @ ac_o @ ''n'')),
    (''cmd.selectTool'', (''Herramienta de selecci'' @ ac_o @ ''n'')),
    (''cmd.threeBaysInward'', ''Partir en tres, centro fijo, laterales abatibles hacia el centro'')]"

definition messages_single :: "(string \<times> string) list" where
  "messages_single = [(''assembly.noPanel'', ''Sin panel asignado''), (''cmd.askDekopen'', ''Preguntar a DEKOPEN''),
    (''assembly.starter.frameless'', ''Vidrio sin marco''),
    (''assembly.starter.framelessHint'', ''Pa'' @ n_tilde @ ''o fijo estructural asentado en canal inferior'')]"

definition messages_catalog :: "(string \<times> string) list" where
  "messages_catalog = [(''catalog.field.code'', (''C'' @ ac_o @ ''digo'')),
    (''catalog.field.sku'', ''SKU comercial''),
    (''catalog.field.system_id'', ''Serie''),
    (''catalog.field.material'', ''Material''),
    (''catalog.field.depth_mm'', ''Profundidad de serie (mm)''),
    (''catalog.field.chamber_count'', (''Cantidad de c'' @ ac_a @ ''maras'')),
    (''catalog.field.version'', (''Versi'' @ ac_o @ ''n de ficha'')),
    (''catalog.field.is_active'', ''Estado''),
    (''catalog.field.sash_overlap_mm'', ''Solape de hoja (mm)''),
    (''catalog.field.glass_clearance_white_mm'', ''Holgura de vidrio en blanco (mm)''),
    (''catalog.field.glass_clearance_foil_mm'', ''Holgura de vidrio en foliado (mm)''),
    (''catalog.field.chamber_clearance_mm'', (''Holgura de c'' @ ac_a @ ''mara (mm)'')),
    (''catalog.field.rebate_depth_mm'', ''Profundidad de rebaje (mm)''),
    (''catalog.field.manufacturer'', ''Fabricante''),
    (''catalog.field.family'', ''Familia''),
    (''catalog.field.applications'', ''Aplicaciones (separadas por coma)''),
    (''catalog.field.finishes'', ''Acabados que vende la serie (separados por coma)''),
    (''catalog.field.process_profile_id'', ''Perfil de proceso''),
    (''catalog.field.end_milling_overlap_mm'', ''Solape de desbaste de extremo (mm)''),
    (''catalog.field.pulley_height_mm'', ''Altura de rueda (mm)''),
    (''catalog.field.central_overlap_mm'', ''Solape central (mm)''),
    (''catalog.field.sliding_lateral_clearance_mm'', ''Holgura lateral de corredera (mm)''),
    (''catalog.field.sliding_end_add_mm'', (''Adici'' @ ac_o @ ''n de extremo de corredera (mm)'')),
    (''catalog.field.corner_bracket_loss_mm'', ''Descuento de escuadra (mm)''),
    (''catalog.field.hook_depth_mm'', ''Profundidad de gancho (mm)''),
    (''catalog.field.rail_type'', ''Tipo de riel''),
    (''catalog.field.sliding_glazing_deduction_width_mm'', ''Descuento de vidrio en ancho de corredera (mm)''),
    (''catalog.field.sliding_glazing_deduction_height_mm'', ''Descuento de vidrio en alto de corredera (mm)''),
    (''catalog.field.door_threshold_mm'', ''Umbral de puerta (mm)''),
    (''catalog.field.door_bottom_clearance_mm'', ''Holgura inferior de puerta (mm)''),
    (''catalog.field.door_leaf_side_clearance_mm'', ''Holgura lateral de hoja de puerta (mm)''),
    (''catalog.field.role'', (''Funci'' @ ac_o @ ''n del perfil'')),
    (''catalog.field.face_width_mm'', ''Ancho de cara (mm)''),
    (''catalog.field.commercial_length_mm'', ''Largo comercial (mm)''),
    (''catalog.field.welding_loss_mm'', (''P'' @ ac_e @ ''rdida de soldadura (mm)'')),
    (''catalog.field.reinforcement_sku'', ''SKU comercial del refuerzo''),
    (''catalog.field.reinforcement_gap_mm'', ''Holgura de refuerzo (mm)''),
    (''catalog.field.weight_kg_m'', ''Peso del perfil (kg/m)''),
    (''catalog.field.steel_weight_kg_m'', ''Peso del refuerzo de acero (kg/m)''),
    (''catalog.field.bead_article_id'', (''Art'' @ ac_i @ ''culo de junquillo'')),
    (''catalog.field.glass_thickness_mm'', ''Espesor de vidrio (mm)''),
    (''catalog.field.bead_width_mm'', ''Ancho del junquillo (mm)''),
    (''catalog.field.gasket_interior_mm'', ''Junta interior (mm)''),
    (''catalog.field.gasket_exterior_mm'', ''Junta exterior (mm)''),
    (''catalog.field.cut_add_mm'', (''Adici'' @ ac_o @ ''n de corte (mm)'')),
    (''catalog.field.opening_type'', ''Tipo de apertura''),
    (''catalog.field.min_leaf_width_mm'', (''Ancho m'' @ ac_i @ ''nimo de hoja (mm)'')),
    (''catalog.field.max_leaf_width_mm'', (''Ancho m'' @ ac_a @ ''ximo de hoja (mm)'')),
    (''catalog.field.min_leaf_height_mm'', (''Alto m'' @ ac_i @ ''nimo de hoja (mm)'')),
    (''catalog.field.max_leaf_height_mm'', (''Alto m'' @ ac_a @ ''ximo de hoja (mm)'')),
    (''catalog.field.max_leaf_weight_kg'', (''Peso m'' @ ac_a @ ''ximo de hoja (kg)'')),
    (''catalog.field.carriages_qty'', ''Cantidad de carros''),
    (''catalog.field.stay_arms_qty'', ''Cantidad de compases''),
    (''catalog.field.weight_kg'', ''Peso del kit (kg)''),
    (''catalog.field.carriage_capacity_kg'', ''Capacidad del carro (kg)'')]"

text \<open>The type of the keys admits only keys of the table; the lookup of another is undefined.\<close>

definition tOptional :: "string \<Rightarrow> string option" where
  "tOptional key = map_of (messages_intent @ messages_tree @ messages_kinds @ messages_starters @ messages_cmd @ messages_single @ messages_catalog) key"

definition translate :: "string \<Rightarrow> string" where
  "translate key = (case tOptional key of Some s \<Rightarrow> s | None \<Rightarrow> ''undefined'')"

definition tDynamic :: "string \<Rightarrow> string \<Rightarrow> string" where
  "tDynamic pre name = (case tOptional (pre @ ''.'' @ name) of Some s \<Rightarrow> s | None \<Rightarrow> name)"

end
