(* ===== verification/AssemblyCommands.thy ===== *)
theory AssemblyCommands
  imports Commands OpeningJson Messages DesignOps "HOL-Library.Sublist"
begin

text \<open>
  \<open>features/canvas/assemblyCommands.ts\<close>: the table of commands every surface of the editor shares (palette,
  shortcuts, context menus, wire operations), with the resolution of their targets from arguments, from
  the selection and from the addresses of the wire, and the translation of a command into operations for
  the engine.
\<close>

type_synonym Ctx = "ProductJson CommandContext"
type_synonym Spec = "ProductJson CommandSpec"
type_synonym OpState = "ProductJson DesignOpState"

section \<open>Normalising typed values\<close>

definition MAX_MM :: rat where
  "MAX_MM = 30000"

definition normalizeMm :: "string \<Rightarrow> string option" where
  "normalizeMm raw = (case parseLocaleNumber raw of None \<Rightarrow> None
     | Some v \<Rightarrow> if v \<le> 0 \<or> v > MAX_MM then None else Some (toFixed 2 (Fin v)))"

definition normalizeAngle :: "string \<Rightarrow> string option" where
  "normalizeAngle raw = (case parseLocaleNumber raw of None \<Rightarrow> None
     | Some v \<Rightarrow> if \<bar>v\<bar> > 90 then None else Some (toFixed 1 (Fin v)))"

definition normalizeCount :: "string \<Rightarrow> string option" where
  "normalizeCount raw = (case parseLocaleNumber raw of None \<Rightarrow> None
     | Some v \<Rightarrow> if v \<noteq> of_int \<lfloor>v\<rfloor> \<or> v < 1 \<or> v > 12 then None else Some (num_str (Fin v)))"

section \<open>Targets\<close>

text \<open>\<open>args.k\<close>, and a text that is there and not empty.\<close>

definition arg :: "CommandArgs \<Rightarrow> string \<Rightarrow> string option" where
  "arg args k = map_of args k"

definition arg_text :: "CommandArgs \<Rightarrow> string \<Rightarrow> string" where
  "arg_text args k = (case arg args k of None \<Rightarrow> [] | Some s \<Rightarrow> s)"

definition nonempty :: "string option \<Rightarrow> string option" where
  "nonempty s = (case s of Some [] \<Rightarrow> None | _ \<Rightarrow> s)"

definition arg_shown :: "CommandArgs \<Rightarrow> string \<Rightarrow> string" where
  "arg_shown args k = (case arg args k of None \<Rightarrow> ''?'' | Some s \<Rightarrow> s)"

definition selectedModule :: "Ctx \<Rightarrow> ProductModuleJson option" where
  "selectedModule ctx = (case cx_selection ctx of None \<Rightarrow> None | Some i \<Rightarrow> find_module (cx_product ctx) i)"

definition selectedTreeNode :: "Ctx \<Rightarrow> (ProductModuleJson \<times> IntentNode) option result" where
  "selectedTreeNode ctx =
     (case nonempty (cx_selection ctx) of
        None \<Rightarrow> Inr None
      | Some sel \<Rightarrow>
         (if CHR ''/'' \<notin> set sel then Inr None
          else let moduleId = takeWhile (\<lambda>c. c \<noteq> CHR ''/'') sel; nodeId = tl (dropWhile (\<lambda>c. c \<noteq> CHR ''/'') sel)
               in case find_module (cx_product ctx) moduleId of
                    None \<Rightarrow> Inr None
                  | Some m \<Rightarrow> map_sum id (map_option (\<lambda>n. (m, n))) (findNode (tree m) nodeId)))"

definition selectedModuleScope :: "Ctx \<Rightarrow> ProductModuleJson option result" where
  "selectedModuleScope ctx =
     (case selectedModule ctx of Some m \<Rightarrow> Inr (Some m) | None \<Rightarrow> map_sum id (map_option fst) (selectedTreeNode ctx))"

definition selectedCoupling :: "Ctx \<Rightarrow> CouplingJson option" where
  "selectedCoupling ctx = (case cx_selection ctx of None \<Rightarrow> None | Some i \<Rightarrow> find_coupling (cx_product ctx) i)"

definition is_division :: "IntentNode \<Rightarrow> bool" where
  "is_division n \<longleftrightarrow> ntype n = SPLIT_V \<or> ntype n = SPLIT_H"

definition selectedSplit :: "Ctx \<Rightarrow> (ProductModuleJson \<times> IntentNode) option result" where
  "selectedSplit ctx = map_sum id (\<lambda>t. case t of Some (m, n) \<Rightarrow> if is_division n then Some (m, n) else None | None \<Rightarrow> None) (selectedTreeNode ctx)"

definition selectedBayTarget :: "Ctx \<Rightarrow> (ProductModuleJson \<times> IntentNode) option result" where
  "selectedBayTarget ctx = map_sum id (\<lambda>t. case t of Some (m, n) \<Rightarrow> if ntype n = BAY then Some (m, n) else None | None \<Rightarrow> None) (selectedTreeNode ctx)"

definition moduleTarget :: "Ctx \<Rightarrow> CommandArgs \<Rightarrow> ProductModuleJson option result" where
  "moduleTarget ctx args =
     result_bind (case arg args ''module'' of Some i \<Rightarrow> Inr (Some i) | None \<Rightarrow> map_sum id (map_option m_id) (selectedModuleScope ctx))
       (\<lambda>i. Inr (case nonempty i of None \<Rightarrow> None | Some i \<Rightarrow> find_module (cx_product ctx) i))"

definition couplingTarget :: "Ctx \<Rightarrow> CommandArgs \<Rightarrow> CouplingJson option" where
  "couplingTarget ctx args =
     (case nonempty (case arg args ''coupling'' of Some i \<Rightarrow> Some i | None \<Rightarrow> map_option c_id (selectedCoupling ctx)) of
        None \<Rightarrow> None | Some i \<Rightarrow> find_coupling (cx_product ctx) i)"

text \<open>A node named by \<open>args.module\<close> and another argument, when both are given and not empty.\<close>

definition argued_node :: "Ctx \<Rightarrow> string \<Rightarrow> string \<Rightarrow> (ProductModuleJson \<times> IntentNode) option result" where
  "argued_node ctx moduleId nodeId =
     (case find_module (cx_product ctx) moduleId of None \<Rightarrow> Inr None
      | Some m \<Rightarrow> map_sum id (map_option (\<lambda>n. (m, n))) (findNode (tree m) nodeId))"

definition bayTarget :: "Ctx \<Rightarrow> CommandArgs \<Rightarrow> (ProductModuleJson \<times> IntentNode) option result" where
  "bayTarget ctx args =
     (case (nonempty (arg args ''module''), nonempty (arg args ''bay'')) of
        (Some mi, Some bi) \<Rightarrow> map_sum id (\<lambda>t. case t of Some (m, n) \<Rightarrow> if ntype n = BAY then Some (m, n) else None | None \<Rightarrow> None)
           (argued_node ctx mi bi)
      | _ \<Rightarrow> selectedBayTarget ctx)"

definition splitTarget :: "Ctx \<Rightarrow> CommandArgs \<Rightarrow> (ProductModuleJson \<times> IntentNode) option result" where
  "splitTarget ctx args =
     (case (nonempty (arg args ''module''), nonempty (arg args ''division'')) of
        (Some mi, Some di) \<Rightarrow> map_sum id (\<lambda>t. case t of Some (m, n) \<Rightarrow> if is_division n then Some (m, n) else None | None \<Rightarrow> None)
           (argued_node ctx mi di)
      | _ \<Rightarrow> selectedSplit ctx)"

definition createdModule :: "ProductJson \<Rightarrow> ProductJson \<Rightarrow> string option" where
  "createdModule before after' = map_option m_id (List.find (\<lambda>m. m_id m \<notin> set (module_ids before)) (modules after'))"

section \<open>Addresses of the wire\<close>

text \<open>The number of \<open>/^prefix(\d+)$/\<close>.\<close>

definition numbered :: "string \<Rightarrow> string \<Rightarrow> int option" where
  "numbered pre s = (if startsWith s pre then
     (let ds = drop (length pre) s in if ds \<noteq> [] \<and> list_all is_digit ds then Some (digits_val ds) else None) else None)"

text \<open>\<open>xs[i]\<close> for a number that may be negative or fractional.\<close>

definition at_index :: "'a list \<Rightarrow> rat \<Rightarrow> 'a option" where
  "at_index xs i = (if i = of_int \<lfloor>i\<rfloor> \<and> 0 \<le> i then nth_opt xs (nat \<lfloor>i\<rfloor>) else None)"

text \<open>The address of a module or of a coupling, over the identities of each: live ones, those of the product
  the sequence started from, and those an earlier operation of the sequence created.\<close>

definition address_of :: "string \<Rightarrow> string list \<Rightarrow> string list \<Rightarrow> json option list \<Rightarrow> json option \<Rightarrow> string option result" where
  "address_of letter ids originals added address =
     (let live = (\<lambda>i. case nonempty i of Some s \<Rightarrow> if s \<in> set ids then Some s else None | None \<Rightarrow> None)
      in case address of
           Some (JNum (Fin x)) \<Rightarrow> Inr (live (at_index originals x))
         | Some (JStr s) \<Rightarrow>
             (if s \<in> set ids then Inr (Some s)
              else case numbered (''added_'' @ letter) s of
                Some n \<Rightarrow> (case at_index added (of_int (n - 1)) of
                    Some (Some (JStr i)) \<Rightarrow> Inr (Some i) | Some (Some JNull) \<Rightarrow> Inr None | Some (Some _) \<Rightarrow> Inl IllTyped | _ \<Rightarrow> Inr None)
              | None \<Rightarrow> (case numbered letter s of Some n \<Rightarrow> Inr (live (at_index originals (of_int (n - 1)))) | None \<Rightarrow> Inr None))
         | _ \<Rightarrow> Inr None)"

definition origin_of :: "ProductJson \<Rightarrow> OpState option \<Rightarrow> ProductJson" where
  "origin_of p st = (case st of None \<Rightarrow> p | Some s \<Rightarrow> state_origin s)"

definition moduleAt :: "ProductJson \<Rightarrow> json option \<Rightarrow> OpState option \<Rightarrow> string option result" where
  "moduleAt p address st = address_of ''m'' (module_ids p) (module_ids (origin_of p st)) (case st of None \<Rightarrow> [] | Some s \<Rightarrow> addedModules s) address"

definition couplingAt :: "ProductJson \<Rightarrow> json option \<Rightarrow> OpState option \<Rightarrow> string option result" where
  "couplingAt p address st = address_of ''c'' (coupling_ids p) (coupling_ids (origin_of p st)) (case st of None \<Rightarrow> [] | Some s \<Rightarrow> addedCouplings s) address"

definition wire_text :: "json option \<Rightarrow> string option" where
  "wire_text v = (case v of Some (JStr s) \<Rightarrow> nonempty (Some s) | _ \<Rightarrow> None)"

text \<open>The digits of \<open>/^[mc](\d+)$/\<close> with a prefix before the letter.\<close>

definition label_digits :: "string \<Rightarrow> string \<Rightarrow> string option" where
  "label_digits pre s = (case (numbered (pre @ ''m'') s, numbered (pre @ ''c'') s) of
     (None, None) \<Rightarrow> None | _ \<Rightarrow> Some (drop (length pre + 1) s))"

definition targetLabel :: "json option \<Rightarrow> string list \<Rightarrow> string" where
  "targetLabel address ids =
     (case address of
        Some (JNum x) \<Rightarrow> num_str (js_add x (Fin 1))
      | Some (JStr s) \<Rightarrow>
          (case label_digits ''added_'' s of
             Some ds \<Rightarrow> ''nueva '' @ ds
           | None \<Rightarrow> (case findIndex (\<lambda>i. i = s) ids of
               Some k \<Rightarrow> nat_str (Suc k)
             | None \<Rightarrow> (case label_digits [] s of Some ds \<Rightarrow> ds | None \<Rightarrow> ''?'')))
      | _ \<Rightarrow> ''?'')"

definition decodeModule :: "CommandArgs \<Rightarrow> DesignOp \<Rightarrow> ProductJson \<Rightarrow> OpState option \<Rightarrow> CommandArgs option result" where
  "decodeModule extra op p st = map_sum id (\<lambda>i. case nonempty i of None \<Rightarrow> None
     | Some i \<Rightarrow> Some ([(''module'', i), (''target'', targetLabel (map_of op ''module'') (module_ids p))] @ extra))
     (moduleAt p (map_of op ''module'') st)"

definition decodeCoupling :: "CommandArgs \<Rightarrow> DesignOp \<Rightarrow> ProductJson \<Rightarrow> OpState option \<Rightarrow> CommandArgs option result" where
  "decodeCoupling extra op p st = map_sum id (\<lambda>i. case nonempty i of None \<Rightarrow> None
     | Some i \<Rightarrow> Some ([(''coupling'', i), (''target'', targetLabel (map_of op ''coupling'') (coupling_ids p))] @ extra))
     (couplingAt p (map_of op ''coupling'') st)"

definition OPENING_LABELS :: "(string \<times> string) list" where
  "OPENING_LABELS = [(''FIXED'', ''fijo''), (''TURN_LEFT'', ''abatible izquierda''), (''TURN_RIGHT'', ''abatible derecha''),
     (''TILT_TURN_LEFT'', ''oscilobatiente izquierda''), (''TILT_TURN_RIGHT'', ''oscilobatiente derecha''),
     (''SLIDING_2L'', ''corredera 2 hojas''), (''AWNING'', ''proyectante''), (''DOOR_ENTRY'', ''puerta'')]"

definition moduleLabel :: "CommandArgs \<Rightarrow> string" where
  "moduleLabel args = (''m'' @ ac_o @ ''dulo '') @ arg_shown args ''target''"

definition OPENING_OPTIONS :: "(Opening \<times> string) list" where
  "OPENING_OPTIONS = [(O_FIXED, ''intent.fixed''), (O_TURN_LEFT, ''intent.turnLeft''), (O_TURN_RIGHT, ''intent.turnRight''),
     (O_TILT_TURN_LEFT, ''intent.tiltLeft''), (O_TILT_TURN_RIGHT, ''intent.tiltRight''), (O_AWNING, ''intent.awning''),
     (O_SLIDING_2L, ''intent.sliding''), (O_SLIDING_3L, ''intent.sliding3''), (O_SLIDING_4L, ''intent.sliding4''),
     (O_SLIDING, ''intent.slidingLayout''), (O_DOOR_ENTRY, ''intent.door'')]"

section \<open>What the commands do to the product\<close>

text \<open>\<open>args.module ?? selectedModule(ctx)?.id\<close>, and the same for a coupling; an empty identity is no target.\<close>

definition module_arg :: "Ctx \<Rightarrow> CommandArgs \<Rightarrow> string option" where
  "module_arg ctx args = nonempty (case arg args ''module'' of Some i \<Rightarrow> Some i | None \<Rightarrow> map_option m_id (selectedModule ctx))"

definition coupling_arg :: "Ctx \<Rightarrow> CommandArgs \<Rightarrow> string option" where
  "coupling_arg ctx args = nonempty (case arg args ''coupling'' of Some i \<Rightarrow> Some i | None \<Rightarrow> map_option c_id (selectedCoupling ctx))"

definition apply_count :: "Ctx \<Rightarrow> CommandArgs \<Rightarrow> ProductJson option result" where
  "apply_count ctx args =
     (case normalizeCount (arg_text args ''count'') of None \<Rightarrow> Inr None
      | Some c \<Rightarrow> (case setModuleCount (cx_product ctx) (case str_num c of Fin x \<Rightarrow> \<lfloor>x\<rfloor> | _ \<Rightarrow> 0) of
          None \<Rightarrow> Inl NoReturn | Some r \<Rightarrow> r))"

definition apply_remove :: "Ctx \<Rightarrow> CommandArgs \<Rightarrow> ProductJson option result" where
  "apply_remove ctx args =
     (case module_arg ctx args of None \<Rightarrow> Inr None
      | Some i \<Rightarrow> Inr (if 1 < length (modules (cx_product ctx)) then removeUnit (cx_product ctx) i else None))"

definition apply_height :: "Ctx \<Rightarrow> CommandArgs \<Rightarrow> ProductJson option result" where
  "apply_height ctx args =
     (case normalizeMm (arg_text args ''height'') of None \<Rightarrow> Inr None
      | Some h \<Rightarrow> map_sum id Some (setAllModuleHeights (cx_product ctx) h))"

definition apply_total_width :: "Ctx \<Rightarrow> CommandArgs \<Rightarrow> ProductJson option result" where
  "apply_total_width ctx args =
     (case normalizeMm (arg_text args ''width'') of None \<Rightarrow> Inr None
      | Some w \<Rightarrow> scaleModuleWidths (cx_product ctx) w)"

definition apply_width :: "Ctx \<Rightarrow> CommandArgs \<Rightarrow> ProductJson option result" where
  "apply_width ctx args =
     (case (module_arg ctx args, normalizeMm (arg_text args ''width'')) of
        (Some i, Some w) \<Rightarrow> setModuleWidth (cx_product ctx) i w | _ \<Rightarrow> Inr None)"

text \<open>\<open>try { ... } catch { return product }\<close>.\<close>

definition caught :: "'a option result \<Rightarrow> 'a option result" where
  "caught r = (case r of Inl NoReturn \<Rightarrow> r | Inl IllTyped \<Rightarrow> r | Inl _ \<Rightarrow> Inr None | _ \<Rightarrow> r)"

definition structured_arg :: "string \<Rightarrow> (string \<times> json) list option result" where
  "structured_arg s = result_bind (json_parse s) (\<lambda>j. structuredOpeningPatch (Some j))"

definition apply_opening :: "Ctx \<Rightarrow> CommandArgs \<Rightarrow> ProductJson option result" where
  "apply_opening ctx args =
     (case (module_arg ctx args, arg args ''opening'') of
        (Some i, Some opening') \<Rightarrow>
          (if startsWith opening' ''{'' then
             (let m = find_module (cx_product ctx) i
              in result_bind (case m of None \<Rightarrow> Inr None | Some m \<Rightarrow> modulePrimaryBay m) (\<lambda>bay.
                   caught (result_bind (structured_arg opening') (\<lambda>patch.
                     case (m, bay, patch) of
                       (Some m, Some b, Some ms) \<Rightarrow> result_bind (patch_of ms) (\<lambda>fields.
                          result_bind (updateBay (tree m) (nid b) fields) (\<lambda>t. Inr (setModuleTree (cx_product ctx) i t)))
                     | _ \<Rightarrow> Inr None))))
           else if opening' = [] then Inr None
           else case opening_of opening' of None \<Rightarrow> Inl IllTyped | Some o' \<Rightarrow> Inr (setModuleOpening (cx_product ctx) i o'))
      | _ \<Rightarrow> Inr None)"

definition glass_choice :: "CommandCatalog \<Rightarrow> string option \<Rightarrow> GlassSpecChoice option" where
  "glass_choice cat sku = (case glassSpecs cat of None \<Rightarrow> None | Some cs \<Rightarrow> List.find (\<lambda>c. Some (gs_sku c) = sku) cs)"

definition apply_glass :: "Ctx \<Rightarrow> CommandArgs \<Rightarrow> ProductJson option result" where
  "apply_glass ctx args =
     (let choice = glass_choice (cx_catalog ctx) (arg args ''glass'')
      in case module_arg ctx args of None \<Rightarrow> Inr None
         | Some i \<Rightarrow> Inr (setModuleGlass (cx_product ctx) i (arg args ''glass'')
             (case choice of None \<Rightarrow> Undef | Some c \<Rightarrow> opt_null (gs_spec c))
             (case choice of None \<Rightarrow> no_fields | Some c \<Rightarrow> glassChoicePatch c)))"

definition apply_thickness :: "Ctx \<Rightarrow> CommandArgs \<Rightarrow> ProductJson option result" where
  "apply_thickness ctx args =
     (case module_arg ctx args of None \<Rightarrow> Inr None
      | Some i \<Rightarrow> Inr (setModuleGlassThickness (cx_product ctx) i (arg args ''thickness'')))"

definition apply_panel :: "Ctx \<Rightarrow> CommandArgs \<Rightarrow> ProductJson option result" where
  "apply_panel ctx args =
     (case module_arg ctx args of None \<Rightarrow> Inr None
      | Some i \<Rightarrow> Inr (setModulePanel (cx_product ctx) i (nonempty (arg args ''panel''))))"

definition apply_clear_panel :: "Ctx \<Rightarrow> CommandArgs \<Rightarrow> ProductJson option result" where
  "apply_clear_panel ctx args =
     (case selectedModule ctx of None \<Rightarrow> Inr None | Some m \<Rightarrow> Inr (setModulePanel (cx_product ctx) (m_id m) None))"

definition apply_clear_thickness :: "Ctx \<Rightarrow> CommandArgs \<Rightarrow> ProductJson option result" where
  "apply_clear_thickness ctx args =
     (case selectedModule ctx of None \<Rightarrow> Inr None | Some m \<Rightarrow> Inr (setModuleGlassThickness (cx_product ctx) (m_id m) None))"

definition apply_angle :: "Ctx \<Rightarrow> CommandArgs \<Rightarrow> ProductJson option result" where
  "apply_angle ctx args =
     (case (coupling_arg ctx args, normalizeAngle (arg_text args ''angle'')) of
        (Some i, Some a) \<Rightarrow> Inr (setCouplingAngle (cx_product ctx) i a) | _ \<Rightarrow> Inr None)"

definition apply_clear_angle :: "Ctx \<Rightarrow> CommandArgs \<Rightarrow> ProductJson option result" where
  "apply_clear_angle ctx args =
     (case selectedCoupling ctx of None \<Rightarrow> Inr None | Some c \<Rightarrow> Inr (setCouplingAngle (cx_product ctx) (c_id c) ''0''))"

definition apply_coupler :: "Ctx \<Rightarrow> CommandArgs \<Rightarrow> ProductJson option result" where
  "apply_coupler ctx args =
     (case coupling_arg ctx args of None \<Rightarrow> Inr None
      | Some i \<Rightarrow> Inr (setCouplerSku (cx_product ctx) i (arg args ''coupler'')))"

definition on_module :: "(ProductJson \<Rightarrow> string \<Rightarrow> ProductJson option result) \<Rightarrow> Ctx \<Rightarrow> CommandArgs \<Rightarrow> ProductJson option result" where
  "on_module f ctx args = result_bind (moduleTarget ctx args) (\<lambda>t. case t of None \<Rightarrow> Inr None | Some m \<Rightarrow> f (cx_product ctx) (m_id m))"

definition neighbor_of :: "bool \<Rightarrow> ProductJson \<Rightarrow> string \<Rightarrow> string option" where
  "neighbor_of leftward p i = (if leftward then fst else snd) (moduleNeighbors p i)"

definition apply_swap :: "bool \<Rightarrow> Ctx \<Rightarrow> CommandArgs \<Rightarrow> ProductJson option result" where
  "apply_swap leftward ctx args = result_bind (selectedModuleScope ctx) (\<lambda>t. Inr (case t of None \<Rightarrow> None
     | Some m \<Rightarrow> (case nonempty (neighbor_of leftward (cx_product ctx) (m_id m)) of None \<Rightarrow> None
         | Some o' \<Rightarrow> swapModules (cx_product ctx) (m_id m) o')))"

definition apply_module_spec :: "Ctx \<Rightarrow> CommandArgs \<Rightarrow> ProductJson option result" where
  "apply_module_spec ctx args = result_bind (selectedModuleScope ctx) (\<lambda>t. Inr (case (t, cx_specClipboard ctx) of
     (Some m, Some (ClipModule tr)) \<Rightarrow> setModuleTree (cx_product ctx) (m_id m) tr | _ \<Rightarrow> None))"

definition apply_bay_spec :: "Ctx \<Rightarrow> CommandArgs \<Rightarrow> ProductJson option result" where
  "apply_bay_spec ctx args = result_bind (selectedBayTarget ctx) (\<lambda>t. case (t, cx_specClipboard ctx) of
     (Some (m, n), Some (ClipBay spec)) \<Rightarrow> copyBaySpec (cx_product ctx) (m_id m) (nid n) spec | _ \<Rightarrow> Inr None)"

definition apply_insert :: "Ctx \<Rightarrow> CommandArgs \<Rightarrow> ProductJson option result" where
  "apply_insert ctx args = (case couplingTarget ctx args of None \<Rightarrow> Inr None
     | Some c \<Rightarrow> Inr (insertModuleBetween (cx_product ctx) (c_id c) None))"

definition apply_disconnect :: "Ctx \<Rightarrow> CommandArgs \<Rightarrow> ProductJson option result" where
  "apply_disconnect ctx args = (case couplingTarget ctx args of None \<Rightarrow> Inr None
     | Some c \<Rightarrow> Inr (unlinkCoupling (cx_product ctx) (c_id c)))"

fun kind_str :: "CouplingKind \<Rightarrow> string" where
  "kind_str INLINE = ''INLINE''"
| "kind_str STACKED = ''STACKED''"
| "kind_str TEE = ''TEE''"
| "kind_str CORNER = ''CORNER''"

text \<open>A text that names no kind is in no list of allowed kinds: the edit returns its product.\<close>

definition kind_of :: "string \<Rightarrow> CouplingKind option" where
  "kind_of s = List.find (\<lambda>k. kind_str k = s) [INLINE, STACKED, TEE, CORNER]"

definition apply_kind :: "Ctx \<Rightarrow> CommandArgs \<Rightarrow> ProductJson option result" where
  "apply_kind ctx args = (case (couplingTarget ctx args, nonempty (arg args ''kind'')) of
     (Some c, Some s) \<Rightarrow> Inr (case kind_of s of None \<Rightarrow> None | Some k \<Rightarrow> setCouplingKind (cx_product ctx) (c_id c) k)
   | _ \<Rightarrow> Inr None)"

definition apply_remove_bay :: "Ctx \<Rightarrow> CommandArgs \<Rightarrow> ProductJson option result" where
  "apply_remove_bay ctx args = map_sum id (\<lambda>t. case t of None \<Rightarrow> None
     | Some (m, n) \<Rightarrow> removeModuleBay (cx_product ctx) (m_id m) (nid n)) (bayTarget ctx args)"

definition apply_remove_split :: "Ctx \<Rightarrow> CommandArgs \<Rightarrow> ProductJson option result" where
  "apply_remove_split ctx args = map_sum id (\<lambda>t. case t of None \<Rightarrow> None
     | Some (m, n) \<Rightarrow> removeModuleDivision (cx_product ctx) (m_id m) (nid n) None) (splitTarget ctx args)"

section \<open>When they are offered, what they ask, what follows\<close>

definition has_module :: "Ctx \<Rightarrow> bool result" where
  "has_module ctx = Inr (selectedModule ctx \<noteq> None)"

definition in_scope :: "(ProductModuleJson \<Rightarrow> bool) \<Rightarrow> Ctx \<Rightarrow> bool result" where
  "in_scope f ctx = map_sum id (\<lambda>t. case t of None \<Rightarrow> False | Some m \<Rightarrow> f m) (selectedModuleScope ctx)"

definition number_param :: "string \<Rightarrow> string \<Rightarrow> string option \<Rightarrow> string option \<Rightarrow> (string \<Rightarrow> string option) \<Rightarrow> CommandParam list" where
  "number_param i label unit' default' valid = [NumberP \<lparr>np_id = i, np_label = translate label, np_unit = unit', defaultValue = default', np_validate = Some valid\<rparr>]"

definition choice_param :: "string \<Rightarrow> string \<Rightarrow> (string \<times> string) list \<Rightarrow> CommandParam list" where
  "choice_param i label options = [ChoiceP \<lparr>cp_id = i, cp_label = translate label, cp_options = options\<rparr>]"

definition opening_options :: "CommandCatalog \<Rightarrow> (string \<times> string) list" where
  "opening_options cat =
     (case cat_openingChoices cat of
        Some (c # cs) \<Rightarrow> map (\<lambda>ch. (stringify (choice_json ch), ch_label ch)) (c # cs)
      | _ \<Rightarrow> map (\<lambda>(o', key). (opening_str o', translate key))
          (filter (\<lambda>(o', _). case compatibleOpenings cat of Some (x # xs) \<Rightarrow> opening_str o' \<in> set (x # xs) | _ \<Rightarrow> True) OPENING_OPTIONS))"

definition glass_label :: "CommandCatalog \<Rightarrow> string \<Rightarrow> string result" where
  "glass_label cat value =
     (let choice = glass_choice cat (Some value);
          fallback = (case Option.bind choice gs_spec of Some s \<Rightarrow> s | None \<Rightarrow> value)
      in case asGlassProduct (Option.bind choice gs_product) of
           None \<Rightarrow> Inr fallback
         | Some j \<Rightarrow> (case json_member ''name'' j of Some (JStr n) \<Rightarrow> Inr n | Some JNull \<Rightarrow> Inr fallback | _ \<Rightarrow> Inl IllTyped))"

definition glass_options :: "Ctx \<Rightarrow> CommandParam list result" where
  "glass_options ctx = map_sum id (choice_param ''glass'' ''cmd.glassLabel'')
     (map_result (\<lambda>value. map_sum id (Pair value) (glass_label (cx_catalog ctx) value)) (glassSkus (cx_catalog ctx)))"

fun kind_key :: "CouplingKind \<Rightarrow> string" where
  "kind_key INLINE = ''assembly.kindInline''"
| "kind_key STACKED = ''assembly.kindStacked''"
| "kind_key TEE = ''assembly.kindTee''"
| "kind_key CORNER = ''assembly.kindCorner''"

definition allowed_kinds :: "Ctx \<Rightarrow> CouplingKind list" where
  "allowed_kinds ctx = (case selectedCoupling ctx of None \<Rightarrow> [] | Some c \<Rightarrow> allowedCouplingKinds (cx_product ctx) (c_id c))"

definition select_created :: "Ctx \<Rightarrow> ProductJson \<Rightarrow> ProductJson \<Rightarrow> CommandArgs \<Rightarrow> ProductJson Run" where
  "select_created ctx before next' args = run_ok (case nonempty (createdModule before next') of None \<Rightarrow> [] | Some i \<Rightarrow> [SelectObject (Some i)])"

definition select_after_remove :: "Ctx \<Rightarrow> ProductJson \<Rightarrow> ProductJson \<Rightarrow> CommandArgs \<Rightarrow> ProductJson Run" where
  "select_after_remove ctx before next' args =
     (let removedId = (case arg args ''module'' of Some i \<Rightarrow> Some i | None \<Rightarrow> cx_selection ctx);
          index = (case findIndex (\<lambda>m. Some (m_id m) = removedId) (modules before) of Some k \<Rightarrow> k | None \<Rightarrow> 0)
      in run_ok [SelectObject (if modules next' = [] then None else map_option m_id (nth_opt (modules next') (min index (length (modules next') - 1))))])"

definition select_after_disconnect :: "Ctx \<Rightarrow> ProductJson \<Rightarrow> ProductJson \<Rightarrow> CommandArgs \<Rightarrow> ProductJson Run" where
  "select_after_disconnect ctx before next' args = run_ok (case nonempty (cx_selection ctx) of None \<Rightarrow> []
     | Some i \<Rightarrow> if i \<in> set (coupling_ids next') then [] else [SelectObject None])"

definition below :: "ProductModuleJson \<Rightarrow> string option \<Rightarrow> ProductJson Effect list" where
  "below m child = [SelectObject (Some (case nonempty child of Some c \<Rightarrow> m_id m @ ''/'' @ c | None \<Rightarrow> m_id m))]"

definition select_sibling :: "Ctx \<Rightarrow> ProductJson \<Rightarrow> ProductJson \<Rightarrow> CommandArgs \<Rightarrow> ProductJson Run" where
  "select_sibling ctx before next' args = run_then (bayTarget ctx args) (\<lambda>t. run_ok (case t of None \<Rightarrow> []
     | Some (m, n) \<Rightarrow> below m (map_option nid (List.find (\<lambda>c. nid c \<noteq> nid n)
         (case parentSplitOf (tree m) (nid n) of None \<Rightarrow> [] | Some par \<Rightarrow> kids par)))))"

definition select_kept :: "Ctx \<Rightarrow> ProductJson \<Rightarrow> ProductJson \<Rightarrow> CommandArgs \<Rightarrow> ProductJson Run" where
  "select_kept ctx before next' args = run_then (splitTarget ctx args) (\<lambda>t. run_ok (case t of None \<Rightarrow> []
     | Some (m, n) \<Rightarrow> below m (map_option nid (first_opt (kids n)))))"

definition describe_opening :: "CommandArgs \<Rightarrow> string result" where
  "describe_opening args =
     result_bind (caught (result_bind (structured_arg (arg_text args ''opening'')) (\<lambda>patch.
       case patch of None \<Rightarrow> Inr None
       | Some ms \<Rightarrow> result_bind (patch_of ms) (\<lambda>fields. Inr (physicalNodeLabel
           (Node (patch_fields (new_node ''opening-proposal'' BAY) fields) None))))))
     (\<lambda>label. Inr (moduleLabel args @ '': '' @ (case label of Some l \<Rightarrow> l
        | None \<Rightarrow> (case Option.bind (arg args ''opening'') (map_of OPENING_LABELS) of Some l \<Rightarrow> l | None \<Rightarrow> ''Apertura por completar''))))"

section \<open>The table\<close>

definition new_command :: "string \<Rightarrow> string \<Rightarrow> string list \<Rightarrow> Spec" where
  "new_command i key words = \<lparr>spec_id = i, title = key, spec_keywords = Some words, shortcut = None, params = None,
     applicable = None, mutates = None, describe = None, spec_apply = None, postCommit = None, spec_run = None,
     spec_ai = None, operation = None\<rparr>"

definition said :: "string \<Rightarrow> (CommandArgs \<Rightarrow> string result) option" where
  "said s = Some (\<lambda>_. Inr s)"

definition wire :: "string \<Rightarrow> (DesignOp \<Rightarrow> ProductJson \<Rightarrow> OpState option \<Rightarrow> CommandArgs option result) \<Rightarrow> ProductJson AiBinding option" where
  "wire name dec = Some \<lparr>ai_op = name, ai_decode = dec\<rparr>"

definition cmd_three_bays :: Spec where
  "cmd_three_bays = (new_command ''product.three-bays-inward'' ''cmd.threeBaysInward''
      [''partir en tres centro fijo laterales abatibles hacia el centro'', (''tres pa'' @ n_tilde @ ''os'')])\<lparr>
    mutates := Some True,
    applicable := Some (\<lambda>ctx. Inr (cx_propose ctx \<and> map_of (mullionSkus (cx_catalog ctx)) SPLIT_V \<noteq> None \<and>
      (case compatibleOpenings (cx_catalog ctx) of None \<Rightarrow> False | Some os \<Rightarrow> {''FIXED'', ''TURN_LEFT'', ''TURN_RIGHT''} \<subseteq> set os) \<and>
      (case modules (cx_product ctx) of [m] \<Rightarrow> \<not> shaped m | _ \<Rightarrow> False))),
    spec_run := Some (\<lambda>ctx args. case modules (cx_product ctx) of
        [] \<Rightarrow> ([], Some (TypeError ''id of undefined''))
      | m # _ \<Rightarrow> run_ok (if cx_propose ctx then [Propose [EqualizeBays (m_id m) 3 ''V'',
          SetOpening (m_id m) (Some ''b1'') (Inr O_TURN_LEFT) None Undef Undef, SetOpening (m_id m) (Some ''b2'') (Inr O_FIXED) None Undef Undef,
          SetOpening (m_id m) (Some ''b3'') (Inr O_TURN_RIGHT) None Undef Undef]] else []))\<rparr>"

definition cmd_add_right :: Spec where
  "cmd_add_right = (new_command ''product.add-right'' ''cmd.addUnitRight''
      [(''a'' @ n_tilde @ ''adir''), ''unidad'', ''vano'', ''hoja'', ''derecha'', ''modulo'', ''agregar''])\<lparr>
    spec_apply := Some (\<lambda>ctx args. addAdjacentUnit (cx_product ctx) E_right None),
    describe := said ''agregar unidad a la derecha'',
    spec_ai := wire ''add_unit'' (\<lambda>op p st. Inr (if map_of op ''side'' = Some (JStr ''left'') then None else Some [(''side'', ''right'')]))\<rparr>"

definition cmd_add_left :: Spec where
  "cmd_add_left = (new_command ''product.add-left'' ''cmd.addUnitLeft''
      [(''a'' @ n_tilde @ ''adir''), ''unidad'', ''vano'', ''hoja'', ''izquierda'', ''modulo'', ''agregar''])\<lparr>
    spec_apply := Some (\<lambda>ctx args. addAdjacentUnit (cx_product ctx) E_left None),
    describe := said ''agregar unidad a la izquierda'',
    spec_ai := wire ''add_unit'' (\<lambda>op p st. Inr (if map_of op ''side'' = Some (JStr ''left'') then Some [(''side'', ''left'')] else None))\<rparr>"

definition cmd_set_module_count :: Spec where
  "cmd_set_module_count = (new_command ''product.set-module-count'' ''cmd.setModuleCount''
      [''cantidad'', (''m'' @ ac_o @ ''dulos''), ''modulos'', ''unidades'', (''n'' @ ac_u @ ''mero'')])\<lparr>
    params := Some (\<lambda>ctx. Inr (number_param ''count'' ''cmd.moduleCountLabel'' None None normalizeCount)),
    spec_apply := Some apply_count,
    describe := Some (\<lambda>args. Inr (arg_shown args ''count'' @ ('' m'' @ ac_o @ ''dulos''))),
    spec_ai := wire ''set_module_count'' (\<lambda>op p st. Inr (case map_of op ''count'' of
        Some (JNum (Fin x)) \<Rightarrow> if x = of_int \<lfloor>x\<rfloor> \<and> 1 \<le> x then Some [(''count'', num_str (Fin x))] else None | _ \<Rightarrow> None))\<rparr>"

definition cmd_remove_module :: Spec where
  "cmd_remove_module = (new_command ''module.remove'' ''cmd.removeUnit''
      [''eliminar'', ''quitar'', ''unidad'', ''vano'', ''hoja'', ''modulo''])\<lparr>
    applicable := Some (\<lambda>ctx. in_scope (\<lambda>_. 1 < length (modules (cx_product ctx))) ctx),
    spec_apply := Some apply_remove,
    postCommit := Some select_after_remove,
    describe := Some (\<lambda>args. Inr (''quitar '' @ moduleLabel args)),
    spec_ai := wire ''remove_unit'' (decodeModule [])\<rparr>"

definition cmd_set_height :: Spec where
  "cmd_set_height = (new_command ''product.set-height'' ''cmd.setHeight'' [''alto'', ''altura'', ''dimensiones''])\<lparr>
    params := Some (\<lambda>ctx. Inr (number_param ''height'' ''cmd.heightLabel'' (Some ''mm'')
      (map_option m_height_mm (first_opt (modules (cx_product ctx)))) normalizeMm)),
    spec_apply := Some apply_height,
    describe := Some (\<lambda>args. Inr (''alto '' @ arg_shown args ''height'' @ '' mm'')),
    spec_ai := wire ''set_height'' (\<lambda>op p st. Inr (map_option (\<lambda>h. [(''height'', h)]) (wire_text (map_of op ''height_mm''))))\<rparr>"

definition cmd_set_total_width :: Spec where
  "cmd_set_total_width = (new_command ''product.set-total-width'' ''cmd.setTotalWidth''
      [''ancho'', ''total'', ''dimensiones'', ''ancho total''])\<lparr>
    params := Some (\<lambda>ctx. Inr (number_param ''width'' ''cmd.totalWidthLabel'' (Some ''mm'')
      (Some (num_str (totalModuleWidth (cx_product ctx)))) normalizeMm)),
    spec_apply := Some apply_total_width,
    describe := Some (\<lambda>args. Inr (''ancho total '' @ arg_shown args ''width'' @ '' mm'')),
    spec_ai := wire ''set_total_width'' (\<lambda>op p st. Inr (map_option (\<lambda>w. [(''width'', w)]) (wire_text (map_of op ''width_mm''))))\<rparr>"

definition cmd_set_width :: Spec where
  "cmd_set_width = (new_command ''module.set-width'' ''cmd.setWidth'' [''ancho'', ''unidad'', ''dimensiones''])\<lparr>
    applicable := Some has_module,
    params := Some (\<lambda>ctx. map_sum id (\<lambda>t. number_param ''width'' ''cmd.widthLabel'' (Some ''mm'') (map_option m_width_mm t) normalizeMm)
      (selectedModuleScope ctx)),
    spec_apply := Some apply_width,
    describe := Some (\<lambda>args. Inr (moduleLabel args @ '': ancho '' @ arg_shown args ''width'' @ '' mm'')),
    spec_ai := wire ''set_module_width'' (\<lambda>op p st. case wire_text (map_of op ''width_mm'') of
        None \<Rightarrow> Inr None | Some w \<Rightarrow> decodeModule [(''width'', w)] op p st)\<rparr>"

definition cmd_set_opening :: Spec where
  "cmd_set_opening = (new_command ''module.set-opening'' ''cmd.setOpening''
      [''apertura'', ''hoja'', ''fijo'', ''oscilobatiente'', ''puerta'', ''corredera''])\<lparr>
    applicable := Some has_module,
    params := Some (\<lambda>ctx. Inr (choice_param ''opening'' ''cmd.openingLabel'' (opening_options (cx_catalog ctx)))),
    spec_apply := Some apply_opening,
    describe := Some describe_opening,
    spec_ai := wire ''set_opening'' (\<lambda>op p st. result_bind (structuredOpeningPatch (Some (JObj op))) (\<lambda>patch.
        case (case patch of Some ms \<Rightarrow> Some (stringify (JObj ms)) | None \<Rightarrow> wire_text (map_of op ''opening'')) of
          None \<Rightarrow> Inr None | Some o' \<Rightarrow> decodeModule [(''opening'', o')] op p st))\<rparr>"

definition cmd_set_glass :: Spec where
  "cmd_set_glass = (new_command ''module.set-glass'' ''cmd.setGlass''
      [''vidrio'', ''composicion'', (''composici'' @ ac_o @ ''n''), (''art'' @ ac_i @ ''culo''), ''articulo'', ''dvh''])\<lparr>
    applicable := Some (\<lambda>ctx. Inr (selectedModule ctx \<noteq> None \<and> glassSkus (cx_catalog ctx) \<noteq> [])),
    params := Some glass_options,
    spec_apply := Some apply_glass,
    describe := Some (\<lambda>args. Inr (moduleLabel args @ '': vidrio '' @ arg_shown args ''glass'')),
    spec_ai := wire ''set_glass'' (\<lambda>op p st. case wire_text (map_of op ''sku'') of
        None \<Rightarrow> Inr None | Some s \<Rightarrow> decodeModule [(''glass'', s)] op p st)\<rparr>"

definition cmd_set_thickness :: Spec where
  "cmd_set_thickness = (new_command ''module.set-glass-thickness'' ''cmd.setGlassThickness'' [''vidrio'', ''espesor'', ''dvh''])\<lparr>
    applicable := Some (\<lambda>ctx. Inr (selectedModule ctx \<noteq> None \<and> glassThicknesses (cx_catalog ctx) \<noteq> [])),
    params := Some (\<lambda>ctx. Inr (choice_param ''thickness'' ''cmd.glassThicknessLabel''
      (map (\<lambda>v. (v, v @ '' mm'')) (glassThicknesses (cx_catalog ctx))))),
    spec_apply := Some apply_thickness,
    describe := Some (\<lambda>args. Inr (moduleLabel args @ '': vidrio '' @ arg_shown args ''thickness'' @ '' mm'')),
    spec_ai := wire ''set_glass_thickness'' (\<lambda>op p st.
        decodeModule [(''thickness'', case wire_text (map_of op ''mm'') of Some s \<Rightarrow> s | None \<Rightarrow> [])] op p st)\<rparr>"

definition cmd_set_panel :: Spec where
  "cmd_set_panel = (new_command ''module.set-panel'' ''cmd.setPanel'' [''panel'', ''sandwich'', ''tablero''])\<lparr>
    applicable := Some (\<lambda>ctx. Inr (selectedModule ctx \<noteq> None \<and> panelSkus (cx_catalog ctx) \<noteq> [])),
    params := Some (\<lambda>ctx. Inr (choice_param ''panel'' ''cmd.panelLabel''
      (([], translate ''assembly.noPanel'') # map (\<lambda>v. (v, v)) (panelSkus (cx_catalog ctx))))),
    spec_apply := Some apply_panel,
    describe := Some (\<lambda>args. Inr (moduleLabel args @ '': panel '' @
      (case nonempty (arg args ''panel'') of Some s \<Rightarrow> s | None \<Rightarrow> ''ninguno''))),
    spec_ai := wire ''set_panel'' (\<lambda>op p st.
        decodeModule [(''panel'', case wire_text (map_of op ''sku'') of Some s \<Rightarrow> s | None \<Rightarrow> [])] op p st)\<rparr>"

definition cmd_clear_panel :: Spec where
  "cmd_clear_panel = (new_command ''module.clear-panel'' ''cmd.clearPanel'' [''panel'', ''quitar'', ''eliminar''])\<lparr>
    applicable := Some (\<lambda>ctx. case selectedModule ctx of None \<Rightarrow> Inr False | Some m \<Rightarrow> map_sum id (\<lambda>s. s \<noteq> None) (modulePanelSku m)),
    spec_apply := Some apply_clear_panel\<rparr>"

definition cmd_clear_thickness :: Spec where
  "cmd_clear_thickness = (new_command ''module.clear-glass-thickness'' ''cmd.clearGlassThickness'' [''vidrio'', ''espesor'', ''quitar''])\<lparr>
    applicable := Some (\<lambda>ctx. case selectedModule ctx of None \<Rightarrow> Inr False | Some m \<Rightarrow> map_sum id (\<lambda>s. s \<noteq> None) (moduleGlassThicknessMm m)),
    spec_apply := Some apply_clear_thickness\<rparr>"

definition cmd_equalize_widths :: Spec where
  "cmd_equalize_widths = (new_command ''product.equalize-widths'' ''cmd.equalizeWidths'' [''igualar'', ''anchos'', ''unidades'', ''repartir''])\<lparr>
    applicable := Some (\<lambda>ctx. Inr (1 < length (modules (cx_product ctx)))),
    spec_apply := Some (\<lambda>ctx args. map_sum id Some (equalizeModuleWidths (cx_product ctx))),
    describe := said ''anchos iguales'',
    spec_ai := wire ''equalize_widths'' (\<lambda>op p st. Inr (Some []))\<rparr>"

definition cmd_equalize_angles :: Spec where
  "cmd_equalize_angles = (new_command ''product.equalize-angles'' ''cmd.equalizeAngles''
      [''igualar'', (ac_a @ ''ngulos''), ''angulos'', ''acoplamiento'', ''bow''])\<lparr>
    applicable := Some (\<lambda>ctx. Inr (1 < length (couplings (cx_product ctx)))),
    spec_apply := Some (\<lambda>ctx args. Inr (equalizeCouplingAngles (cx_product ctx))),
    describe := said ((ac_a @ ''ngulos iguales'')),
    spec_ai := wire ''equalize_angles'' (\<lambda>op p st. Inr (Some []))\<rparr>"

definition cmd_straighten :: Spec where
  "cmd_straighten = (new_command ''product.straighten'' ''cmd.straighten''
      [''recto'', ''enderezar'', ''cero'', (ac_a @ ''ngulos''), ''planar''])\<lparr>
    applicable := Some (\<lambda>ctx. Inr (list_ex (\<lambda>c. angle_deg c \<noteq> ''0'') (couplings (cx_product ctx)))),
    spec_apply := Some (\<lambda>ctx args. Inr (Some (setAllCouplingAngles (cx_product ctx) ''0''))),
    describe := said ''conjunto recto''\<rparr>"

definition cmd_set_angle :: Spec where
  "cmd_set_angle = (new_command ''coupling.set-angle'' ''cmd.setAngle''
      [(ac_a @ ''ngulo''), ''angulo'', ''acoplamiento'', (''uni'' @ ac_o @ ''n''), ''union'', ''plano''])\<lparr>
    applicable := Some (\<lambda>ctx. Inr (selectedCoupling ctx \<noteq> None)),
    params := Some (\<lambda>ctx. Inr (number_param ''angle'' ''cmd.angleLabel'' (Some degree) (map_option angle_deg (selectedCoupling ctx)) normalizeAngle)),
    spec_apply := Some apply_angle,
    describe := Some (\<lambda>args. Inr (if js_eq (str_num (case arg args ''angle'' of Some a \<Rightarrow> a | None \<Rightarrow> ''0'')) (Fin 0)
      then translate ''cmd.setAngleStraightDesc'' else (''uni'' @ ac_o @ ''n '') @ arg_shown args ''target'' @ '': '' @ arg_shown args ''angle'' @ degree)),
    spec_ai := wire ''set_coupling_angle'' (\<lambda>op p st. case wire_text (map_of op ''angle_deg'') of
        None \<Rightarrow> Inr None | Some a \<Rightarrow> decodeCoupling [(''angle'', a)] op p st)\<rparr>"

definition cmd_clear_angle :: Spec where
  "cmd_clear_angle = (new_command ''coupling.clear-angle'' ''cmd.clearAngle'' [(ac_a @ ''ngulo''), ''angulo'', ''recto'', ''cero'', ''acoplamiento''])\<lparr>
    applicable := Some (\<lambda>ctx. Inr (case selectedCoupling ctx of None \<Rightarrow> False | Some c \<Rightarrow> angle_deg c \<noteq> ''0'')),
    spec_apply := Some apply_clear_angle\<rparr>"

definition cmd_set_coupler :: Spec where
  "cmd_set_coupler = (new_command ''coupling.set-coupler'' ''cmd.setCoupler'' [''cople'', ''acoplador'', ''perfil'', ''acoplamiento''])\<lparr>
    applicable := Some (\<lambda>ctx. Inr (selectedCoupling ctx \<noteq> None \<and> couplerSkus (cx_catalog ctx) \<noteq> [])),
    params := Some (\<lambda>ctx. Inr (choice_param ''coupler'' ''cmd.couplerLabel'' (map (\<lambda>v. (v, v)) (couplerSkus (cx_catalog ctx))))),
    spec_apply := Some apply_coupler,
    describe := Some (\<lambda>args. Inr ((''uni'' @ ac_o @ ''n '') @ arg_shown args ''target'' @ '': cople '' @ arg_shown args ''coupler''))\<rparr>"

definition cmd_duplicate :: Spec where
  "cmd_duplicate = (new_command ''module.duplicate'' ''cmd.duplicateModule'' [''duplicar'', ''copiar'', ''clonar'', ''unidad'', ''vano''])\<lparr>
    shortcut := Some (OneKey ''mod+d''),
    applicable := Some (in_scope (\<lambda>_. True)),
    spec_apply := Some (on_module duplicateModule),
    postCommit := Some select_created,
    describe := said ''duplicar unidad'',
    spec_ai := wire ''duplicate_module'' (decodeModule [])\<rparr>"

definition cmd_move_left :: Spec where
  "cmd_move_left = (new_command ''module.move-left'' ''cmd.moveModuleLeft'' [''mover'', ''izquierda'', ''reordenar'', ''orden'', ''intercambiar''])\<lparr>
    applicable := Some (\<lambda>ctx. in_scope (\<lambda>m. neighbor_of True (cx_product ctx) (m_id m) \<noteq> None) ctx),
    spec_apply := Some (apply_swap True),
    describe := said ''intercambiar con la unidad de la izquierda''\<rparr>"

definition cmd_move_right :: Spec where
  "cmd_move_right = (new_command ''module.move-right'' ''cmd.moveModuleRight'' [''mover'', ''derecha'', ''reordenar'', ''orden'', ''intercambiar''])\<lparr>
    applicable := Some (\<lambda>ctx. in_scope (\<lambda>m. neighbor_of False (cx_product ctx) (m_id m) \<noteq> None) ctx),
    spec_apply := Some (apply_swap False),
    describe := said ''intercambiar con la unidad de la derecha''\<rparr>"

definition cmd_stack_above :: Spec where
  "cmd_stack_above = (new_command ''module.stack-above'' ''cmd.stackAbove'' [''apilar'', ''encima'', ''montante'', ''transom'', ''stacked'', ''superior''])\<lparr>
    applicable := Some (\<lambda>ctx. in_scope (\<lambda>m. \<not> shaped m \<and> E_top \<notin> usedEdges (cx_product ctx) (m_id m)) ctx),
    spec_apply := Some (on_module (\<lambda>p i. Inr (addStackedUnit p i None))),
    postCommit := Some select_created,
    describe := said ''unidad apilada encima'',
    spec_ai := wire ''add_stacked_unit'' (decodeModule [])\<rparr>"

definition cmd_copy_spec :: Spec where
  "cmd_copy_spec = (new_command ''module.copy-spec'' ''cmd.copySpec'' [''copiar'', (''especificaci'' @ ac_o @ ''n''), ''propiedades'', ''formato''])\<lparr>
    shortcut := Some (OneKey ''mod+shift+c''),
    applicable := Some (\<lambda>ctx. in_scope (\<lambda>_. cx_writeSpecClipboard ctx) ctx),
    spec_run := Some (\<lambda>ctx args. run_then (selectedModuleScope ctx) (\<lambda>t. run_ok (case t of None \<Rightarrow> []
      | Some m \<Rightarrow> if cx_writeSpecClipboard ctx then [WriteSpecClipboard (ClipModule (tree m))] else [])))\<rparr>"

definition cmd_apply_spec :: Spec where
  "cmd_apply_spec = (new_command ''module.apply-spec'' ''cmd.applySpec'' [''aplicar'', ''pegar'', (''especificaci'' @ ac_o @ ''n''), ''propiedades'', ''formato''])\<lparr>
    shortcut := Some (OneKey ''mod+shift+v''),
    applicable := Some (\<lambda>ctx. in_scope (\<lambda>_. case cx_specClipboard ctx of Some (ClipModule _) \<Rightarrow> True | _ \<Rightarrow> False) ctx),
    spec_apply := Some apply_module_spec,
    describe := said ''aplicar estructura copiada''\<rparr>"

definition cmd_copy_bay_spec :: Spec where
  "cmd_copy_bay_spec = (new_command ''bay.copy-spec'' ''cmd.copyBaySpec'' [''copiar'', (''especificaci'' @ ac_o @ ''n''), ''vano'', ''apertura'', ''vidrio'', ''hoja''])\<lparr>
    shortcut := Some (OneKey ''mod+shift+c''),
    applicable := Some (\<lambda>ctx. map_sum id (\<lambda>t. t \<noteq> None \<and> cx_writeSpecClipboard ctx) (selectedBayTarget ctx)),
    spec_run := Some (\<lambda>ctx args. run_then (selectedBayTarget ctx) (\<lambda>t. run_ok (case t of None \<Rightarrow> []
      | Some (m, n) \<Rightarrow> if cx_writeSpecClipboard ctx then [WriteSpecClipboard (ClipBay (baySpec n))] else [])))\<rparr>"

definition cmd_apply_bay_spec :: Spec where
  "cmd_apply_bay_spec = (new_command ''bay.apply-spec'' ''cmd.applyBaySpec'' [''aplicar'', ''pegar'', (''especificaci'' @ ac_o @ ''n''), ''vano'', ''apertura'', ''vidrio''])\<lparr>
    shortcut := Some (OneKey ''mod+shift+v''),
    applicable := Some (\<lambda>ctx. map_sum id (\<lambda>t. t \<noteq> None \<and> (case cx_specClipboard ctx of Some (ClipBay _) \<Rightarrow> True | _ \<Rightarrow> False)) (selectedBayTarget ctx)),
    spec_apply := Some apply_bay_spec,
    describe := said ((''aplicar especificaci'' @ ac_o @ ''n de pa'' @ n_tilde @ ''o''))\<rparr>"

definition cmd_insert_module :: Spec where
  "cmd_insert_module = (new_command ''coupling.insert-module'' ''cmd.insertModule'' [''insertar'', ''unidad'', ''entre'', ''agregar''])\<lparr>
    applicable := Some (\<lambda>ctx. Inr (case selectedCoupling ctx of None \<Rightarrow> False | Some c \<Rightarrow> kind c = None \<or> kind c = Some INLINE)),
    spec_apply := Some apply_insert,
    postCommit := Some select_created,
    describe := said ((''insertar unidad en la uni'' @ ac_o @ ''n'')),
    spec_ai := wire ''insert_module'' (decodeCoupling [])\<rparr>"

definition cmd_disconnect :: Spec where
  "cmd_disconnect = (new_command ''coupling.disconnect'' ''cmd.disconnectCoupling'' [''desconectar'', (''quitar uni'' @ ac_o @ ''n''), ''separar'', ''acoplamiento''])\<lparr>
    applicable := Some (\<lambda>ctx. Inr (selectedCoupling ctx \<noteq> None)),
    spec_apply := Some apply_disconnect,
    postCommit := Some select_after_disconnect,
    describe := said ((''desconectar uni'' @ ac_o @ ''n'')),
    spec_ai := wire ''remove_coupling'' (decodeCoupling [])\<rparr>"

definition cmd_set_kind :: Spec where
  "cmd_set_kind = (new_command ''coupling.set-kind'' ''cmd.couplingKind''
      [''tipo'', (''uni'' @ ac_o @ ''n''), ''inline'', ''stacked'', ''tee'', ''corner'', ''esquina'', ''codo''])\<lparr>
    applicable := Some (\<lambda>ctx. Inr (1 < length (allowed_kinds ctx))),
    params := Some (\<lambda>ctx. Inr (choice_param ''kind'' ''cmd.couplingKindLabel'' (map (\<lambda>k. (kind_str k, translate (kind_key k))) (allowed_kinds ctx)))),
    spec_apply := Some apply_kind,
    describe := Some (\<lambda>args. Inr ((''uni'' @ ac_o @ ''n '') @ arg_shown args ''target'' @ '': '' @ arg_shown args ''kind'')),
    spec_ai := wire ''set_coupling_kind'' (\<lambda>op p st. case wire_text (map_of op ''kind'') of
        None \<Rightarrow> Inr None | Some k \<Rightarrow> decodeCoupling [(''kind'', k)] op p st)\<rparr>"

definition removable_bay :: "Ctx \<Rightarrow> bool result" where
  "removable_bay ctx = map_sum id (\<lambda>t. case t of None \<Rightarrow> False | Some (m, n) \<Rightarrow> parentSplitOf (tree m) (nid n) \<noteq> None) (selectedBayTarget ctx)"

definition cmd_remove_bay :: Spec where
  "cmd_remove_bay = (new_command ''bay.remove'' ''cmd.removeBay'' [''quitar'', ''eliminar'', ''vano'', ''hoja''])\<lparr>
    applicable := Some removable_bay,
    spec_apply := Some apply_remove_bay,
    postCommit := Some select_sibling,
    describe := said ((''quitar pa'' @ n_tilde @ ''o''))\<rparr>"

definition cmd_remove_split :: Spec where
  "cmd_remove_split = (new_command ''split.remove'' ''cmd.removeSplit''
      [''quitar'', ''eliminar'', (''divisi'' @ ac_o @ ''n''), ''montante'', (''travesa'' @ n_tilde @ ''o''), ''mullion'', ''transom''])\<lparr>
    applicable := Some (\<lambda>ctx. result_bind (selectedSplit ctx) (\<lambda>t. case t of None \<Rightarrow> Inr False
      | Some (m, n) \<Rightarrow> canRemoveModuleDivision (cx_product ctx) (m_id m) (nid n))),
    spec_apply := Some apply_remove_split,
    postCommit := Some select_kept,
    describe := said ((''quitar divisi'' @ ac_o @ ''n''))\<rparr>"

section \<open>The operations a command asks of the engine\<close>

definition opening_operations :: "ProductModuleJson \<Rightarrow> string \<Rightarrow> DesignOperationRequest list option result" where
  "opening_operations m opening' =
     (if startsWith opening' ''{'' then
        caught (result_bind (structured_arg opening') (\<lambda>patch.
          result_bind (modulePrimaryBay m) (\<lambda>bay. case (patch, bay) of
            (Some ms, Some b) \<Rightarrow> result_bind (patch_of ms) (\<lambda>fields. Inr (Some (bayOperations (m_id m) (nid b) fields)))
          | _ \<Rightarrow> Inr None)))
      else Inr (case opening_of opening' of
          Some o' \<Rightarrow> if o' \<in> fst ` set OPENING_OPTIONS then Some [SetOpening (m_id m) None (Inr o') None Undef Undef] else None
        | None \<Rightarrow> None))"

text \<open>Commands bound to an operation of the wire, by its name.\<close>

definition wire_operations :: "string \<Rightarrow> Spec \<Rightarrow> Ctx \<Rightarrow> CommandArgs \<Rightarrow> ProductModuleJson option \<Rightarrow> CouplingJson option \<Rightarrow>
    DesignOperationRequest list option result" where
  "wire_operations name spec ctx args tm tc =
     (let one = (\<lambda>r. Inr (Some [r]));
          for_module = (\<lambda>f. case tm of None \<Rightarrow> Inr None | Some m \<Rightarrow> f m);
          for_coupling = (\<lambda>f. case tc of None \<Rightarrow> Inr None | Some c \<Rightarrow> f c)
      in if name = ''add_unit'' then one (AddUnit (if suffix ''left'' (spec_id spec) then S_LEFT else S_RIGHT))
         else if name = ''set_module_count'' then
           (case normalizeCount (arg_text args ''count'') of None \<Rightarrow> Inr None
            | Some c \<Rightarrow> one (SetModuleCountOp (case str_num c of Fin x \<Rightarrow> \<lfloor>x\<rfloor> | _ \<Rightarrow> 0)))
         else if name = ''set_height'' then
           (case normalizeMm (arg_text args ''height'') of None \<Rightarrow> Inr None | Some h \<Rightarrow> one (SetHeight h))
         else if name = ''set_total_width'' then
           (case normalizeMm (arg_text args ''width'') of None \<Rightarrow> Inr None | Some w \<Rightarrow> one (SetTotalWidth w))
         else if name = ''set_module_width'' then
           (case normalizeMm (arg_text args ''width'') of None \<Rightarrow> Inr None
            | Some w \<Rightarrow> for_module (\<lambda>m. one (SetModuleWidthOp (m_id m) w)))
         else if name = ''set_opening'' then
           for_module (\<lambda>m. case nonempty (arg args ''opening'') of None \<Rightarrow> Inr None | Some o' \<Rightarrow> opening_operations m o')
         else if name = ''set_glass'' then
           for_module (\<lambda>m. case nonempty (arg args ''glass'') of None \<Rightarrow> Inr None | Some s \<Rightarrow> one (SetGlass (m_id m) None s))
         else if name = ''set_glass_thickness'' then
           for_module (\<lambda>m. case nonempty (arg args ''thickness'') of None \<Rightarrow> Inr None | Some s \<Rightarrow> one (SetGlassThickness (m_id m) s))
         else if name = ''set_panel'' then for_module (\<lambda>m. one (SetPanel (m_id m) None (nonempty (arg args ''panel''))))
         else if name = ''equalize_widths'' then one EqualizeWidths
         else if name = ''equalize_angles'' then one EqualizeAngles
         else if name = ''duplicate_module'' then for_module (\<lambda>m. one (DuplicateModuleOp (m_id m)))
         else if name = ''add_stacked_unit'' then for_module (\<lambda>m. one (AddStackedUnitOp (m_id m)))
         else if name = ''remove_unit'' then for_module (\<lambda>m. one (RemoveUnitOp (m_id m)))
         else if name = ''insert_module'' then for_coupling (\<lambda>c. one (InsertModule (c_id c)))
         else if name = ''remove_coupling'' then for_coupling (\<lambda>c. one (RemoveCoupling (c_id c)))
         else if name = ''set_coupling_angle'' then for_coupling (\<lambda>c.
           case normalizeAngle (arg_text args ''angle'') of None \<Rightarrow> Inr None | Some a \<Rightarrow> one (SetCouplingAngleOp (c_id c) a))
         else if name = ''set_coupling_kind'' then for_coupling (\<lambda>c.
           case List.find (\<lambda>k. Some (kind_str k) = arg args ''kind'') (allowedCouplingKinds (cx_product ctx) (c_id c)) of
             None \<Rightarrow> Inr None | Some k \<Rightarrow> one (SetCouplingKindOp (c_id c) k))
         else Inr None)"

text \<open>Commands with no operation of the wire, by their own name.\<close>

definition local_operations :: "Spec \<Rightarrow> Ctx \<Rightarrow> CommandArgs \<Rightarrow> ProductModuleJson option \<Rightarrow> CouplingJson option \<Rightarrow>
    DesignOperationRequest list option result" where
  "local_operations spec ctx args tm tc =
     (let i = spec_id spec; p = cx_product ctx
      in if i = ''module.clear-panel'' then Inr (map_option (\<lambda>m. [SetPanel (m_id m) None None]) tm)
         else if i = ''module.clear-glass-thickness'' then Inr (map_option (\<lambda>m. [ClearGlassThickness (m_id m)]) tm)
         else if i = ''coupling.set-coupler'' then Inr (map_option (\<lambda>c. [SetCouplerSkuOp (c_id c) (nonempty (arg args ''coupler''))]) tc)
         else if i = ''module.move-left'' \<or> i = ''module.move-right'' then
           Inr (case tm of None \<Rightarrow> None | Some m \<Rightarrow> (case nonempty (neighbor_of (i = ''module.move-left'') p (m_id m)) of
               None \<Rightarrow> None | Some o' \<Rightarrow> Some [SwapModulesOp (m_id m) o']))
         else if i = ''module.apply-spec'' then
           Inr (case (tm, cx_specClipboard ctx) of (Some m, Some (ClipModule tr)) \<Rightarrow> Some [SetModuleTreeOp (m_id m) tr] | _ \<Rightarrow> None)
         else if i = ''bay.apply-spec'' then
           (case cx_specClipboard ctx of Some (ClipBay spec') \<Rightarrow>
              result_bind (bayTarget ctx args) (\<lambda>t. case t of None \<Rightarrow> Inr None
                | Some (m, n) \<Rightarrow> result_bind (updateBay (tree m) (nid n) spec') (\<lambda>tr. Inr (Some [SetModuleTreeOp (m_id m) tr])))
            | _ \<Rightarrow> Inr None)
         else if i = ''split.remove'' then
           map_sum id (map_option (\<lambda>(m, n). [RemoveDivider (m_id m) (nid n) None])) (splitTarget ctx args)
         else if i = ''bay.remove'' then
           map_sum id (\<lambda>t. case t of None \<Rightarrow> None
             | Some (m, n) \<Rightarrow> (case parentSplitOf (tree m) (nid n) of None \<Rightarrow> None
                 | Some par \<Rightarrow> (case List.find (\<lambda>c. nid c \<noteq> nid n) (kids par) of None \<Rightarrow> None
                     | Some s \<Rightarrow> Some [RemoveDivider (m_id m) (nid par) (Some (nid s))]))) (bayTarget ctx args)
         else if i = ''product.straighten'' then Inr (Some (map (\<lambda>c. SetCouplingAngleOp (c_id c) ''0'') (couplings p)))
         else if i = ''coupling.clear-angle'' then Inr (map_option (\<lambda>c. [SetCouplingAngleOp (c_id c) ''0'']) tc)
         else Inr None)"

definition commandOperations :: "Spec \<Rightarrow> Ctx \<Rightarrow> CommandArgs \<Rightarrow> DesignOperationRequest list option result" where
  "commandOperations spec ctx args = result_bind (moduleTarget ctx args) (\<lambda>tm.
     case spec_ai spec of
       Some ai \<Rightarrow> wire_operations (ai_op ai) spec ctx args tm (couplingTarget ctx args)
     | None \<Rightarrow> local_operations spec ctx args tm (couplingTarget ctx args))"

definition with_operation :: "Spec \<Rightarrow> Spec" where
  "with_operation spec = (if spec_apply spec \<noteq> None then spec\<lparr>operation := Some (commandOperations spec)\<rparr> else spec)"

section \<open>Commands over other commands\<close>

definition DOMAIN_COMMANDS :: "Spec list" where
  "DOMAIN_COMMANDS = map with_operation [cmd_three_bays, cmd_add_right, cmd_add_left, cmd_set_module_count, cmd_remove_module, cmd_set_height,
     cmd_set_total_width, cmd_set_width, cmd_set_opening, cmd_set_glass, cmd_set_thickness, cmd_set_panel, cmd_clear_panel,
     cmd_clear_thickness, cmd_equalize_widths, cmd_equalize_angles, cmd_straighten, cmd_set_angle, cmd_clear_angle, cmd_set_coupler,
     cmd_duplicate, cmd_move_left, cmd_move_right, cmd_stack_above, cmd_copy_spec, cmd_apply_spec, cmd_copy_bay_spec,
     cmd_apply_bay_spec, cmd_insert_module, cmd_disconnect, cmd_set_kind, cmd_remove_bay, cmd_remove_split]"

definition find_spec :: "Spec list \<Rightarrow> string \<Rightarrow> Spec option" where
  "find_spec specs i = List.find (\<lambda>s. spec_id s = i) specs"

text \<open>The dispatch of \<open>edit.remove\<close> looks its four targets up in the whole table; they are among the commands
  before it.\<close>

definition dispatch :: "Ctx \<Rightarrow> string \<Rightarrow> CommandArgs \<Rightarrow> ProductJson Run" where
  "dispatch ctx i args = (case find_spec DOMAIN_COMMANDS i of None \<Rightarrow> run_ok [] | Some spec \<Rightarrow> runCommand ctx spec args)"

definition removable :: "Ctx \<Rightarrow> bool result" where
  "removable ctx =
     (if selectedModule ctx \<noteq> None \<and> 1 < length (modules (cx_product ctx)) then Inr True
      else if selectedCoupling ctx \<noteq> None then Inr True
      else result_bind (selectedSplit ctx) (\<lambda>s. if s \<noteq> None then Inr True else removable_bay ctx))"

definition run_remove :: "Ctx \<Rightarrow> CommandArgs \<Rightarrow> ProductJson Run" where
  "run_remove ctx args = run_then (selectedSplit ctx) (\<lambda>split. case split of
      Some (m, n) \<Rightarrow> dispatch ctx ''split.remove'' [(''module'', m_id m), (''division'', nid n)]
    | None \<Rightarrow> (case selectedCoupling ctx of
        Some c \<Rightarrow> dispatch ctx ''coupling.disconnect'' [(''coupling'', c_id c)]
      | None \<Rightarrow> run_then (selectedBayTarget ctx) (\<lambda>bay.
          case (case bay of Some (m, n) \<Rightarrow> if parentSplitOf (tree m) (nid n) \<noteq> None then Some (m, n) else None | None \<Rightarrow> None) of
            Some (m, n) \<Rightarrow> dispatch ctx ''bay.remove'' [(''module'', m_id m), (''bay'', nid n)]
          | None \<Rightarrow> (case selectedModule ctx of
              Some m \<Rightarrow> if 1 < length (modules (cx_product ctx)) then dispatch ctx ''module.remove'' [(''module'', m_id m)] else run_ok []
            | None \<Rightarrow> run_ok []))))"

definition cmd_edit_remove :: Spec where
  "cmd_edit_remove = (new_command ''edit.remove'' ''cmd.removeSelection'' [''eliminar'', ''quitar'', ''borrar''])\<lparr>
    shortcut := Some (OneKey ''del''), mutates := Some True, applicable := Some removable, spec_run := Some run_remove,
    describe := said ((''eliminar selecci'' @ ac_o @ ''n''))\<rparr>"

definition cmd_deselect :: Spec where
  "cmd_deselect = (new_command ''edit.deselect'' ''cmd.deselect'' [''deseleccionar'', ''cancelar'', ''escape''])\<lparr>
    shortcut := Some (OneKey ''esc''), applicable := Some (\<lambda>ctx. Inr (nonempty (cx_selection ctx) \<noteq> None)),
    spec_run := Some (\<lambda>ctx args. run_ok [SelectObject None]), describe := said ''deseleccionar''\<rparr>"

definition cmd_undo :: Spec where
  "cmd_undo = (new_command ''edit.undo'' ''cmd.undo'' [''deshacer'', ''volver''])\<lparr>
    shortcut := Some (OneKey ''mod+z''), mutates := Some True, applicable := Some (\<lambda>ctx. Inr (canUndo ctx)),
    spec_run := Some (\<lambda>ctx args. run_ok (if cx_undo ctx then [UndoEffect] else []))\<rparr>"

definition cmd_redo :: Spec where
  "cmd_redo = (new_command ''edit.redo'' ''cmd.redo'' [''rehacer'', ''adelante''])\<lparr>
    shortcut := Some (ManyKeys [''mod+shift+z'', ''mod+y'']), mutates := Some True, applicable := Some (\<lambda>ctx. Inr (canRedo ctx)),
    spec_run := Some (\<lambda>ctx args. run_ok (if cx_redo ctx then [RedoEffect] else []))\<rparr>"

definition arm :: "EditorTool \<Rightarrow> Ctx \<Rightarrow> CommandArgs \<Rightarrow> ProductJson Run" where
  "arm tool ctx args = run_ok (if cx_setTool ctx then [SetTool tool] else [])"

definition cmd_tool_select :: Spec where
  "cmd_tool_select = (new_command ''tool.select'' ''cmd.selectTool'' [''seleccionar'', ''cursor'', ''herramienta''])\<lparr>
    shortcut := Some (OneKey ''v''), spec_run := Some (arm T_SELECT)\<rparr>"

definition cmd_split_vertical :: Spec where
  "cmd_split_vertical = (new_command ''tool.split-vertical'' ''cmd.splitVertical'' [''dividir'', ''partir'', ''vertical'', ''montante'', ''mullion''])\<lparr>
    shortcut := Some (ManyKeys [''m'', ''|'', ''shift+|'']),
    applicable := Some (\<lambda>ctx. Inr (map_of (mullionSkus (cx_catalog ctx)) SPLIT_V \<noteq> None)), spec_run := Some (arm T_SPLIT_V)\<rparr>"

definition cmd_split_horizontal :: Spec where
  "cmd_split_horizontal = (new_command ''tool.split-horizontal'' ''cmd.splitHorizontal''
      [''dividir'', ''partir'', ''horizontal'', (''travesa'' @ n_tilde @ ''o''), ''transom''])\<lparr>
    shortcut := Some (ManyKeys [''t'', en_dash, ''-'']),
    applicable := Some (\<lambda>ctx. Inr (map_of (mullionSkus (cx_catalog ctx)) SPLIT_H \<noteq> None)), spec_run := Some (arm T_SPLIT_H)\<rparr>"

text \<open>Repeating the last mutation looks it up in the table. Its own name is never the last mutation, because
  only commands with an \<open>apply\<close> are recorded; the code would not end if it were.\<close>

definition OTHER_COMMANDS :: "Spec list" where
  "OTHER_COMMANDS = DOMAIN_COMMANDS @ [cmd_edit_remove, cmd_deselect, cmd_undo, cmd_redo, cmd_tool_select, cmd_split_vertical, cmd_split_horizontal]"

definition last_spec :: "Ctx \<Rightarrow> (Spec \<times> CommandArgs) option" where
  "last_spec ctx = (case cx_lastMutation ctx of None \<Rightarrow> None
     | Some l \<Rightarrow> map_option (\<lambda>s. (s, margs l)) (find_spec OTHER_COMMANDS (specId l)))"

definition cmd_repeat :: Spec where
  "cmd_repeat = (new_command ''edit.repeat'' ''cmd.repeatLast'' [''repetir'', (ac_u @ ''ltimo''), ''otra vez''])\<lparr>
    shortcut := Some (OneKey ''mod+shift+d''), mutates := Some True,
    applicable := Some (\<lambda>ctx. case last_spec ctx of None \<Rightarrow> Inr False
      | Some (s, _) \<Rightarrow> (case applicable s of None \<Rightarrow> Inr True | Some f \<Rightarrow> f ctx)),
    spec_run := Some (\<lambda>ctx args. case last_spec ctx of None \<Rightarrow> run_ok [] | Some (s, a) \<Rightarrow> runCommand ctx s a)\<rparr>"

definition ASSEMBLY_COMMANDS :: "Spec list" where
  "ASSEMBLY_COMMANDS = DOMAIN_COMMANDS @ [cmd_edit_remove, cmd_deselect, cmd_repeat, cmd_undo, cmd_redo, cmd_tool_select, cmd_split_vertical, cmd_split_horizontal]"

definition UI_ASK_ASSISTANT :: Spec where
  "UI_ASK_ASSISTANT = (new_command ''ui.ask-assistant'' ''cmd.askDekopen'' [''ia'', ''ai'', ''asistente'', ''preguntar'', ''dekopen'', ''ayuda'', ''help''])\<lparr>
    spec_run := Some (\<lambda>ctx args. run_ok (if cx_focusAssistant ctx then [FocusAssistant] else []))\<rparr>"

definition assemblyCommands :: "Ctx \<Rightarrow> Spec list result" where
  "assemblyCommands ctx =
     (if cx_disabled ctx then Inr []
      else map_sum id (\<lambda>domain. if cx_focusAssistant ctx then domain @ [UI_ASK_ASSISTANT] else domain)
        (filter_result (\<lambda>spec. case applicable spec of None \<Rightarrow> Inr True | Some f \<Rightarrow> f ctx) ASSEMBLY_COMMANDS))"

section \<open>Replaying wire operations on products\<close>

definition product_ids :: "string \<Rightarrow> ProductJson \<Rightarrow> json option list result" where
  "product_ids key p = Inr (map (\<lambda>i. Some (JStr i)) (if key = ''modules'' then module_ids p else coupling_ids p))"

definition replay :: "ProductJson \<Rightarrow> OpState \<Rightarrow> DesignOp list \<Rightarrow> (ProductJson \<times> OpState) result" where
  "replay = apply_ops product_ids (applyDesignOpOn ASSEMBLY_COMMANDS)"

end
