(* ===== verification/Editable.thy ===== *)
theory Editable
  imports EditProps
begin

text \<open>
  The products on which every command of the editor is safe: well formed, with couplings that name their
  modules, and with side-to-side joints that connect opposite sides. Each edit the commands use keeps
  this; the invariant is stated coupling by coupling (\<open>sound\<close>), so that an edit is judged by the couplings
  it writes.
\<close>

section \<open>The invariant\<close>

definition seam :: "Joint \<Rightarrow> bool" where
  "seam j \<longleftrightarrow> (j_kind j = INLINE \<longrightarrow> horizontal (j_edges j)) \<and> (horizontal (j_edges j) \<longrightarrow> fst (j_edges j) \<noteq> snd (j_edges j))"

definition sound :: "CouplingJson \<Rightarrow> bool" where
  "sound c \<longleftrightarrow> explicit c \<and> seam (explicit_joint c)"

definition editable :: "ProductJson \<Rightarrow> bool" where
  "editable p \<longleftrightarrow> wf_product p \<and> (\<forall>c \<in> set (couplings p). sound c)"

lemma editableI: "wf_product p \<Longrightarrow> (\<And>c. c \<in> set (couplings p) \<Longrightarrow> sound c) \<Longrightarrow> editable p"
  by (simp add: editable_def)

lemma editable_parts:
  assumes "editable p"
  shows "wf_product p" "all_explicit p" "joints p = map explicit_joint (couplings p)" "\<forall>j \<in> set (joints p). seam j"
    "\<forall>c \<in> set (materializeCouplings p). sound c"
proof -
  show w: "wf_product p" and e: "all_explicit p" using assms by (auto simp: editable_def sound_def all_explicit_def)
  show j: "joints p = map explicit_joint (couplings p)" using e by (intro joints_explicit(1)) (simp add: all_explicit_def)
  show s: "\<forall>j \<in> set (joints p). seam j" using assms unfolding j by (auto simp: editable_def sound_def)
  show "\<forall>c \<in> set (materializeCouplings p). sound c"
  proof
    fix c assume c: "c \<in> set (materializeCouplings p)"
    then have "explicit_joint c \<in> set (map explicit_joint (materializeCouplings p))" by simp
    then have "explicit_joint c \<in> set (joints p)" using wf_product_parts(6) [OF w] by simp
    then show "sound c" using s wf_product_parts(5) [OF w] c by (simp add: sound_def)
  qed
qed

section \<open>Edits keep it\<close>

lemma editable_module:
  assumes "module_edited p q" "editable p"
  shows "editable q"
  using assms module_edited_keeps [OF assms(1)] edited.edit_wf [of p q q] by (simp add: editable_def)

lemma sound_upd [simp]:
  "sound (c\<lparr>angle_deg := a\<rparr>) \<longleftrightarrow> sound c" "sound (c\<lparr>coupler_profile_sku := s\<rparr>) \<longleftrightarrow> sound c"
  by (auto simp: sound_def explicit_def explicit_joint_def resolve_one_def joint_def seam_def)

lemma replaceCoupling_set: "c \<in> set (couplings (replaceCoupling p i d)) \<Longrightarrow> c = d \<or> c \<in> set (couplings p)"
  by (auto simp: replaceCoupling_def split: if_splits)

lemma explicit_joint_edges: "explicit c \<Longrightarrow> j_edges (explicit_joint c) = coupling_edges c"
  by (auto simp: explicit_def explicit_joint_def resolve_one_def joint_def coupling_edges_def split: option.splits)

lemma sound_kind:
  assumes "sound c" "k = INLINE \<longleftrightarrow> horizontal (coupling_edges c)" "coupling_shape (c\<lparr>kind := Some k\<rparr>) = coupling_shape c"
  shows "sound (c\<lparr>kind := Some k\<rparr>)"
proof -
  have e: "explicit c" "explicit (c\<lparr>kind := Some k\<rparr>)" using assms(1) by (simp_all add: sound_def explicit_def)
  have ed: "coupling_edges (c\<lparr>kind := Some k\<rparr>) = coupling_edges c" using assms(3) by (simp add: coupling_shape_def)
  have "j_kind (explicit_joint (c\<lparr>kind := Some k\<rparr>)) = k"
    using e(1) by (auto simp: explicit_def explicit_joint_def resolve_one_def joint_def)
  then show ?thesis
    using assms(1,2) e ed explicit_joint_edges [OF e(1)] explicit_joint_edges [OF e(2)] by (auto simp: sound_def seam_def)
qed

lemma editable_coupling:
  assumes "coupling_edited p q" "editable p"
  shows "editable q"
proof (rule editableI)
  have w: "wf_product p" using assms(2) by (simp add: editable_def)
  then show "wf_product q" using coupling_edited_step [OF assms(1)] by blast
  have s: "\<forall>c \<in> set (couplings p). sound c" using assms(2) by (simp add: editable_def)
  have f: "find_coupling p i = Some c \<Longrightarrow> sound c" for i c using s find_coupling_Some by blast
  show "sound c" if "c \<in> set (couplings q)" for c using assms(1) that
  proof cases
    case (angle i a)
    then show ?thesis using that s f by (auto simp: setCouplingAngle_def split: option.splits dest!: replaceCoupling_set)
  next
    case (sku i v)
    then show ?thesis using that s f by (auto simp: setCouplerSku_def split: option.splits dest!: replaceCoupling_set)
  next
    case (kind i k)
    from setCouplingKind_Some [OF w this] obtain d where d: "find_coupling p i = Some d" "k = INLINE \<longleftrightarrow> horizontal (coupling_edges d)"
      "q = replaceCoupling p i (d\<lparr>kind := Some k\<rparr>)" "coupling_shape (d\<lparr>kind := Some k\<rparr>) = coupling_shape d" .
    show ?thesis using that s sound_kind [OF f [OF d(1)] d(2,4)] by (auto simp: d(3) dest!: replaceCoupling_set)
  qed (use that s in \<open>auto simp: equalizeCouplingAngles_def setAllCouplingAngles_def setCouplerSkuAll_def split: list.splits\<close>)
qed

lemma sound_across:
  assumes "explicit c" "horizontal (j_edges (explicit_joint c))" "fst (j_edges (explicit_joint c)) \<noteq> snd (j_edges (explicit_joint c))"
  shows "sound c"
  using assms unfolding sound_def seam_def by blast

lemma sound_row: "explicit c \<Longrightarrow> j_edges (explicit_joint c) = (E_right, E_left) \<Longrightarrow> sound c"
  by (rule sound_across) (simp_all add: horizontal_def)

lemma editable_add:
  assumes "editable p" "addAdjacentUnit p sd width = Inr (Some q)" "sd = E_left \<or> sd = E_right"
  shows "editable q"
proof (rule editableI)
  show "wf_product q" using addAdjacentUnit_wf(1) [OF _ assms(2,3)] assms(1) by (simp add: editable_def)
  from assms(2,3) obtain edge md c where "explicit c" "j_edges (explicit_joint c) = (E_right, E_left)"
    "couplings q = (if sd = E_right then materializeCouplings p @ [c] else c # materializeCouplings p)"
    by (rule addAdjacentUnit_Some) simp
  then show "sound d" if "d \<in> set (couplings q)" for d
    using that editable_parts(5) [OF assms(1)] sound_row by (auto split: if_splits)
qed

lemma editable_duplicate:
  assumes "editable p" "duplicateModule p i = Inr (Some q)"
  shows "editable q"
proof (rule editableI)
  show "wf_product q" using duplicateModule_wf [OF _ assms(2)] assms(1) by (simp add: editable_def)
  from assms(2) obtain c where "explicit c" "j_edges (explicit_joint c) = (E_right, E_left)" "couplings q = materializeCouplings p @ [c]"
    by (rule duplicateModule_Some) simp
  then show "sound d" if "d \<in> set (couplings q)" for d
    using that editable_parts(5) [OF assms(1)] sound_row by auto
qed

lemma editable_swap:
  assumes "editable p" "swapModules p a b = Some q"
  shows "editable q"
proof -
  note p = editable_parts [OF assms(1)] and s = swapModules_Some [OF assms(2) editable_parts(1) [OF assms(1)]]
  have "seam (rename_joint f j) \<longleftrightarrow> seam j" for f j by (simp add: seam_def rename_joint_def)
  then have "\<forall>j \<in> set (joints q). seam j" using p(4) by (auto simp: s(1))
  then show ?thesis using swapModules_wf [OF p(1) assms(2)] s(5) by (auto simp: editable_def sound_def simp flip: s(6))
qed

lemma editable_unlink:
  assumes "editable p" "unlinkCoupling p i = Some q"
  shows "editable q"
  using assms(1) unlinkCoupling_wf [OF editable_parts(1,2) [OF assms(1)] assms(2)] assms(2)
  by (auto simp: editable_def unlinkCoupling_def split: if_splits)

lemma editable_stack:
  assumes "editable p" "addStackedUnit p b height = Some q"
  shows "editable q"
proof (rule editableI)
  show "wf_product q" using addStackedUnit_wf [OF _ assms(2)] assms(1) by (simp add: editable_def)
  have l: "sound c" if "linkModules r x E_top y E_bottom STACKED no_options = Some r'" "c \<in> set (couplings r')" "\<forall>c \<in> set (couplings r). sound c" for r r' x y c
  proof -
    have "couplings r' = couplings r \<or> (\<exists>d pr es. couplings r' = couplings r @ [d] \<and> c_modules d = Some pr \<and> kind d = Some STACKED \<and>
        c_edges d = Some es \<and> es \<in> {(E_top, E_bottom), (E_bottom, E_top)})"
      using that(1) by (auto simp: linkModules_def Let_def split: if_splits prod.splits)
    moreover have "sound d" if "c_modules d = Some pr" "kind d = Some STACKED" "c_edges d = Some es" "es \<in> {(E_top, E_bottom), (E_bottom, E_top)}" for d pr es
      using that explicit_joint_simps [OF that(1,3,2)] by (auto simp: sound_def seam_def explicit_def horizontal_def)
    ultimately show ?thesis using that(2,3) by auto
  qed
  have s: "\<forall>c \<in> set (couplings p). sound c" using assms(1) by (simp add: editable_def)
  show "sound c" if "c \<in> set (couplings q)" for c
    using assms(2) that s l [of "p\<lparr>modules := modules p @ [m]\<rparr>" for m]
    by (auto simp: addStackedUnit_def Let_def split: option.splits if_splits)
qed

lemma OPPOSITE_horizontal: "horizontal (a, OPPOSITE a) \<longleftrightarrow> a \<in> {E_left, E_right}" "a \<noteq> OPPOSITE a"
  by (cases a; simp add: horizontal_def)+

lemma editable_insert:
  assumes "editable p" "insertModuleBetween p cid width = Some q"
  shows "editable q"
proof (rule editableI)
  note p = editable_parts [OF assms(1)]
  have inline: "seam j \<Longrightarrow> j_kind j = INLINE \<Longrightarrow> horizontal (j_edges j) \<and> fst (j_edges j) \<noteq> snd (j_edges j)" for j
    by (simp add: seam_def)
  from assms(2) obtain r f s where r: "r \<in> set (resolveCouplings p)" "c_id (r_coupling r) = cid" "r_kind r = INLINE"
    and cs: "couplings q = Prelude.splice (r_index r) 1 [f, s] (materializeCouplings p)" "explicit f" "explicit s"
      "j_edges (explicit_joint f) = (fst (r_edges r), OPPOSITE (fst (r_edges r)))"
      "j_edges (explicit_joint s) = (OPPOSITE (snd (r_edges r)), snd (r_edges r))"
    by (rule insertModuleBetween_Some) simp
  have "joint r \<in> set (joints p)" using r(1) by (simp add: joints_def)
  moreover have "j_kind (joint r) = INLINE" "j_edges (joint r) = r_edges r" using r(3) by (simp_all add: joint_def)
  ultimately have h: "horizontal (r_edges r)" "fst (r_edges r) \<noteq> snd (r_edges r)" using inline p(4) by metis+
  have sides: "horizontal (a, OPPOSITE a)" "horizontal (OPPOSITE b, b)" if "horizontal (a, b)" for a b
    using that by (cases a; cases b; simp add: horizontal_def)+
  note hs = sides [of "fst (r_edges r)" "snd (r_edges r)", unfolded prod.collapse, OF h(1)]
  have "sound f" by (rule sound_across [OF cs(2)]; use hs(1) in \<open>simp add: cs(4) OPPOSITE_horizontal(2)\<close>)
  moreover have "sound s" by (rule sound_across [OF cs(3)]; use hs(2) in \<open>simp add: cs(5) OPPOSITE_horizontal(2) [symmetric]\<close>)
  ultimately show "sound c" if "c \<in> set (couplings q)" for c
    using that p(5) by (auto simp: cs(1) Prelude.splice_def dest: in_set_takeD in_set_dropD)
  show "wf_product q"
  proof (rule insertModuleBetween_wf [OF p(1) assms(2)])
    fix j assume j: "j \<in> set (joints p)" "j_id j = cid"
    have "j = joint r"
      using j r(1,2) wf_product_parts(1) [OF p(1)] by (auto simp: wf_graph_def joints_def distinct_map inj_on_def joint_def)
    then show "fst (j_edges j) \<noteq> snd (j_edges j)" using h(2) by (simp add: joint_def)
  qed
qed

lemma other_side: "a \<in> {E_left, E_right} \<Longrightarrow> b \<in> {E_left, E_right} \<Longrightarrow> (a \<noteq> b) = (b = OPPOSITE a)"
  by (cases a; cases b; simp)

lemma survivor_end:
  assumes "touches m (joint r)" "horizontal (r_edges r)" "fst (r_edges r) \<noteq> snd (r_edges r)"
  shows "\<exists>e. (m, e) \<in> set (claims (joint r)) \<and> e \<in> {E_left, E_right} \<and> snd (survivor m r) = OPPOSITE e"
proof -
  obtain x y a b where r: "r_pair r = (x, y)" "r_edges r = (a, b)" by (metis surj_pair)
  have ab: "a \<in> {E_left, E_right}" "b \<in> {E_left, E_right}" "b = OPPOSITE a" "a = OPPOSITE b"
    using assms(2,3) r(2) other_side by (auto simp: horizontal_def)
  show ?thesis
  proof (cases "x = m")
    case True
    then have "(m, a) \<in> set (claims (joint r))" "snd (survivor m r) = b" by (simp_all add: claims_def joint_def survivor_def r)
    then show ?thesis using ab by blast
  next
    case False
    then have "(m, b) \<in> set (claims (joint r))" "snd (survivor m r) = a"
      using assms(1) by (simp_all add: claims_def joint_def survivor_def r touches_def)
    then show ?thesis using ab by blast
  qed
qed

lemma distinct_claims:
  assumes "distinct (concat (map claims js))" "filter (touches m) js = [j, k]" "(m, e) \<in> set (claims j)" "(m, e) \<in> set (claims k)"
  shows False
proof -
  have "mset js = mset (filter (touches m) js) + mset (filter (\<lambda>j. \<not> touches m j) js)" by (induction js) auto
  then have "mset js = mset (j # k # filter (\<lambda>j. \<not> touches m j) js)" unfolding assms(2) by simp
  then have "mset (concat (map claims js)) = mset (concat (map claims (j # k # filter (\<lambda>j. \<not> touches m j) js)))"
    unfolding mset_concat mset_map [symmetric] sum_mset_sum_list [symmetric] by (metis mset_map)
  then have "distinct (concat (map claims (j # k # filter (\<lambda>j. \<not> touches m j) js)))" using assms(1) distinct_mset by blast
  then show False using assms(3,4) by auto
qed

lemma merge_sound:
  assumes "editable p" "merge_of p m q cs i0 i1 k c"
  shows "sound c"
proof -
  note p = editable_parts [OF assms(1)] and h = merge_of_parts [OF assms(2)]
  have inc: "filter (touches m) (joints p) = [joint i0, joint i1]" using incident_joints [of p m] h(1) by simp
  have mem: "joint i0 \<in> set (joints p)" "joint i1 \<in> set (joints p)" "touches m (joint i0)" "touches m (joint i1)"
    using arg_cong [OF inc, of set] by auto
  have es: "horizontal (r_edges i)" "fst (r_edges i) \<noteq> snd (r_edges i)" if "joint i \<in> set (joints p)" "r_kind i = INLINE" for i
    using p(4) that by (auto simp: seam_def joint_def dest!: bspec)
  obtain e0 e1 where e: "(m, e0) \<in> set (claims (joint i0))" "e0 \<in> {E_left, E_right}" "snd (survivor m i0) = OPPOSITE e0"
    "(m, e1) \<in> set (claims (joint i1))" "e1 \<in> {E_left, E_right}" "snd (survivor m i1) = OPPOSITE e1"
    using survivor_end [OF mem(3) es [OF mem(1) h(2)]] survivor_end [OF mem(4) es [OF mem(2) h(3)]] by blast
  have "distinct (concat (map claims (joints p)))" using wf_product_parts(1) [OF p(1)] by (simp add: wf_graph_def)
  then have "e0 \<noteq> e1" using distinct_claims [OF _ inc] e(1,4) by metis
  then have ne: "snd (survivor m i0) \<noteq> snd (survivor m i1)" "snd (survivor m i0) \<in> {E_left, E_right}" "snd (survivor m i1) \<in> {E_left, E_right}"
    using e by auto
  have "{fst (j_edges (explicit_joint c)), snd (j_edges (explicit_joint c))} = snd ` set (claims (explicit_joint c))"
    by (auto simp: claims_def)
  also have "\<dots> = {snd (survivor m i0), snd (survivor m i1)}" using h(8) by simp
  finally have "{fst (j_edges (explicit_joint c)), snd (j_edges (explicit_joint c))} = {snd (survivor m i0), snd (survivor m i1)}" .
  then show ?thesis using ne by (intro sound_across [OF h(6)]) (auto simp: horizontal_def doubleton_eq_iff)
qed

lemma editable_remove:
  assumes "editable p" "removeUnit p m = Some q"
  shows "editable q"
proof (rule editableI)
  note p = editable_parts [OF assms(1)]
  show "wf_product q" using removeUnit_wf [OF p(1) assms(2)] by blast
  from assms(2) obtain cs where
    cs: "cs = map snd (filter (\<lambda>(i, c). i \<notin> set (map r_index (incidentCouplings p m))) (entries (materializeCouplings p)))"
    and q: "couplings q = cs \<or> (\<exists>i0 i1 k c. merge_of p m q cs i0 i1 k c)" by (rule removeUnit_cases)
  have kept: "\<forall>c \<in> set cs. sound c" using p(5) unfolding cs by (auto simp: mem_entries)
  show "sound d" if d: "d \<in> set (couplings q)" for d
    using q
  proof
    assume "\<exists>i0 i1 k c. merge_of p m q cs i0 i1 k c"
    then obtain i0 i1 k c where mg: "merge_of p m q cs i0 i1 k c" by blast
    show ?thesis using d kept merge_sound [OF assms(1) mg] by (auto simp: merge_of_parts(5) [OF mg] set_splice_insert)
  qed (use d kept in simp)
qed

lemma editable_trim: "trim_modules p n = Some q \<Longrightarrow> editable p \<longrightarrow> editable q"
proof (induction rule: trim_modules.raw_induct [rotated 1, consumes 1])
  case (1 trim p n q)
  show ?case
  proof (cases "removeUnit p (m_id (last (modules p)))")
    case None
    then have "q = p \<or> trim p n = Some q" using 1(2) by (simp split: if_splits)
    then show ?thesis using 1(1) by blast
  next
    case (Some r)
    then have "editable p \<Longrightarrow> editable r" by (rule editable_remove [rotated])
    moreover have "q = p \<or> trim r n = Some q" using 1(2) Some by (simp split: if_splits)
    ultimately show ?thesis using 1(1) by blast
  qed
qed

lemma editable_grow: "grow_modules p n = Some r \<Longrightarrow> editable p \<longrightarrow> (\<forall>q. r = Inr q \<longrightarrow> editable q)"
proof (induction rule: grow_modules.raw_induct [rotated 1, consumes 1])
  case (1 grow p n r)
  show ?case
  proof (cases "addAdjacentUnit p E_right None")
    case (Inl e)
    then show ?thesis using 1(2) by (auto split: if_splits)
  next
    case (Inr a)
    then have "editable p \<Longrightarrow> a = Some p' \<Longrightarrow> editable p'" for p' using editable_add [of p E_right None] by simp
    moreover have "r = Inr p \<or> grow (case a of None \<Rightarrow> p | Some p' \<Rightarrow> p') n = Some r"
      using 1(2) Inr by (cases a; simp split: if_splits)
    ultimately show ?thesis using 1(1) by (cases a) auto
  qed
qed

lemma editable_count:
  assumes "editable p" "setModuleCount p n = Some (Inr (Some q))"
  shows "editable q"
proof (cases "n < int (length (modules p))")
  case True
  then show ?thesis using assms editable_trim by (auto simp: setModuleCount_def Let_def split: if_splits)
next
  case False
  then obtain r where r: "grow_modules p n = Some r" "map_sum id Some r = Inr (Some q)"
    using assms(2) by (auto simp: setModuleCount_def Let_def split: if_splits)
  then have "r = Inr q" by (cases r) simp_all
  then show ?thesis using editable_grow [OF r(1)] assms(1) by blast
qed

end
