(* ===== verification/CommandProps.thy ===== *)
theory CommandProps
  imports AssemblyCommands Editable StoreProps
begin

text \<open>
  The command table over the edits: whatever every edit keeps, every command of the table commits and every
  replay of wire operations keeps. The edits are the interface (\<open>edit_invariant\<close>); the invariant of the
  products the editor can edit safely is its instance.
\<close>

section \<open>What a command commits\<close>

definition commits :: "ProductJson Run \<Rightarrow> ProductJson set" where
  "commits r = {q. Commit q \<in> set (fst r)}"

lemma commits_simps [simp]:
  "commits (run_ok es) = {q. Commit q \<in> set es}" "commits ([], e) = {}"
  "commits (after es r) = {q. Commit q \<in> set es} \<union> commits r"
  by (auto simp: commits_def run_ok_def after_def)

lemma commits_run_then [simp]: "commits (run_then r f) = (case r of Inl e \<Rightarrow> {} | Inr x \<Rightarrow> commits (f x))"
  by (simp add: run_then_def split: sum.splits)

text \<open>A command with an \<open>apply\<close> and what follows its commit; a command with only a \<open>run\<close>.\<close>

definition keeps_product :: "(ProductJson \<Rightarrow> bool) \<Rightarrow> (Ctx \<Rightarrow> CommandArgs \<Rightarrow> ProductJson option result) \<Rightarrow> bool" where
  "keeps_product I app \<longleftrightarrow> (\<forall>ctx args q. I (cx_product ctx) \<longrightarrow> app ctx args = Inr (Some q) \<longrightarrow> I q)"

definition silent :: "(Ctx \<Rightarrow> ProductJson \<Rightarrow> ProductJson \<Rightarrow> CommandArgs \<Rightarrow> ProductJson Run) \<Rightarrow> bool" where
  "silent post \<longleftrightarrow> (\<forall>ctx p q args. commits (post ctx p q args) = {})"

definition safe_spec :: "(ProductJson \<Rightarrow> bool) \<Rightarrow> Spec \<Rightarrow> bool" where
  "safe_spec I spec \<longleftrightarrow>
     (\<forall>app. spec_apply spec = Some app \<longrightarrow> keeps_product I app) \<and>
     (\<forall>post. postCommit spec = Some post \<longrightarrow> silent post) \<and>
     (\<forall>run ctx args q. spec_apply spec = None \<longrightarrow> spec_run spec = Some run \<longrightarrow> I (cx_product ctx) \<longrightarrow>
        q \<in> commits (run ctx args) \<longrightarrow> I q)"

lemma keeps_productI:
  "(\<And>ctx args q. I (cx_product ctx) \<Longrightarrow> app ctx args = Inr (Some q) \<Longrightarrow> I q) \<Longrightarrow> keeps_product I app"
  by (simp add: keeps_product_def)

lemma safe_commit:
  assumes "safe_spec I spec" "I (cx_product ctx)" "q \<in> commits (runCommand ctx spec args)"
  shows "I q"
  using assms
  by (fastforce simp: runCommand_def safe_spec_def keeps_product_def silent_def split: option.splits sum.splits if_splits)

lemma safe_with_operation [simp]: "safe_spec I (with_operation spec) \<longleftrightarrow> safe_spec I spec"
  by (simp add: with_operation_def safe_spec_def)

lemma silent_selections:
  "silent select_created" "silent select_after_remove" "silent select_after_disconnect" "silent select_sibling" "silent select_kept"
  by (auto simp: silent_def select_created_def select_after_remove_def select_after_disconnect_def select_sibling_def select_kept_def
      below_def Let_def split: option.splits sum.splits)

lemmas cmd_defs = cmd_three_bays_def cmd_add_right_def cmd_add_left_def cmd_set_module_count_def cmd_remove_module_def
  cmd_set_height_def cmd_set_total_width_def cmd_set_width_def cmd_set_opening_def cmd_set_glass_def cmd_set_thickness_def
  cmd_set_panel_def cmd_clear_panel_def cmd_clear_thickness_def cmd_equalize_widths_def cmd_equalize_angles_def
  cmd_straighten_def cmd_set_angle_def cmd_clear_angle_def cmd_set_coupler_def cmd_duplicate_def cmd_move_left_def
  cmd_move_right_def cmd_stack_above_def cmd_copy_spec_def cmd_apply_spec_def cmd_copy_bay_spec_def cmd_apply_bay_spec_def
  cmd_insert_module_def cmd_disconnect_def cmd_set_kind_def cmd_remove_bay_def cmd_remove_split_def cmd_deselect_def
  cmd_undo_def cmd_redo_def cmd_tool_select_def cmd_split_vertical_def cmd_split_horizontal_def

text \<open>A wire operation does what some command of the table applies, or nothing.\<close>

lemma applyDesignOpOn_applies:
  assumes "applyDesignOpOn specs p op st = Inr q"
  shows "q = p \<or> (\<exists>spec app args. spec \<in> set specs \<and> spec_apply spec = Some app \<and> app (wire_context p) args = Inr (Some q))"
  using assms
proof (induction specs)
  case (Cons spec specs)
  show ?case
  proof (cases "applyDesignOpOn specs p op st = Inr q")
    case True
    then show ?thesis using Cons.IH by auto
  next
    case False
    then obtain ai app where s: "spec_ai spec = Some ai" "spec_apply spec = Some app" "map_of op ''op'' = Some (JStr (ai_op ai))"
      using Cons.prems by (cases "spec_ai spec"; cases "spec_apply spec") (simp_all split: if_split_asm)
    then obtain args where "ai_decode ai op p st = Inr (Some args)"
      using Cons.prems False by (simp split: sum.split_asm option.split_asm)
    then have "map_sum id (\<lambda>r. case r of None \<Rightarrow> p | Some q \<Rightarrow> q) (app (wire_context p) args) = Inr q" using Cons.prems s by simp
    then obtain r where "app (wire_context p) args = Inr r" "q = (case r of None \<Rightarrow> p | Some q \<Rightarrow> q)"
      by (cases "app (wire_context p) args") simp_all
    then show ?thesis using s(2) by (cases r) auto
  qed
qed simp

section \<open>The interface: what the edits keep\<close>

locale edit_invariant =
  fixes I :: "ProductJson \<Rightarrow> bool"
  assumes on_module: "module_edited p q \<Longrightarrow> I p \<Longrightarrow> I q"
    and on_coupling: "coupling_edited p q \<Longrightarrow> I p \<Longrightarrow> I q"
    and on_add: "I p \<Longrightarrow> addAdjacentUnit p sd w = Inr (Some q) \<Longrightarrow> sd = E_left \<or> sd = E_right \<Longrightarrow> I q"
    and on_duplicate: "I p \<Longrightarrow> duplicateModule p i = Inr (Some q) \<Longrightarrow> I q"
    and on_swap: "I p \<Longrightarrow> swapModules p a b = Some q \<Longrightarrow> I q"
    and on_unlink: "I p \<Longrightarrow> unlinkCoupling p i = Some q \<Longrightarrow> I q"
    and on_stack: "I p \<Longrightarrow> addStackedUnit p i h = Some q \<Longrightarrow> I q"
    and on_insert: "I p \<Longrightarrow> insertModuleBetween p c w = Some q \<Longrightarrow> I q"
    and on_remove: "I p \<Longrightarrow> removeUnit p i = Some q \<Longrightarrow> I q"
    and on_count: "I p \<Longrightarrow> setModuleCount p n = Some (Inr (Some q)) \<Longrightarrow> I q"
begin

lemma keeps_structure:
  "keeps_product I (\<lambda>ctx args. addAdjacentUnit (cx_product ctx) E_right None)"
  "keeps_product I (\<lambda>ctx args. addAdjacentUnit (cx_product ctx) E_left None)"
  "keeps_product I apply_count" "keeps_product I apply_remove" "keeps_product I apply_insert" "keeps_product I apply_disconnect"
  "keeps_product I (AssemblyCommands.on_module duplicateModule)"
  "keeps_product I (AssemblyCommands.on_module (\<lambda>p i. Inr (addStackedUnit p i None)))"
  "keeps_product I (apply_swap leftward)"
  by (auto simp: keeps_product_def apply_count_def apply_remove_def apply_insert_def apply_disconnect_def apply_swap_def
      AssemblyCommands.on_module_def result_bind_Inr
      split: option.splits if_splits intro: on_add on_duplicate on_swap on_unlink on_stack on_insert on_remove on_count)

lemma keeps_couplings:
  "keeps_product I (\<lambda>ctx args. Inr (equalizeCouplingAngles (cx_product ctx)))"
  "keeps_product I (\<lambda>ctx args. Inr (Some (setAllCouplingAngles (cx_product ctx) a)))"
  "keeps_product I apply_angle" "keeps_product I apply_clear_angle" "keeps_product I apply_coupler" "keeps_product I apply_kind"
  by (auto simp: keeps_product_def apply_angle_def apply_clear_angle_def apply_coupler_def apply_kind_def split: option.splits
      intro: on_coupling coupling_edited.intros)

lemma keeps_widths:
  "keeps_product I apply_height" "keeps_product I apply_total_width" "keeps_product I apply_width"
  "keeps_product I (\<lambda>ctx args. map_sum id Some (equalizeModuleWidths (cx_product ctx)))"
  by (auto simp: keeps_product_def apply_height_def apply_total_width_def apply_width_def map_sum_Inr split: option.splits
      intro: on_module module_edited.intros)

lemma keeps_fill:
  "keeps_product I apply_glass" "keeps_product I apply_thickness" "keeps_product I apply_panel" "keeps_product I apply_clear_panel"
  "keeps_product I apply_clear_thickness"
  by (auto simp: keeps_product_def apply_glass_def apply_thickness_def apply_panel_def apply_clear_panel_def
      apply_clear_thickness_def Let_def split: option.splits intro: on_module module_edited.intros)

lemma case_produces:
  "(case x of None \<Rightarrow> Inr None | Some y \<Rightarrow> f y) = Inr (Some q) \<longleftrightarrow> (\<exists>y. x = Some y \<and> f y = Inr (Some q))"
  "(case u of None \<Rightarrow> None | Some y \<Rightarrow> g y) = Some z \<longleftrightarrow> (\<exists>y. u = Some y \<and> g y = Some z)"
  "Some z = (case u of None \<Rightarrow> None | Some y \<Rightarrow> g y) \<longleftrightarrow> (\<exists>y. u = Some y \<and> g y = Some z)"
  by (auto split: option.splits)

lemma keeps_trees:
  "keeps_product I apply_module_spec" "keeps_product I apply_bay_spec" "keeps_product I apply_remove_bay" "keeps_product I apply_remove_split"
  by (auto simp: keeps_product_def apply_module_spec_def apply_bay_spec_def apply_remove_bay_def apply_remove_split_def result_bind_Inr
      case_produces map_sum_Inr split: prod.split_asm SpecClipboard.split_asm
      intro: on_module [OF module_edited.tree] on_module [OF module_edited.paste] on_module [OF module_edited.remove_bay]
        on_module [OF module_edited.remove_division])

lemma caught_Some: "caught r = Inr (Some x) \<longleftrightarrow> r = Inr (Some x)"
  by (auto simp: caught_def split: sum.splits js_error.splits)

lemma keeps_opening: "keeps_product I apply_opening"
proof (rule keeps_productI)
  fix ctx args q assume a: "I (cx_product ctx)" "apply_opening ctx args = Inr (Some q)"
  then have "module_edited (cx_product ctx) q"
    by (auto simp: apply_opening_def Let_def result_bind_Inr caught_Some case_produces split: option.split_asm if_split_asm
        intro: module_edited.intros)
  then show "I q" using a(1) by (rule on_module)
qed

lemmas keeps_all = keeps_structure keeps_couplings keeps_widths keeps_fill keeps_trees keeps_opening

lemma safe_applies:
  "safe_spec I cmd_add_right" "safe_spec I cmd_add_left" "safe_spec I cmd_set_module_count" "safe_spec I cmd_remove_module"
  "safe_spec I cmd_set_height" "safe_spec I cmd_set_total_width" "safe_spec I cmd_set_width" "safe_spec I cmd_set_opening"
  "safe_spec I cmd_set_glass" "safe_spec I cmd_set_thickness" "safe_spec I cmd_set_panel" "safe_spec I cmd_clear_panel"
  "safe_spec I cmd_clear_thickness" "safe_spec I cmd_equalize_widths" "safe_spec I cmd_equalize_angles" "safe_spec I cmd_straighten"
  "safe_spec I cmd_set_angle" "safe_spec I cmd_clear_angle" "safe_spec I cmd_set_coupler" "safe_spec I cmd_duplicate"
  "safe_spec I cmd_move_left" "safe_spec I cmd_move_right" "safe_spec I cmd_stack_above" "safe_spec I cmd_apply_spec"
  "safe_spec I cmd_apply_bay_spec" "safe_spec I cmd_insert_module" "safe_spec I cmd_disconnect" "safe_spec I cmd_set_kind"
  "safe_spec I cmd_remove_bay" "safe_spec I cmd_remove_split"
  by (simp_all only: cmd_defs, simp_all add: safe_spec_def new_command_def keeps_all silent_selections)

lemma safe_runs:
  "safe_spec I cmd_three_bays" "safe_spec I cmd_copy_spec" "safe_spec I cmd_copy_bay_spec" "safe_spec I cmd_deselect"
  "safe_spec I cmd_undo" "safe_spec I cmd_redo" "safe_spec I cmd_tool_select" "safe_spec I cmd_split_vertical"
  "safe_spec I cmd_split_horizontal"
  by (simp_all only: cmd_defs, auto simp: safe_spec_def new_command_def arm_def split: list.splits option.splits sum.splits)

lemma safe_domain: "spec \<in> set DOMAIN_COMMANDS \<Longrightarrow> safe_spec I spec"
  unfolding DOMAIN_COMMANDS_def by (auto simp only: list.set list.map safe_applies safe_runs safe_with_operation insert_iff empty_iff)

lemma find_spec_set: "find_spec specs i = Some s \<Longrightarrow> s \<in> set specs"
  by (auto simp: find_spec_def find_Some_iff)

lemma dispatch_kept: "I (cx_product ctx) \<Longrightarrow> q \<in> commits (dispatch ctx i args) \<Longrightarrow> I q"
  using safe_commit [OF safe_domain] find_spec_set unfolding dispatch_def by (simp split: option.split_asm) blast

lemma safe_remove: "safe_spec I cmd_edit_remove"
proof -
  have "I q" if "I (cx_product ctx)" "q \<in> commits (run_remove ctx args)" for ctx args q
    using that by (auto simp: run_remove_def split: sum.splits option.splits if_splits dest: dispatch_kept)
  then show ?thesis by (simp add: cmd_edit_remove_def safe_spec_def new_command_def)
qed

lemma safe_other: "spec \<in> set OTHER_COMMANDS \<Longrightarrow> safe_spec I spec"
  unfolding OTHER_COMMANDS_def using safe_domain safe_runs safe_remove by auto

lemma safe_repeat: "safe_spec I cmd_repeat"
proof -
  have "safe_spec I s" if "last_spec ctx = Some (s, a)" for ctx s a
    using that safe_other find_spec_set by (auto simp: last_spec_def split: option.splits)
  then have "I q" if "I (cx_product ctx)" "last_spec ctx = Some (s, a)" "q \<in> commits (runCommand ctx s a)" for ctx s a q
    using safe_commit that by blast
  then show ?thesis unfolding safe_spec_def by (auto simp: cmd_repeat_def new_command_def split: option.split_asm)
qed

lemma safe_table: "spec \<in> set ASSEMBLY_COMMANDS \<Longrightarrow> safe_spec I spec"
  unfolding ASSEMBLY_COMMANDS_def using safe_domain safe_runs safe_remove safe_repeat by auto

lemma command_kept:
  "spec \<in> set ASSEMBLY_COMMANDS \<Longrightarrow> I (cx_product ctx) \<Longrightarrow> q \<in> commits (runCommand ctx spec args) \<Longrightarrow> I q"
  using safe_commit [OF safe_table] by blast

text \<open>Operations of the wire, one and in sequence.\<close>

lemma apply_design_op_kept:
  assumes "\<And>spec. spec \<in> set specs \<Longrightarrow> safe_spec I spec" "I p" "applyDesignOpOn specs p op st = Inr q"
  shows "I q"
  using applyDesignOpOn_applies [OF assms(3)]
proof
  assume "\<exists>spec app args. spec \<in> set specs \<and> spec_apply spec = Some app \<and> app (wire_context p) args = Inr (Some q)"
  then obtain spec app args where a: "spec \<in> set specs" "spec_apply spec = Some app" "app (wire_context p) args = Inr (Some q)" by blast
  then have "keeps_product I app" using assms(1) by (simp add: safe_spec_def)
  moreover have "cx_product (wire_context p) = p" by (simp add: wire_context_def)
  ultimately show ?thesis using a(3) assms(2) unfolding keeps_product_def by metis
qed (use assms(2) in simp)

lemma replay_kept:
  assumes "I p" "replay p st ops = Inr (q, st')"
  shows "I q"
  using assms
proof (induction ops arbitrary: p st)
  case (Cons op ops)
  then obtain r s where "applyDesignOpOn ASSEMBLY_COMMANDS p op (Some st) = Inr r" "replay r s ops = Inr (q, st')"
    by (auto simp: replay_def result_bind_Inr)
  then show ?case using Cons apply_design_op_kept [OF safe_table] by blast
qed (simp add: replay_def)

end

interpretation editing: edit_invariant editable
  by unfold_locales (fact editable_module editable_coupling editable_add editable_duplicate editable_swap editable_unlink
      editable_stack editable_insert editable_remove editable_count)+

section \<open>Addresses of the wire\<close>





section \<open>An opening picked in the palette\<close>

lemma choice_opens_brace: "startsWith (stringify (choice_json c)) ''{''"
  unfolding choice_json_members stringify.simps by (simp add: startsWith_def)

lemma choiceMatches_palette:
  "choiceMatches (Node (patch_fields d ((choicePatch c)\<lparr>panel_article_sku := Undef\<rparr>)) cs) c' \<longleftrightarrow> choice_key c' = choice_key c"
  by (simp add: choiceMatches_def choicePatch_def patch_fields_def choice_key_def PhysicalOpening_eq no_fields_def) auto

lemma structured_arg_choice:
  "palette_choice c \<Longrightarrow> structured_arg (stringify (choice_json c)) = Inr (Some (accepted_patch (choice_json c)))"
  by (simp add: structured_arg_def json_parse_stringify [OF choice_json_ok] structured_choice)

text \<open>The palette leaves the panel of the bay alone: its check drops the reset of the panel that the choice's patch carries.\<close>

lemma patch_keeps_panel:
  "patch_fields d ((choicePatch c)\<lparr>panel_article_sku := Undef\<rparr>) = (patch_fields d (choicePatch c))\<lparr>panel_article_sku := panel_article_sku d\<rparr>"
  by (simp add: patch_fields_def)

lemma primary_bay_mem:
  assumes "modulePrimaryBay m = Inr (Some b)"
  shows "b \<in> set (preorder (tree m))" "ntype b = BAY"
proof -
  have "target_bay m \<lparr>bd_type = SPLIT_H, bd_mullionSku = [], bd_offsetMm = None, bd_bayId = None\<rparr> = Inr (Some b)"
    using assms by (simp add: target_bay_def)
  note t = target_bay_mem [OF this]
  show "ntype b = BAY" by (rule t(3))
  have "set (preorder (inner_tree t')) \<subseteq> set (preorder t')" for t'
    by (cases t') (auto simp: inner_tree_def kids_def preorder_Node split: option.splits list.splits)
  then show "b \<in> set (preorder (tree m))" using t(2) by blast
qed

section \<open>Shortcuts of modules and bays\<close>

text \<open>Whenever the specification of a bay can be copied, so can that of its module, which comes first in the table and has the
  same shortcut.\<close>

lemma bay_copy_shadowed:
  assumes "offered ctx cmd_copy_bay_spec = Inr True"
  shows "offered ctx cmd_copy_spec = Inr True" "shortcut cmd_copy_spec = shortcut cmd_copy_bay_spec"
proof -
  obtain t where t: "selectedBayTarget ctx = Inr (Some t)" "cx_writeSpecClipboard ctx"
    using assms by (auto simp: offered_def cmd_copy_bay_spec_def new_command_def map_sum_Inr)
  then obtain u where "selectedTreeNode ctx = Inr (Some u)" by (auto simp: selectedBayTarget_def map_sum_Inr split: option.splits)
  then have "\<exists>m. selectedModuleScope ctx = Inr (Some m)" by (auto simp: selectedModuleScope_def split: option.split)
  then show "offered ctx cmd_copy_spec = Inr True" using t(2) by (auto simp: offered_def cmd_copy_spec_def new_command_def in_scope_def)
  show "shortcut cmd_copy_spec = shortcut cmd_copy_bay_spec" by (simp add: cmd_copy_spec_def cmd_copy_bay_spec_def new_command_def)
qed

section \<open>Samples\<close>

text \<open>A single module, and the wire operation that adds a unit on its right.\<close>

lemma sample_editable: "editable sample_product"
  using sample_product_wf by (simp add: editable_def) (simp add: sample_product_def wrapTreeAsProduct_def)



lemma sample_primary: "\<exists>b. modulePrimaryBay (sample_module ''m1'') = Inr (Some b) \<and> nid b = ''b1''"
  by (simp add: modulePrimaryBay_def sample_module_def inner_tree_def intentBays_def walkIntent_eq wf_ids_def tree_ids_preorder preorder_Node first_opt_def sample_defs kids_def)

definition sample_ctx :: Ctx where
  "sample_ctx = (wire_context sample_pair)\<lparr>cx_selection := Some ''m1''\<rparr>"

lemma sample_palette: "palette_choice sample_choice"
  by (simp add: palette_choice_def needs_code_def sample_choice_def base_choice_def cap_opening_def sample_cap_def)

section \<open>Properties\<close>

text \<open>
  C3. Commands keep the product editable: any product any command of the editor's table commits, in any
  context and with any arguments, is well formed, with couplings that name their modules and side-to-side
  joints across opposite sides, when the product the command found was; so it is for a removal that
  dispatches by selection, and for a repetition of the last mutation.
\<close>

theorem commands_keep_editable:
  assumes "spec \<in> set ASSEMBLY_COMMANDS" "editable (cx_product ctx)" "Commit q \<in> set (fst (runCommand ctx spec args))"
  shows "editable q"
  using editing.command_kept [OF assms(1,2)] assms(3) by (simp add: commits_def)

theorem commands_keep_witness:
  "\<exists>q. Commit q \<in> set (fst (runCommand (wire_context sample_product) (with_operation cmd_add_right) [])) \<and> editable q"
proof -
  obtain q where "addAdjacentUnit sample_product E_right None = Inr (Some q)" using sample_grow by blast
  then have q: "Commit q \<in> set (fst (runCommand (wire_context sample_product) (with_operation cmd_add_right) []))"
    by (simp add: runCommand_def wire_context_def with_operation_def cmd_add_right_def new_command_def run_then_def after_def)
  have "with_operation cmd_add_right \<in> set ASSEMBLY_COMMANDS" by (simp add: ASSEMBLY_COMMANDS_def DOMAIN_COMMANDS_def)
  moreover have "editable (cx_product (wire_context sample_product))" using sample_editable by (simp add: wire_context_def)
  ultimately show ?thesis using commands_keep_editable q by blast
qed





text \<open>
  C15. An opening picked in the palette arrives. The argument is the choice printed as JSON; the choice is one the
  palette's check admits (not bottom-hung, with a recipe exactly when its movement needs one, paired only as a left and a right
  leaf), and the module has a well-identified tree with a primary bay. Then the command always commits the product
  with that module's tree replaced by one that has the same nodes, in which the primary bay's members are overwritten by
  the choice's patch and nothing else changes, nominal dimensions of the envelope aside; of the patch only the reset of the panel is lost, because the
  check drops it, so the bay keeps the panel it had. That bay is then shown with this choice selected, and with another
  one only if it has the same key.
\<close>

theorem palette_opening_arrives:
  assumes "palette_choice c" "module_arg ctx args = Some i" "arg args ''opening'' = Some (stringify (choice_json c))"
    "find_module (cx_product ctx) i = Some m" "modulePrimaryBay m = Inr (Some b)" "wf_ids (tree m)" "root_ok (tree m)"
  shows "\<exists>t. apply_opening ctx args = Inr (Some (replaceModule (cx_product ctx) i (m\<lparr>tree := t\<rparr>))) \<and>
    wf_ids t \<and> tree_ids t = tree_ids (tree m) \<and> nid b \<in> set (tree_ids t) \<and>
    map omit_dims (datas t) = map (\<lambda>d. omit_dims (if node_id d = nid b
      then (patch_fields d (choicePatch c))\<lparr>panel_article_sku := panel_article_sku d\<rparr> else d)) (datas (tree m)) \<and>
    (\<forall>n \<in> set (preorder t). nid n = nid b \<longrightarrow> (choiceMatches n c' \<longleftrightarrow> choice_key c' = choice_key c))"
proof -
  let ?p = "(choicePatch c)\<lparr>panel_article_sku := Undef\<rparr>"
  obtain t where t: "updateBay (tree m) (nid b) ?p = Inr t"
    using updateBay_total [of "tree m" "nid b" ?p] primary_bay_mem [OF assms(5)] assms(6,7) by (auto simp: root_ok_def)
  have e: "wf_ids t \<and> tree_ids t = tree_ids (tree m) \<and> nid b \<in> set (tree_ids t) \<and>
      map omit_dims (datas t) = set_data (nid b) (\<lambda>d. patch_fields d ?p) (datas (tree m))"
    using update_bay.edit_Inr [of "tree m" "(nid b, ?p)" t] t by simp
  have "apply_opening ctx args = caught (Inr (setModuleTree (cx_product ctx) i t))"
    using assms(1-5) t by (simp add: apply_opening_def choice_opens_brace structured_arg_choice patch_of_choice)
  then have "apply_opening ctx args = Inr (Some (replaceModule (cx_product ctx) i (m\<lparr>tree := t\<rparr>)))"
    using assms(4) by (simp add: caught_def setModuleTree_def edit_tree_def)
  moreover have "\<forall>n \<in> set (preorder t). nid n = nid b \<longrightarrow> (choiceMatches n c' \<longleftrightarrow> choice_key c' = choice_key c)"
    using patch_recognised [OF t _ _ choiceMatches_palette] by blast
  ultimately show ?thesis using e unfolding set_data_def patch_keeps_panel by blast
qed

text \<open>A turning leaf of the palette reaches the first bay of the module shown, which is found selected.\<close>

theorem palette_opening_witness:
  "\<exists>t. apply_opening sample_ctx [(''opening'', stringify (choice_json sample_choice))]
      = Inr (Some (replaceModule sample_pair ''m1'' ((sample_module ''m1'')\<lparr>tree := t\<rparr>))) \<and>
    tree_ids t = [''root'', ''s1'', ''b1'', ''b2''] \<and> map node_opening (datas t) = [Undef, Undef, Val (ch_opening sample_choice), Undef]"
proof -
  obtain b where b: "modulePrimaryBay (sample_module ''m1'') = Inr (Some b)" "nid b = ''b1''" using sample_primary by blast
  have tr: "tree (sample_module ''m1'') = sample_tree" by (simp add: sample_module_def)
  have r: "root_ok sample_tree" by (simp add: root_ok_def sample_defs)
  have c: "cx_product sample_ctx = sample_pair" "cx_selection sample_ctx = Some ''m1''" by (simp_all add: sample_ctx_def wire_context_def)
  have m: "find_module (cx_product sample_ctx) ''m1'' = Some (sample_module ''m1'')" using c(1) sample_pair_find by simp
  have a: "module_arg sample_ctx [(''opening'', stringify (choice_json sample_choice))] = Some ''m1''"
    using m c by (simp add: module_arg_def arg_def selectedModule_def nonempty_def sample_module_def)
  obtain t where t: "apply_opening sample_ctx [(''opening'', stringify (choice_json sample_choice))]
      = Inr (Some (replaceModule sample_pair ''m1'' ((sample_module ''m1'')\<lparr>tree := t\<rparr>)))" "tree_ids t = tree_ids sample_tree"
    and d: "map omit_dims (datas t) = map (\<lambda>d. omit_dims (if node_id d = ''b1''
      then (patch_fields d (choicePatch sample_choice))\<lparr>panel_article_sku := panel_article_sku d\<rparr> else d)) (datas sample_tree)"
    using palette_opening_arrives [OF sample_palette a _ m b(1)] sample_wf r unfolding tr b(2) c(1) by (auto simp: arg_def)
  have o: "map node_opening (datas t) = map node_opening (map omit_dims (datas t))" by (simp add: omit_dims_def comp_def)
  have s: "datas sample_tree = map dat [sample_tree, hd (kids sample_tree), sample_bay ''b1'' O_TURN_LEFT, sample_bay ''b2'' O_FIXED]"
    by (simp add: datas_def sample_defs preorder_Node kids_def)
  have "map node_opening (datas t) = [Undef, Undef, Val (ch_opening sample_choice), Undef]"
    unfolding o d s by (simp add: sample_defs kids_def omit_dims_def patch_fields_def choicePatch_def)
  moreover have "tree_ids sample_tree = [''root'', ''s1'', ''b1'', ''b2'']" by (simp add: tree_ids_preorder sample_defs preorder_Node)
  ultimately show ?thesis using t by auto
qed

end
