(* ===== verification/DesignLibrary.thy ===== *)
theory DesignLibrary
  imports Openings Messages StructureProps EditProps "HOL-Library.State_Monad"
begin

text \<open>
  \<open>features/canvas/designLibrary.ts\<close>: the creation recipes of the library, those of the program and those of
  the catalog, each with the product it builds at a size. \<open>crypto.randomUUID()\<close> hands out the next
  identity of a supply \<open>uuid\<close>, a parameter; the builders thread the number of identities handed out in
  the order of the calls. That identities differ is a hypothesis of the properties. Numbers written in the
  code (\<open>0.65\<close>) are the doubles nearest to them.
\<close>

section \<open>Identities\<close>

type_synonym 'a built = "(nat, 'a) state"

definition randomUUID :: "(nat \<Rightarrow> string) \<Rightarrow> string built" where
  "randomUUID uuid = State (\<lambda>n. (uuid n, Suc n))"

section \<open>Builders\<close>

definition starterTree :: "(nat \<Rightarrow> string) \<Rightarrow> Opening \<Rightarrow> IntentNode built" where
  "starterTree uuid o' = do {
     i \<leftarrow> randomUUID uuid;
     State_Monad.return (Node ((new_node i BAY)\<lparr>opening_type := Val o',
       door_handedness := (if o' = O_DOOR_ENTRY then Val S_LEFT else Undef),
       sliding_layout := (case SLIDING_PRESETS o' of Some l \<Rightarrow> Val (declareSlidingTravel l) | None \<Rightarrow> Undef)\<rparr>) None)
   }"

record StarterDefinition =
  st_key :: string
  titleKey :: string
  hintKey :: string
  st_title :: "string option"
  st_hint :: "string option"
  nominal :: "(jsnum \<times> jsnum) option"
  previewLeaves :: "OpeningLeafFact list option"
  recipeCode :: "string option"
  build :: "jsnum \<Rightarrow> jsnum \<Rightarrow> ProductJson built"

definition starterTitle :: "StarterDefinition \<Rightarrow> string" where
  "starterTitle d = (case st_title d of Some s \<Rightarrow> s | None \<Rightarrow> translate (titleKey d))"

definition starterHint :: "StarterDefinition \<Rightarrow> string" where
  "starterHint d = (case st_hint d of Some s \<Rightarrow> s | None \<Rightarrow> translate (hintKey d))"

definition starterNominalSize :: "string \<Rightarrow> jsnum \<times> jsnum" where
  "starterNominalSize key =
     (if key = ''bow3'' \<or> key = ''bay3'' then (Fin 2400, Fin 1200)
      else if key = ''corner90'' then (Fin 2400, Fin 1200)
      else if key = ''bow5'' then (Fin 3000, Fin 1400)
      else if key = ''doorSide'' then (Fin 1600, Fin 2200)
      else if key = ''trapezoid'' then (Fin 2400, Fin 1400)
      else if key = ''arch'' then (Fin 1800, Fin 1600)
      else if key = ''sliding2'' \<or> key = ''slidingFixed'' then (Fin 1800, Fin 1400)
      else if key = ''sliding3'' then (Fin 2400, Fin 1400)
      else if key = ''awning'' \<or> key = ''awningBand'' then (Fin 1200, Fin 800)
      else if key = ''twoSash'' then (Fin 1400, Fin 1400)
      else (Fin 1200, Fin 1400))"

definition starterSize :: "StarterDefinition \<Rightarrow> jsnum \<times> jsnum" where
  "starterSize d = (case nominal d of Some s \<Rightarrow> s | None \<Rightarrow> starterNominalSize (st_key d))"

record AdvancedPreview =
  pv_recipe_code :: string
  pv_movement :: string
  pv_use :: string
  pv_opening_leaves :: "OpeningLeafFact list"
  pv_glass_sku :: "string option"
  pv_reason :: string

record StarterOptions = DesignOptions +
  advanced_previews :: "AdvancedPreview list option"

definition catalog_starter :: "(nat \<Rightarrow> string) \<Rightarrow> AdvancedPreview list \<Rightarrow> OpeningChoice \<Rightarrow> AdvancedRecipe \<Rightarrow> StarterDefinition" where
  "catalog_starter uuid previews choice recipe =
     (let preview = List.find (\<lambda>item. pv_recipe_code item = ar_code recipe \<and>
            pv_movement item = movement_str (movement (ch_opening choice)) \<and> pv_use item = use_str (ch_use choice)) previews
      in \<lparr>st_key = ''advanced-'' @ ch_id choice, titleKey = ''assembly.starter.fixed'', hintKey = ''assembly.starter.fixedHint'',
          st_title = Some (ar_name recipe),
          st_hint = Some (case map_option pv_reason preview of Some (c # cs) \<Rightarrow> c # cs
            | _ \<Rightarrow> (''Receta del cat'' @ ac_a @ ''logo '' @ mid_dot @ '' medidas iniciales declaradas'')),
          nominal = Some (str_num (starter_width_mm recipe), str_num (starter_height_mm recipe)),
          previewLeaves = Some (case preview of Some p \<Rightarrow> pv_opening_leaves p | None \<Rightarrow> []),
          recipeCode = Some (ar_code recipe),
          build = (\<lambda>w h. do {
            i \<leftarrow> randomUUID uuid;
            State_Monad.return (wrapTreeAsProduct (Node (patch_fields (new_node i BAY) (choicePatch choice)) None) (num_str w) (num_str h))
          })\<rparr>)"

definition catalogStarters :: "(nat \<Rightarrow> string) \<Rightarrow> StarterOptions option \<Rightarrow> StarterDefinition list" where
  "catalogStarters uuid options =
     (let previews = (case Option.bind options advanced_previews of Some ps \<Rightarrow> ps | None \<Rightarrow> [])
      in List.map_filter (\<lambda>choice. map_option (catalog_starter uuid previews choice) (ch_recipe choice))
           (openingChoices (map_option DesignOptions.truncate options)))"

definition coupledModules :: "(nat \<Rightarrow> string) \<Rightarrow> IntentNode \<Rightarrow> IntentNode \<Rightarrow> jsnum \<Rightarrow> jsnum \<Rightarrow> jsnum \<Rightarrow> ProductJson built" where
  "coupledModules uuid first second firstShare w h = do {
     a \<leftarrow> randomUUID uuid;
     b \<leftarrow> randomUUID uuid;
     c \<leftarrow> randomUUID uuid;
     State_Monad.return \<lparr>modules = [
         \<lparr>m_id = a, m_width_mm = toFixed 2 (js_mul w firstShare), m_height_mm = toFixed 2 h, tree = first, contour = None, frameless = None\<rparr>,
         \<lparr>m_id = b, m_width_mm = toFixed 2 (js_mul w (js_sub (Fin 1) firstShare)), m_height_mm = toFixed 2 h, tree = second, contour = None, frameless = None\<rparr>],
       couplings = [\<lparr>c_id = c, angle_deg = ''0.0'', coupler_profile_sku = None, kind = None, c_modules = None, c_edges = None\<rparr>]\<rparr>
   }"

text \<open>The \<open>splitBay\<close> of the library.\<close>

definition split_starter :: "(nat \<Rightarrow> string) \<Rightarrow> NodeType \<Rightarrow> IntentNode list \<Rightarrow> jsnum \<Rightarrow> jsnum \<Rightarrow> ProductJson built" where
  "split_starter uuid dir kids' w h = do {
     i \<leftarrow> randomUUID uuid;
     State_Monad.return (wrapTreeAsProduct (Node ((new_node i dir)\<lparr>
         split_offset_mm := Val (toFixed 2 (if dir = SPLIT_V then js_div w (Fin 2) else js_div h (Fin 2))), mullion_profile_sku := Null\<rparr>)
       (Some kids')) (toFixed 2 w) (toFixed 2 h))
   }"

definition bow_module :: "string \<Rightarrow> jsnum \<Rightarrow> jsnum \<Rightarrow> rat \<Rightarrow> IntentNode \<Rightarrow> ProductModuleJson" where
  "bow_module i w h share t = \<lparr>m_id = i, m_width_mm = num_str (js_div (js_round (js_mul (js_mul w (Fin share)) (Fin 100))) (Fin 100)),
     m_height_mm = num_str h, tree = t, contour = None, frameless = None\<rparr>"

definition in_line :: "string \<Rightarrow> string \<Rightarrow> string \<Rightarrow> string \<Rightarrow> CouplingJson" where
  "in_line i angle a b = \<lparr>c_id = i, angle_deg = angle, coupler_profile_sku = None, kind = Some INLINE, c_modules = Some (a, b),
     c_edges = Some (E_right, E_left)\<rparr>"

definition threeModuleBow :: "(nat \<Rightarrow> string) \<Rightarrow> jsnum \<Rightarrow> jsnum \<Rightarrow> string \<Rightarrow> ProductJson built" where
  "threeModuleBow uuid w h angle = do {
     t1 \<leftarrow> starterTree uuid O_TURN_LEFT;
     t2 \<leftarrow> starterTree uuid O_FIXED;
     t3 \<leftarrow> starterTree uuid O_TURN_RIGHT;
     a \<leftarrow> randomUUID uuid;
     b \<leftarrow> randomUUID uuid;
     c \<leftarrow> randomUUID uuid;
     j \<leftarrow> randomUUID uuid;
     k \<leftarrow> randomUUID uuid;
     State_Monad.return \<lparr>modules = [bow_module a w h (1 / 4) t1, bow_module b w h (1 / 2) t2, bow_module c w h (1 / 4) t3],
       couplings = [in_line j angle a b, in_line k angle b c]\<rparr>
   }"

definition transom :: "(nat \<Rightarrow> string) \<Rightarrow> jsnum \<Rightarrow> jsnum \<Rightarrow> ProductJson built" where
  "transom uuid w h = do {
     a \<leftarrow> randomUUID uuid;
     t1 \<leftarrow> starterTree uuid O_TILT_TURN_LEFT;
     b \<leftarrow> randomUUID uuid;
     t2 \<leftarrow> starterTree uuid O_FIXED;
     c \<leftarrow> randomUUID uuid;
     State_Monad.return \<lparr>modules = [
         \<lparr>m_id = a, m_width_mm = num_str w, m_height_mm = num_str (js_div (js_round (js_mul (js_mul h (Fin (3 / 4))) (Fin 100))) (Fin 100)),
          tree = t1, contour = None, frameless = None\<rparr>,
         \<lparr>m_id = b, m_width_mm = num_str w, m_height_mm = num_str (js_div (js_round (js_mul (js_mul h (Fin (1 / 4))) (Fin 100))) (Fin 100)),
          tree = t2, contour = None, frameless = None\<rparr>],
       couplings = [\<lparr>c_id = c, angle_deg = ''0'', coupler_profile_sku = None, kind = Some STACKED, c_modules = Some (a, b),
         c_edges = Some (E_top, E_bottom)\<rparr>]\<rparr>
   }"

definition single_module :: "ProductModuleJson \<Rightarrow> ProductJson" where
  "single_module m = \<lparr>modules = [m], couplings = []\<rparr>"

section \<open>The library\<close>

definition starter :: "string \<Rightarrow> (jsnum \<Rightarrow> jsnum \<Rightarrow> ProductJson built) \<Rightarrow> StarterDefinition" where
  "starter key b = \<lparr>st_key = key, titleKey = ''assembly.starter.'' @ key, hintKey = ''assembly.starter.'' @ key @ ''Hint'', st_title = None,
     st_hint = None, nominal = None, previewLeaves = None, recipeCode = None, build = b\<rparr>"

definition whole :: "(nat \<Rightarrow> string) \<Rightarrow> Opening \<Rightarrow> jsnum \<Rightarrow> jsnum \<Rightarrow> ProductJson built" where
  "whole uuid o' w h = do { t \<leftarrow> starterTree uuid o'; State_Monad.return (wrapTreeAsProduct t (toFixed 2 w) (toFixed 2 h)) }"

definition halves :: "(nat \<Rightarrow> string) \<Rightarrow> NodeType \<Rightarrow> Opening \<Rightarrow> Opening \<Rightarrow> jsnum \<Rightarrow> jsnum \<Rightarrow> ProductJson built" where
  "halves uuid dir x y w h = do { a \<leftarrow> starterTree uuid x; b \<leftarrow> starterTree uuid y; split_starter uuid dir [a, b] w h }"

definition coupled_pair :: "(nat \<Rightarrow> string) \<Rightarrow> Opening \<Rightarrow> Opening \<Rightarrow> rat \<Rightarrow> jsnum \<Rightarrow> jsnum \<Rightarrow> ProductJson built" where
  "coupled_pair uuid x y share w h = do { a \<leftarrow> starterTree uuid x; b \<leftarrow> starterTree uuid y; coupledModules uuid a b (rnd share) w h }"

definition one_module :: "(nat \<Rightarrow> string) \<Rightarrow> (IntentNode \<Rightarrow> ProductModuleJson) \<Rightarrow> ProductJson built" where
  "one_module uuid f = do { t \<leftarrow> starterTree uuid O_FIXED; State_Monad.return (single_module (f t)) }"

definition bow5_options :: "jsnum \<Rightarrow> jsnum \<Rightarrow> BowOptions" where
  "bow5_options w h = \<lparr>moduleCount = 5, widthMm = w, heightMm = h, angleDeg = Fin 15, bow_opening = None, bow_glassThicknessMm = None,
     bow_glassSpec = None, bow_glassArticleSku = Undef\<rparr>"

text \<open>\<open>product.assembly.couplings[0]!.angle_deg = "90"\<close>.\<close>

definition square_corner :: "ProductJson \<Rightarrow> ProductJson" where
  "square_corner p = p\<lparr>couplings := (case couplings p of c # cs \<Rightarrow> c\<lparr>angle_deg := ''90''\<rparr> # cs | [] \<Rightarrow> [])\<rparr>"

definition STARTER_DEFINITIONS :: "(nat \<Rightarrow> string) \<Rightarrow> StarterDefinition list" where
  "STARTER_DEFINITIONS uuid = [
     starter ''fixed'' (whole uuid O_FIXED),
     starter ''sash'' (whole uuid O_TILT_TURN_LEFT),
     starter ''twoSash'' (halves uuid SPLIT_V O_TILT_TURN_LEFT O_TILT_TURN_RIGHT),
     starter ''sliding2'' (whole uuid O_SLIDING_2L),
     starter ''sliding3'' (whole uuid O_SLIDING_3L),
     starter ''awning'' (whole uuid O_AWNING),
     starter ''awningBand'' (halves uuid SPLIT_H O_FIXED O_AWNING),
     starter ''coupled'' (coupled_pair uuid O_TILT_TURN_LEFT O_FIXED (1 / 2)),
     starter ''doorSide'' (coupled_pair uuid O_DOOR_ENTRY O_FIXED (65 / 100)),
     starter ''slidingFixed'' (coupled_pair uuid O_SLIDING_2L O_FIXED (55 / 100)),
     starter ''bow3'' (\<lambda>w h. threeModuleBow uuid w h ''22.5''),
     starter ''bay3'' (\<lambda>w h. threeModuleBow uuid w h ''45''),
     starter ''windowTransom'' (transom uuid),
     starter ''corner90'' (\<lambda>w h. do { p \<leftarrow> coupled_pair uuid O_FIXED O_FIXED (1 / 2) w h; State_Monad.return (square_corner p) }),
     starter ''bow5'' (\<lambda>w h. State_Monad.return (makeBowProduct (bow5_options w h))),
     starter ''trapezoid'' (\<lambda>w h. one_module uuid (makeTrapezoidModule ''m1'' (toFixed 2 w) (toFixed 2 h)
       (js_round (js_mul w (rnd (15 / 100)))) (js_round (js_mul w (rnd (15 / 100)))))),
     starter ''arch'' (\<lambda>w h. one_module uuid (makeArchModule ''m1'' (toFixed 2 w) (toFixed 2 h) (js_round (js_mul w (rnd (2 / 10)))))),
     starter ''frameless'' (\<lambda>w h. one_module uuid (makeFramelessModule ''m1'' (toFixed 2 w) (toFixed 2 h)))]"

definition starterContextSize :: "ProductJson option \<Rightarrow> jsnum \<times> jsnum" where
  "starterContextSize current = (case current of None \<Rightarrow> (Fin 1500, Fin 1200)
     | Some p \<Rightarrow> (totalModuleWidth p, js_Max (map (\<lambda>m. str_num (m_height_mm m)) (modules p))))"

section \<open>What the recipes build\<close>

text \<open>What the library relies on of \<open>crypto.randomUUID()\<close>: no identity is empty, and no two are equal.\<close>

definition supplies :: "(nat \<Rightarrow> string) \<Rightarrow> bool" where
  "supplies uuid \<longleftrightarrow> inj uuid \<and> [] \<notin> range uuid"

definition well_built :: "ProductJson \<Rightarrow> bool" where
  "well_built p \<longleftrightarrow> wf_product p \<and> (\<forall>m \<in> set (modules p). wf_ids (tree m))"

lemma supplied [simp]:
  assumes "supplies uuid"
  shows "uuid i = uuid j \<longleftrightarrow> i = j" "uuid i \<noteq> []" "[] \<noteq> uuid i"
  using assms by (auto simp: supplies_def inj_eq) (metis rangeI)+

lemma built_simps [simp]:
  "run_state (State_Monad.bind f g) n = (let (x, k) = run_state f n in run_state (g x) k)"
  "run_state (State_Monad.return x) n = (x, n)" "run_state (randomUUID uuid) n = (uuid n, Suc n)"
  by (cases f; simp add: State_Monad.bind_def) (simp_all add: State_Monad.return_def randomUUID_def)

lemma starterTree_run:
  "\<exists>d. run_state (starterTree uuid o') n = (Node d None, Suc n) \<and> node_id d = uuid n \<and> node_type d = BAY"
  by (simp add: starterTree_def new_node_def NodeFields.defs NodeData.defs)

lemma wf_ids_leaf: "wf_ids (Node d None) \<longleftrightarrow> node_id d \<noteq> []"
  by (auto simp: wf_ids_def tree_ids_preorder preorder_Node)

lemma wf_ids_split:
  "wf_ids (Node d (Some [Node x None, Node y None])) \<longleftrightarrow> distinct [node_id d, node_id x, node_id y] \<and> [] \<notin> {node_id d, node_id x, node_id y}"
  by (auto simp: wf_ids_def tree_ids_preorder preorder_Node)

lemma single_wf: "wf_product (single_module m)"
  by (simp add: single_module_def wf_product_def joints_def wf_graph_def ring_free_def sample_row_defs)

lemma pair_graph: "a \<noteq> b \<Longrightarrow> j_pair j = (a, b) \<Longrightarrow> wf_graph [a, b] [j]"
  by (auto simp: wf_graph_def claims_def ring_free_def)

lemma coupled_wf:
  assumes "m_id x \<noteq> m_id y" "c_modules c = None"
  shows "wf_product \<lparr>modules = [x, y], couplings = [c]\<rparr>"
proof -
  have "\<exists>j. joints \<lparr>modules = [x, y], couplings = [c]\<rparr> = [j] \<and> j_pair j = (m_id x, m_id y)"
    using assms(2) by (simp add: sample_row_defs)
  then show ?thesis using pair_graph [OF assms(1)] assms(2) by (auto simp: wf_product_def) (simp add: sample_row_defs)
qed

lemma joined_wf:
  assumes "m_id x \<noteq> m_id y" "c_modules c = Some (m_id x, m_id y)"
  shows "wf_product \<lparr>modules = [x, y], couplings = [c]\<rparr>"
  using assms by (intro wf_product_explicit) (auto simp: explicit_def explicit_joint_def resolve_one_def joint_def intro!: pair_graph)

lemma bow_wf:
  assumes "distinct [m_id x, m_id y, m_id z]" "j \<noteq> k"
  shows "wf_product \<lparr>modules = [x, y, z], couplings = [in_line j angle (m_id x) (m_id y), in_line k angle (m_id y) (m_id z)]\<rparr>"
proof (rule wf_product_explicit)
  let ?j = "explicit_joint (in_line j angle (m_id x) (m_id y))" and ?k = "explicit_joint (in_line k angle (m_id y) (m_id z))"
  have j: "?j = \<lparr>j_id = j, j_angle = angle, j_sku = None, j_pair = (m_id x, m_id y), j_edges = (E_right, E_left), j_kind = INLINE\<rparr>"
    "?k = \<lparr>j_id = k, j_angle = angle, j_sku = None, j_pair = (m_id y, m_id z), j_edges = (E_right, E_left), j_kind = INLINE\<rparr>"
    by (simp_all add: explicit_joint_simps in_line_def)
  have "wf_graph [m_id x, m_id y] [?j]" using assms(1) by (intro pair_graph) (simp_all add: j)
  then have "wf_graph (m_id z # [m_id x, m_id y]) (?k # [?j])"
    by (rule wf_graph_attach [where a = "m_id y" and e = E_right and e' = E_left])
      (use assms in \<open>auto simp: j claims_def\<close>)
  then have "wf_graph [m_id x, m_id y, m_id z] [?j, ?k]"
    using wf_graph_perm [of "m_id z # [m_id x, m_id y]" "[m_id x, m_id y, m_id z]" "?k # [?j]" "[?j, ?k]"] by (simp add: add_mset_commute)
  then show "wf_graph (module_ids \<lparr>modules = [x, y, z], couplings = [in_line j angle (m_id x) (m_id y), in_line k angle (m_id y) (m_id z)]\<rparr>)
      (map explicit_joint (couplings \<lparr>modules = [x, y, z], couplings = [in_line j angle (m_id x) (m_id y), in_line k angle (m_id y) (m_id z)]\<rparr>))" by simp
qed (simp_all add: in_line_def explicit_def)

lemma bow_module_simps: "m_id (bow_module i w h share t) = i" "tree (bow_module i w h share t) = t"
  by (simp_all add: bow_module_def)

text \<open>What one recipe builds, from any point of the supply.\<close>

definition sound_build :: "ProductJson built \<Rightarrow> bool" where
  "sound_build b \<longleftrightarrow> (\<forall>n. well_built (fst (run_state b n)))"

lemma whole_sound: "supplies uuid \<Longrightarrow> sound_build (whole uuid o' w h)"
  by (simp add: sound_build_def well_built_def whole_def wrapTreeAsProduct_wf starterTree_def)
    (simp add: wrapTreeAsProduct_def wf_ids_leaf new_node_def NodeFields.defs NodeData.defs)

lemma one_module_sound:
  assumes "supplies uuid" "\<And>t. tree (f t) = t"
  shows "sound_build (one_module uuid f)"
  using assms by (simp add: sound_build_def well_built_def one_module_def single_wf starterTree_def)
    (simp add: single_module_def wf_ids_leaf new_node_def NodeFields.defs NodeData.defs)

lemma halves_sound: "supplies uuid \<Longrightarrow> sound_build (halves uuid dir x y w h)"
  by (simp add: sound_build_def well_built_def halves_def split_starter_def wrapTreeAsProduct_wf starterTree_def)
    (simp add: wrapTreeAsProduct_def wf_ids_split new_node_def NodeFields.defs NodeData.defs)

lemma coupled_sound: "supplies uuid \<Longrightarrow> sound_build (coupled_pair uuid x y share w h)"
  by (simp add: sound_build_def well_built_def coupled_pair_def coupledModules_def coupled_wf starterTree_def)
    (simp add: wf_ids_leaf new_node_def NodeFields.defs NodeData.defs)

lemma corner_sound:
  "supplies uuid \<Longrightarrow> sound_build (do { p \<leftarrow> coupled_pair uuid x y share w h; State_Monad.return (square_corner p) })"
  by (simp add: sound_build_def well_built_def coupled_pair_def coupledModules_def coupled_wf starterTree_def square_corner_def)
    (simp add: wf_ids_leaf new_node_def NodeFields.defs NodeData.defs)

lemma three_sound: "supplies uuid \<Longrightarrow> sound_build (threeModuleBow uuid w h angle)"
  using bow_wf [of "bow_module a w h (1 / 4) t1" "bow_module b w h (1 / 2) t2" "bow_module c w h (1 / 4) t3" for a b c t1 t2 t3]
  by (simp add: sound_build_def well_built_def threeModuleBow_def starterTree_def bow_module_simps)
    (simp add: wf_ids_leaf new_node_def NodeFields.defs NodeData.defs)

lemma transom_sound: "supplies uuid \<Longrightarrow> sound_build (transom uuid w h)"
  by (simp add: sound_build_def well_built_def transom_def starterTree_def joined_wf)
    (simp add: wf_ids_leaf new_node_def NodeFields.defs NodeData.defs)

lemma bow_trees: "bow_loop opts share is rem' ms cs = (ms', cs') \<Longrightarrow> (\<forall>m \<in> set ms. wf_ids (tree m)) \<Longrightarrow> (\<forall>m \<in> set ms'. wf_ids (tree m))"
proof (induction "is" arbitrary: rem' ms cs)
  case (Cons i "is")
  have t: "wf_ids (makeBayTree (''m'' @ s) o' g x y)" for s o' g x y
    by (simp add: makeBayTree_def wf_ids_leaf new_node_def NodeFields.defs NodeData.defs)
  show ?case
    by (rule Cons.IH [OF Cons.prems(1) [unfolded bow_loop.simps Let_def]]) (use Cons.prems(2) t in \<open>auto\<close>)
qed simp

lemma bow5_sound: "sound_build (State_Monad.return (makeBowProduct (bow5_options w h)))"
proof -
  have "\<forall>m \<in> set (modules (makeBowProduct (bow5_options w h))). wf_ids (tree m)"
    by (simp add: makeBowProduct_def Let_def split: prod.split) (metis bow_trees empty_iff empty_set)
  then show ?thesis using makeBowProduct_wf(1) [of "bow5_options w h"]
    by (simp add: sound_build_def well_built_def bow5_options_def)
qed

lemma catalog_sound: "supplies uuid \<Longrightarrow> sound_build (build (catalog_starter uuid previews choice recipe) w h)"
  by (simp add: sound_build_def well_built_def catalog_starter_def Let_def wrapTreeAsProduct_wf)
    (simp add: wrapTreeAsProduct_def wf_ids_leaf patch_fields_id new_node_def NodeFields.defs NodeData.defs)

lemmas sound_builds = whole_sound one_module_sound halves_sound coupled_sound corner_sound three_sound transom_sound bow5_sound

text \<open>
  C17. Every recipe of the design library, of the program or of the catalog, builds a well-formed product at
  every size: a product with distinct modules, couplings that connect them without rings or shared edges, and in every
  module a tree with distinct identities, whatever identities were handed out before.
\<close>

theorem starters_well_built:
  assumes "supplies uuid" "d \<in> set (STARTER_DEFINITIONS uuid @ catalogStarters uuid options)" "run_state (build d w h) n = (p, k)"
  shows "wf_product p \<and> (\<forall>m \<in> set (modules p). wf_ids (tree m))"
proof -
  have t: "tree (makeTrapezoidModule i x y l r t) = t" "tree (makeArchModule i x y l t) = t" "tree (makeFramelessModule i x y t) = t" for i x y l r t
    by (simp_all add: makeTrapezoidModule_def makeArchModule_def makeFramelessModule_def Let_def)
  have "sound_build (build d w h)"
  proof (cases "d \<in> set (STARTER_DEFINITIONS uuid)")
    case True
    then show ?thesis
      unfolding STARTER_DEFINITIONS_def using sound_builds t assms(1) by (auto simp: starter_def)
  next
    case False
    then obtain previews choice recipe where "d = catalog_starter uuid previews choice recipe"
      using assms(2) by (auto simp: catalogStarters_def Let_def map_filter_def)
    then show ?thesis using catalog_sound [OF assms(1)] by simp
  qed
  then have "well_built (fst (run_state (build d w h) n))" by (simp add: sound_build_def)
  then show ?thesis using assms(3) by (simp add: well_built_def)
qed

text \<open>Identities of five letters and a count.\<close>

definition sample_uuid :: "nat \<Rightarrow> string" where
  "sample_uuid n = ''uuid-'' @ nat_str n"

lemma sample_supplies: "supplies sample_uuid"
  by (auto simp: supplies_def sample_uuid_def inj_def dec_str_inj)

theorem starters_witness:
  "\<exists>p k. run_state (build (starter ''windowTransom'' (transom sample_uuid)) (Fin 1200) (Fin 1400)) 0 = (p, k) \<and>
     wf_product p \<and> (\<forall>m \<in> set (modules p). wf_ids (tree m))"
proof -
  have "starter ''windowTransom'' (transom sample_uuid) \<in> set (STARTER_DEFINITIONS sample_uuid @ catalogStarters sample_uuid None)"
    by (simp add: STARTER_DEFINITIONS_def)
  from starters_well_built [OF sample_supplies this] show ?thesis by (metis surj_pair)
qed

text \<open>Every recipe of the program has its own key.\<close>

lemma starters_named: "distinct (map st_key (STARTER_DEFINITIONS uuid))"
  by (simp add: STARTER_DEFINITIONS_def starter_def)

end
