(* ===== verification/Members.thy ===== *)
theory Members
  imports Json
begin

text \<open>
  \<open>features/canvas/members.ts\<close> and \<open>chartFinish\<close> of \<open>finishColors.ts\<close>: the member widths the drawings use,
  resolved from the catalog with conventional fallbacks, and the same members under a finish or another
  material. Members of catalog records that the code only carries (a cross-section, the limits of a kit, the
  terms of a finish) are JSON values. The \<open>signature\<close> of the geometry, a cache key printed from the
  catalog as it was received, is left out.
\<close>

section \<open>Finishes\<close>

datatype FinishFace = Interior | Exterior

record FinishColor =
  col_code :: string
  col_rest :: json

record FinishCombination =
  fin_code :: string
  fin_interior :: string
  fin_exterior :: string
  fin_base :: "string option"
  fin_rest :: json

record FinishAuthority =
  fa_colors :: "FinishColor list"
  fa_handle_colors :: "FinishColor list option"
  combinations :: "FinishCombination list"

record ResolvedFinish =
  combination :: FinishCombination
  interior :: FinishColor
  exterior :: FinishColor
  rf_base :: "FinishColor option"
  profile_skus :: "(string \<times> string) list"
  handle_colors :: "FinishColor list"

definition chartFinish :: "FinishAuthority option \<Rightarrow> string \<Rightarrow> ResolvedFinish option" where
  "chartFinish authority code =
     (case authority of None \<Rightarrow> None
      | Some au \<Rightarrow> (case List.find (\<lambda>c. fin_code c = code) (combinations au) of None \<Rightarrow> None
          | Some c \<Rightarrow> (case (List.find (\<lambda>x. col_code x = fin_interior c) (fa_colors au), List.find (\<lambda>x. col_code x = fin_exterior c) (fa_colors au)) of
              (Some i, Some e) \<Rightarrow> Some \<lparr>combination = c, interior = i, exterior = e,
                 rf_base = List.find (\<lambda>x. Some (col_code x) = fin_base c) (fa_colors au), profile_skus = [],
                 handle_colors = (case fa_handle_colors au of None \<Rightarrow> [] | Some hs \<Rightarrow> hs)\<rparr>
            | _ \<Rightarrow> None)))"

section \<open>Members\<close>

record MemberSpec =
  ms_finish :: "ResolvedFinish option"
  faceFinish :: "FinishColor option"
  ms_sku :: "string option"
  ms_name :: "string field"
  material :: string
  faceWidthMm :: jsnum
  ms_section :: "json field"
  cornerCutDeg :: "jsnum field"

record ProfileChoice =
  pf_sku :: string
  role :: string
  pf_name :: string
  pf_material :: string
  pf_face_width_mm :: string
  pf_section :: "json field"
  corner_cut_deg :: "jsnum field"

record CouplerChoice =
  co_sku :: string
  co_name :: string
  co_material :: string
  co_face_width_mm :: string
  co_section :: "json field"

record GlazingBeadChoice =
  be_glass_thickness_mm :: string
  bead_width_mm :: string
  be_sku :: string
  be_section :: "json field"

record KitComponent =
  kc_sku :: string
  kc_name :: string
  qty :: string
  kc_unit :: string
  category :: string

record KitChoice =
  kit_sku :: string
  kit_name :: string
  contents :: "KitComponent list option"
  kit_rest :: json

text \<open>The members of a slot that the code reads.\<close>

record HandleSlot =
  slot_opening_type :: string
  leaf_handedness :: "string option"
  host_member_side :: string
  mounting_min_from_leaf_top_mm :: string
  mounting_max_from_leaf_top_mm :: string
  permitted_vertical_references :: "string list"

record HandlePolicy =
  policy_id :: string
  version :: int
  slots :: "HandleSlot list"

record MemberOptions =
  profiles :: "ProfileChoice list"
  coupler_profiles :: "CouplerChoice list"
  glazing_beads :: "GlazingBeadChoice list"
  hardware_kits :: "KitChoice list"
  handle_policy :: "HandlePolicy option"
  rebate_depth_mm :: string
  sash_overlap_mm :: string
  finish_authority :: "FinishAuthority option"

text \<open>\<open>MemberGeometry\<close>, whole.\<close>

record MemberSet =
  mg_finish :: "ResolvedFinish option"
  viewFace :: "FinishFace option"
  frame :: MemberSpec
  sash :: MemberSpec
  profileFor :: "(string \<Rightarrow> MemberSpec option) option"
  mullionV :: "MemberSpec option"
  mullionH :: "MemberSpec option"
  threshold :: "MemberSpec option"
  beadFor :: "string option \<Rightarrow> jsnum"
  beadSpecFor :: "string option \<Rightarrow> MemberSpec option"
  couplerFor :: "string option \<Rightarrow> MemberSpec option"
  kitFor :: "string option \<Rightarrow> KitChoice option"
  handlePolicy :: "HandlePolicy option"
  rebateMm :: jsnum
  sashOverlapMm :: jsnum

definition FB_frame :: jsnum where "FB_frame = Fin 60"
definition FB_sash :: jsnum where "FB_sash = Fin 72"
definition FB_mullion :: jsnum where "FB_mullion = Fin 70"
definition FB_threshold :: jsnum where "FB_threshold = Fin 30"
definition FB_bead :: jsnum where "FB_bead = Fin 18"
definition FB_rebate :: jsnum where "FB_rebate = Fin 20"
definition FB_sashOverlap :: jsnum where "FB_sashOverlap = Fin 8"

text \<open>\<open>Number.isFinite(w) && w > 0 ? w : fallback\<close>.\<close>

definition width_or :: "jsnum \<Rightarrow> jsnum \<Rightarrow> jsnum" where
  "width_or w fallback = (if isFinite w \<and> js_lt (Fin 0) w then w else fallback)"

definition or_null_field :: "'a field \<Rightarrow> 'a field" where
  "or_null_field f = (if f = Undef then Null else f)"

definition profiles_of :: "MemberOptions option \<Rightarrow> ProfileChoice list" where
  "profiles_of options = (case options of None \<Rightarrow> [] | Some o' \<Rightarrow> profiles o')"

definition has_role :: "MemberOptions option \<Rightarrow> string \<Rightarrow> bool" where
  "has_role options r \<longleftrightarrow> list_ex (\<lambda>p. role p = r) (profiles_of options)"

definition member_of :: "MemberOptions option \<Rightarrow> string \<Rightarrow> jsnum \<Rightarrow> MemberSpec" where
  "member_of options r fallbackWidth =
     (let profile = List.find (\<lambda>p. role p = r) (profiles_of options)
      in \<lparr>ms_finish = None, faceFinish = None, ms_sku = map_option pf_sku profile, ms_name = opt_null (map_option pf_name profile),
          material = (case profile of None \<Rightarrow> ''PVC'' | Some p \<Rightarrow> pf_material p),
          faceWidthMm = (case profile of None \<Rightarrow> fallbackWidth | Some p \<Rightarrow> width_or (str_num (pf_face_width_mm p)) fallbackWidth),
          ms_section = (case profile of None \<Rightarrow> Null | Some p \<Rightarrow> or_null_field (pf_section p)),
          cornerCutDeg = (case profile of None \<Rightarrow> Null | Some p \<Rightarrow> or_null_field (corner_cut_deg p))\<rparr>)"

definition coupler_spec :: "CouplerChoice \<Rightarrow> MemberSpec" where
  "coupler_spec item = \<lparr>ms_finish = None, faceFinish = None, ms_sku = Some (co_sku item), ms_name = Val (co_name item), material = co_material item,
     faceWidthMm = width_or (str_num (co_face_width_mm item)) FB_mullion, ms_section = or_null_field (co_section item), cornerCutDeg = Undef\<rparr>"

definition bead_spec :: "GlazingBeadChoice \<Rightarrow> MemberSpec" where
  "bead_spec bead = \<lparr>ms_finish = None, faceFinish = None, ms_sku = Some (be_sku bead), ms_name = Undef, material = ''PVC'',
     faceWidthMm = str_num (bead_width_mm bead), ms_section = or_null_field (be_section bead), cornerCutDeg = Undef\<rparr>"

definition couplers_of :: "MemberOptions option \<Rightarrow> (string \<times> MemberSpec) list" where
  "couplers_of options = (case options of None \<Rightarrow> [] | Some o' \<Rightarrow> map_new (map (\<lambda>item. (co_sku item, coupler_spec item)) (coupler_profiles o')))"

definition beads_of :: "MemberOptions option \<Rightarrow> (string \<times> MemberSpec) list" where
  "beads_of options = (case options of None \<Rightarrow> [] | Some o' \<Rightarrow> map_new (map (\<lambda>b. (be_glass_thickness_mm b, bead_spec b))
     (filter (\<lambda>b. isFinite (str_num (bead_width_mm b)) \<and> js_lt (Fin 0) (str_num (bead_width_mm b))) (glazing_beads o'))))"

definition kits_of :: "MemberOptions option \<Rightarrow> (string \<times> KitChoice) list" where
  "kits_of options = (case options of None \<Rightarrow> [] | Some o' \<Rightarrow> map_new (map (\<lambda>k. (kit_sku k, k)) (hardware_kits o')))"

definition withFinishMembers :: "MemberSet \<Rightarrow> ResolvedFinish \<Rightarrow> FinishFace \<Rightarrow> MemberSet" where
  "withFinishMembers base finish face =
     (let spec = (\<lambda>item. item\<lparr>ms_finish := Some finish, faceFinish := Some (case face of Interior \<Rightarrow> interior finish | Exterior \<Rightarrow> exterior finish)\<rparr>)
      in base\<lparr>mg_finish := Some finish, viewFace := Some face, frame := spec (frame base), sash := spec (sash base),
           mullionV := map_option spec (mullionV base), mullionH := map_option spec (mullionH base),
           threshold := map_option spec (threshold base),
           profileFor := Some (\<lambda>r. map_option spec (case profileFor base of None \<Rightarrow> None | Some f \<Rightarrow> f r)),
           beadSpecFor := (\<lambda>th. map_option spec (beadSpecFor base th)),
           couplerFor := (\<lambda>sku. map_option spec (couplerFor base sku))\<rparr>)"

definition base_members :: "MemberOptions option \<Rightarrow> FinishFace \<Rightarrow> MemberSet" where
  "base_members options face =
     (let couplers = couplers_of options; beads = beads_of options; kits = kits_of options;
          optional = (\<lambda>r fb. if has_role options r then Some (member_of options r fb) else None)
      in \<lparr>mg_finish = None, viewFace = Some face,
          frame = member_of options ''FRAME'' FB_frame,
          sash = member_of options (if has_role options ''SLIDING_SASH'' then ''SLIDING_SASH''
            else if has_role options ''DOOR_SASH'' then ''DOOR_SASH'' else ''SASH'') FB_sash,
          profileFor = Some (\<lambda>r. optional r FB_sash),
          mullionV = optional ''MULLION_V'' FB_mullion, mullionH = optional ''MULLION_H'' FB_mullion,
          threshold = optional ''THRESHOLD'' FB_threshold,
          beadFor = (\<lambda>th. case Option.bind th (map_of beads) of Some b \<Rightarrow> faceWidthMm b | None \<Rightarrow> FB_bead),
          beadSpecFor = (\<lambda>th. Option.bind th (map_of beads)),
          couplerFor = (\<lambda>sku. case sku of Some (c # cs) \<Rightarrow> map_of couplers (c # cs)
            | _ \<Rightarrow> (case couplers of [(_, only)] \<Rightarrow> Some only | _ \<Rightarrow> None)),
          kitFor = (\<lambda>sku. case sku of Some (c # cs) \<Rightarrow> map_of kits (c # cs) | _ \<Rightarrow> None),
          handlePolicy = Option.bind options handle_policy,
          rebateMm = (case options of None \<Rightarrow> FB_rebate | Some o' \<Rightarrow> width_or (str_num (rebate_depth_mm o')) FB_rebate),
          sashOverlapMm = (case options of None \<Rightarrow> FB_sashOverlap | Some o' \<Rightarrow>
            let v = str_num (sash_overlap_mm o') in if isFinite v \<and> js_le (Fin 0) v then v else FB_sashOverlap)\<rparr>)"

definition resolveMembers :: "MemberOptions option \<Rightarrow> string option \<Rightarrow> FinishFace \<Rightarrow> MemberSet" where
  "resolveMembers options finishCode face =
     (let base = base_members options face;
          finish = (case finishCode of Some (c # cs) \<Rightarrow> chartFinish (Option.bind options finish_authority) (c # cs) | _ \<Rightarrow> None)
      in case finish of Some f \<Rightarrow> withFinishMembers base f face | None \<Rightarrow> base)"

definition reSkinMembers :: "MemberSet \<Rightarrow> string \<Rightarrow> MemberSet" where
  "reSkinMembers base m =
     (let spec = (\<lambda>item. item\<lparr>material := m\<rparr>)
      in base\<lparr>frame := spec (frame base), sash := spec (sash base), mullionV := map_option spec (mullionV base),
           mullionH := map_option spec (mullionH base), threshold := map_option spec (threshold base),
           beadSpecFor := (\<lambda>th. map_option spec (beadSpecFor base th)), couplerFor := (\<lambda>sku. map_option spec (couplerFor base sku))\<rparr>)"

section \<open>Drawable members\<close>

definition drawn :: "jsnum \<Rightarrow> bool" where
  "drawn w \<longleftrightarrow> (\<exists>x. w = Fin x \<and> 0 < x)"

definition drawn_opt :: "MemberSpec option \<Rightarrow> bool" where
  "drawn_opt m \<longleftrightarrow> (\<forall>s. m = Some s \<longrightarrow> drawn (faceWidthMm s))"

definition drawable :: "MemberSet \<Rightarrow> bool" where
  "drawable g \<longleftrightarrow> drawn (faceWidthMm (frame g)) \<and> drawn (faceWidthMm (sash g)) \<and> drawn_opt (mullionV g) \<and> drawn_opt (mullionH g) \<and>
     drawn_opt (threshold g) \<and> (\<forall>f r. profileFor g = Some f \<longrightarrow> drawn_opt (f r)) \<and> (\<forall>th. drawn (beadFor g th)) \<and>
     (\<forall>th. drawn_opt (beadSpecFor g th)) \<and> (\<forall>sku. drawn_opt (couplerFor g sku)) \<and> drawn (rebateMm g) \<and>
     (\<exists>x. sashOverlapMm g = Fin x \<and> 0 \<le> x)"

lemma drawn_positive: "isFinite w \<Longrightarrow> js_lt (Fin 0) w \<Longrightarrow> drawn w"
  by (cases w) (simp_all add: drawn_def)

lemma finite_nonneg: "isFinite w \<Longrightarrow> js_le (Fin 0) w \<Longrightarrow> \<exists>x. w = Fin x \<and> 0 \<le> x"
  by (cases w) (auto simp: js_le_def js_eq_def)

lemma drawn_width_or [simp]: "drawn fb \<Longrightarrow> drawn (width_or w fb)"
  using drawn_positive by (simp add: width_or_def)

lemma drawn_fallbacks [simp]: "drawn FB_frame" "drawn FB_sash" "drawn FB_mullion" "drawn FB_threshold" "drawn FB_bead" "drawn FB_rebate"
  by (simp_all add: drawn_def FB_frame_def FB_sash_def FB_mullion_def FB_threshold_def FB_bead_def FB_rebate_def)

lemma drawn_member [simp]: "drawn fb \<Longrightarrow> drawn (faceWidthMm (member_of options r fb))"
  by (simp add: member_of_def Let_def split: option.split)

lemma map_new_values: "(k, v) \<in> set (map_new kvs) \<Longrightarrow> (k, v) \<in> set kvs"
proof -
  have "set (fold (\<lambda>(k, v) m. AList.update k v m) kvs m) \<subseteq> set m \<union> set kvs" for m
  proof (induction kvs arbitrary: m)
    case (Cons x kvs)
    have "set (AList.update (fst x) (snd x) m) \<subseteq> insert x (set m)" by (induction m) (auto split: if_splits)
    then show ?case using Cons [of "AList.update (fst x) (snd x) m"] by (auto simp: case_prod_unfold)
  qed simp
  from this [of "[]"] show "(k, v) \<in> set (map_new kvs) \<Longrightarrow> (k, v) \<in> set kvs" by (auto simp: map_new_def)
qed

lemma drawn_beads: "(k, b) \<in> set (beads_of options) \<Longrightarrow> drawn (faceWidthMm b)"
  by (auto simp: beads_of_def bead_spec_def drawn_positive split: option.splits dest!: map_new_values)

lemma drawn_couplers: "(k, c) \<in> set (couplers_of options) \<Longrightarrow> drawn (faceWidthMm c)"
  by (auto simp: couplers_of_def coupler_spec_def split: option.splits dest!: map_new_values)

lemma base_drawable: "drawable (base_members options face)"
proof -
  have "drawn_opt (if has_role options r then Some (member_of options r fb) else None)" if "drawn fb" for r fb
    using that by (simp add: drawn_opt_def)
  moreover have "drawn (case Option.bind th (map_of (beads_of options)) of Some b \<Rightarrow> faceWidthMm b | None \<Rightarrow> FB_bead)" for th
    by (cases th) (auto split: option.split dest!: map_of_SomeD drawn_beads)
  moreover have "drawn_opt (Option.bind th (map_of (beads_of options)))" for th
    by (cases th) (auto simp: drawn_opt_def dest!: map_of_SomeD drawn_beads)
  moreover have "drawn_opt (couplerFor (base_members options face) sku)" for sku
  proof -
    have "\<exists>k. (k, c) \<in> set (couplers_of options)" if "couplerFor (base_members options face) sku = Some c" for c
      using that map_of_SomeD by (fastforce simp: base_members_def Let_def split: option.split_asm list.split_asm)
    then show ?thesis using drawn_couplers by (auto simp: drawn_opt_def)
  qed
  moreover have "\<exists>x. sashOverlapMm (base_members options face) = Fin x \<and> 0 \<le> x"
    using finite_nonneg by (simp add: base_members_def Let_def FB_sashOverlap_def split: option.split)
  ultimately show ?thesis unfolding drawable_def by (simp add: base_members_def Let_def split: option.split)
qed

text \<open>
  C19. Whatever the catalog declares, the drawing has members it can draw: every width that \<open>resolveMembers\<close>
  gives, of frame, sash, mullions, threshold, beads, couplers and of any role, and the rebate, is a finite
  positive number, and the sash overlap is finite and not negative; a finish or another material changes none of them.
\<close>

theorem members_drawable:
  "drawable (resolveMembers options finishCode face) \<and> drawable (reSkinMembers (resolveMembers options finishCode face) m)"
proof -
  have o: "drawn_opt (map_option f s) \<longleftrightarrow> drawn_opt s" if "\<And>s. faceWidthMm (f s) = faceWidthMm s" for f s
    using that by (auto simp: drawn_opt_def)
  have f: "drawable (withFinishMembers g fin fc)" if "drawable g" for g fin fc
  proof -
    have "drawn_opt (case profileFor g of None \<Rightarrow> None | Some f \<Rightarrow> f r)" for r
      using that by (auto simp: drawable_def drawn_opt_def split: option.splits)
    then show ?thesis using that by (simp add: drawable_def withFinishMembers_def Let_def o)
  qed
  have r: "drawable (reSkinMembers g m)" if "drawable g" for g using that by (simp add: drawable_def reSkinMembers_def Let_def o)
  have "drawable (resolveMembers options finishCode face)"
    using base_drawable f by (simp add: resolveMembers_def Let_def split: option.split list.split)
  then show ?thesis using r by blast
qed

end
