(* ===== verification/ObjectTree.thy ===== *)
theory ObjectTree
  imports Members Openings Messages StructureProps EditProps
begin

text \<open>
  \<open>features/canvas/objectTree.ts\<close>: the rows of the product's object tree, what each shows and what it selects.
  The translation function and the resolved members are arguments, as in the code; the counter of bays that
  the rows of a module share is threaded. What is proved is which parts of the product the rows select.
\<close>

section \<open>Rows\<close>

datatype RowKind = K_ROOT | K_MODULE | K_BAY | K_MEMBER | K_GLAZING | K_HANDLE | K_MULLION | K_COUPLER | K_PANEL

datatype Severity = Sev_error | Sev_warning

datatype TreeNode = Row (row_id: string) (label: string) (detail: "string option") (row_kind: RowKind) (severity: "Severity option")
  (selectId: "string option") (ariaLabel: "string option") (row_children: "TreeNode list")

record ProductIssue =
  issue_severity :: string
  issue_target :: string

record RowOptions =
  row_glass_specs :: "(string \<times> string option) list"
  row_coupler_profiles :: "(string \<times> string) list"

fun LEAF_KIND :: "Opening \<Rightarrow> string" where
  "LEAF_KIND O_FIXED = ''intent.fixed''"
| "LEAF_KIND O_TURN_LEFT = ''intent.turnLeft''"
| "LEAF_KIND O_TURN_RIGHT = ''intent.turnRight''"
| "LEAF_KIND O_TILT_TURN_LEFT = ''intent.tiltLeft''"
| "LEAF_KIND O_TILT_TURN_RIGHT = ''intent.tiltRight''"
| "LEAF_KIND O_AWNING = ''intent.awning''"
| "LEAF_KIND O_SLIDING_2L = ''intent.sliding''"
| "LEAF_KIND O_SLIDING_3L = ''intent.sliding3''"
| "LEAF_KIND O_SLIDING_4L = ''intent.sliding4''"
| "LEAF_KIND O_SLIDING = ''intent.slidingLayout''"
| "LEAF_KIND O_DOOR_ENTRY = ''intent.door''"
| "LEAF_KIND O_DOOR_DOUBLE = ''intent.door''"

text \<open>The loop of \<open>severityFor\<close>, with the worst severity so far.\<close>

fun worst_severity :: "Severity option \<Rightarrow> ProductIssue list \<Rightarrow> string \<Rightarrow> Severity option" where
  "worst_severity worst [] target = worst"
| "worst_severity worst (issue # issues) target =
     (if issue_target issue \<noteq> target then worst_severity worst issues target
      else if issue_severity issue = ''error'' then Some Sev_error
      else worst_severity (Some Sev_warning) issues target)"

definition severityFor :: "ProductIssue list \<Rightarrow> string \<Rightarrow> Severity option" where
  "severityFor issues target = worst_severity None issues target"

text \<open>A text member that is there and not empty.\<close>

definition truthy_text :: "string field \<Rightarrow> string option" where
  "truthy_text f = (case f of Val (c # cs) \<Rightarrow> Some (c # cs) | _ \<Rightarrow> None)"

definition named_member :: "MemberSpec \<Rightarrow> string option" where
  "named_member m = (case field_opt (ms_name m) of Some s \<Rightarrow> Some s | None \<Rightarrow> ms_sku m)"

definition glass_detail :: "(string \<times> string) list \<Rightarrow> NodeData \<Rightarrow> string option" where
  "glass_detail glassNames d =
     (let th = map_option (\<lambda>s. s @ '' mm'') (truthy_text (glass_thickness_mm d));
          nm = (case Option.bind (truthy_text (glass_article_sku d)) (map_of glassNames) of Some s \<Rightarrow> Some s | None \<Rightarrow> field_opt (glass_spec d));
          parts = filter (\<lambda>s. s \<noteq> []) (List.map_filter (\<lambda>x. x) [th, nm])
      in if parts = [] then None else Some (join_with ('' '' @ mid_dot @ '' '') parts))"

definition bayChildren :: "IntentNode \<Rightarrow> string \<Rightarrow> MemberSet \<Rightarrow> (string \<Rightarrow> string) \<Rightarrow> (string \<times> string) list \<Rightarrow> TreeNode list" where
  "bayChildren node moduleId geo t glassNames =
     (let path = moduleId @ ''/'' @ nid node; d = dat node;
          operable = (visualOpening node \<noteq> O_FIXED);
          fixed_sash = (case node_opening d of Val o' \<Rightarrow> fixed_in_sash o' | _ \<Rightarrow> False)
      in (if operable \<or> fixed_sash then
            Row (path @ ''/sash'') (t ''tree.sash'') (named_member (sash geo)) K_MEMBER None (Some path) None [] #
            (if operable then [Row (path @ ''/handle'') (t ''tree.handle'') (map_option (\<lambda>s. s @ '' mm'') (truthy_text (handle_height_mm d)))
               K_HANDLE None (Some path) None []] else [])
          else []) @
         (case truthy_text (panel_article_sku d) of
            Some s \<Rightarrow> [Row (path @ ''/panel'') (t ''tree.panel'') (Some s) K_PANEL None (Some path) None []]
          | None \<Rightarrow> [Row (path @ ''/glass'') (t ''tree.glass'') (glass_detail glassNames d) K_GLAZING None (Some path) None []]))"

lemma Suc_double_less: "k < n \<Longrightarrow> Suc (2 * k) < 2 * (n :: nat)"
  by simp

lemma size_list_kids: "size_list size (kids n) < size n"
  by (cases n; cases "children n") simp_all

text \<open>The rows of a node and of a list of nodes, with the bays counted so far.\<close>

function (sequential) intentRows :: "MemberSet \<Rightarrow> (string \<Rightarrow> string) \<Rightarrow> string \<Rightarrow> string \<Rightarrow> (string \<times> string) list \<Rightarrow>
      IntentNode \<Rightarrow> nat \<Rightarrow> TreeNode list \<times> nat"
  and intentRowsAll :: "MemberSet \<Rightarrow> (string \<Rightarrow> string) \<Rightarrow> string \<Rightarrow> string \<Rightarrow> (string \<times> string) list \<Rightarrow>
      IntentNode list \<Rightarrow> nat \<Rightarrow> TreeNode list \<times> nat" where
  "intentRows geo t moduleId moduleLabel' glassNames node n =
     (let path = moduleId @ ''/'' @ nid node
      in if ntype node = BAY then
           (let label' = (case physicalNodeLabel node of Some l \<Rightarrow> l | None \<Rightarrow> t (LEAF_KIND (visualOpening node)))
            in ([Row path label' None K_BAY None (Some path)
                  (Some (label' @ ('' '' @ mid_dot @ '' '') @ t ''tree.bay'' @ '' '' @ nat_str (Suc n) @ ('' '' @ mid_dot @ '' '') @ moduleLabel'))
                  (bayChildren node moduleId geo t glassNames)], Suc n))
         else let (rows, k) = intentRowsAll geo t moduleId moduleLabel' glassNames (kids node) n
              in if ntype node = SPLIT_V \<or> ntype node = SPLIT_H then
                   ([Row path (if ntype node = SPLIT_V then t ''tree.mullionV'' else t ''tree.mullionH'')
                      (case Option.bind (if ntype node = SPLIT_V then mullionV geo else mullionH geo) (\<lambda>m. field_opt (ms_name m)) of
                         Some s \<Rightarrow> Some s | None \<Rightarrow> field_opt (mullion_profile_sku (dat node)))
                      K_MULLION None (Some path) None rows], k)
                 else (rows, k))"
| "intentRowsAll geo t moduleId moduleLabel' glassNames [] n = ([], n)"
| "intentRowsAll geo t moduleId moduleLabel' glassNames (c # cs) n =
     (let (rows, k) = intentRows geo t moduleId moduleLabel' glassNames c n;
          (rest, j) = intentRowsAll geo t moduleId moduleLabel' glassNames cs k
      in (rows @ rest, j))"
  by pat_completeness auto
termination
  by (relation "measure (case_sum (\<lambda>(_, _, _, _, _, node, _). 2 * size node) (\<lambda>(_, _, _, _, _, ns, _). Suc (2 * size_list size ns)))")
    (auto intro: Suc_double_less size_list_kids)

definition module_row :: "MemberSet \<Rightarrow> ProductIssue list \<Rightarrow> (string \<Rightarrow> string) \<Rightarrow> (string \<times> string) list \<Rightarrow> nat \<Rightarrow> ProductModuleJson \<Rightarrow> TreeNode" where
  "module_row geo issues t glassNames index m =
     (let name = t ''tree.module'' @ '' '' @ nat_str (Suc index)
      in Row (''module:'' @ m_id m) name
           (Some (num_str (str_num (m_width_mm m)) @ ('' '' @ times_sign @ '' '') @ num_str (str_num (m_height_mm m)) @ '' mm''))
           K_MODULE (severityFor issues (''module:'' @ m_id m)) (Some (m_id m)) None
           (Row (m_id m @ ''/frame'') (t ''tree.frame'') (named_member (frame geo)) K_MEMBER None (Some (m_id m)) None [] #
            fst (intentRows geo t (m_id m) name glassNames (tree m) 0)))"

definition coupling_row :: "ProductIssue list \<Rightarrow> (string \<Rightarrow> string) \<Rightarrow> (string \<times> string) list \<Rightarrow> CouplingJson \<Rightarrow> TreeNode" where
  "coupling_row issues t couplerNames c =
     Row (''coupling:'' @ c_id c) (t ''tree.coupler'')
       (Some ((case map_of couplerNames (case coupler_profile_sku c of Some s \<Rightarrow> s | None \<Rightarrow> []) of
                 Some nm \<Rightarrow> nm | None \<Rightarrow> (case coupler_profile_sku c of Some s \<Rightarrow> s | None \<Rightarrow> ''?''))
              @ ('' '' @ mid_dot @ '' '') @ angle_deg c @ degree))
       K_COUPLER (severityFor issues (''coupling:'' @ c_id c)) (Some (c_id c)) None []"

definition buildObjectTree :: "ProductJson \<Rightarrow> MemberSet \<Rightarrow> ProductIssue list \<Rightarrow> (string \<Rightarrow> string) \<Rightarrow> RowOptions option \<Rightarrow> TreeNode" where
  "buildObjectTree p geo issues t options =
     (let glassNames = map_new (List.map_filter (\<lambda>(sku, spec). case spec of Some (c # cs) \<Rightarrow> Some (sku, c # cs) | _ \<Rightarrow> None)
            (case options of None \<Rightarrow> [] | Some o' \<Rightarrow> row_glass_specs o'));
          couplerNames = map_new (case options of None \<Rightarrow> [] | Some o' \<Rightarrow> row_coupler_profiles o');
          rows = concat (map (\<lambda>(index, m). module_row geo issues t glassNames index m #
            (case nth_opt (couplings p) index of None \<Rightarrow> [] | Some c \<Rightarrow> [coupling_row issues t couplerNames c])) (entries (modules p)));
          totalW = foldl (\<lambda>sum m. js_add sum (str_num (m_width_mm m))) (Fin 0) (modules p);
          height = js_Max (map (\<lambda>m. str_num (m_height_mm m)) (modules p))
      in Row ''root'' (t ''tree.product'')
           (Some (num_str totalW @ ('' '' @ times_sign @ '' '') @ num_str height @ ('' mm '' @ mid_dot @ '' '') @ nat_str (length (modules p)) @ '' '' @
              t (if length (modules p) = 1 then ''tree.unitsOne'' else ''tree.units'')))
           K_ROOT None None None rows)"

section \<open>What the rows select\<close>

fun all_rows :: "TreeNode \<Rightarrow> TreeNode list" where
  "all_rows (Row i l d k s sel a cs) = Row i l d k s sel a cs # concat (map all_rows cs)"

definition selected_by :: "TreeNode list \<Rightarrow> string option set" where
  "selected_by rs = (\<Union>r \<in> set rs. selectId ` set (all_rows r))"

definition bays_closed :: "IntentNode \<Rightarrow> bool" where
  "bays_closed t \<longleftrightarrow> (\<forall>x \<in> set (preorder t). ntype x = BAY \<longrightarrow> kids x = [])"

definition node_paths :: "string \<Rightarrow> IntentNode \<Rightarrow> string option set" where
  "node_paths i t = {Some (i @ ''/'' @ nid x) | x. x \<in> set (preorder t) \<and> ntype x \<noteq> ROOT}"

lemma node_pathsI: "x \<in> set (preorder t) \<Longrightarrow> nid x = j \<Longrightarrow> ntype x = BAY \<Longrightarrow> Some (i @ ''/'' @ j) \<in> node_paths i t"
  by (auto simp: node_paths_def intro!: exI [of _ x])

lemma selected_by_simps [simp]:
  "selected_by [] = {}" "selected_by (r # rs) = selectId ` set (all_rows r) \<union> selected_by rs" "selected_by (rs @ rs') = selected_by rs \<union> selected_by rs'"
  by (auto simp: selected_by_def)

lemma all_rows_select [simp]:
  "selectId ` set (all_rows (Row i l d k s sel a cs)) = insert sel (selected_by cs)"
  by (auto simp: selected_by_def)

lemma bayChildren_select: "selected_by (bayChildren node i geo t names) = {Some (i @ ''/'' @ nid node)}"
  by (simp add: bayChildren_def Let_def del: all_rows.simps split: option.split)

lemma preorder_set: "set (preorder n) = insert n (\<Union>c \<in> set (kids n). set (preorder c))"
  by (subst preorder.simps) auto

lemma intentRows_select:
  "bays_closed node \<Longrightarrow> selected_by (fst (intentRows geo t i name names node n)) = node_paths i node"
  "\<forall>c \<in> set cs. bays_closed c \<Longrightarrow> selected_by (fst (intentRowsAll geo t i name names cs n)) = (\<Union>c \<in> set cs. node_paths i c)"
proof (induction geo t i name names node n and geo t i name names cs n rule: intentRows_intentRowsAll.induct)
  case (1 geo t i name names node n)
  have closed: "\<forall>c \<in> set (kids node). bays_closed c" using 1(2) by (auto simp: bays_closed_def preorder_set [of node])
  have paths: "node_paths i node = (if ntype node = ROOT then {} else {Some (i @ ''/'' @ nid node)}) \<union> (\<Union>c \<in> set (kids node). node_paths i c)"
    by (auto simp: node_paths_def preorder_set [of node])
  show ?case
  proof (cases "ntype node = BAY")
    case True
    then have "kids node = []" using 1(2) by (auto simp: bays_closed_def preorder_set [of node])
    then show ?thesis using True paths by (simp add: Let_def bayChildren_select del: all_rows.simps)
  next
    case False
    obtain rows k where r: "intentRowsAll geo t i name names (kids node) n = (rows, k)" by fastforce
    have "selected_by rows = (\<Union>c \<in> set (kids node). node_paths i c)" using 1(1) [OF refl False closed] r by simp
    then show ?thesis using False paths by (cases "ntype node") (simp_all add: Let_def r del: all_rows.simps)
  qed
next
  case (3 geo t i name names c cs n)
  obtain rows k where r: "intentRows geo t i name names c n = (rows, k)" by fastforce
  obtain rest j where q: "intentRowsAll geo t i name names cs k = (rest, j)" by fastforce
  show ?case using 3(1) 3(2) [OF r [symmetric] refl] 3(3) r q by simp
qed simp

section \<open>A row for every coupling\<close>

text \<open>Without rings there are fewer couplings than modules: each coupling joins two groups of modules.\<close>

definition groups :: "string set \<Rightarrow> (string \<times> string) set \<Rightarrow> string set set" where
  "groups V E = (\<lambda>v. {u \<in> V. (v, u) \<in> conn E}) ` V"

lemma groups_join:
  assumes "finite V" "a \<in> V" "b \<in> V" "(a, b) \<notin> conn E"
  shows "card (groups V (insert (a, b) E)) < card (groups V E)"
proof -
  let ?E = "insert (a, b) E" and ?f = "\<lambda>C. {u \<in> V. \<exists>v \<in> C. (v, u) \<in> conn (insert (a, b) E)}"
  have f: "?f {u \<in> V. (v, u) \<in> conn E} = {u \<in> V. (v, u) \<in> conn ?E}" if "v \<in> V" for v
  proof -
    have "(v, u) \<in> conn ?E" if "(v, v') \<in> conn E" "(v', u) \<in> conn ?E" for v' u
      using conn_trans [OF subsetD [OF conn_mono that(1)] that(2)] by blast
    moreover have "v \<in> {u \<in> V. (v, u) \<in> conn E}" using that by simp
    ultimately show ?thesis by blast
  qed
  have im: "?f ` groups V E = groups V ?E" using f unfolding groups_def image_image by (intro image_cong) auto
  have ab: "(a, b) \<in> conn ?E" by (rule conn_edge) simp
  have "?f {u \<in> V. (a, u) \<in> conn E} = ?f {u \<in> V. (b, u) \<in> conn E}"
    using conn_trans [OF ab] conn_trans [OF conn_sym [OF ab]] unfolding f [OF assms(2)] f [OF assms(3)] by blast
  moreover have "{u \<in> V. (a, u) \<in> conn E} \<noteq> {u \<in> V. (b, u) \<in> conn E}"
  proof
    assume "{u \<in> V. (a, u) \<in> conn E} = {u \<in> V. (b, u) \<in> conn E}"
    moreover have "b \<in> {u \<in> V. (b, u) \<in> conn E}" using assms(3) by simp
    ultimately have "b \<in> {u \<in> V. (a, u) \<in> conn E}" by simp
    then show False using assms(4) by simp
  qed
  moreover have "{u \<in> V. (a, u) \<in> conn E} \<in> groups V E" "{u \<in> V. (b, u) \<in> conn E} \<in> groups V E"
    using assms(2,3) unfolding groups_def by blast+
  ultimately have "\<not> inj_on ?f (groups V E)" unfolding inj_on_def by blast
  moreover have fin: "finite (groups V E)" using assms(1) by (simp add: groups_def)
  ultimately have "card (?f ` groups V E) < card (groups V E)" using card_image_le [OF fin, of ?f] eq_card_imp_inj_on [OF fin, of ?f] by linarith
  then show ?thesis by (simp only: im)
qed

lemma ring_free_count:
  assumes "finite V" "ring_free (mset es)" "\<forall>e \<in> set es. fst e \<in> V \<and> snd e \<in> V"
  shows "length es + card (groups V (set es)) \<le> card V"
  using assms(2,3)
proof (induction es)
  case Nil
  then show ?case using card_image_le [OF assms(1)] by (simp add: groups_def)
next
  case (Cons e es)
  have "e \<notin> conn (set es)" using Cons.prems(1) by (simp add: ring_free_def)
  then have "card (groups V (set (e # es))) < card (groups V (set es))"
    using groups_join [OF assms(1), of "fst e" "snd e" "set es"] Cons.prems(2) by simp
  moreover have "ring_free (mset es)" using ring_free_subset [OF Cons.prems(1)] by simp
  ultimately show ?case using Cons by auto
qed

lemma couplings_fewer:
  assumes "wf_product p"
  shows "length (couplings p) \<le> length (modules p)"
proof -
  have g: "wf_graph (module_ids p) (joints p)" "length (joints p) = length (couplings p)" "distinct (module_ids p)"
    using wf_product_parts(1,2,3) [OF assms] by (simp_all add: joints_def)
  have "ring_free (mset (map j_pair (joints p)))" "\<forall>e \<in> set (map j_pair (joints p)). fst e \<in> set (module_ids p) \<and> snd e \<in> set (module_ids p)"
    using g(1) by (auto simp: wf_graph_def)
  from ring_free_count [OF _ this] show ?thesis using g(2) distinct_card [OF g(3)] by simp
qed

section \<open>Property\<close>

text \<open>
  C16. The object tree and the product select the same things: over all rows of the tree of a well-formed product
  whose bays hold no further nodes, what a click selects is exactly the whole product (nothing), every
  module, every coupling, and every bay and division of every module.
\<close>

theorem object_tree_selects:
  assumes "wf_product p" "\<forall>m \<in> set (modules p). bays_closed (tree m)"
  shows "selectId ` set (all_rows (buildObjectTree p geo issues t options)) =
    insert None (Some ` set (module_ids p) \<union> Some ` set (coupling_ids p) \<union> (\<Union>m \<in> set (modules p). node_paths (m_id m) (tree m)))"
proof -
  let ?c = "\<lambda>i. case nth_opt (couplings p) i of None \<Rightarrow> {} | Some c \<Rightarrow> {Some (c_id c)}"
  have m: "selectId ` set (all_rows (module_row geo issues t names i m)) = insert (Some (m_id m)) (node_paths (m_id m) (tree m))"
    if "m \<in> set (modules p)" for names i m
    using that assms(2) by (simp add: module_row_def Let_def intentRows_select(1) del: all_rows.simps intentRows.simps)
  have c': "selected_by (case nth_opt (couplings p) i of None \<Rightarrow> [] | Some c \<Rightarrow> [coupling_row issues t cnames c]) = ?c i" for cnames i
    by (simp add: coupling_row_def del: all_rows.simps split: option.split)
  have rows: "selected_by (concat (map (\<lambda>(i, m). module_row geo issues t names i m #
      (case nth_opt (couplings p) i of None \<Rightarrow> [] | Some c \<Rightarrow> [coupling_row issues t cnames c])) xs)) =
      (\<Union>(i, m) \<in> set xs. insert (Some (m_id m)) (node_paths (m_id m) (tree m)) \<union> ?c i)" if "snd ` set xs \<subseteq> set (modules p)" for names cnames xs
    using that by (induction xs) (auto simp: m c' simp del: all_rows.simps)
  have e: "snd ` set (entries (modules p)) = set (modules p)" unfolding set_map [symmetric] by simp
  have c: "(\<Union>(i, m) \<in> set (entries (modules p)). ?c i) = Some ` set (coupling_ids p)"
  proof -
    have "?c i = (if i < length (couplings p) then {Some (c_id (couplings p ! i))} else {})" for i by (simp add: nth_opt_def)
    then have "(\<Union>(i, m) \<in> set (entries (modules p)). ?c i) =
        (\<Union>i \<in> fst ` set (entries (modules p)). if i < length (couplings p) then {Some (c_id (couplings p ! i))} else {})"
      unfolding case_prod_unfold image_image by presburger
    also have "fst ` set (entries (modules p)) = {..<length (modules p)}"
      unfolding set_map [symmetric] map_fst_entries by auto
    also have "(\<Union>i \<in> {..<length (modules p)}. if i < length (couplings p) then {Some (c_id (couplings p ! i))} else {}) =
        (\<lambda>i. Some (c_id (couplings p ! i))) ` {..<length (couplings p)}"
      using couplings_fewer [OF assms(1)] by (auto split: if_splits intro!: bexI)
    also have "\<dots> = Some ` set (coupling_ids p)" by (force simp: in_set_conv_nth)
    finally show ?thesis .
  qed
  have "selectId ` set (all_rows (buildObjectTree p geo issues t options)) =
      insert None (\<Union>(i, m) \<in> set (entries (modules p)). insert (Some (m_id m)) (node_paths (m_id m) (tree m)) \<union> ?c i)"
    using rows [OF equalityD1 [OF e]] by (simp add: buildObjectTree_def Let_def del: all_rows.simps)
  also have "\<dots> = insert None ((\<Union>m \<in> snd ` set (entries (modules p)). insert (Some (m_id m)) (node_paths (m_id m) (tree m))) \<union>
      (\<Union>(i, m) \<in> set (entries (modules p)). ?c i))" by (auto simp: case_prod_unfold)
  also have "\<dots> = insert None (Some ` set (module_ids p) \<union> Some ` set (coupling_ids p) \<union> (\<Union>m \<in> set (modules p). node_paths (m_id m) (tree m)))"
    unfolding e c by auto
  finally show ?thesis .
qed

theorem object_tree_witness:
  "Some ''c1'' \<in> selectId ` set (all_rows (buildObjectTree sample_pair (resolveMembers None None Interior) [] translate None)) \<and>
   Some ''m2/b1'' \<in> selectId ` set (all_rows (buildObjectTree sample_pair (resolveMembers None None Interior) [] translate None))"
proof -
  have "bays_closed sample_tree" by (simp add: bays_closed_def preorder_Node sample_defs)
  then have "\<forall>m \<in> set (modules sample_pair). bays_closed (tree m)" by (simp add: sample_pair_def sample_module_def)
  note t = object_tree_selects [OF sample_pair_wf this]
  have "sample_bay ''b1'' O_TURN_LEFT \<in> set (preorder sample_tree)" "nid (sample_bay ''b1'' O_TURN_LEFT) = ''b1''" "ntype (sample_bay ''b1'' O_TURN_LEFT) = BAY"
    by (simp_all add: sample_tree_def preorder_Node) (simp_all add: sample_defs preorder_Node)
  then have "Some (''m2'' @ ''/'' @ ''b1'') \<in> node_paths ''m2'' sample_tree" by (rule node_pathsI)
  then show ?thesis unfolding t by (simp add: sample_pair_def sample_module_def positional_def)
qed

end
