(* ===== verification/Hardware.thy ===== *)
theory Hardware
  imports Members Intent Messages Commands
begin

text \<open>
  \<open>features/canvas/hardwareVisual.ts\<close>: what the drawings may show of a leaf's hardware, from the selected kit,
  the system's handle policy and, where neither speaks, conventions that are reported as such. A diagnostic's
  values are texts or numbers. What is proved is that nothing is moved or assumed without a diagnostic.
\<close>

section \<open>Types\<close>

record Region =
  rg_x :: jsnum
  rg_y :: jsnum
  rg_w :: jsnum
  rg_h :: jsnum

datatype SceneDiagnosticCode = Kit_unknown | Handle_out_of_range | Handle_datum_unsupported | Hardware_convention | Opening_authority_missing

record SceneDiagnostic =
  dg_code :: SceneDiagnosticCode
  dg_owner :: string
  dg_values :: "(string \<times> (string + jsnum)) list"

datatype HandleKind = Lever | Door_lever | Recessed_pull | Surface_pull | Lift_slide | Centre_lever

datatype MountSide = Mount_left | Mount_right | Mount_bottom

record HandleSpec =
  hs_kind :: HandleKind
  hs_interior :: bool
  hs_exterior :: bool
  cylinder :: bool
  hs_heightMm :: jsnum
  declaredMm :: "jsnum option"
  mountSide :: MountSide
  kitBound :: bool
  hs_diagnostics :: "SceneDiagnostic list"

datatype Authority = Auth_kit | Auth_convention

record HingeSpec =
  hinge_count :: jsnum
  authority :: Authority

datatype Family = F_CASEMENT | F_TILT_TURN | F_DOOR | F_SLIDING | F_AWNING | F_FRAMELESS

record HardwareVisualSpec =
  family :: Family
  kitSku :: "string option"
  kitName :: "string option"
  hinges :: "HingeSpec option"
  hv_handle :: "HandleSpec option"
  hv_diagnostics :: "SceneDiagnostic list"

definition HANDLE_HEIGHT_MM :: jsnum where
  "HANDLE_HEIGHT_MM = Fin 1050"

section \<open>Kit and policy\<close>

definition kitQty :: "KitChoice \<Rightarrow> string \<Rightarrow> jsnum" where
  "kitQty kit cat = foldl (\<lambda>q c. if category c = cat then js_add q (js_or (str_num (qty c)) (Fin 0)) else q) (Fin 0)
     (case contents kit of None \<Rightarrow> [] | Some cs \<Rightarrow> cs)"

definition policySlotFor :: "HandlePolicy option \<Rightarrow> string \<Rightarrow> string option \<Rightarrow> HandleSlot option" where
  "policySlotFor policy opening' handedness =
     (case policy of None \<Rightarrow> None
      | Some pol \<Rightarrow>
          (let candidates = filter (\<lambda>s. slot_opening_type s = opening') (slots pol)
           in case List.find (\<lambda>s. leaf_handedness s \<noteq> None \<and> leaf_handedness s = handedness) candidates of
                Some s \<Rightarrow> Some s
              | None \<Rightarrow> (case List.find (\<lambda>s. leaf_handedness s = None) candidates of Some s \<Rightarrow> Some s | None \<Rightarrow> first_opt candidates)))"

definition hingeSide :: "IntentNode \<Rightarrow> side option" where
  "hingeSide bay =
     (let o' = opening_type (dat bay)
      in if o' = Val O_TURN_LEFT \<or> o' = Val O_TILT_TURN_LEFT then Some S_LEFT
         else if o' = Val O_TURN_RIGHT \<or> o' = Val O_TILT_TURN_RIGHT then Some S_RIGHT
         else if o' = Val O_DOOR_ENTRY then Some (if door_handedness (dat bay) = Val S_RIGHT then S_RIGHT else S_LEFT)
         else None)"

definition clamp_between :: "jsnum \<Rightarrow> jsnum \<Rightarrow> jsnum \<Rightarrow> jsnum" where
  "clamp_between lo hi x = js_min (js_max x lo) hi"

definition out_of_range :: "string \<Rightarrow> jsnum \<Rightarrow> jsnum \<Rightarrow> jsnum \<Rightarrow> SceneDiagnostic" where
  "out_of_range owner declared lo hi = \<lparr>dg_code = Handle_out_of_range, dg_owner = owner,
     dg_values = [(''declared'', Inr declared), (''min'', Inr lo), (''max'', Inr hi)]\<rparr>"

text \<open>The second half of \<open>resolveHandleHeight\<close>: the band the policy allows, below the leaf's top.\<close>

definition in_band :: "string \<Rightarrow> jsnum \<Rightarrow> jsnum option \<Rightarrow> HandleSlot \<Rightarrow> jsnum \<times> SceneDiagnostic list \<Rightarrow> jsnum \<times> SceneDiagnostic list" where
  "in_band owner leafTop declared hslot = (\<lambda>(height, diags).
     (let minTop = str_num (mounting_min_from_leaf_top_mm hslot); maxTop = str_num (mounting_max_from_leaf_top_mm hslot)
      in if isFinite minTop \<and> isFinite maxTop \<and> js_lt minTop maxTop then
           (let lo = js_sub leafTop maxTop; hi = js_sub leafTop minTop;
                (height', diags') = (case declared of
                    Some d \<Rightarrow> if js_lt height (js_sub lo (rnd (1 / 100))) \<or> js_lt (js_add hi (rnd (1 / 100))) height
                      then (clamp_between lo hi height, diags @ [out_of_range owner d (js_round lo) (js_round hi)]) else (height, diags)
                  | None \<Rightarrow> (height, diags));
                refs = permitted_vertical_references hslot
            in if ''OUTER_BOTTOM'' \<notin> set refs \<and> ''LEAF_BOTTOM'' \<notin> set refs \<and> declared \<noteq> None
               then (height', diags' @ [\<lparr>dg_code = Handle_datum_unsupported, dg_owner = owner, dg_values = [(''refs'', Inl (join_with '', '' refs))]\<rparr>])
               else (height', diags'))
         else (height, diags)))"

definition resolveHandleHeight :: "IntentNode \<Rightarrow> Region \<Rightarrow> HandleSlot option \<Rightarrow> string \<Rightarrow> jsnum \<times> jsnum option \<times> SceneDiagnostic list" where
  "resolveHandleHeight bay leaf hslot owner =
     (let declaredRaw = field_num (handle_height_mm (dat bay));
          declared = (if isFinite declaredRaw \<and> js_lt (Fin 0) declaredRaw then Some declaredRaw else None);
          heightMm = (case declared of Some d \<Rightarrow> d | None \<Rightarrow> HANDLE_HEIGHT_MM);
          leafBottom = rg_y leaf; leafTop = js_add (rg_y leaf) (rg_h leaf);
          first = (case declared of
              Some d \<Rightarrow> if js_lt d leafBottom \<or> js_lt leafTop d
                then (clamp_between (js_add leafBottom (Fin 40)) (js_sub leafTop (Fin 40)) heightMm, [out_of_range owner d leafBottom leafTop])
                else (heightMm, [])
            | None \<Rightarrow> (heightMm, []));
          (height, diags) = (case hslot of Some s \<Rightarrow> in_band owner leafTop declared s first | None \<Rightarrow> first)
      in (height, declared, diags))"

section \<open>Sliding pulls\<close>

definition word_char :: "char \<Rightarrow> bool" where
  "word_char c \<longleftrightarrow> (let n = of_char c :: nat in 48 \<le> n \<and> n \<le> 57 \<or> 65 \<le> n \<and> n \<le> 90 \<or> n = 95 \<or> 97 \<le> n \<and> n \<le> 122)"

text \<open>\<open>/asa\b/\<close>.\<close>

fun ends_word_asa :: "string \<Rightarrow> bool" where
  "ends_word_asa [] \<longleftrightarrow> False"
| "ends_word_asa (c # cs) \<longleftrightarrow> take 3 (c # cs) = ''asa'' \<and> (case drop 3 (c # cs) of [] \<Rightarrow> True | d # _ \<Rightarrow> \<not> word_char d) \<or> ends_word_asa cs"

definition slidingPullKind :: "string option \<Rightarrow> HandleKind" where
  "slidingPullKind kitName' =
     (case kitName' of
        Some (c # cs) \<Rightarrow>
          (let name = map lower_char (c # cs)
           in if contains ''elevable'' name \<or> contains ''lift'' name \<or> contains ''alzante'' name then Lift_slide
              else if contains ''tirador'' name \<or> ends_word_asa name then Surface_pull
              else Recessed_pull)
      | _ \<Rightarrow> Recessed_pull)"

section \<open>The contract of one leaf\<close>

fun opening_name :: "Opening \<Rightarrow> string" where
  "opening_name O_FIXED = ''FIXED''"
| "opening_name O_TURN_LEFT = ''TURN_LEFT''"
| "opening_name O_TURN_RIGHT = ''TURN_RIGHT''"
| "opening_name O_TILT_TURN_LEFT = ''TILT_TURN_LEFT''"
| "opening_name O_TILT_TURN_RIGHT = ''TILT_TURN_RIGHT''"
| "opening_name O_AWNING = ''AWNING''"
| "opening_name O_SLIDING_2L = ''SLIDING_2L''"
| "opening_name O_SLIDING_3L = ''SLIDING_3L''"
| "opening_name O_SLIDING_4L = ''SLIDING_4L''"
| "opening_name O_SLIDING = ''SLIDING''"
| "opening_name O_DOOR_ENTRY = ''DOOR_ENTRY''"
| "opening_name O_DOOR_DOUBLE = ''DOOR_DOUBLE''"

definition family_of :: "Opening \<Rightarrow> Family" where
  "family_of o' = (if o' = O_DOOR_ENTRY then F_DOOR else if o' = O_AWNING then F_AWNING
     else if o' \<in> {O_TILT_TURN_LEFT, O_TILT_TURN_RIGHT} then F_TILT_TURN
     else if o' \<in> {O_SLIDING_2L, O_SLIDING_3L, O_SLIDING_4L, O_SLIDING} then F_SLIDING else F_CASEMENT)"

fun side_name :: "side \<Rightarrow> string" where
  "side_name S_LEFT = ''LEFT''"
| "side_name S_RIGHT = ''RIGHT''"

definition diagnostic :: "SceneDiagnosticCode \<Rightarrow> string \<Rightarrow> string \<Rightarrow> string \<Rightarrow> SceneDiagnostic" where
  "diagnostic code owner key value = \<lparr>dg_code = code, dg_owner = owner, dg_values = [(key, Inl value)]\<rparr>"

definition hinges_of :: "Opening \<Rightarrow> side option \<Rightarrow> KitChoice option \<Rightarrow> Region \<Rightarrow> string \<Rightarrow> HingeSpec option \<times> SceneDiagnostic list" where
  "hinges_of o' handedness kit leaf owner =
     (if family_of o' \<noteq> F_SLIDING \<and> o' \<noteq> O_FIXED \<and> handedness \<noteq> None then
        (let declared = (case kit of Some k \<Rightarrow> kitQty k ''HINGE'' | None \<Rightarrow> Fin 0); door = (o' = O_DOOR_ENTRY)
         in if o' = O_AWNING then
              (Some (if js_lt (Fin 0) declared then \<lparr>hinge_count = js_max (js_round declared) (Fin 2), authority = Auth_kit\<rparr>
                     else \<lparr>hinge_count = Fin 2, authority = Auth_convention\<rparr>), [])
            else if js_lt (Fin 0) declared then (Some \<lparr>hinge_count = js_max (js_round declared) (Fin 1), authority = Auth_kit\<rparr>, [])
            else (Some \<lparr>hinge_count = (if door then if js_lt (Fin 2200) (rg_h leaf) then Fin 4 else Fin 3
                      else if js_lt (Fin 1700) (rg_h leaf) then Fin 3 else Fin 2), authority = Auth_convention\<rparr>,
                  [diagnostic Hardware_convention owner ''what'' ''hinges'']))
      else (None, []))"

definition mount_side :: "HandleSlot option \<Rightarrow> side option \<Rightarrow> MountSide" where
  "mount_side hslot handedness =
     (case map_option host_member_side hslot of
        Some s \<Rightarrow> if s = ''LEFT'' then Mount_left else if s = ''RIGHT'' then Mount_right else if s = ''BOTTOM'' then Mount_bottom
          else if handedness = Some S_RIGHT then Mount_left else Mount_right
      | None \<Rightarrow> if handedness = Some S_RIGHT then Mount_left else Mount_right)"

text \<open>The part of \<open>resolveHardwareVisual\<close> that resolves the handle of a family, with its diagnostics in order.\<close>

definition handle_of :: "Family \<Rightarrow> IntentNode \<Rightarrow> Region \<Rightarrow> HandleSlot option \<Rightarrow> string \<Rightarrow> string option \<Rightarrow> KitChoice option \<Rightarrow> side option \<Rightarrow>
    HandleSpec option \<times> SceneDiagnostic list" where
  "handle_of fam bay leaf hslot owner sku kit handedness =
     (let declaredLock = (case kit of Some k \<Rightarrow> js_lt (Fin 0) (kitQty k ''LOCK'') | None \<Rightarrow> False);
          declaredHandle = map_option (\<lambda>k. js_lt (Fin 0) (kitQty k ''HANDLE'')) kit;
          (height, declared, diags) = resolveHandleHeight bay leaf hslot owner;
          missing = (if declaredHandle = Some False
            then [diagnostic Kit_unknown owner ''sku'' ((case sku of Some s \<Rightarrow> s | None \<Rightarrow> ''null'') @ ('' (sin l'' @ ac_i @ ''nea HANDLE)''))] else [])
      in if fam = F_CASEMENT \<or> fam = F_TILT_TURN \<or> fam = F_DOOR then
           (Some \<lparr>hs_kind = (if fam = F_DOOR then Door_lever else Lever), hs_interior = True, hs_exterior = (fam = F_DOOR),
              cylinder = (if fam = F_DOOR then declaredLock \<or> kit = None else declaredLock), hs_heightMm = height, declaredMm = declared,
              mountSide = mount_side hslot handedness, kitBound = (declaredHandle = Some True), hs_diagnostics = diags\<rparr>, diags @ missing)
         else if fam = F_AWNING then
           (Some \<lparr>hs_kind = Centre_lever, hs_interior = True, hs_exterior = False, cylinder = False,
              hs_heightMm = (if declared \<noteq> None then height else js_add (rg_y leaf) (Fin 30)), declaredMm = declared,
              mountSide = Mount_bottom, kitBound = (declaredHandle = Some True), hs_diagnostics = diags\<rparr>, diags @ missing)
         else if fam = F_SLIDING then
           (Some \<lparr>hs_kind = slidingPullKind (map_option kit_name kit), hs_interior = True, hs_exterior = False, cylinder = declaredLock,
              hs_heightMm = height, declaredMm = declared, mountSide = Mount_right, kitBound = (declaredHandle = Some True),
              hs_diagnostics = diags\<rparr>, diags)
         else (None, []))"

definition resolveHardwareVisual :: "IntentNode \<Rightarrow> Region \<Rightarrow> MemberSet \<Rightarrow> string \<Rightarrow> HardwareVisualSpec" where
  "resolveHardwareVisual bay leaf geo owner =
     (let sku = field_opt (hardware_set_sku (dat bay));
          selected = (case sku of Some [] \<Rightarrow> None | _ \<Rightarrow> sku);
          kit = (case selected of Some s \<Rightarrow> kitFor geo (Some s) | None \<Rightarrow> None);
          unknown = (case selected of Some s \<Rightarrow> if kit = None then [diagnostic Kit_unknown owner ''sku'' s] else [] | None \<Rightarrow> []);
          o' = (case opening_type (dat bay) of Val x \<Rightarrow> x | _ \<Rightarrow> O_FIXED);
          handedness = hingeSide bay;
          hslot = policySlotFor (handlePolicy geo) (opening_name o') (map_option side_name handedness);
          (hs, hinge_diags) = hinges_of o' handedness kit leaf owner;
          (handle', handle_diags) = handle_of (family_of o') bay leaf hslot owner sku kit handedness
      in \<lparr>family = family_of o', kitSku = sku, kitName = map_option kit_name kit, hinges = hs, hv_handle = handle',
          hv_diagnostics = unknown @ hinge_diags @ handle_diags\<rparr>)"

section \<open>Nothing is assumed in silence\<close>

definition reports_range :: "string \<Rightarrow> jsnum \<Rightarrow> SceneDiagnostic list \<Rightarrow> bool" where
  "reports_range owner d ds \<longleftrightarrow> (\<exists>x \<in> set ds. dg_code x = Handle_out_of_range \<and> dg_owner x = owner \<and> (''declared'', Inr d) \<in> set (dg_values x))"

lemma reports_range_simps [simp]:
  "reports_range owner d (ds @ es) \<longleftrightarrow> reports_range owner d ds \<or> reports_range owner d es"
  "reports_range owner d (out_of_range owner d lo hi # ds)" "\<not> reports_range owner d []"
  by (auto simp: reports_range_def out_of_range_def)

lemma in_band_reports:
  assumes "in_band owner leafTop (Some d) hslot (h, ds) = (h', ds')" "h \<noteq> d \<longrightarrow> reports_range owner d ds"
  shows "h' \<noteq> d \<longrightarrow> reports_range owner d ds'"
  using assms by (auto simp: in_band_def Let_def split: if_split_asm)

lemma handle_height_reports:
  assumes "resolveHandleHeight bay leaf hslot owner = (h, Some d, ds)"
  shows "h \<noteq> d \<longrightarrow> reports_range owner d ds"
proof -
  define f where "f = (if js_lt d (rg_y leaf) \<or> js_lt (js_add (rg_y leaf) (rg_h leaf)) d
    then (clamp_between (js_add (rg_y leaf) (Fin 40)) (js_sub (js_add (rg_y leaf) (rg_h leaf)) (Fin 40)) d,
      [out_of_range owner d (rg_y leaf) (js_add (rg_y leaf) (rg_h leaf))]) else (d, []))"
  have first: "fst f \<noteq> d \<longrightarrow> reports_range owner d (snd f)" by (simp add: f_def)
  have "(h, ds) = (case hslot of Some s \<Rightarrow> in_band owner (js_add (rg_y leaf) (rg_h leaf)) (Some d) s f | None \<Rightarrow> f)"
    using assms unfolding resolveHandleHeight_def Let_def f_def by (auto split: if_split_asm prod.split_asm option.split_asm)
  then show ?thesis using first in_band_reports [of owner _ d _ "fst f" "snd f"] by (cases hslot) (auto simp: prod_eq_iff)
qed

lemma handle_of_reports:
  assumes "handle_of fam bay leaf hslot owner sku kit side = (Some hdl, ds)" "declaredMm hdl = Some d" "hs_heightMm hdl \<noteq> d"
  shows "reports_range owner d ds"
proof -
  obtain h dec es where r: "resolveHandleHeight bay leaf hslot owner = (h, dec, es)" by (metis prod_cases3)
  have e: "dec = Some d" "hs_heightMm hdl = h" "\<exists>ms. ds = es @ ms"
    using assms(1,2) unfolding handle_of_def Let_def r by (auto split: if_split_asm)
  then show ?thesis using handle_height_reports [OF r [unfolded e(1)]] assms(3) by auto
qed

lemma hinges_reported:
  assumes "hinges_of o' side kit leaf owner = (Some hg, ds)" "authority hg = Auth_convention" "o' \<noteq> O_AWNING"
  shows "\<exists>x \<in> set ds. dg_code x = Hardware_convention \<and> dg_owner x = owner"
  using assms by (auto simp: hinges_of_def Let_def diagnostic_def split: if_split_asm)

text \<open>Awnings have no hinge side, so no hinges are ever resolved for them.\<close>

lemma awning_no_hinges: "opening_type (dat bay) = Val O_AWNING \<Longrightarrow> hinges (resolveHardwareVisual bay leaf geo owner) = None"
  by (simp add: resolveHardwareVisual_def Let_def hingeSide_def hinges_of_def split: prod.split)

text \<open>
  C18. Hardware is never moved or assumed in silence: when the handle of a leaf is drawn at another height than the
  one declared, the contract reports that declared height as out of range on that leaf; when hinges are drawn by
  convention, it reports the convention; and a selected kit the catalog does not have is reported.
\<close>

theorem hardware_reported:
  assumes "resolveHardwareVisual bay leaf geo owner = spec"
  shows "(\<forall>hdl d. hv_handle spec = Some hdl \<and> declaredMm hdl = Some d \<and> hs_heightMm hdl \<noteq> d \<longrightarrow> reports_range owner d (hv_diagnostics spec)) \<and>
    (\<forall>hg. hinges spec = Some hg \<and> authority hg = Auth_convention \<longrightarrow>
       (\<exists>x \<in> set (hv_diagnostics spec). dg_code x = Hardware_convention \<and> dg_owner x = owner)) \<and>
    (\<forall>s. kitSku spec = Some s \<and> s \<noteq> [] \<and> kitFor geo (Some s) = None \<longrightarrow>
       (\<exists>x \<in> set (hv_diagnostics spec). dg_code x = Kit_unknown \<and> dg_values x = [(''sku'', Inl s)]))"
proof -
  define o' where "o' = (case opening_type (dat bay) of Val x \<Rightarrow> x | _ \<Rightarrow> O_FIXED)"
  define sku where "sku = field_opt (hardware_set_sku (dat bay))"
  define kit where "kit = (case (case sku of Some [] \<Rightarrow> None | _ \<Rightarrow> sku) of Some s \<Rightarrow> kitFor geo (Some s) | None \<Rightarrow> None)"
  define hslot where "hslot = policySlotFor (handlePolicy geo) (opening_name o') (map_option side_name (hingeSide bay))"
  obtain hs es where h: "hinges_of o' (hingeSide bay) kit leaf owner = (hs, es)" by fastforce
  obtain hdl ds where k: "handle_of (family_of o') bay leaf hslot owner sku kit (hingeSide bay) = (hdl, ds)" by fastforce
  have spec: "hinges spec = hs" "hv_handle spec = hdl" "kitSku spec = sku" "set es \<union> set ds \<subseteq> set (hv_diagnostics spec)"
    "\<And>s. sku = Some s \<Longrightarrow> s \<noteq> [] \<Longrightarrow> kitFor geo (Some s) = None \<Longrightarrow> diagnostic Kit_unknown owner ''sku'' s \<in> set (hv_diagnostics spec)"
    unfolding assms [symmetric] resolveHardwareVisual_def Let_def sku_def [symmetric] o'_def [symmetric] kit_def [symmetric] hslot_def [symmetric] h k
    by (auto simp: kit_def split: list.split)
  have "reports_range owner d ds" if "hdl = Some x" "declaredMm x = Some d" "hs_heightMm x \<noteq> d" for x d
    using handle_of_reports k that by blast
  moreover have "reports_range owner d ds \<Longrightarrow> reports_range owner d (hv_diagnostics spec)" for d
    using spec(4) unfolding reports_range_def by blast
  moreover have "\<exists>x \<in> set es. dg_code x = Hardware_convention \<and> dg_owner x = owner" if "hs = Some hg" "authority hg = Auth_convention" for hg
  proof (rule hinges_reported)
    show "hinges_of o' (hingeSide bay) kit leaf owner = (Some hg, es)" using h that(1) by simp
    show "o' \<noteq> O_AWNING"
    proof
      assume "o' = O_AWNING"
      then have "opening_type (dat bay) = Val O_AWNING" by (simp add: o'_def split: field.splits)
      then show False using h that(1) by (simp add: hinges_of_def hingeSide_def split: if_splits)
    qed
  qed (rule that(2))
  moreover have "diagnostic Kit_unknown owner ''sku'' s \<in> set (hv_diagnostics spec)" if "sku = Some s" "s \<noteq> []" "kitFor geo (Some s) = None" for s
    using spec(5) that by blast
  moreover have "dg_code (diagnostic Kit_unknown owner ''sku'' s) = Kit_unknown \<and> dg_values (diagnostic Kit_unknown owner ''sku'' s) = [(''sku'', Inl s)]" for s
    by (simp add: diagnostic_def)
  ultimately show ?thesis unfolding spec(1-3) using spec(4) by blast
qed

text \<open>A turning leaf with a kit the catalog does not have and a handle declared above the leaf.\<close>

definition sample_turning :: IntentNode where
  "sample_turning = Node ((new_node ''b1'' BAY)\<lparr>opening_type := Val O_TURN_LEFT, hardware_set_sku := Val ''K-1'',
     handle_height_mm := Val (fixed_str 0 2000)\<rparr>) None"

definition sample_region :: Region where
  "sample_region = \<lparr>rg_x = Fin 0, rg_y = Fin 0, rg_w = Fin 600, rg_h = Fin 1000\<rparr>"

theorem hardware_witness:
  "\<exists>spec. resolveHardwareVisual sample_turning sample_region (resolveMembers None None Interior) ''m1/b1'' = spec \<and>
     reports_range ''m1/b1'' (Fin 2000) (hv_diagnostics spec) \<and>
     (\<exists>x \<in> set (hv_diagnostics spec). dg_code x = Hardware_convention) \<and> (\<exists>x \<in> set (hv_diagnostics spec). dg_code x = Kit_unknown)"
proof -
  let ?spec = "resolveHardwareVisual sample_turning sample_region (resolveMembers None None Interior) ''m1/b1''"
  have n: "str_num (fixed_str 0 2000) = Fin 2000" using str_num_fixed_str [of 2000 0] rnd_int [of 2000] by simp
  have a: "rnd 1000 = Fin 1000" "rnd 40 = Fin 40" "rnd 960 = Fin 960" using rnd_int [of 1000] rnd_int [of 40] rnd_int [of 960] by simp_all
  have k: "kitFor (resolveMembers None None Interior) s = None" "handlePolicy (resolveMembers None None Interior) = None" for s
    by (simp_all add: resolveMembers_def base_members_def Let_def kits_of_def split: option.split list.split)
  have d: "dat sample_turning = (new_node ''b1'' BAY)\<lparr>opening_type := Val O_TURN_LEFT, hardware_set_sku := Val ''K-1'',
     handle_height_mm := Val (fixed_str 0 2000)\<rparr>" by (simp add: sample_turning_def)
  have r: "resolveHandleHeight sample_turning sample_region None ''m1/b1'' =
      (Fin 960, Some (Fin 2000), [out_of_range ''m1/b1'' (Fin 2000) (Fin 0) (Fin 1000)])"
    by (simp add: resolveHandleHeight_def d n a Let_def sample_region_def clamp_between_def js_sub_def js_max_def js_min_def)
  have "\<exists>hg. hinges ?spec = Some hg \<and> authority hg = Auth_convention"
    by (simp add: resolveHardwareVisual_def Let_def d k hingeSide_def hinges_of_def family_of_def split: prod.split)
  moreover have "\<exists>h. hv_handle ?spec = Some h \<and> declaredMm h = Some (Fin 2000) \<and> hs_heightMm h = Fin 960"
    by (simp add: resolveHardwareVisual_def Let_def d k policySlotFor_def handle_of_def family_of_def r split: prod.split)
  moreover have "kitSku ?spec = Some ''K-1''" by (simp add: resolveHardwareVisual_def Let_def d split: prod.split)
  ultimately show ?thesis using hardware_reported [of sample_turning sample_region "resolveMembers None None Interior" "''m1/b1''", OF refl] k(1)
    by fastforce
qed

end
