(* ===== verification/CatalogForms.thy ===== *)
theory CatalogForms
  imports Json Messages
begin

text \<open>
  \<open>catalogs/catalogModel.ts\<close>: the schema of the catalog forms, the draft a form starts from, and the request
  a draft is saved as. Rows of the catalog and requests are JSON values, as the code treats them; a draft
  is a list of named texts. The names of the schemas are never array indices, so members keep the order
  in which they are written. Values typed into a form hold code units below 256; the fixed labels beyond
  ASCII are their UTF-8 bytes.
\<close>

section \<open>Schemas\<close>

datatype Resource = Systems | Articles | Glazing | HardwareKits

datatype FieldKind = K_text | K_decimal | K_integer | K_boolean | K_select | K_system | K_bead | K_csv | K_processProfile

text \<open>An absent \<open>optional\<close> is read as false everywhere.\<close>

record Field =
  fd_name :: string
  fd_kind :: FieldKind
  fd_optional :: bool
  fd_places :: "nat option"
  fd_maxLength :: "nat option"
  fd_options :: "string list option"
  fd_label :: "string option"

record Group =
  g_title :: string
  g_fields :: "Field list"

definition plain_field :: "string \<Rightarrow> FieldKind \<Rightarrow> Field" where
  "plain_field name k = \<lparr>fd_name = name, fd_kind = k, fd_optional = False, fd_places = None, fd_maxLength = None,
     fd_options = None, fd_label = None\<rparr>"

definition text_input :: "string \<Rightarrow> nat option \<Rightarrow> bool \<Rightarrow> Field" where
  "text_input name maxLength opt = (plain_field name K_text)\<lparr>fd_optional := opt, fd_maxLength := maxLength\<rparr>"

definition decimal_field :: "string \<Rightarrow> nat \<Rightarrow> bool \<Rightarrow> Field" where
  "decimal_field name places opt = (plain_field name K_decimal)\<lparr>fd_optional := opt, fd_places := Some places\<rparr>"

definition measure_fields :: "string list \<Rightarrow> Field list" where
  "measure_fields names = map (\<lambda>name. decimal_field name 2 False) names"

definition integer_field :: "string \<Rightarrow> Field" where
  "integer_field name = plain_field name K_integer"

definition select_field :: "string \<Rightarrow> string list \<Rightarrow> Field" where
  "select_field name opts = (plain_field name K_select)\<lparr>fd_options := Some opts\<rparr>"

definition active_field :: Field where
  "active_field = plain_field ''is_active'' K_boolean"

definition material_field :: Field where
  "material_field = select_field ''material'' [''PVC'', ''ALUMINIUM'']"

definition rail_field :: Field where
  "rail_field = select_field ''rail_type'' [''dual'', ''mono'']"

definition system_field :: Field where
  "system_field = plain_field ''system_id'' K_system"

definition labelled :: "string \<Rightarrow> Field \<Rightarrow> Field" where
  "labelled l f = f\<lparr>fd_label := Some l\<rparr>"

definition csv_field :: "string \<Rightarrow> nat \<Rightarrow> Field" where
  "csv_field name maxLength = (plain_field name K_csv)\<lparr>fd_optional := True, fd_maxLength := Some maxLength\<rparr>"

definition systems_schema :: "Group list" where
  "systems_schema =
    [\<lparr>g_title = ''identity'', g_fields =
       [text_input ''name'' (Some 150) False,
        text_input ''code'' (Some 50) False,
        labelled ''Familia del sistema'' (select_field ''system_family'' [''CASEMENT'', ''SLIDING'', ''LIFT_SLIDE'', ''DOOR'', ''FACADE_FIXED'']),
        material_field,
        text_input ''manufacturer'' (Some 255) True,
        text_input ''family'' (Some 150) True,
        csv_field ''applications'' 60,
        csv_field ''finishes'' 50,
        (plain_field ''process_profile_id'' K_processProfile)\<lparr>fd_optional := True\<rparr>,
        decimal_field ''depth_mm'' 2 False,
        integer_field ''chamber_count'',
        integer_field ''version'',
        active_field]\<rparr>,
     \<lparr>g_title = ''glazingGeometry'', g_fields =
       measure_fields [''sash_overlap_mm'', ''glass_clearance_white_mm'', ''glass_clearance_foil_mm''] @
       [decimal_field ''chamber_clearance_mm'' 2 True]\<rparr>,
     \<lparr>g_title = ''fabricationGeometry'', g_fields =
       [decimal_field ''rebate_depth_mm'' 2 True,
        decimal_field ''end_milling_overlap_mm'' 2 True,
        decimal_field ''corner_bracket_loss_mm'' 2 False,
        decimal_field ''hook_depth_mm'' 2 False]\<rparr>,
     \<lparr>g_title = ''slidingGeometry'', g_fields =
       map (\<lambda>(name, l). labelled l (decimal_field (''sliding_parameters.'' @ name) 2 False))
         [(''pulley_height_mm'', ''Altura del rodamiento (mm)''),
          (''central_overlap_mm'', ''Traslape central (mm)''),
          (''lateral_clearance_mm'', ''Holgura lateral de corredera (mm)''),
          (''end_add_mm'', (''Adici'' @ ac_o @ ''n por extremo (mm)'')),
          (''glazing_deduction_width_mm'', ''Descuento de vidrio en ancho (mm)''),
          (''glazing_deduction_height_mm'', ''Descuento de vidrio en alto (mm)'')] @
       [labelled ''Tipo de riel'' (rail_field\<lparr>fd_name := ''sliding_parameters.rail_type''\<rparr>),
        labelled ''Cantidad de carriles'' (integer_field ''sliding_parameters.rail_count''),
        labelled ''Riel separado del marco'' (plain_field ''sliding_parameters.separate_rail'' K_boolean),
        labelled ''Encuentro requerido'' (plain_field ''sliding_parameters.interlock_required'' K_boolean)]\<rparr>,
     \<lparr>g_title = ''doorGeometry'', g_fields =
       measure_fields [''door_threshold_mm'', ''door_bottom_clearance_mm'', ''door_leaf_side_clearance_mm'']\<rparr>]"

definition articles_schema :: "Group list" where
  "articles_schema =
    [\<lparr>g_title = ''identity'', g_fields =
       [system_field,
        text_input ''sku'' (Some 100) False,
        text_input ''name'' (Some 255) False,
        material_field,
        select_field ''role'' [''FRAME'', ''SASH'', ''MULLION_V'', ''MULLION_H'', ''INVERSOR'', ''GLAZING_BEAD'', ''COUPLER'',
          ''ADDITIONAL'', ''THRESHOLD'', ''CHANNEL'', ''SLIDING_SASH'', ''INTERLOCK'', ''RAIL'', ''DOOR_SASH'',
          ''FRAME_EXTENSION'', ''SILL'', ''COVER_TRIM'', ''PLINTH'']]\<rparr>,
     \<lparr>g_title = ''cutRule'', g_fields =
       [labelled (ac_A @ ''ngulo de corte'') (select_field ''cut_rule.angle_degrees'' [''45'', ''90''])] @
       map (\<lambda>(name, l). labelled l (decimal_field (''cut_rule.'' @ name) 2 False))
         [(''welding_loss_per_end_mm'', (''P'' @ ac_e @ ''rdida de soldadura por extremo (mm)'')),
          (''joint_deduction_per_end_mm'', (''Descuento por uni'' @ ac_o @ ''n (mm)'')),
          (''meeting_deduction_mm'', ''Descuento de encuentro (mm)''),
          (''cut_step_mm'', ''Paso de redondeo (mm)'')] @
       [labelled ''Redondeo de corte'' (select_field ''cut_rule.rounding'' [''UP'', ''DOWN'', ''NEAREST'']),
        labelled ''Manual de la regla de corte'' (text_input ''cut_rule.source'' (Some 1000) False)]\<rparr>,
     \<lparr>g_title = ''couplingRule'', g_fields =
       [labelled (''Deflexi'' @ ac_o @ ''n m'' @ ac_i @ ''nima de la uni'' @ ac_o @ ''n ('' @ degree @ '')'') (decimal_field ''coupling_rule.min_angle_deg'' 2 False),
        labelled (''Deflexi'' @ ac_o @ ''n m'' @ ac_a @ ''xima de la uni'' @ ac_o @ ''n ('' @ degree @ '')'') (decimal_field ''coupling_rule.max_angle_deg'' 2 False),
        labelled ''Aporte neto del acople al desarrollo (mm)'' (decimal_field ''coupling_rule.development_mm'' 2 False),
        labelled (''Manual o revisi'' @ ac_o @ ''n del taller'') (text_input ''coupling_rule.source'' (Some 1000) False)]\<rparr>,
     \<lparr>g_title = ''reinforcementRule'', g_fields =
       [labelled ''SKU del refuerzo compatible'' (text_input ''reinforcement_rule.reinforcement_sku'' (Some 100) False),
        labelled ''Tipo de refuerzo'' (text_input ''reinforcement_rule.reinforcement_type'' (Some 100) False),
        labelled (''Largo m'' @ ac_i @ ''nimo que exige refuerzo (mm)'') (decimal_field ''reinforcement_rule.minimum_length_mm'' 2 False),
        labelled ''Colores que exigen refuerzo (separados por coma)'' (plain_field ''reinforcement_rule.required_finishes'' K_csv),
        labelled ''Obligatorio en foliados y colores oscuros'' (plain_field ''reinforcement_rule.required_non_white'' K_boolean),
        labelled ''Descuento de corte de refuerzo (mm)'' (decimal_field ''reinforcement_rule.cut_deduction_mm'' 2 False),
        labelled ''Tornillos por metro'' (decimal_field ''reinforcement_rule.screws_per_m'' 4 False),
        labelled ''SKU del tornillo'' (text_input ''reinforcement_rule.screw_sku'' (Some 100) False),
        labelled ''Masa del tornillo (kg)'' (decimal_field ''reinforcement_rule.screw_weight_kg'' 6 True),
        labelled ''Manual de la regla de refuerzo'' (text_input ''reinforcement_rule.source'' (Some 1000) False)]\<rparr>,
     \<lparr>g_title = ''profileGeometry'', g_fields =
       measure_fields [''face_width_mm''] @
       [decimal_field ''commercial_length_mm'' 2 True,
        decimal_field ''welding_loss_mm'' 2 True]\<rparr>,
     \<lparr>g_title = ''reinforcement'', g_fields =
       [text_input ''reinforcement_sku'' (Some 100) True,
        decimal_field ''reinforcement_gap_mm'' 2 True,
        decimal_field ''weight_kg_m'' 4 True,
        decimal_field ''steel_weight_kg_m'' 4 True]\<rparr>]"

definition glazing_schema :: "Group list" where
  "glazing_schema =
    [\<lparr>g_title = ''compatibility'', g_fields =
       [system_field, plain_field ''bead_article_id'' K_bead] @
       measure_fields [''glass_thickness_mm'', ''bead_width_mm'', ''gasket_interior_mm'', ''gasket_exterior_mm'', ''cut_add_mm''] @
       [active_field]\<rparr>]"

definition kits_schema :: "Group list" where
  "kits_schema =
    [\<lparr>g_title = ''identity'', g_fields =
       [system_field\<lparr>fd_optional := True\<rparr>,
        text_input ''sku'' (Some 100) False,
        text_input ''name'' (Some 255) False,
        select_field ''opening_type'' [''TURN'', ''TILT'', ''TILT_TURN'', ''SLIDING'', ''DOOR'', ''AWNING''],
        rail_field,
        active_field]\<rparr>,
     \<lparr>g_title = ''leafLimits'', g_fields =
       measure_fields [''min_leaf_width_mm'', ''max_leaf_width_mm'', ''min_leaf_height_mm'', ''max_leaf_height_mm'', ''max_leaf_weight_kg'']\<rparr>,
     \<lparr>g_title = ''hardware'', g_fields =
       [integer_field ''carriages_qty'',
        integer_field ''stay_arms_qty'',
        decimal_field ''weight_kg'' 2 True,
        decimal_field ''carriage_capacity_kg'' 2 True]\<rparr>]"

fun schemas :: "Resource \<Rightarrow> Group list" where
  "schemas Systems = systems_schema"
| "schemas Articles = articles_schema"
| "schemas Glazing = glazing_schema"
| "schemas HardwareKits = kits_schema"

definition fieldsFor :: "Resource \<Rightarrow> Field list" where
  "fieldsFor resource = concat (map g_fields (schemas resource))"

type_synonym draft = "(string \<times> string) list"

definition groupsFor :: "Resource \<Rightarrow> draft \<Rightarrow> Group list" where
  "groupsFor resource draft =
     filter (\<lambda>g. g_title g \<noteq> ''couplingRule'' \<or> map_of draft ''role'' = Some ''COUPLER'')
       (filter (\<lambda>g. g_title g \<notin> {''cutRule'', ''reinforcementRule'', ''couplingRule''} \<or> map_of draft (g_title g @ ''.enabled'') = Some ''true'')
         (filter (\<lambda>g. g_title g \<noteq> ''slidingGeometry'' \<or>
             (case map_of draft ''system_family'' of None \<Rightarrow> [] | Some s \<Rightarrow> s) \<in> {''SLIDING'', ''LIFT_SLIDE''}) (schemas resource)))"

section \<open>Decimals as typed\<close>

definition exact :: "string \<Rightarrow> string" where
  "exact value = (let s = trim value
     in if is_grouped s then replace_first CHR '','' CHR ''.'' (filter (\<lambda>c. c \<noteq> CHR ''.'') s)
        else replace_first CHR '','' CHR ''.'' s)"

section \<open>Sections\<close>

datatype SectionSource = POLYGON | DXF_REFERENCE

datatype SectionOrientation = EXTERIOR_DOWN | EXTERIOR_UP | EXTERIOR_LEFT | EXTERIOR_RIGHT

datatype SectionLocalOrigin = TOP_LEFT | TOP_RIGHT | BOTTOM_LEFT | BOTTOM_RIGHT | CENTROID

record SectionPoint =
  px_mm :: string
  py_mm :: string

record SectionAxis =
  ax_name :: string
  ax_y_mm :: string

record ProfileSection =
  sec_source :: SectionSource
  polygon :: "SectionPoint list"
  sec_depth_mm :: string
  axes :: "SectionAxis list option"
  drawing_ref :: "string field"
  orientation :: "SectionOrientation option"
  local_origin :: "SectionLocalOrigin option"

record SectionDraft =
  sd_enabled :: bool
  sd_source :: SectionSource
  sd_depth_mm :: string
  sd_drawing_ref :: string
  sd_orientation :: SectionOrientation
  sd_local_origin :: SectionLocalOrigin
  sd_vertices :: "(string \<times> SectionPoint) list"
  sd_axes :: "(string \<times> SectionAxis) list"

text \<open>\<open>crypto.randomUUID\<close> is a supply of identities: the vertices take the first ones, the axes the next.\<close>

definition initialSectionDraft :: "(nat \<Rightarrow> string) \<Rightarrow> ProfileSection option \<Rightarrow> SectionDraft" where
  "initialSectionDraft uuid section =
     (let points = (case section of None \<Rightarrow> [] | Some s \<Rightarrow> polygon s);
          lines = (case section of None \<Rightarrow> [] | Some s \<Rightarrow> (case axes s of None \<Rightarrow> [] | Some xs \<Rightarrow> xs))
      in \<lparr>sd_enabled = (section \<noteq> None),
          sd_source = (case section of Some s \<Rightarrow> if sec_source s = DXF_REFERENCE then DXF_REFERENCE else POLYGON | None \<Rightarrow> POLYGON),
          sd_depth_mm = (case section of None \<Rightarrow> [] | Some s \<Rightarrow> sec_depth_mm s),
          sd_drawing_ref = (case section of None \<Rightarrow> [] | Some s \<Rightarrow> coalesce (drawing_ref s) []),
          sd_orientation = (case section of Some s \<Rightarrow> (case orientation s of Some v \<Rightarrow> v | None \<Rightarrow> EXTERIOR_DOWN) | None \<Rightarrow> EXTERIOR_DOWN),
          sd_local_origin = (case section of Some s \<Rightarrow> (case local_origin s of Some v \<Rightarrow> v | None \<Rightarrow> TOP_LEFT) | None \<Rightarrow> TOP_LEFT),
          sd_vertices = map (\<lambda>(i, p). (uuid i, p)) (entries points),
          sd_axes = map (\<lambda>(i, a). (uuid i, a)) (entries_from (length points) lines)\<rparr>)"

definition sectionFromDraft :: "SectionDraft option \<Rightarrow> ProfileSection option result" where
  "sectionFromDraft draft =
     (case draft of None \<Rightarrow> Inr None
      | Some d \<Rightarrow> if \<not> sd_enabled d then Inr None
          else let points = map (\<lambda>(_, v). \<lparr>px_mm = exact (px_mm v), py_mm = exact (py_mm v)\<rparr>) (sd_vertices d);
                   depth = exact (sd_depth_mm d);
                   drawingRef = trim (sd_drawing_ref d)
               in if length points < 3 \<or> list_ex (\<lambda>p. px_mm p = [] \<or> py_mm p = []) points \<or> depth = [] \<or>
                     (sd_source d = DXF_REFERENCE \<and> drawingRef = [])
                  then Inl (Error ''Invalid section'')
                  else Inr (Some \<lparr>sec_source = sd_source d, polygon = points, sec_depth_mm = depth,
                    axes = Some (map (\<lambda>(_, a). \<lparr>ax_name = trim (ax_name a), ax_y_mm = exact (ax_y_mm a)\<rparr>)
                      (filter (\<lambda>(_, a). trim (ax_name a) \<noteq> [] \<or> trim (ax_y_mm a) \<noteq> []) (sd_axes d))),
                    drawing_ref = (if drawingRef = [] then Null else Val drawingRef),
                    orientation = Some (sd_orientation d), local_origin = Some (sd_local_origin d)\<rparr>))"

definition or_zero :: "string \<Rightarrow> string" where
  "or_zero s = (if s = [] then ''0'' else s)"

definition sectionPreviewFromDraft :: "SectionDraft \<Rightarrow> ProfileSection option" where
  "sectionPreviewFromDraft d =
     (if \<not> sd_enabled d \<or> length (sd_vertices d) < 3 then None
      else Some \<lparr>sec_source = sd_source d,
        polygon = map (\<lambda>(_, v). \<lparr>px_mm = or_zero (px_mm v), py_mm = or_zero (py_mm v)\<rparr>) (sd_vertices d),
        sec_depth_mm = or_zero (sd_depth_mm d),
        axes = Some (map (\<lambda>(_, a). \<lparr>ax_name = trim (ax_name a), ax_y_mm = or_zero (ax_y_mm a)\<rparr>)
          (filter (\<lambda>(_, a). trim (ax_name a) \<noteq> []) (sd_axes d))),
        drawing_ref = (let r = trim (sd_drawing_ref d) in if r = [] then Null else Val r),
        orientation = Some (sd_orientation d), local_origin = Some (sd_local_origin d)\<rparr>)"

section \<open>From a row to a draft\<close>

text \<open>\<open>String(value)\<close>; \<open>join\<close> leaves \<open>null\<close> elements empty.\<close>

fun js_string :: "json \<Rightarrow> string"
  and join_element :: "json \<Rightarrow> string" where
  "js_string JNull = ''null''"
| "js_string (JBool b) = (if b then ''true'' else ''false'')"
| "js_string (JNum x) = num_str x"
| "js_string (JStr s) = s"
| "js_string (JArr xs) = join_with '','' (map join_element xs)"
| "js_string (JObj _) = ''[object Object]''"
| "join_element JNull = []"
| "join_element (JBool b) = (if b then ''true'' else ''false'')"
| "join_element (JNum x) = num_str x"
| "join_element (JStr s) = s"
| "join_element (JArr xs) = join_with '','' (map join_element xs)"
| "join_element (JObj _) = ''[object Object]''"

primrec json_truthy :: "json \<Rightarrow> bool" where
  "json_truthy JNull = False"
| "json_truthy (JBool b) = b"
| "json_truthy (JNum x) = (x \<noteq> NaN \<and> x \<noteq> Fin 0)"
| "json_truthy (JStr s) = (s \<noteq> [])"
| "json_truthy (JArr _) = True"
| "json_truthy (JObj _) = True"

text \<open>The member a dotted name leads to; \<open>None\<close> is \<open>undefined\<close>.\<close>

definition valueFor :: "json \<Rightarrow> string \<Rightarrow> json option" where
  "valueFor source name = foldl (\<lambda>current key. Option.bind current (json_member key)) (Some source) (split_on CHR ''.'' name)"

definition missing_value :: "json option \<Rightarrow> string option \<Rightarrow> Field \<Rightarrow> string" where
  "missing_value row systemId field =
     (if fd_name field = ''system_id'' then (case systemId of None \<Rightarrow> [] | Some s \<Rightarrow> s)
      else if row = None \<and> fd_kind field = K_select \<and> \<not> fd_optional field
      then (case fd_options field of Some (first # _) \<Rightarrow> first | _ \<Rightarrow> [])
      else if row = None \<and> fd_kind field = K_boolean then ''true''
      else [])"

definition initial_value :: "json option \<Rightarrow> string option \<Rightarrow> Field \<Rightarrow> string" where
  "initial_value row systemId field =
     (case valueFor (case row of None \<Rightarrow> JObj [] | Some r \<Rightarrow> r) (fd_name field) of
        Some (JArr xs) \<Rightarrow> join_with '', '' (map join_element xs)
      | Some JNull \<Rightarrow> missing_value row systemId field
      | None \<Rightarrow> missing_value row systemId field
      | Some v \<Rightarrow> js_string v)"

definition flag :: "bool \<Rightarrow> string" where
  "flag b = (if b then ''true'' else ''false'')"

definition initialDraft :: "Resource \<Rightarrow> json option \<Rightarrow> string option \<Rightarrow> draft" where
  "initialDraft resource row systemId =
     (let source = (case row of None \<Rightarrow> JObj [] | Some r \<Rightarrow> r);
          enabled = (\<lambda>k. case json_member k source of None \<Rightarrow> False | Some v \<Rightarrow> json_truthy v)
      in map_new (map (\<lambda>field. (fd_name field, initial_value row systemId field)) (fieldsFor resource) @
           [(''cutRule.enabled'', flag (enabled ''cut_rule'')),
            (''couplingRule.enabled'', flag (enabled ''coupling_rule'')),
            (''reinforcementRule.enabled'', flag (enabled ''reinforcement_rule''))]))"

section \<open>From a draft to a request\<close>

record HardwareComponent =
  hc_sku :: string
  hc_name :: string
  hc_qty :: string
  hc_unit :: string
  hc_category :: "string option"
  hc_purchasing_sku :: "string option"
  hc_manufacturer_name :: "string option"
  hc_source :: "string option"

text \<open>\<open>/^-?\d+$/\<close>.\<close>

definition integer_text :: "string \<Rightarrow> bool" where
  "integer_text s = (let d = (case s of c # r \<Rightarrow> if c = CHR ''-'' then r else s | [] \<Rightarrow> []) in d \<noteq> [] \<and> list_all is_digit d)"

definition isSafeInteger :: "jsnum \<Rightarrow> bool" where
  "isSafeInteger x = (case x of Fin q \<Rightarrow> q = of_int \<lfloor>q\<rfloor> \<and> \<bar>q\<bar> \<le> 9007199254740991 | _ \<Rightarrow> False)"

definition csv_items :: "string \<Rightarrow> string list" where
  "csv_items value = filter (\<lambda>item. item \<noteq> []) (map trim (split_on CHR '','' value))"

definition field_value :: "draft \<Rightarrow> Field \<Rightarrow> json result" where
  "field_value draft field =
     (let value = trim (case map_of draft (fd_name field) of None \<Rightarrow> [] | Some s \<Rightarrow> s)
      in if fd_kind field = K_csv then Inr (JArr (map JStr (csv_items value)))
         else if value = [] \<and> fd_optional field then Inr JNull
         else if fd_kind field = K_integer then
           (let count = str_num value
            in if \<not> integer_text value \<or> \<not> isSafeInteger count \<or> js_lt count (Fin (-2147483648)) \<or> js_lt (Fin 2147483647) count
               then Inl (Error (''Invalid integer: '' @ fd_name field)) else Inr (JNum count))
         else if fd_kind field = K_boolean then
           (if value \<noteq> ''true'' \<and> value \<noteq> ''false'' then Inl (Error (''Missing boolean: '' @ fd_name field))
            else Inr (JBool (value = ''true'')))
         else if fd_kind field = K_processProfile then Inr (if value = [] then JNull else JStr value)
         else Inr (JStr (if fd_kind field = K_decimal then exact value else value)))"

text \<open>A dotted name becomes a member of the object under its first part.\<close>

definition nest :: "string \<times> json \<Rightarrow> (string \<times> json) list \<Rightarrow> (string \<times> json) list result" where
  "nest = (\<lambda>(name, v) values.
     (case split_on CHR ''.'' name of
        parent # child # _ \<Rightarrow>
          (if child \<noteq> [] \<and> parent \<noteq> [] then
             (case map_of values parent of
                None \<Rightarrow> Inr (AList.update parent (JObj [(child, v)]) values)
              | Some JNull \<Rightarrow> Inr (AList.update parent (JObj [(child, v)]) values)
              | Some (JObj ms) \<Rightarrow> Inr (AList.update parent (JObj (AList.update child v ms)) values)
              | Some (JArr _) \<Rightarrow> Inl IllTyped
              | Some _ \<Rightarrow> Inl (TypeError ''Cannot create property''))
           else if parent \<noteq> [] then Inr (AList.update parent v values) else Inr values)
      | [parent] \<Rightarrow> Inr (if parent \<noteq> [] then AList.update parent v values else values)
      | [] \<Rightarrow> Inr values))"

definition nest_all :: "(string \<times> json) list \<Rightarrow> (string \<times> json) list result" where
  "nest_all flat = fold (\<lambda>nv r. result_bind r (nest nv)) flat (Inr [])"

text \<open>\<open>values[k] ??= null\<close> and a member written unless it is \<open>undefined\<close>.\<close>

definition null_default :: "string \<Rightarrow> (string \<times> json) list \<Rightarrow> (string \<times> json) list" where
  "null_default k values = (case map_of values k of None \<Rightarrow> AList.update k JNull values | Some _ \<Rightarrow> values)"

definition put_defined :: "string \<Rightarrow> json option \<Rightarrow> (string \<times> json) list \<Rightarrow> (string \<times> json) list" where
  "put_defined k v values = (case v of None \<Rightarrow> values | Some j \<Rightarrow> AList.update k j values)"

primrec source_text :: "SectionSource \<Rightarrow> string" where
  "source_text POLYGON = ''POLYGON''"
| "source_text DXF_REFERENCE = ''DXF_REFERENCE''"

primrec orientation_text :: "SectionOrientation \<Rightarrow> string" where
  "orientation_text EXTERIOR_DOWN = ''EXTERIOR_DOWN''"
| "orientation_text EXTERIOR_UP = ''EXTERIOR_UP''"
| "orientation_text EXTERIOR_LEFT = ''EXTERIOR_LEFT''"
| "orientation_text EXTERIOR_RIGHT = ''EXTERIOR_RIGHT''"

primrec origin_text :: "SectionLocalOrigin \<Rightarrow> string" where
  "origin_text TOP_LEFT = ''TOP_LEFT''"
| "origin_text TOP_RIGHT = ''TOP_RIGHT''"
| "origin_text BOTTOM_LEFT = ''BOTTOM_LEFT''"
| "origin_text BOTTOM_RIGHT = ''BOTTOM_RIGHT''"
| "origin_text CENTROID = ''CENTROID''"

definition section_json :: "ProfileSection \<Rightarrow> json" where
  "section_json s = JObj
     ([(''source'', JStr (source_text (sec_source s))),
       (''polygon'', JArr (map (\<lambda>p. JObj [(''x_mm'', JStr (px_mm p)), (''y_mm'', JStr (py_mm p))]) (polygon s))),
       (''depth_mm'', JStr (sec_depth_mm s))] @
      (case orientation s of None \<Rightarrow> [] | Some v \<Rightarrow> [(''orientation'', JStr (orientation_text v))]) @
      (case local_origin s of None \<Rightarrow> [] | Some v \<Rightarrow> [(''local_origin'', JStr (origin_text v))]) @
      (case axes s of None \<Rightarrow> [] | Some xs \<Rightarrow>
        [(''axes'', JArr (map (\<lambda>a. JObj [(''name'', JStr (ax_name a)), (''y_mm'', JStr (ax_y_mm a))]) xs))]) @
      (case drawing_ref s of Undef \<Rightarrow> [] | Null \<Rightarrow> [(''drawing_ref'', JNull)] | Val r \<Rightarrow> [(''drawing_ref'', JStr r)]))"

definition component_json :: "HardwareComponent \<Rightarrow> json" where
  "component_json item = JObj [(''sku'', JStr (trim (hc_sku item))), (''name'', JStr (trim (hc_name item))),
     (''qty'', JStr (exact (hc_qty item))), (''unit'', JStr (trim (hc_unit item))),
     (''category'', JStr (case hc_category item of None \<Rightarrow> ''OTHER'' | Some c \<Rightarrow> c))]"

text \<open>The values the editor keeps beside the fields of a form; \<open>None\<close> is \<open>undefined\<close>.\<close>

record FormExtras =
  fx_contents :: "HardwareComponent list"
  fx_section :: "SectionDraft option"
  fx_limits :: "json option"
  fx_openingCapabilities :: "json option"
  fx_pairedRule :: "json option"
  fx_hardwareClass :: "json option"
  fx_finishAuthority :: "json option"
  fx_extraAuthority :: "json option"

fun with_extras :: "Resource \<Rightarrow> FormExtras \<Rightarrow> (string \<times> json) list \<Rightarrow> (string \<times> json) list result" where
  "with_extras Systems x values = Inr
     (put_defined ''extra_authority'' (fx_extraAuthority x) (put_defined ''finish_authority'' (fx_finishAuthority x)
       (put_defined ''paired_leaf_rule'' (fx_pairedRule x) (put_defined ''opening_capabilities'' (fx_openingCapabilities x)
         (put_defined ''dimensional_limits'' (fx_limits x) (null_default ''sliding_parameters'' values))))))"
| "with_extras HardwareKits x values = Inr
     (AList.update ''contents'' (JArr (map component_json (fx_contents x)))
       (put_defined ''class_authority'' (fx_hardwareClass x) values))"
| "with_extras Articles x values = result_bind (sectionFromDraft (fx_section x)) (\<lambda>s. Inr
     (null_default ''coupling_rule'' (null_default ''reinforcement_rule'' (null_default ''cut_rule''
       (AList.update ''section'' (case s of None \<Rightarrow> JNull | Some sec \<Rightarrow> section_json sec) values)))))"
| "with_extras Glazing x values = Inr values"

definition active_fields :: "Resource \<Rightarrow> draft \<Rightarrow> Field list" where
  "active_fields resource draft = concat (map g_fields (groupsFor resource draft))"

definition writeFromDraft :: "Resource \<Rightarrow> draft \<Rightarrow> FormExtras \<Rightarrow> json result" where
  "writeFromDraft resource draft x =
     result_bind (map_result (\<lambda>field. map_sum id (Pair (fd_name field)) (field_value draft field)) (active_fields resource draft)) (\<lambda>flat.
     result_bind (nest_all (map_new flat)) (\<lambda>values.
     map_sum id JObj (with_extras resource x values)))"

section \<open>Calls to the server\<close>

text \<open>A call of the generated client: its name, the identity in its path, its parameters, its body and its
  headers. The client itself is an argument; a rejected promise is an exception.\<close>

record ApiRequest =
  operation :: string
  path_id :: "string option"
  query :: "(string \<times> json) list"
  req_body :: "json option"
  req_headers :: "(string \<times> string) list"

record ApiResponse =
  rs_status :: int
  rs_data :: json

type_synonym client = "ApiRequest \<Rightarrow> ApiResponse result"

primrec resource_name :: "Resource \<Rightarrow> string" where
  "resource_name Systems = ''catalogSystem''"
| "resource_name Articles = ''catalogArticle''"
| "resource_name Glazing = ''catalogBead''"
| "resource_name HardwareKits = ''catalogKit''"

definition org_header :: "string \<Rightarrow> (string \<times> string) list" where
  "org_header orgId = [(''X-Organization-ID'', orgId)]"

definition if_match :: "string \<Rightarrow> (string \<times> string) list" where
  "if_match revision = [(''If-Match'', [CHR 0x22] @ revision @ [CHR 0x22])]"

definition api_call :: "client \<Rightarrow> ApiRequest \<Rightarrow> int set \<Rightarrow> string \<Rightarrow> json result" where
  "api_call client req accepted failure = result_bind (client req)
     (\<lambda>response. if rs_status response \<in> accepted then Inr (rs_data response) else Inl (Error failure))"

definition data_member :: "string \<Rightarrow> json \<Rightarrow> json option result" where
  "data_member k data = (if data = JNull then Inl (TypeError k) else Inr (json_member k data))"

definition read_request :: "string \<Rightarrow> string \<Rightarrow> (string \<times> json) list \<Rightarrow> ApiRequest" where
  "read_request orgId op q = \<lparr>operation = op, path_id = None, query = q, req_body = None, req_headers = org_header orgId\<rparr>"

definition api_list :: "client \<Rightarrow> string \<Rightarrow> Resource \<Rightarrow> json option result" where
  "api_list client orgId resource = result_bind
     (api_call client (read_request orgId (resource_name resource @ ''List'') (if resource = Systems then [(''summary'', JBool True)] else []))
       {200} ''catalog_read_failed'')
     (data_member ''items'')"

text \<open>A missing revision is written as the text \<open>undefined\<close>, and an empty identity is none.\<close>

definition save_request :: "string \<Rightarrow> Resource \<Rightarrow> json \<Rightarrow> string option \<Rightarrow> string option \<Rightarrow> ApiRequest" where
  "save_request orgId resource body rowId revision =
     (case (case rowId of Some (c # cs) \<Rightarrow> Some (c # cs) | _ \<Rightarrow> None) of
        Some i \<Rightarrow> \<lparr>operation = resource_name resource @ ''Update'', path_id = Some i, query = [], req_body = Some body,
          req_headers = org_header orgId @ if_match (case revision of None \<Rightarrow> ''undefined'' | Some r \<Rightarrow> r)\<rparr>
      | None \<Rightarrow> \<lparr>operation = resource_name resource @ ''Create'', path_id = None, query = [], req_body = Some body,
          req_headers = org_header orgId\<rparr>)"

definition api_save :: "client \<Rightarrow> string \<Rightarrow> Resource \<Rightarrow> json \<Rightarrow> string option \<Rightarrow> string option \<Rightarrow> json result" where
  "api_save client orgId resource body rowId revision =
     api_call client (save_request orgId resource body rowId revision) {200, 201} ''catalog_write_failed''"

definition api_workspace :: "client \<Rightarrow> string \<Rightarrow> string \<Rightarrow> json result" where
  "api_workspace client orgId systemId =
     api_call client ((read_request orgId ''catalogSystemWorkspace'' [])\<lparr>path_id := Some systemId\<rparr>) {200} ''catalog_read_failed''"

text \<open>The error code of a refused call, if the server gives one.\<close>

definition refusal :: "string \<Rightarrow> json \<Rightarrow> 'a result" where
  "refusal fallback data = result_bind (data_member ''error'' data) (\<lambda>detail.
     Inl (Error (case detail of Some (JObj ms) \<Rightarrow>
         (case map_of ms ''code'' of None \<Rightarrow> fallback | Some JNull \<Rightarrow> fallback | Some c \<Rightarrow> js_string c)
       | _ \<Rightarrow> fallback)))"

definition api_sectionImport :: "client \<Rightarrow> string \<Rightarrow> json \<Rightarrow> json result" where
  "api_sectionImport client orgId file = result_bind
     (client ((read_request orgId ''catalogSectionImportCreate'' [])\<lparr>req_body := Some (JObj [(''file'', file)])\<rparr>))
     (\<lambda>response. if rs_status response \<noteq> 200 then refusal ''section_import_failed'' (rs_data response) else Inr (rs_data response))"

definition api_processProfiles :: "client \<Rightarrow> string \<Rightarrow> json option result" where
  "api_processProfiles client orgId = result_bind
     (api_call client (read_request orgId ''catalogProcessProfileList'' []) {200} ''catalog_read_failed'') (data_member ''items'')"

definition api_evidence :: "client \<Rightarrow> string \<Rightarrow> string \<Rightarrow> json option result" where
  "api_evidence client orgId systemId = result_bind
     (api_call client (read_request orgId ''catalogEvidenceList'' [(''system_id'', JStr systemId)]) {200} ''catalog_evidence_read_failed'')
     (data_member ''items'')"

definition api_reviewEvidence :: "client \<Rightarrow> string \<Rightarrow> string \<Rightarrow> bool \<Rightarrow> json result" where
  "api_reviewEvidence client orgId evidenceId reviewed =
     api_call client ((read_request orgId ''catalogEvidenceReview'' [])\<lparr>path_id := Some evidenceId,
         req_body := Some (JObj [(''review_state'', JStr (if reviewed then ''REVIEWED'' else ''REJECTED''))])\<rparr>)
       {200} ''catalog_evidence_review_failed''"

definition api_workCenters :: "client \<Rightarrow> string \<Rightarrow> json option result" where
  "api_workCenters client orgId = result_bind
     (api_call client (read_request orgId ''productionWorkCenters'' []) {200} ''work_centers_read_failed'') (data_member ''centers'')"

definition api_upsertWorkCenter :: "client \<Rightarrow> string \<Rightarrow> json \<Rightarrow> json result" where
  "api_upsertWorkCenter client orgId body = result_bind
     (client ((read_request orgId ''productionWorkCentersCreate'' [])\<lparr>req_body := Some body\<rparr>))
     (\<lambda>response. if rs_status response \<notin> {200, 201} then refusal ''work_center_write_failed'' (rs_data response) else Inr (rs_data response))"

definition api_seedWorkCenters :: "client \<Rightarrow> string \<Rightarrow> json option result" where
  "api_seedWorkCenters client orgId = result_bind
     (api_call client (read_request orgId ''productionWorkCentersSeedDefaults'' []) {200} ''work_centers_seed_failed'') (data_member ''centers'')"

text \<open>The row a reviewer read: its identity and its revision, if it has one.\<close>

definition api_review :: "client \<Rightarrow> string \<Rightarrow> Resource \<Rightarrow> string \<Rightarrow> string field \<Rightarrow> json result" where
  "api_review client orgId resource rowId revision =
     api_call client \<lparr>operation = resource_name resource @ ''Review'', path_id = Some rowId, query = [], req_body = None,
         req_headers = org_header orgId @ if_match (coalesce revision [])\<rparr>
       {200} ''catalog_review_failed''"

definition api_remove :: "client \<Rightarrow> string \<Rightarrow> Resource \<Rightarrow> string \<Rightarrow> string \<Rightarrow> unit result" where
  "api_remove client orgId resource rowId revision = map_sum id (\<lambda>_. ())
     (api_call client \<lparr>operation = resource_name resource @ ''Delete'', path_id = Some rowId, query = [], req_body = None,
         req_headers = org_header orgId @ if_match revision\<rparr>
       {204} ''catalog_delete_failed'')"
end
