(* ===== verification/CatalogProps.thy ===== *)
theory CatalogProps
  imports CatalogForms
begin

text \<open>
  What the catalog forms keep: a row opened in a form and saved unedited is written back with the values it
  was read with, under the revision that was read, when those are values that a form holds without loss. The decimals a form leaves alone, and those it changes.
\<close>

section \<open>Texts split and joined\<close>

lemma split_on_clean: "d \<notin> set s \<Longrightarrow> split_on d s = [s]"
  by (induction s) auto

lemma split_on_append: "d \<notin> set a \<Longrightarrow> split_on d (a @ d # b) = a # split_on d b"
  by (induction a) (auto split: list.splits)

lemma join_split: "join_with [d] (split_on d s) = s"
proof (induction s)
  case (Cons c cs)
  obtain p ps where p: "split_on d cs = p # ps" using split_on_nonempty by (cases "split_on d cs") blast+
  with Cons show ?case by (cases ps) auto
qed simp

lemma split_on_inj: "split_on d s = split_on d t \<Longrightarrow> s = t"
  using join_split by metis

lemma dropWhile_id: "length s \<le> length (dropWhile P s) \<Longrightarrow> dropWhile P s = s \<and> (s \<noteq> [] \<longrightarrow> \<not> P (hd s))"
  using length_dropWhile_le [of P "tl s"] by (cases s) (auto split: if_splits)

lemma trim_fixed: "trim s = s \<longleftrightarrow> s = [] \<or> (\<not> is_space (hd s) \<and> \<not> is_space (last s))"
proof -
  have "\<not> is_space (hd s) \<and> \<not> is_space (last s)" if t: "trim s = s" "s \<noteq> []"
  proof -
    have s: "length s = length (dropWhile is_space (rev (dropWhile is_space s)))" using t(1) unfolding trim_def by (metis length_rev)
    also have "\<dots> \<le> length (dropWhile is_space s)" using length_dropWhile_le [of is_space "rev (dropWhile is_space s)"] by simp
    finally have h: "dropWhile is_space s = s" "\<not> is_space (hd s)" using dropWhile_id [of s is_space] t(2) by auto
    then show ?thesis using s dropWhile_id [of "rev s" is_space] t(2) by (simp add: hd_rev)
  qed
  moreover have "trim [] = []" by (simp add: trim_def)
  ultimately show ?thesis using trim_no_space [of s] by blast
qed

lemma trim_space: "is_space c \<Longrightarrow> trim (c # s) = trim s"
  by (simp add: trim_def)

lemma hd_join: "x \<noteq> [] \<Longrightarrow> hd (join_with sep (x # xs)) = hd x"
  by (cases xs) auto

lemma last_join: "xs \<noteq> [] \<Longrightarrow> last xs \<noteq> [] \<Longrightarrow> last (join_with sep xs) = last (last xs) \<and> join_with sep xs \<noteq> []"
  by (induction sep xs rule: join_with.induct) auto

text \<open>Items that a comma separated text can hold.\<close>

definition csv_item :: "string \<Rightarrow> bool" where
  "csv_item s \<longleftrightarrow> s \<noteq> [] \<and> trim s = s \<and> CHR '','' \<notin> set s"

lemma trim_csv: "\<forall>s \<in> set xs. csv_item s \<Longrightarrow> trim (join_with '', '' xs) = join_with '', '' xs"
proof (cases xs)
  case (Cons x ys)
  assume a: "\<forall>s \<in> set xs. csv_item s"
  then have x: "x \<noteq> []" "\<not> is_space (hd x)" and l: "last xs \<noteq> []" "\<not> is_space (last (last xs))"
    using Cons last_in_set [of xs] by (auto simp: csv_item_def trim_fixed)
  then show ?thesis
    using Cons hd_join [of x "'', ''" ys] last_join [of xs "'', ''"] by (simp add: trim_fixed)
qed (simp add: trim_def)

lemma csv_items_join: "\<forall>s \<in> set xs. csv_item s \<Longrightarrow> csv_items (join_with '', '' xs) = xs"
proof (induction "'', ''" xs rule: join_with.induct)
  case (2 x)
  then show ?case by (simp add: csv_items_def split_on_clean csv_item_def)
next
  case (3 x y xs)
  have x: "x \<noteq> []" "trim x = x" "CHR '','' \<notin> set x" using 3 by (auto simp: csv_item_def)
  have sp: "is_space CHR '' ''" by (simp add: is_space_def)
  obtain p ps where p: "split_on CHR '','' (join_with '', '' (y # xs)) = p # ps"
    using split_on_nonempty by (cases "split_on CHR '','' (join_with '', '' (y # xs))") blast+
  then have "csv_items (join_with '', '' (x # y # xs)) = x # csv_items (join_with '', '' (y # xs))"
    using x split_on_append [OF x(3), of "CHR '' '' # join_with '', '' (y # xs)"] trim_space [OF sp, of p]
    by (simp add: csv_items_def)
  then show ?case using 3 by simp
qed (simp add: csv_items_def trim_def)

section \<open>Whole numbers\<close>

lemma num_str_int:
  assumes "\<bar>k\<bar> < 10 ^ 15"
  shows "num_str (Fin (of_int k)) = (if k < 0 then ''-'' else []) @ dec_str \<bar>k\<bar>"
proof (cases "k < 0")
  case True
  have "num_str (Fin (of_int (- k))) = dec_str (- k)" using True assms by (intro num_str_whole) auto
  then show ?thesis using True by (simp add: abs_if)
next
  case False
  then show ?thesis using num_str_whole [of k] assms by simp
qed

lemma integer_text_num: "\<bar>k\<bar> < 10 ^ 15 \<Longrightarrow> integer_text (num_str (Fin (of_int k)))"
proof -
  assume "\<bar>k\<bar> < 10 ^ 15"
  then have e: "num_str (Fin (of_int k)) = (if k < 0 then ''-'' else []) @ dec_str \<bar>k\<bar>" by (rule num_str_int)
  obtain c r where d: "dec_str \<bar>k\<bar> = c # r" using dec_str_nonempty by (cases "dec_str \<bar>k\<bar>") blast+
  have "\<forall>c \<in> set (dec_str \<bar>k\<bar>). is_digit c" by (rule dec_str_digits)
  then have "is_digit c" "list_all is_digit (c # r)" using d by (auto simp: list_all_iff)
  then show ?thesis unfolding e d using digit_not_special by (auto simp: integer_text_def)
qed

lemma str_num_num_str_int:
  assumes "\<bar>k\<bar> < 10 ^ 15"
  shows "str_num (num_str (Fin (of_int k))) = Fin (of_int k)" "trim (num_str (Fin (of_int k))) = num_str (Fin (of_int k))"
proof -
  have d: "\<forall>c \<in> set (dec_str \<bar>k\<bar>). is_digit c" by (rule dec_str_digits)
  have l: "\<not> is_space (last (dec_str \<bar>k\<bar>))" "\<not> is_space (hd (dec_str \<bar>k\<bar>))"
    using d dec_str_nonempty [of "\<bar>k\<bar>"] by (simp_all add: digit_not_space)
  have m: "\<not> is_space CHR ''-''" by (simp add: is_space_def)
  show t: "trim (num_str (Fin (of_int k))) = num_str (Fin (of_int k))"
    unfolding num_str_int [OF assms] using l m dec_str_nonempty [of "\<bar>k\<bar>"] by (auto simp: trim_fixed hd_append)
  have b: "\<bar>k\<bar> \<le> 2 ^ 53" using assms by simp
  show "str_num (num_str (Fin (of_int k))) = Fin (of_int k)"
  proof (cases "k < 0")
    case True
    have u: "unsigned_num (dec_str \<bar>k\<bar>) = rnd (of_int \<bar>k\<bar>)" using unsigned_fixed_str [of "\<bar>k\<bar>" 0] by (simp add: fixed_str_def)
    have "str_num (CHR ''-'' # dec_str \<bar>k\<bar>) = js_neg (unsigned_num (dec_str \<bar>k\<bar>))"
      using t True num_str_int [OF assms] by (simp add: str_num_def)
    then show ?thesis using True num_str_int [OF assms] u rnd_int [of "\<bar>k\<bar>"] b by simp
  next
    case False
    then show ?thesis using num_str_int [OF assms] str_num_dec_str [of k] rnd_int [of k] b by simp
  qed
qed

section \<open>Names of the schemas\<close>

text \<open>Names are distinct and plain or of two parts, and the first part of a dotted name is no name itself.\<close>

definition name_ok :: "string list \<Rightarrow> string \<Rightarrow> bool" where
  "name_ok names n = (case split_on CHR ''.'' n of [p] \<Rightarrow> p \<noteq> [] | [p, c] \<Rightarrow> p \<noteq> [] \<and> c \<noteq> [] \<and> p \<notin> set names | _ \<Rightarrow> False)"

definition names_ok :: "string list \<Rightarrow> bool" where
  "names_ok names \<longleftrightarrow> distinct names \<and> list_all (name_ok names) names"

definition heads :: "string list \<Rightarrow> string list" where
  "heads names = map (\<lambda>n. hd (split_on CHR ''.'' n)) names"

lemma schema_names:
  "names_ok (map fd_name (fieldsFor r))"
  "set [''cutRule.enabled'', ''couplingRule.enabled'', ''reinforcementRule.enabled''] \<inter> set (map fd_name (fieldsFor r)) = {}"
  by (cases r; hypsubst; code_simp)+

lemma schema_heads:
  "set [''dimensional_limits'', ''opening_capabilities'', ''paired_leaf_rule'', ''finish_authority'', ''extra_authority'',
     ''class_authority'', ''contents'', ''section''] \<inter> set (heads (map fd_name (fieldsFor r))) = {}"
  by (cases r; hypsubst; code_simp)

lemma name_ok_subset: "name_ok ns n \<Longrightarrow> set ms \<subseteq> set ns \<Longrightarrow> name_ok ms n"
  unfolding name_ok_def by (cases "split_on CHR ''.'' n" rule: remdups_adj.cases) (auto split: list.splits)

lemma names_ok_subset: "names_ok ns \<Longrightarrow> distinct ms \<Longrightarrow> set ms \<subseteq> set ns \<Longrightarrow> names_ok ms"
  using name_ok_subset by (simp add: names_ok_def list_all_iff subset_iff) blast

lemma active_subset: "set (active_fields r d) \<subseteq> set (fieldsFor r)"
  by (auto simp: active_fields_def fieldsFor_def groupsFor_def)

lemma distinct_concat_filter: "distinct (map h (concat (map f xs))) \<Longrightarrow> distinct (map h (concat (map f (filter P xs))))"
  by (induction xs) auto

lemma active_names: "names_ok (map fd_name (active_fields r d))"
proof -
  have "distinct (map fd_name (active_fields r d))"
    using schema_names(1) [of r] unfolding active_fields_def groupsFor_def names_ok_def fieldsFor_def
    by (intro distinct_concat_filter) blast
  then show ?thesis using names_ok_subset [OF schema_names(1)] active_subset [of r d] by (metis image_mono set_map)
qed

section \<open>Nested values\<close>

lemma valueFor_plain: "split_on CHR ''.'' n = [p] \<Longrightarrow> valueFor (JObj vs) n = map_of vs p"
  by (simp add: valueFor_def json_member_def)

lemma valueFor_dotted: "split_on CHR ''.'' n = [p, c] \<Longrightarrow> valueFor (JObj vs) n = Option.bind (map_of vs p) (json_member c)"
  by (simp add: valueFor_def json_member_def)

lemma split_plain: "split_on CHR ''.'' n = [p] \<Longrightarrow> n = p"
  using join_split [of "CHR ''.''" n] by simp

lemma name_ok_cases:
  assumes "name_ok ns n"
  obtains (plain) "split_on CHR ''.'' n = [n]" "n \<noteq> []"
  | (dotted) p c where "split_on CHR ''.'' n = [p, c]" "p \<noteq> []" "c \<noteq> []" "p \<notin> set ns"
proof (cases "split_on CHR ''.'' n" rule: remdups_adj.cases)
  case (2 x)
  with assms split_plain [of n x] plain show ?thesis by (simp add: name_ok_def)
next
  case (3 x y xs)
  with assms dotted show ?thesis by (cases xs) (auto simp: name_ok_def)
qed (use split_on_nonempty in blast)

text \<open>The members written so far: each name leads to its value, and nothing else is there.\<close>

definition nested :: "(string \<times> json) list \<Rightarrow> (string \<times> json) list \<Rightarrow> bool" where
  "nested flat values \<longleftrightarrow> (\<forall>(n, v) \<in> set flat. valueFor (JObj values) n = Some v) \<and>
     (\<forall>k j. map_of values k = Some j \<longrightarrow> k \<in> set (heads (map fst flat)) \<and> (k \<in> set (map fst flat) \<or> (\<exists>ms. j = JObj ms)))"

lemma nest_plain:
  assumes "nested flat values" "names_ok (map fst flat @ [n])" "split_on CHR ''.'' n = [n]"
  shows "nested (flat @ [(n, v)]) (AList.update n v values)"
proof -
  have old: "valueFor (JObj (AList.update n v values)) m = valueFor (JObj values) m" if "m \<in> set (map fst flat)" for m
  proof -
    have ok: "name_ok (map fst flat @ [n]) m" "m \<noteq> n" using assms(2) that by (auto simp: names_ok_def list_all_iff)
    from ok(1) show ?thesis
    proof (cases rule: name_ok_cases)
      case plain
      then show ?thesis using ok(2) by (simp add: valueFor_plain update_conv')
    next
      case (dotted p c)
      then show ?thesis by (simp add: valueFor_dotted update_conv')
    qed
  qed
  have new: "valueFor (JObj (AList.update n v values)) n = Some v" using assms(3) by (simp add: valueFor_plain update_conv')
  have a: "\<forall>(m, w) \<in> set (flat @ [(n, v)]). valueFor (JObj (AList.update n v values)) m = Some w"
    using assms(1) old new by (force simp: nested_def)
  have b: "k \<in> set (heads (map fst (flat @ [(n, v)]))) \<and> (k \<in> set (map fst (flat @ [(n, v)])) \<or> (\<exists>ms. j = JObj ms))"
    if "map_of (AList.update n v values) k = Some j" for k j
    using that assms(1,3) by (auto simp: nested_def update_conv' heads_def split: if_splits)
  show ?thesis unfolding nested_def using a b by blast
qed

lemma nest_dotted:
  assumes "nested flat values" "names_ok (map fst flat @ [n])" "split_on CHR ''.'' n = [p, c]" "p \<notin> set (map fst flat)"
    "map_of values p = None \<and> ms = [] \<or> map_of values p = Some (JObj ms)"
  shows "nested (flat @ [(n, v)]) (AList.update p (JObj (AList.update c v ms)) values)"
proof -
  let ?w = "AList.update p (JObj (AList.update c v ms)) values"
  have old: "valueFor (JObj ?w) m = Some x" if "(m, x) \<in> set flat" for m x
  proof -
    have m: "m \<in> set (map fst flat)" using that by force
    have ok: "name_ok (map fst flat @ [n]) m" "m \<noteq> n" using assms(2) m by (auto simp: names_ok_def list_all_iff)
    have x: "valueFor (JObj values) m = Some x" using assms(1) that by (auto simp: nested_def)
    from ok(1) show ?thesis
    proof (cases rule: name_ok_cases)
      case plain
      then show ?thesis using x assms(4) m by (auto simp: valueFor_plain update_conv')
    next
      case (dotted q d)
      then have "(q, d) \<noteq> (p, c)" using ok(2) assms(3) split_on_inj [of "CHR ''.''" m n] by auto
      then show ?thesis using x assms(5) dotted(1) by (auto simp: valueFor_dotted update_conv' json_member_def)
    qed
  qed
  have a: "\<forall>(m, w) \<in> set (flat @ [(n, v)]). valueFor (JObj ?w) m = Some w"
    using old assms(3) by (auto simp: valueFor_dotted update_conv' json_member_def)
  have b: "k \<in> set (heads (map fst (flat @ [(n, v)]))) \<and> (k \<in> set (map fst (flat @ [(n, v)])) \<or> (\<exists>ms. j = JObj ms))"
    if "map_of ?w k = Some j" for k j
    using that assms(1,3) by (auto simp: nested_def update_conv' heads_def split: if_splits)
  show ?thesis unfolding nested_def using a b by blast
qed

lemma nest_step:
  assumes "nested flat values" "names_ok (map fst flat @ [n])"
  shows "\<exists>values'. nest (n, v) values = Inr values' \<and> nested (flat @ [(n, v)]) values'"
proof -
  have "name_ok (map fst flat @ [n]) n" using assms(2) by (simp add: names_ok_def)
  then show ?thesis
  proof (cases rule: name_ok_cases)
    case plain
    then show ?thesis using nest_plain [OF assms plain(1)] by (simp add: nest_def)
  next
    case (dotted p c)
    then have p: "p \<notin> set (map fst flat)" by simp
    have "map_of values p = None \<or> (\<exists>ms. map_of values p = Some (JObj ms))"
      using assms(1) p by (cases "map_of values p") (auto simp: nested_def)
    then show ?thesis
    proof
      assume "map_of values p = None"
      then show ?thesis using nest_dotted [OF assms dotted(1) p, of "[]" v] dotted by (simp add: nest_def)
    next
      assume "\<exists>ms. map_of values p = Some (JObj ms)"
      then obtain ms where "map_of values p = Some (JObj ms)" ..
      then show ?thesis using nest_dotted [OF assms dotted(1) p, of ms v] dotted by (simp add: nest_def)
    qed
  qed
qed

lemma nest_all_nested: "names_ok (map fst flat) \<Longrightarrow> \<exists>values. nest_all flat = Inr values \<and> nested flat values"
proof (induction flat rule: rev_induct)
  case (snoc nv flat)
  obtain n v where nv: "nv = (n, v)" by (cases nv)
  have "names_ok (map fst flat)" using snoc.prems by (rule names_ok_subset) (use snoc.prems in \<open>auto simp: names_ok_def\<close>)
  with snoc.IH obtain vs where "nest_all flat = Inr vs" "nested flat vs" by blast
  then show ?case using nest_step [of flat vs n v] snoc.prems nv by (simp add: nest_all_def)
qed (simp add: nest_all_def nested_def)

section \<open>Fields\<close>

text \<open>The values of a row that a form holds without loss: decimals that are not grouped by thousands, trimmed texts,
  items without commas, 32-bit integers.\<close>

definition text_ok :: "Field \<Rightarrow> string \<Rightarrow> bool" where
  "text_ok f s \<longleftrightarrow> trim s = s \<and> (fd_optional f \<or> fd_kind f = K_processProfile \<longrightarrow> s \<noteq> []) \<and>
     (fd_kind f = K_decimal \<longrightarrow> CHR '','' \<notin> set s \<and> \<not> is_grouped s)"

definition whole_in :: "rat \<Rightarrow> rat \<Rightarrow> rat \<Rightarrow> bool" where
  "whole_in a b q \<longleftrightarrow> q = of_int \<lfloor>q\<rfloor> \<and> a \<le> q \<and> q \<le> b"

definition json_item :: "json \<Rightarrow> bool" where
  "json_item j = (case j of JStr s \<Rightarrow> csv_item s | _ \<Rightarrow> False)"

definition absent_ok :: "string option \<Rightarrow> Field \<Rightarrow> bool" where
  "absent_ok systemId f \<longleftrightarrow> (fd_kind f = K_csv \<or> fd_optional f \<and> fd_kind f \<notin> {K_integer, K_boolean}) \<and> (fd_name f = ''system_id'' \<longrightarrow> systemId = None)"

definition field_ok :: "string option \<Rightarrow> Field \<Rightarrow> json option \<Rightarrow> bool" where
  "field_ok systemId f v =
     (case v of None \<Rightarrow> absent_ok systemId f
      | Some JNull \<Rightarrow> absent_ok systemId f
      | Some (JArr xs) \<Rightarrow> fd_kind f = K_csv \<and> list_all json_item xs
      | Some (JBool b) \<Rightarrow> fd_kind f = K_boolean
      | Some (JNum x) \<Rightarrow> (case x of Fin q \<Rightarrow> fd_kind f \<in> {K_integer, K_select} \<and> whole_in (-2147483648) 2147483647 q | _ \<Rightarrow> False)
      | Some (JStr s) \<Rightarrow> fd_kind f \<notin> {K_csv, K_integer, K_boolean} \<and> text_ok f s
      | Some (JObj _) \<Rightarrow> False)"

text \<open>What is written for such a value: itself, but an absent value as \<open>null\<close> or as no items, and a number that is
  chosen from a list as its text.\<close>

definition kept :: "Field \<Rightarrow> json option \<Rightarrow> json" where
  "kept f v =
     (case v of None \<Rightarrow> if fd_kind f = K_csv then JArr [] else JNull
      | Some JNull \<Rightarrow> if fd_kind f = K_csv then JArr [] else JNull
      | Some (JNum x) \<Rightarrow> if fd_kind f = K_select then JStr (num_str x) else JNum x
      | Some j \<Rightarrow> j)"

lemma replace_first_id: "c \<notin> set s \<Longrightarrow> replace_first c d s = s"
  by (induction s) auto

lemma exact_clean: "trim s = s \<Longrightarrow> CHR '','' \<notin> set s \<Longrightarrow> \<not> is_grouped s \<Longrightarrow> exact s = s"
  by (simp add: exact_def replace_first_id)

lemma items_texts: "list_all json_item xs \<Longrightarrow> \<exists>ss. xs = map JStr ss \<and> (\<forall>s \<in> set ss. csv_item s)"
proof (induction xs)
  case (Cons x xs)
  then obtain ss where "xs = map JStr ss" "\<forall>s \<in> set ss. csv_item s" by auto
  moreover obtain s where "x = JStr s" "csv_item s" using Cons.prems by (auto simp: json_item_def split: json.splits)
  ultimately show ?case by (intro exI [of _ "s # ss"]) simp
qed simp

lemma join_elements: "map join_element (map JStr ss) = ss"
  by (induction ss) auto

lemma field_value_absent:
  assumes "map_of d (fd_name f) = Some []" "absent_ok systemId f"
  shows "field_value d f = Inr (if fd_kind f = K_csv then JArr [] else JNull)"
  using assms by (auto simp: field_value_def absent_ok_def trim_def csv_items_def)

lemma field_value_text:
  assumes "map_of d (fd_name f) = Some s" "text_ok f s" "fd_kind f \<notin> {K_csv, K_integer, K_boolean}"
  shows "field_value d f = Inr (JStr s)"
  using assms exact_clean [of s] by (auto simp: field_value_def text_ok_def)

lemma field_value_number:
  assumes "map_of d (fd_name f) = Some (num_str (Fin q))" "fd_kind f \<in> {K_integer, K_select}" "whole_in (-2147483648) 2147483647 q"
  shows "field_value d f = Inr (if fd_kind f = K_select then JStr (num_str (Fin q)) else JNum (Fin q))"
proof -
  obtain k where k: "q = of_int k" using assms(3) unfolding whole_in_def by blast
  then have b: "-2147483648 \<le> k" "k \<le> 2147483647" using assms(3) by (simp_all add: whole_in_def)
  then have a: "\<bar>k\<bar> < 10 ^ 15" by simp
  have ne: "num_str (Fin (of_int k)) \<noteq> []" using num_str_int [OF a] dec_str_nonempty by simp
  have safe: "isSafeInteger (Fin (of_int k))" using b by (simp add: isSafeInteger_def)
  show ?thesis
    using assms(1,2) b ne safe str_num_num_str_int [OF a] integer_text_num [OF a] unfolding k
    by (auto simp: field_value_def simp del: num_str.simps)
qed

lemma field_resaved:
  assumes "field_ok systemId f (valueFor row (fd_name f))" "map_of d (fd_name f) = Some (initial_value (Some row) systemId f)"
  shows "field_value d f = Inr (kept f (valueFor row (fd_name f)))"
proof -
  let ?v = "valueFor row (fd_name f)"
  have gone: ?thesis if "?v = None \<or> ?v = Some JNull"
  proof -
    have ok: "absent_ok systemId f" using that assms(1) by (auto simp: field_ok_def)
    then have "map_of d (fd_name f) = Some []"
      using that assms(2) by (auto simp: initial_value_def missing_value_def absent_ok_def)
    from field_value_absent [OF this ok] show ?thesis using that by (auto simp: kept_def)
  qed
  show ?thesis
  proof (cases ?v)
    case None
    then show ?thesis using gone by simp
  next
    case (Some j)
    show ?thesis
    proof (cases j)
      case JNull
      then show ?thesis using gone Some by simp
    next
      case (JBool b)
      have "trim ''true'' = ''true''" "trim ''false'' = ''false''" by (simp_all add: trim_def is_space_def)
      then show ?thesis using assms Some JBool by (auto simp: field_ok_def initial_value_def field_value_def kept_def)
    next
      case (JNum x)
      then obtain q where q: "x = Fin q" "fd_kind f \<in> {K_integer, K_select}" "whole_in (-2147483648) 2147483647 q"
        using assms(1) Some by (auto simp: field_ok_def split: jsnum.splits)
      have "map_of d (fd_name f) = Some (num_str (Fin q))" using assms(2) Some JNum q(1) by (simp add: initial_value_def del: num_str.simps)
      from field_value_number [OF this q(2,3)] show ?thesis using Some JNum q(1) by (simp add: kept_def)
    next
      case (JStr s)
      then show ?thesis using assms Some field_value_text [of d f s] by (simp add: field_ok_def initial_value_def kept_def)
    next
      case (JArr xs)
      then have k: "fd_kind f = K_csv" and "list_all json_item xs" using assms(1) Some by (auto simp: field_ok_def)
      then obtain ss where ss: "xs = map JStr ss" "\<forall>s \<in> set ss. csv_item s" using items_texts by blast
      have "map_of d (fd_name f) = Some (join_with '', '' ss)"
        using assms(2) Some JArr join_elements [of ss] unfolding ss(1) by (simp only: initial_value_def option.case json.case)
      then show ?thesis using k ss Some JArr trim_csv [OF ss(2)] csv_items_join [OF ss(2)] by (simp add: field_value_def kept_def)
    next
      case (JObj ms)
      then show ?thesis using assms(1) Some by (simp add: field_ok_def)
    qed
  qed
qed

section \<open>Drafts of rows\<close>

lemma draft_field:
  assumes "f \<in> set (fieldsFor r)"
  shows "map_of (initialDraft r row systemId) (fd_name f) = Some (initial_value row systemId f)"
proof -
  let ?ps = "map (\<lambda>field. (fd_name field, initial_value row systemId field)) (fieldsFor r)"
  have d: "distinct (map fst ?ps)" using schema_names(1) [of r] by (simp add: names_ok_def comp_def)
  have "map_of ?ps (fd_name f) = Some (initial_value row systemId f)"
    using map_of_is_SomeI [OF d] assms by force
  moreover have "fd_name f \<notin> set [''cutRule.enabled'', ''couplingRule.enabled'', ''reinforcementRule.enabled'']"
    using schema_names(2) [of r] assms by (auto simp del: set_simps)
  ultimately show ?thesis
    unfolding initialDraft_def Let_def map_of_map_new rev_append map_of_append map_of_rev_distinct [OF d] by (simp add: map_add_def)
qed

lemma valueFor_head:
  "valueFor (JObj vs) n = foldl (\<lambda>current key. Option.bind current (json_member key)) (map_of vs (hd (split_on CHR ''.'' n))) (tl (split_on CHR ''.'' n))"
proof -
  obtain p ps where "split_on CHR ''.'' n = p # ps" using split_on_nonempty by (cases "split_on CHR ''.'' n") blast+
  then show ?thesis by (simp add: valueFor_def json_member_def)
qed

lemma valueFor_update: "k \<noteq> hd (split_on CHR ''.'' n) \<Longrightarrow> valueFor (JObj (AList.update k v vs)) n = valueFor (JObj vs) n"
  by (simp add: valueFor_head update_conv')

lemma valueFor_put: "k \<noteq> hd (split_on CHR ''.'' n) \<Longrightarrow> valueFor (JObj (put_defined k v vs)) n = valueFor (JObj vs) n"
  by (simp add: put_defined_def valueFor_update split: option.split)

lemma lookup_None: "foldl (\<lambda>current key. Option.bind current (json_member key)) None ks = None"
  by (induction ks) auto

lemma valueFor_or_null: "valueFor (JObj vs) n = Some v \<Longrightarrow> valueFor (JObj (null_default k vs)) n = Some v"
proof (cases "map_of vs k")
  case None
  assume v: "valueFor (JObj vs) n = Some v"
  then have "k \<noteq> hd (split_on CHR ''.'' n)" using None by (auto simp: valueFor_head lookup_None)
  then show ?thesis using None v by (simp add: null_default_def valueFor_update)
qed (simp add: null_default_def)

lemma with_extras_keeps:
  assumes "with_extras r x vs = Inr w" "valueFor (JObj vs) n = Some v" "n \<in> set (map fd_name (fieldsFor r))"
  shows "valueFor (JObj w) n = Some v"
proof -
  have h: "hd (split_on CHR ''.'' n) \<notin> set [''dimensional_limits'', ''opening_capabilities'', ''paired_leaf_rule'', ''finish_authority'',
      ''extra_authority'', ''class_authority'', ''contents'', ''section'']"
    using schema_heads [of r] assms(3) by (auto simp: heads_def simp del: set_simps)
  show ?thesis
  proof (cases r)
    case Systems
    then show ?thesis using assms(1,2) h by (auto simp: valueFor_put valueFor_or_null)
  next
    case Articles
    then show ?thesis using assms(1,2) h by (auto simp: result_bind_Inr valueFor_update intro!: valueFor_or_null)
  next
    case Glazing
    then show ?thesis using assms by simp
  next
    case HardwareKits
    then show ?thesis using assms(1,2) h by (auto simp: valueFor_put valueFor_update)
  qed
qed

section \<open>Sections\<close>

definition clean :: "string \<Rightarrow> bool" where
  "clean s \<longleftrightarrow> s \<noteq> [] \<and> trim s = s \<and> CHR '','' \<notin> set s \<and> \<not> is_grouped s"

definition section_ok :: "ProfileSection \<Rightarrow> bool" where
  "section_ok s \<longleftrightarrow> 3 \<le> length (polygon s) \<and> list_all (\<lambda>p. clean (px_mm p) \<and> clean (py_mm p)) (polygon s) \<and> clean (sec_depth_mm s) \<and>
     (case axes s of None \<Rightarrow> False | Some xs \<Rightarrow> list_all (\<lambda>a. ax_name a \<noteq> [] \<and> trim (ax_name a) = ax_name a \<and> clean (ax_y_mm a)) xs) \<and>
     (case drawing_ref s of Undef \<Rightarrow> False | Null \<Rightarrow> sec_source s = POLYGON | Val t \<Rightarrow> t \<noteq> [] \<and> trim t = t) \<and>
     orientation s \<noteq> None \<and> local_origin s \<noteq> None"

lemma clean_exact: "clean s \<Longrightarrow> exact s = s \<and> s \<noteq> []"
  using exact_clean by (simp add: clean_def)

lemma map_keyed: "map (\<lambda>(_, v). g v) (map (\<lambda>(i, p). (uuid i, p)) (entries_from n xs)) = map g xs"
  by (induction xs arbitrary: n) auto

lemma map_keyed_filter: "list_all P xs \<Longrightarrow> map (\<lambda>(_, v). g v) (filter (\<lambda>(_, a). P a) (map (\<lambda>(i, p). (uuid i, p)) (entries_from n xs))) = map g xs"
  by (induction xs arbitrary: n) auto

lemma map_same: "list_all (\<lambda>x. g x = x) xs \<Longrightarrow> map g xs = xs"
  by (induction xs) auto

lemma section_resaved:
  assumes "section_ok s"
  shows "sectionFromDraft (Some (initialSectionDraft uuid (Some s))) = Inr (Some s)"
proof -
  obtain xs o' l where x: "axes s = Some xs" "orientation s = Some o'" "local_origin s = Some l"
    using assms by (auto simp: section_ok_def split: option.splits)
  have a: "list_all (\<lambda>a. trim (ax_name a) = [] \<longrightarrow> trim (ax_y_mm a) \<noteq> []) xs"
    "map (\<lambda>a. \<lparr>ax_name = trim (ax_name a), ax_y_mm = exact (ax_y_mm a)\<rparr>) xs = xs"
    using assms x(1) clean_exact by (auto simp: section_ok_def list_all_iff intro!: map_idI)
  have p: "map (\<lambda>v. \<lparr>px_mm = exact (px_mm v), py_mm = exact (py_mm v)\<rparr>) (polygon s) = polygon s"
    using assms clean_exact by (auto simp: section_ok_def list_all_iff intro!: map_idI)
  have q: "\<not> list_ex (\<lambda>p. px_mm p = [] \<or> py_mm p = []) (polygon s)" "\<not> length (polygon s) < 3" "exact (sec_depth_mm s) = sec_depth_mm s" "sec_depth_mm s \<noteq> []"
    using assms clean_exact by (auto simp: section_ok_def list_all_iff list_ex_iff clean_def)
  have r: "drawing_ref s = Null \<and> sec_source s = POLYGON \<or> (\<exists>t. drawing_ref s = Val t \<and> t \<noteq> [] \<and> trim t = t)"
    using assms by (auto simp: section_ok_def split: field.splits)
  have src: "(if sec_source s = DXF_REFERENCE then DXF_REFERENCE else POLYGON) = sec_source s" by (cases "sec_source s") auto
  have e: "trim [] = []" by (simp add: trim_def)
  note as = map_keyed_filter [OF a(1), of "\<lambda>a. \<lparr>ax_name = trim (ax_name a), ax_y_mm = exact (ax_y_mm a)\<rparr>", unfolded a(2)]
  show ?thesis
    using r q x src e
    by (auto simp: sectionFromDraft_def initialSectionDraft_def Let_def map_keyed p as simp del: map_map list.map_comp
      intro!: ProfileSection.equality)
qed

section \<open>Rules that are not there\<close>

definition member_truthy :: "string \<Rightarrow> json \<Rightarrow> bool" where
  "member_truthy k row = (case json_member k row of None \<Rightarrow> False | Some v \<Rightarrow> json_truthy v)"

definition rule_groups :: "(string \<times> string) list" where
  "rule_groups = [(''cut_rule'', ''cutRule''), (''coupling_rule'', ''couplingRule''), (''reinforcement_rule'', ''reinforcementRule'')]"

lemma rule_fields:
  "list_all (\<lambda>(k, g). list_all (\<lambda>grp. list_all (\<lambda>f. hd (split_on CHR ''.'' (fd_name f)) = k \<longrightarrow> g_title grp = g) (g_fields grp)) (schemas Articles)) rule_groups"
  by code_simp

lemma draft_enabled:
  assumes "(k, g) \<in> set rule_groups"
  shows "map_of (initialDraft r (Some row) systemId) (g @ ''.enabled'') = Some (flag (member_truthy k row))"
  using assms unfolding initialDraft_def Let_def map_of_map_new rule_groups_def
  by (auto simp: map_add_def member_truthy_def rev_map)

lemma hidden_rule:
  assumes "(k, g) \<in> set rule_groups" "\<not> member_truthy k row"
  shows "k \<notin> set (heads (map fd_name (active_fields Articles (initialDraft Articles (Some row) systemId))))"
proof
  let ?d = "initialDraft Articles (Some row) systemId"
  assume "k \<in> set (heads (map fd_name (active_fields Articles ?d)))"
  then obtain grp f where f: "grp \<in> set (groupsFor Articles ?d)" "f \<in> set (g_fields grp)" "hd (split_on CHR ''.'' (fd_name f)) = k"
    by (auto simp: heads_def active_fields_def)
  have s: "grp \<in> set (schemas Articles)" using f(1) by (auto simp: groupsFor_def)
  have t: "g_title grp = g" using rule_fields assms(1) f(2,3) s unfolding list_all_iff by blast
  have g: "g \<in> {''cutRule'', ''reinforcementRule'', ''couplingRule''}" using assms(1) by (auto simp: rule_groups_def)
  have "map_of ?d (g_title grp @ ''.enabled'') = Some ''true''"
    using f(1) g unfolding groupsFor_def set_filter mem_Collect_eq t by blast
  then show False using draft_enabled [OF assms(1), of Articles row systemId] assms(2) by (simp add: t flag_def)
qed

lemma or_null_members: "map_of (null_default k vs) k' = (if k' = k \<and> map_of vs k = None then Some JNull else map_of vs k')"
  by (auto simp: null_default_def update_conv' split: option.splits)

lemma article_members:
  assumes "with_extras Articles x vs = Inr w" "sectionFromDraft (fx_section x) = Inr sec"
  shows "map_of w ''section'' = Some (case sec of None \<Rightarrow> JNull | Some s \<Rightarrow> section_json s)"
    "(k, g) \<in> set rule_groups \<Longrightarrow> map_of vs k = None \<Longrightarrow> map_of w k = Some JNull"
  using assms by (auto simp: or_null_members update_conv' rule_groups_def)

section \<open>Saving what was read\<close>

lemma written_values:
  assumes "list_all (\<lambda>f. field_ok systemId f (valueFor row (fd_name f))) (active_fields r (initialDraft r (Some row) systemId))"
  shows "\<exists>flat vs. map_result (\<lambda>field. map_sum id (Pair (fd_name field)) (field_value (initialDraft r (Some row) systemId) field))
      (active_fields r (initialDraft r (Some row) systemId)) = Inr flat \<and> nest_all (map_new flat) = Inr vs \<and>
    map fst flat = map fd_name (active_fields r (initialDraft r (Some row) systemId)) \<and> nested flat vs \<and>
    (\<forall>f \<in> set (active_fields r (initialDraft r (Some row) systemId)). (fd_name f, kept f (valueFor row (fd_name f))) \<in> set flat)"
proof -
  let ?d = "initialDraft r (Some row) systemId" let ?fs = "active_fields r ?d"
  define flat where "flat = map (\<lambda>f. (fd_name f, kept f (valueFor row (fd_name f)))) ?fs"
  have "field_value ?d f = Inr (kept f (valueFor row (fd_name f)))" if "f \<in> set ?fs" for f
  proof (rule field_resaved)
    show "field_ok systemId f (valueFor row (fd_name f))" using assms that by (simp add: list_all_iff)
    show "map_of ?d (fd_name f) = Some (initial_value (Some row) systemId f)" using draft_field active_subset that by blast
  qed
  then have "map_result (\<lambda>field. map_sum id (Pair (fd_name field)) (field_value ?d field)) ?fs = Inr flat"
    by (simp add: map_result_Inr flat_def)
  moreover have names: "map fst flat = map fd_name ?fs" by (simp add: flat_def comp_def)
  then have ok: "names_ok (map fst flat)" using active_names [of r ?d] by simp
  then have m: "map_new flat = flat" by (simp add: names_ok_def map_new_distinct)
  from nest_all_nested [OF ok] obtain vs where "nest_all flat = Inr vs" "nested flat vs" by blast
  moreover have "\<forall>f \<in> set ?fs. (fd_name f, kept f (valueFor row (fd_name f))) \<in> set flat" by (simp add: flat_def)
  ultimately show ?thesis using names m by metis
qed

text \<open>The components of a kit that a form holds without loss.\<close>

definition component_ok :: "HardwareComponent \<Rightarrow> bool" where
  "component_ok c \<longleftrightarrow> trim (hc_sku c) = hc_sku c \<and> trim (hc_name c) = hc_name c \<and> trim (hc_unit c) = hc_unit c \<and> clean (hc_qty c)"

text \<open>The five members that a component is written with.\<close>

definition component_members :: "HardwareComponent \<Rightarrow> (string \<times> json) list" where
  "component_members c = [(''sku'', JStr (hc_sku c)), (''name'', JStr (hc_name c)), (''qty'', JStr (hc_qty c)), (''unit'', JStr (hc_unit c)),
     (''category'', JStr (case hc_category c of None \<Rightarrow> ''OTHER'' | Some k \<Rightarrow> k))]"

text \<open>The values that the editor of a resource keeps beside the fields of its form.\<close>

definition beside :: "Resource \<Rightarrow> FormExtras \<Rightarrow> (string \<times> json option) list" where
  "beside r x = (case r of
       Systems \<Rightarrow> [(''dimensional_limits'', fx_limits x), (''opening_capabilities'', fx_openingCapabilities x), (''paired_leaf_rule'', fx_pairedRule x),
         (''finish_authority'', fx_finishAuthority x), (''extra_authority'', fx_extraAuthority x)]
     | HardwareKits \<Rightarrow> [(''class_authority'', fx_hardwareClass x)] | _ \<Rightarrow> [])"

lemma beside_written: "with_extras r x vs = Inr w \<Longrightarrow> (k, Some j) \<in> set (beside r x) \<Longrightarrow> map_of w k = Some j"
  by (cases r) (auto simp: beside_def put_defined_def update_conv' split: option.splits)

lemma kit_contents:
  assumes "with_extras HardwareKits x vs = Inr w" "list_all component_ok (fx_contents x)"
  shows "map_of w ''contents'' = Some (JArr (map (\<lambda>c. JObj (component_members c)) (fx_contents x)))"
proof -
  have "component_json c = JObj (component_members c)" if "component_ok c" for c
    using that clean_exact [of "hc_qty c"] by (simp add: component_ok_def component_json_def component_members_def)
  then have "map component_json (fx_contents x) = map (\<lambda>c. JObj (component_members c)) (fx_contents x)" using assms(2) by (simp add: list_all_iff)
  then show ?thesis using assms(1) by (auto simp: update_conv')
qed

text \<open>
  C32. Saving a catalog form that was opened on a row and not edited, when the row holds only values that the form holds
  without loss: decimals that are not grouped by thousands, trimmed texts, list items without commas, integers of 32 bits, nothing
  absent that is required, a section with every member, components with trimmed texts and such a quantity. Then the
  form is accepted. Every field shown has the value that was read, except that an absent value becomes null (an absent list the
  empty one) and a number chosen from a list becomes its text. The section of an article is as it was and its absent rules are null;
  a kit's components are written in their order with exactly their sku, name, quantity, unit and category (their other members are not
  written); the values kept beside the fields are written as they are. The request updates that row under the revision that was read
  and the organisation, whatever the server answers.
\<close>
theorem catalog_resave:
  assumes "list_all (\<lambda>f. field_ok systemId f (valueFor row (fd_name f))) (active_fields r (initialDraft r (Some row) systemId))"
    and "r = Articles \<Longrightarrow> fx_section x = Some (initialSectionDraft uuid scn)"
    and "\<And>s. scn = Some s \<Longrightarrow> section_ok s" and "rowId \<noteq> []" and "list_all component_ok (fx_contents x)"
  shows "\<exists>body. writeFromDraft r (initialDraft r (Some row) systemId) x = Inr body \<and>
    (\<forall>f \<in> set (active_fields r (initialDraft r (Some row) systemId)).
       valueFor body (fd_name f) = Some (kept f (valueFor row (fd_name f)))) \<and>
    (r = Articles \<longrightarrow>
       json_member ''section'' body = Some (case scn of None \<Rightarrow> JNull | Some s \<Rightarrow> section_json s) \<and>
       (\<forall>k \<in> {''cut_rule'', ''coupling_rule'', ''reinforcement_rule''}. \<not> member_truthy k row \<longrightarrow> json_member k body = Some JNull)) \<and>
    (r = HardwareKits \<longrightarrow> json_member ''contents'' body = Some (JArr (map (\<lambda>c. JObj (component_members c)) (fx_contents x)))) \<and>
    (\<forall>k j. (k, Some j) \<in> set (beside r x) \<longrightarrow> json_member k body = Some j) \<and>
    (\<forall>client. api_save client orgId r body (Some rowId) (Some revision) =
       api_call client \<lparr>operation = resource_name r @ ''Update'', path_id = Some rowId, query = [], req_body = Some body,
           req_headers = [(''X-Organization-ID'', orgId), (''If-Match'', [CHR 0x22] @ revision @ [CHR 0x22])]\<rparr>
         {200, 201} ''catalog_write_failed'')"
proof -
  let ?d = "initialDraft r (Some row) systemId"
  from written_values [OF assms(1)] obtain flat vs where
    flat: "map_result (\<lambda>field. map_sum id (Pair (fd_name field)) (field_value ?d field)) (active_fields r ?d) = Inr flat"
    and vs: "nest_all (map_new flat) = Inr vs" and names: "map fst flat = map fd_name (active_fields r ?d)" and n: "nested flat vs"
    and kv: "\<forall>f \<in> set (active_fields r ?d). (fd_name f, kept f (valueFor row (fd_name f))) \<in> set flat" by blast
  have sec: "sectionFromDraft (fx_section x) = Inr scn" if "r = Articles"
    using assms(2) [OF that] assms(3) section_resaved by (cases scn) (auto simp: sectionFromDraft_def initialSectionDraft_def Let_def)
  obtain w where w: "with_extras r x vs = Inr w" using sec by (cases r) auto
  have body: "writeFromDraft r ?d x = Inr (JObj w)" using flat vs w by (simp add: writeFromDraft_def)
  have shown: "valueFor (JObj w) (fd_name f) = Some (kept f (valueFor row (fd_name f)))" if "f \<in> set (active_fields r ?d)" for f
  proof (rule with_extras_keeps [OF w])
    show "valueFor (JObj vs) (fd_name f) = Some (kept f (valueFor row (fd_name f)))" using n kv that by (auto simp: nested_def)
    show "fd_name f \<in> set (map fd_name (fieldsFor r))" using that active_subset by fastforce
  qed
  have art: "map_of w ''section'' = Some (case scn of None \<Rightarrow> JNull | Some s \<Rightarrow> section_json s)"
    "\<And>k g. (k, g) \<in> set rule_groups \<Longrightarrow> \<not> member_truthy k row \<Longrightarrow> map_of w k = Some JNull" if "r = Articles"
  proof -
    have w': "with_extras Articles x vs = Inr w" using w that by simp
    show "map_of w ''section'' = Some (case scn of None \<Rightarrow> JNull | Some s \<Rightarrow> section_json s)"
      by (rule article_members(1) [OF w' sec [OF that]])
    show "map_of w k = Some JNull" if k: "(k, g) \<in> set rule_groups" "\<not> member_truthy k row" for k g
    proof -
      have "map_of vs k = None" using hidden_rule [OF k] n names \<open>r = Articles\<close> unfolding nested_def by (metis not_None_eq)
      then show ?thesis using article_members(2) [OF w' sec [OF \<open>r = Articles\<close>] k(1)] by simp
    qed
  qed
  have kit: "map_of w ''contents'' = Some (JArr (map (\<lambda>c. JObj (component_members c)) (fx_contents x)))" if "r = HardwareKits"
    using kit_contents [OF w [unfolded that] assms(5)] .
  obtain c cs where "rowId = c # cs" using assms(4) by (cases rowId) auto
  then show ?thesis
    using body shown art kit beside_written [OF w] unfolding rule_groups_def
    by (intro exI [of _ "JObj w"]) (auto simp: api_save_def save_request_def org_header_def if_match_def json_member_def)
qed

text \<open>An article with a section and a rule of reinforcement, and no other rules.\<close>

definition sample_section :: ProfileSection where
  "sample_section = \<lparr>sec_source = POLYGON,
     polygon = [\<lparr>px_mm = ''0.00'', py_mm = ''0.00''\<rparr>, \<lparr>px_mm = ''70.00'', py_mm = ''0.00''\<rparr>, \<lparr>px_mm = ''70.00'', py_mm = ''58.50''\<rparr>],
     sec_depth_mm = ''70.00'', axes = Some [\<lparr>ax_name = ''gasket'', ax_y_mm = ''12.00''\<rparr>], drawing_ref = Null,
     orientation = Some EXTERIOR_UP, local_origin = Some CENTROID\<rparr>"

definition sample_article :: json where
  "sample_article = JObj [(''system_id'', JStr ''s1''), (''sku'', JStr ''F-70''), (''name'', JStr ''Marco''), (''material'', JStr ''PVC''),
     (''role'', JStr ''FRAME''), (''reinforcement_rule'', JObj [(''reinforcement_sku'', JStr ''A-3''), (''reinforcement_type'', JStr ''U''),
        (''minimum_length_mm'', JStr ''700.00''), (''required_finishes'', JArr [JStr ''OAK'', JStr ''GREY'']), (''required_non_white'', JBool True),
        (''cut_deduction_mm'', JStr ''10.00''), (''screws_per_m'', JStr ''3.5000''), (''screw_sku'', JStr ''T-1''), (''screw_weight_kg'', JNull),
        (''source'', JStr ''Manual'')]),
     (''face_width_mm'', JStr ''70.00''), (''commercial_length_mm'', JNull), (''weight_kg_m'', JStr ''1.2345'')]"

definition sample_form :: FormExtras where
  "sample_form = \<lparr>fx_contents = [], fx_section = Some (initialSectionDraft nat_str (Some sample_section)), fx_limits = None,
     fx_openingCapabilities = None, fx_pairedRule = None, fx_hardwareClass = None, fx_finishAuthority = None, fx_extraAuthority = None\<rparr>"

text \<open>A kit with one component, which was bought under another identity.\<close>

definition sample_kit :: json where
  "sample_kit = JObj [(''sku'', JStr ''H-1''), (''name'', JStr ''Herraje''), (''opening_type'', JStr ''TURN''), (''rail_type'', JStr ''dual''), (''is_active'', JBool True),
     (''min_leaf_width_mm'', JStr ''300.00''), (''max_leaf_width_mm'', JStr ''1200.00''), (''min_leaf_height_mm'', JStr ''400.00''),
     (''max_leaf_height_mm'', JStr ''2200.00''), (''max_leaf_weight_kg'', JStr ''80.0000''), (''carriages_qty'', JNum (Fin 0)),
     (''stay_arms_qty'', JNum (Fin 2)), (''weight_kg'', JNull), (''carriage_capacity_kg'', JNull)]"

definition sample_component :: HardwareComponent where
  "sample_component = \<lparr>hc_sku = ''B-7'', hc_name = ''Bisagra'', hc_qty = ''2'', hc_unit = ''UN'', hc_category = None,
     hc_purchasing_sku = Some ''P-7'', hc_manufacturer_name = Some ''Fabricante'', hc_source = None\<rparr>"

definition kit_form :: FormExtras where
  "kit_form = \<lparr>fx_contents = [sample_component], fx_section = None, fx_limits = None, fx_openingCapabilities = None, fx_pairedRule = None,
     fx_hardwareClass = Some (JStr ''RC2''), fx_finishAuthority = None, fx_extraAuthority = None\<rparr>"

lemma kit_fields: "active_fields HardwareKits d = fieldsFor HardwareKits"
proof -
  have "list_all (\<lambda>g. g_title g \<notin> {''cutRule'', ''reinforcementRule'', ''couplingRule'', ''slidingGeometry'', ''doorGeometry''}) (schemas HardwareKits)"
    by code_simp
  then have "filter P (schemas HardwareKits) = schemas HardwareKits" if "\<And>g. g_title g \<notin> {''cutRule'', ''reinforcementRule'', ''couplingRule'', ''slidingGeometry'', ''doorGeometry''} \<Longrightarrow> P g" for P
    using that by (simp add: list_all_iff filter_id_conv)
  then show ?thesis by (simp add: active_fields_def fieldsFor_def groupsFor_def)
qed

lemma sample_kit_ok: "list_all (\<lambda>f. field_ok None f (valueFor sample_kit (fd_name f))) (fieldsFor HardwareKits)"
  by code_simp

theorem catalog_resave_witness:
  "(\<exists>body. writeFromDraft Articles (initialDraft Articles (Some sample_article) None) sample_form = Inr body \<and>
     json_member ''section'' body = Some (section_json sample_section) \<and> json_member ''coupling_rule'' body = Some JNull \<and>
     (\<forall>client. api_save client ''o1'' Articles body (Some ''a1'') (Some ''r7'') =
       api_call client \<lparr>operation = ''catalogArticleUpdate'', path_id = Some ''a1'', query = [], req_body = Some body,
           req_headers = [(''X-Organization-ID'', ''o1''), (''If-Match'', [CHR 0x22] @ ''r7'' @ [CHR 0x22])]\<rparr>
         {200, 201} ''catalog_write_failed'')) \<and>
   (\<exists>body. writeFromDraft HardwareKits (initialDraft HardwareKits (Some sample_kit) None) kit_form = Inr body \<and>
     json_member ''class_authority'' body = Some (JStr ''RC2'') \<and>
     json_member ''contents'' body = Some (JArr [JObj [(''sku'', JStr ''B-7''), (''name'', JStr ''Bisagra''), (''qty'', JStr ''2''),
       (''unit'', JStr ''UN''), (''category'', JStr ''OTHER'')]]))"
proof
  have ok: "list_all (\<lambda>f. field_ok None f (valueFor sample_article (fd_name f)))
      (active_fields Articles (initialDraft Articles (Some sample_article) None))" by code_simp
  have s: "section_ok sample_section" by code_simp
  have m: "\<not> member_truthy ''coupling_rule'' sample_article" by code_simp
  show "\<exists>body. writeFromDraft Articles (initialDraft Articles (Some sample_article) None) sample_form = Inr body \<and>
     json_member ''section'' body = Some (section_json sample_section) \<and> json_member ''coupling_rule'' body = Some JNull \<and>
     (\<forall>client. api_save client ''o1'' Articles body (Some ''a1'') (Some ''r7'') =
       api_call client \<lparr>operation = ''catalogArticleUpdate'', path_id = Some ''a1'', query = [], req_body = Some body,
           req_headers = [(''X-Organization-ID'', ''o1''), (''If-Match'', [CHR 0x22] @ ''r7'' @ [CHR 0x22])]\<rparr>
         {200, 201} ''catalog_write_failed'')"
    using catalog_resave [OF ok, of sample_form nat_str "Some sample_section" "''a1''" "''o1''" "''r7''"] s m
    by (auto simp: sample_form_def)
next
  have ok: "list_all (\<lambda>f. field_ok None f (valueFor sample_kit (fd_name f)))
      (active_fields HardwareKits (initialDraft HardwareKits (Some sample_kit) None))" unfolding kit_fields by (rule sample_kit_ok)
  have c: "list_all component_ok (fx_contents kit_form)" by code_simp
  have k: "(''class_authority'', Some (JStr ''RC2'')) \<in> set (beside HardwareKits kit_form)" by (simp add: beside_def kit_form_def)
  obtain body where "writeFromDraft HardwareKits (initialDraft HardwareKits (Some sample_kit) None) kit_form = Inr body"
    "json_member ''contents'' body = Some (JArr (map (\<lambda>c. JObj (component_members c)) (fx_contents kit_form)))"
    "\<forall>k j. (k, Some j) \<in> set (beside HardwareKits kit_form) \<longrightarrow> json_member k body = Some j"
  proof -
    have p: "HardwareKits = Articles \<Longrightarrow> fx_section kit_form = Some (initialSectionDraft nat_str None)"
      "\<And>s. None = Some s \<Longrightarrow> section_ok s" "''k1'' \<noteq> []" by simp_all
    from catalog_resave [OF ok p c] show thesis using that by blast
  qed
  then show "\<exists>body. writeFromDraft HardwareKits (initialDraft HardwareKits (Some sample_kit) None) kit_form = Inr body \<and>
     json_member ''class_authority'' body = Some (JStr ''RC2'') \<and>
     json_member ''contents'' body = Some (JArr [JObj [(''sku'', JStr ''B-7''), (''name'', JStr ''Bisagra''), (''qty'', JStr ''2''),
       (''unit'', JStr ''UN''), (''category'', JStr ''OTHER'')]])"
    using k by (auto simp: kit_form_def component_members_def sample_component_def)
qed

section \<open>What a form changes\<close>

text \<open>A decimal with up to three digits before the point and three after it is taken for thousands and loses its point,
  also when it comes from a row and nobody typed it; the quantity of a component has no fixed number of places.\<close>

lemma exact_thousandths:
  assumes "list_all is_digit w" "1 \<le> length w" "length w \<le> 3" "list_all is_digit f" "length f = 3"
  shows "exact (w @ CHR ''.'' # f) = w @ f"
proof -
  have w: "\<forall>c \<in> set w. is_digit c" "\<forall>c \<in> set f. is_digit c" "w \<noteq> []" "f \<noteq> []" using assms by (auto simp: list_all_iff)
  then have t: "trim (w @ CHR ''.'' # f) = w @ CHR ''.'' # f" by (simp add: trim_fixed digit_not_space)
  obtain c cs where c: "w = c # cs" using w(3) by (cases w) auto
  have "drop_sign (w @ CHR ''.'' # f) = w @ CHR ''.'' # f" using digit_not_special [of c] w(1) by (simp add: c drop_sign_def)
  moreover have "dot_groups (CHR ''.'' # f)" using assms by (simp add: dot_groups.simps)
  ultimately have "is_grouped (w @ CHR ''.'' # f)"
    using assms takeWhile_digits [OF w(1), of f] dropWhile_digits [OF w(1), of f] by (simp add: is_grouped_def)
  moreover have "filter (\<lambda>c. c \<noteq> CHR ''.'') (w @ CHR ''.'' # f) = w @ f"
    using w digit_not_special by (auto simp: filter_id_conv)
  moreover have "CHR '','' \<notin> set (w @ f)" using w digit_not_special by auto
  ultimately show ?thesis by (simp add: exact_def t replace_first_id)
qed

text \<open>A component is written without the identity it is bought under.\<close>

lemma component_loses_purchase:
  "json_member ''purchasing_sku'' (component_json item) = None" "json_member ''manufacturer_name'' (component_json item) = None"
  "json_member ''source'' (component_json item) = None"
  by (simp_all add: component_json_def json_member_def)

end
