(* ===== verification/SeriesSheet.thy ===== *)
theory SeriesSheet
  imports CatalogForms DecimalProps
begin

text \<open>
  \<open>catalogs/seriesSheetModel.ts\<close>, \<open>seriesSheetErrors.ts\<close> and the cell check of \<open>ui/EditableTable.tsx\<close>: the tables
  a series is edited in, the check of a typed cell, the batch of writes that a set of changed cells
  becomes, and the cells that the server's refusal of a batch points to. Identities of rows are never the
  names of members that every object inherits.
\<close>

section \<open>Editable tables\<close>

datatype ColumnKind = C_decimal | C_text

record EditableColumn =
  col_id :: string
  col_label :: string
  col_kind :: "ColumnKind option"
  col_precision :: "nat option"
  col_nullable :: "bool option"
  col_min :: "string option"
  col_max :: "string option"
  col_unit :: "string option"
  col_readOnly :: "bool option"
  col_validate :: "(string option \<Rightarrow> string option) option"

definition new_column :: "string \<Rightarrow> string \<Rightarrow> EditableColumn" where
  "new_column i l = \<lparr>col_id = i, col_label = l, col_kind = None, col_precision = None, col_nullable = None, col_min = None,
     col_max = None, col_unit = None, col_readOnly = None, col_validate = None\<rparr>"

record CellOptions =
  co_precision :: "nat option"
  co_nullable :: "bool option"
  co_min :: "string option"
  co_max :: "string option"

record EditableRow =
  row_key :: string
  row_label :: string
  row_values :: "(string \<times> string option) list"
  row_suggested :: "bool option"
  row_options :: "(string \<times> CellOptions) list option"

record TableChange =
  ch_rowId :: string
  ch_columnId :: string
  ch_value :: "string option"
  ch_previous :: "string option"

definition shown :: "string option \<Rightarrow> EditableColumn \<Rightarrow> string" where
  "shown value column =
     (let v = (case value of None \<Rightarrow> [] | Some s \<Rightarrow> s)
      in if col_kind column = Some C_decimal then replace_first CHR ''.'' CHR '','' v else v)"

text \<open>A typed cell: the value it stands for and what is wrong with it.\<close>

definition parsed :: "string \<Rightarrow> EditableColumn \<Rightarrow> (string option \<times> string option) result" where
  "parsed text' column =
     (let places = (case col_precision column of None \<Rightarrow> 4 | Some p \<Rightarrow> p);
          value = (if trim text' = [] then None
            else if col_kind column = Some C_decimal then parseDecimalInput (units text') places else Some text');
          checked = (case col_validate column of None \<Rightarrow> None | Some f \<Rightarrow> f value)
      in if value = None \<and> trim text' \<noteq> [] then
           Inr (value, Some ((''Escribe un n'' @ ac_u @ ''mero con hasta '') @ nat_str places @ '' decimales, por ejemplo 3,25.''))
         else if value = None \<and> col_nullable column \<noteq> Some True then Inr (value, Some ''Completa este valor.'')
         else case value of None \<Rightarrow> Inr (value, checked)
          | Some v \<Rightarrow>
             if col_kind column \<noteq> Some C_decimal then Inr (value, checked)
             else result_bind (case col_min column of None \<Rightarrow> Inr False | Some m \<Rightarrow> map_sum id (\<lambda>c. c < 0) (compareDecimal v m)) (\<lambda>low.
               if low then Inr (value, Some (''Usa un valor de al menos '' @ shown (col_min column) column @ ''.''))
               else result_bind (case col_max column of None \<Rightarrow> Inr False | Some m \<Rightarrow> map_sum id (\<lambda>c. 0 < c) (compareDecimal v m)) (\<lambda>high.
                 if high then Inr (value, Some (''Usa un valor de hasta '' @ shown (col_max column) column @ ''.''))
                 else Inr (value, checked))))"

section \<open>Series\<close>

datatype SeriesTab = T_profiles | T_rules | T_hardware | T_glazing_colors | T_typologies | T_prices | T_workshop

definition seriesTabs :: "(SeriesTab \<times> string) list" where
  "seriesTabs = [(T_profiles, ''Perfiles''), (T_rules, ''Reglas''), (T_hardware, ''Herrajes''), (T_glazing_colors, ''Vidrios y colores''),
     (T_typologies, (''Tipolog'' @ ac_i @ ''as'')), (T_prices, ''Precios''), (T_workshop, ''Taller'')]"

datatype CellOrigin = SUGGESTED | OtherOrigin

record SeriesCell =
  sc_resource :: Resource
  sc_row_id :: string
  sc_field :: string
  sc_value :: "string option"
  sc_origin :: "CellOrigin option"

text \<open>A row of a tab: its identity, its name if it has one, and its other members.\<close>

record SheetItem =
  it_id :: string
  it_name :: "string option"
  it_members :: "(string \<times> json) list"

record SheetRules =
  ru_name :: string
  ru_system_family :: "string field"
  ru_limits :: "(string \<times> json) list list field"
  ru_colors :: "(string \<times> json) list list option"

record SeriesSheet =
  sh_id :: string
  sh_cells :: "SeriesCell list"
  sh_profiles :: "SheetItem list"
  sh_hardware :: "SheetItem list"
  sh_beads :: "SheetItem list"
  sh_finishes :: "string list"
  sh_rules :: SheetRules

record Binding =
  bi_cell :: SeriesCell
  bi_index :: "nat option"
  bi_field :: "string option"

type_synonym row_bindings = "(string \<times> (string \<times> Binding) list) list"

record SheetTable =
  tb_id :: string
  tb_label :: string
  tb_columns :: "EditableColumn list"
  tb_rows :: "EditableRow list"
  tb_bindings :: row_bindings

primrec cell_resource :: "Resource \<Rightarrow> string" where
  "cell_resource Systems = ''systems''"
| "cell_resource Articles = ''articles''"
| "cell_resource Glazing = ''glazing''"
| "cell_resource HardwareKits = ''hardware-kits''"

definition cell_address :: "Resource \<Rightarrow> string \<Rightarrow> string \<Rightarrow> string" where
  "cell_address resource rowId field = stringify (JArr [JStr (cell_resource resource), JStr rowId, JStr field])"

abbreviation address :: "SeriesCell \<Rightarrow> string" where
  "address cell \<equiv> cell_address (sc_resource cell) (sc_row_id cell) (sc_field cell)"

datatype UseLevel = DRAWABLE | QUOTABLE | MANUFACTURABLE | MACHINE_READY

primrec level_label :: "UseLevel \<Rightarrow> string" where
  "level_label DRAWABLE = ''Lista para dibujar''"
| "level_label QUOTABLE = ''Lista para cotizar''"
| "level_label MANUFACTURABLE = ''Lista para fabricar''"
| "level_label MACHINE_READY = (''Lista para m'' @ ac_a @ ''quina'')"

definition usageLabel :: "bool \<Rightarrow> UseLevel option \<Rightarrow> string" where
  "usageLabel is_example level = (if is_example then ''Ejemplo'' else case level of None \<Rightarrow> ''Completar serie'' | Some l \<Rightarrow> level_label l)"

section \<open>Columns\<close>

definition endsWith :: "string \<Rightarrow> string \<Rightarrow> bool" where
  "endsWith s suf \<longleftrightarrow> length suf \<le> length s \<and> drop (length s - length suf) s = suf"

text \<open>\<open>label.replace(/\s*\((?:mm|kg(?:\/m)?)\)$/, "")\<close>.\<close>

definition strip_unit :: "string \<Rightarrow> string" where
  "strip_unit s = (case List.find (endsWith s) [''(mm)'', ''(kg)'', ''(kg/m)''] of None \<Rightarrow> s
     | Some u \<Rightarrow> rev (dropWhile is_space (rev (take (length s - length u) s))))"

definition small_measures :: "string list" where
  "small_measures = [''sash_overlap_mm'', ''glass_clearance_white_mm'', ''glass_clearance_foil_mm'', ''pulley_height_mm'',
     ''central_overlap_mm'', ''sliding_lateral_clearance_mm'', ''sliding_end_add_mm'', ''corner_bracket_loss_mm'',
     ''hook_depth_mm'', ''door_threshold_mm'', ''door_bottom_clearance_mm'']"

text \<open>The least and the greatest value of a column.\<close>

fun decimalBounds :: "Resource \<Rightarrow> string \<Rightarrow> (string \<times> string) option" where
  "decimalBounds Systems i =
     (if endsWith i ''_mm'' then Some (if i \<in> {''depth_mm'', ''chamber_clearance_mm''} then ''0.01'' else ''0'',
        if i \<in> set small_measures then ''99.99'' else ''99999999.99'') else None)"
| "decimalBounds Articles i =
     (if i \<in> {''weight_kg_m'', ''steel_weight_kg_m''} then Some (if i = ''weight_kg_m'' then ''0.0001'' else ''0'', ''9999.9999'')
      else if endsWith i ''_mm'' then Some (if i \<in> {''face_width_mm'', ''commercial_length_mm'', ''cut_rule.cut_step_mm''} then ''0.01'' else ''0'',
        ''99999999.99'') else None)"
| "decimalBounds Glazing i =
     (if endsWith i ''_mm'' then Some (if i \<in> {''glass_thickness_mm'', ''bead_width_mm''} then ''0.01'' else ''0'', ''9999.99'') else None)"
| "decimalBounds HardwareKits i =
     (if endsWith i ''_mm'' \<or> i = ''max_leaf_weight_kg'' then Some (''0.01'', if i = ''max_leaf_weight_kg'' then ''9999.99'' else ''99999999.99'') else None)"

definition column :: "Resource \<Rightarrow> string \<Rightarrow> EditableColumn" where
  "column resource i =
     (let field = List.find (\<lambda>f. fd_name f = i) (fieldsFor resource);
          kind = map_option fd_kind field;
          bounds = decimalBounds resource i;
          label = (case Option.bind field fd_label of Some l \<Rightarrow> l | None \<Rightarrow> translate (''catalog.field.'' @ i))
      in \<lparr>col_id = i, col_label = strip_unit label,
          col_kind = Some (if kind = Some K_decimal \<or> kind = Some K_integer then C_decimal else C_text),
          col_precision = Some (if kind = Some K_integer then 0 else case Option.bind field fd_places of None \<Rightarrow> 2 | Some p \<Rightarrow> p),
          col_nullable = Some (case field of None \<Rightarrow> False | Some f \<Rightarrow> fd_optional f),
          col_min = map_option fst bounds, col_max = map_option snd bounds,
          col_unit = (if endsWith i ''_mm'' then Some ''mm''
            else if contains ''weight'' i then Some (if endsWith i ''_kg_m'' then ''kg/m'' else ''kg'') else None),
          col_readOnly = Some (i = ''sku''), col_validate = None\<rparr>)"

section \<open>Tables\<close>

definition cellAt :: "SeriesSheet \<Rightarrow> Resource \<Rightarrow> string \<Rightarrow> string \<Rightarrow> SeriesCell option" where
  "cellAt sheet resource rowId field = map_of (map_new (map (\<lambda>c. (address c, c)) (sh_cells sheet))) (cell_address resource rowId field)"

definition plain_row :: "string \<Rightarrow> string \<Rightarrow> (string \<times> string option) list \<Rightarrow> EditableRow" where
  "plain_row i l vs = \<lparr>row_key = i, row_label = l, row_values = vs, row_suggested = None, row_options = None\<rparr>"

text \<open>What an item says of a field that has no cell: \<open>item[field]\<close>, if it is a text.\<close>

definition item_text :: "SheetItem \<Rightarrow> string \<Rightarrow> string option" where
  "item_text item field =
     (if field = ''id'' then Some (it_id item) else if field = ''name'' then it_name item
      else case map_of (it_members item) field of Some (JStr s) \<Rightarrow> Some s | _ \<Rightarrow> None)"

definition records :: "SeriesSheet \<Rightarrow> string \<Rightarrow> string \<Rightarrow> Resource \<Rightarrow> SheetItem list \<Rightarrow> string list \<Rightarrow> SheetTable" where
  "records sheet i l resource items names =
     \<lparr>tb_id = i, tb_label = l, tb_columns = map (column resource) names,
      tb_rows = map (\<lambda>item. plain_row (it_id item) (case it_name item of None \<Rightarrow> ''Junquillo'' | Some n \<Rightarrow> n)
        (map_new (map (\<lambda>field. (field, case cellAt sheet resource (it_id item) field of Some c \<Rightarrow> sc_value c | None \<Rightarrow> item_text item field)) names))) items,
      tb_bindings = map_new (map (\<lambda>item. (it_id item, map_new (List.map_filter (\<lambda>field.
        map_option (\<lambda>c. (field, \<lparr>bi_cell = c, bi_index = None, bi_field = None\<rparr>)) (cellAt sheet resource (it_id item) field)) names))) items)\<rparr>"

definition arrayTable :: "SeriesSheet \<Rightarrow> string \<Rightarrow> string \<Rightarrow> string \<Rightarrow> (string \<times> json) list list \<Rightarrow> EditableColumn list \<Rightarrow>
    ((string \<times> json) list \<Rightarrow> nat \<Rightarrow> string) \<Rightarrow> SheetTable" where
  "arrayTable sheet i l cellField items cols name =
     (let cell = cellAt sheet Systems (sh_id sheet) cellField;
          rowId = (\<lambda>index. i @ ''-'' @ nat_str index)
      in \<lparr>tb_id = i, tb_label = l, tb_columns = cols,
          tb_rows = map (\<lambda>(index, item). plain_row (rowId index) (name item index) (map_new (map (\<lambda>col. (col_id col,
            case map_of item (col_id col) of None \<Rightarrow> None | Some JNull \<Rightarrow> None | Some v \<Rightarrow> Some (js_string v))) cols))) (entries items),
          tb_bindings = map_new (map (\<lambda>(index, item). (rowId index, case cell of None \<Rightarrow> []
            | Some c \<Rightarrow> map_new (map (\<lambda>col. (col_id col, \<lparr>bi_cell = c, bi_index = Some index, bi_field = Some (col_id col)\<rparr>)) cols))) (entries items))\<rparr>)"

text \<open>A row of the rules: only where there is a cell.\<close>

definition rule_row :: "SeriesSheet \<Rightarrow> Resource \<Rightarrow> string \<Rightarrow> string \<Rightarrow> string \<Rightarrow> (EditableRow \<times> SeriesCell) option" where
  "rule_row sheet resource rowId applies field =
     (case cellAt sheet resource rowId field of None \<Rightarrow> None
      | Some c \<Rightarrow>
         (let col = column resource field
          in Some (\<lparr>row_key = address c, row_label = col_label col,
              row_values = [(''applies'', Some applies), (''value'', sc_value c)],
              row_suggested = Some (sc_origin c = Some SUGGESTED),
              row_options = Some [(''value'', \<lparr>co_precision = col_precision col, co_nullable = col_nullable col, co_min = col_min col, co_max = col_max col\<rparr>)]\<rparr>, c)))"

definition system_rule_fields :: "string field \<Rightarrow> Field list" where
  "system_rule_fields family =
     filter (\<lambda>f. fd_kind f = K_decimal \<and> endsWith (fd_name f) ''_mm'')
       (concat (map g_fields (filter (\<lambda>g. g_title g \<notin> {''identity'', ''slidingGeometry'', ''doorGeometry''} \<or>
          (g_title g = ''slidingGeometry'' \<and> coalesce family [] \<in> {''SLIDING'', ''LIFT_SLIDE''}) \<or>
          (g_title g = ''doorGeometry'' \<and> family = Val ''DOOR'')) (schemas Systems))))"

definition article_rule_fields :: "Field list" where
  "article_rule_fields = filter (\<lambda>f. contains ''.'' (fd_name f) \<and> endsWith (fd_name f) ''_mm'' \<and> fd_kind f = K_decimal) (fieldsFor Articles)"

definition rule_rows :: "SeriesSheet \<Rightarrow> (EditableRow \<times> SeriesCell) list" where
  "rule_rows sheet =
     List.map_filter (\<lambda>f. rule_row sheet Systems (sh_id sheet) (ru_name (sh_rules sheet)) (fd_name f)) (system_rule_fields (ru_system_family (sh_rules sheet))) @
     concat (map (\<lambda>profile. List.map_filter (\<lambda>f. rule_row sheet Articles (it_id profile)
       (case it_name profile of None \<Rightarrow> [] | Some n \<Rightarrow> n) (fd_name f)) article_rule_fields) (sh_profiles sheet))"

definition rules_table :: "SeriesSheet \<Rightarrow> SheetTable" where
  "rules_table sheet =
     \<lparr>tb_id = ''rules'', tb_label = ''Reglas'',
      tb_columns = [(new_column ''applies'' ''Se aplica a'')\<lparr>col_readOnly := Some True\<rparr>,
        (new_column ''value'' ''Valor'')\<lparr>col_kind := Some C_decimal, col_precision := Some 2, col_nullable := Some True, col_unit := Some ''mm''\<rparr>],
      tb_rows = map fst (rule_rows sheet),
      tb_bindings = map_new (map (\<lambda>(row, c). (row_key row, [(''value'', \<lparr>bi_cell = c, bi_index = None, bi_field = None\<rparr>)])) (rule_rows sheet))\<rparr>"

definition finishes_table :: "SeriesSheet \<Rightarrow> SheetTable" where
  "finishes_table sheet =
     (let rowId = (\<lambda>index. ''finish-'' @ nat_str index)
      in \<lparr>tb_id = ''finishes'', tb_label = ''Colores y acabados'', tb_columns = [new_column ''code'' (''C'' @ ac_o @ ''digo de acabado'')],
          tb_rows = map (\<lambda>(index, code). plain_row (rowId index) (''Acabado '' @ nat_str (index + 1)) [(''code'', Some code)]) (entries (sh_finishes sheet)),
          tb_bindings = (case cellAt sheet Systems (sh_id sheet) ''finishes'' of None \<Rightarrow> []
            | Some c \<Rightarrow> map_new (map (\<lambda>(index, _). (rowId index, [(''code'', \<lparr>bi_cell = c, bi_index = Some index, bi_field = None\<rparr>)])) (entries (sh_finishes sheet))))\<rparr>)"

text \<open>The labels of the openings (\<open>i18n/domainLabels.ts\<close>).\<close>

definition opening_labels :: "(string \<times> string) list" where
  "opening_labels = [(''FIXED'', ''Fijo''), (''TURN'', ''Abatible''), (''TURN_LEFT'', ''Abatible izquierda''), (''TURN_RIGHT'', ''Abatible derecha''),
     (''TILT_TURN'', ''Oscilobatiente''), (''TILT_TURN_LEFT'', ''Oscilobatiente izquierda''), (''TILT_TURN_RIGHT'', ''Oscilobatiente derecha''),
     (''SLIDING'', ''Corredera''), (''SLIDING_2L'', ''Corredera de dos hojas''), (''SLIDING_3L'', ''Corredera de tres hojas''),
     (''SLIDING_4L'', ''Corredera de cuatro hojas''), (''AWNING'', ''Proyectante''), (''DOOR'', ''Puerta''), (''DOOR_ENTRY'', ''Puerta de acceso''),
     (''DOOR_DOUBLE'', ''Puerta doble'')]"

definition shown_member :: "string \<Rightarrow> string \<Rightarrow> (string \<times> json) list \<Rightarrow> string" where
  "shown_member k fallback item = (case map_of item k of None \<Rightarrow> fallback | Some JNull \<Rightarrow> fallback | Some v \<Rightarrow> js_string v)"

definition limit_columns :: "EditableColumn list" where
  "limit_columns = map (\<lambda>field. if field = ''max_leaf_weight_kg''
       then (column HardwareKits field)\<lparr>col_precision := Some 4, col_nullable := Some True, col_min := Some ''0.0001'', col_max := Some ''999999.9999''\<rparr>
       else column HardwareKits field)
     [''min_leaf_width_mm'', ''max_leaf_width_mm'', ''min_leaf_height_mm'', ''max_leaf_height_mm'', ''max_leaf_weight_kg'']"

fun sheetTables :: "SeriesSheet \<Rightarrow> SeriesTab \<Rightarrow> SheetTable list" where
  "sheetTables sheet T_profiles = [records sheet ''profiles'' ''Perfiles'' Articles (sh_profiles sheet)
     [''sku'', ''face_width_mm'', ''commercial_length_mm'', ''weight_kg_m'']]"
| "sheetTables sheet T_hardware = [records sheet ''hardware'' ''Herrajes'' HardwareKits (sh_hardware sheet)
     [''sku'', ''min_leaf_width_mm'', ''max_leaf_width_mm'', ''min_leaf_height_mm'', ''max_leaf_height_mm'', ''max_leaf_weight_kg'']]"
| "sheetTables sheet T_rules = [rules_table sheet]"
| "sheetTables sheet T_glazing_colors =
     [records sheet ''beads'' ''Vidrios y junquillos'' Glazing (sh_beads sheet)
        [''glass_thickness_mm'', ''bead_width_mm'', ''gasket_interior_mm'', ''gasket_exterior_mm'', ''cut_add_mm''],
      finishes_table sheet] @
     (case ru_colors (sh_rules sheet) of None \<Rightarrow> []
      | Some colors \<Rightarrow> [arrayTable sheet ''colors'' ''Colores del fabricante'' ''finish_authority.colors'' colors
          [new_column ''name'' ''Nombre del color'', new_column ''manufacturer_code'' (''C'' @ ac_o @ ''digo del fabricante'')]
          (\<lambda>item index. shown_member ''code'' (''Color '' @ nat_str (index + 1)) item)])"
| "sheetTables sheet T_typologies =
     [arrayTable sheet ''limits'' (''Tama'' @ n_tilde @ ''os de hoja permitidos'') ''dimensional_limits'' (coalesce (ru_limits (sh_rules sheet)) []) limit_columns
        (\<lambda>item index. case map_of opening_labels (shown_member ''opening_type'' [] item) of Some l \<Rightarrow> l | None \<Rightarrow> ''Ventana '' @ nat_str (index + 1))]"
| "sheetTables sheet T_prices = []"
| "sheetTables sheet T_workshop = []"

section \<open>Batches\<close>

record CellChangeRequest =
  cc_resource :: Resource
  cc_row_id :: string
  cc_field :: string
  cc_value :: json

definition text_json :: "string option \<Rightarrow> json" where
  "text_json v = (case v of None \<Rightarrow> JNull | Some s \<Rightarrow> JStr s)"

text \<open>\<open>items[index][field] = v\<close> or \<open>items[index] = v\<close>, on the value that is there.\<close>

definition set_item :: "json \<Rightarrow> nat \<Rightarrow> string option \<Rightarrow> json \<Rightarrow> json result" where
  "set_item existing index field v =
     (case existing of
        JArr xs \<Rightarrow>
          (case field of
             Some (c # cs) \<Rightarrow>
               (case nth_opt xs index of
                  None \<Rightarrow> Inl (TypeError ''undefined'')
                | Some (JObj ms) \<Rightarrow> Inr (JArr (xs[index := JObj (AList.update (c # cs) v ms)]))
                | Some (JArr _) \<Rightarrow> Inl IllTyped
                | Some _ \<Rightarrow> Inl (TypeError ''primitive''))
           | _ \<Rightarrow> if index < length xs then Inr (JArr (xs[index := v]))
                  else if index = length xs then Inr (JArr (xs @ [v])) else Inl IllTyped)
      | JObj _ \<Rightarrow> Inl IllTyped
      | _ \<Rightarrow> Inl (TypeError ''primitive''))"

definition binding_at :: "SheetTable \<Rightarrow> TableChange \<Rightarrow> Binding option" where
  "binding_at table change = Option.bind (map_of (tb_bindings table) (ch_rowId change)) (\<lambda>row. map_of row (ch_columnId change))"

definition changed_cell :: string where
  "changed_cell = (''Esta celda cambi'' @ ac_o @ ''. Vuelve a cargar la serie antes de editarla.'')"

text \<open>The value already gathered for a cell, or the one that the cell has as JSON.\<close>

definition existing_value :: "Binding \<Rightarrow> (string \<times> CellChangeRequest) list \<Rightarrow> json result" where
  "existing_value b output =
     (case map_of output (address (bi_cell b)) of
        Some r \<Rightarrow> if cc_value r \<noteq> JNull then Inr (cc_value r) else json_parse (case sc_value (bi_cell b) of None \<Rightarrow> ''[]'' | Some s \<Rightarrow> s)
      | None \<Rightarrow> json_parse (case sc_value (bi_cell b) of None \<Rightarrow> ''[]'' | Some s \<Rightarrow> s))"

definition cell_change :: "SeriesCell \<Rightarrow> json \<Rightarrow> CellChangeRequest" where
  "cell_change c v = \<lparr>cc_resource = sc_resource c, cc_row_id = sc_row_id c, cc_field = sc_field c, cc_value = v\<rparr>"

definition bind_change :: "SheetTable \<Rightarrow> TableChange \<Rightarrow> (string \<times> CellChangeRequest) list \<Rightarrow> (string \<times> CellChangeRequest) list result" where
  "bind_change table change output =
     (case binding_at table change of None \<Rightarrow> Inl (Error changed_cell)
      | Some b \<Rightarrow>
         result_bind (case bi_index b of None \<Rightarrow> Inr (text_json (ch_value change))
           | Some index \<Rightarrow> result_bind (existing_value b output) (\<lambda>existing. set_item existing index (bi_field b) (text_json (ch_value change))))
         (\<lambda>v. Inr (AList.update (address (bi_cell b)) (cell_change (bi_cell b) v) output)))"

text \<open>Changes taken in order into a list of values by key; the first exception ends it.\<close>

definition gather_all :: "('c \<Rightarrow> ('k \<times> 'v) list \<Rightarrow> ('k \<times> 'v) list result) \<Rightarrow> 'c list \<Rightarrow> ('k \<times> 'v) list result" where
  "gather_all bind changes = fold (\<lambda>change r. result_bind r (bind change)) changes (Inr [])"

definition bindChanges :: "SheetTable \<Rightarrow> TableChange list \<Rightarrow> CellChangeRequest list result" where
  "bindChanges table changes = map_sum id map_values (gather_all (bind_change table) changes)"

section \<open>Refused batches\<close>

text \<open>The messages of the server with the dotted path that leads to each.\<close>

function (sequential) issues :: "json \<Rightarrow> string list \<Rightarrow> (string \<times> string) list" where
  "issues (JStr s) path = [(join_with ''.'' path, s)]"
| "issues (JArr xs) path = concat (map (\<lambda>(index, item). issues item (if (case item of JStr _ \<Rightarrow> True | _ \<Rightarrow> False) then path else path @ [nat_str index])) (entries xs))"
| "issues (JObj ms) path = concat (map (\<lambda>(k, item). issues item (path @ [k])) ms)"
| "issues _ path = []"
  by pat_completeness auto
termination
proof (relation "measure (\<lambda>(j, _). size j)", goal_cases)
  case (2 xs path x index item)
  then have "item \<in> set xs" using mem_entries [of index item xs] nth_mem by fastforce
  then show ?case using 2 size_list_estimation' [of item xs "size item" size] by auto
next
  case (3 ms path x k item)
  then show ?case by (auto dest!: size_list_estimation' [where f = "size_prod (\<lambda>x. 0) size" and y = "size item"])
qed simp

record TableCellError =
  ce_rowId :: string
  ce_columnId :: string
  ce_message :: string

definition binding_path :: "Binding \<Rightarrow> string" where
  "binding_path b = join_with ''.'' (sc_field (bi_cell b) #
     (case bi_index b of None \<Rightarrow> [] | Some i \<Rightarrow> [nat_str i]) @ (case bi_field b of None \<Rightarrow> [] | Some f \<Rightarrow> [f]))"

definition meets :: "string \<Rightarrow> string \<Rightarrow> bool" where
  "meets path failing \<longleftrightarrow> failing = path \<or> startsWith path (failing @ ''.'') \<or> startsWith failing (path @ ''.'')"

definition shown_message :: "string \<Rightarrow> string" where
  "shown_message m = (if m = ''Maximum must not be below minimum.'' then (''El m'' @ ac_a @ ''ximo debe ser mayor o igual al m'' @ ac_i @ ''nimo.'') else m)"

definition truthy_member :: "string \<Rightarrow> json \<Rightarrow> json option" where
  "truthy_member k j = (case json_member k j of Some v \<Rightarrow> if json_truthy v then Some v else None | None \<Rightarrow> None)"

text \<open>The error of the client is an \<open>ApiError\<close> with its status and payload, or another error (\<open>None\<close>). The identity
  in the payload is compared with the cell's by \<open>!==\<close>, so one that is not a text matches no cell.\<close>

definition sheetValidationError :: "(int \<times> json) option \<Rightarrow> SheetTable \<Rightarrow> TableCellError list option" where
  "sheetValidationError error table =
     (case error of None \<Rightarrow> None
      | Some (status, payload) \<Rightarrow>
         if status \<noteq> 400 then None
         else case json_member ''error'' payload of None \<Rightarrow> None
          | Some detail \<Rightarrow>
             (case (truthy_member ''resource'' detail, truthy_member ''row_id'' detail, truthy_member ''fields'' detail) of
                (Some resource, Some rowId, Some fs) \<Rightarrow>
                  (let failures = issues fs [];
                       cells = concat (map (\<lambda>(r, bs). List.map_filter (\<lambda>(c, b).
                         if JStr (cell_resource (sc_resource (bi_cell b))) \<noteq> resource \<or> JStr (sc_row_id (bi_cell b)) \<noteq> rowId then None
                         else map_option (\<lambda>(_, m). \<lparr>ce_rowId = r, ce_columnId = c, ce_message = shown_message m\<rparr>)
                           (List.find (\<lambda>(p, _). meets (binding_path b) p) failures)) bs) (tb_bindings table))
                   in if cells = [] then None else Some cells)
              | _ \<Rightarrow> None))"

end
