(* ===== verification/SheetProps.thy ===== *)
theory SheetProps
  imports SeriesSheet CatalogProps
begin

text \<open>
  What the tables of a series guarantee: a cell accepted by the check lies within the bounds of its column,
  a change is written to the place that was shown, and a batch of changes writes each cell once, with every change of that
  cell. The contract of a cell that gathers changes is the locale \<open>gathering\<close>.
\<close>

section \<open>Comparing decimals\<close>

definition signed_text :: "bool \<Rightarrow> string \<Rightarrow> string option \<Rightarrow> string" where
  "signed_text neg w f = (if neg then ''-'' else []) @ dec_text w f"

abbreviation fraction_of :: "string option \<Rightarrow> string" where
  "fraction_of f \<equiv> (case f of None \<Rightarrow> [] | Some x \<Rightarrow> x)"

definition digits_ok :: "string \<Rightarrow> string option \<Rightarrow> bool" where
  "digits_ok w f \<longleftrightarrow> w \<noteq> [] \<and> list_all is_digit w \<and> (\<forall>x. f = Some x \<longrightarrow> list_all is_digit x)"

definition text_value :: "bool \<Rightarrow> string \<Rightarrow> string option \<Rightarrow> rat" where
  "text_value neg w f = (if neg then - 1 else 1) * of_int (digits_val (w @ fraction_of f)) / 10 ^ length (fraction_of f)"

text \<open>The number a decimal text denotes.\<close>

definition denotes :: "string \<Rightarrow> rat option" where
  "denotes s = map_option decimal_rat (parseDecimalP s)"

lemma denotes_signed: "digits_ok w f \<Longrightarrow> denotes (signed_text neg w f) = Some (text_value neg w f)"
  using parse_signed_dec_text [of w f neg]
  by (simp add: denotes_def signed_text_def digits_ok_def decimal_rat_def text_value_def Let_def)

lemma big_int_digits:
  assumes "s \<noteq> []" "list_all is_digit s"
  shows "big_int s = Inr (digits_val s)"
proof -
  have d: "\<forall>c \<in> set s. is_digit c" using assms(2) by (simp add: list_all_iff)
  have t: "trim s = s" using assms(1) d by (simp add: trim_fixed digit_not_space)
  have h: "is_digit (hd s)" using assms(1) d by simp
  have "2 \<le> length s \<Longrightarrow> is_digit (s ! 1)" using d by simp
  then have "\<not> (2 \<le> length s \<and> s ! 1 \<in> set ''xXoObB'')" using digit_not_special by auto
  then show ?thesis using t h assms digit_not_special [of "hd s"] by (auto simp: big_int_def Let_def)
qed

lemma signed_parts:
  assumes "digits_ok w f"
  shows "split_point (drop_sign (signed_text neg w f)) = (w, fraction_of f)" "starts_minus (signed_text neg w f) = neg"
proof -
  obtain c r where c: "w = c # r" "is_digit c" using assms by (cases w) (auto simp: digits_ok_def)
  then have "drop_sign (signed_text neg w f) = dec_text w f"
    using digit_not_special [of c] by (simp add: signed_text_def drop_sign_def dec_text_def)
  then show "split_point (drop_sign (signed_text neg w f)) = (w, fraction_of f)"
    using split_point_dec_text [of w f] assms by (simp add: digits_ok_def)
  show "starts_minus (signed_text neg w f) = neg"
    using c digit_not_special [of c] by (simp add: signed_text_def starts_minus_def dec_text_def)
qed

lemma scaled_value:
  assumes "digits_ok w f" "length (fraction_of f) \<le> d"
  shows "\<exists>m. big_int (w @ padEnd d CHR ''0'' (fraction_of f)) = Inr m \<and>
    of_int (m * (if neg then - 1 else 1)) = text_value neg w f * 10 ^ d"
proof -
  let ?fr = "fraction_of f" let ?k = "d - length ?fr"
  have fr: "list_all is_digit ?fr" using assms(1) by (cases f) (auto simp: digits_ok_def)
  have z: "is_digit CHR ''0''" by (rule zero_is_digit)
  have all: "list_all is_digit (w @ padEnd d CHR ''0'' ?fr)"
    using assms(1) fr z by (auto simp: digits_ok_def padEnd_def list_all_iff)
  have b: "big_int (w @ padEnd d CHR ''0'' ?fr) = Inr (digits_val (w @ padEnd d CHR ''0'' ?fr))"
    using all assms(1) by (intro big_int_digits) (auto simp: digits_ok_def)
  have v: "digits_val (w @ padEnd d CHR ''0'' ?fr) = digits_val (w @ ?fr) * 10 ^ ?k"
    by (simp add: padEnd_def digits_val_append digits_val_zeros power_add algebra_simps)
  have "(10 :: rat) ^ d = 10 ^ length ?fr * 10 ^ ?k" using assms(2) by (simp flip: power_add)
  then have "of_int (digits_val (w @ padEnd d CHR ''0'' ?fr) * (if neg then - 1 else 1)) = text_value neg w f * 10 ^ d"
    unfolding v by (simp add: text_value_def)
  then show ?thesis using b by blast
qed

text \<open>Comparison of decimal texts is comparison of the numbers they denote.\<close>

lemma compareDecimal_signed:
  assumes "digits_ok w f" "digits_ok w' f'"
  shows "compareDecimal (signed_text neg w f) (signed_text neg' w' f') =
    Inr (if text_value neg w f < text_value neg' w' f' then - 1 else if text_value neg' w' f' < text_value neg w f then 1 else 0)"
proof -
  let ?d = "max (length (fraction_of f)) (length (fraction_of f'))"
  obtain m where m: "big_int (w @ padEnd ?d CHR ''0'' (fraction_of f)) = Inr m"
    "of_int (m * (if neg then - 1 else 1)) = text_value neg w f * 10 ^ ?d"
    using scaled_value [OF assms(1), of ?d neg] by auto
  obtain n where n: "big_int (w' @ padEnd ?d CHR ''0'' (fraction_of f')) = Inr n"
    "of_int (n * (if neg' then - 1 else 1)) = text_value neg' w' f' * 10 ^ ?d"
    using scaled_value [OF assms(2), of ?d neg'] by auto
  have c: "a < b \<longleftrightarrow> x < y" if "of_int a = x * 10 ^ ?d" "of_int b = y * 10 ^ ?d" for a b :: int and x y :: rat
  proof -
    have "a < b \<longleftrightarrow> (of_int a :: rat) < of_int b" by simp
    also have "\<dots> \<longleftrightarrow> x < y" unfolding that by simp
    finally show ?thesis .
  qed
  show ?thesis
    unfolding compareDecimal_def signed_parts(1) [OF assms(1)] signed_parts(1) [OF assms(2)] signed_parts(2) [OF assms(1)]
      signed_parts(2) [OF assms(2)] Let_def prod.case m(1) n(1) result_bind_simps
    using c [OF m(2) n(2)] c [OF n(2) m(2)] by simp
qed

section \<open>Accepted cells\<close>

lemma parseDecimalInput_shape:
  assumes "parseDecimalInput u p = Some v"
  shows "\<exists>neg w f. v = signed_text neg w f \<and> digits_ok w f \<and> length (fraction_of f) \<le> p"
proof -
  obtain sg w f t where re: "re_decimal t = Some (sg, w, f)" and p: "\<not> p < length (fraction_of f)"
    and v: "v = (let m = dec_str (digits_val w) @ (if strip_zeros (fraction_of f) = [] then [] else ''.'' @ strip_zeros (fraction_of f))
      in (if sg = Some CHR ''-'' \<and> m \<noteq> ''0'' then ''-'' else []) @ m)"
    using assms by (auto simp: parseDecimalInput_def Let_def split: if_splits option.splits)
  let ?z = "strip_zeros (fraction_of f)"
  obtain k where "fraction_of f = ?z @ replicate k CHR ''0''" using strip_zeros_split by blast
  then have "length (fraction_of f) = length ?z + k" by (metis length_append length_replicate)
  then have l: "length ?z \<le> p" using p by simp
  have fd: "\<forall>c \<in> set (fraction_of f). is_digit c" using re_decimal_Some(4) [OF re] by (cases f) (auto simp: list_all_iff)
  have d: "list_all is_digit (dec_str (digits_val w))" "list_all is_digit ?z"
    using dec_str_digits strip_zeros_digits [OF fd] by (auto simp: list_all_iff)
  define g where "g = (if ?z = [] then None else Some ?z)"
  define neg where "neg = (sg = Some CHR ''-'' \<and> dec_text (dec_str (digits_val w)) g \<noteq> ''0'')"
  have "v = signed_text neg (dec_str (digits_val w)) g" by (simp add: v g_def neg_def signed_text_def dec_text_def Let_def)
  moreover have "digits_ok (dec_str (digits_val w)) g" using d dec_str_nonempty by (simp add: digits_ok_def g_def)
  moreover have "length (fraction_of g) \<le> p" using l by (simp add: g_def)
  ultimately show ?thesis by blast
qed

lemma text_value_places: "length (fraction_of f) \<le> p \<Longrightarrow> text_value neg w f * 10 ^ p \<in> \<int>"
proof -
  assume l: "length (fraction_of f) \<le> p"
  then have "(10 :: rat) ^ p = 10 ^ length (fraction_of f) * 10 ^ (p - length (fraction_of f))" by (simp flip: power_add)
  then have "text_value neg w f * 10 ^ p = of_int ((if neg then - 1 else 1) * digits_val (w @ fraction_of f) * 10 ^ (p - length (fraction_of f)))"
    by (simp add: text_value_def)
  then show ?thesis using Ints_of_int by metis
qed

text \<open>The bounds of the columns are decimal texts.\<close>

definition bound_parts :: "(string \<times> (string \<times> string option)) list" where
  "bound_parts = [(''0'', (''0'', None)), (''0.01'', (''0'', Some ''01'')), (''0.0001'', (''0'', Some ''0001'')), (''99.99'', (''99'', Some ''99'')),
     (''99999999.99'', (''99999999'', Some ''99'')), (''9999.9999'', (''9999'', Some ''9999'')), (''9999.99'', (''9999'', Some ''99''))]"

lemma bound_parts_ok: "list_all (\<lambda>(t, w, f). t = dec_text w f \<and> w \<noteq> [] \<and> list_all is_digit w \<and> list_all is_digit (fraction_of f)) bound_parts"
  by code_simp

lemma bounds_listed: "decimalBounds r i = Some (lo, hi) \<Longrightarrow> {lo, hi} \<subseteq> set (map fst bound_parts)"
  by (cases r) (auto simp: bound_parts_def split: if_splits)

lemma bounds_text:
  assumes "decimalBounds r i = Some (lo, hi)" "t \<in> {lo, hi}"
  shows "\<exists>w f. t = signed_text False w f \<and> digits_ok w f"
proof -
  obtain w f where "(t, w, f) \<in> set bound_parts" using bounds_listed [OF assms(1)] assms(2) by auto
  then have "t = dec_text w f \<and> w \<noteq> [] \<and> list_all is_digit w \<and> list_all is_digit (fraction_of f)"
    using bound_parts_ok by (auto simp: list_all_iff)
  then show ?thesis by (intro exI [of _ w] exI [of _ f]) (auto simp: signed_text_def digits_ok_def)
qed

lemma column_bounds:
  "decimalBounds r i = Some (lo, hi) \<Longrightarrow> col_min (column r i) = Some lo \<and> col_max (column r i) = Some hi"
  "col_validate (column r i) = None" "\<exists>p. col_precision (column r i) = Some p"
  by (simp_all add: column_def Let_def)

text \<open>
  C35. The check of a typed cell of a catalog column never throws, and a decimal it accepts denotes a number
  between the least and the greatest value of the column, with no more decimals than the column has; an
  empty cell is accepted only where the column admits it.
\<close>
theorem accepted_cell_in_bounds:
  assumes "decimalBounds r i = Some (lo, hi)" "col_kind (column r i) = Some C_decimal"
  shows "\<exists>value problem. parsed t (column r i) = Inr (value, problem) \<and>
    (problem = None \<longrightarrow> (case value of
        None \<Rightarrow> trim t = [] \<and> col_nullable (column r i) = Some True
      | Some v \<Rightarrow> \<exists>x a b p. denotes v = Some x \<and> denotes lo = Some a \<and> denotes hi = Some b \<and> a \<le> x \<and> x \<le> b \<and>
          col_precision (column r i) = Some p \<and> x * 10 ^ p \<in> \<int>))"
proof -
  let ?c = "column r i"
  obtain p where p: "col_precision ?c = Some p" using column_bounds(3) by blast
  obtain lw lf where lo: "lo = signed_text False lw lf" "digits_ok lw lf" using bounds_text [OF assms(1), of lo] by auto
  obtain hw hf where hi: "hi = signed_text False hw hf" "digits_ok hw hf" using bounds_text [OF assms(1), of hi] by auto
  note c = column_bounds(1) [OF assms(1)] column_bounds(2) [of r i]
  show ?thesis
  proof (cases "if trim t = [] then None else parseDecimalInput (units t) p")
    case None
    then show ?thesis using assms(2) p c by (auto simp: parsed_def Let_def)
  next
    case (Some v)
    then have t: "trim t \<noteq> []" "parseDecimalInput (units t) p = Some v" by (auto split: if_splits)
    obtain neg w f where v: "v = signed_text neg w f" "digits_ok w f" "length (fraction_of f) \<le> p"
      using parseDecimalInput_shape [OF t(2)] by blast
    have x: "denotes v = Some (text_value neg w f)" "denotes lo = Some (text_value False lw lf)" "denotes hi = Some (text_value False hw hf)"
      using denotes_signed v lo hi by auto
    have cl: "compareDecimal v lo = Inr (if text_value neg w f < text_value False lw lf then - 1 else if text_value False lw lf < text_value neg w f then 1 else 0)"
      unfolding v(1) lo(1) by (rule compareDecimal_signed [OF v(2) lo(2)])
    have ch: "compareDecimal v hi = Inr (if text_value neg w f < text_value False hw hf then - 1 else if text_value False hw hf < text_value neg w f then 1 else 0)"
      unfolding v(1) hi(1) by (rule compareDecimal_signed [OF v(2) hi(2)])
    have "text_value neg w f * 10 ^ p \<in> \<int>" by (rule text_value_places [OF v(3)])
    then show ?thesis using assms(2) p c t x cl ch by (simp add: parsed_def Let_def not_less)
  qed
qed

theorem accepted_cell_witness:
  "parsed ''1.234,5'' (column Articles ''weight_kg_m'') = Inr (Some ''1234.5'', None) \<and>
   (\<exists>x a b. denotes ''1234.5'' = Some x \<and> denotes ''0.0001'' = Some a \<and> denotes ''9999.9999'' = Some b \<and> a \<le> x \<and> x \<le> b)"
proof -
  have b: "decimalBounds Articles ''weight_kg_m'' = Some (''0.0001'', ''9999.9999'')" by code_simp
  have k: "col_kind (column Articles ''weight_kg_m'') = Some C_decimal" by code_simp
  have p: "col_precision (column Articles ''weight_kg_m'') = Some 4" by code_simp
  have d: "filter (\<lambda>u. \<not> unit_space u) (units ''1.234,5'') = units ''1.234,5''" by (simp add: units_def unit_space_def)
  have g: "replace_first CHR '','' CHR ''.'' (if is_grouped ''1.234,5'' then filter (\<lambda>c. c \<noteq> CHR ''.'') ''1.234,5'' else ''1.234,5'') = ''1234.5''" by code_simp
  have r: "re_decimal ''1234.5'' = Some (None, ''1234'', Some ''5'')" by code_simp
  have q: "dec_str (digits_val ''1234'') = ''1234''" "strip_zeros ''5'' = ''5''" by code_simp+
  have i: "parseDecimalInput (units ''1.234,5'') 4 = Some ''1234.5''"
    unfolding parseDecimalInput_def Let_def d units_back(1) g r using units_back(2) [of "''1.234,5''"] q by (simp add: units_def)
  have c: "compareDecimal ''1234.5'' ''0.0001'' = Inr 1" "compareDecimal ''1234.5'' ''9999.9999'' = Inr (- 1)" by code_simp+
  have "trim ''1.234,5'' \<noteq> []" by code_simp
  then have v: "parsed ''1.234,5'' (column Articles ''weight_kg_m'') = Inr (Some ''1234.5'', None)"
    using k p i c column_bounds(1) [OF b] column_bounds(2) by (simp add: parsed_def Let_def)
  from accepted_cell_in_bounds [OF b k, of "''1.234,5''"] v show ?thesis by auto
qed

section \<open>Batches\<close>

text \<open>The keys of a list in the order of their first occurrence.\<close>

definition firsts :: "'a list \<Rightarrow> 'a list" where
  "firsts ks = rev (remdups (rev ks))"

lemma firsts_snoc: "firsts (ks @ [k]) = (if k \<in> set ks then firsts ks else firsts ks @ [k])"
  by (simp add: firsts_def)

lemma set_firsts [simp]: "set (firsts ks) = set ks" "distinct (firsts ks)"
  by (simp_all add: firsts_def)

text \<open>A change that has no key is refused, and a change of one key reads and writes the value of that key alone.\<close>

locale gathering =
  fixes bind :: "'c \<Rightarrow> ('k \<times> 'v) list \<Rightarrow> ('k \<times> 'v) list result"
    and key :: "'c \<Rightarrow> 'k option"
    and step :: "'c \<Rightarrow> 'v option \<Rightarrow> 'v result"
  assumes unbound: "key c = None \<Longrightarrow> \<exists>e. bind c out = Inl e"
    and bound: "key c = Some k \<Longrightarrow> bind c out = map_sum id (\<lambda>v. AList.update k v out) (step c (map_of out k))"
begin

lemma gather_snoc: "gather_all bind (cs @ [c]) = result_bind (gather_all bind cs) (bind c)"
  by (simp add: gather_all_def)

lemma gather_step:
  assumes "gather_all bind (cs @ [c]) = Inr out"
  obtains k v out' where "key c = Some k" "gather_all bind cs = Inr out'" "step c (map_of out' k) = Inr v" "out = AList.update k v out'"
proof -
  obtain out' where o: "gather_all bind cs = Inr out'" "bind c out' = Inr out" using assms by (auto simp: gather_snoc result_bind_Inr)
  then obtain k where k: "key c = Some k" using unbound [of c out'] by (cases "key c") auto
  then show ?thesis using that o bound [OF k, of out'] by (cases "step c (map_of out' k)") auto
qed

lemma gather_keys: "gather_all bind cs = Inr out \<Longrightarrow> map fst out = firsts (List.map_filter key cs) \<and> (\<forall>c \<in> set cs. key c \<noteq> None)"
proof (induction cs arbitrary: out rule: rev_induct)
  case Nil
  then show ?case by (simp add: gather_all_def firsts_def map_filter_simps)
next
  case (snoc c cs)
  from snoc.prems obtain k v out' where s: "key c = Some k" "gather_all bind cs = Inr out'" "out = AList.update k v out'" by (rule gather_step)
  then have ih: "map fst out' = firsts (List.map_filter key cs)" "\<forall>c \<in> set cs. key c \<noteq> None" using snoc.IH by auto
  have "List.map_filter key (cs @ [c]) = List.map_filter key cs @ [k]" using s(1) by (simp add: List.map_filter_def)
  then show ?case using ih s update_keys [of k v out'] by (auto simp: firsts_snoc)
qed

lemma gather_cell:
  "gather_all bind cs = Inr out \<Longrightarrow> gather_all bind (filter (\<lambda>c. key c = Some k) cs) = Inr (case map_of out k of None \<Rightarrow> [] | Some v \<Rightarrow> [(k, v)])"
proof (induction cs arbitrary: out rule: rev_induct)
  case Nil
  then show ?case by (simp add: gather_all_def)
next
  case (snoc c cs)
  from snoc.prems obtain k' v out' where s: "key c = Some k'" "gather_all bind cs = Inr out'" "step c (map_of out' k') = Inr v"
    "out = AList.update k' v out'" by (rule gather_step)
  note ih = snoc.IH [OF s(2)]
  show ?case
  proof (cases "k' = k")
    case True
    let ?o = "case map_of out' k of None \<Rightarrow> [] | Some v \<Rightarrow> [(k, v)]"
    have "map_of ?o k = map_of out' k" by (cases "map_of out' k") auto
    then have "bind c ?o = Inr (AList.update k v ?o)" using bound [of c k ?o] s True by simp
    moreover have "AList.update k v ?o = [(k, v)]" by (cases "map_of out' k") auto
    ultimately show ?thesis using ih s True by (simp add: gather_snoc update_conv')
  next
    case False
    then show ?thesis using ih s by (simp add: update_conv')
  qed
qed

lemma gather_complete:
  "\<forall>c \<in> set cs. key c \<noteq> None \<Longrightarrow> \<forall>k. \<exists>out. gather_all bind (filter (\<lambda>c. key c = Some k) cs) = Inr out \<Longrightarrow> \<exists>out. gather_all bind cs = Inr out"
proof (induction cs rule: rev_induct)
  case Nil
  then show ?case by (simp add: gather_all_def)
next
  case (snoc c cs)
  have "\<exists>out. gather_all bind (filter (\<lambda>c. key c = Some k) cs) = Inr out" for k
    using snoc.prems(2) [rule_format, of k] by (auto simp: gather_snoc result_bind_Inr split: if_splits)
  then obtain out where out: "gather_all bind cs = Inr out" using snoc by auto
  obtain k where k: "key c = Some k" using snoc.prems(1) by auto
  let ?o = "case map_of out k of None \<Rightarrow> [] | Some v \<Rightarrow> [(k, v)]"
  have "map_of ?o k = map_of out k" by (cases "map_of out k") auto
  moreover obtain o' where "bind c ?o = Inr o'"
    using snoc.prems(2) [rule_format, of k] gather_cell [OF out, of k] k by (auto simp: gather_snoc result_bind_Inr)
  ultimately obtain v where "step c (map_of out k) = Inr v" using bound [OF k, of ?o] by (cases "step c (map_of out k)") auto
  then show ?case using out bound [OF k, of out] by (simp add: gather_snoc)
qed

end

definition change_key :: "SheetTable \<Rightarrow> TableChange \<Rightarrow> string option" where
  "change_key table change = map_option (\<lambda>b. address (bi_cell b)) (binding_at table change)"

definition change_step :: "SheetTable \<Rightarrow> TableChange \<Rightarrow> CellChangeRequest option \<Rightarrow> CellChangeRequest result" where
  "change_step table change before =
     (case binding_at table change of None \<Rightarrow> Inl (Error changed_cell)
      | Some b \<Rightarrow> map_sum id (cell_change (bi_cell b)) (case bi_index b of None \<Rightarrow> Inr (text_json (ch_value change))
           | Some index \<Rightarrow> result_bind (existing_value b (case before of None \<Rightarrow> [] | Some r \<Rightarrow> [(address (bi_cell b), r)]))
               (\<lambda>existing. set_item existing index (bi_field b) (text_json (ch_value change)))))"

lemma existing_local: "existing_value b (case map_of out (address (bi_cell b)) of None \<Rightarrow> [] | Some r \<Rightarrow> [(address (bi_cell b), r)]) = existing_value b out"
  by (simp add: existing_value_def split: option.split)

interpretation batch: gathering "bind_change table" "change_key table" "change_step table" for table
proof
  fix c out
  show "change_key table c = None \<Longrightarrow> \<exists>e. bind_change table c out = Inl e" by (auto simp: change_key_def bind_change_def)
next
  fix c k out
  assume "change_key table c = Some k"
  then obtain b where b: "binding_at table c = Some b" "k = address (bi_cell b)" by (auto simp: change_key_def)
  show "bind_change table c out = map_sum id (\<lambda>v. AList.update k v out) (change_step table c (map_of out k))"
    unfolding bind_change_def change_step_def b option.case existing_local
    by (cases "case bi_index b of None \<Rightarrow> Inr (text_json (ch_value c))
        | Some index \<Rightarrow> result_bind (existing_value b out) (\<lambda>existing. set_item existing index (bi_field b) (text_json (ch_value c)))") simp_all
qed

lemma bindChanges_gathered: "bindChanges table changes = Inr out \<longleftrightarrow> (\<exists>o'. gather_all (bind_change table) changes = Inr o' \<and> out = map snd o')"
  by (cases "gather_all (bind_change table) changes") (auto simp: bindChanges_def map_values_def)

lemma batch_cells:
  assumes "gather_all (bind_change table) changes = Inr o'"
  shows "map_result (\<lambda>k. bindChanges table (filter (\<lambda>c. change_key table c = Some k) changes)) (map fst o') = Inr (map (\<lambda>r. [r]) (map snd o'))"
proof -
  have d: "distinct (map fst o')" using batch.gather_keys [OF assms] by simp
  have "bindChanges table (filter (\<lambda>c. change_key table c = Some (fst (o' ! i))) changes) = Inr [snd (o' ! i)]" if "i < length o'" for i
  proof -
    have "map_of o' (fst (o' ! i)) = Some (snd (o' ! i))" using d that by (intro map_of_is_SomeI) (simp_all add: nth_mem)
    then show ?thesis using batch.gather_cell [OF assms, of "fst (o' ! i)"] by (simp add: bindChanges_gathered)
  qed
  then show ?thesis by (simp add: map_result_Inr)
qed

text \<open>A batch is the batches of its cells, in the order in which the cells were first changed.\<close>

lemma batch_split:
  "bindChanges table changes = Inr out \<longleftrightarrow>
    (\<forall>c \<in> set changes. binding_at table c \<noteq> None) \<and>
    map_result (\<lambda>k. bindChanges table (filter (\<lambda>c. change_key table c = Some k) changes)) (firsts (List.map_filter (change_key table) changes)) =
      Inr (map (\<lambda>r. [r]) out)"
    (is "?l \<longleftrightarrow> ?b \<and> ?m = Inr (map (\<lambda>r. [r]) out)")
proof
  assume ?l
  then obtain o' where o: "gather_all (bind_change table) changes = Inr o'" "out = map snd o'" by (auto simp: bindChanges_gathered)
  from batch.gather_keys [OF o(1)] batch_cells [OF o(1)] o(2)
  show "?b \<and> ?m = Inr (map (\<lambda>r. [r]) out)" by (auto simp: change_key_def)
next
  assume r: "?b \<and> ?m = Inr (map (\<lambda>r. [r]) out)"
  then have k: "\<forall>c \<in> set changes. change_key table c \<noteq> None" by (simp add: change_key_def)
  have "\<exists>o'. gather_all (bind_change table) (filter (\<lambda>c. change_key table c = Some k) changes) = Inr o'" for k
  proof (cases "k \<in> set (firsts (List.map_filter (change_key table) changes))")
    case True
    then obtain i where "i < length (firsts (List.map_filter (change_key table) changes))" "firsts (List.map_filter (change_key table) changes) ! i = k"
      unfolding in_set_conv_nth by blast
    then obtain rs where "bindChanges table (filter (\<lambda>c. change_key table c = Some k) changes) = Inr rs"
      using r by (auto simp: map_result_Inr)
    then show ?thesis by (auto simp: bindChanges_gathered)
  next
    case False
    then have "filter (\<lambda>c. change_key table c = Some k) changes = []" by (force simp: List.map_filter_def filter_empty_conv)
    then show ?thesis by (simp add: gather_all_def)
  qed
  then obtain o' where o: "gather_all (bind_change table) changes = Inr o'" using batch.gather_complete [OF k] by blast
  then have "map (\<lambda>r. [r]) out = map (\<lambda>r. [r]) (map snd o')" using batch.gather_keys [OF o] batch_cells [OF o] r by auto
  then have "out = map snd o'" by (rule map_injective) (simp add: inj_def)
  then show ?l using o by (auto simp: bindChanges_gathered)
qed

section \<open>From the table to the cell\<close>

lemma cell_address_inj: "cell_address r i f = cell_address r' i' f' \<longleftrightarrow> r = r' \<and> i = i' \<and> f = f'"
proof
  assume "cell_address r i f = cell_address r' i' f'"
  then have "json_parse (stringify (JArr [JStr (cell_resource r), JStr i, JStr f])) = json_parse (stringify (JArr [JStr (cell_resource r'), JStr i', JStr f']))"
    by (simp only: cell_address_def)
  then have "JArr [JStr (cell_resource r), JStr i, JStr f] = JArr [JStr (cell_resource r'), JStr i', JStr f']"
    by (simp add: json_parse_stringify del: stringify.simps)
  then show "r = r' \<and> i = i' \<and> f = f'" by (cases r; cases r') auto
qed simp

lemma map_new_mem: "map_of (map_new ps) k = Some v \<Longrightarrow> (k, v) \<in> set ps"
  using map_of_SomeD by (fastforce simp: map_of_map_new)

lemma cellAt_Some:
  "cellAt sheet r i f = Some c \<Longrightarrow> c \<in> set (sh_cells sheet) \<and> sc_resource c = r \<and> sc_row_id c = i \<and> sc_field c = f"
  by (auto simp: cellAt_def cell_address_inj dest!: map_new_mem)

lemma records_binding:
  assumes "binding_at (records sheet t l r items names) ch = Some b"
  shows "cellAt sheet r (ch_rowId ch) (ch_columnId ch) = Some (bi_cell b) \<and> bi_index b = None \<and> bi_field b = None"
  using assms by (auto simp: binding_at_def records_def map_filter_simps bind_eq_Some_conv List.map_filter_def dest!: map_new_mem)

lemma array_binding:
  assumes "binding_at (arrayTable sheet t l cellField items cs name) ch = Some b"
  shows "cellAt sheet Systems (sh_id sheet) cellField = Some (bi_cell b) \<and> bi_field b = Some (ch_columnId ch) \<and>
    ch_columnId ch \<in> col_id ` set cs \<and> (\<exists>i < length items. bi_index b = Some i \<and> ch_rowId ch = t @ ''-'' @ nat_str i)"
  using assms by (auto simp: binding_at_def arrayTable_def Let_def bind_eq_Some_conv mem_entries dest!: map_new_mem split: option.splits)

lemma finishes_binding:
  assumes "binding_at (finishes_table sheet) ch = Some b"
  shows "cellAt sheet Systems (sh_id sheet) ''finishes'' = Some (bi_cell b) \<and> bi_field b = None \<and> ch_columnId ch = ''code'' \<and>
    (\<exists>i < length (sh_finishes sheet). bi_index b = Some i \<and> ch_rowId ch = ''finish-'' @ nat_str i)"
  using assms by (auto simp: binding_at_def finishes_table_def Let_def bind_eq_Some_conv mem_entries dest!: map_new_mem split: option.splits if_splits)

lemma rule_row_Some:
  "rule_row sheet r i a f = Some (row, c) \<Longrightarrow> cellAt sheet r i f = Some c \<and> row_key row = address c \<and> map_of (row_values row) ''value'' = Some (sc_value c)"
  by (cases "cellAt sheet r i f") (auto simp: rule_row_def Let_def)

lemma rule_rows_cell: "(row, c) \<in> set (rule_rows sheet) \<Longrightarrow> \<exists>r i a f. rule_row sheet r i a f = Some (row, c)"
  by (fastforce simp: rule_rows_def List.map_filter_def)

lemma rules_binding:
  assumes "binding_at (rules_table sheet) ch = Some b"
  shows "\<exists>row r i a f. (row, bi_cell b) \<in> set (rule_rows sheet) \<and> rule_row sheet r i a f = Some (row, bi_cell b) \<and>
    ch_rowId ch = row_key row \<and> ch_columnId ch = ''value'' \<and> bi_index b = None"
proof -
  obtain row where "(row, bi_cell b) \<in> set (rule_rows sheet)" "ch_rowId ch = row_key row" "ch_columnId ch = ''value''" "bi_index b = None"
    using assms by (auto simp: binding_at_def rules_table_def bind_eq_Some_conv dest!: map_new_mem split: if_splits)
  then show ?thesis using rule_rows_cell by metis
qed

text \<open>The tables of a sheet that show arrays: the field of the cell, the prefix of the rows and the items shown.\<close>

definition array_rows :: "SeriesSheet \<Rightarrow> (string \<times> string \<times> (string \<times> json) list list) set" where
  "array_rows sheet = {(''dimensional_limits'', ''limits'', coalesce (ru_limits (sh_rules sheet)) [])} \<union>
     {(''finish_authority.colors'', ''colors'', cs) | cs. ru_colors (sh_rules sheet) = Some cs}"

lemma limit_ids: "\<forall>c \<in> set limit_columns. col_id c \<noteq> []"
  by (simp add: limit_columns_def column_def Let_def)

lemma sheet_table_cases:
  assumes "table \<in> set (sheetTables sheet tab)"
  obtains (records) t l r items names where "table = records sheet t l r items names" "t \<notin> {''finishes'', ''colors'', ''limits''}"
  | (finish) "table = finishes_table sheet"
  | (rules) "table = rules_table sheet"
  | (arr) t l cf items cs name where "table = arrayTable sheet t l cf items cs name" "(cf, t, items) \<in> array_rows sheet" "\<forall>c \<in> set cs. col_id c \<noteq> []"
proof (cases tab)
  case T_profiles then show thesis using assms that(1) [of "''profiles''"] by simp
next
  case T_hardware then show thesis using assms that(1) [of "''hardware''"] by simp
next
  case T_rules then show thesis using assms that(3) by simp
next
  case T_typologies
  then show thesis using assms that(4) [of "''limits''", OF _ _ limit_ids] by (simp add: array_rows_def)
next
  case T_glazing_colors
  have ids: "\<forall>c \<in> {new_column ''name'' x, new_column ''manufacturer_code'' y}. col_id c \<noteq> []" for x y by (simp add: new_column_def)
  consider l r items names where "table = records sheet ''beads'' l r items names" | "table = finishes_table sheet"
    | l cols x y name where "ru_colors (sh_rules sheet) = Some cols"
      "table = arrayTable sheet ''colors'' l ''finish_authority.colors'' cols [new_column ''name'' x, new_column ''manufacturer_code'' y] name"
    using assms T_glazing_colors by (cases "ru_colors (sh_rules sheet)") auto
  then show thesis
  proof cases
    case 1 then show thesis by (intro that(1)) auto
  next
    case 2 then show thesis by (rule that(2))
  next
    case 3 then show thesis using that(4) [OF 3(2)] ids by (simp add: array_rows_def)
  qed
qed (use assms in simp_all)

text \<open>A bound cell is the cell of the sheet at its address, and a table binds either cells or entries of arrays, not both.\<close>

lemma bound_cell:
  assumes "table \<in> set (sheetTables sheet tab)" "binding_at table ch = Some b"
  shows "cellAt sheet (sc_resource (bi_cell b)) (sc_row_id (bi_cell b)) (sc_field (bi_cell b)) = Some (bi_cell b) \<and>
    (bi_index b = None \<longleftrightarrow> tb_id table \<notin> {''finishes'', ''colors'', ''limits''})"
proof -
  let ?P = "cellAt sheet (sc_resource (bi_cell b)) (sc_row_id (bi_cell b)) (sc_field (bi_cell b)) = Some (bi_cell b)"
  have at: ?P if "cellAt sheet r i f = Some (bi_cell b)" for r i f using cellAt_Some [OF that] that by simp
  show ?thesis using assms(1)
  proof (cases rule: sheet_table_cases)
    case (records t l r items names)
    then have "tb_id table = t" by (simp add: records_def)
    then show ?thesis using records_binding [OF assms(2) [unfolded records(1)]] at records(2) by auto
  next
    case finish
    have "tb_id table = ''finishes''" by (simp add: finish finishes_table_def Let_def)
    then show ?thesis using finishes_binding [OF assms(2) [unfolded finish]] at by auto
  next
    case rules
    have "tb_id table = ''rules''" by (simp add: rules rules_table_def)
    moreover obtain row r i a f where "rule_row sheet r i a f = Some (row, bi_cell b)" "bi_index b = None"
      using rules_binding [OF assms(2) [unfolded rules]] by blast
    moreover have ?P using rule_row_Some calculation(2) at by blast
    ultimately show ?thesis by simp
  next
    case (arr t l cf items cs name)
    then have "tb_id table \<in> {''colors'', ''limits''}" by (auto simp: arrayTable_def Let_def array_rows_def)
    then show ?thesis using array_binding [OF assms(2) [unfolded arr(1)]] at by auto
  qed
qed

lemma same_cell:
  assumes "table \<in> set (sheetTables sheet tab)" "binding_at table c = Some b" "binding_at table c' = Some b'" "address (bi_cell b) = address (bi_cell b')"
  shows "bi_cell b = bi_cell b'" "bi_index b = None \<longleftrightarrow> bi_index b' = None"
proof -
  note b = bound_cell [OF assms(1,2)] bound_cell [OF assms(1,3)]
  have "sc_resource (bi_cell b) = sc_resource (bi_cell b')" "sc_row_id (bi_cell b) = sc_row_id (bi_cell b')" "sc_field (bi_cell b) = sc_field (bi_cell b')"
    using assms(4) by (simp_all only: cell_address_inj)
  then have "cellAt sheet (sc_resource (bi_cell b)) (sc_row_id (bi_cell b)) (sc_field (bi_cell b))
      = cellAt sheet (sc_resource (bi_cell b')) (sc_row_id (bi_cell b')) (sc_field (bi_cell b'))" by (simp only:)
  then have "Some (bi_cell b) = Some (bi_cell b')" unfolding conjunct1 [OF b(1)] conjunct1 [OF b(2)] .
  then show "bi_cell b = bi_cell b'" by simp
  show "bi_index b = None \<longleftrightarrow> bi_index b' = None" using conjunct2 [OF b(1)] conjunct2 [OF b(2)] by blast
qed

section \<open>A batch, cell by cell\<close>

text \<open>The edits a batch makes to one cell, in their order, each with the place it is bound to.\<close>

definition cell_edits :: "SheetTable \<Rightarrow> TableChange list \<Rightarrow> string \<Rightarrow> (Binding \<times> string option) list" where
  "cell_edits table changes k = List.map_filter (\<lambda>c. case binding_at table c of None \<Rightarrow> None
     | Some b \<Rightarrow> if address (bi_cell b) = k then Some (b, ch_value c) else None) changes"

definition stored_array :: "SeriesCell \<Rightarrow> json result" where
  "stored_array c = json_parse (case sc_value c of None \<Rightarrow> ''[]'' | Some s \<Rightarrow> s)"

text \<open>
  What the edits of one cell write: the last text; or, in a cell that holds an array, the stored array with every edit made
  in turn, each on what the one before it left.
\<close>

definition written :: "(Binding \<times> string option) list \<Rightarrow> CellChangeRequest result" where
  "written es = (let c = bi_cell (fst (last es)) in map_sum id (cell_change c)
     (if bi_index (fst (last es)) = None then Inr (text_json (snd (last es)))
      else fold (\<lambda>(b, v) r. result_bind r (\<lambda>j. set_item j (the (bi_index b)) (bi_field b) (text_json v))) es (stored_array c)))"

lemma set_item_array: "set_item j i f v = Inr w \<Longrightarrow> w \<noteq> JNull"
  by (auto simp: set_item_def split: json.splits option.splits list.splits if_splits)

lemma cell_edits_snoc:
  "cell_edits table (cs @ [c]) k = cell_edits table cs k @ (case binding_at table c of None \<Rightarrow> []
     | Some b \<Rightarrow> if address (bi_cell b) = k then [(b, ch_value c)] else [])"
  by (simp add: cell_edits_def List.map_filter_def split: option.split)

lemma cell_edits_mem: "(b, v) \<in> set (cell_edits table cs k) \<Longrightarrow> \<exists>c. binding_at table c = Some b \<and> address (bi_cell b) = k"
  by (auto simp: cell_edits_def List.map_filter_def split: option.splits if_splits)

lemma single_cell:
  assumes t: "table \<in> set (sheetTables sheet tab)" and k: "\<forall>c \<in> set cs. change_key table c = Some k" and ne: "cs \<noteq> []"
  shows "gather_all (bind_change table) cs = map_sum id (\<lambda>r. [(k, r)]) (written (cell_edits table cs k))"
  using k ne
proof (induction cs rule: rev_induct)
  case (snoc c cs)
  then obtain b where b: "binding_at table c = Some b" "address (bi_cell b) = k" by (auto simp: change_key_def)
  let ?es = "cell_edits table cs k"
  have es: "cell_edits table (cs @ [c]) k = ?es @ [(b, ch_value c)]" using b by (simp add: cell_edits_snoc)
  have g: "gather_all (bind_change table) (cs @ [c]) = result_bind (gather_all (bind_change table) cs) (bind_change table c)" by (simp add: gather_all_def)
  have same: "bi_cell b' = bi_cell b \<and> (bi_index b' = None \<longleftrightarrow> bi_index b = None)" if "(b', v) \<in> set ?es" for b' v
  proof -
    from cell_edits_mem [OF that] obtain c' where c': "binding_at table c' = Some b'" "address (bi_cell b') = k" by blast
    show ?thesis using same_cell [OF t c'(1) b(1) trans [OF c'(2) b(2) [symmetric]]] by simp
  qed
  show ?case
  proof (cases "cs = []")
    case True
    then have "?es = []" by (simp add: cell_edits_def List.map_filter_def)
    have o: "gather_all (bind_change table) cs = Inr []" using True by (simp add: gather_all_def)
    show ?thesis
    proof (cases "bi_index b")
      case None
      then show ?thesis unfolding es g o \<open>?es = []\<close> using b by (simp add: bind_change_def written_def)
    next
      case (Some i)
      have s: "existing_value b [] = stored_array (bi_cell b)" by (simp add: existing_value_def stored_array_def)
      show ?thesis unfolding es g o \<open>?es = []\<close> using b Some
        by (cases "result_bind (stored_array (bi_cell b)) (\<lambda>j. set_item j i (bi_field b) (text_json (ch_value c)))")
          (simp_all add: bind_change_def s written_def)
    qed
  next
    case False
    then have ih: "gather_all (bind_change table) cs = map_sum id (\<lambda>r. [(k, r)]) (written ?es)" using snoc by (simp add: id_def)
    have "?es \<noteq> []" using False snoc.prems(1) by (cases cs) (auto simp: cell_edits_def List.map_filter_def change_key_def)
    then obtain es' b' v' where l: "?es = es' @ [(b', v')]" by (metis rev_exhaust surj_pair)
    then have b': "bi_cell b' = bi_cell b" "bi_index b' = None \<longleftrightarrow> bi_index b = None" using same [of b' v'] by simp_all
    let ?f = "fold (\<lambda>(b, v) r. result_bind r (\<lambda>j. set_item j (the (bi_index b)) (bi_field b) (text_json v))) ?es (stored_array (bi_cell b))"
    show ?thesis
    proof (cases "bi_index b")
      case None
      then show ?thesis unfolding es g ih using b b' l by (simp add: written_def bind_change_def)
    next
      case (Some i)
      then have w: "written ?es = map_sum id (cell_change (bi_cell b)) ?f" using b' l by (auto simp: written_def Let_def)
      have w': "written (?es @ [(b, ch_value c)]) =
          map_sum id (cell_change (bi_cell b)) (result_bind ?f (\<lambda>j. set_item j i (bi_field b) (text_json (ch_value c))))"
        using Some by (simp add: written_def Let_def)
      show ?thesis
      proof (cases ?f)
        case (Inl e)
        then show ?thesis unfolding es g ih w w' by simp
      next
        case (Inr j)
        have "j \<noteq> JNull" using Inr l by (auto simp: result_bind_Inr dest: set_item_array)
        then show ?thesis unfolding es g ih w w' Inr using b Some
          by (cases "set_item j i (bi_field b) (text_json (ch_value c))") (simp_all add: bind_change_def existing_value_def cell_change_def)
      qed
    qed
  qed
qed simp

lemma bindChanges_cell:
  assumes "table \<in> set (sheetTables sheet tab)" "k \<in> set (List.map_filter (change_key table) changes)"
  shows "bindChanges table (filter (\<lambda>c. change_key table c = Some k) changes) = map_sum id (\<lambda>r. [r]) (written (cell_edits table changes k))"
proof -
  let ?cs = "filter (\<lambda>c. change_key table c = Some k) changes"
  have "?cs \<noteq> []" using assms(2) by (force simp: List.map_filter_def filter_empty_conv)
  moreover have "cell_edits table ?cs k = cell_edits table changes k"
    by (induction changes) (auto simp: cell_edits_def map_filter_simps change_key_def split: option.splits)
  ultimately have "gather_all (bind_change table) ?cs = map_sum id (\<lambda>r. [(k, r)]) (written (cell_edits table changes k))"
    using single_cell [OF assms(1), of ?cs k] by simp
  then show ?thesis by (cases "written (cell_edits table changes k)") (simp_all add: bindChanges_def map_values_def)
qed

text \<open>
  C33. A batch of edits of a table of a series is refused unless every edit is bound to a cell, and otherwise makes
  one request per cell, in the order in which the cells were first edited. The request of a cell writes the last text typed
  there; for a cell that holds an array (finishes, colours, size limits) it writes the stored array with every edit of that cell made in turn,
  each on what the one before it left, so that no edit of the batch is lost. The batch fails exactly when an edit of one of the
  cells does: the stored text is not JSON, or not an array with an entry at that place.
\<close>
theorem batch_by_cell:
  assumes "table \<in> set (sheetTables sheet tab)"
  shows "bindChanges table changes = Inr out \<longleftrightarrow>
    (\<forall>c \<in> set changes. binding_at table c \<noteq> None) \<and>
    map_result (\<lambda>k. written (cell_edits table changes k)) (firsts (List.map_filter (change_key table) changes)) = Inr out"
proof -
  let ?ks = "firsts (List.map_filter (change_key table) changes)"
  have "map_result (\<lambda>k. bindChanges table (filter (\<lambda>c. change_key table c = Some k) changes)) ?ks = Inr (map (\<lambda>r. [r]) out) \<longleftrightarrow>
      map_result (\<lambda>k. written (cell_edits table changes k)) ?ks = Inr out"
  proof -
    have "bindChanges table (filter (\<lambda>c. change_key table c = Some (?ks ! i)) changes) = Inr [r] \<longleftrightarrow> written (cell_edits table changes (?ks ! i)) = Inr r"
      if "i < length ?ks" for i r
    proof -
      have "?ks ! i \<in> set (List.map_filter (change_key table) changes)" using nth_mem [OF that] by simp
      from bindChanges_cell [OF assms this] show ?thesis by (cases "written (cell_edits table changes (?ks ! i))") simp_all
    qed
    then show ?thesis by (auto simp: map_result_Inr)
  qed
  then show ?thesis by (simp only: batch_split)
qed


lemma single_change:
  assumes "binding_at table ch = Some b"
  shows "bi_index b = None \<Longrightarrow> bindChanges table [ch] = Inr [cell_change (bi_cell b) (text_json (ch_value ch))]"
    "bi_index b = Some i \<Longrightarrow> sc_value (bi_cell b) = Some (stringify j) \<Longrightarrow> json_ok j \<Longrightarrow>
      set_item j i (bi_field b) (text_json (ch_value ch)) = Inr w \<Longrightarrow> bindChanges table [ch] = Inr [cell_change (bi_cell b) w]"
  using assms by (simp_all add: bindChanges_def gather_all_def bind_change_def existing_value_def json_parse_stringify map_values_def)

section \<open>What is shown\<close>

text \<open>The text a table shows in a cell: nothing where the table has no such cell, and an empty cell shows no text.\<close>

definition cell_shown :: "SheetTable \<Rightarrow> TableChange \<Rightarrow> string option option" where
  "cell_shown table ch = Option.bind (List.find (\<lambda>row. row_key row = ch_rowId ch) (tb_rows table)) (\<lambda>row. map_of (row_values row) (ch_columnId ch))"

definition shown_text :: "(string \<times> json) list \<Rightarrow> string \<Rightarrow> string option" where
  "shown_text item k = (case map_of item k of None \<Rightarrow> None | Some JNull \<Rightarrow> None | Some v \<Rightarrow> Some (js_string v))"

lemma shown_row:
  assumes "row \<in> set (tb_rows table)" "row_key row = ch_rowId ch"
    "\<And>r. r \<in> set (tb_rows table) \<Longrightarrow> row_key r = ch_rowId ch \<Longrightarrow> map_of (row_values r) (ch_columnId ch) = Some v"
  shows "cell_shown table ch = Some v"
proof -
  obtain r where r: "List.find (\<lambda>row. row_key row = ch_rowId ch) (tb_rows table) = Some r"
    using assms(1,2) by (cases "List.find (\<lambda>row. row_key row = ch_rowId ch) (tb_rows table)") (auto simp: find_None_iff)
  then show ?thesis using assms(3) [of r] by (auto simp: cell_shown_def dest: find_Some_mem)
qed

lemma plain_row_sel [simp]: "row_key (plain_row i l vs) = i" "row_values (plain_row i l vs) = vs"
  by (simp_all add: plain_row_def)

lemma map_new_image: "map_of (map_new (map (\<lambda>x. (f x, g x)) xs)) k = Some v \<Longrightarrow> \<exists>x \<in> set xs. f x = k \<and> g x = v"
  by (auto dest!: map_new_mem)

lemma map_new_keyed: "x \<in> set xs \<Longrightarrow> map_of (map_new (map (\<lambda>x. (x, g x)) xs)) x = Some (g x)"
  by (simp add: map_of_map_new rev_map map_of_map_restrict)

lemma records_shown:
  assumes "binding_at (records sheet t l r items names) ch = Some b"
  shows "cell_shown (records sheet t l r items names) ch = Some (sc_value (bi_cell b))"
proof -
  let ?vals = "\<lambda>item. map_new (map (\<lambda>field. (field, case cellAt sheet r (it_id item) field of Some c \<Rightarrow> sc_value c | None \<Rightarrow> item_text item field)) names)"
  obtain item where item: "item \<in> set items" "it_id item = ch_rowId ch" and n: "ch_columnId ch \<in> set names"
    using assms by (auto simp: binding_at_def records_def bind_eq_Some_conv List.map_filter_def dest!: map_new_mem)
  have c: "cellAt sheet r (ch_rowId ch) (ch_columnId ch) = Some (bi_cell b)" using records_binding [OF assms] by blast
  have "map_of (?vals i) (ch_columnId ch) = Some (sc_value (bi_cell b))" if "it_id i = ch_rowId ch" for i
    using map_new_keyed [OF n, of "\<lambda>field. case cellAt sheet r (it_id i) field of Some c \<Rightarrow> sc_value c | None \<Rightarrow> item_text i field"] that c by simp
  then show ?thesis using item by (intro shown_row) (auto simp: records_def)
qed

lemma rules_shown:
  assumes "binding_at (rules_table sheet) ch = Some b"
  shows "cell_shown (rules_table sheet) ch = Some (sc_value (bi_cell b))"
proof -
  obtain row r i a f where b: "(row, bi_cell b) \<in> set (rule_rows sheet)" "rule_row sheet r i a f = Some (row, bi_cell b)"
    "ch_rowId ch = row_key row" "ch_columnId ch = ''value''" using rules_binding [OF assms] by blast
  note rc = rule_row_Some [OF b(2)]
  have "map_of (row_values r') ''value'' = Some (sc_value (bi_cell b))" if m: "(r', c') \<in> set (rule_rows sheet)" and k: "row_key r' = row_key row" for r' c'
  proof -
    obtain r1 i1 a1 f1 where "rule_row sheet r1 i1 a1 f1 = Some (r', c')" using rule_rows_cell [OF m] by blast
    note rc' = rule_row_Some [OF this]
    have "address c' = address (bi_cell b)" using rc rc' k by simp
    then have "c' = bi_cell b" using cellAt_Some [of sheet r i f "bi_cell b"] cellAt_Some [of sheet r1 i1 f1 c'] rc rc' by (auto simp: cell_address_inj)
    then show ?thesis using rc' by simp
  qed
  then show ?thesis using b(1,3,4) by (intro shown_row [of row]) (auto simp: rules_table_def intro: rev_image_eqI)
qed

lemma array_shown:
  assumes "binding_at (arrayTable sheet t l cf items cs name) ch = Some b" "bi_index b = Some i"
  shows "cell_shown (arrayTable sheet t l cf items cs name) ch = Some (shown_text (items ! i) (ch_columnId ch))"
proof -
  let ?g = "\<lambda>item k. case map_of item k of None \<Rightarrow> None | Some JNull \<Rightarrow> None | Some v \<Rightarrow> Some (js_string v)"
  have b: "i < length items" "ch_rowId ch = t @ ''-'' @ nat_str i" "ch_columnId ch \<in> set (map col_id cs)"
    using array_binding [OF assms(1)] assms(2) by auto
  have v: "map_of (map_new (map (\<lambda>col. (col_id col, ?g item (col_id col))) cs)) (ch_columnId ch) = Some (shown_text item (ch_columnId ch))" for item
    using map_new_keyed [OF b(3), of "?g item"] by (simp add: comp_def shown_text_def)
  have j: "j = i" if "nat_str j = nat_str i" for j using that nat_str_inj [of "[]" j i] by simp
  show ?thesis
    using b(1,2) by (intro shown_row [of "plain_row (t @ ''-'' @ nat_str i) (name (items ! i) i)
        (map_new (map (\<lambda>col. (col_id col, ?g (items ! i) (col_id col))) cs))"])
      (auto simp: arrayTable_def Let_def mem_entries v dest!: j intro: rev_image_eqI [of "(i, items ! i)"])
qed

lemma finishes_shown:
  assumes "binding_at (finishes_table sheet) ch = Some b" "bi_index b = Some i"
  shows "cell_shown (finishes_table sheet) ch = Some (Some (sh_finishes sheet ! i))"
proof -
  have b: "i < length (sh_finishes sheet)" "ch_rowId ch = ''finish-'' @ nat_str i" "ch_columnId ch = ''code''"
    using finishes_binding [OF assms(1)] assms(2) by auto
  have j: "j = i" if "nat_str j = nat_str i" for j using that nat_str_inj [of "[]" j i] by simp
  show ?thesis
    using b by (intro shown_row [of "plain_row (''finish-'' @ nat_str i) (''Acabado '' @ nat_str (i + 1)) [(''code'', Some (sh_finishes sheet ! i))]"])
      (auto simp: finishes_table_def Let_def mem_entries dest!: j intro: rev_image_eqI [of "(i, sh_finishes sheet ! i)"])
qed

text \<open>
  C34. What is edited is what is shown. An edit of a table of a series that is bound is bound to a cell of that series. In the tables of
  profiles, hardware and beads, and in the rules, the table shows that cell's text in the row and column edited, and the
  edit makes one request, which writes the text typed to that cell. In the tables of finishes, colours and size limits the
  row is the item of that number of the list shown, the column is the member shown, and the edit makes one request,
  which writes to the cell of that list the stored array with that member of that item (for a finish, the item itself)
  replaced by the text typed and everything else as it was stored.
\<close>
theorem edit_lands_where_shown:
  assumes "table \<in> set (sheetTables sheet tab)" "binding_at table ch = Some b"
  shows "bi_cell b \<in> set (sh_cells sheet) \<and> (case bi_index b of
        None \<Rightarrow> (sc_row_id (bi_cell b) = ch_rowId ch \<and> sc_field (bi_cell b) = ch_columnId ch \<or>
            address (bi_cell b) = ch_rowId ch \<and> ch_columnId ch = ''value'') \<and>
          cell_shown table ch = Some (sc_value (bi_cell b)) \<and>
          bindChanges table [ch] = Inr [cell_change (bi_cell b) (text_json (ch_value ch))]
      | Some i \<Rightarrow> sc_resource (bi_cell b) = Systems \<and> sc_row_id (bi_cell b) = sh_id sheet \<and>
          (sc_field (bi_cell b) = ''finishes'' \<and> ch_rowId ch = ''finish-'' @ nat_str i \<and> ch_columnId ch = ''code'' \<and>
             i < length (sh_finishes sheet) \<and> cell_shown table ch = Some (Some (sh_finishes sheet ! i)) \<and>
             (\<forall>xs. sc_value (bi_cell b) = Some (stringify (JArr xs)) \<and> json_ok (JArr xs) \<and> i < length xs \<longrightarrow>
                bindChanges table [ch] = Inr [cell_change (bi_cell b) (JArr (xs[i := text_json (ch_value ch)]))]) \<or>
           (\<exists>t items. (sc_field (bi_cell b), t, items) \<in> array_rows sheet \<and> ch_rowId ch = t @ ''-'' @ nat_str i \<and>
             i < length items \<and> cell_shown table ch = Some (shown_text (items ! i) (ch_columnId ch)) \<and>
             (\<forall>xs ms. sc_value (bi_cell b) = Some (stringify (JArr xs)) \<and> json_ok (JArr xs) \<and> i < length xs \<and> xs ! i = JObj ms \<longrightarrow>
                bindChanges table [ch] = Inr [cell_change (bi_cell b)
                  (JArr (xs[i := JObj (AList.update (ch_columnId ch) (text_json (ch_value ch)) ms)]))]))))"
  using assms(1)
proof (cases rule: sheet_table_cases)
  case (records t l r items names)
  note b = assms(2) [unfolded records(1)]
  show ?thesis using records_binding [OF b] records_shown [OF b] single_change(1) [OF assms(2)]
    by (auto simp: records(1) dest!: cellAt_Some)
next
  case rules
  note b = assms(2) [unfolded rules]
  from rules_binding [OF b] obtain row r i a f where "rule_row sheet r i a f = Some (row, bi_cell b)"
    "ch_rowId ch = row_key row" "ch_columnId ch = ''value''" "bi_index b = None" by blast
  then show ?thesis using rule_row_Some [of sheet r i a f row "bi_cell b"] rules_shown [OF b] single_change(1) [OF assms(2)]
    by (auto simp: rules dest!: cellAt_Some)
next
  case finish
  note b = assms(2) [unfolded finish]
  from finishes_binding [OF b] obtain i where i: "cellAt sheet Systems (sh_id sheet) ''finishes'' = Some (bi_cell b)" "bi_field b = None"
    "ch_columnId ch = ''code''" "i < length (sh_finishes sheet)" "bi_index b = Some i" "ch_rowId ch = ''finish-'' @ nat_str i" by blast
  have "bindChanges table [ch] = Inr [cell_change (bi_cell b) (JArr (xs[i := text_json (ch_value ch)]))]"
    if "sc_value (bi_cell b) = Some (stringify (JArr xs))" "json_ok (JArr xs)" "i < length xs" for xs
    using single_change(2) [OF assms(2) i(5) that(1,2)] that(3) i(2) by (simp add: set_item_def)
  then show ?thesis using i cellAt_Some [OF i(1)] finishes_shown [OF b i(5)] by (simp add: finish)
next
  case (arr t l cf items cs name)
  note b = assms(2) [unfolded arr(1)]
  from array_binding [OF b] obtain i where i: "cellAt sheet Systems (sh_id sheet) cf = Some (bi_cell b)" "bi_field b = Some (ch_columnId ch)"
    "ch_columnId ch \<in> col_id ` set cs" "i < length items" "bi_index b = Some i" "ch_rowId ch = t @ ''-'' @ nat_str i" by blast
  obtain c s where f: "ch_columnId ch = c # s" using i(3) arr(3) by (cases "ch_columnId ch") auto
  have w: "bindChanges table [ch] = Inr [cell_change (bi_cell b) (JArr (xs[i := JObj (AList.update (ch_columnId ch) (text_json (ch_value ch)) ms)]))]"
    if "sc_value (bi_cell b) = Some (stringify (JArr xs))" "json_ok (JArr xs)" "i < length xs" "xs ! i = JObj ms" for xs ms
    using single_change(2) [OF assms(2) i(5) that(1,2)] that(3,4) i(2) by (simp add: set_item_def f nth_opt_def)
  have c: "bi_cell b \<in> set (sh_cells sheet) \<and> sc_resource (bi_cell b) = Systems \<and> sc_row_id (bi_cell b) = sh_id sheet \<and> sc_field (bi_cell b) = cf"
    using cellAt_Some [OF i(1)] .
  then show ?thesis using array_shown [OF b i(5)] w arr(2) i(4,5,6) unfolding arr(1) [symmetric]
    by (simp del: stringify.simps) blast
qed


text \<open>A series with one profile and two size limits: changes of two limits and of the profile.\<close>

definition sample_limits :: json where
  "sample_limits = JArr [JObj [(''min_leaf_width_mm'', JStr ''300.00'')], JObj [(''min_leaf_width_mm'', JStr ''400.00'')]]"

definition sample_sheet :: SeriesSheet where
  "sample_sheet = \<lparr>sh_id = ''s1'',
     sh_cells = [\<lparr>sc_resource = Articles, sc_row_id = ''a1'', sc_field = ''face_width_mm'', sc_value = Some ''70.00'', sc_origin = None\<rparr>,
       \<lparr>sc_resource = Systems, sc_row_id = ''s1'', sc_field = ''dimensional_limits'', sc_value = Some (stringify sample_limits), sc_origin = None\<rparr>],
     sh_profiles = [\<lparr>it_id = ''a1'', it_name = Some ''Marco'', it_members = []\<rparr>], sh_hardware = [], sh_beads = [], sh_finishes = [],
     sh_rules = \<lparr>ru_name = ''Serie'', ru_system_family = Undef,
       ru_limits = Val [[(''min_leaf_width_mm'', JStr ''300.00'')], [(''min_leaf_width_mm'', JStr ''400.00'')]], ru_colors = None\<rparr>\<rparr>"

definition change_of :: "string \<Rightarrow> string \<Rightarrow> string \<Rightarrow> TableChange" where
  "change_of r c v = \<lparr>ch_rowId = r, ch_columnId = c, ch_value = Some v, ch_previous = None\<rparr>"

definition sample_changes :: "TableChange list" where
  "sample_changes = [change_of ''limits-0'' ''min_leaf_width_mm'' ''310.00'', change_of ''limits-1'' ''min_leaf_width_mm'' ''410.00'']"

definition sample_typologies :: SheetTable where
  "sample_typologies = hd (sheetTables sample_sheet T_typologies)"

lemma column_id [simp]: "col_id (column r i) = i"
  by (simp add: column_def Let_def)

lemma sample_cells:
  "cellAt sample_sheet Systems ''s1'' ''dimensional_limits'' = Some (sh_cells sample_sheet ! 1)"
  "cellAt sample_sheet Articles ''a1'' ''sku'' = None" "cellAt sample_sheet Articles ''a1'' ''commercial_length_mm'' = None"
  "cellAt sample_sheet Articles ''a1'' ''face_width_mm'' = Some (sh_cells sample_sheet ! 0)"
  "cellAt sample_sheet Articles ''a1'' ''weight_kg_m'' = None"
  by code_simp+

lemma sample_binding:
  "binding_at sample_typologies (change_of ''limits-0'' ''min_leaf_width_mm'' v) =
     Some \<lparr>bi_cell = sh_cells sample_sheet ! 1, bi_index = Some 0, bi_field = Some ''min_leaf_width_mm''\<rparr>"
  "binding_at sample_typologies (change_of ''limits-1'' ''min_leaf_width_mm'' v) =
     Some \<lparr>bi_cell = sh_cells sample_sheet ! 1, bi_index = Some 1, bi_field = Some ''min_leaf_width_mm''\<rparr>"
proof -
  have d: "nat_str 0 = ''0''" "nat_str 1 = ''1''" by code_simp+
  have i: "sh_id sample_sheet = ''s1''"
    "coalesce (ru_limits (sh_rules sample_sheet)) [] = [[(''min_leaf_width_mm'', JStr ''300.00'')], [(''min_leaf_width_mm'', JStr ''400.00'')]]"
    by (simp_all add: sample_sheet_def)
  show "binding_at sample_typologies (change_of ''limits-0'' ''min_leaf_width_mm'' v) =
     Some \<lparr>bi_cell = sh_cells sample_sheet ! 1, bi_index = Some 0, bi_field = Some ''min_leaf_width_mm''\<rparr>"
    "binding_at sample_typologies (change_of ''limits-1'' ''min_leaf_width_mm'' v) =
     Some \<lparr>bi_cell = sh_cells sample_sheet ! 1, bi_index = Some 1, bi_field = Some ''min_leaf_width_mm''\<rparr>"
    using d by (simp_all add: binding_at_def change_of_def sample_typologies_def arrayTable_def Let_def i sample_cells limit_columns_def map_new_def)
qed

lemma sample_batch:
  "bindChanges sample_typologies sample_changes = Inr [\<lparr>cc_resource = Systems, cc_row_id = ''s1'', cc_field = ''dimensional_limits'',
     cc_value = JArr [JObj [(''min_leaf_width_mm'', JStr ''310.00'')], JObj [(''min_leaf_width_mm'', JStr ''410.00'')]]\<rparr>]"
proof -
  have c: "sh_cells sample_sheet ! Suc 0 = \<lparr>sc_resource = Systems, sc_row_id = ''s1'', sc_field = ''dimensional_limits'',
      sc_value = Some (stringify sample_limits), sc_origin = None\<rparr>" by (simp add: sample_sheet_def)
  have "json_ok sample_limits" by code_simp
  then have p: "json_parse (stringify sample_limits) = Inr sample_limits" by (rule json_parse_stringify)
  let ?a = "cell_address Systems ''s1'' ''dimensional_limits''"
  let ?r = "\<lambda>v w. \<lparr>cc_resource = Systems, cc_row_id = ''s1'', cc_field = ''dimensional_limits'',
    cc_value = JArr [JObj [(''min_leaf_width_mm'', JStr v)], JObj [(''min_leaf_width_mm'', JStr w)]]\<rparr>"
  have v: "ch_value (change_of r k v) = Some v" for r k v by (simp add: change_of_def)
  have 1: "bind_change sample_typologies (change_of ''limits-0'' ''min_leaf_width_mm'' ''310.00'') [] = Inr [(?a, ?r ''310.00'' ''400.00'')]"
    by (simp add: bind_change_def sample_binding existing_value_def c p v del: stringify.simps)
      (simp add: sample_limits_def text_json_def set_item_def nth_opt_def cell_change_def)
  have 2: "bind_change sample_typologies (change_of ''limits-1'' ''min_leaf_width_mm'' ''410.00'') [(?a, ?r ''310.00'' ''400.00'')] = Inr [(?a, ?r ''310.00'' ''410.00'')]"
    by (simp add: bind_change_def sample_binding existing_value_def c v text_json_def set_item_def nth_opt_def cell_change_def)
  show ?thesis by (simp add: bindChanges_def gather_all_def sample_changes_def 1 2 map_values_def)
qed

lemma sample_typologies_sheet: "sample_typologies \<in> set (sheetTables sample_sheet T_typologies)"
  by (simp add: sample_typologies_def)

lemma sample_limits_cell:
  "bi_cell \<lparr>bi_cell = sh_cells sample_sheet ! 1, bi_index = x, bi_field = y\<rparr> = \<lparr>sc_resource = Systems, sc_row_id = ''s1'',
     sc_field = ''dimensional_limits'', sc_value = Some (stringify sample_limits), sc_origin = None\<rparr>"
  by (simp add: sample_sheet_def)

text \<open>Two edits of one cell make one request, with both.\<close>

theorem batch_witness:
  "written (cell_edits sample_typologies sample_changes (cell_address Systems ''s1'' ''dimensional_limits''))
     = Inr \<lparr>cc_resource = Systems, cc_row_id = ''s1'', cc_field = ''dimensional_limits'',
        cc_value = JArr [JObj [(''min_leaf_width_mm'', JStr ''310.00'')], JObj [(''min_leaf_width_mm'', JStr ''410.00'')]]\<rparr>"
proof -
  have c: "address (sh_cells sample_sheet ! Suc 0) = cell_address Systems ''s1'' ''dimensional_limits''" by (simp add: sample_sheet_def)
  have "List.map_filter (change_key sample_typologies) sample_changes = replicate 2 (cell_address Systems ''s1'' ''dimensional_limits'')"
    using c by (simp add: sample_changes_def map_filter_simps change_key_def sample_binding numeral_2_eq_2)
  then have "firsts (List.map_filter (change_key sample_typologies) sample_changes) = [cell_address Systems ''s1'' ''dimensional_limits'']"
    by (simp add: firsts_def numeral_2_eq_2)
  with batch_by_cell [OF sample_typologies_sheet, of sample_changes, THEN iffD1, OF sample_batch]
  show ?thesis by (auto simp: result_bind_Inr)
qed

text \<open>An edit of the second size limit keeps the first.\<close>

theorem edit_lands_witness:
  "cell_shown sample_typologies (change_of ''limits-1'' ''min_leaf_width_mm'' ''410.00'') = Some (Some ''400.00'') \<and>
   bindChanges sample_typologies [change_of ''limits-1'' ''min_leaf_width_mm'' ''410.00''] = Inr [\<lparr>cc_resource = Systems, cc_row_id = ''s1'',
     cc_field = ''dimensional_limits'', cc_value = JArr [JObj [(''min_leaf_width_mm'', JStr ''300.00'')], JObj [(''min_leaf_width_mm'', JStr ''410.00'')]]\<rparr>]"
proof -
  let ?ch = "change_of ''limits-1'' ''min_leaf_width_mm'' ''410.00''"
  have ok: "json_ok sample_limits" by code_simp
  have ch: "ch_columnId ?ch = ''min_leaf_width_mm''" "ch_value ?ch = Some ''410.00''" by (simp_all add: change_of_def)
  obtain t items where e: "(''dimensional_limits'', t, items) \<in> array_rows sample_sheet" "cell_shown sample_typologies ?ch = Some (shown_text (items ! 1) ''min_leaf_width_mm'')"
    and w: "\<And>xs ms. stringify sample_limits = stringify (JArr xs) \<Longrightarrow> json_ok (JArr xs) \<Longrightarrow> 1 < length xs \<Longrightarrow> xs ! 1 = JObj ms \<Longrightarrow>
      bindChanges sample_typologies [?ch] = Inr [\<lparr>cc_resource = Systems, cc_row_id = ''s1'', cc_field = ''dimensional_limits'',
        cc_value = JArr (xs[1 := JObj (AList.update ''min_leaf_width_mm'' (JStr ''410.00'') ms)])\<rparr>]"
    using edit_lands_where_shown [OF sample_typologies_sheet sample_binding(2), of "''410.00''"]
    unfolding sample_limits_cell ch by (auto simp: cell_change_def text_json_def simp del: stringify.simps)
  have "items = [[(''min_leaf_width_mm'', JStr ''300.00'')], [(''min_leaf_width_mm'', JStr ''400.00'')]]"
    using e(1) by (simp add: array_rows_def sample_sheet_def)
  then show ?thesis using e(2) w [of "[JObj [(''min_leaf_width_mm'', JStr ''300.00'')], JObj [(''min_leaf_width_mm'', JStr ''400.00'')]]"] ok
    unfolding sample_limits_def [symmetric] by (simp add: sample_limits_def shown_text_def del: stringify.simps json_ok.simps)
qed

end
