(* ===== verification/Drafts.thy ===== *)
theory Drafts
  imports Json
begin

text \<open>
  \<open>projects/positionDraft.ts\<close>, \<open>onboarding/draft.ts\<close> and \<open>inspector/inspectorDraft.ts\<close>: drafts kept in the
  browser's session storage and the preview of a correction on the workshop's annotations. The storage is a
  list of named texts that may deny every access, and a write may be refused for lack of space. A position
  draft is its JSON object.
\<close>

section \<open>Session storage\<close>

record Storage =
  st_items :: "(string \<times> string) list"
  st_denied :: bool

definition getItem :: "Storage \<Rightarrow> string \<Rightarrow> string option result" where
  "getItem st k = (if st_denied st then Inl (Error ''SecurityError'') else Inr (map_of (st_items st) k))"

definition setItem :: "(string \<Rightarrow> bool) \<Rightarrow> string \<Rightarrow> string \<Rightarrow> Storage \<Rightarrow> Storage result" where
  "setItem full k v st = (if st_denied st \<or> full v then Inl (Error ''QuotaExceededError'') else Inr (st\<lparr>st_items := AList.update k v (st_items st)\<rparr>))"

definition removeItem :: "string \<Rightarrow> Storage \<Rightarrow> Storage result" where
  "removeItem k st = (if st_denied st then Inl (Error ''SecurityError'') else Inr (st\<lparr>st_items := AList.delete k (st_items st)\<rparr>))"

section \<open>Drafts of positions\<close>

definition PREFIX :: string where
  "PREFIX = ''dekopen:position-draft:''"

record DraftIdentity =
  userId :: string
  orgId :: string
  projectId :: string
  positionId :: "string option"
  creationId :: "string option"

text \<open>An identity that is empty counts as none.\<close>

definition position_of :: "DraftIdentity \<Rightarrow> string option" where
  "position_of i = (case positionId i of Some (c # cs) \<Rightarrow> Some (c # cs) | _ \<Rightarrow> None)"

definition draft_target :: "DraftIdentity \<Rightarrow> string" where
  "draft_target i = (case position_of i of Some p \<Rightarrow> ''position:'' @ p
     | None \<Rightarrow> ''create:'' @ (case creationId i of None \<Rightarrow> ''pending'' | Some c \<Rightarrow> c))"

definition positionDraftKey :: "DraftIdentity \<Rightarrow> string" where
  "positionDraftKey i = PREFIX @ ''v2:'' @ userId i @ '':'' @ orgId i @ '':'' @ projectId i @ '':'' @ draft_target i"

definition legacyKey :: "DraftIdentity \<Rightarrow> string option" where
  "legacyKey i = map_option (\<lambda>p. PREFIX @ orgId i @ '':'' @ p) (position_of i)"

definition is_draft :: "json \<Rightarrow> bool" where
  "is_draft j \<longleftrightarrow> (case json_member ''savedAt'' j of Some (JNum _) \<Rightarrow> True | _ \<Rightarrow> False) \<and>
     (case json_member ''inputs'' j of Some JNull \<Rightarrow> True | Some (JArr _) \<Rightarrow> True | Some (JObj _) \<Rightarrow> True | _ \<Rightarrow> False)"

definition parse_draft :: "string option \<Rightarrow> json option" where
  "parse_draft raw = (case raw of Some (c # cs) \<Rightarrow>
       (case json_parse (c # cs) of Inl _ \<Rightarrow> None | Inr j \<Rightarrow> if is_draft j then Some j else None)
     | _ \<Rightarrow> None)"

definition readPositionDraft :: "Storage \<Rightarrow> DraftIdentity \<Rightarrow> json option" where
  "readPositionDraft st i =
     (case getItem st (positionDraftKey i) of Inl _ \<Rightarrow> None
      | Inr raw \<Rightarrow>
         (case parse_draft raw of Some d \<Rightarrow> Some d
          | None \<Rightarrow> (case legacyKey i of None \<Rightarrow> None
              | Some k \<Rightarrow> (case getItem st k of Inl _ \<Rightarrow> None | Inr raw' \<Rightarrow> parse_draft raw'))))"

text \<open>\<open>{ ...draft, version: VERSION }\<close>.\<close>

definition stamped :: "(string \<times> json) list \<Rightarrow> json" where
  "stamped draft = JObj (AList.update ''version'' (JNum (Fin 2)) draft)"

definition writePositionDraft :: "(string \<Rightarrow> bool) \<Rightarrow> DraftIdentity \<Rightarrow> (string \<times> json) list \<Rightarrow> Storage \<Rightarrow> Storage" where
  "writePositionDraft full i draft st = (case setItem full (positionDraftKey i) (stringify (stamped draft)) st of Inl _ \<Rightarrow> st | Inr st' \<Rightarrow> st')"

definition clearPositionDraft :: "DraftIdentity \<Rightarrow> Storage \<Rightarrow> Storage" where
  "clearPositionDraft i st =
     (case removeItem (positionDraftKey i) st of Inl _ \<Rightarrow> st
      | Inr st' \<Rightarrow> (case legacyKey i of None \<Rightarrow> st' | Some k \<Rightarrow> (case removeItem k st' of Inl _ \<Rightarrow> st' | Inr st'' \<Rightarrow> st'')))"

section \<open>The first steps\<close>

record ClientFields =
  cf_rut :: string
  cf_email :: string
  cf_phone :: string

record OnboardingDraft =
  od_step :: int
  od_systemId :: "string option"
  od_clientId :: "string option"
  od_projectId :: "string option"
  od_clientName :: string
  od_projectName :: string
  od_clientExtra :: ClientFields

definition storageKey :: "string \<Rightarrow> string" where
  "storageKey org = ''onboarding:'' @ org"

definition is_hex :: "char \<Rightarrow> bool" where
  "is_hex c \<longleftrightarrow> is_digit c \<or> c \<in> set ''abcdefABCDEF''"

text \<open>\<open>/^[0-9a-f]{8}(?:-[0-9a-f]{4}){3}-[0-9a-f]{12}$/i\<close>.\<close>

definition is_uuid :: "string \<Rightarrow> bool" where
  "is_uuid s \<longleftrightarrow> map length (split_on CHR ''-'' s) = [8, 4, 4, 4, 12] \<and> list_all (list_all is_hex) (split_on CHR ''-'' s)"

definition step_of :: "json \<Rightarrow> int" where
  "step_of value =
     (let rawStep = (case json_member ''step'' value of Some (JNum (Fin q)) \<Rightarrow> if q = of_int \<lfloor>q\<rfloor> then \<lfloor>q\<rfloor> else 0 | _ \<Rightarrow> 0);
          step = (if json_member ''schema'' value = Some (JNum (Fin 2)) then rawStep
            else if 0 \<le> rawStep \<and> rawStep < 7 then [0, 0, 0, 1, 2, 3, 3] ! nat rawStep else 0)
      in min 3 (max 0 step))"

definition id_member :: "string \<Rightarrow> json \<Rightarrow> string option" where
  "id_member k value = (case json_member k value of Some (JStr s) \<Rightarrow> if is_uuid s then Some s else None | _ \<Rightarrow> None)"

definition short_text :: "string \<Rightarrow> json \<Rightarrow> string" where
  "short_text k value = (case json_member k value of Some (JStr s) \<Rightarrow> take 255 s | _ \<Rightarrow> [])"

text \<open>\<open>None\<close> is the empty draft.\<close>

definition draft_from :: "json \<Rightarrow> OnboardingDraft option" where
  "draft_from saved =
     (case saved of JObj ms \<Rightarrow>
        (let extra = (case json_member ''clientExtra'' saved of Some (JObj es) \<Rightarrow> JObj es | _ \<Rightarrow> JObj [])
         in Some \<lparr>od_step = step_of saved, od_systemId = id_member ''systemId'' saved, od_clientId = id_member ''clientId'' saved,
              od_projectId = id_member ''projectId'' saved, od_clientName = short_text ''clientName'' saved,
              od_projectName = short_text ''projectName'' saved,
              od_clientExtra = \<lparr>cf_rut = short_text ''rut'' extra, cf_email = short_text ''email'' extra, cf_phone = short_text ''phone'' extra\<rparr>\<rparr>)
      | _ \<Rightarrow> None)"

definition readDraft :: "Storage \<Rightarrow> string \<Rightarrow> OnboardingDraft option" where
  "readDraft st org =
     (case getItem st (storageKey org) of Inl _ \<Rightarrow> None
      | Inr raw \<Rightarrow> (case json_parse (case raw of None \<Rightarrow> ''{}'' | Some s \<Rightarrow> s) of Inl _ \<Rightarrow> None | Inr saved \<Rightarrow> draft_from saved))"

definition completeFirstPosition :: "string \<Rightarrow> string \<Rightarrow> Storage \<Rightarrow> Storage result" where
  "completeFirstPosition org project st =
     (if Option.bind (readDraft st org) od_projectId = Some project then removeItem (storageKey org) st else Inr st)"

section \<open>Corrections of drain holes\<close>

text \<open>\<open>/^\d+(?:\.\d+)?$/\<close>, and the digits without leading or trailing zeros.\<close>

definition decimalIdentity :: "string \<Rightarrow> string result" where
  "decimalIdentity value =
     (let whole = takeWhile is_digit value; rest = dropWhile is_digit value
      in if whole = [] \<or> \<not> (rest = [] \<or> (hd rest = CHR ''.'' \<and> tl rest \<noteq> [] \<and> list_all is_digit (tl rest))) then Inl (Error ''invalid_decimal'')
         else let lead = dropWhile (\<lambda>c. c = CHR ''0'') whole; trimmed = strip_zeros (tl rest)
              in Inr ((if lead = [] then ''0'' else lead) @ (if trimmed = [] then [] else ''.'' @ trimmed)))"

fun every_result :: "('a \<Rightarrow> bool result) \<Rightarrow> 'a list \<Rightarrow> bool result" where
  "every_result f [] = Inr True"
| "every_result f (x # xs) = result_bind (f x) (\<lambda>b. if b then every_result f xs else Inr False)"

definition same_identity :: "string \<Rightarrow> string \<Rightarrow> bool result" where
  "same_identity a b = result_bind (decimalIdentity a) (\<lambda>x. result_bind (decimalIdentity b) (\<lambda>y. Inr (x = y)))"

definition sameValues :: "string list field \<Rightarrow> string list \<Rightarrow> bool result" where
  "sameValues a b = (case a of Val xs \<Rightarrow> if length xs = length b then every_result (\<lambda>(x, y). same_identity x y) (zip xs b) else Inr False
     | _ \<Rightarrow> Inr False)"

record Annotation =
  an_bay_id :: string
  an_leaf_id :: "string field"
  an_drain_holes :: "string list field"
  an_rest :: "(string \<times> json) list"

record DrainOperation =
  do_kind :: string
  do_bay_id :: string
  do_leaf_id :: "string field"
  do_old :: "string list"
  do_new :: "string list"

record InspectorDiff =
  df_operations :: "DrainOperation list"
  df_rule_id :: string
  df_width :: string
  df_holes :: "string list"
  df_bay_id :: string
  df_leaf_id :: "string field"

definition on_target :: "InspectorDiff \<Rightarrow> Annotation \<Rightarrow> bool" where
  "on_target diff item \<longleftrightarrow> an_bay_id item = df_bay_id diff \<and> opt_null (field_opt (an_leaf_id item)) = df_leaf_id diff"

text \<open>\<open>a || b\<close> of conditions that may throw: the first that holds or throws decides.\<close>

fun any_result :: "bool result list \<Rightarrow> bool result" where
  "any_result [] = Inr False"
| "any_result (r # rs) = result_bind r (\<lambda>b. if b then Inr True else any_result rs)"

definition not_result :: "bool result \<Rightarrow> bool result" where
  "not_result r = map_sum id Not r"

definition previewDrainDraft :: "Annotation list \<Rightarrow> InspectorDiff \<Rightarrow> string \<Rightarrow> Annotation list result" where
  "previewDrainDraft annotations diff shown_width =
     (case df_operations diff of
        [op] \<Rightarrow>
          result_bind (any_result [Inr (do_kind op \<noteq> ''ADD_BOTTOM_DRAIN_HOLE''), Inr (df_rule_id diff \<noteq> ''R07''),
              not_result (same_identity (df_width diff) shown_width), Inr (do_bay_id op \<noteq> df_bay_id diff), Inr (do_leaf_id op \<noteq> df_leaf_id diff)])
            (\<lambda>stale. if stale then Inl (Error ''stale_diff'') else
          (case filter (on_target diff) annotations of
             [original] \<Rightarrow>
               result_bind (any_result [not_result (sameValues (an_drain_holes original) (df_holes diff)),
                   not_result (sameValues (an_drain_holes original) (do_old op)),
                   Inr (length (do_new op) \<noteq> Suc (length (do_old op))),
                   map_sum id (\<lambda>xs. \<not> distinct xs) (map_result decimalIdentity (do_new op)),
                   not_result (every_result (\<lambda>v. not_result (every_result (\<lambda>c. not_result (same_identity c v)) (do_new op))) (do_old op))])
                 (\<lambda>stale. if stale then Inl (Error ''stale_diff'')
                   else Inr (map (\<lambda>item. if on_target diff item then item\<lparr>an_drain_holes := Val (do_new op)\<rparr> else item) annotations))
           | _ \<Rightarrow> Inl (Error ''stale_diff'')))
      | _ \<Rightarrow> Inl (Error ''stale_diff''))"

definition workshopReadiness :: "bool option \<Rightarrow> bool \<Rightarrow> bool \<Rightarrow> bool" where
  "workshopReadiness inspectorAllowed optimizationOk current \<longleftrightarrow> inspectorAllowed = Some True \<and> optimizationOk \<and> current"

section \<open>Whose draft is read\<close>

datatype DraftOp = Write DraftIdentity "(string \<times> json) list" | Clear DraftIdentity

fun draft_op :: "(string \<Rightarrow> bool) \<Rightarrow> DraftOp \<Rightarrow> Storage \<Rightarrow> Storage" where
  "draft_op full (Write i draft) st = writePositionDraft full i draft st"
| "draft_op full (Clear i) st = clearPositionDraft i st"

text \<open>Identities are generated: they hold no colon. Two identities name the same draft when they agree in the person, the
  organisation, the work and the position, or in the creation when there is no position.\<close>

definition plain_identity :: "DraftIdentity \<Rightarrow> bool" where
  "plain_identity i \<longleftrightarrow> CHR '':'' \<notin> set (userId i) \<union> set (orgId i) \<union> set (projectId i) \<and> orgId i \<noteq> ''v2''"

definition same_draft :: "DraftIdentity \<Rightarrow> DraftIdentity \<Rightarrow> bool" where
  "same_draft i j \<longleftrightarrow> userId i = userId j \<and> orgId i = orgId j \<and> projectId i = projectId j \<and> draft_target i = draft_target j"

fun op_ok :: "DraftOp \<Rightarrow> bool" where
  "op_ok (Write i d) \<longleftrightarrow> plain_identity i \<and> is_draft (stamped d) \<and> json_ok (stamped d)"
| "op_ok (Clear i) \<longleftrightarrow> plain_identity i"

text \<open>The draft of an identity, kept on its own: the last accepted write, unless it was cleared since.\<close>

fun own_draft :: "(string \<Rightarrow> bool) \<Rightarrow> DraftIdentity \<Rightarrow> DraftOp \<Rightarrow> json option \<Rightarrow> json option" where
  "own_draft full i (Write j d) before = (if same_draft i j \<and> \<not> full (stringify (stamped d)) then Some (stamped d) else before)"
| "own_draft full i (Clear j) before = (if same_draft i j then None else before)"

text \<open>A draft of the first format is dropped by any clear of that position in that organisation.\<close>

fun drops_legacy :: "DraftIdentity \<Rightarrow> DraftOp \<Rightarrow> bool" where
  "drops_legacy i (Write j d) \<longleftrightarrow> False"
| "drops_legacy i (Clear j) \<longleftrightarrow> legacyKey i \<noteq> None \<and> legacyKey j = legacyKey i"

definition current_draft :: "Storage \<Rightarrow> DraftIdentity \<Rightarrow> json option" where
  "current_draft st i = parse_draft (map_of (st_items st) (positionDraftKey i))"

definition legacy_draft :: "Storage \<Rightarrow> DraftIdentity \<Rightarrow> json option" where
  "legacy_draft st i = (case legacyKey i of None \<Rightarrow> None | Some k \<Rightarrow> parse_draft (map_of (st_items st) k))"

lemma key_iff: "plain_identity i \<Longrightarrow> plain_identity j \<Longrightarrow> positionDraftKey i = positionDraftKey j \<longleftrightarrow> same_draft i j"
  using separated [where d = "CHR '':''"] by (simp add: positionDraftKey_def same_draft_def plain_identity_def)

lemma key_not_legacy: "plain_identity j \<Longrightarrow> legacyKey j \<noteq> Some (positionDraftKey i)"
  using separated [of "CHR '':''" "orgId j" "''v2''"] by (auto simp: legacyKey_def positionDraftKey_def plain_identity_def)

lemma parse_stamped: "is_draft (stamped d) \<Longrightarrow> json_ok (stamped d) \<Longrightarrow> parse_draft (Some (stringify (stamped d))) = Some (stamped d)"
proof -
  assume a: "is_draft (stamped d)" "json_ok (stamped d)"
  obtain c cs where "stringify (stamped d) = c # cs" by (simp add: stamped_def)
  then show ?thesis using a json_parse_stringify [OF a(2)] by (simp add: parse_draft_def)
qed

lemma read_split: "\<not> st_denied st \<Longrightarrow> readPositionDraft st i = (case current_draft st i of Some d \<Rightarrow> Some d | None \<Rightarrow> legacy_draft st i)"
  by (simp add: readPositionDraft_def getItem_def current_draft_def legacy_draft_def split: option.split)

lemma clear_items:
  "\<not> st_denied st \<Longrightarrow> map_of (st_items (clearPositionDraft j st)) k =
    (if k = positionDraftKey j \<or> legacyKey j = Some k then None else map_of (st_items st) k)"
  by (auto simp: clearPositionDraft_def removeItem_def delete_conv' split: option.split)

lemma op_denied: "\<not> st_denied st \<Longrightarrow> \<not> st_denied (draft_op full op st)"
  by (cases op) (auto simp: writePositionDraft_def setItem_def clearPositionDraft_def removeItem_def split: option.split)

lemma op_current:
  assumes "op_ok op" "plain_identity i" "\<not> st_denied st"
  shows "current_draft (draft_op full op st) i = own_draft full i op (current_draft st i)"
proof (cases op)
  case (Write j d)
  then show ?thesis using assms key_iff [of i j] parse_stamped [of d]
    by (auto simp: current_draft_def writePositionDraft_def setItem_def update_conv')
next
  case (Clear j)
  then show ?thesis using assms key_iff [of i j] key_not_legacy [of j i]
    by (auto simp: current_draft_def clear_items parse_draft_def)
qed

lemma op_legacy:
  assumes "op_ok op" "plain_identity i" "\<not> st_denied st"
  shows "legacy_draft (draft_op full op st) i = (if drops_legacy i op then None else legacy_draft st i)"
proof (cases "legacyKey i")
  case None
  then show ?thesis by (simp add: legacy_draft_def)
next
  case (Some k)
  show ?thesis
  proof (cases op)
    case (Write j d)
    then show ?thesis using assms Some key_not_legacy [of i j]
      by (auto simp: legacy_draft_def writePositionDraft_def setItem_def update_conv')
  next
    case (Clear j)
    then show ?thesis using assms Some key_not_legacy [of i j] by (auto simp: legacy_draft_def clear_items parse_draft_def)
  qed
qed

lemma run_drafts:
  assumes "\<not> st_denied st" "list_all op_ok ops" "plain_identity i"
  shows "\<not> st_denied (fold (draft_op full) ops st) \<and> current_draft (fold (draft_op full) ops st) i = fold (own_draft full i) ops (current_draft st i) \<and>
    legacy_draft (fold (draft_op full) ops st) i = (if list_ex (drops_legacy i) ops then None else legacy_draft st i)"
  using assms
proof (induction ops arbitrary: st)
  case (Cons op ops)
  then show ?case using op_denied [of st full op] op_current [of op i st full] op_legacy [of op i st full] by simp
qed simp

text \<open>
  C36. The drafts in the browser's storage are kept apart. After any sequence of writes and clears by any people,
  organisations, works and positions, some writes refused for lack of space, the draft read for an identity is
  the last one that was accepted for exactly that identity, as it was written; no write or clear of another identity changes
  it. When it was cleared or there never was one, a draft of the first format is read, which an organisation has once per
  position, whoever wrote it: the one found at the start, unless since then anybody cleared that position in that organisation.
\<close>
theorem drafts_kept_apart:
  assumes "\<not> st_denied st" "list_all op_ok ops" "plain_identity i"
  shows "readPositionDraft (fold (draft_op full) ops st) i =
    (case fold (own_draft full i) ops (current_draft st i) of Some d \<Rightarrow> Some d
     | None \<Rightarrow> if list_ex (drops_legacy i) ops then None else legacy_draft st i)"
  using run_drafts [OF assms, of full] read_split by (simp split: option.split)

text \<open>Two new windows of one work: the first is written and then the second, and the second is cleared.\<close>

definition sample_identity :: "string \<Rightarrow> DraftIdentity" where
  "sample_identity c = \<lparr>userId = ''u1'', orgId = ''o1'', projectId = ''w1'', positionId = None, creationId = Some c\<rparr>"

definition sample_draft :: "string \<Rightarrow> (string \<times> json) list" where
  "sample_draft l = [(''inputs'', JObj []), (''location'', JStr l), (''savedAt'', JNum (Fin 5))]"

lemma num_ok_small: "num_ok (Fin 2)" "num_ok (Fin 5)"
  using num_ok_whole [of 2] num_ok_whole [of 5] by simp_all

lemma sample_draft_ok: "is_draft (stamped (sample_draft l)) \<and> json_ok (stamped (sample_draft l))"
  using num_ok_small
  by (simp add: is_draft_def stamped_def sample_draft_def json_member_def object_order_def index_key_def is_digit_def digit_chars_def)

theorem drafts_witness:
  "readPositionDraft (fold (draft_op (\<lambda>_. False))
       [Write (sample_identity ''c1'') (sample_draft ''A''), Write (sample_identity ''c2'') (sample_draft ''B''), Clear (sample_identity ''c2'')]
       \<lparr>st_items = [], st_denied = False\<rparr>) (sample_identity ''c1'') = Some (stamped (sample_draft ''A''))"
proof -
  let ?i = sample_identity
  let ?ops = "[Write (?i ''c1'') (sample_draft ''A''), Write (?i ''c2'') (sample_draft ''B''), Clear (?i ''c2'')]"
  have p: "plain_identity (?i c)" for c by (simp add: plain_identity_def sample_identity_def)
  have s: "\<not> st_denied \<lparr>st_items = [], st_denied = False\<rparr>" by simp
  have o: "list_all op_ok ?ops" using p sample_draft_ok by simp
  have d: "same_draft (?i ''c1'') (?i ''c1'')" "\<not> same_draft (?i ''c1'') (?i ''c2'')"
    by (simp_all add: same_draft_def sample_identity_def draft_target_def position_of_def)
  show ?thesis using drafts_kept_apart [OF s o p, of "\<lambda>_. False" "''c1''"] d by simp
qed

section \<open>What the first steps read\<close>

text \<open>Whatever the storage holds, the draft of the first steps is well typed: a step of the four, identities that are
  UUIDs, texts of at most 255 characters.\<close>

lemma readDraft_typed:
  assumes "readDraft st org = Some d"
  shows "0 \<le> od_step d \<and> od_step d \<le> 3" "\<forall>s \<in> set_option (od_systemId d) \<union> set_option (od_clientId d) \<union> set_option (od_projectId d). is_uuid s"
    "length (od_clientName d) \<le> 255" "length (od_projectName d) \<le> 255"
    "length (cf_rut (od_clientExtra d)) \<le> 255" "length (cf_email (od_clientExtra d)) \<le> 255" "length (cf_phone (od_clientExtra d)) \<le> 255"
proof -
  obtain ms where d: "draft_from (JObj ms) = Some d" using assms by (auto simp: readDraft_def draft_from_def split: sum.splits json.splits)
  have s: "length (short_text k j) \<le> 255" for k j by (simp add: short_text_def split: option.split json.split)
  have u: "is_uuid s" if "id_member k j = Some s" for k j s using that by (auto simp: id_member_def split: option.splits json.splits if_splits)
  show "0 \<le> od_step d \<and> od_step d \<le> 3" using d by (auto simp: draft_from_def Let_def step_of_def)
  show "\<forall>s \<in> set_option (od_systemId d) \<union> set_option (od_clientId d) \<union> set_option (od_projectId d). is_uuid s"
    using d u by (auto simp: draft_from_def Let_def)
  show "length (od_clientName d) \<le> 255" "length (od_projectName d) \<le> 255"
    "length (cf_rut (od_clientExtra d)) \<le> 255" "length (cf_email (od_clientExtra d)) \<le> 255" "length (cf_phone (od_clientExtra d)) \<le> 255"
    using d s by (auto simp: draft_from_def Let_def)
qed

section \<open>What a correction changes\<close>

lemma any_result_False: "any_result rs = Inr False \<longleftrightarrow> (\<forall>r \<in> set rs. r = Inr False)"
  by (induction rs) (auto simp: result_bind_Inr split: if_splits)

lemma not_result_False: "not_result r = Inr False \<longleftrightarrow> r = Inr True"
  by (cases r) (auto simp: not_result_def)

text \<open>A correction that is applied changes the drain holes of exactly one annotation, the one of its bay and leaf, into
  the holes it proposes, one more than there were, no two at the same place; every other annotation stays.\<close>

lemma previewDrainDraft_spec:
  assumes "previewDrainDraft annotations diff w = Inr result"
  shows "\<exists>op original. df_operations diff = [op] \<and> filter (on_target diff) annotations = [original] \<and>
    result = map (\<lambda>item. if on_target diff item then item\<lparr>an_drain_holes := Val (do_new op)\<rparr> else item) annotations \<and>
    sameValues (an_drain_holes original) (do_old op) = Inr True \<and> length (do_new op) = Suc (length (do_old op)) \<and>
    (\<exists>xs. map_result decimalIdentity (do_new op) = Inr xs \<and> distinct xs)"
proof -
  obtain op original where o: "df_operations diff = [op]" "filter (on_target diff) annotations = [original]"
    using assms by (auto simp: previewDrainDraft_def result_bind_Inr split: list.splits if_splits)
  have "any_result [not_result (sameValues (an_drain_holes original) (df_holes diff)),
        not_result (sameValues (an_drain_holes original) (do_old op)), Inr (length (do_new op) \<noteq> Suc (length (do_old op))),
        map_sum id (\<lambda>xs. \<not> distinct xs) (map_result decimalIdentity (do_new op)),
        not_result (every_result (\<lambda>v. not_result (every_result (\<lambda>c. not_result (same_identity c v)) (do_new op))) (do_old op))] = Inr False"
    and r: "result = map (\<lambda>item. if on_target diff item then item\<lparr>an_drain_holes := Val (do_new op)\<rparr> else item) annotations"
    using assms by (auto simp: previewDrainDraft_def o result_bind_Inr simp del: any_result.simps split: if_splits)
  then have "sameValues (an_drain_holes original) (do_old op) = Inr True" "length (do_new op) = Suc (length (do_old op))"
    "map_sum id (\<lambda>xs. \<not> distinct xs) (map_result decimalIdentity (do_new op)) = Inr False"
    unfolding any_result_False by (auto simp: not_result_False)
  then show ?thesis using o r by (cases "map_result decimalIdentity (do_new op)") auto
qed

end
