(* ===== verification/Gateway.thy ===== *)
theory Gateway
  imports Drafts SeriesSheet
begin

text \<open>
  \<open>api/apiMutator.ts\<close>, \<open>jobs/runJob.ts\<close>, \<open>jobs/jobError.ts\<close> and \<open>auth/returnTo.ts\<close>: the one place where requests leave
  the client, the polling of durable jobs, and the path kept across a sign-in. What answers from outside is
  an argument and may differ at every attempt: the signed-in context, the network, the person who reviews a
  change of the catalog, the signal that aborts, the clock. Names of headers are written in lower case, as
  the platform keeps them; the values are tokens, which it keeps as they are. A body is its text.
\<close>

section \<open>Requests\<close>

record ApiAuthContext =
  accessToken :: "string option"
  organizationId :: "string option"

record RequestInit =
  ri_method :: string
  ri_headers :: "(string \<times> string) list"
  ri_body :: "string option"

record HttpResponse =
  hr_status :: int
  hr_contentType :: "string option"
  hr_disposition :: "string option"
  hr_text :: string

record Reply =
  rp_data :: json
  rp_status :: int

datatype failure = ApiError int json | Thrown js_error

text \<open>The world at each attempt.\<close>

record World =
  wd_context :: "nat \<Rightarrow> ApiAuthContext"
  wd_fetch :: "nat \<Rightarrow> string \<Rightarrow> RequestInit \<Rightarrow> HttpResponse result"
  wd_review :: "(json \<Rightarrow> string option result) option"
  wd_aborted :: "nat \<Rightarrow> bool"

definition ORG :: string where "ORG = ''x-organization-id''"

definition REVIEW :: string where "REVIEW = ''x-catalog-review''"

definition AUTH :: string where "AUTH = ''authorization''"

definition stale_organization :: failure where
  "stale_organization = ApiError 409 (JObj [(''error'', JObj [(''code'', JStr ''stale_organization'')])])"

text \<open>The headers a request leaves with.\<close>

definition with_context :: "ApiAuthContext \<Rightarrow> (string \<times> string) list \<Rightarrow> (string \<times> string) list" where
  "with_context c headers =
     (let h1 = AList.update ''accept'' ''application/json'' headers;
          h2 = (case accessToken c of None \<Rightarrow> h1 | Some tok \<Rightarrow> AList.update AUTH (''Bearer '' @ tok) h1)
      in case organizationId c of None \<Rightarrow> h2 | Some org \<Rightarrow> AList.update ORG org h2)"

definition foreign :: "ApiAuthContext \<Rightarrow> (string \<times> string) list \<Rightarrow> bool" where
  "foreign c headers \<longleftrightarrow> map_of headers ORG \<noteq> None \<and> map_of headers ORG \<noteq> organizationId c"

definition payload_of :: "HttpResponse \<Rightarrow> json result" where
  "payload_of r =
     (if hr_text r = [] then Inr JNull
      else if contains ''application/json'' (case hr_contentType r of None \<Rightarrow> [] | Some t \<Rightarrow> t) then json_parse (hr_text r)
      else Inr (JStr (hr_text r)))"

definition ok_status :: "int \<Rightarrow> bool" where
  "ok_status s \<longleftrightarrow> 200 \<le> s \<and> s \<le> 299"

text \<open>The review a refusal asks for, if it does and none was given yet.\<close>

definition review_asked :: "int \<Rightarrow> json \<Rightarrow> (string \<times> string) list \<Rightarrow> json option" where
  "review_asked status payload headers =
     (if status = 409 \<and> Option.bind (json_member ''error'' payload) (json_member ''code'') = Some (JStr ''catalog_reference_changed'') \<and>
         map_of headers REVIEW = None
      then (case json_member ''golden_review'' payload of Some g \<Rightarrow> if json_truthy g then Some g else None | None \<Rightarrow> None)
      else None)"

lemma with_context_REVIEW: "map_of (with_context c h) REVIEW = map_of h REVIEW"
  by (simp add: with_context_def Let_def update_conv' REVIEW_def AUTH_def ORG_def split: option.split)

lemma review_once: "review_asked s p (with_context c h) = Some g \<Longrightarrow> map_of h REVIEW = None"
  by (auto simp: review_asked_def with_context_REVIEW split: if_splits)

text \<open>The outcome and the requests that were sent. The repeated call carries the review, so it is not repeated again.\<close>

function apiMutator :: "World \<Rightarrow> nat \<Rightarrow> string \<Rightarrow> RequestInit \<Rightarrow> (failure + Reply) \<times> (string \<times> RequestInit) list" where
  "apiMutator world n url options =
     (let c = wd_context world n
      in if foreign c (ri_headers options) then (Inl stale_organization, [])
         else let headers = with_context c (ri_headers options);
                  sent = options\<lparr>ri_headers := headers\<rparr>
              in case wd_fetch world n url sent of
                   Inl e \<Rightarrow> (Inl (Thrown e), [(url, sent)])
                 | Inr response \<Rightarrow>
                    (case payload_of response of
                       Inl e \<Rightarrow> (Inl (Thrown e), [(url, sent)])
                     | Inr payload \<Rightarrow>
                        if ok_status (hr_status response) then (Inr \<lparr>rp_data = payload, rp_status = hr_status response\<rparr>, [(url, sent)])
                        else case (review_asked (hr_status response) payload headers, wd_review world) of
                          (Some g, Some review) \<Rightarrow>
                            (case review g of
                               Inl e \<Rightarrow> (Inl (Thrown e), [(url, sent)])
                             | Inr (Some (t # ts)) \<Rightarrow>
                                 if \<not> wd_aborted world n
                                 then let (r, more) = apiMutator world (Suc n) url (sent\<lparr>ri_headers := AList.update REVIEW (t # ts) headers\<rparr>)
                                      in (r, (url, sent) # more)
                                 else (Inl (ApiError (hr_status response) payload), [(url, sent)])
                             | Inr _ \<Rightarrow> (Inl (ApiError (hr_status response) payload), [(url, sent)]))
                        | _ \<Rightarrow> (Inl (ApiError (hr_status response) payload), [(url, sent)])))"
  by pat_completeness auto

termination
proof (relation "measure (\<lambda>(_, _, _, options). if map_of (ri_headers options) REVIEW = None then 1 else 0)", goal_cases)
  case (2 world n url options)
  then show ?case by (auto simp: update_conv' dest!: review_once [OF sym])
qed simp

declare apiMutator.simps [simp del]

text \<open>\<open>/filename="?([^";\n]+)"?/\<close>: the first occurrence that has a name.\<close>

fun filename_of :: "string \<Rightarrow> string option" where
  "filename_of s =
     (let rest = drop 9 s;
          inner = (case rest of c # cs \<Rightarrow> if c = CHR 0x22 then cs else rest | [] \<Rightarrow> []);
          name = takeWhile (\<lambda>c. c \<notin> {CHR 0x22, CHR 0x3B, CHR 0x0A}) inner
      in if take 9 s = ''filename='' \<and> name \<noteq> [] then Some name
         else case s of [] \<Rightarrow> None | _ # cs \<Rightarrow> filename_of cs)"

declare filename_of.simps [simp del]

record Download =
  dl_blob :: string
  dl_filename :: "string option"

definition apiFetchBlob :: "World \<Rightarrow> string \<Rightarrow> RequestInit \<Rightarrow> (failure + Download) \<times> (string \<times> RequestInit) list" where
  "apiFetchBlob world url options =
     (let c = wd_context world 0
      in if foreign c (ri_headers options) then (Inl stale_organization, [])
         else let h1 = (case accessToken c of None \<Rightarrow> ri_headers options | Some tok \<Rightarrow> AList.update AUTH (''Bearer '' @ tok) (ri_headers options));
                  headers = (case organizationId c of None \<Rightarrow> h1 | Some org \<Rightarrow> AList.update ORG org h1);
                  sent = options\<lparr>ri_headers := headers\<rparr>
              in (case wd_fetch world 0 url sent of
                    Inl e \<Rightarrow> Inl (Thrown e)
                  | Inr response \<Rightarrow>
                      if \<not> ok_status (hr_status response)
                      then Inl (ApiError (hr_status response) (case json_parse (hr_text response) of Inl _ \<Rightarrow> JNull | Inr j \<Rightarrow> j))
                      else Inr \<lparr>dl_blob = hr_text response,
                                dl_filename = filename_of (case hr_disposition response of None \<Rightarrow> [] | Some d \<Rightarrow> d)\<rparr>,
                  [(url, sent)]))"

section \<open>Jobs\<close>

record JobRun =
  jb_id :: string
  jb_state :: string
  jb_rest :: "(string \<times> json) list"

definition TERMINAL_STATES :: "string set" where
  "TERMINAL_STATES = {''SUCCEEDED'', ''FAILED'', ''CANCELED''}"

definition TIMEOUT_MS :: int where "TIMEOUT_MS = 180000"

definition POLL_MS :: int where "POLL_MS = 1200"

datatype job_error = JobFailedError JobRun | CallFailed js_error

text \<open>The \<open>k\<close>-th reading of the clock, and the answer to the \<open>k\<close>-th poll. The updates reported so far come along.\<close>

partial_function (option) poll_job :: "(nat \<Rightarrow> int) \<Rightarrow> (nat \<Rightarrow> string \<Rightarrow> JobRun result) \<Rightarrow> int \<Rightarrow> nat \<Rightarrow> JobRun \<Rightarrow> JobRun list \<Rightarrow>
    ((js_error + JobRun) \<times> JobRun list) option" where
  "poll_job clock get deadline k job updates =
     (if jb_state job \<notin> TERMINAL_STATES \<and> clock k < deadline
      then (case get k (jb_id job) of Inl e \<Rightarrow> Some (Inl e, updates)
            | Inr polled \<Rightarrow> poll_job clock get deadline (Suc k) polled (updates @ [polled]))
      else Some (Inr job, updates))"

declare poll_job.simps [code]

definition runJob :: "(nat \<Rightarrow> int) \<Rightarrow> (nat \<Rightarrow> string \<Rightarrow> JobRun result) \<Rightarrow> JobRun result \<Rightarrow> ((job_error + JobRun) \<times> JobRun list) option" where
  "runJob clock get enqueued =
     (case enqueued of Inl e \<Rightarrow> Some (Inl (CallFailed e), [])
      | Inr job \<Rightarrow>
         (case poll_job clock get (clock 0 + TIMEOUT_MS) 1 job [job] of None \<Rightarrow> None
          | Some (Inl e, updates) \<Rightarrow> Some (Inl (CallFailed e), updates)
          | Some (Inr final, updates) \<Rightarrow>
              Some (if jb_state final \<noteq> ''SUCCEEDED'' then Inl (JobFailedError final) else Inr final, updates)))"

definition jobErrorKey :: "string \<Rightarrow> string" where
  "jobErrorKey code =
     (if code = ''ai_job_canceled'' \<or> code = ''ai_job_unclaimable'' then ''jobs.fail.canceled''
      else if code = ''ai_budget_exceeded'' then ''jobs.fail.aiBudget''
      else if contains ''cost_list'' code \<or> contains ''pricing_configuration'' code then ''jobs.fail.missingAuthority''
      else if endsWith code ''_not_found'' then ''jobs.fail.notFound''
      else if contains ''permission'' code \<or> contains ''access_denied'' code then ''jobs.fail.permission''
      else if startsWith code ''document_storage_'' then ''jobs.fail.storage''
      else if contains ''hash_mismatch'' code \<or> contains ''stale'' code then ''jobs.fail.stale''
      else if code = ''ai_entitlement_required'' then ''jobs.fail.plan''
      else if code = ''insufficient_credits'' \<or> code = ''ai_credits_exhausted'' then ''jobs.fail.credits''
      else if code = ''ai_provider_quota'' then ''jobs.fail.providerQuota''
      else if code = ''ai_provider_auth'' \<or> code = ''ai_provider_rejected'' then ''jobs.fail.providerConfig''
      else if code = ''ai_job_failed'' \<or> code = ''ai_context_error'' then ''jobs.fail.generic''
      else if startsWith code ''ai_'' \<or> contains ''provider'' code \<or> contains ''timeout'' code \<or> contains ''unavailable'' code then ''jobs.fail.provider''
      else if startsWith code ''invalid_'' \<or> endsWith code ''_invalid'' \<or> contains ''required'' code then ''jobs.fail.invalid''
      else ''jobs.fail.generic'')"

section \<open>The way back after a sign-in\<close>

definition RETURN_KEY :: string where
  "RETURN_KEY = ''dk:returnTo''"

text \<open>\<open>/^[a-zA-Z][a-zA-Z0-9+.-]*:/\<close>.\<close>

definition is_letter :: "char \<Rightarrow> bool" where
  "is_letter c \<longleftrightarrow> (let n = of_char c :: nat in 65 \<le> n \<and> n \<le> 90 \<or> 97 \<le> n \<and> n \<le> 122)"

definition has_scheme :: "string \<Rightarrow> bool" where
  "has_scheme path = (case path of [] \<Rightarrow> False
     | c # cs \<Rightarrow> is_letter c \<and> startsWith (dropWhile (\<lambda>d. is_letter d \<or> is_digit d \<or> d \<in> set ''+.-'') cs) '':'')"

definition isSafeInternalPath :: "string \<Rightarrow> bool" where
  "isSafeInternalPath path \<longleftrightarrow> startsWith path ''/'' \<and> \<not> startsWith path ''//'' \<and> CHR 0x5C \<notin> set path \<and> \<not> has_scheme path \<and>
     path \<noteq> ''/login'' \<and> \<not> startsWith path ''/auth/''"

definition stashReturnTo :: "(string \<Rightarrow> bool) \<Rightarrow> string field \<Rightarrow> Storage \<Rightarrow> Storage" where
  "stashReturnTo full path st = (case path of Val p \<Rightarrow>
       if p \<noteq> [] \<and> isSafeInternalPath p then (case setItem full RETURN_KEY p st of Inl _ \<Rightarrow> st | Inr st' \<Rightarrow> st') else st
     | _ \<Rightarrow> st)"

definition consumeReturnTo :: "string \<Rightarrow> Storage \<Rightarrow> string \<times> Storage" where
  "consumeReturnTo fallback st =
     (case getItem st RETURN_KEY of Inl _ \<Rightarrow> (fallback, st)
      | Inr raw \<Rightarrow> (case removeItem RETURN_KEY st of Inl _ \<Rightarrow> (fallback, st)
          | Inr st' \<Rightarrow> (case raw of Some p \<Rightarrow> if p \<noteq> [] \<and> isSafeInternalPath p then p else fallback | None \<Rightarrow> fallback, st')))"

section \<open>What leaves the client\<close>

lemma header_names [simp]: "ORG \<noteq> REVIEW" "ORG \<noteq> AUTH" "AUTH \<noteq> REVIEW" "ORG \<noteq> ''accept''" "AUTH \<noteq> ''accept''" "REVIEW \<noteq> ''accept''"
  by (simp_all add: ORG_def REVIEW_def AUTH_def)

lemmas header_names' [simp] = header_names [symmetric]

lemma sent_headers:
  "map_of (with_context c h) ORG = (case organizationId c of Some org \<Rightarrow> Some org | None \<Rightarrow> map_of h ORG)"
  "map_of (with_context c h) AUTH = (case accessToken c of Some tok \<Rightarrow> Some (''Bearer '' @ tok) | None \<Rightarrow> map_of h AUTH)"
  by (auto simp: with_context_def Let_def update_conv' split: option.split)

abbreviation first_sent :: "World \<Rightarrow> nat \<Rightarrow> RequestInit \<Rightarrow> RequestInit" where
  "first_sent world n options \<equiv> options\<lparr>ri_headers := with_context (wd_context world n) (ri_headers options)\<rparr>"

text \<open>A call that sends nothing, one that sends one request, and one that is repeated after a review.\<close>

lemma apiMutator_shape:
  assumes "apiMutator world n url options = (r, sent)"
  obtains (foreign) "foreign (wd_context world n) (ri_headers options)" "sent = []" "r = Inl stale_organization"
  | (once) "\<not> foreign (wd_context world n) (ri_headers options)" "sent = [(url, first_sent world n options)]"
  | (again) review g tok more where "\<not> foreign (wd_context world n) (ri_headers options)" "map_of (ri_headers options) REVIEW = None"
      "wd_review world = Some review" "review g = Inr (Some tok)" "tok \<noteq> []"
      "apiMutator world (Suc n) url (options\<lparr>ri_headers := AList.update REVIEW tok (with_context (wd_context world n) (ri_headers options))\<rparr>) = (r, more)"
      "sent = (url, first_sent world n options) # more"
proof (cases "foreign (wd_context world n) (ri_headers options)")
  case True
  then show ?thesis using assms that(1) by (subst (asm) apiMutator.simps) simp
next
  case f: False
  let ?s = "first_sent world n options"
  consider (again') resp payload g review t ts where "wd_fetch world n url ?s = Inr resp" "payload_of resp = Inr payload" "\<not> ok_status (hr_status resp)"
      "review_asked (hr_status resp) payload (ri_headers ?s) = Some g" "wd_review world = Some review" "review g = Inr (Some (t # ts))" "\<not> wd_aborted world n"
    | (once') "sent = [(url, ?s)]"
    using assms f by (subst (asm) apiMutator.simps)
      (auto simp: Let_def split: sum.splits option.splits list.splits if_splits prod.splits)
  then show ?thesis
  proof cases
    case again'
    obtain r' more where m: "apiMutator world (Suc n) url (?s\<lparr>ri_headers := AList.update REVIEW (t # ts) (ri_headers ?s)\<rparr>) = (r', more)" by fastforce
    then have "r = r'" "sent = (url, ?s) # more"
      using assms f again' by (subst (asm) (2) apiMutator.simps, simp add: Let_def)+
    then show ?thesis using that(3) [of review g "t # ts" more] f again' m review_once by simp
  next
    case once'
    then show ?thesis using that(2) f by blast
  qed
qed

lemma reviewed_once:
  assumes "apiMutator world n url options = (r, sent)" "map_of (ri_headers options) REVIEW \<noteq> None"
  shows "sent = [] \<or> \<not> foreign (wd_context world n) (ri_headers options) \<and> sent = [(url, first_sent world n options)]"
  using assms(1)
proof (cases rule: apiMutator_shape)
  case again
  then show ?thesis using assms(2) by simp
qed simp_all

text \<open>What a request that is sent carries.\<close>

definition carries :: "ApiAuthContext \<Rightarrow> string \<Rightarrow> RequestInit \<Rightarrow> string \<times> RequestInit \<Rightarrow> bool" where
  "carries c url options = (\<lambda>(u, q). u = url \<and> ri_method q = ri_method options \<and> ri_body q = ri_body options \<and>
     (\<forall>org. organizationId c = Some org \<longrightarrow> map_of (ri_headers q) ORG = Some org) \<and>
     (\<forall>tok. accessToken c = Some tok \<longrightarrow> map_of (ri_headers q) AUTH = Some (''Bearer '' @ tok)) \<and>
     (\<forall>org. map_of (ri_headers options) ORG = Some org \<longrightarrow> map_of (ri_headers q) ORG = Some org))"

lemma first_carries: "\<not> foreign (wd_context world n) (ri_headers options) \<Longrightarrow> carries (wd_context world n) url options (url, first_sent world n options)"
  by (auto simp: carries_def sent_headers foreign_def split: option.split)

text \<open>
  C37. Requests stay with their organisation. Whatever the session, the server and the reviewer do between the
  attempts, a call made for another organisation than the one signed in sends nothing; every request that is
  sent has the call's address, method and body, the signed-in organisation and its token, and never another
  organisation than the call names; and at most two are sent, the second only after a person accepted the
  catalog change the server reported, with that acceptance and for the organisation of the first.
\<close>
theorem requests_stay_with_their_organisation:
  assumes "apiMutator world n url options = (r, sent)"
  shows "length sent \<le> 2 \<and>
    (foreign (wd_context world n) (ri_headers options) \<longrightarrow> sent = [] \<and> r = Inl stale_organization) \<and>
    (\<forall>k < length sent. carries (wd_context world (n + k)) url options (sent ! k)) \<and>
    (length sent = 2 \<longrightarrow>
      (\<exists>review g tok. wd_review world = Some review \<and> review g = Inr (Some tok) \<and> map_of (ri_headers (snd (sent ! 1))) REVIEW = Some tok) \<and>
      (\<forall>org. map_of (ri_headers (snd (sent ! 0))) ORG = Some org \<longrightarrow> map_of (ri_headers (snd (sent ! 1))) ORG = Some org))"
  using assms
proof (cases rule: apiMutator_shape)
  case foreign
  then show ?thesis by simp
next
  case once
  then show ?thesis using first_carries [OF once(1), of url] by simp
next
  case (again review g tok more)
  let ?o = "options\<lparr>ri_headers := AList.update REVIEW tok (with_context (wd_context world n) (ri_headers options))\<rparr>"
  have v: "map_of (ri_headers ?o) REVIEW = Some tok" "map_of (ri_headers ?o) ORG = map_of (ri_headers (first_sent world n options)) ORG"
    by (simp_all add: update_conv')
  have m: "more = [] \<or> \<not> foreign (wd_context world (Suc n)) (ri_headers ?o) \<and> more = [(url, first_sent world (Suc n) ?o)]"
    using reviewed_once [OF again(6)] v(1) by auto
  have c0: "carries (wd_context world n) url options (url, first_sent world n options)" by (rule first_carries [OF again(1)])
  show ?thesis
  proof (cases "more = []")
    case True
    then show ?thesis using again c0 by simp
  next
    case False
    then have f: "\<not> foreign (wd_context world (Suc n)) (ri_headers ?o)" and s: "more = [(url, first_sent world (Suc n) ?o)]" using m by auto
    have c1: "carries (wd_context world (Suc n)) url ?o (url, first_sent world (Suc n) ?o)" by (rule first_carries [OF f])
    then have c1': "carries (wd_context world (Suc n)) url options (url, first_sent world (Suc n) ?o)"
      using c0 v(2) by (auto simp: carries_def)
    have t: "map_of (ri_headers (first_sent world (Suc n) ?o)) REVIEW = Some tok" using v(1) by (simp add: with_context_REVIEW)
    have g: "map_of (ri_headers (first_sent world (Suc n) ?o)) ORG = Some org" if "map_of (ri_headers (first_sent world n options)) ORG = Some org" for org
      using c1 that v(2) by (simp add: carries_def)
    have l: "sent = [(url, first_sent world n options), (url, first_sent world (Suc n) ?o)]" using again s by simp
    have a: "\<forall>k < length sent. carries (wd_context world (n + k)) url options (sent ! k)"
      using c0 c1' unfolding l by (auto simp: less_Suc_eq)
    show ?thesis using again(1,3,4) a t g unfolding l by auto
  qed
qed

definition sample_session :: World where
  "sample_session = \<lparr>wd_context = (\<lambda>_. \<lparr>accessToken = Some ''tk'', organizationId = Some ''o1''\<rparr>),
     wd_fetch = (\<lambda>_ _ q. Inr (if map_of (ri_headers q) REVIEW = None
        then \<lparr>hr_status = 409, hr_contentType = Some ''application/json'', hr_disposition = None,
              hr_text = ''{\"error\":{\"code\":\"catalog_reference_changed\"},\"golden_review\":{}}''\<rparr>
        else \<lparr>hr_status = 204, hr_contentType = None, hr_disposition = None, hr_text = []\<rparr>)),
     wd_review = Some (\<lambda>_. Inr (Some ''yes'')), wd_aborted = (\<lambda>_. False)\<rparr>"

definition sample_request :: RequestInit where
  "sample_request = \<lparr>ri_method = ''PUT'', ri_headers = [(''x-organization-id'', ''o1'')], ri_body = Some ''{}''\<rparr>"

text \<open>A call that is refused once for a changed catalog and goes through after the review, in two requests.\<close>

theorem requests_witness:
  "\<exists>sent. apiMutator sample_session 0 ''/catalog'' sample_request = (Inr \<lparr>rp_data = JNull, rp_status = 204\<rparr>, sent) \<and> length sent = 2 \<and>
     map_of (ri_headers (snd (sent ! 1))) ORG = Some ''o1'' \<and> map_of (ri_headers (snd (sent ! 1))) REVIEW = Some ''yes''"
proof -
  have a: "apiMutator sample_session 0 ''/catalog'' sample_request = (Inr \<lparr>rp_data = JNull, rp_status = 204\<rparr>,
     [(''/catalog'', sample_request\<lparr>ri_headers := [(ORG, ''o1''), (''accept'', ''application/json''), (AUTH, ''Bearer tk'')]\<rparr>),
      (''/catalog'', sample_request\<lparr>ri_headers := [(ORG, ''o1''), (''accept'', ''application/json''), (AUTH, ''Bearer tk''), (REVIEW, ''yes'')]\<rparr>)])"
    by code_simp
  show ?thesis using requests_stay_with_their_organisation [OF a] a by (auto simp: sample_session_def)
qed

lemma download_carries:
  assumes "apiFetchBlob world url options = (r, sent)"
  shows "foreign (wd_context world 0) (ri_headers options) \<and> sent = [] \<and> r = Inl stale_organization \<or>
    length sent = 1 \<and> carries (wd_context world 0) url options (sent ! 0)"
  using assms by (cases "foreign (wd_context world 0) (ri_headers options)")
    (auto simp: apiFetchBlob_def Let_def carries_def foreign_def update_conv' split: option.splits)

section \<open>A job that is polled ends\<close>

text \<open>The updates of one job: each poll asks for the job of the last one, which had not ended.\<close>

definition polled_chain :: "(nat \<Rightarrow> string \<Rightarrow> JobRun result) \<Rightarrow> JobRun list \<Rightarrow> bool" where
  "polled_chain get us \<longleftrightarrow> (\<forall>i. Suc i < length us \<longrightarrow>
     jb_state (us ! i) \<notin> TERMINAL_STATES \<and> get (Suc i) (jb_id (us ! i)) = Inr (us ! Suc i))"

lemma polled_chain_snoc:
  assumes "polled_chain get us" "us \<noteq> []" "jb_state (last us) \<notin> TERMINAL_STATES" "get (length us) (jb_id (last us)) = Inr j"
  shows "polled_chain get (us @ [j])"
proof -
  have "Suc i = length us \<Longrightarrow> us ! i = last us" for i using assms(2) by (metis diff_Suc_1 last_conv_nth)
  then show ?thesis using assms unfolding polled_chain_def by (auto simp: nth_append less_Suc_eq)
qed

lemma clock_grows:
  assumes "clock 0 \<le> clock 1" "\<forall>k \<ge> 1. clock k + POLL_MS \<le> clock (Suc k)"
  shows "clock 0 + int k * POLL_MS \<le> clock (Suc k)"
proof (induction k)
  case (Suc k)
  then show ?case using assms(2) [rule_format, of "Suc k"] by (simp add: algebra_simps)
qed (use assms in simp)

lemma poll_job_ends:
  assumes c: "clock 0 \<le> clock 1" "\<forall>k \<ge> 1. clock k + POLL_MS \<le> clock (Suc k)"
    and "polled_chain get us" "us \<noteq> []" "length us \<le> 151"
  shows "\<exists>r us'. poll_job clock get (clock 0 + TIMEOUT_MS) (length us) (last us) us = Some (r, us') \<and> us' \<noteq> [] \<and> hd us' = hd us \<and>
    length us' \<le> 151 \<and> polled_chain get us' \<and>
    (\<forall>e. r = Inl e \<longrightarrow> get (length us') (jb_id (last us')) = Inl e) \<and>
    (\<forall>j. r = Inr j \<longrightarrow> j = last us' \<and> (jb_state j \<in> TERMINAL_STATES \<or> clock 0 + TIMEOUT_MS \<le> clock (length us')))"
  using assms(3-)
proof (induction "151 - length us" arbitrary: us rule: less_induct)
  case less
  let ?go = "jb_state (last us) \<notin> TERMINAL_STATES \<and> clock (length us) < clock 0 + TIMEOUT_MS"
  show ?case
  proof (cases "\<exists>j. ?go \<and> get (length us) (jb_id (last us)) = Inr j")
    case False
    then show ?thesis using less.prems by (subst poll_job.simps) (auto split: sum.splits)
  next
    case True
    then obtain j where j: ?go "get (length us) (jb_id (last us)) = Inr j" by blast
    obtain m where m: "length us = Suc m" using less.prems(2) by (cases us) auto
    have "clock 0 + int m * POLL_MS \<le> clock (length us)" unfolding m by (rule clock_grows [OF c])
    then have "length us \<le> 150" using j(1) m by (simp add: POLL_MS_def TIMEOUT_MS_def)
    then show ?thesis
      using less.hyps [of "us @ [j]"] less.prems j polled_chain_snoc [OF less.prems(1,2)] by (subst poll_job.simps) simp
  qed
qed

text \<open>
  C38. A job that is followed ends. With a clock that does not go back, and a wait between two polls that lasts at
  least as long as it was asked to, following a job that was accepted always ends, after at most a hundred
  and fifty polls. Every state is reported, the first one first; each poll asks for the job as it was last
  reported, and none is made once a final state is known. The job is handed over exactly when its last state is success;
  a failure names the job as it was last reported, which had failed or been cancelled unless the three minutes
  were over; and nothing else is thrown than what a poll threw.
\<close>
theorem runJob_ends:
  assumes "clock 0 \<le> clock 1" "\<forall>k \<ge> 1. clock k + POLL_MS \<le> clock (Suc k)"
  shows "\<exists>r us. runJob clock get (Inr job) = Some (r, us) \<and> us \<noteq> [] \<and> hd us = job \<and> length us \<le> 151 \<and> polled_chain get us \<and>
    (case r of
       Inr done' \<Rightarrow> done' = last us \<and> jb_state done' = ''SUCCEEDED''
     | Inl (JobFailedError j) \<Rightarrow> j = last us \<and> (jb_state j = ''FAILED'' \<or> jb_state j = ''CANCELED'' \<or>
         jb_state j \<noteq> ''SUCCEEDED'' \<and> clock 0 + TIMEOUT_MS \<le> clock (length us))
     | Inl (CallFailed e) \<Rightarrow> get (length us) (jb_id (last us)) = Inl e)"
proof -
  obtain r us where "poll_job clock get (clock 0 + TIMEOUT_MS) 1 job [job] = Some (r, us)" "us \<noteq> []" "hd us = job"
    "length us \<le> 151" "polled_chain get us" "\<forall>e. r = Inl e \<longrightarrow> get (length us) (jb_id (last us)) = Inl e"
    "\<forall>j. r = Inr j \<longrightarrow> j = last us \<and> (jb_state j \<in> TERMINAL_STATES \<or> clock 0 + TIMEOUT_MS \<le> clock (length us))"
    using poll_job_ends [OF assms, of get "[job]"] by (auto simp: polled_chain_def)
  then show ?thesis by (cases r) (auto simp: runJob_def TERMINAL_STATES_def)
qed

definition sample_job :: "nat \<Rightarrow> string \<Rightarrow> JobRun result" where
  "sample_job k i = Inr \<lparr>jb_id = i, jb_state = (if k < 3 then ''RUNNING'' else ''SUCCEEDED''), jb_rest = []\<rparr>"

theorem runJob_witness:
  "\<exists>us. runJob (\<lambda>k. 1300 * int k) sample_job (Inr \<lparr>jb_id = ''j'', jb_state = ''QUEUED'', jb_rest = []\<rparr>) = Some (Inr \<lparr>jb_id = ''j'', jb_state = ''SUCCEEDED'', jb_rest = []\<rparr>, us) \<and>
     length us = 4 \<and> polled_chain sample_job us"
proof -
  have "runJob (\<lambda>k. 1300 * int k) sample_job (Inr \<lparr>jb_id = ''j'', jb_state = ''QUEUED'', jb_rest = []\<rparr>) = Some (Inr \<lparr>jb_id = ''j'', jb_state = ''SUCCEEDED'', jb_rest = []\<rparr>,
     [\<lparr>jb_id = ''j'', jb_state = ''QUEUED'', jb_rest = []\<rparr>, \<lparr>jb_id = ''j'', jb_state = ''RUNNING'', jb_rest = []\<rparr>, \<lparr>jb_id = ''j'', jb_state = ''RUNNING'', jb_rest = []\<rparr>,
      \<lparr>jb_id = ''j'', jb_state = ''SUCCEEDED'', jb_rest = []\<rparr>])"
    by code_simp
  then show ?thesis
    using runJob_ends [of "\<lambda>k. 1300 * int k" sample_job "\<lparr>jb_id = ''j'', jb_state = ''QUEUED'', jb_rest = []\<rparr>"] by (auto simp: POLL_MS_def)
qed

section \<open>Where the sign-in leads back\<close>

lemma consumeReturnTo_spec:
  assumes "\<not> st_denied st" "p \<noteq> []" "\<not> full p"
  shows "consumeReturnTo fallback (stashReturnTo full (Val p) st) =
     (if isSafeInternalPath p then p else fst (consumeReturnTo fallback st), st\<lparr>st_items := AList.delete RETURN_KEY (st_items st)\<rparr>)"
  using assms by (auto simp: consumeReturnTo_def stashReturnTo_def getItem_def setItem_def removeItem_def update_conv' delete_update_same
    split: option.split)

lemma consumed_path_is_safe: "fst (consumeReturnTo fallback st) = fallback \<or> isSafeInternalPath (fst (consumeReturnTo fallback st))"
  by (auto simp: consumeReturnTo_def split: sum.split option.split)

text \<open>The addresses of a browser are read with tabs and line breaks left out, so this path names another host.\<close>

lemma tab_path_is_kept: "isSafeInternalPath (''/'' @ [CHR 0x09] @ ''/evil.example'')"
  by code_simp

end
