(* ===== verification/Authority.thy ===== *)
theory Authority
  imports DesignLibrary Editable Commands SheetProps
begin

text \<open>
  \<open>starterAuthority.ts\<close>, \<open>dividerNudge.ts\<close> and \<open>assemblyIssueNavigation.ts\<close> of \<open>features/canvas\<close>: the openings a new
  coupled design takes from the catalog, moving a division by whole millimetres, and the control an issue of
  the engine leads to.
\<close>

section \<open>Openings of a new design\<close>

definition fits :: "NodeData \<Rightarrow> OpeningChoice \<Rightarrow> bool" where
  "fits d c \<longleftrightarrow> direction (ch_opening c) = INWARD \<and> \<not> fixed_in_sash (ch_opening c) \<and> leaf_role (ch_opening c) = SINGLE \<and>
     (opening_type d \<noteq> Val O_DOOR_ENTRY \<or>
       (case door_handedness d of Val s \<Rightarrow> hinge_side (ch_opening c) = slot_hinge s | _ \<Rightarrow> False)) \<and>
     visualOpening (Node (patch_fields d (choicePatch c)) None) = coalesce (opening_type d) O_FIXED"

definition sourced_bay :: "OpeningChoice list \<Rightarrow> NodeData \<Rightarrow> NodeData" where
  "sourced_bay choices d =
     (case node_opening d of Val _ \<Rightarrow> d
      | _ \<Rightarrow> (case filter (fits d) choices of
            [c] \<Rightarrow> (patch_fields d (choicePatch c))\<lparr>panel_article_sku := panel_article_sku d\<rparr>
          | _ \<Rightarrow> d))"

definition sourcedStarter :: "ProductJson \<Rightarrow> DesignOptions option \<Rightarrow> ProductJson" where
  "sourcedStarter p options =
     (if options = None \<or> length (modules p) < 2 then p
      else p\<lparr>modules := map (\<lambda>m. m\<lparr>tree := map_bays (sourced_bay (openingChoices options)) (tree m)\<rparr>) (modules p)\<rparr>)"

section \<open>Moving a division\<close>

text \<open>\<open>/^(\d+)(?:\.(\d+))?$/\<close>: the digits before the point and those after it.\<close>

definition plain_decimal :: "string \<Rightarrow> (string \<times> string) option" where
  "plain_decimal s =
     (let w = takeWhile is_digit s; rest = dropWhile is_digit s
      in if w = [] then None
         else case rest of [] \<Rightarrow> Some (w, [])
           | c # f \<Rightarrow> if c = CHR ''.'' \<and> f \<noteq> [] \<and> list_all is_digit f then Some (w, f) else None)"

definition dividerNudge :: "string \<Rightarrow> jsnum \<Rightarrow> string option" where
  "dividerNudge offset step =
     (case (plain_decimal offset, step) of
        (Some (w, fraction), Fin x) \<Rightarrow>
          if x \<notin> \<int> then None
          else let digits = max 2 (length fraction);
                   factor = (10 :: int) ^ digits;
                   v = digits_val w * factor + digits_val (padEnd digits CHR ''0'' fraction) + \<lfloor>x\<rfloor> * factor
               in if v \<le> 0 then None
                  else let s = padStart (digits + 1) CHR ''0'' (dec_str v)
                       in Some (take (length s - digits) s @ ''.'' @ drop (length s - digits) s)
      | _ \<Rightarrow> None)"

section \<open>Where an issue leads\<close>

record LocatedIssue =
  is_code :: string
  is_target :: string
  is_params :: "(string \<times> string) list"

record Destination =
  ds_target :: string
  ds_field :: "string option"
  ds_label :: "string option"
  ds_catalog :: bool

text \<open>A member of an absent object in a template: the text \<open>undefined\<close>.\<close>

definition or_undefined :: "string option \<Rightarrow> string" where
  "or_undefined x = (case x of None \<Rightarrow> ''undefined'' | Some s \<Rightarrow> s)"

definition issue_labels :: "(string \<times> string) list" where
  "issue_labels = [(''height_mm'', ''Alto''), (''width_mm'', ''Ancho''), (''coupler_profile_sku'', ''Acoplador''),
     (''angle_deg'', ac_A @ ''ngulo''), (''glass'', ''Vidrio'')]"

definition issue_joint :: "ProductJson \<Rightarrow> LocatedIssue \<Rightarrow> nat option" where
  "issue_joint p issue = findIndex (\<lambda>c. ''coupling:'' @ c_id c = is_target issue) (couplings p)"

definition assemblyIssueDestination :: "LocatedIssue \<Rightarrow> ProductJson \<Rightarrow> Destination" where
  "assemblyIssueDestination issue p =
     (let jointIndex = issue_joint p issue;
          coupling = Option.bind jointIndex (nth_opt (couplings p));
          declared = map_of (is_params issue) ''field'';
          reason = map lower_char (case map_of (is_params issue) ''reason'' of None \<Rightarrow> [] | Some r \<Rightarrow> r);
          (target, field) =
            (if is_code issue = ''coupler_height_mismatch'' \<or> is_code issue = ''coupler_width_mismatch''
             then (''module:'' @ or_undefined (case Option.bind coupling c_modules of Some pr \<Rightarrow> Some (fst pr)
                     | None \<Rightarrow> map_option m_id (nth_opt (modules p) (case jointIndex of None \<Rightarrow> 0 | Some i \<Rightarrow> i))),
                   Some (if is_code issue = ''coupler_height_mismatch'' then ''height_mm'' else ''width_mm''))
             else if is_code issue \<in> {''coupler_angle_incompatible'', ''coupler_profile_missing'', ''coupler_profile_unknown''}
             then (is_target issue, Some ''coupler_profile_sku'')
             else if is_code issue \<in> {''assembly_folds_back'', ''plan_self_intersection'', ''plan_depth_collision''}
             then (if coupling \<noteq> None then is_target issue else ''coupling:'' @ or_undefined (map_option c_id (last_opt (couplings p))),
                   Some ''angle_deg'')
             else if is_code issue = ''module_geometry_failed'' \<and> (contains ''glass_thickness_mm'' reason \<or> contains ''glass_spec'' reason)
             then (is_target issue, Some ''glass'')
             else if is_code issue = ''coupler_reinforcement_nonpositive'' \<or> (is_code issue = ''module_geometry_failed'' \<and> coupling \<noteq> None)
             then (is_target issue, Some ''catalog'')
             else (is_target issue, declared))
      in \<lparr>ds_target = target, ds_field = field, ds_label = map_of issue_labels (case field of None \<Rightarrow> [] | Some f \<Rightarrow> f),
          ds_catalog = (field = Some ''catalog'')\<rparr>)"

section \<open>A sourced design\<close>

lemma map_bays_dat: "dat (map_bays f t) = (if ntype t = BAY then f (dat t) else dat t)"
  by (cases t) simp

text \<open>Trees in which a bay has no parts, as every edit leaves them.\<close>

definition bays_are_leaves :: "IntentNode \<Rightarrow> bool" where
  "bays_are_leaves t \<longleftrightarrow> (\<forall>n \<in> set (preorder t). ntype n = BAY \<longrightarrow> kids n = [])"

lemma bays_are_leaves_Node: "bays_are_leaves t \<longleftrightarrow> (ntype t = BAY \<longrightarrow> kids t = []) \<and> (\<forall>c \<in> set (kids t). bays_are_leaves c)"
  unfolding bays_are_leaves_def by (subst preorder.simps) auto

lemma datas_map_bays:
  assumes "\<And>d. node_type (f d) = node_type d"
  shows "list_all2 (\<lambda>d d'. d' = d \<or> d' = f d) (datas t) (datas (map_bays f t))"
    and "bays_are_leaves t \<Longrightarrow> list_all2 (\<lambda>d d'. d' = (if node_type d = BAY then f d else d)) (datas t) (datas (map_bays f t))"
proof -
  have both: "list_all2 (\<lambda>d d'. d' = d \<or> d' = f d) (datas t) (datas (map_bays f t)) \<and> (bays_are_leaves t \<longrightarrow>
     list_all2 (\<lambda>d d'. d' = (if node_type d = BAY then f d else d)) (datas t) (datas (map_bays f t)))"
  proof (induction f t rule: map_bays.induct)
    case (1 f d cs)
    have refl: "list_all2 (\<lambda>d d'. d' = d \<or> d' = f d) xs xs" for xs by (simp add: list_all2_refl)
    show ?case
    proof (cases "node_type d = BAY \<or> cs = None")
      case True
      then show ?thesis using refl bays_are_leaves_Node [of "Node d cs"] by (auto simp: datas_unfold)
    next
      case False
      then obtain xs where xs: "cs = Some xs" "node_type d \<noteq> BAY" by blast
      have m: "list_all2 R (concat (map datas ys)) (concat (map datas (map (map_bays f) ys)))"
        if "\<forall>y \<in> set ys. list_all2 R (datas y) (datas (map_bays f y))" for R ys
        using that by (induction ys) (auto intro!: list_all2_appendI)
      show ?thesis
        using xs 1 m [of xs "\<lambda>d d'. d' = d \<or> d' = f d"] m [of xs "\<lambda>d d'. d' = (if node_type d = BAY then f d else d)"]
          bays_are_leaves_Node [of "Node d (Some xs)"] datas_unfold [of "Node d (Some xs)"] datas_unfold [of "Node d (Some (map (map_bays f) xs))"]
        by (simp add: comp_def)
    qed
  qed
  from both show "list_all2 (\<lambda>d d'. d' = d \<or> d' = f d) (datas t) (datas (map_bays f t))" by blast
  from both show "bays_are_leaves t \<Longrightarrow> list_all2 (\<lambda>d d'. d' = (if node_type d = BAY then f d else d)) (datas t) (datas (map_bays f t))" by blast
qed

lemma sourced_bay_keeps [simp]: "node_id (sourced_bay choices d) = node_id d" "node_type (sourced_bay choices d) = node_type d"
  by (auto simp: sourced_bay_def patch_fields_def split: field.split list.split)

lemma tree_ids_sourced [simp]: "tree_ids (map_bays (sourced_bay choices) t) = tree_ids t"
proof -
  have "list_all2 (\<lambda>d d'. node_id d' = node_id d) (datas t) (datas (map_bays (sourced_bay choices) t))"
    by (rule list_all2_mono [OF datas_map_bays(1)]) auto
  then show ?thesis unfolding tree_ids_def by (simp add: list_all2_conv_all_nth list_eq_iff_nth_eq)
qed

lemma sourced_bay_again: "sourced_bay choices (sourced_bay choices d) = sourced_bay choices d"
proof (cases "sourced_bay choices d = d")
  case False
  then have "\<exists>o'. node_opening (sourced_bay choices d) = Val o'"
    by (auto simp: sourced_bay_def choicePatch_def patch_fields_def no_fields_def split: field.splits list.splits)
  then show ?thesis by (auto simp: sourced_bay_def [of choices "sourced_bay choices d"])
qed simp

lemma map_bays_again:
  assumes "\<And>d. g (g d) = g d" "\<And>d. node_type (g d) = node_type d"
  shows "map_bays g (map_bays g t) = map_bays g t"
  using assms
proof (induction g t rule: map_bays.induct)
  case (1 f d cs)
  then show ?case by (cases cs) simp_all
qed

interpretation sourced: module_edit "\<lambda>options p. Inr (Some (sourcedStarter p options))"
  by unfold_locales (auto simp: sourcedStarter_def comp_def split: if_splits)

text \<open>What a node of a sourced design has become.\<close>

definition sourced_from :: "OpeningChoice list \<Rightarrow> NodeData \<Rightarrow> NodeData \<Rightarrow> bool" where
  "sourced_from choices d d' \<longleftrightarrow>
     (case (if node_type d = BAY \<and> nullish (node_opening d) then filter (fits d) choices else []) of
        [c] \<Rightarrow> choiceMatches (Node d' None) c \<and> visualOpening (Node d' None) = visualOpening (Node d None) \<and>
          d' = d\<lparr>opening_type := Null, node_opening := Val (ch_opening c), opening_use := Val (ch_use c),
            opening_recipe_code := opening_recipe_code d', hinged_layout := hinged_layout d', sliding_layout := sliding_layout d',
            hardware_set_sku := Null, hardware_selection := Null, handle_height_mm := Null, door_handedness := Null\<rparr>
      | _ \<Rightarrow> d' = d)"

lemma visualOpening_panel [simp]: "visualOpening (Node (d\<lparr>panel_article_sku := x\<rparr>) cs) = visualOpening (Node d cs)"
  by (simp add: visualOpening_def split: field.split)

lemma choiceMatches_panel [simp]: "choiceMatches (Node (d\<lparr>panel_article_sku := x\<rparr>) cs) c = choiceMatches (Node d cs) c"
  by (simp add: choiceMatches_def split: field.split)

lemma sourced_bay_from: "node_type d = BAY \<Longrightarrow> sourced_from choices d (sourced_bay choices d)"
proof (cases "nullish (node_opening d)")
  case n: True
  assume b: "node_type d = BAY"
  then have v: "visualOpening (Node d None) = coalesce (opening_type d) O_FIXED" using n by (auto simp: visualOpening_def split: field.splits)
  show ?thesis
  proof (cases "\<exists>c. filter (fits d) choices = [c]")
    case True
    then obtain c where c: "filter (fits d) choices = [c]" by blast
    then have "c \<in> set (filter (fits d) choices)" by simp
    then have "fits d c" by simp
    then have w: "visualOpening (Node (patch_fields d (choicePatch c)) None) = visualOpening (Node d None)" using v by (simp add: fits_def)
    have s: "sourced_bay choices d = (patch_fields d (choicePatch c))\<lparr>panel_article_sku := panel_article_sku d\<rparr>"
      using n c by (auto simp: sourced_bay_def split: field.splits)
    show ?thesis using b n c w unfolding sourced_from_def s
      by (simp add: choiceMatches_patch) (simp add: patch_fields_def choicePatch_def no_fields_def)
  next
    case False
    then show ?thesis using n b by (auto simp: sourced_from_def sourced_bay_def split: field.splits list.splits)
  qed
next
  case False
  then show ?thesis by (auto simp: sourced_from_def sourced_bay_def split: field.splits)
qed

text \<open>
  C39. A design that takes its openings from the catalog stays the design it was. Its modules, joints and trees are
  the same objects; a bay that has no opening and is suited by exactly one inward, in-frame, single-leaf
  choice is given that choice, is drawn as before and keeps its glass, its sizes and its panel; every other node is
  untouched. What was well formed or editable stays so, and taking the openings again changes nothing.
\<close>
theorem sourcedStarter_spec:
  "module_ids (sourcedStarter p options) = module_ids p \<and> couplings (sourcedStarter p options) = couplings p \<and>
    joints (sourcedStarter p options) = joints p \<and>
    (well_built p \<longrightarrow> well_built (sourcedStarter p options)) \<and> (editable p \<longrightarrow> editable (sourcedStarter p options)) \<and>
    sourcedStarter (sourcedStarter p options) options = sourcedStarter p options \<and>
    list_all2 (\<lambda>m m'. m' = m\<lparr>tree := tree m'\<rparr> \<and> tree_ids (tree m') = tree_ids (tree m) \<and>
        (bays_are_leaves (tree m) \<longrightarrow>
          list_all2 (sourced_from (if length (modules p) < 2 then [] else openingChoices options)) (datas (tree m)) (datas (tree m'))))
      (modules p) (modules (sourcedStarter p options))"
proof -
  let ?q = "sourcedStarter p options"
  have k: "module_ids ?q = module_ids p" "couplings ?q = couplings p" "joints ?q = joints p" "wf_product p \<Longrightarrow> wf_product ?q"
    using sourced.keeps [of p options ?q] sourced.same_joints [of p options ?q] sourced.edit_wf [of p options ?q] by simp_all
  have w: "well_built p \<longrightarrow> well_built ?q" using k(4) by (auto simp: well_built_def sourcedStarter_def wf_ids_def)
  have e: "editable p \<longrightarrow> editable ?q" using k(2,4) by (simp add: editable_def)
  have i: "sourcedStarter ?q options = ?q"
    by (simp add: sourcedStarter_def comp_def map_bays_again [OF sourced_bay_again])
  have f: "list_all2 (sourced_from choices) (datas t) (datas (map_bays (sourced_bay choices) t))" if "bays_are_leaves t" for choices t
    by (rule list_all2_mono [OF datas_map_bays(2)]) (auto simp: that sourced_bay_from, simp add: sourced_from_def)
  have r: "sourced_from [] d d" for d by (simp add: sourced_from_def)
  have n: "openingChoices None = []" by (simp add: openingChoices_def)
  have "list_all2 (\<lambda>m m'. m' = m\<lparr>tree := tree m'\<rparr> \<and> tree_ids (tree m') = tree_ids (tree m) \<and>
        (bays_are_leaves (tree m) \<longrightarrow>
          list_all2 (sourced_from (if length (modules p) < 2 then [] else openingChoices options)) (datas (tree m)) (datas (tree m'))))
      (modules p) (modules ?q)"
    using f n by (auto simp: sourcedStarter_def list.rel_map r intro!: list.rel_refl_strong)
  then show ?thesis using k w e i by simp
qed

text \<open>A fixed window beside another, in a catalog with one fixed window.\<close>

definition fixed_options :: DesignOptions where
  "fixed_options = \<lparr>opening_capabilities = Some [\<lparr>advanced_recipes = None, cap_use = U_WINDOW, cap_movement = M_FIXED, cap_direction = INWARD,
     cap_leaf_role = SINGLE, cap_fixed_in_sash = False, hinge_sides = [H_NONE], hardware_kit_skus = [], cap_source = ''F'', handle_rule = None\<rparr>],
     paired_leaf_rule = False\<rparr>"

definition fixed_pair :: ProductJson where
  "fixed_pair = \<lparr>modules = map (\<lambda>i. \<lparr>m_id = i, m_width_mm = ''600'', m_height_mm = ''900'', tree = makeBayTree i O_FIXED ''4.00'' ''4'' None,
     contour = None, frameless = None\<rparr>) [''a'', ''b''], couplings = [\<lparr>c_id = ''c'', angle_deg = ''0'', coupler_profile_sku = None, kind = None,
     c_modules = None, c_edges = None\<rparr>]\<rparr>"

theorem sourced_witness:
  "well_built fixed_pair \<and> well_built (sourcedStarter fixed_pair (Some fixed_options)) \<and>
    map (\<lambda>d'. (visualOpening (Node d' None), opening_use d')) (datas (tree (hd (modules (sourcedStarter fixed_pair (Some fixed_options)))))) =
      [(O_FIXED, Val U_WINDOW)]"
proof -
  have c: "openingChoices (Some fixed_options) = [base_choice (hd (the (opening_capabilities fixed_options))) H_NONE]"
    by (simp add: openingChoices_def fixed_options_def needs_recipe_def recipes_of_def side_choices_def)
  let ?d = "dat (makeBayTree ''a'' O_FIXED ''4.00'' ''4'' None)"
  have b: "node_type ?d = BAY" "nullish (node_opening ?d)" "visualOpening (Node ?d None) = O_FIXED"
    by (simp_all add: makeBayTree_def new_node_def no_fields_def NodeFields.defs NodeData.defs visualOpening_def)
  have t: "bays_are_leaves (tree (hd (modules fixed_pair)))" "datas (tree (hd (modules fixed_pair))) = [?d]"
    by (simp_all add: fixed_pair_def bays_are_leaves_def preorder.simps datas_def makeBayTree_def)
  have "fits ?d (base_choice (hd (the (opening_capabilities fixed_options))) H_NONE)"
    by (simp add: fits_def base_choice_def cap_opening_def fixed_options_def visualOpening_def choicePatch_def patch_fields_def no_fields_def
      makeBayTree_def new_node_def NodeFields.defs NodeData.defs)
  then have f: "filter (fits ?d) (openingChoices (Some fixed_options)) = [base_choice (hd (the (opening_capabilities fixed_options))) H_NONE]"
    by (simp add: c)
  have w: "well_built fixed_pair"
    unfolding well_built_def fixed_pair_def using coupled_wf [of "hd (modules fixed_pair)" "modules fixed_pair ! 1" "hd (couplings fixed_pair)"]
    by (simp add: fixed_pair_def wf_ids_leaf makeBayTree_def new_node_def NodeFields.defs NodeData.defs)
  obtain m ms where m: "modules (sourcedStarter fixed_pair (Some fixed_options)) = m # ms"
      "list_all2 (sourced_from (openingChoices (Some fixed_options))) [?d] (datas (tree m))"
    using sourcedStarter_spec [of fixed_pair "Some fixed_options"] t
    by (cases "modules (sourcedStarter fixed_pair (Some fixed_options))") (auto simp: fixed_pair_def)
  then obtain d' where d: "datas (tree m) = [d']" "sourced_from (openingChoices (Some fixed_options)) ?d d'" by (auto simp: list_all2_Cons1)
  then have "visualOpening (Node d' None) = O_FIXED \<and> opening_use d' = Val (ch_use (base_choice (hd (the (opening_capabilities fixed_options))) H_NONE))"
    unfolding sourced_from_def using b f by (auto dest: arg_cong [of _ _ opening_use])
  then show ?thesis using w m(1) d(1) sourcedStarter_spec [of fixed_pair "Some fixed_options"]
    by (simp add: base_choice_def fixed_options_def)
qed

section \<open>A division moves by what was asked\<close>

lemma plain_decimal_Some:
  assumes "plain_decimal s = Some (w, f)"
  shows "w \<noteq> []" "list_all is_digit w" "list_all is_digit f" "s = dec_text w (if f = [] then None else Some f)"
proof -
  obtain u r where u: "u = takeWhile is_digit s" "r = dropWhile is_digit s" by blast
  have s: "s = u @ r" unfolding u by simp
  have d: "list_all is_digit u" by (auto simp: u list_all_iff dest: set_takeWhileD)
  have "w = u \<and> u \<noteq> [] \<and> (r = [] \<and> f = [] \<or> r = CHR ''.'' # f \<and> f \<noteq> [] \<and> list_all is_digit f)"
    using assms unfolding plain_decimal_def Let_def u [symmetric] by (auto split: if_splits list.splits)
  then show "w \<noteq> []" "list_all is_digit w" "list_all is_digit f" "s = dec_text w (if f = [] then None else Some f)"
    using s d by (auto simp: dec_text_def)
qed

lemma plain_decimal_text:
  assumes "w \<noteq> []" "list_all is_digit w" "f \<noteq> []" "list_all is_digit f"
  shows "plain_decimal (w @ ''.'' @ f) = Some (w, f)"
  using assms by (simp add: plain_decimal_def takeWhile_digits dropWhile_digits list_all_iff)

text \<open>The text of \<open>v / 10 ^ d\<close> that a move writes.\<close>

definition nudge_text :: "nat \<Rightarrow> int \<Rightarrow> string option" where
  "nudge_text d v = (if v \<le> 0 then None
     else let s = padStart (d + 1) CHR ''0'' (dec_str v) in Some (take (length s - d) s @ ''.'' @ drop (length s - d) s))"

definition nudge_units :: "string \<Rightarrow> string \<Rightarrow> int \<Rightarrow> int" where
  "nudge_units w f n = (let d = max 2 (length f) in digits_val w * 10 ^ d + digits_val f * 10 ^ (d - length f) + n * 10 ^ d)"

lemma dividerNudge_text:
  "plain_decimal offset = Some (w, f) \<Longrightarrow> dividerNudge offset (Fin (of_int n)) = nudge_text (max 2 (length f)) (nudge_units w f n)"
  by (simp add: dividerNudge_def nudge_text_def nudge_units_def Let_def padEnd_def digits_val_append)

lemma nudge_text_parts:
  assumes "nudge_text d v = Some t" "0 < d"
  obtains w f where "t = w @ ''.'' @ f" "w \<noteq> []" "list_all is_digit w" "list_all is_digit f" "length f = d" "digits_val w * 10 ^ d + digits_val f = v"
proof -
  define s where "s = padStart (d + 1) CHR ''0'' (dec_str v)"
  have v: "0 < v" and t: "t = take (length s - d) s @ ''.'' @ drop (length s - d) s"
    using assms(1) by (auto simp: nudge_text_def s_def Let_def split: if_splits)
  have l: "d < length s" by (simp add: s_def)
  have g: "\<forall>c \<in> set s. is_digit c" using dec_str_digits [of v] by (auto simp: s_def padStart_def)
  have "digits_val s = v" using v by (simp add: s_def)
  then have "digits_val (take (length s - d) s) * 10 ^ d + digits_val (drop (length s - d) s) = v"
    using digits_val_append [of "take (length s - d) s" "drop (length s - d) s"] l by simp
  moreover have "take (length s - d) s \<noteq> []" using l by auto
  ultimately show thesis using that [OF t] l g by (auto simp: list_all_iff dest: in_set_takeD in_set_dropD)
qed

lemma nudge_value:
  assumes "plain_decimal offset = Some (w, f)"
  shows "\<exists>a. denotes offset = Some a \<and> of_int (nudge_units w f n) = (a + of_int n) * 10 ^ max 2 (length f)"
proof -
  define e where "e = max 2 (length f) - length f"
  have m: "max 2 (length f) = length f + e" by (simp add: e_def)
  have o: "denotes offset = Some (of_int (digits_val (w @ f)) / 10 ^ length f)"
    using denotes_signed [of w "if f = [] then None else Some f" False] plain_decimal_Some [OF assms]
    by (cases "f = []") (simp_all add: signed_text_def digits_ok_def text_value_def)
  show ?thesis unfolding o nudge_units_def Let_def m
    by (intro exI [of _ "of_int (digits_val (w @ f)) / 10 ^ length f"]) (simp add: digits_val_append power_add field_simps)
qed

text \<open>
  Moving a division by whole millimetres is exact: the new offset is the old one plus the millimetres, it is positive, and
  moving it back gives the old offset with at least two decimals, however long its fraction is.
\<close>
lemma dividerNudge_exact:
  assumes "dividerNudge offset (Fin (of_int n)) = Some t"
  shows "\<exists>a. denotes offset = Some a \<and> denotes t = Some (a + of_int n) \<and> 0 < a + of_int n \<and>
    dividerNudge t (Fin (of_int (- n))) = dividerNudge offset (Fin 0)"
proof -
  obtain w f where o: "plain_decimal offset = Some (w, f)"
    using assms by (auto simp: dividerNudge_def split: option.splits prod.splits)
  define d where "d = max 2 (length f)"
  have d: "0 < d" "max 2 d = d" by (simp_all add: d_def)
  have t: "nudge_text d (nudge_units w f n) = Some t" using assms dividerNudge_text [OF o, of n] by (simp add: d_def)
  then have v: "0 < nudge_units w f n" by (simp add: nudge_text_def split: if_splits)
  obtain w' f' where p: "t = w' @ ''.'' @ f'" "w' \<noteq> []" "list_all is_digit w'" "list_all is_digit f'" "length f' = d"
      "digits_val w' * 10 ^ d + digits_val f' = nudge_units w f n"
    by (rule nudge_text_parts [OF t d(1)])
  obtain a where a: "denotes offset = Some a" "of_int (nudge_units w f n) = (a + of_int n) * 10 ^ d"
    using nudge_value [OF o, of n] by (auto simp: d_def)
  have "denotes t = Some (of_int (nudge_units w f n) / 10 ^ d)"
    using denotes_signed [of w' "Some f'" False] p by (simp add: signed_text_def dec_text_def digits_ok_def text_value_def digits_val_append)
  then have "denotes t = Some (a + of_int n)" using a(2) by simp
  moreover have "0 < (a + of_int n) * 10 ^ d" using v a(2) by (metis of_int_0_less_iff)
  then have "0 < a + of_int n" by (simp add: zero_less_mult_iff)
  moreover have ne: "f' \<noteq> []" using p(5) d(1) by auto
  have "nudge_units w' f' (- n) = nudge_units w f 0"
    using p(5,6) d(2) by (simp add: nudge_units_def Let_def d_def [symmetric])
  then have "dividerNudge t (Fin (of_int (- n))) = dividerNudge offset (Fin (of_int 0))"
    using dividerNudge_text [OF plain_decimal_text [OF p(2,3) ne p(4)], of "- n"] dividerNudge_text [OF o, of 0] p(1,5) d by (auto simp: d_def)
  ultimately show ?thesis using a(1) by auto
qed

section \<open>An issue leads to a control that is there\<close>

lemma issue_of_size_names_a_module:
  assumes "is_code issue \<in> {''coupler_height_mismatch'', ''coupler_width_mismatch''}" "editable p"
  shows "\<exists>i \<in> set (module_ids p). ds_target (assemblyIssueDestination issue p) = ''module:'' @ i"
proof -
  let ?j = "issue_joint p issue"
  let ?m = "case Option.bind (Option.bind ?j (nth_opt (couplings p))) c_modules of Some pr \<Rightarrow> Some (fst pr)
     | None \<Rightarrow> map_option m_id (nth_opt (modules p) (case ?j of None \<Rightarrow> 0 | Some i \<Rightarrow> i))"
  have t: "ds_target (assemblyIssueDestination issue p) = ''module:'' @ or_undefined ?m"
    using assms(1) by (auto simp: assemblyIssueDestination_def Let_def)
  have w: "wf_graph (module_ids p) (map explicit_joint (couplings p))" "modules p \<noteq> []"
    using editable_parts(1,3) [OF assms(2)] by (auto simp: wf_product_def)
  have "\<exists>i \<in> set (module_ids p). ?m = Some i"
  proof (cases ?j)
    case None
    then show ?thesis using w(2) by (cases "modules p") (auto simp: nth_opt_def)
  next
    case (Some k)
    then obtain c where c: "nth_opt (couplings p) k = Some c" "c \<in> set (couplings p)"
      using findIndex_Some [OF Some [unfolded issue_joint_def]] by (auto simp: nth_opt_def)
    then have "explicit c" using assms(2) by (auto simp: editable_def sound_def)
    then obtain pr where pr: "c_modules c = Some pr" "j_pair (explicit_joint c) = pr" by (auto simp: explicit_def explicit_joint_def resolve_one_def joint_def)
    then have "fst pr \<in> set (module_ids p)" using w(1) c(2) by (auto simp: wf_graph_def)
    then show ?thesis using Some c pr by simp
  qed
  then show ?thesis using t by (auto simp: or_undefined_def)
qed

end
