(* ===== verification/Preferences.thy ===== *)
theory Preferences
  imports Drafts
begin

text \<open>
  \<open>features/assistant/copilotPrefs.ts\<close> and \<open>app/workPreferences.ts\<close>: what the interface remembers of a person in an
  organisation, in the browser's two storages and, when they are blocked, in the memory of the tab. Each module has a
  memory of its own. A storage may be denied, and then every access throws, or refuse a value for lack of space.
\<close>

section \<open>The assistant's preferences\<close>

datatype InteractionMode = Chat | Work

datatype AutonomyPolicy = Propose | Approve | DraftAll

record CopilotSession =
  cs_open :: bool
  cs_minimized :: bool
  cs_threadId :: "string option"

record Tab =
  tb_local :: Storage
  tb_session :: Storage
  tb_memory :: "(string \<times> string) list"

datatype StorageArea = Local | Session

primrec area_name :: "StorageArea \<Rightarrow> string" where
  "area_name Local = ''local''"
| "area_name Session = ''session''"

primrec area :: "StorageArea \<Rightarrow> Tab \<Rightarrow> Storage" where
  "area Local w = tb_local w"
| "area Session w = tb_session w"

primrec set_area :: "StorageArea \<Rightarrow> Storage \<Rightarrow> Tab \<Rightarrow> Tab" where
  "set_area Local st w = w\<lparr>tb_local := st\<rparr>"
| "set_area Session st w = w\<lparr>tb_session := st\<rparr>"

definition filled :: "string option \<Rightarrow> string option" where
  "filled x = (case x of Some (c # cs) \<Rightarrow> Some (c # cs) | _ \<Rightarrow> None)"

definition COPILOT :: string where
  "COPILOT = ''dekopen.copilot.v1.''"

definition scoped :: "string \<Rightarrow> string option \<Rightarrow> string option \<Rightarrow> string option" where
  "scoped name user org =
     (case (filled user, filled org) of (Some u, Some g) \<Rightarrow> Some (COPILOT @ name @ ''.'' @ u @ ''.'' @ g) | _ \<Rightarrow> None)"

definition memory_key :: "StorageArea \<Rightarrow> string \<Rightarrow> string" where
  "memory_key a k = area_name a @ '':'' @ k"

definition read_pref :: "StorageArea \<Rightarrow> string \<Rightarrow> Tab \<Rightarrow> string option" where
  "read_pref a k w = (case getItem (area a w) k of Inr v \<Rightarrow> v | Inl _ \<Rightarrow> map_of (tb_memory w) (memory_key a k))"

definition write_pref :: "(string \<Rightarrow> bool) \<Rightarrow> StorageArea \<Rightarrow> string \<Rightarrow> string option \<Rightarrow> Tab \<Rightarrow> Tab" where
  "write_pref full a k v w =
     (let w' = w\<lparr>tb_memory := (case v of None \<Rightarrow> AList.delete (memory_key a k) (tb_memory w)
                 | Some x \<Rightarrow> AList.update (memory_key a k) x (tb_memory w))\<rparr>
      in case (case v of None \<Rightarrow> removeItem k (area a w) | Some x \<Rightarrow> setItem full k x (area a w)) of
           Inl _ \<Rightarrow> w'
         | Inr st \<Rightarrow> set_area a st w')"

primrec mode_text :: "InteractionMode \<Rightarrow> string" where
  "mode_text Chat = ''chat''"
| "mode_text Work = ''work''"

primrec autonomy_text :: "AutonomyPolicy \<Rightarrow> string" where
  "autonomy_text Propose = ''propose''"
| "autonomy_text Approve = ''approve''"
| "autonomy_text DraftAll = ''draft''"

definition AUTONOMY_OPTIONS :: "(AutonomyPolicy \<times> string \<times> string) list" where
  "AUTONOMY_OPTIONS = [
     (Propose, ''Solo proponer'', ''Prepara la propuesta; nada se aplica.''),
     (Approve, ''Con aprobaci'' @ [CHR 0xC3, CHR 0xB3] @ ''n'', ''Prepara el conjunto completo y lo aplicas con una aprobaci'' @ [CHR 0xC3, CHR 0xB3] @ ''n.''),
     (DraftAll, ''Omitir todo'', ''Aplica lo reversible de la tarea, verifica y muestra el resumen.'')]"

definition DEFAULT_MODE :: InteractionMode where "DEFAULT_MODE = Chat"

definition DEFAULT_AUTONOMY :: AutonomyPolicy where "DEFAULT_AUTONOMY = Approve"

definition readMode :: "string option \<Rightarrow> string option \<Rightarrow> Tab \<Rightarrow> InteractionMode" where
  "readMode user org w =
     (case Option.bind (scoped ''mode'' user org) (\<lambda>k. read_pref Local k w) of
        Some v \<Rightarrow> if v = ''work'' then Work else if v = ''chat'' then Chat else DEFAULT_MODE
      | None \<Rightarrow> DEFAULT_MODE)"

definition saveMode :: "(string \<Rightarrow> bool) \<Rightarrow> string option \<Rightarrow> string option \<Rightarrow> InteractionMode \<Rightarrow> Tab \<Rightarrow> Tab" where
  "saveMode full user org md w =
     (case scoped ''mode'' user org of None \<Rightarrow> w | Some k \<Rightarrow> write_pref full Local k (Some (mode_text md)) w)"

definition readAutonomy :: "string option \<Rightarrow> string option \<Rightarrow> Tab \<Rightarrow> AutonomyPolicy" where
  "readAutonomy user org w =
     (case Option.bind (scoped ''autonomy'' user org) (\<lambda>k. read_pref Local k w) of
        Some v \<Rightarrow> if v = ''propose'' then Propose else if v = ''approve'' then Approve else if v = ''draft'' then DraftAll else DEFAULT_AUTONOMY
      | None \<Rightarrow> DEFAULT_AUTONOMY)"

definition saveAutonomy :: "(string \<Rightarrow> bool) \<Rightarrow> string option \<Rightarrow> string option \<Rightarrow> AutonomyPolicy \<Rightarrow> Tab \<Rightarrow> Tab" where
  "saveAutonomy full user org autonomy w =
     (case scoped ''autonomy'' user org of None \<Rightarrow> w | Some k \<Rightarrow> write_pref full Local k (Some (autonomy_text autonomy)) w)"

definition closed_session :: CopilotSession where
  "closed_session = \<lparr>cs_open = False, cs_minimized = False, cs_threadId = None\<rparr>"

definition session_of :: "json \<Rightarrow> CopilotSession" where
  "session_of parsed =
     (case parsed of
        JObj _ \<Rightarrow> \<lparr>cs_open = (json_member ''open'' parsed = Some (JBool True)), cs_minimized = (json_member ''minimized'' parsed = Some (JBool True)),
          cs_threadId = (case json_member ''threadId'' parsed of Some (JStr s) \<Rightarrow> Some s | _ \<Rightarrow> None)\<rparr>
      | _ \<Rightarrow> closed_session)"

definition readSession :: "string option \<Rightarrow> string option \<Rightarrow> Tab \<Rightarrow> CopilotSession" where
  "readSession user org w =
     (case filled (Option.bind (scoped ''session'' user org) (\<lambda>k. read_pref Session k w)) of
        None \<Rightarrow> closed_session
      | Some text' \<Rightarrow> (case json_parse text' of Inl _ \<Rightarrow> closed_session | Inr j \<Rightarrow> session_of j))"

text \<open>\<open>JSON.stringify(session)\<close>.\<close>

definition session_json :: "CopilotSession \<Rightarrow> json" where
  "session_json s = JObj [(''open'', JBool (cs_open s)), (''minimized'', JBool (cs_minimized s)),
     (''threadId'', case cs_threadId s of None \<Rightarrow> JNull | Some i \<Rightarrow> JStr i)]"

definition saveSession :: "(string \<Rightarrow> bool) \<Rightarrow> string option \<Rightarrow> string option \<Rightarrow> CopilotSession \<Rightarrow> Tab \<Rightarrow> Tab" where
  "saveSession full user org s w =
     (case scoped ''session'' user org of None \<Rightarrow> w | Some k \<Rightarrow> write_pref full Session k (Some (stringify (session_json s))) w)"

definition stale_session :: "string option \<Rightarrow> string \<Rightarrow> bool" where
  "stale_session keep k \<longleftrightarrow> startsWith k (COPILOT @ ''session.'') \<and> Some k \<noteq> keep"

definition stale_memory :: "string option \<Rightarrow> string \<Rightarrow> bool" where
  "stale_memory keep k \<longleftrightarrow> startsWith k (''session:'' @ COPILOT @ ''session.'') \<and>
     k \<noteq> ''session:'' @ (case keep of None \<Rightarrow> ''null'' | Some k' \<Rightarrow> k')"

text \<open>The keys by index, from the last to the first; the keys before the one removed keep their index.\<close>

fun clear_keys :: "(string \<Rightarrow> bool) \<Rightarrow> nat \<Rightarrow> (string \<times> string) list \<Rightarrow> (string \<times> string) list" where
  "clear_keys stale 0 xs = xs"
| "clear_keys stale (Suc index) xs =
     clear_keys stale index (case nth_opt xs index of
        Some (k, _) \<Rightarrow> if stale k then AList.delete k xs else xs
      | None \<Rightarrow> xs)"

definition clearOtherSessions :: "string option \<Rightarrow> string option \<Rightarrow> Tab \<Rightarrow> Tab" where
  "clearOtherSessions user org w =
     (let keep = scoped ''session'' user org;
          st = tb_session w;
          st' = (if st_denied st then st else st\<lparr>st_items := clear_keys (stale_session keep) (length (st_items st)) (st_items st)\<rparr>)
      in w\<lparr>tb_session := st',
           tb_memory := filter (\<lambda>(k, _). \<not> stale_memory keep k) (tb_memory w)\<rparr>)"

section \<open>The work's preferences\<close>

datatype WorkView = Mesa | Estudio

definition DEFAULT_WORK_VIEW :: WorkView where "DEFAULT_WORK_VIEW = Mesa"

definition WORK_VIEWS :: "WorkView list" where "WORK_VIEWS = [Mesa, Estudio]"

record PopupGeometry =
  pg_x :: jsnum
  pg_y :: jsnum
  pg_width :: jsnum
  pg_height :: jsnum

record Device =
  dv_local :: Storage
  dv_memory :: "(string \<times> string) list"

definition pref_key :: "string \<Rightarrow> string option \<Rightarrow> string option \<Rightarrow> string option" where
  "pref_key name user org =
     (case (filled user, filled org) of (Some u, Some g) \<Rightarrow> Some (''dekopen.pref.v1.'' @ name @ ''.'' @ u @ ''.'' @ g) | _ \<Rightarrow> None)"

definition readRaw :: "string \<Rightarrow> Device \<Rightarrow> string option" where
  "readRaw k d = (case getItem (dv_local d) k of Inr (Some v) \<Rightarrow> Some v | _ \<Rightarrow> map_of (dv_memory d) k)"

definition writeRaw :: "(string \<Rightarrow> bool) \<Rightarrow> string \<Rightarrow> string \<Rightarrow> Device \<Rightarrow> Device" where
  "writeRaw full k v d =
     (let d' = d\<lparr>dv_memory := AList.update k v (dv_memory d)\<rparr>
      in case setItem full k v (dv_local d) of Inl _ \<Rightarrow> d' | Inr st \<Rightarrow> d'\<lparr>dv_local := st\<rparr>)"

primrec view_text :: "WorkView \<Rightarrow> string" where
  "view_text Mesa = ''mesa''"
| "view_text Estudio = ''estudio''"

definition as_view :: "string option \<Rightarrow> WorkView option" where
  "as_view v = (if v = Some ''mesa'' then Some Mesa else if v = Some ''estudio'' then Some Estudio else None)"

definition readWorkView :: "string option \<Rightarrow> string option \<Rightarrow> Device \<Rightarrow> WorkView" where
  "readWorkView user org d =
     (case pref_key ''work-view'' user org of None \<Rightarrow> DEFAULT_WORK_VIEW
      | Some k \<Rightarrow> (case as_view (readRaw k d) of None \<Rightarrow> DEFAULT_WORK_VIEW | Some v \<Rightarrow> v))"

definition saveWorkView :: "(string \<Rightarrow> bool) \<Rightarrow> string option \<Rightarrow> string option \<Rightarrow> WorkView \<Rightarrow> Device \<Rightarrow> Device" where
  "saveWorkView full user org view d =
     (case pref_key ''work-view'' user org of None \<Rightarrow> d | Some k \<Rightarrow> writeRaw full k (view_text view) d)"

definition number_member :: "json \<Rightarrow> string \<Rightarrow> bool" where
  "number_member j k \<longleftrightarrow> (case json_member k j of Some (JNum _) \<Rightarrow> True | _ \<Rightarrow> False)"

text \<open>The geometry is handed over as it was parsed.\<close>

definition readPopupGeometry :: "string option \<Rightarrow> string option \<Rightarrow> Device \<Rightarrow> json option" where
  "readPopupGeometry user org d =
     (case pref_key ''copilot-geometry'' user org of None \<Rightarrow> None
      | Some k \<Rightarrow> (case json_parse (case readRaw k d of None \<Rightarrow> ''null'' | Some s \<Rightarrow> s) of
           Inl _ \<Rightarrow> None
         | Inr j \<Rightarrow> if list_all (number_member j) [''x'', ''y'', ''width'', ''height''] then Some j else None))"

definition geometry_json :: "PopupGeometry \<Rightarrow> json" where
  "geometry_json g = JObj [(''x'', JNum (pg_x g)), (''y'', JNum (pg_y g)), (''width'', JNum (pg_width g)), (''height'', JNum (pg_height g))]"

definition savePopupGeometry :: "(string \<Rightarrow> bool) \<Rightarrow> string option \<Rightarrow> string option \<Rightarrow> PopupGeometry \<Rightarrow> Device \<Rightarrow> Device" where
  "savePopupGeometry full user org g d =
     (case pref_key ''copilot-geometry'' user org of None \<Rightarrow> d | Some k \<Rightarrow> writeRaw full k (stringify (geometry_json g)) d)"

section \<open>One session per identity\<close>

datatype CopilotOp = SaveSession "string option" "string option" CopilotSession | ClearOthers "string option" "string option"
  | SaveMode "string option" "string option" InteractionMode | SaveAutonomy "string option" "string option" AutonomyPolicy

fun copilot_op :: "(string \<Rightarrow> bool) \<Rightarrow> CopilotOp \<Rightarrow> Tab \<Rightarrow> Tab" where
  "copilot_op full (SaveSession u g s) w = saveSession full u g s w"
| "copilot_op full (ClearOthers u g) w = clearOtherSessions u g w"
| "copilot_op full (SaveMode u g m) w = saveMode full u g m w"
| "copilot_op full (SaveAutonomy u g a) w = saveAutonomy full u g a w"

text \<open>Identities are generated: a person's holds no point.\<close>

definition pointless :: "string option \<Rightarrow> bool" where
  "pointless u \<longleftrightarrow> (\<forall>s. u = Some s \<longrightarrow> CHR ''.'' \<notin> set s)"

fun op_pointless :: "CopilotOp \<Rightarrow> bool" where
  "op_pointless (SaveSession u _ _) = pointless u"
| "op_pointless (ClearOthers u _) = pointless u"
| "op_pointless _ = True"

text \<open>
  The session of one identity as the storage keeps it: the last one saved for which there was space, closed whenever another
  identity took over.
\<close>

definition same_person :: "string option \<Rightarrow> string option \<Rightarrow> string option \<Rightarrow> string option \<Rightarrow> bool" where
  "same_person u g u' g' \<longleftrightarrow> filled u' = filled u \<and> filled g' = filled g"

fun stored_session :: "(string \<Rightarrow> bool) \<Rightarrow> bool \<Rightarrow> string option \<Rightarrow> string option \<Rightarrow> CopilotOp \<Rightarrow> CopilotSession \<Rightarrow> CopilotSession" where
  "stored_session full denied u g (SaveSession u' g' s) before =
     (if filled u \<noteq> None \<and> filled g \<noteq> None \<and> same_person u g u' g' \<and> (denied \<or> \<not> full (stringify (session_json s)))
      then s else before)"
| "stored_session full denied u g (ClearOthers u' g') before = (if same_person u g u' g' then before else closed_session)"
| "stored_session full denied u g _ before = before"

text \<open>The session of one identity, kept on its own: the last one saved, closed whenever another identity took over. Nobody's
  session is closed.\<close>

fun own_session :: "string option \<Rightarrow> string option \<Rightarrow> CopilotOp \<Rightarrow> CopilotSession \<Rightarrow> CopilotSession" where
  "own_session u g (SaveSession u' g' s) before =
     (if filled u \<noteq> None \<and> filled g \<noteq> None \<and> same_person u g u' g' then s else before)"
| "own_session u g (ClearOthers u' g') before = (if same_person u g u' g' then before else closed_session)"
| "own_session u g _ before = before"

text \<open>The sessions an identity saved, and the saves the storage has space for.\<close>

definition saved_by :: "string option \<Rightarrow> string option \<Rightarrow> CopilotOp list \<Rightarrow> CopilotSession set" where
  "saved_by u g ops = {s. \<exists>u' g'. SaveSession u' g' s \<in> set ops \<and> same_person u g u' g'}"

fun fits :: "(string \<Rightarrow> bool) \<Rightarrow> CopilotOp \<Rightarrow> bool" where
  "fits full (SaveSession _ _ s) \<longleftrightarrow> \<not> full (stringify (session_json s))"
| "fits full _ \<longleftrightarrow> True"

lemma filled_Some: "filled x = Some s \<longleftrightarrow> x = Some s \<and> s \<noteq> []"
  by (auto simp: filled_def split: option.split list.split)

lemma memory_key_inj: "memory_key a k = memory_key b k' \<longleftrightarrow> a = b \<and> k = k'"
  by (cases a; cases b) (auto simp: memory_key_def)

lemma read_write:
  "read_pref a k (write_pref full b k' (Some v) w) =
    (if a = b \<and> k = k' \<and> (st_denied (area a w) \<or> \<not> full v) then Some v else read_pref a k w)"
  by (cases a; cases b) (auto simp: read_pref_def write_pref_def getItem_def setItem_def Let_def update_conv' memory_key_inj)

lemma clear_keys_filter:
  assumes "distinct (map fst xs)" "n \<le> length xs"
  shows "clear_keys stale n xs = filter (\<lambda>(k, _). \<not> stale k) (take n xs) @ drop n xs"
  using assms
proof (induction n arbitrary: xs)
  case (Suc i)
  let ?k = "fst (xs ! i)"
  have split: "xs = take i xs @ xs ! i # drop (Suc i) xs" using Suc.prems(2) by (simp add: id_take_nth_drop)
  have t: "take (Suc i) xs = take i xs @ [xs ! i]" using Suc.prems(2) by (simp add: take_Suc_conv_app_nth)
  have n: "nth_opt xs i = Some (xs ! i)" using Suc.prems(2) by (simp add: nth_opt_def)
  show ?case
  proof (cases "stale ?k")
    case False
    then show ?thesis using Suc n t Cons_nth_drop_Suc [of i xs] by (simp add: case_prod_beta)
  next
    case True
    have d: "?k \<notin> fst ` set (take i xs)" "?k \<notin> fst ` set (drop (Suc i) xs)" using Suc.prems(1) by (subst (asm) split, simp)+
    have "AList.delete ?k xs = AList.delete ?k (take i xs @ xs ! i # drop (Suc i) xs)" using split by simp
    also have "\<dots> = AList.delete ?k (take i xs) @ AList.delete ?k (drop (Suc i) xs)" by (simp add: AList.delete_eq case_prod_beta)
    also have "\<dots> = take i xs @ drop (Suc i) xs" using d by (metis AList.delete_id)
    finally have e: "AList.delete ?k xs = take i xs @ drop (Suc i) xs" .
    have "distinct (map fst (take i xs @ drop (Suc i) xs))" using Suc.prems(1) by (subst (asm) split) simp
    then have "clear_keys stale i (take i xs @ drop (Suc i) xs) = filter (\<lambda>(k, _). \<not> stale k) (take i xs) @ drop (Suc i) xs"
      using Suc.IH [of "take i xs @ drop (Suc i) xs"] Suc.prems(2) by simp
    then show ?thesis using True n t e by (simp add: case_prod_beta case_prod_beta')
  qed
qed simp

lemma map_of_kept: "map_of (filter (\<lambda>(k, _). \<not> P k) xs) k = (if P k then None else map_of xs k)"
  by (induction xs) auto

definition tab_ok :: "Tab \<Rightarrow> bool" where
  "tab_ok w \<longleftrightarrow> distinct (map fst (st_items (tb_session w)))"

lemma read_clear:
  assumes "tab_ok w"
  shows "read_pref Session k (clearOtherSessions u g w) = (if stale_session (scoped ''session'' u g) k then None else read_pref Session k w)"
proof -
  let ?keep = "scoped ''session'' u g"
  have m: "stale_memory ?keep (memory_key Session k) = stale_session ?keep k"
    by (auto simp: stale_session_def stale_memory_def memory_key_def startsWith_def COPILOT_def split: option.split)
  show ?thesis
    using assms clear_keys_filter [of "st_items (tb_session w)" "length (st_items (tb_session w))" "stale_session ?keep"] m
    by (auto simp: read_pref_def clearOtherSessions_def Let_def getItem_def map_of_kept tab_ok_def)
qed

lemma scoped_session: "scoped ''session'' u g = Some k \<Longrightarrow> startsWith k (COPILOT @ ''session.'')"
  by (auto simp: scoped_def startsWith_def split: option.splits)

lemma scoped_iff:
  assumes "pointless u" "pointless u'" "scoped ''session'' u g = Some k"
  shows "scoped ''session'' u' g' = Some k \<longleftrightarrow> filled u' = filled u \<and> filled g' = filled g"
proof -
  obtain a b where a: "filled u = Some a" "filled g = Some b" "k = COPILOT @ ''session.'' @ a @ ''.'' @ b"
    using assms(3) by (auto simp: scoped_def split: option.splits)
  then have "CHR ''.'' \<notin> set a" using assms(1) by (simp add: pointless_def filled_Some)
  moreover have "CHR ''.'' \<notin> set c" if "filled u' = Some c" for c using that assms(2) by (simp add: pointless_def filled_Some)
  ultimately show ?thesis using a separated [where d = "CHR ''.''"] by (auto simp: scoped_def split: option.split)
qed

lemma op_keeps: "tab_ok w \<Longrightarrow> tab_ok (copilot_op full op w) \<and> st_denied (tb_session (copilot_op full op w)) = st_denied (tb_session w)"
proof (cases op)
  case (ClearOthers u g)
  assume "tab_ok w"
  then show ?thesis using clear_keys_filter [of "st_items (tb_session w)" "length (st_items (tb_session w))"] ClearOthers
    by (auto simp: tab_ok_def clearOtherSessions_def Let_def distinct_map_filter)
qed (auto simp: tab_ok_def saveSession_def saveMode_def saveAutonomy_def write_pref_def setItem_def Let_def distinct_update split: option.split)

lemma saved_session: "session_of (session_json s) = s" "json_ok (session_json s)"
  by (auto simp: session_json_def session_of_def json_member_def object_order_def split: option.splits) (code_simp)+

lemma read_raw:
  "readSession u g w = (case scoped ''session'' u g of None \<Rightarrow> closed_session
     | Some k \<Rightarrow> (case filled (read_pref Session k w) of None \<Rightarrow> closed_session
         | Some s \<Rightarrow> (case json_parse s of Inl _ \<Rightarrow> closed_session | Inr j \<Rightarrow> session_of j)))"
  by (simp add: readSession_def filled_def split: option.split)

lemma op_session:
  assumes "tab_ok w" "op_pointless op" "pointless u"
  shows "readSession u g (copilot_op full op w) = stored_session full (st_denied (tb_session w)) u g op (readSession u g w)"
proof (cases "scoped ''session'' u g")
  case None
  then have n: "readSession u g w' = closed_session" for w' by (simp add: read_raw)
  have f: "filled u = None \<or> filled g = None" using None by (auto simp: scoped_def split: option.splits)
  show ?thesis unfolding n using f by (cases op) auto
next
  case (Some k)
  then have f: "filled u \<noteq> None" "filled g \<noteq> None" by (auto simp: scoped_def split: option.splits)
  show ?thesis
  proof (cases op)
    case (SaveSession u' g' s)
    have k: "scoped ''session'' u' g' = Some k \<longleftrightarrow> filled u' = filled u \<and> filled g' = filled g"
      using scoped_iff [OF assms(3) _ Some] assms(2) SaveSession by simp
    obtain c cs where c: "stringify (session_json s) = c # cs" by (simp add: session_json_def)
    have r: "read_pref Session k (saveSession full u' g' s w) =
        (if filled u' = filled u \<and> filled g' = filled g \<and> (st_denied (tb_session w) \<or> \<not> full (stringify (session_json s)))
         then Some (stringify (session_json s)) else read_pref Session k w)"
      using k by (cases "scoped ''session'' u' g'") (auto simp: saveSession_def read_write)
    show ?thesis
      using f r json_parse_stringify [OF saved_session(2), of s] c
      by (simp add: SaveSession read_raw Some same_person_def) (auto simp: filled_def saved_session(1))
  next
    case (ClearOthers u' g')
    have "stale_session (scoped ''session'' u' g') k \<longleftrightarrow> \<not> (filled u' = filled u \<and> filled g' = filled g)"
      using scoped_iff [OF assms(3) _ Some, of u' g'] assms(2) ClearOthers scoped_session [OF Some] by (auto simp: stale_session_def)
    then show ?thesis using read_clear [OF assms(1), of k u' g'] by (auto simp: ClearOthers read_raw Some filled_def same_person_def)
  qed (auto simp: read_raw Some saveMode_def saveAutonomy_def read_write split: option.splits)
qed

lemma run_session:
  assumes "tab_ok w" "list_all op_pointless ops" "pointless u"
  shows "readSession u g (fold (copilot_op full) ops w) =
    fold (stored_session full (st_denied (tb_session w)) u g) ops (readSession u g w)"
  using assms
proof (induction ops arbitrary: w)
  case (Cons op ops)
  then show ?case using op_keeps [of w full op] op_session [of w op u g full] by simp
qed simp

lemma stored_sources: "fold (stored_session full d u g) ops s \<in> {s, closed_session} \<union> saved_by u g ops"
proof (induction ops arbitrary: s)
  case (Cons op ops)
  have "saved_by u g ops \<subseteq> saved_by u g (op # ops)" by (auto simp: saved_by_def)
  moreover have "stored_session full d u g op s \<in> {s, closed_session} \<union> saved_by u g (op # ops)"
    by (cases op) (auto simp: saved_by_def)
  ultimately show ?case using Cons [of "stored_session full d u g op s"] by auto
qed simp

lemma stored_closed:
  assumes "\<not> same_person u g u' g'" "saved_by u g ops = {}"
  shows "fold (stored_session full d u g) (before @ ClearOthers u' g' # ops) s = closed_session"
  using stored_sources [of full d u g ops closed_session] assms by simp

lemma stored_own: "d \<or> list_all (fits full) ops \<Longrightarrow> fold (stored_session full d u g) ops s = fold (own_session u g) ops s"
proof (induction ops arbitrary: s)
  case (Cons op ops)
  have "stored_session full d u g op s = own_session u g op s" using Cons.prems by (cases op) auto
  then show ?case using Cons by auto
qed simp

text \<open>
  C40. The assistant's sessions never mix. Take any sequence of saves and clears on a tab, by any people in any organisations,
  with the storage working, full or blocked. The session shown to an identity is the one it was shown at first, the closed one, or one
  that exactly that identity saved; and once another identity has taken over the tab it is closed until that identity saves again. If
  the storage is blocked, or has space for every session saved, it is the last one saved by that identity since then. (A
  session refused for lack of space is dropped and the one before it stays, see \<open>refused_session_is_lost\<close>.)
\<close>
theorem copilot_sessions_apart:
  assumes "tab_ok w" "list_all op_pointless ops" "pointless u"
  shows "readSession u g (fold (copilot_op full) ops w) \<in> {readSession u g w, closed_session} \<union> saved_by u g ops \<and>
    (\<forall>before u' g' after. ops = before @ ClearOthers u' g' # after \<and> \<not> same_person u g u' g' \<and> saved_by u g after = {} \<longrightarrow>
       readSession u g (fold (copilot_op full) ops w) = closed_session) \<and>
    (st_denied (tb_session w) \<or> list_all (fits full) ops \<longrightarrow>
       readSession u g (fold (copilot_op full) ops w) = fold (own_session u g) ops (readSession u g w))"
proof -
  have "fold (stored_session full d u g) ops s = closed_session"
    if "ops = before @ ClearOthers u' g' # after \<and> \<not> same_person u g u' g' \<and> saved_by u g after = {}" for before u' g' after d s
    using that stored_closed [of u g u' g' after] by simp
  then show ?thesis unfolding run_session [OF assms] by (intro conjI allI impI stored_sources stored_own) auto
qed

definition new_tab :: Tab where
  "new_tab = \<lparr>tb_local = \<lparr>st_items = [], st_denied = False\<rparr>, tb_session = \<lparr>st_items = [], st_denied = False\<rparr>, tb_memory = []\<rparr>"

definition open_session :: CopilotSession where
  "open_session = \<lparr>cs_open = True, cs_minimized = False, cs_threadId = Some ''t1''\<rparr>"

theorem copilot_sessions_witness:
  "readSession (Some ''u1'') (Some ''o1'') (fold (copilot_op (\<lambda>_. False))
      [SaveSession (Some ''u1'') (Some ''o1'') open_session, ClearOthers (Some ''u1'') (Some ''o1'')] new_tab) = open_session \<and>
   readSession (Some ''u1'') (Some ''o1'') (fold (copilot_op (\<lambda>_. False))
      [SaveSession (Some ''u1'') (Some ''o1'') open_session, ClearOthers (Some ''u2'') (Some ''o1'')] new_tab) = closed_session"
proof -
  have "tab_ok new_tab" "pointless (Some ''u1'')" "pointless (Some ''u2'')" by (simp_all add: tab_ok_def new_tab_def pointless_def)
  note t = this
  have "readSession (Some ''u1'') (Some ''o1'') (fold (copilot_op (\<lambda>_. False)) ops new_tab)
      = fold (own_session (Some ''u1'') (Some ''o1'')) ops (readSession (Some ''u1'') (Some ''o1'') new_tab)"
    if "list_all op_pointless ops" for ops
  proof -
    have "list_all (fits (\<lambda>_. False)) ops" by (simp add: list_all_iff) (metis fits.elims(3))
    then show ?thesis using copilot_sessions_apart [OF t(1) that t(2), of "Some ''o1''" "\<lambda>_. False"] by blast
  qed
  note r = this
  have "list_all op_pointless [SaveSession (Some ''u1'') (Some ''o1'') open_session, ClearOthers (Some ''u1'') (Some ''o1'')]"
    "list_all op_pointless [SaveSession (Some ''u1'') (Some ''o1'') open_session, ClearOthers (Some ''u2'') (Some ''o1'')]" using t(2,3) by simp_all
  note o = this
  show ?thesis unfolding r [OF o(1)] r [OF o(2)] by (simp add: filled_def same_person_def)
qed

section \<open>Preferences that are saved\<close>

lemma texts_read_back: "as_view (Some (view_text v)) = Some v"
  by (cases v) (simp_all add: as_view_def)

lemma readMode_saved:
  "scoped ''mode'' u g = Some k \<Longrightarrow> readMode u g (saveMode full u g md w) =
    (if st_denied (tb_local w) \<or> \<not> full (mode_text md) then md else readMode u g w)"
  by (cases md) (auto simp: readMode_def saveMode_def read_write)

lemma readAutonomy_saved:
  "scoped ''autonomy'' u g = Some k \<Longrightarrow> readAutonomy u g (saveAutonomy full u g p w) =
    (if st_denied (tb_local w) \<or> \<not> full (autonomy_text p) then p else readAutonomy u g w)"
  by (cases p) (auto simp: readAutonomy_def saveAutonomy_def read_write)

text \<open>A mode that the storage refused for lack of space is in the memory of the tab, and the memory is not read.\<close>

lemma refused_mode_is_lost:
  assumes "scoped ''mode'' u g = Some k" "\<not> st_denied (tb_local w)" "full (mode_text md)"
  shows "map_of (tb_memory (saveMode full u g md w)) (memory_key Local k) = Some (mode_text md) \<and>
    readMode u g (saveMode full u g md w) = readMode u g w"
  using assms readMode_saved [OF assms(1), of full md w]
  by (simp add: saveMode_def write_pref_def setItem_def Let_def update_conv')

text \<open>So is a session; what is shown is the one before it.\<close>

lemma refused_session_is_lost:
  assumes "scoped ''session'' u g = Some k" "\<not> st_denied (tb_session w)" "full (stringify (session_json s))"
  shows "map_of (tb_memory (saveSession full u g s w)) (memory_key Session k) = Some (stringify (session_json s)) \<and>
    readSession u g (saveSession full u g s w) = readSession u g w"
  using assms by (simp add: saveSession_def read_raw read_write del: stringify.simps)
    (simp add: write_pref_def setItem_def Let_def update_conv' del: stringify.simps)

lemma read_written:
  "readRaw k (writeRaw full k' v d) =
    (if k = k' \<and> (st_denied (dv_local d) \<or> \<not> full v \<or> map_of (st_items (dv_local d)) k = None) then Some v else readRaw k d)"
  by (auto simp: readRaw_def writeRaw_def getItem_def setItem_def Let_def update_conv' split: option.split)

lemma readWorkView_saved:
  "pref_key ''work-view'' u g = Some k \<Longrightarrow> readWorkView u g (saveWorkView full u g v d) =
    (if st_denied (dv_local d) \<or> \<not> full (view_text v) \<or> map_of (st_items (dv_local d)) k = None then v else readWorkView u g d)"
  by (auto simp: readWorkView_def saveWorkView_def read_written texts_read_back)

lemma readPopupGeometry_saved:
  assumes "pref_key ''copilot-geometry'' u g = Some k" "list_all num_ok [pg_x r, pg_y r, pg_width r, pg_height r]"
    and "st_denied (dv_local d) \<or> \<not> full (stringify (geometry_json r))"
  shows "readPopupGeometry u g (savePopupGeometry full u g r d) = Some (geometry_json r)"
proof -
  have "json_ok (geometry_json r)" using assms(2) by (simp add: geometry_json_def) code_simp
  then show ?thesis using assms(1,3) json_parse_stringify [of "geometry_json r"]
    by (auto simp: readPopupGeometry_def savePopupGeometry_def read_written) (simp_all add: geometry_json_def number_member_def json_member_def)
qed

end
