(* ===== verification/Workspace.thy ===== *)
theory Workspace
  imports SheetProps
begin

text \<open>
  Small models the pages of the client share: the areas a role may open (\<open>app/navigation.ts\<close>), the day's counts
  (\<open>app/todaySummary.ts\<close>), the amounts shown for a work (\<open>pricing/workingPrice.ts\<close>, \<open>projects/worksList.ts\<close>), typed money
  and percentages (\<open>features/money.ts\<close>, \<open>pricing/policyNumbers.ts\<close>) and the couplers an angle admits
  (\<open>canvas/couplerAuthority.ts\<close>).
\<close>

section \<open>Navigation\<close>

datatype Role = OWNER | ESTIMATOR | WORKSHOP_MANAGER | INSTALLER | OPERATOR

datatype AreaId = A_today | A_projects | A_catalogs | A_workshop | A_company

record NavSection =
  ns_to :: string
  ns_label :: string
  ns_roles :: "Role list"

record NavArea =
  na_id :: AreaId
  na_label :: string
  na_icon :: string
  na_owns :: "string list"
  na_sections :: "NavSection list"

record VisibleArea = NavArea +
  va_to :: string

definition commercial :: "Role list" where "commercial = [OWNER, ESTIMATOR]"

definition office :: "Role list" where "office = commercial @ [WORKSHOP_MANAGER]"

definition inventory :: "Role list" where "inventory = office @ [OPERATOR]"

definition everyone :: "Role list" where "everyone = inventory @ [INSTALLER]"

definition nav_section :: "string \<Rightarrow> string \<Rightarrow> Role list \<Rightarrow> NavSection" where
  "nav_section path label' roles = \<lparr>ns_to = path, ns_label = label', ns_roles = roles\<rparr>"

definition AREAS :: "NavArea list" where
  "AREAS =
    [\<lparr>na_id = A_today, na_label = ''nav.today'', na_icon = ''today'', na_owns = [''/dashboard''],
      na_sections = [nav_section ''/dashboard'' ''nav.today'' everyone]\<rparr>,
     \<lparr>na_id = A_projects, na_label = ''nav.projects'', na_icon = ''projects'', na_owns = [''/projects'', ''/quotes'', ''/clients'', ''/onboarding''],
      na_sections = [nav_section ''/projects'' ''nav.projects'' office]\<rparr>,
     \<lparr>na_id = A_catalogs, na_label = ''nav.catalogs'', na_icon = ''catalogs'', na_owns = [''/catalogs''],
      na_sections = [nav_section ''/catalogs/systems'' ''nav.catalogs'' office, nav_section ''/catalogs/finish-samples'' ''nav.finishSamples'' office,
        nav_section ''/catalogs/sheet-formats'' ''nav.sheetFormats'' office]\<rparr>,
     \<lparr>na_id = A_workshop, na_label = ''nav.workshop'', na_icon = ''workshop'',
      na_owns = [''/production'', ''/purchasing'', ''/inventory'', ''/dispatch'', ''/field''],
      na_sections = [nav_section ''/production'' ''nav.orders'' everyone, nav_section ''/purchasing'' ''nav.purchasing'' office,
        nav_section ''/inventory'' ''nav.inventory'' inventory, nav_section ''/dispatch'' ''nav.dispatch'' office,
        nav_section ''/field'' ''nav.field'' (office @ [INSTALLER])]\<rparr>,
     \<lparr>na_id = A_company, na_label = ''nav.company'', na_icon = ''company'',
      na_owns = [''/settings'', ''/analytics'', ''/pricing'', ''/jobs'', ''/assistant''],
      na_sections = [nav_section ''/settings/general'' ''nav.preferences'' office, nav_section ''/analytics'' ''nav.analytics'' [OWNER, WORKSHOP_MANAGER],
        nav_section ''/settings/advanced'' ''nav.advanced'' office, nav_section ''/settings/billing'' ''nav.plan'' office]\<rparr>]"

fun area_rank :: "AreaId \<Rightarrow> nat" where
  "area_rank A_today = 0"
| "area_rank A_projects = 1"
| "area_rank A_workshop = 2"
| "area_rank A_catalogs = 3"
| "area_rank A_company = 4"

definition visible_area :: "Role \<Rightarrow> NavArea \<Rightarrow> VisibleArea option" where
  "visible_area role a =
     (case filter (\<lambda>s. role \<in> set (ns_roles s)) (na_sections a) of
        [] \<Rightarrow> None
      | s # ss \<Rightarrow> Some \<lparr>na_id = na_id a, na_label = na_label a, na_icon = na_icon a, na_owns = na_owns a, na_sections = s # ss, va_to = ns_to s\<rparr>)"

definition navigationFor :: "Role option \<Rightarrow> VisibleArea list" where
  "navigationFor r = (case r of None \<Rightarrow> [] | Some role \<Rightarrow> sort_key (\<lambda>a. area_rank (na_id a)) (List.map_filter (visible_area role) AREAS))"

definition paletteNavigationFor :: "Role option \<Rightarrow> NavSection list" where
  "paletteNavigationFor r =
     (let all_sections = concat (map na_sections (navigationFor r))
      in case r of Some role \<Rightarrow> if role \<in> set office then all_sections @ [nav_section ''/clients'' ''nav.clients'' office] else all_sections
         | None \<Rightarrow> all_sections)"

definition under :: "string \<Rightarrow> string \<Rightarrow> bool" where
  "under pathname prefix \<longleftrightarrow> pathname = prefix \<or> startsWith pathname (prefix @ ''/'')"

definition areaFor :: "string \<Rightarrow> Role option \<Rightarrow> VisibleArea option" where
  "areaFor pathname r = List.find (\<lambda>a. list_ex (under pathname) (na_owns a)) (navigationFor r)"

definition homeFor :: "Role option \<Rightarrow> string" where
  "homeFor r = (case r of None \<Rightarrow> ''/projects'' | Some _ \<Rightarrow> ''/dashboard'')"

section \<open>The day\<close>

record TodayAction =
  ta_kind :: string
  ta_entity_code :: string
  ta_blocking :: bool
  ta_consequence :: string

record Metric =
  mt_label :: string
  mt_count :: nat
  mt_tier :: string

definition of_workshop :: "TodayAction \<Rightarrow> bool" where
  "of_workshop item \<longleftrightarrow> list_ex (startsWith (ta_kind item)) [''work_order_'', ''station_'', ''dispatch_'', ''remake'', ''delivery'', ''installation'']"

definition count_entities :: "(TodayAction \<Rightarrow> bool) \<Rightarrow> TodayAction list \<Rightarrow> nat" where
  "count_entities P actions = length (remdups (map ta_entity_code (filter P actions)))"

definition role_metrics :: "Role \<Rightarrow> (string \<times> (TodayAction \<Rightarrow> bool) \<times> string) list" where
  "role_metrics role =
     (if role = OWNER \<or> role = ESTIMATOR then
        [(''Por enviar'', \<lambda>i. ta_kind i = ''quote_send'', []), (''Aceptadas por coordinar'', \<lambda>i. ta_kind i = ''quote_approved'', []),
         (if role = OWNER then (''Atrasos en taller'', \<lambda>i. of_workshop i \<and> ta_consequence i = ''overdue'', ''overdue'')
          else (''Clientes por responder'', \<lambda>i. ta_kind i = ''quote_response'', ''blocking''))]
      else if role = INSTALLER then
        [(''Entregas e instalaciones'', \<lambda>i. ta_kind i \<in> {''delivery'', ''installation''}, []),
         (''Visitas por hacer'', \<lambda>i. ta_kind i = ''field_visit'', []),
         (''Incidencias abiertas'', \<lambda>i. ta_kind i = ''field_incident'', ''blocking'')]
      else
        [([CHR 0xC3, CHR 0x93] @ ''rdenes por atender'', of_workshop, []),
         (''Bloqueos'', \<lambda>i. of_workshop i \<and> ta_blocking i, ''blocking''),
         (''Compromisos vencidos'', \<lambda>i. ta_consequence i = ''overdue'', ''overdue'')])"

definition todayMetrics :: "TodayAction list \<Rightarrow> Role \<Rightarrow> Metric list" where
  "todayMetrics actions role =
     filter (\<lambda>m. mt_count m > 0)
       (map (\<lambda>(l, P, tier). \<lparr>mt_label = l, mt_count = count_entities P actions, mt_tier = tier\<rparr>) (role_metrics role))"

section \<open>Amounts\<close>

record WorkingPrice =
  wp_state :: string
  wp_currency :: string
  wp_net :: "string option"
  wp_tax :: "string option"
  wp_gross :: "string option"

record WorkProgress =
  pg_quoted_total :: "string field"
  pg_currency :: "string field"

record Work =
  wk_status :: string
  wk_pricing_current :: bool
  wk_net :: "string option"
  wk_tax :: "string option"
  wk_gross :: "string option"
  wk_currency :: string
  wk_working :: "WorkingPrice option"
  wk_progress :: "WorkProgress option"

record ProjectPrice =
  pp_net :: "string option"
  pp_tax :: "string option"
  pp_gross :: "string option"
  pp_currency :: string
  pp_ready :: bool
  pp_working :: bool

definition projectPrice :: "Work \<Rightarrow> ProjectPrice option" where
  "projectPrice w =
     (if wk_pricing_current w
      then Some \<lparr>pp_net = wk_net w, pp_tax = wk_tax w, pp_gross = wk_gross w, pp_currency = wk_currency w, pp_ready = True, pp_working = False\<rparr>
      else case (if wk_status w = ''DRAFT'' then wk_working w else None) of
        None \<Rightarrow> None
      | Some p \<Rightarrow> if wp_state p = ''BLOCKED'' \<or> wp_gross p = None then None
          else Some \<lparr>pp_net = wp_net p, pp_tax = wp_tax p, pp_gross = wp_gross p, pp_currency = wp_currency p,
                 pp_ready = (wp_state p = ''READY''), pp_working = True\<rparr>)"

definition priceReady :: "Work \<Rightarrow> bool" where
  "priceReady w \<longleftrightarrow> (case projectPrice w of Some p \<Rightarrow> pp_ready p | None \<Rightarrow> False)"

record Amount =
  am_value :: "string option"
  am_currency :: string
  am_origin :: string

definition workAmount :: "Work \<Rightarrow> Amount option" where
  "workAmount w =
     (case Option.bind (wk_progress w) (\<lambda>p. case (pg_quoted_total p, pg_currency p) of
             (Val amt, Val (c # cs)) \<Rightarrow> Some (amt, c # cs) | _ \<Rightarrow> None) of
        Some (amt, cur) \<Rightarrow> Some \<lparr>am_value = Some amt, am_currency = cur, am_origin = ''Total de la cotizaci'' @ [CHR 0xC3, CHR 0xB3] @ ''n vigente''\<rparr>
      | None \<Rightarrow>
          if wk_pricing_current w
          then Some \<lparr>am_value = wk_gross w, am_currency = wk_currency w, am_origin = ''Precio aplicado de esta revisi'' @ [CHR 0xC3, CHR 0xB3] @ ''n''\<rparr>
          else None)"

definition pageOffset :: "string option \<Rightarrow> jsnum" where
  "pageOffset value =
     (let parsed = (case value of None \<Rightarrow> Fin 0 | Some s \<Rightarrow> str_num s)
      in if isSafeInteger parsed \<and> js_lt (Fin 0) parsed then js_mul (js_floor (js_div parsed (Fin 50))) (Fin 50) else Fin 0)"

section \<open>Typed money and percentages\<close>

text \<open>\<open>/^(?:\d+|\d{1,3}(?:\.\d{3})+)(?:,\d+)?$/\<close>.\<close>

definition money_pattern :: "string \<Rightarrow> bool" where
  "money_pattern s \<longleftrightarrow> (case s of [] \<Rightarrow> False | c # _ \<Rightarrow> is_digit c) \<and>
     (is_grouped s \<or> (case dropWhile is_digit s of [] \<Rightarrow> True | c # f \<Rightarrow> c = CHR '','' \<and> f \<noteq> [] \<and> list_all is_digit f))"

definition parseMoneyInput :: "nat list \<Rightarrow> nat \<Rightarrow> string option" where
  "parseMoneyInput text' precision =
     (let input = filter (\<lambda>u. \<not> unit_space u) text'
      in if list_ex (\<lambda>u. 256 \<le> u) input \<or> \<not> money_pattern (map char_of input) then None else parseDecimalInput input precision)"

definition policyPercentInput :: "string \<Rightarrow> string result" where
  "policyPercentInput value =
     (let (w, fraction) = split_point value; digits = padEnd 2 CHR ''0'' fraction
      in result_bind (big_int w) (\<lambda>a. result_bind (big_int (take 2 digits)) (\<lambda>b.
           Inr (replace_first CHR ''.'' CHR '','' (decimalInputValue (Some (int_str (a * 100 + b) @ ''.'' @
             (if drop 2 digits = [] then ''0'' else drop 2 digits))))))))"

section \<open>Couplers\<close>

record CouplerRule =
  cr_min_angle_deg :: string
  cr_max_angle_deg :: string

record AngleChoice =
  cc_sku :: string
  cc_rule :: "CouplerRule option"
  cc_rest :: "(string \<times> json) list"

definition compatibleCouplers :: "AngleChoice list \<Rightarrow> string \<Rightarrow> AngleChoice list" where
  "compatibleCouplers choices angle =
     filter (\<lambda>c. case cc_rule c of None \<Rightarrow> False
       | Some r \<Rightarrow> js_le (str_num (cr_min_angle_deg r)) (js_abs (str_num angle)) \<and> js_le (js_abs (str_num angle)) (str_num (cr_max_angle_deg r))) choices"

section \<open>Facts\<close>

lemma role_all: "(\<forall>r :: Role. P r) \<longleftrightarrow> P OWNER \<and> P ESTIMATOR \<and> P WORKSHOP_MANAGER \<and> P INSTALLER \<and> P OPERATOR"
  by (metis Role.exhaust)

text \<open>Every area a role sees leads to a section the role may read and is the area that owns that path; the start page is one of them.\<close>

lemmas role_defs = everyone_def inventory_def office_def commercial_def nav_section_def

lemma areas_shape:
  "navigationFor (Some role) = List.map_filter (visible_area role) (map (nth AREAS) [0, 1, 3, 2, 4])"
  by (cases role) (simp_all add: navigationFor_def AREAS_def visible_area_def role_defs map_filter_def)

lemma areas_lead_home:
  "\<forall>a \<in> set (navigationFor (Some role)). areaFor (va_to a) (Some role) = Some a \<and>
     (\<exists>s \<in> set (na_sections a). ns_to s = va_to a) \<and> (\<forall>s \<in> set (na_sections a). role \<in> set (ns_roles s))"
  "areaFor (homeFor (Some role)) (Some role) \<noteq> None"
  by (cases role; simp add: areaFor_def areas_shape homeFor_def AREAS_def visible_area_def role_defs map_filter_def under_def startsWith_def)+

lemma strip_zeros_again: "strip_zeros (strip_zeros s) = strip_zeros s"
proof -
  have "dropWhile P (dropWhile P xs) = dropWhile P xs" for P :: "char \<Rightarrow> bool" and xs by (induction xs) auto
  then show ?thesis by (simp add: strip_zeros_def)
qed

lemma replace_first_point: "\<forall>c \<in> set w. is_digit c \<Longrightarrow>
   replace_first CHR ''.'' CHR '','' (dec_text w f) = w @ (case f of None \<Rightarrow> [] | Some x \<Rightarrow> '','' @ x)"
  by (induction w) (auto simp: dec_text_def is_digit_def digit_chars_def replace_first_id split: option.split)

text \<open>A policy fraction is shown as its percentage, exactly, and what is shown reads back as that percentage.\<close>

lemma policyPercentInput_exact:
  assumes "digits_ok w f"
  defines "ds \<equiv> padEnd 2 CHR ''0'' (fraction_of f)"
  defines "n \<equiv> digits_val w * 100 + digits_val (take 2 ds)" and "z \<equiv> strip_zeros (drop 2 ds)"
  shows "policyPercentInput (dec_text w f) = Inr (dec_str n @ (if z = [] then [] else '','' @ z))" (is ?shown)
    and "parseDecimalInput (units (dec_str n @ (if z = [] then [] else '','' @ z))) (length z) = Some (dec_text (dec_str n) (if z = [] then None else Some z))" (is ?typed)
    and "\<exists>a. denotes (dec_text w f) = Some a \<and> denotes (dec_text (dec_str n) (if z = [] then None else Some z)) = Some (a * 100)" (is ?exact)
proof -
  have w: "w \<noteq> []" "list_all is_digit w" "\<forall>x. f = Some x \<longrightarrow> list_all is_digit x" using assms(1) by (auto simp: digits_ok_def)
  have dd: "\<forall>c \<in> set ds. is_digit c" using w(3) by (auto simp: ds_def padEnd_def list_all_iff split: option.splits)
  have l: "2 \<le> length ds" by (simp add: ds_def padEnd_def)
  have n: "0 \<le> n" by (simp add: n_def digits_val_nonneg)
  have ne: "take 2 ds \<noteq> []" using l by auto
  have b: "big_int w = Inr (digits_val w)" "big_int (take 2 ds) = Inr (digits_val (take 2 ds))"
    using big_int_digits [OF w(1,2)] big_int_digits [OF ne] dd by (simp_all add: list_all_iff) (meson in_set_takeD)
  define r where "r = (if drop 2 ds = [] then ''0'' else drop 2 ds)"
  have r: "\<forall>c \<in> set r. is_digit c" "r \<noteq> []" using dd by (auto simp: r_def dest: in_set_dropD)
  have z: "strip_zeros r = z" by (simp add: r_def z_def strip_zeros_def)
  have zd: "\<forall>c \<in> set z. is_digit c" using strip_zeros_digits [of "drop 2 ds"] dd by (auto simp: z_def dest: in_set_dropD)
  have p: "policyPercentInput (dec_text w f) = Inr (replace_first CHR ''.'' CHR '','' (decimalInputValue (Some (dec_text (dec_str n) (Some r)))))"
    using split_point_dec_text [OF w(2,3)] b n unfolding r_def
    by (simp add: policyPercentInput_def Let_def ds_def [symmetric] n_def [symmetric] dec_text_def int_str_def)
  have "decimalInputValue (Some (dec_text (dec_str n) (Some r))) = dec_text (dec_str n) (if z = [] then None else Some z)"
    using input_value_plain [OF dec_str_digits _ r(1), of n] r(2) n z by (simp add: dec_text_def)
  then show ?shown
    using p replace_first_point [OF dec_str_digits, of n "if z = [] then None else Some z"] by (cases "z = []") simp_all
  have sp: "\<forall>u \<in> set (units (dec_str n @ (if z = [] then [] else '','' @ z))). \<not> unit_space u"
  proof -
    have "\<forall>c \<in> set digit_chars \<union> {CHR '',''}. \<not> unit_space (of_char c)" by (simp add: digit_chars_def unit_space_def)
    moreover have "set (dec_str n @ (if z = [] then [] else '','' @ z)) \<subseteq> set digit_chars \<union> {CHR '',''}"
      using dec_str_digits [of n] zd by (auto simp: is_digit_def)
    ultimately show ?thesis unfolding units_def by auto
  qed
  then have "filter (\<lambda>u. \<not> unit_space u) (units (dec_str n @ (if z = [] then [] else '','' @ z))) = units (dec_str n @ (if z = [] then [] else '','' @ z))"
    by (simp only: filter_id_conv)
  moreover have "strip_zeros z = z" by (simp add: z_def strip_zeros_again)
  ultimately show ?typed using parse_typed [OF dec_str_digits _ zd order_refl, of n] n by (simp add: dec_text_def)
  define e k where "e = length ds - 2" and "k = length ds - length (fraction_of f)"
  have e: "length ds = e + 2" "length ds = length (fraction_of f) + k" using l by (auto simp: e_def k_def ds_def padEnd_def)
  have "digits_val ds = digits_val (take 2 ds) * 10 ^ e + digits_val (drop 2 ds)"
    using digits_val_append [of "take 2 ds" "drop 2 ds"] by (simp add: e_def)
  moreover have "digits_val ds = digits_val (fraction_of f) * 10 ^ k" by (simp add: ds_def padEnd_def k_def digits_val_append)
  ultimately have v: "n * 10 ^ e + digits_val (drop 2 ds) = (digits_val w * 10 ^ length (fraction_of f) + digits_val (fraction_of f)) * 10 ^ k"
    using e by (simp add: n_def algebra_simps power_add [symmetric])
  let ?a = "of_int (digits_val (w @ fraction_of f)) / 10 ^ length (fraction_of f) :: rat"
  have "denotes (dec_text w f) = Some ?a" using denotes_signed [OF assms(1), of False] by (simp add: signed_text_def text_value_def)
  moreover have "denotes (dec_text (dec_str n) (if z = [] then None else Some z)) = Some (of_int n + of_int (digits_val z) / 10 ^ length z)"
    using denotes_signed [of "dec_str n" "if z = [] then None else Some z" False] n zd dec_str_digits [of n]
    by (cases "z = []") (simp_all add: signed_text_def text_value_def digits_ok_def list_all_iff digits_val_append add_divide_distrib)
  moreover have "of_int n + of_int (digits_val z) / 10 ^ length z = (of_int (n * 10 ^ e + digits_val (drop 2 ds)) / 10 ^ e :: rat)"
    unfolding z_def strip_zeros_value by (simp add: e_def add_divide_distrib)
  moreover have "(of_int (n * 10 ^ e + digits_val (drop 2 ds)) / 10 ^ e :: rat) = ?a * 100"
  proof -
    have p: "(10 :: rat) ^ e * 100 = 10 ^ length (fraction_of f) * 10 ^ k" using arg_cong [OF e(2), of "\<lambda>m. (10 :: rat) ^ m"] e(1) by (simp add: power_add)
    have "?a * 100 * 10 ^ e = ?a * (10 ^ e * 100)" by simp
    also have "\<dots> = of_int (digits_val (w @ fraction_of f) * 10 ^ k)" unfolding p by simp
    also have "\<dots> = of_int (n * 10 ^ e + digits_val (drop 2 ds))" unfolding v by (simp add: digits_val_append)
    finally show ?thesis by (simp add: field_simps)
  qed
  ultimately show ?exact by auto
qed

text \<open>The minus sign of a fraction below one is lost, and above one the hundredths are added instead of taken away.\<close>

lemma negative_percent: "policyPercentInput ''-0.05'' = Inr ''5''" "policyPercentInput ''-1.05'' = Inr ''-95''"
  by code_simp+

text \<open>Money typed with a comma is read exactly; a point is only ever a separator of thousands.\<close>

lemma parseMoneyInput_typed:
  assumes "\<forall>c \<in> set w. is_digit c" "w \<noteq> []" "\<forall>c \<in> set f. is_digit c" "length f \<le> precision"
    and "filter (\<lambda>u. \<not> unit_space u) us = units (w @ (if f = [] then [] else '','' @ f))"
  shows "parseMoneyInput us precision = Some (dec_str (digits_val w) @ (if strip_zeros f = [] then [] else ''.'' @ strip_zeros f))"
proof -
  let ?s = "w @ (if f = [] then [] else '','' @ f)"
  have d: "dropWhile is_digit ?s = (if f = [] then [] else '','' @ f)" using assms(1) by (auto simp: is_digit_def digit_chars_def)
  have h: "is_digit (hd ?s)" using assms(1,2) by (cases w) simp_all
  have m: "money_pattern ?s" using d h assms(2,3) by (cases ?s) (auto simp: money_pattern_def list_all_iff)
  have "filter (\<lambda>u. \<not> unit_space u) (units ?s) = units ?s" unfolding assms(5) [symmetric] by simp
  note i = parse_typed [OF assms(1-4) this]
  show ?thesis unfolding parseMoneyInput_def assms(5) Let_def using i m by (simp only: units_back(1,2) simp_thms if_False)
qed

end
