(* ===== verification/Spec2Isabelle.thy ===== *)
theory Spec2Isabelle
  imports EditProps StoreProps DecimalProps OutboxProps DesignOps Viewport StructuredOpening
    CommandProps DesignLibrary ObjectTree Hardware CatalogProps SheetProps Gateway
    Authority Preferences Workspace
begin

text \<open>
  Verification of the editing core of the window and door configurator, and of the client models around it.

  \<^bold>\<open>The program.\<close> The browser client lets a fabricator compose a product out of modules (windows, doors,
  panels) joined side by side, stacked or at corners, each module a tree of bays and divisions. The
  logic that edits these values is under \<open>src/frontend/src/features/canvas\<close>; the decimals it shares with
  the rest of the client are in \<open>src/frontend/src/decimal.ts\<close>, \<open>format.ts\<close> and
  \<open>features/projects/decimal.ts\<close>; the field worker's offline queue is \<open>features/field/outbox.ts\<close>; the
  catalog's forms and sheets are in \<open>features/catalogs\<close>; requests leave through \<open>api/apiMutator.ts\<close>.

  \<^bold>\<open>How the parts interact.\<close> A module's tree is edited by \<open>intentEditing.ts\<close>, the joints between modules
  by \<open>assemblyGraph.ts\<close>, and \<open>productEditing.ts\<close> composes both into the edits of a whole product, with
  the openings of \<open>physicalOpenings.ts\<close> and the dimensions snapped by \<open>snapping.ts\<close>. The editor's state
  (\<open>canvasStore.ts\<close>) keeps the designs of a session, their undo history, the selection, and the survey
  evidence of \<open>mountingModel.ts\<close>. The commands of the editor are one table (\<open>assemblyCommands.ts\<close>): each
  has a guard on the selection, parameters, an edit of the product and a binding to the wire format.
  The menus, the shortcuts, the palette and the operations computed by the engine (\<open>designOps.ts\<close>) all
  reach the product through that table and the dispatch of \<open>commands/registry.ts\<close>. New designs come from
  the recipes of \<open>designLibrary.ts\<close>; the rows beside the drawing (\<open>objectTree.ts\<close>), the profile members
  (\<open>members.ts\<close>) and the leaf hardware (\<open>hardwareVisual.ts\<close>) are read off the product and off what the
  engine has calculated. The catalog a product is built from is edited in forms (\<open>catalogModel.ts\<close>) that turn a
  stored record into a draft of texts and a draft into the request that saves it, and in series sheets
  (\<open>seriesSheetModel.ts\<close>) whose tables edit the cells of many records at once. What a person has typed and not
  saved is kept in the browser's storage, one draft per user, organisation, project and position
  (\<open>positionDraft.ts\<close>). Every request passes \<open>apiMutator\<close>, which adds the session and refuses another
  organisation's call; long work is a job followed by \<open>runJob.ts\<close>.

  \<^bold>\<open>Theories and what they model.\<close>
  \<^item> \<open>Prelude\<close>: values that may be absent, null or present (\<open>field\<close>), exceptions as \<open>result\<close>, list and
    map operations of the language with their lemmas.
  \<^item> \<open>JsNumber\<close>, \<open>JsText\<close>: the language's double-precision numbers as exact rationals with rounding to
    nearest even, overflow and NaN; number to text and text to number, \<open>toFixed\<close>, trimming.
  \<^item> \<open>Snapping\<close> (\<open>snapping.ts\<close>): exact decimals in hundredths of a millimetre; snapping and
    normalisation of typed dimensions.
  \<^item> \<open>Intent\<close> (\<open>intentEditing.ts\<close>): the intent tree as a datatype whose node members are a record; every
    edit, with every exception the code throws.
  \<^item> \<open>AssemblyGraph\<close>, \<open>GraphFacts\<close> (\<open>assemblyGraph.ts\<close>): couplings and their resolution, the union-find
    with path halving, the link guard; the graph theory of joints (connectivity, rings, claims of sides).
  \<^item> \<open>ProductModel\<close>, \<open>ProductStructure\<close>, \<open>StructureProps\<close> (\<open>productEditing.ts\<close>, first half): the product
    types, starters, stacks and elevation layout, and the structural edits with their specifications.
  \<^item> \<open>ProductEdits\<close>, \<open>EditProps\<close> (\<open>productEditing.ts\<close>, second half): edits of modules, bays and couplings;
    the locales \<open>module_edit\<close> and \<open>coupling_edit\<close> state what a client may rely on and are interpreted on
    every edit.
  \<^item> \<open>Openings\<close>, \<open>StructuredOpening\<close> (\<open>physicalOpenings.ts\<close>): the choices offered for a bay, the patch a
    choice writes and how it is recognised, leaf facts per module, and the check of an opening that
    arrives as untyped JSON.
  \<^item> \<open>Decimals\<close>, \<open>DecimalProps\<close> (\<open>decimal.ts\<close>, \<open>projects/decimal.ts\<close>, \<open>format.ts\<close>): exact comparison,
    quantisation, printing and parsing; the check digit of the national identity number.
  \<^item> \<open>Mounting\<close> (\<open>mountingModel.ts\<close>, \<open>mountedWall.ts\<close>): survey evidence and its reconciliation, with the JSON
    text the comparisons go through.
  \<^item> \<open>CanvasStore\<close>, \<open>StoreProps\<close> (\<open>canvasStore.ts\<close>): the store's state and operations, and its history as
    an abstract timeline through the locale \<open>undo_history\<close>. Design inputs and mounting arrays carry a
    reference because the code compares them by reference.
  \<^item> \<open>Json\<close>: JSON values, \<open>JSON.stringify\<close> and \<open>JSON.parse\<close> as the language defines them; \<open>OpeningJson\<close> the
    JSON form of openings and trees; \<open>Glass\<close> (\<open>glassModel.ts\<close>) the glass products and their choice;
    \<open>Messages\<close> (\<open>es-CL.ts\<close>, \<open>domainLabels.ts\<close>) the texts the modelled code shows.
  \<^item> \<open>AssemblyCommands\<close> (\<open>assemblyCommands.ts\<close>): the command table, one entry per command of the code, with
    addresses of the selection, removal by selection, duplication and the operations asked of the engine.
  \<^item> \<open>Editable\<close>, \<open>CommandProps\<close>: the invariant of products under commands. The locale \<open>edit_invariant\<close> says
    what an invariant of products must offer for the table to keep it and is interpreted on \<open>editable\<close>.
  \<^item> \<open>DesignLibrary\<close> (\<open>designLibrary.ts\<close>): the recipes of new designs in the state monad of the identity
    supply \<open>crypto.randomUUID\<close>.
  \<^item> \<open>Members\<close> (\<open>members.ts\<close>, \<open>finishColors.ts\<close>), \<open>ObjectTree\<close> (\<open>objectTree.ts\<close>), \<open>Hardware\<close>
    (\<open>hardwareVisual.ts\<close>): what is drawn and listed for a product, with every fallback.
  \<^item> \<open>Commands\<close> (\<open>commands/types.ts\<close>, \<open>registry.ts\<close>), \<open>DesignOps\<close> (\<open>designOps.ts\<close>, \<open>operationIntents.ts\<close>):
    command records and their dispatch, shortcuts, the product fingerprint on 32-bit words, sealed effects.
  \<^item> \<open>Viewport\<close> (\<open>viewport.ts\<close>): the pan and zoom transform.
  \<^item> \<open>Outbox\<close>, \<open>OutboxProps\<close> (\<open>field/outbox.ts\<close>): the local database, generation stamps, clears and delivery;
    a step relation over all interleavings of the asynchronous operations.
  \<^item> \<open>CatalogForms\<close>, \<open>CatalogProps\<close> (\<open>catalogModel.ts\<close>): the form of every catalog resource, its sections, the
    draft of a stored record, exact decimals, and the body a draft is saved with.
  \<^item> \<open>SeriesSheet\<close>, \<open>SheetProps\<close> (\<open>seriesSheetModel.ts\<close>, \<open>seriesSheetErrors.ts\<close>, the pure part of
    \<open>EditableTable.tsx\<close>): the tables of a series sheet, the binding of their cells, reading a typed cell, and
    gathering edits into one batch; the locale \<open>gathering\<close> is the contract of that loop and is interpreted on it.
  \<^item> \<open>Drafts\<close> (\<open>positionDraft.ts\<close>, \<open>onboarding/draft.ts\<close>, \<open>inspectorDraft.ts\<close>): the drafts kept in the
    browser's storage and the debounced preview of an inspector.
  \<^item> \<open>Gateway\<close> (\<open>apiMutator.ts\<close>, \<open>runJob.ts\<close>, \<open>jobError.ts\<close>, \<open>auth/returnTo.ts\<close>): requests with their
    session and review, downloads, jobs, and the path kept across a sign-in.
  \<^item> \<open>Authority\<close> (\<open>starterAuthority.ts\<close>, \<open>dividerNudge.ts\<close>, \<open>assemblyIssueNavigation.ts\<close>): the openings a new coupled
    design takes from the catalog (an interpretation of \<open>module_edit\<close>), exact moves of a division, where an issue leads.
  \<^item> \<open>Preferences\<close> (\<open>copilotPrefs.ts\<close>, \<open>workPreferences.ts\<close>): preferences and sessions per identity, in storages that may
    be blocked or full, with the memory of the tab.
  \<^item> \<open>Workspace\<close> (\<open>navigation.ts\<close>, \<open>todaySummary.ts\<close>, \<open>workingPrice.ts\<close>, \<open>worksList.ts\<close>, \<open>money.ts\<close>, \<open>policyNumbers.ts\<close>,
    \<open>couplerAuthority.ts\<close>): the small models the pages share.

  \<^bold>\<open>What the lemmas show.\<close> Structural edits keep a product well formed (distinct identities, resolvable
  couplings, one joint per side, no ring), except an insertion into a joint of two equal sides and an edit that re-aims
  a positional joint outside a row, which are shown to break it; they do exactly what they say to modules and joints; the
  remaining edits keep the joints; tree edits change one bay and nothing else, and reading, undoing or
  removing after writing gives back what was there; the undo history refines a bounded timeline and
  forgets nothing within it; the selection resolves after each step through history; survey evidence
  follows its modules; numbers are printed, rounded and read exactly; a plan applies only to the product
  it was computed for; every command of the table keeps a product editable, reports a malformed argument
  instead of running, and addresses only objects that are there; every recipe builds an editable design;
  every member is drawable, every row selects what it names and every hardware fallback is reported;
  evidence cleared at sign-out never comes back; the queue is sent in order; a catalog record that its form
  holds without loss is saved unedited with the values it was read with; an accepted cell is within its column's bounds, lands in the record its row shows, and a batch
  of edits is the same as its edits cell by cell; drafts of different identities never mix, those of the first format
  apart, which an organisation has once per position; a request leaves only
  for the organisation signed in; a followed job ends; a new design keeps its shape when it takes its openings from
  the catalog; the assistant's session is closed once another identity has taken over, also when the storage is full.

  \<^bold>\<open>Termination and bounds.\<close> Every loop is total, except four that the code does not bound and that are
  partial functions into options: path finding in the union-find, which is proved to return, the
  polling of a job, which is proved to return after at most a hundred and fifty polls of a clock that advances, and the two
  loops of \<open>setModuleCount\<close>, of which one is proved not to return when no side is free. Long division
  prints at most forty digits, as the code does; the history holds at most one hundred designs. A call
  whose loop does not return is the error \<open>NoReturn\<close> of the commands that make it, and a value whose
  dynamic type the code does not expect is the error \<open>IllTyped\<close> or the exception the language throws.

  \<^bold>\<open>Not modelled.\<close> The arc geometry of contours and the gamma conversion of finish colours use
  trigonometric and power functions of the platform; the cache signature of members is only a key of a
  view; the sorting of the list of works and the greeting of the day compare and format by locale, which is the
  platform's; the summaries of extras, the thermal forms and the double-read comparison of the catalog are texts of the
  views that own them. React views, the 3D scene, translations, telemetry, the generated API client and calendar
  formatting rest on the platform or on generated code; the backend is another program. Strings hold
  code units below 256, and lists of code units are used where typographic characters matter. Negative
  zero is not distinguished from zero; the language prints both alike in the conversions used here.
\<close>

section \<open>Editing sessions\<close>













end
